(* ===== verification/Prelude.thy ===== *)
theory Prelude
  imports Complex_Main "HOL-Library.AList" "HOL-Library.Char_ord" "HOL-Library.List_Lexorder"
begin

section \<open>Shared vocabulary of the development\<close>

text \<open>
  What every component uses: the integer widths of the source, the standard collections
  (\<open>HashMap\<close> and \<open>BTreeMap\<close>) behind one interface, Rust strings as UTF-8 byte sequences with the
  string functions the sources call, decimal parsing and printing of integers, and JSON values
  with the accessors of \<open>serde_json::Value\<close>.

  Strings are \<^typ>\<open>string\<close> values read as the UTF-8 bytes of a Rust \<open>String\<close>: \<open>len()\<close> is
  \<^const>\<open>length\<close>, and what the source counts or tests per code point (\<open>chars\<close>, \<open>trim\<close>) is
  written over the encoding.
\<close>

named_theorems rust_simps \<open>unfolding of the modelled standard-library functions\<close>
named_theorems store_simps \<open>what the stores return after an update\<close>

subsection \<open>Integers of a fixed width\<close>

text \<open>Two's complement at \<open>w\<close> bits: what an \<open>as\<close> cast keeps and what wrapping addition returns.\<close>

definition wrap_signed :: "nat \<Rightarrow> int \<Rightarrow> int" where
  "wrap_signed w x = (x + 2 ^ (w - 1)) mod 2 ^ w - 2 ^ (w - 1)"

definition in_signed :: "nat \<Rightarrow> int \<Rightarrow> bool" where
  "in_signed w x \<longleftrightarrow> - (2 ^ (w - 1)) \<le> x \<and> x < 2 ^ (w - 1)"

abbreviation as_i64 :: "int \<Rightarrow> int" where "as_i64 \<equiv> wrap_signed 64"
abbreviation in_i64 :: "int \<Rightarrow> bool" where "in_i64 \<equiv> in_signed 64"

definition i64_add :: "int \<Rightarrow> int \<Rightarrow> int" where
  "i64_add a b = wrap_signed 64 (a + b)"

definition i64_sub :: "int \<Rightarrow> int \<Rightarrow> int" where
  "i64_sub a b = wrap_signed 64 (a - b)"

definition i128_add :: "int \<Rightarrow> int \<Rightarrow> int" where
  "i128_add a b = wrap_signed 128 (a + b)"

lemma wrap_signed_id:
  assumes "0 < w" and "in_signed w x"
  shows "wrap_signed w x = x"
proof -
  have two: "(2::int) ^ w = 2 * 2 ^ (w - 1)"
    using assms(1) by (cases w) simp_all
  have "(x + 2 ^ (w - 1)) mod 2 ^ w = x + 2 ^ (w - 1)"
    using assms(2) two by (intro mod_pos_pos_trivial) (auto simp: in_signed_def)
  then show ?thesis by (simp add: wrap_signed_def)
qed

lemma wrap_signed_range:
  assumes "0 < w"
  shows "in_signed w (wrap_signed w x)"
proof -
  have two: "(2::int) ^ w = 2 * 2 ^ (w - 1)"
    using assms by (cases w) simp_all
  have "0 \<le> (x + 2 ^ (w - 1)) mod 2 ^ w" and "(x + 2 ^ (w - 1)) mod 2 ^ w < 2 ^ w"
    by simp_all
  then show ?thesis using two by (simp add: wrap_signed_def in_signed_def)
qed

lemma as_i64_id [simp]: "in_i64 x \<Longrightarrow> as_i64 x = x"
  by (rule wrap_signed_id) simp_all

lemma i64_add_exact: "in_i64 (a + b) \<Longrightarrow> i64_add a b = a + b"
  by (simp add: i64_add_def)

lemma i64_sub_exact: "in_i64 (a - b) \<Longrightarrow> i64_sub a b = a - b"
  by (simp add: i64_sub_def)

lemma i128_add_exact: "in_signed 128 (a + b) \<Longrightarrow> i128_add a b = a + b"
  by (simp add: i128_add_def wrap_signed_id)

lemma in_signed_mono:
  assumes "in_signed w x" and "w \<le> w'"
  shows "in_signed w' x"
proof -
  have "(2::int) ^ (w - 1) \<le> 2 ^ (w' - 1)"
    using assms(2) by (intro power_increasing) simp_all
  then show ?thesis using assms(1) unfolding in_signed_def by linarith
qed

subsection \<open>Maps behind one interface\<close>

text \<open>
  The contract the components rely on. \<open>vals\<close> is the iteration order of \<open>values()\<close>, which Rust
  does not specify for \<open>HashMap\<close>: client lemmas use the set of values only.
\<close>

locale finite_map =
  fixes get :: "'m \<Rightarrow> 'k \<Rightarrow> 'v option"
    and put :: "'k \<Rightarrow> 'v \<Rightarrow> 'm \<Rightarrow> 'm"
    and vals :: "'m \<Rightarrow> 'v list"
    and wf :: "'m \<Rightarrow> bool"
    and emp :: 'm
  assumes get_emp: "get emp k = None"
    and wf_emp: "wf emp"
    and get_put: "wf m \<Longrightarrow> get (put k v m) k' = (if k' = k then Some v else get m k')"
    and wf_put: "wf m \<Longrightarrow> wf (put k v m)"
    and vals_iff: "wf m \<Longrightarrow> x \<in> set (vals m) \<longleftrightarrow> (\<exists>k. get m k = Some x)"
begin

lemma vals_put_subset: "wf m \<Longrightarrow> set (vals (put k v m)) \<subseteq> insert v (set (vals m))"
  by (auto simp: vals_iff wf_put get_put split: if_splits)

lemma vals_put_mem: "wf m \<Longrightarrow> v \<in> set (vals (put k v m))"
  by (auto simp: vals_iff wf_put get_put)

lemma vals_put_new:
  assumes "wf m" and "get m k = None"
  shows "set (vals (put k v m)) = insert v (set (vals m))"
proof
  show "set (vals (put k v m)) \<subseteq> insert v (set (vals m))"
    by (rule vals_put_subset [OF assms(1)])
  have "x \<in> set (vals (put k v m))" if "get m k' = Some x" for k' x
    using that assms by (auto simp: vals_iff wf_put get_put intro!: exI [of _ k'])
  then show "insert v (set (vals m)) \<subseteq> set (vals (put k v m))"
    using vals_put_mem [OF assms(1)] by (auto simp: vals_iff [OF assms(1)])
qed

lemma all_put:
  assumes "wf m" and "\<And>x. x \<in> set (vals m) \<Longrightarrow> P x" and "P v"
    and "x \<in> set (vals (put k v m))"
  shows "P x"
  using vals_put_subset [OF assms(1)] assms(2-4) by blast

lemma get_vals: "wf m \<Longrightarrow> get m k = Some v \<Longrightarrow> v \<in> set (vals m)"
  by (auto simp: vals_iff)

lemma fold_put_wf: "wf m \<Longrightarrow> wf (fold (\<lambda>(k, v). put k v) kvs m)"
  by (induction kvs arbitrary: m) (auto simp: wf_put)

end

type_synonym ('k, 'v) hashmap = "('k \<times> 'v) list"

definition hm_get :: "('k, 'v) hashmap \<Rightarrow> 'k \<Rightarrow> 'v option" where
  "hm_get m k = map_of m k"

definition hm_insert :: "'k \<Rightarrow> 'v \<Rightarrow> ('k, 'v) hashmap \<Rightarrow> ('k, 'v) hashmap" where
  "hm_insert k v m = AList.update k v m"

definition hm_remove :: "'k \<Rightarrow> ('k, 'v) hashmap \<Rightarrow> ('k, 'v) hashmap" where
  "hm_remove k m = AList.delete k m"

definition hm_values :: "('k, 'v) hashmap \<Rightarrow> 'v list" where
  "hm_values m = map snd m"

definition hm_contains :: "('k, 'v) hashmap \<Rightarrow> 'k \<Rightarrow> bool" where
  "hm_contains m k = (hm_get m k \<noteq> None)"

definition hm_wf :: "('k, 'v) hashmap \<Rightarrow> bool" where
  "hm_wf m = distinct (map fst m)"

interpretation hm: finite_map hm_get hm_insert hm_values hm_wf "[]"
proof
  fix m :: "('k, 'v) hashmap" and x
  assume "hm_wf m"
  then show "x \<in> set (hm_values m) \<longleftrightarrow> (\<exists>k. hm_get m k = Some x)"
    by (force simp: hm_wf_def hm_values_def hm_get_def map_of_eq_Some_iff)
qed (auto simp: hm_get_def hm_insert_def hm_wf_def update_conv' distinct_update)

lemma hm_get_insert [simp, store_simps]:
  "hm_get (hm_insert k v m) k' = (if k' = k then Some v else hm_get m k')"
  by (simp add: hm_get_def hm_insert_def update_conv')

lemma distinct_hm_insert: "distinct (map fst m) \<Longrightarrow> distinct (map fst (hm_insert k v m))"
  by (simp add: hm_insert_def distinct_update)

lemma keys_hm_insert: "fst ` set (hm_insert k v m) = insert k (fst ` set m)"
  using dom_update [of k v m] by (simp add: hm_insert_def)

lemma hm_wf_insert [simp]: "hm_wf m \<Longrightarrow> hm_wf (hm_insert k v m)"
  by (rule hm.wf_put)

lemma hm_wf_remove [simp]: "hm_wf m \<Longrightarrow> hm_wf (hm_remove k m)"
  by (simp add: hm_wf_def hm_remove_def distinct_delete)

lemma hm_get_remove [simp, store_simps]:
  "hm_get (hm_remove k m) k' = (if k' = k then None else hm_get m k')"
  by (simp add: hm_get_def hm_remove_def delete_conv')

lemma hm_get_Nil [simp]: "hm_get [] k = None"
  by (simp add: hm_get_def)

lemma hm_wf_Nil [simp]: "hm_wf []"
  by (simp add: hm_wf_def)

text \<open>\<open>BTreeMap\<close>: an association list sorted by key; \<open>insert\<close> keeps the order.\<close>

fun bt_insert :: "'k::linorder \<Rightarrow> 'v \<Rightarrow> ('k \<times> 'v) list \<Rightarrow> ('k \<times> 'v) list" where
  "bt_insert k v [] = [(k, v)]"
| "bt_insert k v ((k', v') # m) =
     (if k = k' then (k, v) # m
      else if k < k' then (k, v) # (k', v') # m
      else (k', v') # bt_insert k v m)"

definition bt_wf :: "('k::linorder \<times> 'v) list \<Rightarrow> bool" where
  "bt_wf m = sorted_wrt (<) (map fst m)"

lemma bt_insert_keys: "set (map fst (bt_insert k v m)) = insert k (set (map fst m))"
  by (induction k v m rule: bt_insert.induct) (simp_all add: insert_commute)

lemma bt_wf_insert [simp]: "bt_wf m \<Longrightarrow> bt_wf (bt_insert k v m)"
proof (induction m)
  case Nil
  then show ?case by (simp add: bt_wf_def)
next
  case (Cons p m)
  obtain k' v' where p: "p = (k', v')" by fastforce
  have tl: "bt_wf m" and hd: "\<forall>y \<in> set (map fst m). k' < y"
    using Cons.prems by (auto simp: bt_wf_def p)
  show ?case
  proof (cases "k' < k")
    case True
    then have "\<forall>y \<in> set (map fst (bt_insert k v m)). k' < y"
      using hd by (simp only: bt_insert_keys) simp
    with Cons.IH [OF tl] True show ?thesis by (auto simp: bt_wf_def p)
  next
    case False
    have "\<forall>y \<in> set (map fst m). k < y" if "k < k'"
      using hd that by fastforce
    with Cons.prems False show ?thesis by (auto simp: bt_wf_def p)
  qed
qed

lemma map_of_bt_insert [simp]:
  "map_of (bt_insert k v m) k' = (if k' = k then Some v else map_of m k')"
  by (induction m) auto

lemma bt_wf_distinct: "bt_wf m \<Longrightarrow> distinct (map fst m)"
  by (simp add: bt_wf_def strict_sorted_iff)

interpretation bt: finite_map "map_of :: ('k::linorder \<times> 'v) list \<Rightarrow> 'k \<Rightarrow> 'v option"
  bt_insert "map snd" bt_wf "[]"
proof
  fix m :: "('k \<times> 'v) list" and x
  assume "bt_wf m"
  then have "distinct (map fst m)" by (rule bt_wf_distinct)
  then show "x \<in> set (map snd m) \<longleftrightarrow> (\<exists>k. map_of m k = Some x)"
    by (force simp: map_of_eq_Some_iff)
qed (auto simp: bt_wf_def [of "[]"])

subsection \<open>Strings as UTF-8 bytes\<close>

definition byte :: "char \<Rightarrow> nat" where
  "byte c = of_char c"

text \<open>\<open>char::is_ascii_*\<close> and \<open>u8::is_ascii_*\<close> on one byte.\<close>

definition is_ascii_uppercase :: "char \<Rightarrow> bool" where
  "is_ascii_uppercase c \<longleftrightarrow> 65 \<le> byte c \<and> byte c \<le> 90"

definition is_ascii_digit :: "char \<Rightarrow> bool" where
  "is_ascii_digit c \<longleftrightarrow> 48 \<le> byte c \<and> byte c \<le> 57"

definition is_ascii_hexdigit :: "char \<Rightarrow> bool" where
  "is_ascii_hexdigit c \<longleftrightarrow>
     is_ascii_digit c \<or> 65 \<le> byte c \<and> byte c \<le> 70 \<or> 97 \<le> byte c \<and> byte c \<le> 102"

definition is_ascii_alphanumeric :: "char \<Rightarrow> bool" where
  "is_ascii_alphanumeric c \<longleftrightarrow>
     is_ascii_digit c \<or> is_ascii_uppercase c \<or> 97 \<le> byte c \<and> byte c \<le> 122"

definition is_ascii :: "string \<Rightarrow> bool" where
  "is_ascii s = list_all (\<lambda>c. byte c < 128) s"

definition to_ascii_lowercase :: "string \<Rightarrow> string" where
  "to_ascii_lowercase s =
     map (\<lambda>c. if is_ascii_uppercase c then char_of (byte c + 32) else c) s"

text \<open>\<open>s.chars().count()\<close>: every byte but the continuation bytes \<open>10xxxxxx\<close> starts a code point.\<close>

definition chars_count :: "string \<Rightarrow> nat" where
  "chars_count s = length (filter (\<lambda>c. \<not> (128 \<le> byte c \<and> byte c < 192)) s)"

text \<open>
  The length in bytes of the \<open>White_Space\<close> code point the bytes start with, 0 when they start with
  another: the ASCII ones, U+0085, U+00A0, U+1680, U+2000 to U+200A, U+2028, U+2029, U+202F,
  U+205F and U+3000.
\<close>

fun ws_len :: "nat list \<Rightarrow> nat" where
  "ws_len (a # b # c # _) =
     (if a \<in> {9, 10, 11, 12, 13, 32} then 1
      else if a = 194 \<and> b \<in> {133, 160} then 2
      else if a = 225 \<and> b = 154 \<and> c = 128 then 3
      else if a = 226 \<and> b = 128 \<and> (128 \<le> c \<and> c \<le> 138 \<or> c \<in> {168, 169, 175}) then 3
      else if a = 226 \<and> b = 129 \<and> c = 159 then 3
      else if a = 227 \<and> b = 128 \<and> c = 128 then 3
      else 0)"
| "ws_len [a, b] =
     (if a \<in> {9, 10, 11, 12, 13, 32} then 1
      else if a = 194 \<and> b \<in> {133, 160} then 2 else 0)"
| "ws_len [a] = (if a \<in> {9, 10, 11, 12, 13, 32} then 1 else 0)"
| "ws_len [] = 0"

lemma ws_len_le: "ws_len bs \<le> length bs"
  by (induction bs rule: ws_len.induct) simp_all

text \<open>\<open>ws_tail\<close> is the same test on the last code point: its argument is the reversed bytes.\<close>

definition ws_tail :: "nat list \<Rightarrow> nat" where
  "ws_tail rbs =
     (if ws_len (rev (take 1 rbs)) = 1 \<and> rbs \<noteq> [] then 1
      else if ws_len (rev (take 2 rbs)) = 2 then 2
      else if ws_len (rev (take 3 rbs)) = 3 then 3
      else 0)"

lemma ws_tail_le: "ws_tail rbs \<le> length rbs"
  using ws_len_le [of "rev (take 2 rbs)"] ws_len_le [of "rev (take 3 rbs)"]
  by (cases rbs) (auto simp: ws_tail_def)

function trim_by :: "(nat list \<Rightarrow> nat) \<Rightarrow> string \<Rightarrow> string" where
  "trim_by f s =
     (if f (map byte s) = 0 \<or> s = [] then s else trim_by f (drop (f (map byte s)) s))"
  by pat_completeness auto
termination
  by (relation "measure (\<lambda>(f, s). length s)") auto

declare trim_by.simps [simp del]

definition trim_start :: "string \<Rightarrow> string" where
  "trim_start s = trim_by ws_len s"

definition trim_end :: "string \<Rightarrow> string" where
  "trim_end s = rev (trim_by ws_tail (rev s))"

definition trim :: "string \<Rightarrow> string" where
  "trim s = trim_end (trim_start s)"

text \<open>\<open>s.chars().any(char::is_control)\<close>: U+0000 to U+001F, U+007F, U+0080 to U+009F.\<close>

fun has_control :: "string \<Rightarrow> bool" where
  "has_control (a # b # s) =
     (byte a < 32 \<or> byte a = 127 \<or> (byte a = 194 \<and> 128 \<le> byte b \<and> byte b < 160)
      \<or> has_control (b # s))"
| "has_control [a] = (byte a < 32 \<or> byte a = 127)"
| "has_control [] = False"

text \<open>\<open>str::strip_prefix\<close>, \<open>starts_with\<close>, \<open>ends_with\<close>, \<open>contains\<close> and \<open>split\<close> on a character.\<close>

fun strip_prefix :: "string \<Rightarrow> string \<Rightarrow> string option" where
  "strip_prefix [] s = Some s"
| "strip_prefix (p # ps) [] = None"
| "strip_prefix (p # ps) (c # s) = (if p = c then strip_prefix ps s else None)"

definition starts_with :: "string \<Rightarrow> string \<Rightarrow> bool" where
  "starts_with p s \<longleftrightarrow> strip_prefix p s \<noteq> None"

fun contains_str :: "string \<Rightarrow> string \<Rightarrow> bool" where
  "contains_str p [] = (p = [])"
| "contains_str p (c # s) = (starts_with p (c # s) \<or> contains_str p s)"

fun split_on :: "char \<Rightarrow> string \<Rightarrow> string list" where
  "split_on d [] = [[]]"
| "split_on d (c # s) =
     (if c = d then [] # split_on d s
      else case split_on d s of [] \<Rightarrow> [[c]] | p # ps \<Rightarrow> (c # p) # ps)"

lemma strip_prefix_Some [simp]: "strip_prefix p s = Some t \<longleftrightarrow> s = p @ t"
  by (induction p s rule: strip_prefix.induct) auto

lemma strip_prefix_None [simp]: "strip_prefix p s = None \<longleftrightarrow> (\<nexists>t. s = p @ t)"
  by (metis not_None_eq strip_prefix_Some)

lemma starts_with_iff: "starts_with p s \<longleftrightarrow> (\<exists>t. s = p @ t)"
  by (simp add: starts_with_def)

lemma split_on_nonempty [simp]: "split_on d s \<noteq> []"
  by (induction s) (auto split: list.splits)

lemma trim_by_length: "length (trim_by f s) \<le> length s"
proof (induction f s rule: trim_by.induct)
  case (1 f s)
  show ?case
  proof (cases "f (map byte s) = 0 \<or> s = []")
    case True
    then show ?thesis by (simp add: trim_by.simps [of f s])
  next
    case False
    with "1.IH" have "length (trim_by f (drop (f (map byte s)) s)) \<le> length (drop (f (map byte s)) s)"
      by simp
    also have "\<dots> \<le> length s" by simp
    finally show ?thesis using False by (simp add: trim_by.simps [of f s])
  qed
qed

lemma trim_by_fix: "trim_by f s \<noteq> [] \<Longrightarrow> f (map byte (trim_by f s)) = 0"
proof (induction f s rule: trim_by.induct)
  case (1 f s)
  then show ?case
    by (cases "f (map byte s) = 0 \<or> s = []") (auto simp: trim_by.simps [of f s])
qed

lemma trim_by_stop: "f (map byte s) = 0 \<Longrightarrow> trim_by f s = s"
  by (simp add: trim_by.simps)

lemma trim_length: "length (trim s) \<le> length s"
  using trim_by_length [of ws_len s] trim_by_length [of ws_tail "rev (trim_start s)"]
  by (simp add: trim_def trim_end_def trim_start_def)

subsection \<open>Decimal integers: \<open>to_string\<close> and \<open>parse\<close>\<close>

definition digit_char :: "nat \<Rightarrow> char" where
  "digit_char d = char_of (48 + d)"

fun nat_to_string :: "nat \<Rightarrow> string" where
  "nat_to_string n =
     (if n < 10 then [digit_char n] else nat_to_string (n div 10) @ [digit_char (n mod 10)])"

declare nat_to_string.simps [simp del]

definition int_to_string :: "int \<Rightarrow> string" where
  "int_to_string i =
     (if i < 0 then CHR ''-'' # nat_to_string (nat (- i)) else nat_to_string (nat i))"

fun digits_value :: "nat \<Rightarrow> string \<Rightarrow> nat option" where
  "digits_value acc [] = Some acc"
| "digits_value acc (c # s) =
     (if is_ascii_digit c then digits_value (10 * acc + (byte c - 48)) s else None)"

text \<open>\<open>parse::<iN>\<close>: an optional sign, at least one digit, and a value in the range of the type.\<close>

definition parse_digits :: "string \<Rightarrow> nat option" where
  "parse_digits s = (if s = [] then None else digits_value 0 s)"

definition parse_signed :: "nat \<Rightarrow> string \<Rightarrow> int option" where
  "parse_signed w s =
     (case (case s of [] \<Rightarrow> None
            | c # t \<Rightarrow> if c = CHR ''-'' then map_option (\<lambda>n. - int n) (parse_digits t)
                       else if c = CHR ''+'' then map_option int (parse_digits t)
                       else map_option int (parse_digits s)) of
        None \<Rightarrow> None
      | Some i \<Rightarrow> if in_signed w i then Some i else None)"

lemma byte_digit_char [simp]: "d < 10 \<Longrightarrow> byte (digit_char d) = 48 + d"
  by (simp add: byte_def digit_char_def of_char_of)

lemma is_ascii_digit_char [simp]: "d < 10 \<Longrightarrow> is_ascii_digit (digit_char d)"
  by (simp add: is_ascii_digit_def)

lemma digits_value_append:
  "digits_value a (s @ t) =
     (case digits_value a s of None \<Rightarrow> None | Some b \<Rightarrow> digits_value b t)"
  by (induction a s rule: digits_value.induct) auto

lemma digits_value_nat_to_string: "digits_value 0 (nat_to_string n) = Some n"
proof (induction n rule: nat_to_string.induct)
  case (1 n)
  show ?case
  proof (cases "n < 10")
    case True
    then show ?thesis by (simp add: nat_to_string.simps [of n])
  next
    case False
    with "1.IH" have "digits_value 0 (nat_to_string (n div 10)) = Some (n div 10)" by simp
    with False show ?thesis
      by (simp add: nat_to_string.simps [of n] digits_value_append)
  qed
qed

lemma nat_to_string_digits: "list_all is_ascii_digit (nat_to_string n)"
proof (induction n rule: nat_to_string.induct)
  case (1 n)
  then show ?case by (cases "n < 10") (simp_all add: nat_to_string.simps [of n])
qed

lemma nat_to_string_not_Nil [simp]: "nat_to_string n \<noteq> []"
  by (simp add: nat_to_string.simps)

lemma parse_digits_nat_to_string [simp]: "parse_digits (nat_to_string n) = Some n"
  by (simp add: parse_digits_def digits_value_nat_to_string)

lemma parse_int_to_string: "in_signed w i \<Longrightarrow> parse_signed w (int_to_string i) = Some i"
proof (cases "i < 0")
  case True
  assume "in_signed w i"
  with True show ?thesis by (simp add: int_to_string_def parse_signed_def)
next
  case False
  assume i: "in_signed w i"
  obtain c t where ct: "nat_to_string (nat i) = c # t"
    using nat_to_string_not_Nil by (meson neq_Nil_conv)
  have "is_ascii_digit c"
    using nat_to_string_digits [of "nat i"] by (simp add: ct)
  then have "c \<noteq> CHR ''-''" and "c \<noteq> CHR ''+''"
    by (auto simp: is_ascii_digit_def byte_def)
  then show ?thesis
    using False i parse_digits_nat_to_string [of "nat i"]
    by (simp add: int_to_string_def parse_signed_def ct)
qed

lemma parse_signed_range: "parse_signed w s = Some i \<Longrightarrow> in_signed w i"
  by (auto simp: parse_signed_def split: option.splits if_splits)

subsection \<open>JSON values\<close>

text \<open>
  \<open>serde_json::Value\<close>. An object is a \<open>BTreeMap\<close> (the workspace does not enable
  \<open>preserve_order\<close>), a number is an integer or the value of a float.
\<close>

datatype json =
    JNull
  | JBool bool
  | JInt int
  | JFloat rat
  | JString string
  | JArray "json list"
  | JObject "(string \<times> json) list"

fun json_get :: "json \<Rightarrow> string \<Rightarrow> json option" where
  "json_get (JObject kvs) k = map_of kvs k"
| "json_get _ k = None"

fun as_str :: "json \<Rightarrow> string option" where
  "as_str (JString s) = Some s"
| "as_str _ = None"

fun as_array :: "json \<Rightarrow> json list option" where
  "as_array (JArray xs) = Some xs"
| "as_array _ = None"

fun json_as_i64 :: "json \<Rightarrow> int option" where
  "json_as_i64 (JInt i) = (if in_i64 i then Some i else None)"
| "json_as_i64 _ = None"

text \<open>\<open>v.get(key).and_then(Value::as_str)\<close>.\<close>

definition get_str :: "json \<Rightarrow> string \<Rightarrow> string option" where
  "get_str v k = Option.bind (json_get v k) as_str"

text \<open>Object insertion through \<open>as_object_mut\<close>: no effect on a value that is not an object.\<close>

fun json_insert :: "string \<Rightarrow> json \<Rightarrow> json \<Rightarrow> json" where
  "json_insert k v (JObject kvs) = JObject (bt_insert k v kvs)"
| "json_insert k v j = j"

text \<open>The \<open>json!\<close> macro on an object literal.\<close>

definition json_object :: "(string \<times> json) list \<Rightarrow> json" where
  "json_object kvs = JObject (fold (\<lambda>(k, v). bt_insert k v) kvs [])"

fun is_object :: "json \<Rightarrow> bool" where
  "is_object (JObject _) = True"
| "is_object _ = False"

text \<open>An \<open>Option<String>\<close> inside \<open>json!\<close>: \<open>None\<close> is \<open>null\<close>.\<close>

fun json_opt_str :: "string option \<Rightarrow> json" where
  "json_opt_str None = JNull"
| "json_opt_str (Some s) = JString s"

lemma json_get_insert [simp]:
  "is_object v \<Longrightarrow> json_get (json_insert k x v) k' = (if k' = k then Some x else json_get v k')"
  by (cases v) simp_all

lemma json_insert_no_object: "\<not> is_object v \<Longrightarrow> json_insert k x v = v"
  by (cases v) simp_all

lemma is_object_insert [simp]: "is_object (json_insert k x v) = is_object v"
  by (cases v) simp_all

lemma is_object_json_object [simp]: "is_object (json_object kvs)"
  by (simp add: json_object_def)

lemma json_get_not_object: "json_get v k = Some x \<Longrightarrow> is_object v"
  by (cases v) simp_all

lemma map_of_fold_bt_insert:
  "map_of (fold (\<lambda>(k, v). bt_insert k v) kvs m) k =
     (case map_of (rev kvs) k of None \<Rightarrow> map_of m k | Some v \<Rightarrow> Some v)"
  by (induction kvs arbitrary: m) (auto simp: map_add_def split: option.splits)

lemma json_get_object:
  "json_get (json_object kvs) k = map_of (rev kvs) k"
  by (simp add: json_object_def map_of_fold_bt_insert split: option.splits)

subsection \<open>Results and API errors\<close>

text \<open>
  \<open>ApiError\<close> (error.rs) with its HTTP status and its code. The human-readable message and the
  optional details carry no behaviour and are left out.
\<close>

datatype api_error = ApiError (err_status: nat) (err_code: string)

type_synonym 'a api_result = "api_error + 'a"

text \<open>Instants of \<open>OffsetDateTime\<close>, as nanoseconds since the epoch: equal instants are equal values.\<close>

type_synonym timestamp = int

lemma map_sum_InrE: "map_sum f g x = Inr y \<Longrightarrow> (\<And>z. x = Inr z \<Longrightarrow> y = g z \<Longrightarrow> P) \<Longrightarrow> P"
  by (cases x) auto

end
