(* ===== verification/Ledger_Domain.thy ===== *)
theory Ledger_Domain
  imports Prelude
begin

section \<open>The double-entry rules (crates/ledger-domain)\<close>

text \<open>
  \<open>Money::new\<close>, \<open>EntryDraft\<close>, \<open>DomainError\<close> and \<open>validate_balanced\<close>. The amounts are \<open>i128\<close>; the
  running sum of \<open>validate_balanced\<close> is modelled at that width, and \<open>balance_loop_exact\<close> shows
  that it never wraps on a vector Rust can hold.
\<close>

datatype domain_error =
    ZeroAmount | InvalidCurrency | AmountOutOfRange | TooFewEntries | Unbalanced | CurrencyMismatch

record money =
  money_amount_minor :: int
  money_currency :: string

record entry_draft =
  draft_account_id :: string
  draft_amount_minor :: int
  draft_currency :: string

definition valid_currency :: "string \<Rightarrow> bool" where
  "valid_currency c \<longleftrightarrow> length c = 3 \<and> list_all is_ascii_uppercase c"

definition money_new :: "int \<Rightarrow> string \<Rightarrow> domain_error + money" where
  "money_new amount currency =
     (if amount = 0 then Inl ZeroAmount
      else if length currency \<noteq> 3 \<or> \<not> list_all is_ascii_uppercase currency then Inl InvalidCurrency
      else if amount < - (2 ^ 63) \<or> amount > 2 ^ 63 - 1 then Inl AmountOutOfRange
      else Inr \<lparr>money_amount_minor = amount, money_currency = currency\<rparr>)"

text \<open>The loop of \<open>validate_balanced\<close>: \<open>sum += e.amount_minor\<close> at 128 bits.\<close>

fun balance_loop :: "string \<Rightarrow> int \<Rightarrow> entry_draft list \<Rightarrow> domain_error + int" where
  "balance_loop currency acc [] = Inr acc"
| "balance_loop currency acc (e # es) =
     (if draft_currency e \<noteq> currency then Inl CurrencyMismatch
      else case money_new (draft_amount_minor e) (draft_currency e) of
        Inl err \<Rightarrow> Inl err
      | Inr _ \<Rightarrow> balance_loop currency (i128_add acc (draft_amount_minor e)) es)"

definition validate_balanced :: "entry_draft list \<Rightarrow> domain_error + unit" where
  "validate_balanced entries =
     (if length entries < 2 then Inl TooFewEntries
      else case balance_loop (draft_currency (hd entries)) 0 entries of
        Inl err \<Rightarrow> Inl err
      | Inr acc \<Rightarrow> if acc \<noteq> 0 then Inl Unbalanced else Inr ())"

subsection \<open>What the rules promise\<close>

text \<open>One well-formed entry of a transaction in \<open>currency\<close>.\<close>

definition entry_ok :: "string \<Rightarrow> entry_draft \<Rightarrow> bool" where
  "entry_ok currency e \<longleftrightarrow>
     draft_currency e = currency \<and> valid_currency currency \<and>
     draft_amount_minor e \<noteq> 0 \<and> in_i64 (draft_amount_minor e)"

definition balanced_spec :: "entry_draft list \<Rightarrow> bool" where
  "balanced_spec es \<longleftrightarrow>
     2 \<le> length es \<and> list_all (entry_ok (draft_currency (hd es))) es \<and>
     sum_list (map draft_amount_minor es) = 0"

lemma money_new_Inr:
  "money_new a c = Inr m \<longleftrightarrow>
     a \<noteq> 0 \<and> valid_currency c \<and> in_i64 a \<and> m = \<lparr>money_amount_minor = a, money_currency = c\<rparr>"
  by (auto simp: money_new_def valid_currency_def in_signed_def)

lemma entry_ok_money_new:
  "entry_ok cur e \<longleftrightarrow>
     draft_currency e = cur \<and> (\<exists>m. money_new (draft_amount_minor e) (draft_currency e) = Inr m)"
  by (auto simp: entry_ok_def money_new_Inr)

text \<open>
  With \<open>n\<close> entries of at most 63 bits the sum stays within \<open>n * 2 ^ 63\<close>, so the accumulator is
  exact as long as there are fewer than \<open>2 ^ 63\<close> entries (a \<open>Vec\<close> holds fewer).
\<close>

lemma balance_loop_exact:
  assumes "list_all (entry_ok cur) es"
    and "\<bar>acc\<bar> \<le> int n * 2 ^ 63" and "n + length es < 2 ^ 63"
  shows "balance_loop cur acc es = Inr (acc + sum_list (map draft_amount_minor es))"
  using assms
proof (induction es arbitrary: acc n)
  case Nil
  then show ?case by simp
next
  case (Cons e es)
  let ?a = "draft_amount_minor e"
  have ok: "draft_currency e = cur" "\<exists>m. money_new ?a (draft_currency e) = Inr m"
    using Cons.prems(1) by (auto simp: entry_ok_money_new)
  have "\<bar>?a\<bar> \<le> 2 ^ 63"
    using Cons.prems(1) by (auto simp: entry_ok_def in_signed_def)
  then have bound: "\<bar>acc + ?a\<bar> \<le> int (Suc n) * 2 ^ 63"
    using Cons.prems(2) by (simp add: algebra_simps)
  have "int (Suc n) < 2 ^ 63" using Cons.prems(3) by simp
  then have "int (Suc n) * 2 ^ 63 < 2 ^ 63 * (2 ^ 63 :: int)"
    by (intro mult_strict_right_mono) simp_all
  moreover have "2 ^ 63 * (2 ^ 63 :: int) \<le> 2 ^ (128 - 1)" by simp
  ultimately have "in_signed 128 (acc + ?a)"
    using bound unfolding in_signed_def by linarith
  then have add: "i128_add acc ?a = acc + ?a" by (rule i128_add_exact)
  have "balance_loop cur (acc + ?a) es =
      Inr (acc + ?a + sum_list (map draft_amount_minor es))"
    using Cons.prems bound by (intro Cons.IH [of _ "Suc n"]) simp_all
  with ok add show ?case by auto
qed

lemma balance_loop_Inr_ok: "balance_loop cur acc es = Inr r \<Longrightarrow> list_all (entry_ok cur) es"
  by (induction es arbitrary: acc)
    (auto simp: entry_ok_money_new split: if_splits sum.splits)

lemma balance_loop_start:
  assumes "length es < 2 ^ 63"
  shows "balance_loop cur 0 es = Inr r \<longleftrightarrow>
     list_all (entry_ok cur) es \<and> r = sum_list (map draft_amount_minor es)"
proof
  assume r: "balance_loop cur 0 es = Inr r"
  have ok: "list_all (entry_ok cur) es" using r by (rule balance_loop_Inr_ok)
  with r assms show "list_all (entry_ok cur) es \<and> r = sum_list (map draft_amount_minor es)"
    by (simp add: balance_loop_exact [of cur es 0 0])
next
  assume "list_all (entry_ok cur) es \<and> r = sum_list (map draft_amount_minor es)"
  with assms show "balance_loop cur 0 es = Inr r"
    by (simp add: balance_loop_exact [of cur es 0 0])
qed

lemma balance_loop_Inl:
  "length es < 2 ^ 63 \<Longrightarrow> balance_loop cur 0 es = Inl err \<Longrightarrow> \<not> list_all (entry_ok cur) es"
  using balance_loop_exact [of cur es 0 0] by auto

lemma balance_loop_error:
  "balance_loop cur acc es = Inl err \<Longrightarrow>
     err \<in> {CurrencyMismatch, ZeroAmount, InvalidCurrency, AmountOutOfRange}"
  by (induction es arbitrary: acc)
    (auto simp: money_new_def split: if_splits sum.splits)

lemma validate_balanced_ok_spec:
  assumes "length es < 2 ^ 63"
  shows "validate_balanced es = Inr () \<longleftrightarrow> balanced_spec es"
  using assms balance_loop_Inl [OF assms, of "draft_currency (hd es)"]
  by (auto simp: validate_balanced_def balanced_spec_def balance_loop_start
      split: sum.splits if_splits)

text \<open>
  C15. A list of entries passes \<open>validate_balanced\<close> exactly when it has at least two entries, all in
  one upper-case three-letter currency, all non-zero and in the \<open>i64\<close> range, that sum to zero
  (over the integers: the \<open>i128\<close> accumulator does not wrap on fewer than \<open>2 ^ 63\<close> entries).
\<close>

theorem validate_balanced_iff:
  assumes "length es < 2 ^ 63"
  shows "validate_balanced es = Inr () \<longleftrightarrow>
     2 \<le> length es \<and>
     valid_currency (draft_currency (hd es)) \<and>
     list_all (\<lambda>e. draft_currency e = draft_currency (hd es) \<and>
                   draft_amount_minor e \<noteq> 0 \<and> in_i64 (draft_amount_minor e)) es \<and>
     sum_list (map draft_amount_minor es) = 0"
proof -
  have "list_all (entry_ok c) es \<longleftrightarrow> valid_currency c \<and>
      list_all (\<lambda>e. draft_currency e = c \<and> draft_amount_minor e \<noteq> 0 \<and>
        in_i64 (draft_amount_minor e)) es" if "2 \<le> length es" for c
    using that by (cases es) (auto simp: entry_ok_def list_all_iff)
  then show ?thesis
    using assms by (auto simp: validate_balanced_ok_spec balanced_spec_def)
qed

theorem validate_balanced_iff_witness:
  "validate_balanced
     [\<lparr>draft_account_id = ''a'', draft_amount_minor = 100, draft_currency = ''CNY''\<rparr>,
      \<lparr>draft_account_id = ''b'', draft_amount_minor = - 100, draft_currency = ''CNY''\<rparr>] = Inr ()"
  by (subst validate_balanced_iff)
    (simp_all add: valid_currency_def in_signed_def is_ascii_uppercase_def byte_def)

text \<open>
  The order of the checks: fewer than two entries is \<open>TooFewEntries\<close> before anything is read,
  and \<open>Unbalanced\<close> is reported only for entries that are otherwise well formed, so the receipt code
  LEDGER_UNBALANCED always means a non-zero sum.
\<close>

theorem validate_balanced_errors:
  assumes "length es < 2 ^ 63"
  shows "(validate_balanced es = Inl TooFewEntries \<longleftrightarrow> length es < 2) \<and>
    (validate_balanced es = Inl Unbalanced \<longleftrightarrow>
      2 \<le> length es \<and> list_all (entry_ok (draft_currency (hd es))) es \<and>
      sum_list (map draft_amount_minor es) \<noteq> 0)"
  using assms balance_loop_error [of "draft_currency (hd es)" 0 es]
    balance_loop_Inl [OF assms, of "draft_currency (hd es)"]
  by (auto simp: validate_balanced_def balance_loop_start split: sum.splits if_splits)

theorem validate_balanced_errors_witness:
  "validate_balanced
     [\<lparr>draft_account_id = ''a'', draft_amount_minor = 100, draft_currency = ''CNY''\<rparr>,
      \<lparr>draft_account_id = ''b'', draft_amount_minor = - 50, draft_currency = ''CNY''\<rparr>] = Inl Unbalanced"
  by (subst validate_balanced_errors [THEN conjunct2])
    (simp_all add: entry_ok_def valid_currency_def in_signed_def is_ascii_uppercase_def byte_def)

end
