(* ===== verification/Store_State.thy ===== *)
theory Store_State
  imports Prelude
begin

section \<open>The application state (server/src/state.rs)\<close>

text \<open>
  The records of \<open>MemoryStore\<close>, the default chart of accounts, \<open>scoped_account_id\<close>,
  \<open>seed_accounts_mem\<close> and the in-memory branch of \<open>ensure_demo_book\<close>. Field names carry a prefix
  per struct, because record fields are global names.

  Versions and sequence numbers are \<open>i64\<close> counters that only ever grow by one from a start of at
  most one, so they are modelled as \<^typ>\<open>int\<close>. A value of \<open>Uuid::now_v7()\<close> or of the clock is
  an argument of the operation that reads it.

  The invariants of the store stated here: \<open>log_ok\<close> (the change log is numbered from one without
  gaps) and \<open>accounts_ok\<close> (ids are scoped to the book and the category tree has two levels).
\<close>

record user_record =
  usr_id :: string
  usr_email :: string
  usr_password_hash :: string
  usr_display_name :: string

record session_record =
  ses_id :: string
  ses_user_id :: string
  ses_device_id :: string
  ses_refresh_hash :: string
  ses_revoked :: bool

record book_record =
  bk_id :: string
  bk_name :: string
  bk_owner_id :: string

record account_record =
  acc_id :: string
  acc_book_id :: string
  acc_name :: string
  acc_account_type :: string
  acc_currency :: string
  acc_parent_account_id :: "string option"
  acc_version :: int

type_synonym entry = "string \<times> int \<times> string"

record tx_record =
  tx_id :: string
  tx_book_id :: string
  tx_occurred_at :: timestamp
  tx_description :: "string option"
  tx_version :: int
  tx_deleted :: bool
  tx_entries :: "entry list"
  tx_source :: "string option"
  tx_source_event_fingerprint :: "string option"

record mutation_receipt =
  mr_status :: string
  mr_result_code :: string
  mr_entity_version :: "int option"

record change_record =
  chg_sequence :: int
  chg_book_id :: string
  chg_commit_id :: string
  chg_entity_type :: string
  chg_entity_id :: string
  chg_operation :: string
  chg_entity_version :: int
  chg_payload :: json

record budget_record =
  bud_id :: string
  bud_book_id :: string
  bud_name :: string
  bud_amount_minor :: int
  bud_currency :: string
  bud_category_account_id :: "string option"

record invite_record =
  inv_id :: string
  inv_book_id :: string
  inv_email :: string
  inv_role :: string
  inv_token :: string

record attachment_record =
  att_id :: string
  att_book_id :: string
  att_transaction_id :: "string option"
  att_file_name :: "string option"
  att_object_key :: string
  att_content_hash :: "string option"
  att_mime_type :: "string option"
  att_size_bytes :: "int option"
  att_upload_status :: string
  att_upload_mode :: string
  att_multipart_upload_id :: "string option"
  att_multipart_parts :: "string list"
  att_created_by :: "string option"
  att_created_at :: timestamp

record fx_rate_record =
  fx_book_id :: string
  fx_base_currency :: string
  fx_quote_currency :: string
  fx_rate :: rat

record revision_record =
  rev_id :: string
  rev_book_id :: string
  rev_transaction_id :: string
  rev_version :: int
  rev_operation :: string
  rev_payload :: json

record audit_event_record =
  aud_id :: string
  aud_occurred_at :: timestamp
  aud_actor_type :: string
  aud_actor_id :: "string option"
  aud_action :: string
  aud_outcome :: string
  aud_target_type :: "string option"
  aud_target_id :: "string option"
  aud_request_id :: "string option"
  aud_metadata :: json

record memory_store =
  users :: "(string, user_record) hashmap"
  users_by_email :: "(string, string) hashmap"
  sessions :: "(string, session_record) hashmap"
  refresh_to_session :: "(string, string) hashmap"
  books :: "(string, book_record) hashmap"
  accounts :: "(string, account_record) hashmap"
  transactions :: "(string, tx_record) hashmap"
  mutations :: "(string \<times> string \<times> string, mutation_receipt) hashmap"
  changes :: "change_record list"
  budgets :: "budget_record list"
  invites :: "invite_record list"
  subscriptions :: "(string, string) hashmap"
  fx_rates :: "fx_rate_record list"
  revisions :: "revision_record list"
  audit_events :: "audit_event_record list"
  attachments :: "attachment_record list"

definition empty_store :: memory_store where
  "empty_store = \<lparr>users = [], users_by_email = [], sessions = [], refresh_to_session = [],
     books = [], accounts = [], transactions = [], mutations = [], changes = [], budgets = [],
     invites = [], subscriptions = [], fx_rates = [], revisions = [], audit_events = [],
     attachments = []\<rparr>"

definition DEFAULT_ACCOUNTS :: "(string \<times> string \<times> string \<times> string option) list" where
  "DEFAULT_ACCOUNTS =
    [(''acc_cash'', ''Cash'', ''asset'', None),
     (''acc_bank'', ''Bank'', ''asset'', None),
     (''acc_food'', ''Food'', ''expense'', None),
     (''acc_food_meals'', ''Meals'', ''expense'', Some ''acc_food''),
     (''acc_food_drinks'', ''Drinks & Snacks'', ''expense'', Some ''acc_food''),
     (''acc_transport'', ''Transport'', ''expense'', None),
     (''acc_transport_public'', ''Public Transport'', ''expense'', Some ''acc_transport''),
     (''acc_transport_taxi'', ''Taxi'', ''expense'', Some ''acc_transport''),
     (''acc_transport_car'', ''Car Expenses'', ''expense'', Some ''acc_transport''),
     (''acc_shopping'', ''Shopping'', ''expense'', None),
     (''acc_shopping_daily'', ''Daily Essentials'', ''expense'', Some ''acc_shopping''),
     (''acc_shopping_clothing'', ''Clothing'', ''expense'', Some ''acc_shopping''),
     (''acc_shopping_digital'', ''Electronics'', ''expense'', Some ''acc_shopping''),
     (''acc_housing'', ''Housing'', ''expense'', None),
     (''acc_housing_rent'', ''Rent & Mortgage'', ''expense'', Some ''acc_housing''),
     (''acc_housing_utilities'', ''Utilities'', ''expense'', Some ''acc_housing''),
     (''acc_housing_property'', ''Property Services'', ''expense'', Some ''acc_housing''),
     (''acc_leisure'', ''Leisure'', ''expense'', None),
     (''acc_leisure_entertainment'', ''Entertainment'', ''expense'', Some ''acc_leisure''),
     (''acc_leisure_fitness'', ''Fitness'', ''expense'', Some ''acc_leisure''),
     (''acc_leisure_travel'', ''Travel'', ''expense'', Some ''acc_leisure''),
     (''acc_healthcare'', ''Healthcare'', ''expense'', None),
     (''acc_healthcare_medical'', ''Medical Care'', ''expense'', Some ''acc_healthcare''),
     (''acc_healthcare_medicine'', ''Medicine'', ''expense'', Some ''acc_healthcare''),
     (''acc_education'', ''Education'', ''expense'', None),
     (''acc_education_books'', ''Books'', ''expense'', Some ''acc_education''),
     (''acc_education_courses'', ''Courses'', ''expense'', Some ''acc_education''),
     (''acc_other_expense'', ''Other Expense'', ''expense'', None),
     (''acc_salary'', ''Salary'', ''income'', None),
     (''acc_salary_base'', ''Base Salary'', ''income'', Some ''acc_salary''),
     (''acc_salary_bonus'', ''Bonus'', ''income'', Some ''acc_salary''),
     (''acc_side_income'', ''Side Income'', ''income'', None),
     (''acc_side_income_freelance'', ''Freelance'', ''income'', Some ''acc_side_income''),
     (''acc_side_income_business'', ''Business Income'', ''income'', Some ''acc_side_income''),
     (''acc_investment_income'', ''Investment Income'', ''income'', None),
     (''acc_investment_income_interest'', ''Interest'', ''income'', Some ''acc_investment_income''),
     (''acc_investment_income_dividends'', ''Dividends'', ''income'', Some ''acc_investment_income''),
     (''acc_other_income'', ''Other Income'', ''income'', None)]"

definition scoped_account_id :: "string \<Rightarrow> string \<Rightarrow> string" where
  "scoped_account_id book_id key = book_id @ '':'' @ key"

text \<open>The payload an account has in the change log, also built by the sync handlers.\<close>

definition account_payload_json :: "string \<Rightarrow> string \<Rightarrow> string \<Rightarrow> string option \<Rightarrow> json" where
  "account_payload_json name ty currency parent =
     json_object [(''name'', JString name), (''accountType'', JString ty),
       (''currency'', JString currency), (''parentAccountId'', json_opt_str parent)]"

definition next_sequence :: "memory_store \<Rightarrow> int" where
  "next_sequence s = int (length (changes s)) + 1"

definition seed_account ::
  "string \<Rightarrow> string \<times> string \<times> string \<times> string option \<Rightarrow> memory_store \<Rightarrow> memory_store" where
  "seed_account book_id = (\<lambda>(key, name, ty, parent_key) s.
     let id = scoped_account_id book_id key in
     if hm_contains (accounts s) id then s
     else
       let parent = map_option (scoped_account_id book_id) parent_key in
       s\<lparr>accounts := hm_insert id
            \<lparr>acc_id = id, acc_book_id = book_id, acc_name = name, acc_account_type = ty,
             acc_currency = ''CNY'', acc_parent_account_id = parent, acc_version = 1\<rparr> (accounts s),
         changes := changes s @
            [\<lparr>chg_sequence = next_sequence s, chg_book_id = book_id,
              chg_commit_id = ''category-defaults-v2:'' @ book_id, chg_entity_type = ''account'',
              chg_entity_id = id, chg_operation = ''upsert'', chg_entity_version = 1,
              chg_payload = account_payload_json name ty ''CNY'' parent\<rparr>]\<rparr>)"

definition seed_accounts_mem :: "memory_store \<Rightarrow> string \<Rightarrow> memory_store" where
  "seed_accounts_mem s book_id = fold (seed_account book_id) DEFAULT_ACCOUNTS s"

text \<open>\<open>new_id\<close> is the value of \<open>Uuid::now_v7()\<close>, read only when the user owns no book.\<close>

definition ensure_demo_book :: "string \<Rightarrow> memory_store \<Rightarrow> string \<Rightarrow> string \<times> memory_store" where
  "ensure_demo_book new_id s user_id =
     (case List.find (\<lambda>b. bk_owner_id b = user_id) (hm_values (books s)) of
        Some b \<Rightarrow> (bk_id b, seed_accounts_mem s (bk_id b))
      | None \<Rightarrow>
          (new_id, seed_accounts_mem
             (s\<lparr>books := hm_insert new_id
                  \<lparr>bk_id = new_id, bk_name = ''Personal'', bk_owner_id = user_id\<rparr> (books s)\<rparr>)
             new_id))"

subsection \<open>Invariants of the store\<close>

definition log_ok :: "memory_store \<Rightarrow> bool" where
  "log_ok s \<longleftrightarrow> map chg_sequence (changes s) = map int [1..<Suc (length (changes s))]"

definition category_type :: "string \<Rightarrow> bool" where
  "category_type ty \<longleftrightarrow> ty \<in> {''expense'', ''income''}"

text \<open>
  One account of a book: its id is scoped to the book, and a parent is an account of the same book
  and the same category type that has no parent itself.
\<close>

definition account_ok :: "(string, account_record) hashmap \<Rightarrow> string \<Rightarrow> account_record \<Rightarrow> bool" where
  "account_ok m aid a \<longleftrightarrow>
     acc_id a = aid \<and> 1 \<le> acc_version a \<and>
     (case strip_prefix (acc_book_id a @ '':'') aid of None \<Rightarrow> False | Some key \<Rightarrow> key \<noteq> []) \<and>
     (case acc_parent_account_id a of
        None \<Rightarrow> True
      | Some p \<Rightarrow>
          category_type (acc_account_type a) \<and>
          (case hm_get m p of
             None \<Rightarrow> False
           | Some pa \<Rightarrow> acc_book_id pa = acc_book_id a \<and> acc_account_type pa = acc_account_type a \<and>
               acc_parent_account_id pa = None))"

definition account_map_ok :: "(string, account_record) hashmap \<Rightarrow> bool" where
  "account_map_ok m \<longleftrightarrow> hm_wf m \<and> list_all (\<lambda>(aid, a). account_ok m aid a) m"

abbreviation accounts_ok :: "memory_store \<Rightarrow> bool" where
  "accounts_ok s \<equiv> account_map_ok (accounts s)"

lemma account_map_ok_iff:
  "account_map_ok m \<longleftrightarrow> hm_wf m \<and> (\<forall>aid a. hm_get m aid = Some a \<longrightarrow> account_ok m aid a)"
  by (auto simp: account_map_ok_def hm_wf_def hm_get_def list_all_iff map_of_eq_Some_iff)

lemma account_ok_scoped:
  "account_ok m aid a \<Longrightarrow> \<exists>key. key \<noteq> [] \<and> aid = scoped_account_id (acc_book_id a) key"
  by (fastforce simp: account_ok_def scoped_account_id_def split: option.splits)

lemma account_map_okD:
  assumes "account_map_ok m" and "hm_get m aid = Some a"
  shows "account_ok m aid a" and "acc_id a = aid" and "1 \<le> acc_version a"
  using assms by (auto simp: account_map_ok_iff account_ok_def)

lemma account_okI:
  assumes "acc_id a = aid" and "1 \<le> acc_version a"
    and "aid = scoped_account_id (acc_book_id a) key" and "key \<noteq> []"
    and "\<And>p. acc_parent_account_id a = Some p \<Longrightarrow> category_type (acc_account_type a) \<and>
      (\<exists>pa. hm_get m p = Some pa \<and> acc_book_id pa = acc_book_id a \<and>
        acc_account_type pa = acc_account_type a \<and> acc_parent_account_id pa = None)"
  shows "account_ok m aid a"
proof -
  have "strip_prefix (acc_book_id a @ '':'') aid = Some key"
    using assms(3) by (simp add: scoped_account_id_def)
  then show ?thesis
    using assms(1,2,4,5) unfolding account_ok_def by (auto split: option.split)
qed

lemma account_map_ok_new:
  assumes "account_map_ok m" and "hm_get m aid = None" and "account_ok m aid a"
  shows "account_map_ok (hm_insert aid a m)"
proof -
  have wf: "hm_wf m" and all: "\<And>i b. hm_get m i = Some b \<Longrightarrow> account_ok m i b"
    using assms(1) by (auto simp: account_map_ok_iff)
  have grow: "account_ok (hm_insert aid a m) i b" if "account_ok m i b" for i b
    using that assms(2) by (auto simp: account_ok_def split: option.splits)
  show ?thesis
    using wf all assms(3) by (auto simp: account_map_ok_iff grow split: if_splits)
qed

lemma account_map_ok_update:
  assumes ok: "account_map_ok m" and a: "hm_get m aid = Some a"
    and same: "acc_id a' = aid" "acc_book_id a' = acc_book_id a"
      "acc_account_type a' = acc_account_type a" "1 \<le> acc_version a'"
    and new: "account_ok m aid a'"
    and leaf: "acc_parent_account_id a' \<noteq> None \<Longrightarrow>
      \<forall>c \<in> set (hm_values m). acc_parent_account_id c \<noteq> Some aid"
    and irrefl: "acc_parent_account_id a' \<noteq> Some aid"
  shows "account_map_ok (hm_insert aid a' m)"
proof -
  have wf: "hm_wf m" and all: "\<And>i b. hm_get m i = Some b \<Longrightarrow> account_ok m i b"
    using ok by (auto simp: account_map_ok_iff)
  have "account_ok (hm_insert aid a' m) i b" if b: "hm_get (hm_insert aid a' m) i = Some b" for i b
  proof (cases "i = aid")
    case True
    with b new irrefl show ?thesis by (auto simp: account_ok_def split: option.splits)
  next
    case False
    with b have b': "hm_get m i = Some b" by simp
    then have okb: "account_ok m i b" and mem: "b \<in> set (hm_values m)"
      using all hm.get_vals [OF wf] by blast+
    have "acc_parent_account_id a' = None" if "acc_parent_account_id b = Some aid"
      using leaf mem that by blast
    with okb a same show ?thesis by (auto simp: account_ok_def split: option.splits)
  qed
  with wf show ?thesis by (simp add: account_map_ok_iff)
qed

lemma log_ok_snoc:
  assumes "log_ok s" and "changes s' = changes s @ [c]" and "chg_sequence c = next_sequence s"
  shows "log_ok s'"
  using assms by (simp add: log_ok_def next_sequence_def)

lemma log_ok_same: "log_ok s \<Longrightarrow> changes s' = changes s \<Longrightarrow> log_ok s'"
  by (simp add: log_ok_def)

lemma log_ok_bounds:
  assumes "log_ok s" and "c \<in> set (changes s)"
  shows "1 \<le> chg_sequence c \<and> chg_sequence c < next_sequence s"
proof -
  have "chg_sequence c \<in> set (map int [1..<Suc (length (changes s))])"
    using assms unfolding log_ok_def by (metis image_eqI list.set_map)
  then show ?thesis by (auto simp: next_sequence_def)
qed

lemma log_ok_sorted:
  assumes "log_ok s"
  shows "sorted_wrt (<) (map chg_sequence (changes s))"
proof -
  have "sorted_wrt (<) (map int [1..<Suc n])" for n
    by (simp only: sorted_wrt_map of_nat_less_iff sorted_wrt_upt)
  with assms show ?thesis by (simp only: log_ok_def)
qed

subsection \<open>Seeding the default accounts\<close>

definition default_record ::
  "string \<Rightarrow> string \<times> string \<times> string \<times> string option \<Rightarrow> account_record" where
  "default_record book_id = (\<lambda>(key, name, ty, parent_key).
     \<lparr>acc_id = scoped_account_id book_id key, acc_book_id = book_id, acc_name = name,
      acc_account_type = ty, acc_currency = ''CNY'',
      acc_parent_account_id = map_option (scoped_account_id book_id) parent_key, acc_version = 1\<rparr>)"

lemma scoped_inj [simp]: "scoped_account_id b k = scoped_account_id b k' \<longleftrightarrow> k = k'"
  by (simp add: scoped_account_id_def)

lemma seed_account_get:
  "hm_get (accounts (seed_account b d s)) aid =
     (if aid = scoped_account_id b (fst d) \<and> hm_get (accounts s) aid = None
      then Some (default_record b d) else hm_get (accounts s) aid)"
  by (cases d) (auto simp: seed_account_def default_record_def hm_contains_def Let_def)

lemma seed_account_log_ok: "log_ok s \<Longrightarrow> log_ok (seed_account b d s)"
  by (cases d) (auto simp: seed_account_def Let_def elim!: log_ok_snoc)

lemma seed_accounts_log_ok: "log_ok s \<Longrightarrow> log_ok (seed_accounts_mem s b)"
proof -
  have "log_ok s \<Longrightarrow> log_ok (fold (seed_account b) ds s)" for ds
    by (induction ds arbitrary: s) (auto simp: seed_account_log_ok)
  then show "log_ok s \<Longrightarrow> ?thesis" by (simp add: seed_accounts_mem_def)
qed

lemma seed_fold_contains:
  "d \<in> set ds \<Longrightarrow> hm_contains (accounts (fold (seed_account b) ds s)) (scoped_account_id b (fst d))"
proof -
  have mono: "hm_get (accounts s) i \<noteq> None \<Longrightarrow> hm_get (accounts (fold (seed_account b) ds s)) i \<noteq> None"
    for i s and ds
    by (induction ds arbitrary: s) (auto simp: seed_account_get)
  show "d \<in> set ds \<Longrightarrow> ?thesis"
    unfolding hm_contains_def
  proof (induction ds arbitrary: s)
    case Nil
    then show ?case by simp
  next
    case (Cons x ds)
    then show ?case using mono [of "seed_account b d s"]
      by (cases "d = x") (auto simp: seed_account_get)
  qed
qed

lemma seed_fold_present:
  "(\<And>d. d \<in> set ds \<Longrightarrow> hm_contains (accounts s) (scoped_account_id b (fst d))) \<Longrightarrow>
     fold (seed_account b) ds s = s"
proof (induction ds)
  case Nil
  then show ?case by simp
next
  case (Cons d ds)
  have "seed_account b d s = s"
    using Cons.prems [of d] by (cases d) (simp add: seed_account_def Let_def)
  with Cons show ?case by simp
qed

text \<open>Every default account is new to the list, and a parent is an earlier root of the same type.\<close>

fun defaults_ok ::
  "(string \<times> string \<times> string \<times> string option) list \<Rightarrow>
   (string \<times> string \<times> string \<times> string option) list \<Rightarrow> bool" where
  "defaults_ok earlier [] = True"
| "defaults_ok earlier ((k, n, t, p) # ds) =
     (k \<noteq> [] \<and> k \<notin> set (map fst earlier) \<and>
      (case p of None \<Rightarrow> True
       | Some pk \<Rightarrow> category_type t \<and>
           list_ex (\<lambda>(k', _, t', p'). k' = pk \<and> t' = t \<and> p' = None) earlier) \<and>
      defaults_ok (earlier @ [(k, n, t, p)]) ds)"

lemma DEFAULT_ACCOUNTS_ok: "defaults_ok [] DEFAULT_ACCOUNTS"
  by (simp add: DEFAULT_ACCOUNTS_def category_type_def)

lemma default_record_ok:
  assumes "k \<noteq> []"
    and "case p of None \<Rightarrow> True
      | Some pk \<Rightarrow> category_type t \<and>
          (\<exists>n'. hm_get m (scoped_account_id b pk) = Some (default_record b (pk, n', t, None)))"
  shows "account_ok m (scoped_account_id b k) (default_record b (k, n, t, p))"
  using assms
  by (auto simp: account_ok_def default_record_def scoped_account_id_def split: option.splits)

lemma seed_fold_ok:
  assumes "account_map_ok (accounts s)"
    and "\<And>d. d \<in> set earlier \<Longrightarrow>
      hm_get (accounts s) (scoped_account_id b (fst d)) = Some (default_record b d)"
    and "\<And>k. k \<notin> set (map fst earlier) \<Longrightarrow> hm_get (accounts s) (scoped_account_id b k) = None"
    and "defaults_ok earlier ds"
  shows "account_map_ok (accounts (fold (seed_account b) ds s)) \<and>
    (\<forall>d \<in> set (earlier @ ds). hm_get (accounts (fold (seed_account b) ds s))
        (scoped_account_id b (fst d)) = Some (default_record b d))"
  using assms
proof (induction ds arbitrary: earlier s)
  case Nil
  then show ?case by simp
next
  case (Cons d ds)
  obtain k n t p where d: "d = (k, n, t, p)" by (cases d) auto
  have none: "hm_get (accounts s) (scoped_account_id b k) = None"
    using Cons.prems(3,4) by (simp add: d)
  have ins: "accounts (seed_account b d s) =
      hm_insert (scoped_account_id b k) (default_record b d) (accounts s)"
    using none by (simp add: seed_account_def default_record_def hm_contains_def d Let_def)
  have "account_ok (accounts s) (scoped_account_id b k) (default_record b d)"
    unfolding d using Cons.prems(2,4)
    by (intro default_record_ok) (fastforce simp: d list_ex_iff split: option.splits)+
  then have ok: "account_map_ok (accounts (seed_account b d s))"
    unfolding ins by (intro account_map_ok_new Cons.prems(1) none)
  have "account_map_ok (accounts (fold (seed_account b) ds (seed_account b d s))) \<and>
      (\<forall>x \<in> set ((earlier @ [d]) @ ds). hm_get (accounts (fold (seed_account b) ds (seed_account b d s)))
        (scoped_account_id b (fst x)) = Some (default_record b x))"
  proof (rule Cons.IH [OF ok])
    fix x assume "x \<in> set (earlier @ [d])"
    moreover have "fst x \<noteq> k" if "x \<in> set earlier"
      using Cons.prems(4) that by (auto simp: d)
    ultimately show "hm_get (accounts (seed_account b d s)) (scoped_account_id b (fst x)) =
        Some (default_record b x)"
      unfolding ins using Cons.prems(2) [of x] by (cases "x = d") (simp_all add: d)
  next
    fix x assume "x \<notin> set (map fst (earlier @ [d]))"
    then show "hm_get (accounts (seed_account b d s)) (scoped_account_id b x) = None"
      unfolding ins using Cons.prems(3) by (auto simp: d)
  next
    show "defaults_ok (earlier @ [d]) ds" using Cons.prems(4) by (simp add: d)
  qed
  then show ?case by simp
qed


lemma seed_accounts_present:
  assumes "\<And>d. d \<in> set DEFAULT_ACCOUNTS \<Longrightarrow> hm_contains (accounts s) (scoped_account_id b (fst d))"
  shows "seed_accounts_mem s b = s"
  unfolding seed_accounts_mem_def by (rule seed_fold_present) (rule assms)

text \<open>
  Seeding the default accounts is idempotent: a second call changes neither the accounts nor the
  change log, whatever the book held before the first.
\<close>

theorem seed_accounts_idempotent:
  "seed_accounts_mem (seed_accounts_mem s b) b = seed_accounts_mem s b"
  by (rule seed_accounts_present) (simp add: seed_accounts_mem_def seed_fold_contains)

text \<open>
  Seeding a book that has no account yet gives every default account of the chart its record,
  and keeps the accounts of the store well formed: ids scoped to their book, and a category tree of
  two levels whose children have the type of their parent.
\<close>

theorem seed_fresh_book_accounts_ok:
  assumes "accounts_ok s" and "\<And>k. hm_get (accounts s) (scoped_account_id b k) = None"
  shows "accounts_ok (seed_accounts_mem s b) \<and>
    (\<forall>d \<in> set DEFAULT_ACCOUNTS. hm_get (accounts (seed_accounts_mem s b))
       (scoped_account_id b (fst d)) = Some (default_record b d))"
  using seed_fold_ok [of s "[]" b DEFAULT_ACCOUNTS] assms DEFAULT_ACCOUNTS_ok
  by (simp add: seed_accounts_mem_def)

theorem seed_fresh_book_accounts_ok_witness:
  "accounts_ok (seed_accounts_mem empty_store ''b1'') \<and>
   hm_get (accounts (seed_accounts_mem empty_store ''b1'')) ''b1:acc_cash'' =
     Some (default_record ''b1'' (''acc_cash'', ''Cash'', ''asset'', None))"
  using seed_fresh_book_accounts_ok [of empty_store "''b1''"]
  by (simp add: empty_store_def account_map_ok_def DEFAULT_ACCOUNTS_def scoped_account_id_def)

end
