(* ===== verification/Sync_Payload.thy ===== *)
theory Sync_Payload
  imports Ledger_Domain Store_State
begin

section \<open>Mutations, receipts and payload parsing (transport/http/sync.rs, ledger-contracts)\<close>

text \<open>
  The wire types of the sync protocol and the functions that read a mutation before it reaches a
  store: \<open>parse_account_payload\<close>, \<open>parse_entries\<close>, \<open>parse_occurred_at\<close>, the auto-ledger
  fingerprint and source tags, the canonical payload of the change log and \<open>validate_or_reject\<close>.
  Both stores, the in-memory one and the relational one, run behind these functions.

  RFC 3339 parsing and printing belong to the \<open>time\<close> crate: they are the two functions of
  \<open>rfc3339\<close>, an argument of the definitions that use them.
\<close>

record sync_mutation_dto =
  mut_mutation_id :: string
  mut_entity_type :: string
  mut_entity_id :: string
  mut_operation :: string
  mut_base_version :: int
  mut_schema_version :: int
  mut_payload :: json

record sync_push_request =
  push_device_id :: string
  push_mutations :: "sync_mutation_dto list"

record mutation_receipt_dto =
  rcp_mutation_id :: string
  rcp_status :: string
  rcp_result_code :: string
  rcp_entity_version :: "int option"

record sync_change_dto =
  dto_sequence :: string
  dto_commit_id :: string
  dto_entity_type :: string
  dto_entity_id :: string
  dto_operation :: string
  dto_version :: int
  dto_payload :: json

record sync_pull_response =
  pull_next_cursor :: string
  pull_has_more :: bool
  pull_changes :: "sync_change_dto list"

record rfc3339 =
  rfc_parse :: "string \<Rightarrow> timestamp option"
  rfc_format :: "timestamp \<Rightarrow> string"

text \<open>What \<open>time\<close> documents: a formatted instant parses back to itself.\<close>

definition rfc3339_roundtrip :: "rfc3339 \<Rightarrow> bool" where
  "rfc3339_roundtrip rf \<longleftrightarrow> (\<forall>t. rfc_parse rf (rfc_format rf t) = Some t)"

subsection \<open>Receipts\<close>

definition rejected_receipt ::
  "sync_mutation_dto \<Rightarrow> string \<Rightarrow> int option \<Rightarrow> mutation_receipt_dto" where
  "rejected_receipt m code v =
     \<lparr>rcp_mutation_id = mut_mutation_id m, rcp_status = ''rejected'', rcp_result_code = code,
      rcp_entity_version = v\<rparr>"

definition applied_receipt :: "sync_mutation_dto \<Rightarrow> int \<Rightarrow> mutation_receipt_dto" where
  "applied_receipt m v =
     \<lparr>rcp_mutation_id = mut_mutation_id m, rcp_status = ''applied'', rcp_result_code = ''OK'',
      rcp_entity_version = Some v\<rparr>"

definition deduped_receipt :: "sync_mutation_dto \<Rightarrow> int \<Rightarrow> mutation_receipt_dto" where
  "deduped_receipt m v =
     \<lparr>rcp_mutation_id = mut_mutation_id m, rcp_status = ''applied'',
      rcp_result_code = ''AUTO_LEDGER_DEDUPED'', rcp_entity_version = Some v\<rparr>"

subsection \<open>Account payloads\<close>

record account_payload =
  ap_name :: string
  ap_account_type :: string
  ap_currency :: string
  ap_parent_account_id :: "string option option"

definition parse_account_parent :: "string \<Rightarrow> json option \<Rightarrow> unit + string option option" where
  "parse_account_parent scoped_prefix p =
     (case p of
        None \<Rightarrow> Inr None
      | Some JNull \<Rightarrow> Inr (Some None)
      | Some (JString parent_id) \<Rightarrow>
          if starts_with scoped_prefix parent_id \<and> length parent_id > length scoped_prefix
          then Inr (Some (Some parent_id)) else Inl ()
      | Some _ \<Rightarrow> Inl ())"

definition parse_account_payload ::
  "string \<Rightarrow> sync_mutation_dto \<Rightarrow> mutation_receipt_dto + account_payload" where
  "parse_account_payload book_id m =
     (if mut_operation m \<noteq> ''create'' \<and> mut_operation m \<noteq> ''update''
      then Inl (rejected_receipt m ''UNSUPPORTED_MUTATION'' None)
      else
        let scoped_prefix = book_id @ '':'' in
        if (case strip_prefix scoped_prefix (mut_entity_id m) of None \<Rightarrow> True | Some suffix \<Rightarrow> suffix = [])
        then Inl (rejected_receipt m ''INVALID_PAYLOAD'' None)
        else
          case (get_str (mut_payload m) ''name'', get_str (mut_payload m) ''accountType'',
                get_str (mut_payload m) ''currency'') of
            (Some raw_name, Some account_type, Some currency) \<Rightarrow>
              let name = trim raw_name in
              if name = [] \<or> chars_count name > 24 \<or>
                 account_type \<notin> {''asset'', ''liability'', ''income'', ''expense'', ''equity''} \<or>
                 length currency \<noteq> 3 \<or> \<not> list_all is_ascii_uppercase currency
              then Inl (rejected_receipt m ''INVALID_PAYLOAD'' None)
              else
                (case parse_account_parent scoped_prefix (json_get (mut_payload m) ''parentAccountId'') of
                   Inl _ \<Rightarrow> Inl (rejected_receipt m ''INVALID_PAYLOAD'' None)
                 | Inr parent \<Rightarrow>
                     Inr \<lparr>ap_name = name, ap_account_type = account_type, ap_currency = currency,
                          ap_parent_account_id = parent\<rparr>)
          | _ \<Rightarrow> Inl (rejected_receipt m ''INVALID_PAYLOAD'' None))"

subsection \<open>Transaction payloads\<close>

definition parse_entry :: "json \<Rightarrow> entry_draft" where
  "parse_entry e =
     \<lparr>draft_account_id = (case get_str e ''accountId'' of None \<Rightarrow> [] | Some s \<Rightarrow> s),
      draft_amount_minor =
        (case Option.bind (get_str e ''amountMinor'') (parse_signed 128) of None \<Rightarrow> 0 | Some a \<Rightarrow> a),
      draft_currency = (case get_str e ''currency'' of None \<Rightarrow> ''CNY'' | Some c \<Rightarrow> c)\<rparr>"

definition parse_entries :: "sync_mutation_dto \<Rightarrow> mutation_receipt_dto + entry_draft list" where
  "parse_entries m =
     (case Option.bind (json_get (mut_payload m) ''entries'') as_array of
        None \<Rightarrow> Inl (rejected_receipt m ''INVALID_PAYLOAD'' None)
      | Some es \<Rightarrow> Inr (map parse_entry es))"

definition parse_occurred_at ::
  "rfc3339 \<Rightarrow> sync_mutation_dto \<Rightarrow> mutation_receipt_dto + timestamp option" where
  "parse_occurred_at rf m =
     (case json_get (mut_payload m) ''occurredAt'' of
        None \<Rightarrow> Inr None
      | Some raw \<Rightarrow>
          (case as_str raw of
             None \<Rightarrow> Inl (rejected_receipt m ''INVALID_PAYLOAD'' None)
           | Some s \<Rightarrow>
               (case rfc_parse rf s of
                  Some t \<Rightarrow> Inr (Some t)
                | None \<Rightarrow> Inl (rejected_receipt m ''INVALID_PAYLOAD'' None))))"

definition parse_source_event_fingerprint :: "sync_mutation_dto \<Rightarrow> string option" where
  "parse_source_event_fingerprint m =
     (case (case json_get (mut_payload m) ''sourceEventFingerprint'' of
              Some raw \<Rightarrow> Some raw
            | None \<Rightarrow> json_get (mut_payload m) ''source_event_fingerprint'') of
        Some (JString v) \<Rightarrow>
          let trimmed = trim v in
          if length trimmed = 64 \<and> list_all is_ascii_hexdigit trimmed then Some trimmed else None
      | _ \<Rightarrow> None)"

definition parse_source :: "sync_mutation_dto \<Rightarrow> string option" where
  "parse_source m =
     (case json_get (mut_payload m) ''source'' of
        Some (JString v) \<Rightarrow>
          let trimmed = trim v in
          if trimmed = [] \<or> chars_count trimmed > 32 then None else Some trimmed
      | _ \<Rightarrow> None)"

definition is_auto_ledger_fingerprint :: "sync_mutation_dto \<Rightarrow> bool" where
  "is_auto_ledger_fingerprint m \<longleftrightarrow>
     mut_entity_type m = ''transaction'' \<and> parse_source m = Some ''auto_ledger'' \<and>
     parse_source_event_fingerprint m \<noteq> None"

definition format_occurred_at :: "rfc3339 \<Rightarrow> timestamp \<Rightarrow> string" where
  "format_occurred_at rf t = rfc_format rf t"

definition canonical_transaction_payload :: "rfc3339 \<Rightarrow> json \<Rightarrow> timestamp \<Rightarrow> json" where
  "canonical_transaction_payload rf payload occurred_at =
     json_insert ''occurredAt'' (JString (format_occurred_at rf occurred_at)) payload"

definition backfill_transaction_occurred_at :: "rfc3339 \<Rightarrow> json \<Rightarrow> timestamp \<Rightarrow> json" where
  "backfill_transaction_occurred_at rf payload occurred_at =
     (if json_get payload ''occurredAt'' \<noteq> None then payload
      else canonical_transaction_payload rf payload occurred_at)"

definition validate_or_reject ::
  "sync_mutation_dto \<Rightarrow> entry_draft list \<Rightarrow> mutation_receipt_dto option" where
  "validate_or_reject m drafts =
     (if mut_entity_type m \<noteq> ''transaction'' \<or>
         (mut_operation m \<noteq> ''create'' \<and> mut_operation m \<noteq> ''update'' \<and> mut_operation m \<noteq> ''delete'')
      then Some (rejected_receipt m ''UNSUPPORTED_MUTATION'' None)
      else if mut_operation m = ''delete'' then None
      else case validate_balanced drafts of
        Inl err \<Rightarrow>
          Some (rejected_receipt m
            (if err = Unbalanced then ''LEDGER_UNBALANCED'' else ''LEDGER_INVALID'') None)
      | Inr _ \<Rightarrow> None)"

text \<open>The stored form of a draft: \<open>d.amount_minor as i64\<close>.\<close>

definition entry_tuple :: "entry_draft \<Rightarrow> entry" where
  "entry_tuple d = (draft_account_id d, as_i64 (draft_amount_minor d), draft_currency d)"

text \<open>The entry objects that \<open>bootstrap\<close> emits for a stored transaction.\<close>

definition entry_json :: "entry \<Rightarrow> json" where
  "entry_json = (\<lambda>(account_id, amount_minor, currency).
     json_object [(''accountId'', JString account_id),
       (''amountMinor'', JString (int_to_string amount_minor)), (''currency'', JString currency)])"

subsection \<open>Laws of the payload functions\<close>

lemma rejected_receipt_sel [simp]:
  "rcp_mutation_id (rejected_receipt m c v) = mut_mutation_id m"
  "rcp_status (rejected_receipt m c v) = ''rejected''"
  "rcp_result_code (rejected_receipt m c v) = c"
  "rcp_entity_version (rejected_receipt m c v) = v"
  by (simp_all add: rejected_receipt_def)

lemma applied_receipt_sel [simp]:
  "rcp_mutation_id (applied_receipt m w) = mut_mutation_id m"
  "rcp_status (applied_receipt m w) = ''applied''"
  "rcp_result_code (applied_receipt m w) = ''OK''"
  "rcp_entity_version (applied_receipt m w) = Some w"
  by (simp_all add: applied_receipt_def)

lemma deduped_receipt_sel [simp]:
  "rcp_mutation_id (deduped_receipt m w) = mut_mutation_id m"
  "rcp_status (deduped_receipt m w) = ''applied''"
  "rcp_result_code (deduped_receipt m w) = ''AUTO_LEDGER_DEDUPED''"
  "rcp_entity_version (deduped_receipt m w) = Some w"
  by (simp_all add: deduped_receipt_def)

lemma parse_account_parent_scoped:
  "parse_account_parent p j = Inr (Some (Some x)) \<Longrightarrow> \<exists>key. key \<noteq> [] \<and> x = p @ key"
  by (auto simp: parse_account_parent_def starts_with_iff
      split: option.splits json.splits if_splits)

lemma parse_account_payload_Inl:
  "parse_account_payload b m = Inl r \<Longrightarrow>
     r = rejected_receipt m ''UNSUPPORTED_MUTATION'' None \<or> r = rejected_receipt m ''INVALID_PAYLOAD'' None"
  by (auto simp: parse_account_payload_def Let_def split: option.splits if_splits sum.splits)

lemma parse_account_payload_InrD:
  assumes "parse_account_payload b m = Inr p"
  shows "mut_operation m \<in> {''create'', ''update''}"
    and "\<exists>key. key \<noteq> [] \<and> mut_entity_id m = scoped_account_id b key"
    and "ap_name p \<noteq> [] \<and> chars_count (ap_name p) \<le> 24"
    and "ap_account_type p \<in> {''asset'', ''liability'', ''income'', ''expense'', ''equity''}"
    and "valid_currency (ap_currency p)"
    and "\<And>q. ap_parent_account_id p = Some (Some q) \<Longrightarrow>
      \<exists>key. key \<noteq> [] \<and> q = scoped_account_id b key"
  using assms
  by (fastforce simp: parse_account_payload_def scoped_account_id_def valid_currency_def Let_def
      split: option.splits if_splits sum.splits dest: parse_account_parent_scoped)+

lemma validate_or_reject_None:
  assumes "validate_or_reject m ds = None" and "mut_operation m \<noteq> ''delete''"
  shows "mut_entity_type m = ''transaction''" and "mut_operation m \<in> {''create'', ''update''}"
    and "validate_balanced ds = Inr ()"
  using assms by (auto simp: validate_or_reject_def split: if_splits sum.splits)

lemma validate_or_reject_Some:
  "validate_or_reject m ds = Some r \<Longrightarrow>
     r \<in> {rejected_receipt m ''UNSUPPORTED_MUTATION'' None, rejected_receipt m ''LEDGER_UNBALANCED'' None,
       rejected_receipt m ''LEDGER_INVALID'' None}"
  by (auto simp: validate_or_reject_def split: if_splits sum.splits)

text \<open>An accepted entry fits \<open>i64\<close>, so the cast to the stored tuple loses nothing.\<close>

lemma validate_balanced_entries:
  assumes "validate_balanced ds = Inr ()"
  shows "list_all (entry_ok (draft_currency (hd ds))) ds"
  using assms balance_loop_Inr_ok
  by (fastforce simp: validate_balanced_def split: sum.splits if_splits)

lemma entry_tuple_exact:
  "entry_ok c d \<Longrightarrow> entry_tuple d = (draft_account_id d, draft_amount_minor d, c)"
  by (simp add: entry_ok_def entry_tuple_def)

lemma parse_entry_json:
  assumes "in_i64 a"
  shows "parse_entry (entry_json (acc, a, c)) =
    \<lparr>draft_account_id = acc, draft_amount_minor = a, draft_currency = c\<rparr>"
proof -
  have "in_signed 128 a" using assms by (rule in_signed_mono) simp
  then have "parse_signed 128 (int_to_string a) = Some a" by (rule parse_int_to_string)
  then show ?thesis
    by (simp add: parse_entry_def entry_json_def get_str_def json_get_object)
qed

lemma canonical_payload_get:
  "json_get (canonical_transaction_payload rf p t) k =
     (if k = ''occurredAt'' \<and> is_object p then Some (JString (rfc_format rf t)) else json_get p k)"
  by (cases p) (simp_all add: canonical_transaction_payload_def format_occurred_at_def)

end
