(* ===== verification/Sync_Push.thy ===== *)
theory Sync_Push
  imports Sync_Payload
begin

section \<open>The push loop and its idempotence contract\<close>

text \<open>
  \<open>push\<close> (transport/http/sync.rs) handles the mutations of a request in order: a mutation whose
  receipt is already stored is answered from the store, any other is processed and its receipt is
  stored; the first database error ends the request. The loop is the same over both stores, so its
  replay law is proved once, in the locale \<open>receipt_store\<close>, and each store interprets the locale
  on its own step. \<open>steady\<close> says of a call that the database answers it.

  \<open>call\<close> holds what the handlers read from outside while they process one mutation: the clock and
  a fresh UUID.
\<close>

record call =
  call_now :: timestamp
  call_new_id :: string

fun push_loop ::
  "('c \<Rightarrow> 'm \<Rightarrow> 's \<Rightarrow> ('e + 'r) \<times> 's) \<Rightarrow> (nat \<Rightarrow> 'c) \<Rightarrow> nat \<Rightarrow> 'm list \<Rightarrow> 's \<Rightarrow> ('e + 'r list) \<times> 's" where
  "push_loop step calls i [] s = (Inr [], s)"
| "push_loop step calls i (m # ms) s =
     (case step (calls i) m s of
        (Inl e, s') \<Rightarrow> (Inl e, s')
      | (Inr r, s') \<Rightarrow>
          (case push_loop step calls (Suc i) ms s' of
             (Inl e, s'') \<Rightarrow> (Inl e, s'')
           | (Inr rs, s'') \<Rightarrow> (Inr (r # rs), s'')))"

lemma push_loop_inv:
  assumes "\<And>c m s. P s \<Longrightarrow> Q m \<Longrightarrow> P (snd (step c m s))" and "P s" and "\<And>m. m \<in> set ms \<Longrightarrow> Q m"
  shows "P (snd (push_loop step calls i ms s))"
  using assms(2,3)
proof (induction ms arbitrary: i s)
  case Nil
  then show ?case by simp
next
  case (Cons m ms)
  obtain x s1 where st: "step (calls i) m s = (x, s1)" by fastforce
  have "P s1" using assms(1) [OF Cons.prems(1), of m "calls i"] Cons.prems(2) st by simp
  with Cons.IH [of s1 "Suc i"] Cons.prems(2) show ?case
    by (auto simp: st split: sum.splits prod.splits)
qed

text \<open>States the store can move to by further steps of any client.\<close>

inductive step_reach ::
  "('c \<Rightarrow> 'm \<Rightarrow> 's \<Rightarrow> ('e + 'r) \<times> 's) \<Rightarrow> 's \<Rightarrow> 's \<Rightarrow> bool"
  for step :: "'c \<Rightarrow> 'm \<Rightarrow> 's \<Rightarrow> ('e + 'r) \<times> 's" where
  reach_refl: "step_reach step s s"
| reach_step: "step_reach step s s' \<Longrightarrow> step_reach step s (snd (step c m s'))"

locale receipt_store =
  fixes receipt_of :: "'s \<Rightarrow> 'm \<Rightarrow> 'r option"
    and step :: "'c \<Rightarrow> 'm \<Rightarrow> 's \<Rightarrow> ('e + 'r) \<times> 's"
    and steady :: "'c \<Rightarrow> bool"
  assumes replay: "receipt_of s m = Some r \<Longrightarrow> steady c \<Longrightarrow> step c m s = (Inr r, s)"
    and recorded: "steady c \<Longrightarrow> step c m s = (Inr r, s') \<Longrightarrow> receipt_of s' m = Some r"
    and kept: "receipt_of s m = Some r \<Longrightarrow> receipt_of (snd (step c m' s)) m = Some r"
begin

lemma reach_kept: "step_reach step s s' \<Longrightarrow> receipt_of s m = Some r \<Longrightarrow> receipt_of s' m = Some r"
  by (induction rule: step_reach.induct) (simp_all add: kept)

lemma loop_kept:
  "receipt_of s m = Some r \<Longrightarrow> receipt_of (snd (push_loop step calls i ms s)) m = Some r"
  by (rule push_loop_inv [where P = "\<lambda>x. receipt_of x m = Some r" and Q = "\<lambda>_. True"])
    (simp_all add: kept)

lemma loop_recorded:
  assumes "\<And>i. steady (calls i)"
  shows "push_loop step calls i ms s = (Inr rs, s') \<Longrightarrow> map (receipt_of s') ms = map Some rs"
proof (induction ms arbitrary: i s rs)
  case Nil
  then show ?case by simp
next
  case (Cons a ms)
  obtain r s1 rs' where st: "step (calls i) a s = (Inr r, s1)"
    and lp: "push_loop step calls (Suc i) ms s1 = (Inr rs', s')" and rs: "rs = r # rs'"
    using Cons.prems by (auto split: sum.splits prod.splits)
  have "receipt_of s' a = Some r"
    using loop_kept [OF recorded [OF assms st], of calls "Suc i" ms] lp by simp
  with Cons.IH [OF lp] rs show ?case by simp
qed

lemma loop_replay:
  assumes "\<And>i. steady (calls i)"
  shows "map (receipt_of s) ms = map Some rs \<Longrightarrow> push_loop step calls i ms s = (Inr rs, s)"
  by (induction ms arbitrary: i rs) (auto simp: replay assms Cons_eq_map_conv)

lemma push_replay:
  assumes "push_loop step calls i ms s = (Inr rs, s')" and "\<And>i. steady (calls i)"
    and "step_reach step s' s''" and "\<And>i. steady (calls' i)"
  shows "push_loop step calls' j ms s'' = (Inr rs, s'')"
proof (rule loop_replay [OF assms(4)])
  have "map (receipt_of s') ms = map Some rs" using assms(2,1) by (rule loop_recorded)
  then show "map (receipt_of s'') ms = map Some rs"
    using reach_kept [OF assms(3)] by (auto simp: list_eq_iff_nth_eq)
qed

end

end
