(* ===== verification/Store_Inv.thy ===== *)
theory Store_Inv
  imports Sync_Payload
begin

section \<open>The invariant of the in-memory store\<close>

text \<open>
  What every handler keeps of \<open>MemoryStore\<close>, and the two ways a handler changes it: \<open>put_account\<close>
  and \<open>put_transaction\<close>, a map insertion together with one record of the change log.

  \<^item> \<open>store_inv\<close>: the log is numbered without gaps, the category tree has two levels, every stored
    transaction is balanced, and the log holds exactly the versions \<open>1, 2, \<dots>, v\<close> of an entity at
    version \<open>v\<close>.
  \<^item> \<open>sync_inv\<close>: the entries of a transaction lie in accounts of its book, and the last log record
    of every entity carries its current contents.
\<close>

definition push_change :: "string \<Rightarrow> string \<Rightarrow> string \<Rightarrow> string \<Rightarrow> string \<Rightarrow> int \<Rightarrow> json \<Rightarrow>
  memory_store \<Rightarrow> memory_store" where
  "push_change book_id commit_id entity_type entity_id operation version payload s =
     s\<lparr>changes := changes s @
        [\<lparr>chg_sequence = next_sequence s, chg_book_id = book_id, chg_commit_id = commit_id,
          chg_entity_type = entity_type, chg_entity_id = entity_id, chg_operation = operation,
          chg_entity_version = version, chg_payload = payload\<rparr>]\<rparr>"

definition put_account :: "string \<Rightarrow> json \<Rightarrow> account_record \<Rightarrow> memory_store \<Rightarrow> memory_store" where
  "put_account commit_id payload a s =
     push_change (acc_book_id a) commit_id ''account'' (acc_id a) ''upsert'' (acc_version a) payload
       (s\<lparr>accounts := hm_insert (acc_id a) a (accounts s)\<rparr>)"

definition put_transaction :: "string \<Rightarrow> string \<Rightarrow> json \<Rightarrow> tx_record \<Rightarrow> memory_store \<Rightarrow> memory_store" where
  "put_transaction commit_id operation payload t s =
     push_change (tx_book_id t) commit_id ''transaction'' (tx_id t) operation (tx_version t) payload
       (s\<lparr>transactions := hm_insert (tx_id t) t (transactions s)\<rparr>)"

subsection \<open>Balanced transactions\<close>

definition entries_ok :: "entry list \<Rightarrow> bool" where
  "entries_ok es \<longleftrightarrow>
     2 \<le> length es \<and>
     list_all (\<lambda>(_, a, c). a \<noteq> 0 \<and> in_i64 a \<and> valid_currency c \<and> c = snd (snd (hd es))) es \<and>
     sum_list (map (\<lambda>(_, a, _). a) es) = 0"

definition tx_ok :: "string \<Rightarrow> tx_record \<Rightarrow> bool" where
  "tx_ok k t \<longleftrightarrow> tx_id t = k \<and> 1 \<le> tx_version t \<and> entries_ok (tx_entries t)"

definition tx_map_ok :: "(string, tx_record) hashmap \<Rightarrow> bool" where
  "tx_map_ok m \<longleftrightarrow> hm_wf m \<and> list_all (\<lambda>(k, t). tx_ok k t) m"

lemma tx_map_ok_iff: "tx_map_ok m \<longleftrightarrow> hm_wf m \<and> (\<forall>k t. hm_get m k = Some t \<longrightarrow> tx_ok k t)"
  by (auto simp: tx_map_ok_def hm_wf_def hm_get_def list_all_iff map_of_eq_Some_iff)

lemma tx_map_ok_insert: "tx_map_ok m \<Longrightarrow> tx_ok k t \<Longrightarrow> tx_map_ok (hm_insert k t m)"
  by (auto simp: tx_map_ok_iff)

lemma entries_ok_drafts:
  assumes "balanced_spec ds"
  shows "entries_ok (map entry_tuple ds)"
proof -
  let ?c = "draft_currency (hd ds)"
  have len: "2 \<le> length ds" and ok: "list_all (entry_ok ?c) ds"
    and zero: "sum_list (map draft_amount_minor ds) = 0"
    using assms by (auto simp: balanced_spec_def)
  have tup: "map entry_tuple ds = map (\<lambda>d. (draft_account_id d, draft_amount_minor d, ?c)) ds"
    using ok by (auto simp: list_all_iff entry_tuple_exact)
  have "snd (snd (hd (map entry_tuple ds))) = ?c"
    using len by (cases ds) (simp_all add: entry_tuple_def)
  with len ok zero show ?thesis
    by (auto simp: entries_ok_def tup list_all_iff entry_ok_def comp_def)
qed

subsection \<open>The history of an entity\<close>

definition entity_changes :: "string \<Rightarrow> string \<Rightarrow> memory_store \<Rightarrow> change_record list" where
  "entity_changes ty eid s = filter (\<lambda>c. chg_entity_type c = ty \<and> chg_entity_id c = eid) (changes s)"

definition versions_upto :: "int \<Rightarrow> int list" where
  "versions_upto v = map int [1..<Suc (nat v)]"

definition account_history :: "memory_store \<Rightarrow> bool" where
  "account_history s \<longleftrightarrow> (\<forall>aid. map chg_entity_version (entity_changes ''account'' aid s) =
     (case hm_get (accounts s) aid of None \<Rightarrow> [] | Some a \<Rightarrow> versions_upto (acc_version a)))"

definition tx_history :: "memory_store \<Rightarrow> bool" where
  "tx_history s \<longleftrightarrow> (\<forall>i. map chg_entity_version (entity_changes ''transaction'' i s) =
     (case hm_get (transactions s) i of None \<Rightarrow> [] | Some t \<Rightarrow> versions_upto (tx_version t)))"

definition store_inv :: "memory_store \<Rightarrow> bool" where
  "store_inv s \<longleftrightarrow> log_ok s \<and> accounts_ok s \<and> tx_map_ok (transactions s) \<and>
     account_history s \<and> tx_history s"

lemma versions_upto_0 [simp]: "versions_upto 0 = []"
  by (simp add: versions_upto_def)

lemma versions_upto_1 [simp]: "versions_upto 1 = [1]"
  by (simp add: versions_upto_def)

lemma versions_upto_Suc: "0 \<le> v \<Longrightarrow> versions_upto (v + 1) = versions_upto v @ [v + 1]"
  by (simp add: versions_upto_def nat_add_distrib)

lemma push_change_sel [simp]:
  "accounts (push_change b c ty i p v j s) = accounts s"
  "transactions (push_change b c ty i p v j s) = transactions s"
  "mutations (push_change b c ty i p v j s) = mutations s"
  "books (push_change b c ty i p v j s) = books s"
  by (simp_all add: push_change_def)

lemma push_change_log_ok: "log_ok s \<Longrightarrow> log_ok (push_change b c ty i p v j s)"
  by (rule log_ok_snoc [of s], assumption, simp add: push_change_def, simp)

lemma entity_changes_push [simp]:
  "map chg_entity_version (entity_changes ty' i' (push_change b c ty i p v j s)) =
     map chg_entity_version (entity_changes ty' i' s) @ (if ty' = ty \<and> i' = i then [v] else [])"
  by (simp add: entity_changes_def push_change_def)

lemma entity_changes_accounts [simp]:
  "entity_changes ty i (s\<lparr>accounts := m\<rparr>) = entity_changes ty i s"
  "entity_changes ty i (s\<lparr>transactions := t\<rparr>) = entity_changes ty i s"
  by (simp_all add: entity_changes_def)

lemma log_ok_fields [simp]:
  "log_ok (s\<lparr>accounts := m\<rparr>) = log_ok s"
  "log_ok (s\<lparr>transactions := t\<rparr>) = log_ok s"
  by (simp_all add: log_ok_def)

lemma put_account_sel [simp]:
  "accounts (put_account c p a s) = hm_insert (acc_id a) a (accounts s)"
  "transactions (put_account c p a s) = transactions s"
  "mutations (put_account c p a s) = mutations s"
  "books (put_account c p a s) = books s"
  by (simp_all add: put_account_def)

lemma put_transaction_sel [simp]:
  "transactions (put_transaction c p j t s) = hm_insert (tx_id t) t (transactions s)"
  "accounts (put_transaction c p j t s) = accounts s"
  "mutations (put_transaction c p j t s) = mutations s"
  "books (put_transaction c p j t s) = books s"
  by (simp_all add: put_transaction_def)

text \<open>The next version of an entity: one for a new one, one more for an existing one.\<close>

definition next_version :: "('a \<Rightarrow> int) \<Rightarrow> 'a option \<Rightarrow> int" where
  "next_version version_of x = (case x of None \<Rightarrow> 1 | Some a \<Rightarrow> version_of a + 1)"

lemma put_account_inv:
  assumes "store_inv s" and "account_map_ok (hm_insert (acc_id a) a (accounts s))"
    and "acc_version a = next_version acc_version (hm_get (accounts s) (acc_id a))"
  shows "store_inv (put_account c p a s)"
proof -
  have "0 \<le> acc_version x" if "hm_get (accounts s) i = Some x" for i x
    using assms(1) account_map_okD(3) [OF _ that] by (simp add: store_inv_def)
  then have "account_history (put_account c p a s)"
    using assms(1,3)
    by (auto simp: store_inv_def account_history_def put_account_def next_version_def
        versions_upto_Suc split: option.splits)
  moreover have "tx_history (put_account c p a s)"
    using assms(1) by (simp add: store_inv_def tx_history_def put_account_def)
  ultimately show ?thesis
    using assms(1,2) by (simp add: store_inv_def) (simp add: put_account_def push_change_log_ok)
qed

lemma put_transaction_inv:
  assumes "store_inv s" and "tx_ok (tx_id t) t"
    and "tx_version t = next_version tx_version (hm_get (transactions s) (tx_id t))"
  shows "store_inv (put_transaction c p j t s)"
proof -
  have "0 \<le> tx_version x" if "hm_get (transactions s) i = Some x" for i x
    using assms(1) that by (force simp: store_inv_def tx_map_ok_iff tx_ok_def)
  then have "tx_history (put_transaction c p j t s)"
    using assms(1,3)
    by (auto simp: store_inv_def tx_history_def put_transaction_def next_version_def
        versions_upto_Suc split: option.splits)
  moreover have "account_history (put_transaction c p j t s)"
    using assms(1) by (simp add: store_inv_def account_history_def put_transaction_def)
  ultimately show ?thesis
    using assms(1,2) by (simp add: store_inv_def tx_map_ok_insert)
      (simp add: put_transaction_def push_change_log_ok)
qed

lemma store_inv_cong:
  assumes "store_inv s" and "accounts s' = accounts s" and "transactions s' = transactions s"
    and "changes s' = changes s"
  shows "store_inv s'"
  using assms by (simp add: store_inv_def account_history_def tx_history_def entity_changes_def log_ok_def)

lemma store_inv_empty: "store_inv empty_store"
  by (simp add: store_inv_def empty_store_def log_ok_def account_map_ok_def tx_map_ok_def
      account_history_def tx_history_def entity_changes_def)

subsection \<open>Ownership and the contents of the log\<close>

definition entries_owned :: "memory_store \<Rightarrow> tx_record \<Rightarrow> bool" where
  "entries_owned s t = list_all (\<lambda>(acc, _, _). case hm_get (accounts s) acc of
     None \<Rightarrow> False | Some a \<Rightarrow> acc_book_id a = tx_book_id t) (tx_entries t)"

text \<open>The payload of an \<open>upsert\<close> record shows the transaction: its instant and its entries.\<close>

definition payload_shows :: "rfc3339 \<Rightarrow> json \<Rightarrow> tx_record \<Rightarrow> bool" where
  "payload_shows rf j t \<longleftrightarrow>
     json_get j ''occurredAt'' = Some (JString (rfc_format rf (tx_occurred_at t))) \<and>
     (case Option.bind (json_get j ''entries'') as_array of
        None \<Rightarrow> False | Some es \<Rightarrow> map (entry_tuple \<circ> parse_entry) es = tx_entries t)"

definition account_shown :: "change_record \<Rightarrow> account_record \<Rightarrow> bool" where
  "account_shown c a \<longleftrightarrow> chg_book_id c = acc_book_id a \<and> chg_operation c = ''upsert'' \<and>
     chg_entity_version c = acc_version a \<and>
     chg_payload c = account_payload_json (acc_name a) (acc_account_type a) (acc_currency a)
       (acc_parent_account_id a)"

definition tx_shown :: "rfc3339 \<Rightarrow> change_record \<Rightarrow> tx_record \<Rightarrow> bool" where
  "tx_shown rf c t \<longleftrightarrow> chg_book_id c = tx_book_id t \<and> chg_entity_version c = tx_version t \<and>
     (if tx_deleted t then chg_operation c = ''delete''
      else chg_operation c = ''upsert'' \<and> payload_shows rf (chg_payload c) t)"

definition log_mirrors :: "rfc3339 \<Rightarrow> memory_store \<Rightarrow> bool" where
  "log_mirrors rf s \<longleftrightarrow>
     (\<forall>i a. hm_get (accounts s) i = Some a \<longrightarrow>
        (\<exists>cs c. entity_changes ''account'' i s = cs @ [c] \<and> account_shown c a)) \<and>
     (\<forall>i t. hm_get (transactions s) i = Some t \<longrightarrow>
        (\<exists>cs c. entity_changes ''transaction'' i s = cs @ [c] \<and> tx_shown rf c t))"

definition sync_inv :: "rfc3339 \<Rightarrow> memory_store \<Rightarrow> bool" where
  "sync_inv rf s \<longleftrightarrow> store_inv s \<and>
     (\<forall>i t. hm_get (transactions s) i = Some t \<longrightarrow> entries_owned s t) \<and> log_mirrors rf s"

lemma entity_changes_push_change:
  "entity_changes ty' i' (push_change b c ty i p v j s) =
     entity_changes ty' i' s @ (if ty' = ty \<and> i' = i then
       [\<lparr>chg_sequence = next_sequence s, chg_book_id = b, chg_commit_id = c, chg_entity_type = ty,
         chg_entity_id = i, chg_operation = p, chg_entity_version = v, chg_payload = j\<rparr>] else [])"
  by (simp add: entity_changes_def push_change_def)

lemma put_account_mirrors:
  assumes "log_mirrors rf s"
    and "j = account_payload_json (acc_name a) (acc_account_type a) (acc_currency a)
      (acc_parent_account_id a)"
  shows "log_mirrors rf (put_account c j a s)"
  using assms
  by (auto simp: log_mirrors_def put_account_def entity_changes_push_change account_shown_def)

lemma put_transaction_mirrors:
  assumes "log_mirrors rf s"
    and "if tx_deleted t then p = ''delete'' else p = ''upsert'' \<and> payload_shows rf j t"
  shows "log_mirrors rf (put_transaction c p j t s)"
  using assms
  by (auto simp: log_mirrors_def put_transaction_def entity_changes_push_change tx_shown_def)

lemma entries_owned_account:
  assumes "entries_owned s t"
    and "\<And>x. hm_get (accounts s) (acc_id a) = Some x \<Longrightarrow> acc_book_id x = acc_book_id a"
  shows "entries_owned (put_account c j a s) t"
  using assms by (fastforce simp: entries_owned_def list_all_iff split: option.splits)

lemma entries_owned_cong:
  assumes "accounts s' = accounts s" and "tx_book_id t' = tx_book_id t" and "tx_entries t' = tx_entries t"
  shows "entries_owned s' t' = entries_owned s t"
  by (simp add: entries_owned_def assms cong: option.case_cong)

lemma sync_inv_cong:
  assumes "sync_inv rf s" and "accounts s' = accounts s" and "transactions s' = transactions s"
    and "changes s' = changes s"
  shows "sync_inv rf s'"
  using assms store_inv_cong [of s s']
  by (simp add: sync_inv_def entries_owned_def log_mirrors_def entity_changes_def)

lemma sync_inv_empty: "sync_inv rf empty_store"
  using store_inv_empty
  by (simp add: sync_inv_def log_mirrors_def empty_store_def)

end
