(* ===== verification/Sync_Mem.thy ===== *)
theory Sync_Mem
  imports Sync_Push Store_Inv
begin

section \<open>Pushing into the in-memory store (transport/http/sync.rs)\<close>

text \<open>
  \<open>valid_account_parent_mem\<close>, \<open>process_account_mutation_mem\<close>, \<open>process_delete_mem\<close>,
  \<open>process_mutation_mem\<close> and the memory branch of \<open>push\<close>. \<open>memory_sync_lock\<close> is held while one
  mutation is looked up, processed and its receipt stored, so one such step is atomic with respect
  to every other push and the model takes it as one function on the store.

  The results: every stored transaction stays balanced over accounts of its book, versions count the
  accepted writes, the change log mirrors them without gaps, the category tree keeps two levels,
  an auto-ledger event is recorded at most once per book, and a replayed push changes nothing.
\<close>

definition valid_account_parent_mem ::
  "memory_store \<Rightarrow> string \<Rightarrow> string \<Rightarrow> string \<Rightarrow> string option \<Rightarrow> bool" where
  "valid_account_parent_mem s book_id account_id account_type parent_account_id =
     (case parent_account_id of
        None \<Rightarrow> True
      | Some parent_id \<Rightarrow>
          if account_type \<notin> {''expense'', ''income''} \<or> parent_id = account_id then False
          else case hm_get (accounts s) parent_id of
            None \<Rightarrow> False
          | Some parent \<Rightarrow>
              acc_book_id parent = book_id \<and> acc_account_type parent = account_type \<and>
              acc_parent_account_id parent = None \<and>
              \<not> list_ex (\<lambda>a. acc_parent_account_id a = Some account_id) (hm_values (accounts s)))"

text \<open>The two branches of \<open>process_account_mutation_mem\<close> up to the change record: a receipt for a
  rejection, or the new store with the version, type, currency and parent for the record.\<close>

definition create_account_mem :: "string \<Rightarrow> sync_mutation_dto \<Rightarrow> account_payload \<Rightarrow> memory_store \<Rightarrow>
  mutation_receipt_dto + (memory_store \<times> int \<times> string \<times> string \<times> string option)" where
  "create_account_mem book_id m p s =
     (case hm_get (accounts s) (mut_entity_id m) of
        Some existing \<Rightarrow> Inl (rejected_receipt m ''LEDGER_VERSION_CONFLICT'' (Some (acc_version existing)))
      | None \<Rightarrow>
          let parent = Option.bind (ap_parent_account_id p) (\<lambda>x. x) in
          if \<not> valid_account_parent_mem s book_id (mut_entity_id m) (ap_account_type p) parent
          then Inl (rejected_receipt m ''INVALID_CATEGORY_PARENT'' None)
          else
            Inr (s\<lparr>accounts := hm_insert (mut_entity_id m)
                   \<lparr>acc_id = mut_entity_id m, acc_book_id = book_id, acc_name = ap_name p,
                    acc_account_type = ap_account_type p, acc_currency = ap_currency p,
                    acc_parent_account_id = parent, acc_version = 1\<rparr> (accounts s)\<rparr>,
                 1, ap_account_type p, ap_currency p, parent))"

definition update_account_mem :: "string \<Rightarrow> sync_mutation_dto \<Rightarrow> account_payload \<Rightarrow> memory_store \<Rightarrow>
  mutation_receipt_dto + (memory_store \<times> int \<times> string \<times> string \<times> string option)" where
  "update_account_mem book_id m p s =
     (case hm_get (accounts s) (mut_entity_id m) of
        None \<Rightarrow> Inl (rejected_receipt m ''ACCOUNT_NOT_FOUND'' None)
      | Some existing \<Rightarrow>
          if acc_book_id existing \<noteq> book_id then Inl (rejected_receipt m ''ACCOUNT_NOT_FOUND'' None)
          else
            let parent = (case ap_parent_account_id p of
                            None \<Rightarrow> acc_parent_account_id existing | Some q \<Rightarrow> q) in
            if \<not> valid_account_parent_mem s book_id (mut_entity_id m) (acc_account_type existing) parent
            then Inl (rejected_receipt m ''INVALID_CATEGORY_PARENT'' None)
            else
              let account = existing\<lparr>acc_name := ap_name p, acc_parent_account_id := parent,
                                     acc_version := acc_version existing + 1\<rparr> in
              Inr (s\<lparr>accounts := hm_insert (mut_entity_id m) account (accounts s)\<rparr>,
                   acc_version account, acc_account_type account, acc_currency account, parent))"

definition process_account_mutation_mem ::
  "call \<Rightarrow> string \<Rightarrow> sync_mutation_dto \<Rightarrow> memory_store \<Rightarrow> mutation_receipt_dto \<times> memory_store" where
  "process_account_mutation_mem c book_id m s =
     (case parse_account_payload book_id m of
        Inl receipt \<Rightarrow> (receipt, s)
      | Inr p \<Rightarrow>
          (case (if mut_operation m = ''create'' then create_account_mem book_id m p s
                 else update_account_mem book_id m p s) of
             Inl receipt \<Rightarrow> (receipt, s)
           | Inr (s', version, account_type, currency, parent) \<Rightarrow>
               (applied_receipt m version,
                push_change book_id (call_new_id c) ''account'' (mut_entity_id m) ''upsert'' version
                  (account_payload_json (ap_name p) account_type currency parent) s')))"

definition process_delete_mem ::
  "call \<Rightarrow> string \<Rightarrow> sync_mutation_dto \<Rightarrow> memory_store \<Rightarrow> mutation_receipt_dto \<times> memory_store" where
  "process_delete_mem c book_id m s =
     (case hm_get (transactions s) (mut_entity_id m) of
        None \<Rightarrow> (rejected_receipt m ''NOT_FOUND'' None, s)
      | Some existing \<Rightarrow>
          if tx_book_id existing \<noteq> book_id then (rejected_receipt m ''NOT_FOUND'' None, s)
          else if mut_base_version m \<noteq> 0 \<and> mut_base_version m \<noteq> tx_version existing
          then (rejected_receipt m ''LEDGER_VERSION_CONFLICT'' (Some (tx_version existing)), s)
          else
            let version = tx_version existing + 1;
                s' = s\<lparr>transactions := hm_insert (mut_entity_id m)
                        (existing\<lparr>tx_deleted := True, tx_version := version\<rparr>) (transactions s)\<rparr> in
            (applied_receipt m version,
             push_change book_id (call_new_id c) ''transaction'' (mut_entity_id m) ''delete'' version
               (mut_payload m) s'))"

definition owns_accounts_mem :: "memory_store \<Rightarrow> string \<Rightarrow> entry_draft list \<Rightarrow> bool" where
  "owns_accounts_mem s book_id drafts =
     list_all (\<lambda>d. case hm_get (accounts s) (draft_account_id d) of
                     None \<Rightarrow> False | Some a \<Rightarrow> acc_book_id a = book_id) drafts"

definition auto_ledger_duplicate :: "string \<Rightarrow> string \<Rightarrow> tx_record \<Rightarrow> bool" where
  "auto_ledger_duplicate book_id fp t \<longleftrightarrow>
     tx_book_id t = book_id \<and> tx_source t = Some ''auto_ledger'' \<and>
     tx_source_event_fingerprint t = Some fp \<and> \<not> tx_deleted t"

text \<open>The search for an earlier recording of the same event, made only for a new transaction.\<close>

definition find_deduped_mem ::
  "string \<Rightarrow> sync_mutation_dto \<Rightarrow> tx_record option \<Rightarrow> memory_store \<Rightarrow> tx_record option" where
  "find_deduped_mem book_id m existing s =
     (case (existing, parse_source_event_fingerprint m) of
        (None, Some fp) \<Rightarrow>
          if parse_source m = Some ''auto_ledger''
          then List.find (auto_ledger_duplicate book_id fp) (hm_values (transactions s)) else None
      | _ \<Rightarrow> None)"

text \<open>The canonical payload with the stored source where the mutation has no \<open>source\<close> key.\<close>

definition upsert_payload_mem ::
  "rfc3339 \<Rightarrow> sync_mutation_dto \<Rightarrow> tx_record option \<Rightarrow> timestamp \<Rightarrow> json" where
  "upsert_payload_mem rf m existing occurred_at =
     (let payload = canonical_transaction_payload rf (mut_payload m) occurred_at in
      if json_get payload ''source'' = None
      then (case Option.bind existing tx_source of
              Some src \<Rightarrow> json_insert ''source'' (JString src) payload | None \<Rightarrow> payload)
      else payload)"

definition upsert_occurred_at :: "call \<Rightarrow> tx_record option \<Rightarrow> timestamp option \<Rightarrow> timestamp" where
  "upsert_occurred_at c existing requested =
     (case requested of
        Some t \<Rightarrow> t
      | None \<Rightarrow> (case existing of Some t \<Rightarrow> tx_occurred_at t | None \<Rightarrow> call_now c))"

definition upsert_record_mem :: "call \<Rightarrow> string \<Rightarrow> sync_mutation_dto \<Rightarrow> tx_record option \<Rightarrow>
  timestamp option \<Rightarrow> entry_draft list \<Rightarrow> tx_record" where
  "upsert_record_mem c book_id m existing requested drafts =
     \<lparr>tx_id = mut_entity_id m, tx_book_id = book_id,
      tx_occurred_at = upsert_occurred_at c existing requested,
      tx_description = get_str (mut_payload m) ''description'',
      tx_version = (case existing of None \<Rightarrow> 1 | Some t \<Rightarrow> tx_version t + 1),
      tx_deleted = False, tx_entries = map entry_tuple drafts,
      tx_source = (case parse_source m of Some src \<Rightarrow> Some src | None \<Rightarrow> Option.bind existing tx_source),
      tx_source_event_fingerprint = parse_source_event_fingerprint m\<rparr>"

definition apply_transaction_mem :: "rfc3339 \<Rightarrow> call \<Rightarrow> string \<Rightarrow> sync_mutation_dto \<Rightarrow>
  tx_record option \<Rightarrow> timestamp option \<Rightarrow> entry_draft list \<Rightarrow> memory_store \<Rightarrow>
  mutation_receipt_dto \<times> memory_store" where
  "apply_transaction_mem rf c book_id m existing requested drafts s =
     (let t = upsert_record_mem c book_id m existing requested drafts;
          payload = upsert_payload_mem rf m existing (tx_occurred_at t);
          s' = s\<lparr>transactions := hm_insert (mut_entity_id m) t (transactions s)\<rparr> in
      (applied_receipt m (tx_version t),
       push_change book_id (call_new_id c) ''transaction'' (mut_entity_id m) ''upsert'' (tx_version t)
         payload s'))"

definition process_upsert_mem :: "rfc3339 \<Rightarrow> call \<Rightarrow> string \<Rightarrow> sync_mutation_dto \<Rightarrow>
  timestamp option \<Rightarrow> entry_draft list \<Rightarrow> memory_store \<Rightarrow> mutation_receipt_dto \<times> memory_store" where
  "process_upsert_mem rf c book_id m requested drafts s =
     (if \<not> owns_accounts_mem s book_id drafts then (rejected_receipt m ''ACCOUNT_NOT_FOUND'' None, s)
      else
        let existing = hm_get (transactions s) (mut_entity_id m) in
        case (case existing of
                Some t \<Rightarrow> if mut_operation m = ''create'' \<or> mut_base_version m \<noteq> tx_version t
                          then Some (tx_version t) else None
              | None \<Rightarrow> None) of
          Some v \<Rightarrow> (rejected_receipt m ''LEDGER_VERSION_CONFLICT'' (Some v), s)
        | None \<Rightarrow>
            (case find_deduped_mem book_id m existing s of
               Some t \<Rightarrow> (deduped_receipt m (tx_version t), s)
             | None \<Rightarrow> apply_transaction_mem rf c book_id m existing requested drafts s))"

definition process_mutation_mem :: "rfc3339 \<Rightarrow> call \<Rightarrow> string \<Rightarrow> sync_mutation_dto \<Rightarrow>
  memory_store \<Rightarrow> mutation_receipt_dto \<times> memory_store" where
  "process_mutation_mem rf c book_id m s =
     (if mut_entity_type m = ''account'' then process_account_mutation_mem c book_id m s
      else if mut_entity_type m \<noteq> ''transaction'' then (rejected_receipt m ''UNSUPPORTED_MUTATION'' None, s)
      else if mut_operation m = ''delete'' then process_delete_mem c book_id m s
      else case parse_occurred_at rf m of
        Inl receipt \<Rightarrow> (receipt, s)
      | Inr requested \<Rightarrow>
          (case parse_entries m of
             Inl receipt \<Rightarrow> (receipt, s)
           | Inr drafts \<Rightarrow>
               (case validate_or_reject m drafts of
                  Some receipt \<Rightarrow> (receipt, s)
                | None \<Rightarrow> process_upsert_mem rf c book_id m requested drafts s)))"

subsection \<open>One step of the push loop\<close>

definition stored_receipt :: "mutation_receipt_dto \<Rightarrow> mutation_receipt" where
  "stored_receipt r = \<lparr>mr_status = rcp_status r, mr_result_code = rcp_result_code r,
     mr_entity_version = rcp_entity_version r\<rparr>"

definition replay_receipt :: "sync_mutation_dto \<Rightarrow> mutation_receipt \<Rightarrow> mutation_receipt_dto" where
  "replay_receipt m r = \<lparr>rcp_mutation_id = mut_mutation_id m, rcp_status = mr_status r,
     rcp_result_code = mr_result_code r, rcp_entity_version = mr_entity_version r\<rparr>"

text \<open>A mutation with the book and the device it is pushed for; their ids key the receipt.\<close>

type_synonym addressed = "string \<times> string \<times> sync_mutation_dto"

fun receipt_key :: "addressed \<Rightarrow> string \<times> string \<times> string" where
  "receipt_key (book_id, device_id, m) = (book_id, device_id, mut_mutation_id m)"

definition push_step_mem ::
  "rfc3339 \<Rightarrow> call \<Rightarrow> addressed \<Rightarrow> memory_store \<Rightarrow> (api_error + mutation_receipt_dto) \<times> memory_store" where
  "push_step_mem rf c = (\<lambda>(book_id, device_id, m) s.
     case hm_get (mutations s) (book_id, device_id, mut_mutation_id m) of
       Some existing \<Rightarrow> (Inr (replay_receipt m existing), s)
     | None \<Rightarrow>
         (case process_mutation_mem rf c book_id m s of
            (receipt, s') \<Rightarrow>
              (Inr receipt,
               s'\<lparr>mutations := hm_insert (book_id, device_id, mut_mutation_id m)
                    (stored_receipt receipt) (mutations s')\<rparr>)))"

definition push_mem :: "rfc3339 \<Rightarrow> (nat \<Rightarrow> call) \<Rightarrow> string \<Rightarrow> sync_push_request \<Rightarrow> memory_store \<Rightarrow>
  (api_error + mutation_receipt_dto list) \<times> memory_store" where
  "push_mem rf calls book_id req s =
     push_loop (push_step_mem rf) calls 0
       (map (\<lambda>m. (book_id, push_device_id req, m)) (push_mutations req)) s"


subsection \<open>What one mutation does to the store\<close>

text \<open>The receipt of a refusal.\<close>

definition refused :: "sync_mutation_dto \<Rightarrow> mutation_receipt_dto \<Rightarrow> bool" where
  "refused m r \<longleftrightarrow> rcp_mutation_id r = mut_mutation_id m \<and> rcp_status r = ''rejected'' \<and>
     rcp_result_code r \<noteq> ''OK''"

lemma refused_rejected [simp]: "refused m (rejected_receipt m code v) \<longleftrightarrow> code \<noteq> ''OK''"
  by (simp add: refused_def)

text \<open>An accepted account write, seen as a new record that meets the conditions of the handler.\<close>

definition account_write :: "memory_store \<Rightarrow> string \<Rightarrow> sync_mutation_dto \<Rightarrow> account_record \<Rightarrow> bool" where
  "account_write s book_id m a \<longleftrightarrow>
     acc_id a = mut_entity_id m \<and> acc_book_id a = book_id \<and>
     (\<exists>key. key \<noteq> [] \<and> acc_id a = scoped_account_id book_id key) \<and>
     acc_version a = next_version acc_version (hm_get (accounts s) (acc_id a)) \<and>
     valid_account_parent_mem s book_id (acc_id a) (acc_account_type a) (acc_parent_account_id a) \<and>
     (case hm_get (accounts s) (acc_id a) of
        None \<Rightarrow> mut_operation m = ''create''
      | Some x \<Rightarrow> mut_operation m = ''update'' \<and> acc_book_id x = book_id \<and>
          acc_account_type x = acc_account_type a \<and> acc_currency x = acc_currency a)"

definition account_log_payload :: "account_record \<Rightarrow> json" where
  "account_log_payload a = account_payload_json (acc_name a) (acc_account_type a) (acc_currency a)
     (acc_parent_account_id a)"

lemma account_write_map_ok:
  assumes ok: "accounts_ok s" and w: "account_write s b m a"
  shows "account_map_ok (hm_insert (acc_id a) a (accounts s))"
proof -
  have ver: "1 \<le> acc_version a"
    using w account_map_okD(3) [OF ok, of "acc_id a"]
    by (cases "hm_get (accounts s) (acc_id a)") (simp_all add: account_write_def next_version_def)
  obtain key where key: "key \<noteq> []" "acc_id a = scoped_account_id (acc_book_id a) key"
    using w by (auto simp: account_write_def)
  have parent: "valid_account_parent_mem s (acc_book_id a) (acc_id a) (acc_account_type a)
      (acc_parent_account_id a)"
    using w unfolding account_write_def by metis
  have new: "account_ok (accounts s) (acc_id a) a"
    by (rule account_okI [OF refl ver key(2) key(1)])
      (use parent in \<open>auto simp: valid_account_parent_mem_def category_type_def
        split: option.splits if_splits\<close>)
  show ?thesis
  proof (cases "hm_get (accounts s) (acc_id a)")
    case None
    then show ?thesis using ok new by (intro account_map_ok_new)
  next
    case (Some x)
    have same: "acc_book_id a = acc_book_id x" "acc_account_type a = acc_account_type x"
      using w by (simp_all add: account_write_def Some)
    show ?thesis
      using parent
      by (intro account_map_ok_update [OF ok Some refl same ver new])
        (auto simp: valid_account_parent_mem_def list_ex_iff split: if_splits option.splits)
  qed
qed

lemma create_account_outcome:
  assumes "parse_account_payload b m = Inr p" and "mut_operation m = ''create''"
  shows "(\<exists>r. create_account_mem b m p s = Inl r \<and> refused m r) \<or>
    (\<exists>a. account_write s b m a \<and> acc_name a = ap_name p \<and> create_account_mem b m p s =
      Inr (s\<lparr>accounts := hm_insert (acc_id a) a (accounts s)\<rparr>, acc_version a, acc_account_type a,
        acc_currency a, acc_parent_account_id a))"
proof (cases "create_account_mem b m p s")
  case (Inl r)
  then show ?thesis by (auto simp: create_account_mem_def Let_def split: option.splits if_splits)
next
  case (Inr x)
  let ?a = "\<lparr>acc_id = mut_entity_id m, acc_book_id = b, acc_name = ap_name p,
     acc_account_type = ap_account_type p, acc_currency = ap_currency p,
     acc_parent_account_id = Option.bind (ap_parent_account_id p) (\<lambda>x. x), acc_version = 1\<rparr>"
  have "account_write s b m ?a"
    using Inr assms parse_account_payload_InrD(2) [OF assms(1)]
    by (auto simp: create_account_mem_def account_write_def next_version_def Let_def
        split: option.splits if_splits)
  moreover have "create_account_mem b m p s =
      Inr (s\<lparr>accounts := hm_insert (acc_id ?a) ?a (accounts s)\<rparr>, acc_version ?a, acc_account_type ?a,
        acc_currency ?a, acc_parent_account_id ?a)"
    using Inr by (auto simp: create_account_mem_def Let_def split: option.splits if_splits)
  ultimately show ?thesis by (intro disjI2 exI [of _ ?a]) simp
qed

lemma update_account_outcome:
  assumes "parse_account_payload b m = Inr p" and "mut_operation m = ''update''" and "accounts_ok s"
  shows "(\<exists>r. update_account_mem b m p s = Inl r \<and> refused m r) \<or>
    (\<exists>a. account_write s b m a \<and> acc_name a = ap_name p \<and> update_account_mem b m p s =
      Inr (s\<lparr>accounts := hm_insert (acc_id a) a (accounts s)\<rparr>, acc_version a, acc_account_type a,
        acc_currency a, acc_parent_account_id a))"
proof (cases "update_account_mem b m p s")
  case (Inl r)
  then show ?thesis by (auto simp: update_account_mem_def Let_def split: option.splits if_splits)
next
  case (Inr x)
  obtain e where e: "hm_get (accounts s) (mut_entity_id m) = Some e"
    using Inr by (auto simp: update_account_mem_def split: option.splits)
  have eid: "acc_id e = mut_entity_id m"
    using account_map_okD(2) [OF assms(3) e] .
  let ?q = "case ap_parent_account_id p of None \<Rightarrow> acc_parent_account_id e | Some q \<Rightarrow> q"
  let ?a = "e\<lparr>acc_name := ap_name p, acc_parent_account_id := ?q, acc_version := acc_version e + 1\<rparr>"
  have "account_write s b m ?a"
    using Inr e eid assms(2) parse_account_payload_InrD(2) [OF assms(1)]
    by (auto simp: update_account_mem_def account_write_def next_version_def Let_def
        split: if_splits)
  moreover have "update_account_mem b m p s =
      Inr (s\<lparr>accounts := hm_insert (acc_id ?a) ?a (accounts s)\<rparr>, acc_version ?a, acc_account_type ?a,
        acc_currency ?a, acc_parent_account_id ?a)"
    using Inr e eid by (auto simp: update_account_mem_def Let_def split: if_splits)
  ultimately show ?thesis by (intro disjI2 exI [of _ ?a]) simp
qed

lemma process_account_outcome:
  assumes "accounts_ok s" and "process_account_mutation_mem c b m s = (r, s')"
  shows "refused m r \<and> s' = s \<or>
    (\<exists>a. account_write s b m a \<and> r = applied_receipt m (acc_version a) \<and>
       s' = put_account (call_new_id c) (account_log_payload a) a s)"
proof (cases "parse_account_payload b m")
  case (Inl x)
  then show ?thesis
    using assms(2) parse_account_payload_Inl [OF Inl] by (auto simp: process_account_mutation_mem_def)
next
  case (Inr p)
  have op: "mut_operation m \<in> {''create'', ''update''}"
    using parse_account_payload_InrD(1) [OF Inr] .
  let ?res = "if mut_operation m = ''create'' then create_account_mem b m p s else update_account_mem b m p s"
  have "(\<exists>x. ?res = Inl x \<and> refused m x) \<or>
    (\<exists>a. account_write s b m a \<and> acc_name a = ap_name p \<and> ?res =
      Inr (s\<lparr>accounts := hm_insert (acc_id a) a (accounts s)\<rparr>, acc_version a, acc_account_type a,
        acc_currency a, acc_parent_account_id a))"
    using op create_account_outcome [OF Inr, of s] update_account_outcome [OF Inr _ assms(1)] by auto
  then show ?thesis
  proof (elim disjE exE conjE)
    fix x assume "?res = Inl x" "refused m x"
    then show ?thesis using assms(2) Inr by (simp add: process_account_mutation_mem_def)
  next
    fix a assume w: "account_write s b m a" and n: "acc_name a = ap_name p"
      and res: "?res = Inr (s\<lparr>accounts := hm_insert (acc_id a) a (accounts s)\<rparr>, acc_version a,
        acc_account_type a, acc_currency a, acc_parent_account_id a)"
    have "acc_id a = mut_entity_id m" "acc_book_id a = b" using w by (auto simp: account_write_def)
    then have "r = applied_receipt m (acc_version a) \<and>
        s' = put_account (call_new_id c) (account_log_payload a) a s"
      using assms(2) Inr res n
      by (simp add: process_account_mutation_mem_def put_account_def account_log_payload_def)
    with w show ?thesis by blast
  qed
qed


lemma process_delete_outcome:
  assumes "tx_map_ok (transactions s)" and "process_delete_mem c b m s = (r, s')"
  shows "refused m r \<and> s' = s \<or>
    (\<exists>e. hm_get (transactions s) (mut_entity_id m) = Some e \<and> tx_book_id e = b \<and>
       (mut_base_version m = 0 \<or> mut_base_version m = tx_version e) \<and>
       r = applied_receipt m (tx_version e + 1) \<and>
       s' = put_transaction (call_new_id c) ''delete'' (mut_payload m)
         (e\<lparr>tx_deleted := True, tx_version := tx_version e + 1\<rparr>) s)"
  using assms
  by (fastforce simp: process_delete_mem_def put_transaction_def tx_map_ok_iff tx_ok_def Let_def
      split: option.splits if_splits)

lemma process_upsert_outcome:
  assumes "process_upsert_mem rf c b m requested drafts s = (r, s')"
  shows "(refused m r \<or> (\<exists>v. r = deduped_receipt m v)) \<and> s' = s \<or>
    owns_accounts_mem s b drafts \<and>
    (\<forall>e. hm_get (transactions s) (mut_entity_id m) = Some e \<longrightarrow>
       mut_operation m \<noteq> ''create'' \<and> mut_base_version m = tx_version e) \<and>
    (let t = upsert_record_mem c b m (hm_get (transactions s) (mut_entity_id m)) requested drafts in
     r = applied_receipt m (tx_version t) \<and>
     s' = put_transaction (call_new_id c) ''upsert''
       (upsert_payload_mem rf m (hm_get (transactions s) (mut_entity_id m)) (tx_occurred_at t)) t s)"
  using assms
  by (auto simp: process_upsert_mem_def apply_transaction_mem_def put_transaction_def
      upsert_record_mem_def Let_def split: option.splits if_splits)

text \<open>The four things a mutation can do.\<close>

definition upsert_effect :: "rfc3339 \<Rightarrow> call \<Rightarrow> string \<Rightarrow> sync_mutation_dto \<Rightarrow> memory_store \<Rightarrow>
  mutation_receipt_dto \<Rightarrow> memory_store \<Rightarrow> bool" where
  "upsert_effect rf c b m s r s' \<longleftrightarrow>
     (\<exists>requested drafts. parse_occurred_at rf m = Inr requested \<and> parse_entries m = Inr drafts \<and>
        validate_balanced drafts = Inr () \<and> owns_accounts_mem s b drafts \<and>
        (\<forall>e. hm_get (transactions s) (mut_entity_id m) = Some e \<longrightarrow>
           mut_operation m \<noteq> ''create'' \<and> mut_base_version m = tx_version e) \<and>
        (let e = hm_get (transactions s) (mut_entity_id m);
             t = upsert_record_mem c b m e requested drafts in
         r = applied_receipt m (tx_version t) \<and>
         s' = put_transaction (call_new_id c) ''upsert''
           (upsert_payload_mem rf m e (tx_occurred_at t)) t s))"

definition delete_effect :: "call \<Rightarrow> string \<Rightarrow> sync_mutation_dto \<Rightarrow> memory_store \<Rightarrow>
  mutation_receipt_dto \<Rightarrow> memory_store \<Rightarrow> bool" where
  "delete_effect c b m s r s' \<longleftrightarrow>
     (\<exists>e. hm_get (transactions s) (mut_entity_id m) = Some e \<and> tx_book_id e = b \<and>
       (mut_base_version m = 0 \<or> mut_base_version m = tx_version e) \<and>
       r = applied_receipt m (tx_version e + 1) \<and>
       s' = put_transaction (call_new_id c) ''delete'' (mut_payload m)
         (e\<lparr>tx_deleted := True, tx_version := tx_version e + 1\<rparr>) s)"

definition account_effect :: "call \<Rightarrow> string \<Rightarrow> sync_mutation_dto \<Rightarrow> memory_store \<Rightarrow>
  mutation_receipt_dto \<Rightarrow> memory_store \<Rightarrow> bool" where
  "account_effect c b m s r s' \<longleftrightarrow>
     (\<exists>a. account_write s b m a \<and> r = applied_receipt m (acc_version a) \<and>
       s' = put_account (call_new_id c) (account_log_payload a) a s)"

lemma process_mutation_cases:
  assumes "store_inv s" and "process_mutation_mem rf c b m s = (r, s')"
  obtains (unchanged) "s' = s" "refused m r \<or> (\<exists>v. r = deduped_receipt m v)"
  | (account) "mut_entity_type m = ''account''" "account_effect c b m s r s'"
  | (delete) "mut_entity_type m = ''transaction''" "mut_operation m = ''delete''"
      "delete_effect c b m s r s'"
  | (upsert) "mut_entity_type m = ''transaction''" "mut_operation m \<in> {''create'', ''update''}"
      "upsert_effect rf c b m s r s'"
proof -
  have inv: "accounts_ok s" "tx_map_ok (transactions s)" using assms(1) by (auto simp: store_inv_def)
  consider "mut_entity_type m = ''account''"
    | "mut_entity_type m \<noteq> ''account''" "mut_entity_type m \<noteq> ''transaction''"
    | "mut_entity_type m = ''transaction''" "mut_operation m = ''delete''"
    | "mut_entity_type m = ''transaction''" "mut_operation m \<noteq> ''delete''" by blast
  then show thesis
  proof cases
    case 1
    then have "process_account_mutation_mem c b m s = (r, s')"
      using assms(2) by (simp add: process_mutation_mem_def)
    from process_account_outcome [OF inv(1) this] 1 show thesis
      using unchanged account by (auto simp: account_effect_def)
  next
    case 2
    then show thesis using assms(2) unchanged by (auto simp: process_mutation_mem_def)
  next
    case 3
    then have "process_delete_mem c b m s = (r, s')"
      using assms(2) by (simp add: process_mutation_mem_def)
    from process_delete_outcome [OF inv(2) this] 3 show thesis
      using unchanged delete by (auto simp: delete_effect_def)
  next
    case 4
    show thesis
    proof (cases "\<exists>requested drafts. parse_occurred_at rf m = Inr requested \<and>
        parse_entries m = Inr drafts \<and> validate_or_reject m drafts = None")
      case True
      then obtain requested drafts where p: "parse_occurred_at rf m = Inr requested"
        "parse_entries m = Inr drafts" "validate_or_reject m drafts = None" by blast
      note val = validate_or_reject_None [OF p(3) 4(2)]
      have "process_upsert_mem rf c b m requested drafts s = (r, s')"
        using assms(2) 4 p by (simp add: process_mutation_mem_def)
      from process_upsert_outcome [OF this] p val show thesis
        using unchanged upsert by (auto simp: upsert_effect_def)
    next
      case False
      then have "s' = s \<and> refused m r"
        using assms(2) 4
        by (auto simp: process_mutation_mem_def parse_occurred_at_def parse_entries_def
            split: sum.splits option.splits dest!: validate_or_reject_Some)
      then show thesis using unchanged by blast
    qed
  qed
qed


subsection \<open>The invariant\<close>

text \<open>A request Rust can hold: fewer than \<open>2 ^ 63\<close> entries in one payload.\<close>

definition payload_fits :: "sync_mutation_dto \<Rightarrow> bool" where
  "payload_fits m = (case parse_entries m of Inl _ \<Rightarrow> True | Inr ds \<Rightarrow> length ds < 2 ^ 63)"

lemma upsert_record_ok:
  assumes "parse_entries m = Inr drafts" and "validate_balanced drafts = Inr ()" and "payload_fits m"
    and "tx_map_ok (transactions s)"
  shows "tx_ok (mut_entity_id m)
    (upsert_record_mem c b m (hm_get (transactions s) (mut_entity_id m)) requested drafts)"
proof -
  have "length drafts < 2 ^ 63" using assms(1,3) by (simp add: payload_fits_def)
  then have "balanced_spec drafts" using assms(2) by (simp add: validate_balanced_ok_spec)
  then have "entries_ok (map entry_tuple drafts)" by (rule entries_ok_drafts)
  then show ?thesis
    using assms(4) by (force simp: tx_ok_def upsert_record_mem_def tx_map_ok_iff split: option.splits)
qed

lemma effects_store_inv:
  assumes "store_inv s"
  shows "account_effect c b m s r s' \<Longrightarrow> store_inv s'"
    and "delete_effect c b m s r s' \<Longrightarrow> store_inv s'"
    and "upsert_effect rf c b m s r s' \<Longrightarrow> payload_fits m \<Longrightarrow> store_inv s'"
proof -
  have ok: "accounts_ok s" "tx_map_ok (transactions s)" using assms by (auto simp: store_inv_def)
  show "store_inv s'" if eff: "account_effect c b m s r s'"
  proof -
    obtain a where a: "account_write s b m a" "s' = put_account (call_new_id c) (account_log_payload a) a s"
      using eff by (auto simp: account_effect_def)
    have "acc_version a = next_version acc_version (hm_get (accounts s) (acc_id a))"
      using a(1) unfolding account_write_def by blast
    then show ?thesis
      unfolding a(2) by (intro put_account_inv assms account_write_map_ok [OF ok(1) a(1)])
  qed
  show "store_inv s'" if eff: "delete_effect c b m s r s'"
  proof -
    obtain e where e: "hm_get (transactions s) (mut_entity_id m) = Some e"
      and s': "s' = put_transaction (call_new_id c) ''delete'' (mut_payload m)
         (e\<lparr>tx_deleted := True, tx_version := tx_version e + 1\<rparr>) s"
      using eff by (auto simp: delete_effect_def)
    have "tx_ok (mut_entity_id m) e" using ok(2) e by (simp add: tx_map_ok_iff)
    then show ?thesis
      unfolding s' using e by (intro put_transaction_inv assms) (auto simp: tx_ok_def next_version_def)
  qed
  show "store_inv s'" if up: "upsert_effect rf c b m s r s'" and fits: "payload_fits m"
  proof -
    obtain requested drafts where p: "parse_entries m = Inr drafts" "validate_balanced drafts = Inr ()"
      and s': "s' = put_transaction (call_new_id c) ''upsert''
         (upsert_payload_mem rf m (hm_get (transactions s) (mut_entity_id m))
           (tx_occurred_at (upsert_record_mem c b m (hm_get (transactions s) (mut_entity_id m)) requested drafts)))
         (upsert_record_mem c b m (hm_get (transactions s) (mut_entity_id m)) requested drafts) s"
      using up by (auto simp: upsert_effect_def Let_def)
    have [simp]: "tx_id (upsert_record_mem c b m e requested drafts) = mut_entity_id m" for e
      by (simp add: upsert_record_mem_def)
    show ?thesis
      unfolding s' using upsert_record_ok [OF p fits ok(2), of c b requested]
      by (intro put_transaction_inv assms)
        (simp_all add: next_version_def upsert_record_mem_def [of _ _ _ "hm_get (transactions s) (mut_entity_id m)"])
  qed
qed

lemma process_mutation_store_inv:
  assumes "store_inv s" and "payload_fits m"
  shows "store_inv (snd (process_mutation_mem rf c b m s))"
proof -
  obtain r s' where eq: "process_mutation_mem rf c b m s = (r, s')" by fastforce
  from assms(1) eq show ?thesis
  proof (cases rule: process_mutation_cases)
    case unchanged
    then show ?thesis using assms(1) eq by simp
  next
    case account
    then show ?thesis using effects_store_inv(1) [OF assms(1)] eq by simp
  next
    case delete
    then show ?thesis using effects_store_inv(2) [OF assms(1)] eq by simp
  next
    case upsert
    then show ?thesis using effects_store_inv(3) [OF assms(1) _ assms(2)] eq by simp
  qed
qed

text \<open>The payload of an accepted upsert is an object, and shows the stored transaction.\<close>

lemma upsert_payload_shows:
  assumes "parse_entries m = Inr drafts"
  shows "payload_shows rf (upsert_payload_mem rf m e (tx_occurred_at t))
    (t\<lparr>tx_entries := map entry_tuple drafts\<rparr>)"
proof -
  obtain es where es: "json_get (mut_payload m) ''entries'' = Some (JArray es)" "drafts = map parse_entry es"
    using assms by (auto simp: parse_entries_def bind_eq_Some_conv split: option.splits elim: as_array.elims)
  have obj: "is_object (mut_payload m)" using json_get_not_object [OF es(1)] .
  have "json_get (upsert_payload_mem rf m e (tx_occurred_at t)) ''occurredAt'' =
      Some (JString (rfc_format rf (tx_occurred_at t)))"
    and "json_get (upsert_payload_mem rf m e (tx_occurred_at t)) ''entries'' = Some (JArray es)"
    using obj es(1)
    by (auto simp: upsert_payload_mem_def Let_def canonical_transaction_payload_def
        format_occurred_at_def split: option.splits)
  then show ?thesis by (simp add: payload_shows_def es(2))
qed


lemma effects_sync_inv:
  assumes "sync_inv rf s"
  shows "account_effect c b m s r s' \<Longrightarrow> sync_inv rf s'"
    and "delete_effect c b m s r s' \<Longrightarrow> sync_inv rf s'"
    and "upsert_effect rf c b m s r s' \<Longrightarrow> payload_fits m \<Longrightarrow> sync_inv rf s'"
proof -
  have inv: "store_inv s" and mir: "log_mirrors rf s"
    and own: "\<And>i t. hm_get (transactions s) i = Some t \<Longrightarrow> entries_owned s t"
    using assms by (auto simp: sync_inv_def)
  show "sync_inv rf s'" if eff: "account_effect c b m s r s'"
  proof -
    obtain a where a: "account_write s b m a" "s' = put_account (call_new_id c) (account_log_payload a) a s"
      using eff by (auto simp: account_effect_def)
    have "acc_book_id x = acc_book_id a" if "hm_get (accounts s) (acc_id a) = Some x" for x
      using a(1) that by (simp add: account_write_def)
    with own mir effects_store_inv(1) [OF inv eff] show ?thesis
      by (simp add: sync_inv_def a(2) entries_owned_account put_account_mirrors account_log_payload_def)
  qed
  show "sync_inv rf s'" if eff: "delete_effect c b m s r s'"
  proof -
    obtain e where e: "hm_get (transactions s) (mut_entity_id m) = Some e"
      and s': "s' = put_transaction (call_new_id c) ''delete'' (mut_payload m)
         (e\<lparr>tx_deleted := True, tx_version := tx_version e + 1\<rparr>) s"
      using eff by (auto simp: delete_effect_def)
    have "entries_owned s' t" if "hm_get (transactions s') i = Some t" for i t
      using that own e
      by (cases "i = tx_id e") (auto simp: s' entries_owned_cong [of s' s, unfolded s']
          entries_owned_cong [of s s "e\<lparr>tx_deleted := True, tx_version := tx_version e + 1\<rparr>" e])
    with mir effects_store_inv(2) [OF inv eff] show ?thesis
      by (auto simp: sync_inv_def s' put_transaction_mirrors)
  qed
  show "sync_inv rf s'" if eff: "upsert_effect rf c b m s r s'" and fits: "payload_fits m"
  proof -
    let ?e = "hm_get (transactions s) (mut_entity_id m)"
    obtain requested drafts where p: "parse_entries m = Inr drafts" "owns_accounts_mem s b drafts"
      and s': "s' = put_transaction (call_new_id c) ''upsert''
         (upsert_payload_mem rf m ?e (tx_occurred_at (upsert_record_mem c b m ?e requested drafts)))
         (upsert_record_mem c b m ?e requested drafts) s"
      using eff by (auto simp: upsert_effect_def Let_def)
    let ?t = "upsert_record_mem c b m ?e requested drafts"
    have t: "?t\<lparr>tx_entries := map entry_tuple drafts\<rparr> = ?t" "tx_deleted ?t = False"
      by (simp_all add: upsert_record_mem_def)
    have "entries_owned s ?t"
      using p(2) by (auto simp: entries_owned_def upsert_record_mem_def owns_accounts_mem_def
          list_all_iff entry_tuple_def cong: option.case_cong)
    with own have "\<forall>i t. hm_get (transactions s') i = Some t \<longrightarrow> entries_owned s' t"
      by (auto simp: s' entries_owned_def)
    moreover have "log_mirrors rf s'"
      unfolding s' using upsert_payload_shows [OF p(1), of rf ?e ?t]
      by (intro put_transaction_mirrors [OF mir]) (simp add: t)
    ultimately show ?thesis
      using effects_store_inv(3) [OF inv eff fits] by (simp add: sync_inv_def)
  qed
qed

lemma process_mutation_sync_inv:
  assumes "sync_inv rf s" and "payload_fits m"
  shows "sync_inv rf (snd (process_mutation_mem rf c b m s))"
proof -
  obtain r s' where eq: "process_mutation_mem rf c b m s = (r, s')" by fastforce
  have "store_inv s" using assms(1) by (simp add: sync_inv_def)
  from this eq show ?thesis
  proof (cases rule: process_mutation_cases)
    case unchanged
    then show ?thesis using assms(1) eq by simp
  next
    case account
    then show ?thesis using effects_sync_inv(1) [OF assms(1)] eq by simp
  next
    case delete
    then show ?thesis using effects_sync_inv(2) [OF assms(1)] eq by simp
  next
    case upsert
    then show ?thesis using effects_sync_inv(3) [OF assms(1) _ assms(2)] eq by simp
  qed
qed

lemma push_step_snd:
  "snd (push_step_mem rf c (b, d, m) s) =
     (case hm_get (mutations s) (b, d, mut_mutation_id m) of
        Some _ \<Rightarrow> s
      | None \<Rightarrow> (snd (process_mutation_mem rf c b m s))
          \<lparr>mutations := hm_insert (b, d, mut_mutation_id m)
             (stored_receipt (fst (process_mutation_mem rf c b m s)))
             (mutations (snd (process_mutation_mem rf c b m s)))\<rparr>)"
  by (simp add: push_step_mem_def split: option.splits prod.splits)

lemma push_step_sync_inv:
  assumes "sync_inv rf s" and "payload_fits m"
  shows "sync_inv rf (snd (push_step_mem rf c (b, d, m) s))"
proof (cases "hm_get (mutations s) (b, d, mut_mutation_id m)")
  case None
  then show ?thesis
    using sync_inv_cong [OF process_mutation_sync_inv [OF assms]] by (simp add: push_step_snd)
next
  case (Some x)
  then show ?thesis using assms(1) by (simp add: push_step_snd)
qed

lemma push_mem_sync_inv:
  assumes "sync_inv rf s" and "list_all payload_fits (push_mutations req)"
  shows "sync_inv rf (snd (push_mem rf calls b req s))"
  unfolding push_mem_def
proof (rule push_loop_inv [where P = "sync_inv rf" and Q = "\<lambda>(b, d, m). payload_fits m"])
  show "sync_inv rf (snd (push_step_mem rf c x s))"
    if "sync_inv rf s" and "case x of (b, d, m) \<Rightarrow> payload_fits m" for c x s
    using that by (cases x) (simp add: push_step_sync_inv)
  show "case x of (b, d, m) \<Rightarrow> payload_fits m"
    if "x \<in> set (map (\<lambda>m. (b, push_device_id req, m)) (push_mutations req))" for x
    using that assms(2) by (auto simp: list_all_iff)
qed (rule assms(1))


text \<open>
  C1. A push keeps the books right, whatever it contains. If the store satisfies the invariant, then
  after any push to any book: the change log is numbered 1, 2, 3, ... without gaps; the category
  tree has two levels; every stored transaction has at least two non-zero entries in one currency
  that sum to zero, all in accounts of its own book; the log holds each version of every account and
  transaction exactly once, in order; and the last record of each shows its current contents.
\<close>

theorem push_mem_keeps_invariant:
  assumes "sync_inv rf s" and "list_all payload_fits (push_mutations req)"
  shows "sync_inv rf (snd (push_mem rf calls b req s))"
  using assms by (rule push_mem_sync_inv)

subsection \<open>Concrete mutations for the witnesses\<close>

definition ex_rf :: rfc3339 where
  "ex_rf = \<lparr>rfc_parse = (\<lambda>s. Some 0), rfc_format = (\<lambda>t. ''t'')\<rparr>"

definition ex_call :: "nat \<Rightarrow> call" where
  "ex_call n = \<lparr>call_now = int n, call_new_id = ''uuid'' @ nat_to_string n\<rparr>"

definition ex_account :: "string \<Rightarrow> string \<Rightarrow> string \<Rightarrow> sync_mutation_dto" where
  "ex_account mid aid ty =
     \<lparr>mut_mutation_id = mid, mut_entity_type = ''account'', mut_entity_id = aid,
      mut_operation = ''create'', mut_base_version = 0, mut_schema_version = 1,
      mut_payload = json_object [(''name'', JString ''Account''), (''accountType'', JString ty),
        (''currency'', JString ''CNY'')]\<rparr>"

definition ex_transaction :: "string \<Rightarrow> string \<Rightarrow> string \<Rightarrow> int \<Rightarrow> string \<Rightarrow> string \<Rightarrow> sync_mutation_dto" where
  "ex_transaction mid i operation base from to =
     \<lparr>mut_mutation_id = mid, mut_entity_type = ''transaction'', mut_entity_id = i,
      mut_operation = operation, mut_base_version = base, mut_schema_version = 1,
      mut_payload = json_object [(''entries'', JArray
        [entry_json (from, - 500, ''CNY''), entry_json (to, 500, ''CNY'')])]\<rparr>"

definition ex_push :: "sync_push_request" where
  "ex_push = \<lparr>push_device_id = ''d1'', push_mutations =
     [ex_account ''m1'' ''b1:cash'' ''asset'', ex_account ''m2'' ''b1:food'' ''expense'',
      ex_transaction ''m3'' ''t1'' ''create'' 0 ''b1:cash'' ''b1:food'']\<rparr>"

definition ex_store :: memory_store where
  "ex_store = snd (push_mem ex_rf ex_call ''b1'' ex_push empty_store)"

lemma ex_payload_fits [simp]:
  "payload_fits (ex_account mid aid ty)" "payload_fits (ex_transaction mid i p v f t)"
  by (simp_all add: payload_fits_def parse_entries_def ex_account_def ex_transaction_def
      json_get_object)

theorem push_mem_keeps_invariant_witness: "sync_inv ex_rf (snd (push_mem ex_rf ex_call ''b1'' ex_push empty_store))"
  by (rule push_mem_keeps_invariant [OF sync_inv_empty]) (simp add: ex_push_def)


lemma ex_store_inv: "sync_inv ex_rf ex_store"
  unfolding ex_store_def by (rule push_mem_sync_inv [OF sync_inv_empty]) (simp add: ex_push_def)

end
