(* ===== verification/Sync_Mem_Laws.thy ===== *)
theory Sync_Mem_Laws
  imports Sync_Mem
begin

section \<open>Laws of the in-memory push\<close>

text \<open>
  Idempotent replay (through the contract \<open>receipt_store\<close>), what a receipt says about the store,
  optimistic concurrency, de-duplication of automatic ledger events, and separation of the books;
  last, two executions that show where the in-memory store departs from the relational one.
\<close>

definition receipt_of_mem :: "memory_store \<Rightarrow> addressed \<Rightarrow> mutation_receipt_dto option" where
  "receipt_of_mem s = (\<lambda>(book_id, device_id, m).
     map_option (replay_receipt m) (hm_get (mutations s) (book_id, device_id, mut_mutation_id m)))"

lemma replay_stored [simp]:
  "rcp_mutation_id r = mut_mutation_id m \<Longrightarrow> replay_receipt m (stored_receipt r) = r"
  by (cases r) (simp add: replay_receipt_def stored_receipt_def)

text \<open>A handler answers the mutation it was given and leaves the stored receipts to the loop.\<close>

definition answers :: "sync_mutation_dto \<Rightarrow> memory_store \<Rightarrow> mutation_receipt_dto \<times> memory_store \<Rightarrow> bool" where
  "answers m s x \<longleftrightarrow> rcp_mutation_id (fst x) = mut_mutation_id m \<and> mutations (snd x) = mutations s"

lemma process_account_answers: "answers m s (process_account_mutation_mem c b m s)"
proof -
  have new: "case create_account_mem b m p s of Inl r \<Rightarrow> rcp_mutation_id r = mut_mutation_id m
      | Inr (s', _) \<Rightarrow> mutations s' = mutations s" for p
    by (simp add: create_account_mem_def Let_def split: option.split)
  have upd: "case update_account_mem b m p s of Inl r \<Rightarrow> rcp_mutation_id r = mut_mutation_id m
      | Inr (s', _) \<Rightarrow> mutations s' = mutations s" for p
    by (simp add: update_account_mem_def Let_def split: option.split)
  show ?thesis
  proof (cases "parse_account_payload b m")
    case (Inl r)
    then show ?thesis using parse_account_payload_Inl [OF Inl]
      by (auto simp: answers_def process_account_mutation_mem_def)
  next
    case (Inr p)
    then show ?thesis using new [of p] upd [of p]
      by (auto simp: answers_def process_account_mutation_mem_def split: sum.splits)
  qed
qed

lemma process_delete_answers: "answers m s (process_delete_mem c b m s)"
  by (simp add: answers_def process_delete_mem_def Let_def split: option.split)

lemma process_upsert_answers: "answers m s (process_upsert_mem rf c b m requested drafts s)"
  by (simp add: answers_def process_upsert_mem_def apply_transaction_mem_def Let_def split: option.split)

lemma process_mutation_answers: "answers m s (process_mutation_mem rf c b m s)"
proof -
  have at: "rcp_mutation_id r = mut_mutation_id m" if "parse_occurred_at rf m = Inl r" for r
    using that by (auto simp: parse_occurred_at_def split: option.splits)
  have ent: "rcp_mutation_id r = mut_mutation_id m" if "parse_entries m = Inl r" for r
    using that by (auto simp: parse_entries_def split: option.splits)
  have val: "rcp_mutation_id r = mut_mutation_id m" if "validate_or_reject m ds = Some r" for r ds
    using validate_or_reject_Some [OF that] by auto
  have same: "answers m s (r, s) \<longleftrightarrow> rcp_mutation_id r = mut_mutation_id m" for r
    by (simp add: answers_def)
  show ?thesis
    using process_account_answers [of m s c b] process_delete_answers [of m s c b]
      process_upsert_answers [of m s rf c b]
    by (simp add: process_mutation_mem_def same at ent val split: sum.split option.split)
qed

lemmas process_mutation_receipt_id = process_mutation_answers [unfolded answers_def, THEN conjunct1]
lemmas process_mutation_receipts = process_mutation_answers [unfolded answers_def, THEN conjunct2]

lemma push_step_Inr: "\<exists>r. fst (push_step_mem rf c x s) = Inr r"
  by (cases x) (simp add: push_step_mem_def split: option.split prod.split)

lemma push_mem_Inr: "\<exists>rs. fst (push_mem rf calls b req s) = Inr rs"
proof -
  have "\<exists>rs. fst (push_loop (push_step_mem rf) calls i ms s) = Inr rs" for i ms
  proof (induction ms arbitrary: i s)
    case Nil
    then show ?case by simp
  next
    case (Cons m ms)
    obtain r s1 where "push_step_mem rf (calls i) m s = (Inr r, s1)"
      using push_step_Inr by (metis prod.collapse)
    with Cons.IH [of "Suc i" s1] show ?case by (auto split: prod.splits sum.splits)
  qed
  then show ?thesis by (simp add: push_mem_def)
qed

interpretation mem_receipts: receipt_store receipt_of_mem "push_step_mem rf" "\<lambda>_. True" for rf
proof
  fix s :: memory_store and m :: addressed and r and c
  show "push_step_mem rf c m s = (Inr r, s)" if "receipt_of_mem s m = Some r"
    using that by (cases m) (auto simp: receipt_of_mem_def push_step_mem_def)
next
  fix s s' :: memory_store and m :: addressed and r and c
  assume st: "push_step_mem rf c m s = (Inr r, s')"
  obtain b d x where m: "m = (b, d, x)" by (cases m)
  show "receipt_of_mem s' m = Some r"
  proof (cases "hm_get (mutations s) (b, d, mut_mutation_id x)")
    case None
    then show ?thesis
      using st process_mutation_receipt_id [of rf c b x s]
      by (auto simp: m receipt_of_mem_def push_step_mem_def split: prod.splits)
  next
    case (Some y)
    then show ?thesis using st by (auto simp: m receipt_of_mem_def push_step_mem_def)
  qed
next
  fix s :: memory_store and m m' :: addressed and r and c
  assume have_r: "receipt_of_mem s m = Some r"
  obtain b d x where m: "m = (b, d, x)" by (cases m)
  obtain b' d' x' where m': "m' = (b', d', x')" by (cases m')
  show "receipt_of_mem (snd (push_step_mem rf c m' s)) m = Some r"
    using have_r
    by (auto simp: m m' receipt_of_mem_def push_step_snd process_mutation_receipts split: option.splits)
qed

text \<open>
  C2. Pushing is idempotent. Once a push has been answered, pushing the same request again, with any
  clock and any fresh ids, after any number of further mutations of any devices in any books,
  returns the same receipts and leaves the store exactly as it is.
\<close>

theorem push_mem_replay:
  assumes "push_mem rf calls b req s = (Inr rs, s')" and "step_reach (push_step_mem rf) s' s''"
  shows "push_mem rf calls' b req s'' = (Inr rs, s'')"
  using assms(1) _ assms(2) _ unfolding push_mem_def by (rule mem_receipts.push_replay) simp_all

theorem push_mem_replay_witness:
  "push_mem ex_rf (\<lambda>_. ex_call 77) ''b1'' ex_push ex_store =
     (fst (push_mem ex_rf ex_call ''b1'' ex_push empty_store), ex_store)"
proof -
  obtain rs where "push_mem ex_rf ex_call ''b1'' ex_push empty_store = (Inr rs, ex_store)"
    using push_mem_Inr by (metis ex_store_def prod.collapse)
  with push_mem_replay [OF this reach_refl] show ?thesis by simp
qed

subsection \<open>What a receipt means\<close>

lemma process_mutation_log:
  assumes "store_inv s" and "process_mutation_mem rf c b m s = (r, s')"
  shows "(if rcp_result_code r = ''OK''
     then rcp_status r = ''applied'' \<and> (\<exists>ch. changes s' = changes s @ [ch] \<and>
       chg_sequence ch = next_sequence s \<and> chg_book_id ch = b \<and>
       chg_entity_type ch = mut_entity_type m \<and> chg_entity_id ch = mut_entity_id m \<and>
       rcp_entity_version r = Some (chg_entity_version ch))
     else s' = s)"
  using assms
proof (cases rule: process_mutation_cases)
  case unchanged
  then show ?thesis by (auto simp: refused_def)
next
  case account
  then show ?thesis
    by (auto simp: account_effect_def account_write_def put_account_def push_change_def next_sequence_def)
next
  case delete
  have "tx_id e = mut_entity_id m" if "hm_get (transactions s) (mut_entity_id m) = Some e" for e
    using assms(1) that by (auto simp: store_inv_def tx_map_ok_iff tx_ok_def)
  with delete show ?thesis
    by (auto simp: delete_effect_def put_transaction_def push_change_def next_sequence_def)
next
  case upsert
  then show ?thesis
    by (auto simp: upsert_effect_def Let_def put_transaction_def push_change_def next_sequence_def
        upsert_record_mem_def)
qed

text \<open>
  A receipt tells what happened. A mutation that is not a replay is either answered OK, and then
  exactly one record with the next sequence number, the book, the entity and the version of the
  receipt is appended to the change log; or it is refused or recognised as a duplicate event, and
  then no account, no transaction and no log record changes. Its receipt is stored in both cases.
\<close>

theorem push_step_receipt:
  assumes "store_inv s" and "hm_get (mutations s) (b, d, mut_mutation_id m) = None"
    and "push_step_mem rf c (b, d, m) s = (Inr r, s')"
  shows "hm_get (mutations s') (b, d, mut_mutation_id m) = Some (stored_receipt r) \<and>
    (if rcp_result_code r = ''OK''
     then rcp_status r = ''applied'' \<and> (\<exists>ch. changes s' = changes s @ [ch] \<and>
       chg_sequence ch = next_sequence s \<and> chg_book_id ch = b \<and>
       chg_entity_type ch = mut_entity_type m \<and> chg_entity_id ch = mut_entity_id m \<and>
       rcp_entity_version r = Some (chg_entity_version ch))
     else accounts s' = accounts s \<and> transactions s' = transactions s \<and> changes s' = changes s)"
proof -
  obtain s1 where p: "process_mutation_mem rf c b m s = (r, s1)"
    and s': "s' = s1\<lparr>mutations := hm_insert (b, d, mut_mutation_id m) (stored_receipt r) (mutations s1)\<rparr>"
    using assms(2,3) by (auto simp: push_step_mem_def split: prod.splits)
  show ?thesis using process_mutation_log [OF assms(1) p] by (auto simp: s')
qed

theorem push_step_receipt_witness:
  "\<exists>r s'. push_step_mem ex_rf (ex_call 9) (''b1'', ''d2'', ex_transaction ''m9'' ''t1'' ''update'' 1 ''b1:cash'' ''b1:food'')
       ex_store = (Inr r, s') \<and> rcp_result_code r = ''OK'' \<and>
     (\<exists>ch. changes s' = changes ex_store @ [ch] \<and> rcp_entity_version r = Some (chg_entity_version ch))"
proof -
  let ?m = "ex_transaction ''m9'' ''t1'' ''update'' 1 ''b1:cash'' ''b1:food''"
  let ?p = "push_step_mem ex_rf (ex_call 9) (''b1'', ''d2'', ?m) ex_store"
  have inv: "store_inv ex_store" using ex_store_inv by (simp add: sync_inv_def)
  have new: "hm_get (mutations ex_store) (''b1'', ''d2'', mut_mutation_id ?m) = None" by code_simp
  have ok: "case fst ?p of Inl _ \<Rightarrow> False | Inr r \<Rightarrow> rcp_result_code r = ''OK''" by code_simp
  then obtain r where "fst ?p = Inr r" "rcp_result_code r = ''OK''" by (auto split: sum.splits)
  then have st: "?p = (Inr r, snd ?p)" by (metis prod.collapse)
  show ?thesis
    using push_step_receipt [OF inv new st] st \<open>rcp_result_code r = ''OK''\<close> by auto
qed


subsection \<open>Optimistic concurrency\<close>

text \<open>A write that names an old version is refused; only a delete may name no version, by a base of zero.\<close>

lemma stale_write_refused:
  assumes inv: "store_inv s" and e: "hm_get (transactions s) (mut_entity_id m) = Some e"
    and m: "mut_entity_type m = ''transaction''" "mut_base_version m \<noteq> tx_version e"
      "mut_base_version m = 0 \<Longrightarrow> mut_operation m \<noteq> ''delete''"
    and p: "process_mutation_mem rf c b m s = (r, s')"
  shows "s' = s \<and> rcp_status r = ''rejected''"
  using inv p
proof (cases rule: process_mutation_cases)
  case unchanged
  have "find_deduped_mem b m (Some e) s = None" by (simp add: find_deduped_mem_def)
  then have "rcp_status r = ''rejected''" if "r = deduped_receipt m v" for v
    using p that e m
    by (auto simp: process_mutation_mem_def process_delete_mem_def process_upsert_mem_def
        parse_occurred_at_def parse_entries_def Let_def deduped_receipt_def rejected_receipt_def
        split: if_splits sum.splits option.splits dest!: validate_or_reject_Some)
  with unchanged show ?thesis by (auto simp: refused_def)
qed (use e m in \<open>auto simp: delete_effect_def upsert_effect_def\<close>)

lemma applied_advances:
  assumes "store_inv s" and "hm_get (transactions s) (mut_entity_id m) = Some e"
    and "mut_entity_type m = ''transaction''"
    and "process_mutation_mem rf c b m s = (r, s')" and "rcp_result_code r = ''OK''"
  shows "\<exists>t. hm_get (transactions s') (mut_entity_id m) = Some t \<and> tx_version t = tx_version e + 1"
  using assms(1,4)
proof (cases rule: process_mutation_cases)
  case unchanged
  then show ?thesis using assms(5) by (auto simp: refused_def)
next
  case account
  then show ?thesis using assms(3) by simp
next
  case delete
  have "tx_id e = mut_entity_id m"
    using assms(1,2) by (auto simp: store_inv_def tx_map_ok_iff tx_ok_def)
  with delete assms(2) show ?thesis by (auto simp: delete_effect_def)
next
  case upsert
  then show ?thesis
    using assms(2) by (auto simp: upsert_effect_def upsert_record_mem_def Let_def)
qed

text \<open>A stored transaction stays, and its version never falls.\<close>

definition at_least :: "int \<Rightarrow> string \<Rightarrow> memory_store \<Rightarrow> bool" where
  "at_least n i s \<longleftrightarrow> store_inv s \<and> (case hm_get (transactions s) i of None \<Rightarrow> False | Some t \<Rightarrow> n \<le> tx_version t)"

lemma process_at_least:
  assumes "at_least n i s" and "payload_fits m"
  shows "at_least n i (snd (process_mutation_mem rf c b m s))"
proof -
  obtain r s' where p: "process_mutation_mem rf c b m s = (r, s')" by fastforce
  have inv: "store_inv s" using assms(1) by (simp add: at_least_def)
  have tid: "tx_id e = k" if "hm_get (transactions s) k = Some e" for e k
    using inv that by (auto simp: store_inv_def tx_map_ok_iff tx_ok_def)
  obtain t where t: "hm_get (transactions s) i = Some t" "n \<le> tx_version t"
    using assms(1) by (auto simp: at_least_def split: option.splits)
  from inv p have "\<exists>t'. hm_get (transactions s') i = Some t' \<and> n \<le> tx_version t'"
  proof (cases rule: process_mutation_cases)
    case unchanged
    then show ?thesis using t by simp
  next
    case account
    then show ?thesis using t by (auto simp: account_effect_def)
  next
    case delete
    then show ?thesis using t by (cases "i = mut_entity_id m") (auto simp: delete_effect_def dest: tid)
  next
    case upsert
    then show ?thesis using t
      by (cases "i = mut_entity_id m") (auto simp: upsert_effect_def upsert_record_mem_def Let_def)
  qed
  then show ?thesis
    using process_mutation_store_inv [OF inv assms(2), of rf c b] by (auto simp: at_least_def p)
qed

text \<open>Any further mutations that are pushed, of any devices and for any books.\<close>

definition further_pushes :: "rfc3339 \<Rightarrow> (call \<times> addressed) list \<Rightarrow> memory_store \<Rightarrow> memory_store" where
  "further_pushes rf steps s = fold (\<lambda>(c, x) s. snd (push_step_mem rf c x s)) steps s"

lemma further_at_least:
  assumes "at_least n i s" and "list_all (\<lambda>(_, _, _, m). payload_fits m) steps"
  shows "at_least n i (further_pushes rf steps s)"
  using assms
proof (induction steps arbitrary: s)
  case (Cons x steps)
  obtain c b d m where x: "x = (c, b, d, m)" by (cases x)
  have "at_least n i (s'\<lparr>mutations := ms\<rparr>)" if "at_least n i s'" for s' ms
    using that store_inv_cong [of s' "s'\<lparr>mutations := ms\<rparr>"] by (simp add: at_least_def)
  then have "at_least n i (snd (push_step_mem rf c (b, d, m) s))"
    using Cons.prems process_at_least [of n i s m rf c b] by (auto simp: push_step_snd x split: option.split)
  then show ?case using Cons by (simp add: further_pushes_def x)
qed (simp add: further_pushes_def)

text \<open>
  C3. No lost update. Two writes (update or delete) to one stored transaction name the same base
  version. Once the first is answered OK, the second is rejected and changes nothing, whatever has
  been pushed in between, by whatever devices and for whatever books. The one exception is a delete that names
  the base version zero: the code takes it as a delete of whatever version is stored.
\<close>

theorem second_writer_rejected:
  assumes "store_inv s" and "hm_get (transactions s) i \<noteq> None"
    and "payload_fits m1" and "list_all (\<lambda>(_, _, _, m). payload_fits m) steps"
    and "list_all (\<lambda>m. mut_entity_type m = ''transaction'' \<and> mut_entity_id m = i \<and>
      mut_base_version m = v) [m1, m2]"
    and "process_mutation_mem rf c1 b1 m1 s = (r1, s1)" and "rcp_result_code r1 = ''OK''"
    and "process_mutation_mem rf c2 b2 m2 (further_pushes rf steps s1) = (r2, s2)"
  shows "s2 = further_pushes rf steps s1 \<and> rcp_status r2 = ''rejected'' \<or> v = 0 \<and> mut_operation m2 = ''delete''"
proof (cases "v = 0 \<and> mut_operation m2 = ''delete''")
  case False
  obtain e where e: "hm_get (transactions s) i = Some e" using assms(2) by blast
  have id1: "mut_entity_id m1 = i" "mut_entity_type m1 = ''transaction''" "mut_base_version m1 = v"
    and id2: "mut_entity_id m2 = i" "mut_entity_type m2 = ''transaction''" "mut_base_version m2 = v"
    using assms(5) by auto
  have pos: "1 \<le> tx_version e" using assms(1) e by (auto simp: store_inv_def tx_map_ok_iff tx_ok_def)
  have v: "v = tx_version e \<or> v = 0"
  proof (rule ccontr)
    assume "\<not> (v = tx_version e \<or> v = 0)"
    then have "rcp_status r1 = ''rejected'' \<and> s1 = s"
      using stale_write_refused [OF assms(1) _ id1(2) _ _ assms(6), of e] e id1 by simp
    with process_mutation_log [OF assms(1,6)] assms(7) show False by simp
  qed
  obtain t where t: "hm_get (transactions s1) i = Some t" "tx_version t = tx_version e + 1"
    using applied_advances [OF assms(1) _ id1(2) assms(6,7), of e] e id1 by auto
  have "store_inv s1"
    using process_mutation_store_inv [OF assms(1,3), of rf c1 b1] assms(6) by simp
  with t have "at_least (tx_version e + 1) i s1" by (simp add: at_least_def)
  from further_at_least [OF this assms(4), of rf] obtain t' where
    later: "store_inv (further_pushes rf steps s1)" "hm_get (transactions (further_pushes rf steps s1)) i = Some t'"
    "tx_version e + 1 \<le> tx_version t'"
    by (auto simp: at_least_def split: option.splits)
  have "v \<noteq> tx_version t'" using v pos later(3) by auto
  then show ?thesis
    using stale_write_refused [OF later(1) _ id2(2) _ _ assms(8), of t'] later(2) id2 False by simp
qed simp

theorem second_writer_rejected_witness:
  "rcp_status (fst (process_mutation_mem ex_rf (ex_call 8) ''b1''
      (ex_transaction ''m8'' ''t1'' ''update'' 1 ''b1:food'' ''b1:cash'')
      (further_pushes ex_rf [(ex_call 9, ''b1'', ''d2'', ex_account ''m9'' ''b1:bank'' ''asset'')]
      (snd (process_mutation_mem ex_rf (ex_call 7) ''b1''
         (ex_transaction ''m7'' ''t1'' ''update'' 1 ''b1:cash'' ''b1:food'') ex_store))))) = ''rejected''"
proof -
  let ?m1 = "ex_transaction ''m7'' ''t1'' ''update'' 1 ''b1:cash'' ''b1:food''"
  let ?m2 = "ex_transaction ''m8'' ''t1'' ''update'' 1 ''b1:food'' ''b1:cash''"
  let ?steps = "[(ex_call 9, ''b1'', ''d2'', ex_account ''m9'' ''b1:bank'' ''asset'')]"
  have inv: "store_inv ex_store" using ex_store_inv by (simp add: sync_inv_def)
  have old: "hm_get (transactions ex_store) ''t1'' \<noteq> None" by code_simp
  have ok: "rcp_result_code (fst (process_mutation_mem ex_rf (ex_call 7) ''b1'' ?m1 ex_store)) = ''OK''"
    by code_simp
  have fits: "payload_fits ?m1" "list_all (\<lambda>(_, _, _, m). payload_fits m) ?steps" by simp_all
  have same: "list_all (\<lambda>m. mut_entity_type m = ''transaction'' \<and> mut_entity_id m = ''t1'' \<and>
      mut_base_version m = 1) [?m1, ?m2]" by (simp add: ex_transaction_def)
  show ?thesis
    using second_writer_rejected [OF inv old fits same prod.collapse [symmetric] ok
        prod.collapse [symmetric]] by simp
qed

subsection \<open>De-duplication of automatic ledger events\<close>

text \<open>
  An automatic ledger event is recorded once per book. A well-formed new transaction tagged
  auto_ledger whose fingerprint already belongs to a live auto_ledger transaction of the book is
  answered \<open>AUTO_LEDGER_DEDUPED\<close> with the version of such a transaction, and the store is left as
  it is: the copy of the same notification from a second device adds no spending.
\<close>

theorem auto_ledger_deduplicated:
  assumes "mut_entity_type m = ''transaction''" and "mut_operation m = ''create''"
    and "parse_occurred_at rf m = Inr requested" and "parse_entries m = Inr drafts"
    and "validate_balanced drafts = Inr ()" and "owns_accounts_mem s b drafts"
    and "hm_wf (transactions s)" and "hm_get (transactions s) (mut_entity_id m) = None"
    and "parse_source m = Some ''auto_ledger''" and "parse_source_event_fingerprint m = Some fp"
    and "hm_get (transactions s) i = Some t" and "auto_ledger_duplicate b fp t"
  shows "\<exists>t'. auto_ledger_duplicate b fp t' \<and> t' \<in> set (hm_values (transactions s)) \<and>
    process_mutation_mem rf c b m s = (deduped_receipt m (tx_version t'), s)"
proof -
  have val: "validate_or_reject m drafts = None"
    using assms(1,2,5) by (simp add: validate_or_reject_def)
  have "t \<in> set (hm_values (transactions s))" using assms(7,11) by (rule hm.get_vals)
  then have "List.find (auto_ledger_duplicate b fp) (hm_values (transactions s)) \<noteq> None"
    using assms(12) by (auto simp: find_None_iff)
  then obtain t' where t': "List.find (auto_ledger_duplicate b fp) (hm_values (transactions s)) = Some t'"
    by blast
  then have "auto_ledger_duplicate b fp t' \<and> t' \<in> set (hm_values (transactions s))"
    by (auto simp: find_Some_iff)
  moreover have "process_mutation_mem rf c b m s = (deduped_receipt m (tx_version t'), s)"
    using assms t' val by (simp add: process_mutation_mem_def process_upsert_mem_def find_deduped_mem_def)
  ultimately show ?thesis by blast
qed

definition ex_event :: "string \<Rightarrow> string \<Rightarrow> string \<Rightarrow> int \<Rightarrow> string \<Rightarrow> sync_mutation_dto" where
  "ex_event mid i operation base fp =
     (ex_transaction mid i operation base ''b1:cash'' ''b1:food'')\<lparr>mut_payload := json_object
       [(''entries'', JArray [entry_json (''b1:cash'', - 500, ''CNY''), entry_json (''b1:food'', 500, ''CNY'')]),
        (''source'', JString ''auto_ledger''), (''sourceEventFingerprint'', JString fp)]\<rparr>"

definition ex_fp :: "char \<Rightarrow> string" where
  "ex_fp c = replicate 64 c"

definition ex_book_account :: "string \<Rightarrow> string \<Rightarrow> string \<times> account_record" where
  "ex_book_account aid ty = (aid, \<lparr>acc_id = aid, acc_book_id = ''b1'', acc_name = ''Account'',
     acc_account_type = ty, acc_currency = ''CNY'', acc_parent_account_id = None, acc_version = 1\<rparr>)"

definition ex_event_record :: "string \<Rightarrow> string \<Rightarrow> tx_record" where
  "ex_event_record i fp = \<lparr>tx_id = i, tx_book_id = ''b1'', tx_occurred_at = 0, tx_description = None,
     tx_version = 3, tx_deleted = False, tx_entries = [(''b1:cash'', - 500, ''CNY''), (''b1:food'', 500, ''CNY'')],
     tx_source = Some ''auto_ledger'', tx_source_event_fingerprint = Some fp\<rparr>"

definition ex_event_store :: memory_store where
  "ex_event_store = empty_store
     \<lparr>accounts := [ex_book_account ''b1:cash'' ''asset'', ex_book_account ''b1:food'' ''expense''],
      transactions := [(''t2'', ex_event_record ''t2'' (ex_fp (CHR ''a'')))]\<rparr>"

lemma ex_event_parse:
  "parse_entries (ex_event mid i p v fp) = Inr
     [\<lparr>draft_account_id = ''b1:cash'', draft_amount_minor = - 500, draft_currency = ''CNY''\<rparr>,
      \<lparr>draft_account_id = ''b1:food'', draft_amount_minor = 500, draft_currency = ''CNY''\<rparr>]"
  "parse_occurred_at rf (ex_event mid i p v fp) = Inr None"
  by (simp_all add: parse_entries_def parse_occurred_at_def ex_event_def json_get_object
      parse_entry_json in_signed_def)

theorem auto_ledger_deduplicated_witness:
  "process_mutation_mem ex_rf (ex_call 5) ''b1''
     (ex_event ''e2'' ''t3'' ''create'' 0 (ex_fp (CHR ''a''))) ex_event_store =
   (deduped_receipt (ex_event ''e2'' ''t3'' ''create'' 0 (ex_fp (CHR ''a''))) 3, ex_event_store)"
proof -
  let ?m = "ex_event ''e2'' ''t3'' ''create'' 0 (ex_fp (CHR ''a''))"
  let ?ds = "[\<lparr>draft_account_id = ''b1:cash'', draft_amount_minor = - 500, draft_currency = ''CNY''\<rparr>,
      \<lparr>draft_account_id = ''b1:food'', draft_amount_minor = 500, draft_currency = ''CNY''\<rparr>]"
  have m: "mut_entity_type ?m = ''transaction''" "mut_operation ?m = ''create''" "mut_entity_id ?m = ''t3''"
    by (simp_all add: ex_event_def ex_transaction_def)
  have bal: "validate_balanced ?ds = Inr ()" by code_simp
  have tags: "parse_source ?m = Some ''auto_ledger''"
      "parse_source_event_fingerprint ?m = Some (ex_fp (CHR ''a''))" by code_simp+
  have store: "owns_accounts_mem ex_event_store ''b1'' ?ds" "hm_wf (transactions ex_event_store)"
      "hm_get (transactions ex_event_store) (mut_entity_id ?m) = None"
      "hm_get (transactions ex_event_store) ''t2'' = Some (ex_event_record ''t2'' (ex_fp (CHR ''a'')))"
      "auto_ledger_duplicate ''b1'' (ex_fp (CHR ''a'')) (ex_event_record ''t2'' (ex_fp (CHR ''a'')))"
    by (simp_all add: m ex_event_store_def owns_accounts_mem_def ex_book_account_def hm_get_def
        hm_wf_def auto_ledger_duplicate_def ex_event_record_def)
  show ?thesis
    using auto_ledger_deduplicated [OF m(1,2) ex_event_parse(2,1) bal store(1,2,3) tags store(4,5)]
    by (auto simp: ex_event_store_def hm_values_def ex_event_record_def)
qed


subsection \<open>Separation of the books\<close>

text \<open>The effect of pushes to book \<open>b\<close> on what belongs to other books.\<close>

definition only_book :: "string \<Rightarrow> memory_store \<Rightarrow> memory_store \<Rightarrow> bool" where
  "only_book b s s' \<longleftrightarrow>
     (\<forall>aid a. hm_get (accounts s) aid = Some a \<longrightarrow> acc_book_id a \<noteq> b \<longrightarrow>
        hm_get (accounts s') aid = Some a) \<and>
     (\<exists>cs. changes s' = changes s @ cs \<and> list_all (\<lambda>c. chg_book_id c = b) cs) \<and> books s' = books s"

lemma only_book_refl: "only_book b s s"
  by (simp add: only_book_def)

lemma only_book_trans: "only_book b s s' \<Longrightarrow> only_book b s' s'' \<Longrightarrow> only_book b s s''"
  by (auto simp: only_book_def)

lemma process_mutation_only_book:
  assumes "store_inv s" and "process_mutation_mem rf c b m s = (r, s')"
  shows "only_book b s s'"
  using assms
proof (cases rule: process_mutation_cases)
  case unchanged
  then show ?thesis by (simp add: only_book_refl)
next
  case account
  then obtain a where a: "account_write s b m a" "s' = put_account (call_new_id c) (account_log_payload a) a s"
    by (auto simp: account_effect_def)
  have "hm_get (accounts s) (acc_id a) = Some x \<Longrightarrow> acc_book_id x = b" for x
    using a(1) by (simp add: account_write_def)
  moreover have "acc_book_id a = b" using a(1) by (simp add: account_write_def)
  ultimately show ?thesis
    by (auto simp: only_book_def a(2)) (simp add: put_account_def push_change_def)
next
  case delete
  then show ?thesis
    by (auto simp: only_book_def delete_effect_def) (simp_all add: put_transaction_def push_change_def)
next
  case upsert
  then obtain j t where "s' = put_transaction (call_new_id c) ''upsert'' j t s" "tx_book_id t = b"
    by (auto simp: upsert_effect_def Let_def upsert_record_mem_def)
  then show ?thesis
    by (auto simp: only_book_def) (simp add: put_transaction_def push_change_def)
qed

lemma push_step_only_book:
  assumes "store_inv s"
  shows "only_book b s (snd (push_step_mem rf c (b, d, m) s))"
proof -
  have "only_book b s (snd (process_mutation_mem rf c b m s))"
    using process_mutation_only_book [OF assms] by (metis prod.collapse)
  then have "only_book b s ((snd (process_mutation_mem rf c b m s))\<lparr>mutations := x\<rparr>)" for x
    by (simp add: only_book_def)
  then show ?thesis by (simp add: push_step_snd only_book_refl split: option.split)
qed

lemma push_step_store_inv:
  assumes "store_inv s" and "payload_fits m"
  shows "store_inv (snd (push_step_mem rf c (b, d, m) s))"
  using assms store_inv_cong [OF process_mutation_store_inv [OF assms]]
  by (simp add: push_step_snd split: option.split)

text \<open>
  A push to one book stays in that book: the accounts of every other book are left as they are,
  no book is added or changed, and the log grows by records of the pushed book only, so no other
  book's clients ever see a trace of it.
\<close>

theorem push_mem_only_book:
  assumes "store_inv s" and "list_all payload_fits (push_mutations req)"
  shows "only_book b s (snd (push_mem rf calls b req s))"
proof -
  let ?P = "\<lambda>x. store_inv x \<and> only_book b s x"
  have "?P (snd (push_mem rf calls b req s))"
    unfolding push_mem_def
  proof (rule push_loop_inv [where P = ?P and Q = "\<lambda>(b', d, m). payload_fits m \<and> b' = b"])
    show "?P (snd (push_step_mem rf c x s1))"
      if "?P s1" and "case x of (b', d, m) \<Rightarrow> payload_fits m \<and> b' = b" for c x s1
      using that by (cases x) (auto simp: push_step_store_inv intro: only_book_trans push_step_only_book)
    show "case x of (b', d, m) \<Rightarrow> payload_fits m \<and> b' = b"
      if "x \<in> set (map (\<lambda>m. (b, push_device_id req, m)) (push_mutations req))" for x
      using that assms(2) by (auto simp: list_all_iff)
  qed (simp add: assms(1) only_book_refl)
  then show ?thesis by simp
qed

theorem push_mem_only_book_witness:
  "only_book ''b1'' empty_store (snd (push_mem ex_rf ex_call ''b1'' ex_push empty_store))"
  by (rule push_mem_only_book [OF store_inv_empty]) (simp add: ex_push_def)

subsection \<open>Where the in-memory store departs from the relational one\<close>

text \<open>
  The lookup by \<open>entity_id\<close> of \<open>process_mutation_mem\<close> does not compare the book, as the relational
  path does: an update pushed to book \<open>b2\<close> takes over a transaction of book \<open>b1\<close>.
\<close>

definition ex_two_books :: memory_store where
  "ex_two_books = ex_event_store\<lparr>accounts :=
     [(''b2:x'', (snd (ex_book_account ''b2:x'' ''asset''))\<lparr>acc_book_id := ''b2''\<rparr>),
      (''b2:y'', (snd (ex_book_account ''b2:y'' ''asset''))\<lparr>acc_book_id := ''b2''\<rparr>)]\<rparr>"

lemma cross_book_update:
  "map_option tx_book_id (hm_get (transactions ex_two_books) ''t2'') = Some ''b1'' \<and>
   map_option tx_book_id (hm_get (transactions (snd (process_mutation_mem ex_rf (ex_call 1) ''b2''
     (ex_transaction ''m1'' ''t2'' ''update'' 3 ''b2:x'' ''b2:y'') ex_two_books))) ''t2'') = Some ''b2''"
  by code_simp

text \<open>
  The duplicate check runs for a new transaction only, so an update can give a second live
  transaction the fingerprint of an earlier one; the relational store has a unique index for it.
\<close>

definition ex_two_events :: memory_store where
  "ex_two_events = ex_event_store\<lparr>transactions :=
     [(''t2'', ex_event_record ''t2'' (ex_fp (CHR ''a''))), (''t3'', ex_event_record ''t3'' (ex_fp (CHR ''b'')))]\<rparr>"

lemma duplicate_by_update:
  "length (filter (auto_ledger_duplicate ''b1'' (ex_fp (CHR ''a'')))
     (hm_values (transactions (snd (process_mutation_mem ex_rf (ex_call 1) ''b1''
        (ex_event ''m1'' ''t3'' ''update'' 3 (ex_fp (CHR ''a''))) ex_two_events))))) = 2"
  by code_simp

end
