(* ===== verification/Change_Feed.thy ===== *)
theory Change_Feed
  imports Sync_Payload
begin

section \<open>Paging through the change log\<close>

text \<open>
  The page loop that \<open>pull\<close> (transport/http/sync.rs) runs over the rows after the cursor, the same
  over both stores, and the contract of such a feed: the locale \<open>change_feed\<close>. A client that
  follows the cursors is \<open>drain\<close>; the lemmas of the locale show that it sees every change of the
  book once and in order, and ends.
\<close>

text \<open>The loop: up to \<open>limit\<close> rows, and further rows as long as they belong to the last commit.\<close>

fun page_loop :: "('c \<Rightarrow> string) \<Rightarrow> nat \<Rightarrow> nat \<Rightarrow> string option \<Rightarrow> 'c list \<Rightarrow> 'c list" where
  "page_loop commit limit n last_commit [] = []"
| "page_loop commit limit n last_commit (c # cs) =
     (if limit \<le> n
      then (if last_commit = Some (commit c) then c # page_loop commit limit (Suc n) last_commit cs else [])
      else c # page_loop commit limit (Suc n) (Some (commit c)) cs)"

definition page_cursor :: "('c \<Rightarrow> int) \<Rightarrow> int \<Rightarrow> 'c list \<Rightarrow> int" where
  "page_cursor seq cursor page = (if page = [] then cursor else seq (last page))"

text \<open>A client that pulls until \<open>hasMore\<close> is false, with fuel for the number of requests.\<close>

fun drain :: "(int \<Rightarrow> 'c list \<times> int \<times> bool) \<Rightarrow> nat \<Rightarrow> int \<Rightarrow> 'c list option" where
  "drain request 0 cursor = None"
| "drain request (Suc n) cursor =
     (case request cursor of
        (page, nxt, has_more) \<Rightarrow>
          if has_more then map_option (\<lambda>rest. page @ rest) (drain request n nxt) else Some page)"

lemma page_loop_prefix: "\<exists>rest. cs = page_loop commit limit n lc cs @ rest"
  by (induction commit limit n lc cs rule: page_loop.induct) auto

lemma page_loop_progress: "n < limit \<Longrightarrow> cs \<noteq> [] \<Longrightarrow> page_loop commit limit n lc cs \<noteq> []"
  by (cases cs) simp_all

lemma page_loop_commit:
  assumes "cs = page_loop commit limit n lc cs @ c # rest"
  shows "limit \<le> n + length (page_loop commit limit n lc cs) \<and>
    commit c \<notin> set_option (if page_loop commit limit n lc cs = [] then lc
       else if limit \<le> n then lc else Some (commit (last (page_loop commit limit n lc cs))))"
  using assms
proof (induction commit limit n lc cs rule: page_loop.induct)
  case (1 commit limit n lc)
  then show ?case by simp
next
  case (2 commit limit n lc d cs)
  show ?case
  proof (cases "limit \<le> n")
    case True
    with 2 show ?thesis by (auto split: if_splits)
  next
    case False
    then have "cs = page_loop commit limit (Suc n) (Some (commit d)) cs @ c # rest" using 2 by simp
    note IH = "2.IH"(2) [OF False this]
    have same: "\<forall>x \<in> set (page_loop commit limit k (Some l) xs). commit x = l" if "limit \<le> k" for k l xs
      using that
    proof (induction xs arbitrary: k)
      case (Cons a xs)
      show ?case using Cons.IH [of "Suc k"] Cons.prems by (cases "l = commit a") simp_all
    qed simp
    show ?thesis
    proof (cases "limit \<le> Suc n")
      case True
      have "commit (last (d # page_loop commit limit (Suc n) (Some (commit d)) cs)) = commit d"
        using same [OF True, of "commit d" cs] by (auto simp: last_in_set)
      with IH False True show ?thesis by (auto split: if_splits)
    next
      case c: False
      with IH False show ?thesis by (auto split: if_splits)
    qed
  qed
qed

lemma sorted_split_filter:
  fixes seq :: "'c \<Rightarrow> int"
  assumes "sorted_wrt (<) (map seq xs)" and "xs = page @ rest" and "page \<noteq> []"
  shows "filter (\<lambda>c. seq (last page) < seq c) xs = rest"
proof -
  have "\<forall>c \<in> set page. seq c \<le> seq (last page)"
    using assms by (cases page rule: rev_cases) (auto simp: sorted_wrt_append sorted_wrt_map intro: less_imp_le)
  moreover have "\<forall>c \<in> set rest. seq (last page) < seq c"
    using assms by (auto simp: sorted_wrt_append sorted_wrt_map)
  ultimately show ?thesis using assms(2) by (auto simp: filter_empty_conv not_less intro!: filter_True)
qed

locale change_feed =
  fixes book_log :: "'s \<Rightarrow> string \<Rightarrow> 'c list"
    and rows :: "'s \<Rightarrow> string \<Rightarrow> int \<Rightarrow> nat \<Rightarrow> 'c list"
    and seq :: "'c \<Rightarrow> int"
    and commit :: "'c \<Rightarrow> string"
    and log_inv :: "'s \<Rightarrow> bool"
  assumes sorted_log: "log_inv s \<Longrightarrow> sorted_wrt (<) (map seq (book_log s b))"
    and rows_prefix: "log_inv s \<Longrightarrow>
      \<exists>rest. filter (\<lambda>c. cursor < seq c) (book_log s b) = rows s b cursor limit @ rest"
    and rows_some: "log_inv s \<Longrightarrow> 0 < limit \<Longrightarrow> rows s b cursor limit = [] \<Longrightarrow>
      filter (\<lambda>c. cursor < seq c) (book_log s b) = []"
begin

abbreviation pending :: "'s \<Rightarrow> string \<Rightarrow> int \<Rightarrow> 'c list" where
  "pending s b cursor \<equiv> filter (\<lambda>c. cursor < seq c) (book_log s b)"

abbreviation page :: "'s \<Rightarrow> string \<Rightarrow> int \<Rightarrow> nat \<Rightarrow> 'c list" where
  "page s b cursor limit \<equiv> page_loop commit limit 0 None (rows s b cursor limit)"

lemma pending_next:
  assumes "cursor \<le> cursor'"
  shows "pending s b cursor' = filter (\<lambda>c. cursor' < seq c) (pending s b cursor)"
  using assms by (auto simp: filter_filter intro!: filter_cong)

lemma page_then_pending:
  assumes "log_inv s"
  shows "pending s b cursor =
    page s b cursor limit @ pending s b (page_cursor seq cursor (page s b cursor limit))"
proof (cases "page s b cursor limit = []")
  case True
  then show ?thesis by (simp add: page_cursor_def)
next
  case False
  obtain rest where rest: "pending s b cursor = page s b cursor limit @ rest"
    using rows_prefix [OF assms] page_loop_prefix by (metis append.assoc)
  have sorted: "sorted_wrt (<) (map seq (pending s b cursor))"
    using sorted_log [OF assms] by (auto simp: sorted_wrt_map intro: sorted_wrt_filter)
  have "last (page s b cursor limit) \<in> set (pending s b cursor)"
    unfolding rest using False by simp
  then have "cursor \<le> seq (last (page s b cursor limit))" by simp
  then have "pending s b (seq (last (page s b cursor limit))) = rest"
    using sorted_split_filter [OF sorted rest False] by (simp only: pending_next)
  then show ?thesis using rest False by (simp add: page_cursor_def)
qed

lemma page_progress:
  assumes "log_inv s" and "0 < limit" and "pending s b cursor \<noteq> []"
  shows "page s b cursor limit \<noteq> []"
  using assms rows_some [OF assms(1,2)] by (intro page_loop_progress) auto

lemma page_in_log:
  assumes "log_inv s" and "c \<in> set (page s b cursor limit)"
  shows "c \<in> set (book_log s b)"
proof -
  have "c \<in> set (pending s b cursor)"
    using assms(2) page_then_pending [OF assms(1), of cursor b limit] by (metis Un_iff set_append)
  then show ?thesis by simp
qed

lemma drain_complete:
  assumes inv: "log_inv s" and lim: "0 < limit"
    and req: "\<And>cur. ok cur \<Longrightarrow> request cur = (let p = page s b cur limit; n = page_cursor seq cur p in
      (map f p, n, pending s b n \<noteq> []))"
    and ok: "\<And>c. c \<in> set (book_log s b) \<Longrightarrow> ok (seq c)"
    and "ok cursor" and "length (pending s b cursor) < fuel"
  shows "drain request fuel cursor = Some (map f (pending s b cursor))"
  using assms(5,6)
proof (induction fuel arbitrary: cursor)
  case 0
  then show ?case by simp
next
  case (Suc fuel)
  let ?p = "page s b cursor limit"
  let ?n = "page_cursor seq cursor ?p"
  have split: "pending s b cursor = ?p @ pending s b ?n" by (rule page_then_pending [OF inv])
  note rq = req [OF Suc.prems(1)]
  show ?case
  proof (cases "pending s b ?n = []")
    case True
    then show ?thesis using split rq by (simp add: Let_def)
  next
    case False
    then have ne: "?p \<noteq> []" using split page_progress [OF inv lim, of cursor b] by auto
    then have "0 < length ?p" by blast
    moreover have "length (pending s b cursor) = length ?p + length (pending s b ?n)"
      using split by (metis length_append)
    ultimately have less: "length (pending s b ?n) < fuel" using Suc.prems by linarith
    have "last ?p \<in> set (book_log s b)" using page_in_log [OF inv] ne last_in_set by blast
    then have "ok ?n" using ok ne by (simp add: page_cursor_def)
    from Suc.IH [OF this less] have "drain request fuel ?n = Some (map f (pending s b ?n))" .
    moreover have "map f (pending s b cursor) = map f ?p @ map f (pending s b ?n)"
      using split by (metis map_append)
    ultimately show ?thesis using False rq by (simp add: Let_def)
  qed
qed

end

end
