(* ===== verification/Authz.thy ===== *)
theory Authz
  imports Store_State
begin

section \<open>Authentication of requests, membership and plans (transport/http/authz.rs)\<close>

text \<open>
  \<open>AuthUser::from_request_parts\<close>, \<open>ensure_session_active\<close>, \<open>decode_access_token\<close>,
  \<open>require_book_member\<close>, \<open>user_plan\<close> and \<open>require_plan\<close> over the in-memory store. The verification
  of an EdDSA token with one key (signature and expiry) is the \<open>jsonwebtoken\<close> crate's: it is the
  argument \<open>decode\<close>, a function of the key and the token.
\<close>

record claims =
  cl_sub :: string
  cl_session_id :: string
  cl_device_id :: string
  cl_token_version :: int
  cl_exp :: nat

record auth_user =
  au_user_id :: string
  au_session_id :: string
  au_device_id :: string

text \<open>The two verification keys of \<open>Config\<close>: the current one and, during a rotation, the previous.\<close>

record 'k jwt_config =
  jwt_decoding_key :: 'k
  jwt_previous_decoding_key :: "'k option"

definition decode_access_token ::
  "('k \<Rightarrow> string \<Rightarrow> claims option) \<Rightarrow> 'k jwt_config \<Rightarrow> string \<Rightarrow> claims api_result" where
  "decode_access_token decode cfg token =
     (case decode (jwt_decoding_key cfg) token of
        Some c \<Rightarrow> Inr c
      | None \<Rightarrow>
          (case jwt_previous_decoding_key cfg of
             None \<Rightarrow> Inl (ApiError 401 ''UNAUTHORIZED'')
           | Some previous_key \<Rightarrow>
               (case decode previous_key token of
                  Some c \<Rightarrow> Inr c
                | None \<Rightarrow> Inl (ApiError 401 ''UNAUTHORIZED''))))"

definition session_active :: "claims \<Rightarrow> session_record \<Rightarrow> bool" where
  "session_active c session \<longleftrightarrow>
     \<not> ses_revoked session \<and> ses_user_id session = cl_sub c \<and> ses_device_id session = cl_device_id c"

definition ensure_session_active :: "memory_store \<Rightarrow> claims \<Rightarrow> unit api_result" where
  "ensure_session_active s c =
     (case hm_get (sessions s) (cl_session_id c) of
        Some session \<Rightarrow> if session_active c session then Inr () else Inl (ApiError 401 ''SESSION_REVOKED'')
      | None \<Rightarrow> Inl (ApiError 401 ''SESSION_REVOKED''))"

text \<open>\<open>header\<close> is the value of \<open>Authorization\<close>, None when it is missing or not visible ASCII.\<close>

definition from_request_parts ::
  "('k \<Rightarrow> string \<Rightarrow> claims option) \<Rightarrow> 'k jwt_config \<Rightarrow> memory_store \<Rightarrow> string option \<Rightarrow> auth_user api_result" where
  "from_request_parts decode cfg s header =
     (case header of
        None \<Rightarrow> Inl (ApiError 401 ''UNAUTHORIZED'')
      | Some h \<Rightarrow>
          (case (case strip_prefix ''Bearer '' h of
                   Some token \<Rightarrow> Some token | None \<Rightarrow> strip_prefix ''bearer '' h) of
             None \<Rightarrow> Inl (ApiError 401 ''UNAUTHORIZED'')
           | Some token \<Rightarrow>
               (case decode_access_token decode cfg token of
                  Inl e \<Rightarrow> Inl e
                | Inr c \<Rightarrow>
                    (case ensure_session_active s c of
                       Inl e \<Rightarrow> Inl e
                     | Inr _ \<Rightarrow> Inr \<lparr>au_user_id = cl_sub c, au_session_id = cl_session_id c,
                                     au_device_id = cl_device_id c\<rparr>))))"

definition require_book_member :: "memory_store \<Rightarrow> string \<Rightarrow> string \<Rightarrow> unit api_result" where
  "require_book_member s user_id book_id =
     (if (case hm_get (books s) book_id of None \<Rightarrow> False | Some b \<Rightarrow> bk_owner_id b = user_id)
      then Inr () else Inl (ApiError 403 ''BOOK_FORBIDDEN''))"

definition user_plan :: "memory_store \<Rightarrow> string \<Rightarrow> string" where
  "user_plan s user_id = (case hm_get (subscriptions s) user_id of Some p \<Rightarrow> p | None \<Rightarrow> ''free'')"

definition plan_allows :: "string \<Rightarrow> string \<Rightarrow> bool" where
  "plan_allows plan least =
     (if least = ''plus'' then plan = ''plus'' \<or> plan = ''family''
      else if least = ''family'' then plan = ''family'' else True)"

definition require_plan :: "memory_store \<Rightarrow> string \<Rightarrow> string \<Rightarrow> string api_result" where
  "require_plan s user_id least =
     (let plan = user_plan s user_id in
      if \<not> plan_allows plan least then Inl (ApiError 402 ''PLAN_REQUIRED'') else Inr plan)"

subsection \<open>Laws\<close>

lemma require_book_member_ok [simp]:
  "require_book_member s u b = Inr x \<longleftrightarrow> (\<exists>bk. hm_get (books s) b = Some bk \<and> bk_owner_id bk = u)"
  by (auto simp: require_book_member_def split: option.splits)

lemma ensure_session_active_ok [simp]:
  "ensure_session_active s c = Inr x \<longleftrightarrow>
     (\<exists>session. hm_get (sessions s) (cl_session_id c) = Some session \<and> session_active c session)"
  by (auto simp: ensure_session_active_def split: option.splits)

text \<open>
  C11. A request is authenticated as a user only by a bearer token that verifies under the current
  or the previous key, and whose session exists, is not revoked and belongs to the user and the
  device the token names. Revoking the session therefore invalidates its access tokens at once,
  before they expire.
\<close>

theorem authenticated_iff:
  "from_request_parts decode cfg s header = Inr u \<longleftrightarrow>
     (\<exists>token c session. (header = Some (''Bearer '' @ token) \<or> header = Some (''bearer '' @ token)) \<and>
        (decode (jwt_decoding_key cfg) token = Some c \<or>
         decode (jwt_decoding_key cfg) token = None \<and>
         (\<exists>k. jwt_previous_decoding_key cfg = Some k \<and> decode k token = Some c)) \<and>
        hm_get (sessions s) (cl_session_id c) = Some session \<and> \<not> ses_revoked session \<and>
        ses_user_id session = cl_sub c \<and> ses_device_id session = cl_device_id c \<and>
        u = \<lparr>au_user_id = cl_sub c, au_session_id = cl_session_id c, au_device_id = cl_device_id c\<rparr>)"
  (is "?l = ?r")
proof -
  have tok: "(case strip_prefix ''Bearer '' h of Some t \<Rightarrow> Some t | None \<Rightarrow> strip_prefix ''bearer '' h) = Some t
      \<longleftrightarrow> h = ''Bearer '' @ t \<or> h = ''bearer '' @ t" for h t
    by (auto split: option.split)
  have dec: "decode_access_token decode cfg t = Inr c \<longleftrightarrow>
      decode (jwt_decoding_key cfg) t = Some c \<or> decode (jwt_decoding_key cfg) t = None \<and>
      (\<exists>k. jwt_previous_decoding_key cfg = Some k \<and> decode k t = Some c)" for t c
    by (auto simp: decode_access_token_def split: option.splits)
  have "?l \<longleftrightarrow> (\<exists>h t c. header = Some h \<and> (h = ''Bearer '' @ t \<or> h = ''bearer '' @ t) \<and>
      decode_access_token decode cfg t = Inr c \<and> ensure_session_active s c = Inr () \<and>
      u = \<lparr>au_user_id = cl_sub c, au_session_id = cl_session_id c, au_device_id = cl_device_id c\<rparr>)"
    unfolding from_request_parts_def tok [symmetric]
    by (auto split: option.splits sum.splits simp del: ensure_session_active_ok)
  also have "\<dots> \<longleftrightarrow> ?r" unfolding dec by (auto simp: session_active_def)
  finally show ?thesis .
qed

lemma require_plan_ok: "require_plan s u least = Inr p \<longleftrightarrow> p = user_plan s u \<and> plan_allows p least"
  by (auto simp: require_plan_def Let_def)

end
