(* ===== verification/Sync_Pull.thy ===== *)
theory Sync_Pull
  imports Change_Feed Authz Store_Inv
begin

section \<open>Pull and bootstrap over the in-memory store (transport/http/sync.rs)\<close>

text \<open>
  \<open>pull\<close> and \<open>bootstrap\<close>: the page of changes after a cursor, and the snapshot of a book with the
  cursor to continue from. The feed of the in-memory log interprets \<open>change_feed\<close>.
\<close>

record pull_query =
  q_cursor :: "int option"
  q_limit :: "nat option"

definition rows_mem :: "memory_store \<Rightarrow> string \<Rightarrow> int \<Rightarrow> nat \<Rightarrow> change_record list" where
  "rows_mem s book_id cursor limit = sort_key chg_sequence
     (filter (\<lambda>c. chg_book_id c = book_id \<and> cursor < chg_sequence c) (changes s))"

definition change_dto_mem :: "rfc3339 \<Rightarrow> memory_store \<Rightarrow> change_record \<Rightarrow> sync_change_dto" where
  "change_dto_mem rf s c =
     (let payload =
        (if chg_entity_type c = ''transaction'' \<and> chg_operation c = ''upsert''
         then (case hm_get (transactions s) (chg_entity_id c) of
                 Some t \<Rightarrow> backfill_transaction_occurred_at rf (chg_payload c) (tx_occurred_at t)
               | None \<Rightarrow> chg_payload c)
         else chg_payload c) in
      \<lparr>dto_sequence = int_to_string (chg_sequence c), dto_commit_id = chg_commit_id c,
       dto_entity_type = chg_entity_type c, dto_entity_id = chg_entity_id c,
       dto_operation = chg_operation c, dto_version = chg_entity_version c, dto_payload = payload\<rparr>)"

definition pull_limit :: "nat option \<Rightarrow> nat" where
  "pull_limit l = min (case l of None \<Rightarrow> 500 | Some n \<Rightarrow> n) 1000"

definition pull_mem ::
  "rfc3339 \<Rightarrow> memory_store \<Rightarrow> string \<Rightarrow> string \<Rightarrow> pull_query \<Rightarrow> sync_pull_response api_result" where
  "pull_mem rf s user_id book_id q =
     (let cursor = (case q_cursor q of None \<Rightarrow> 0 | Some c \<Rightarrow> c); limit = pull_limit (q_limit q) in
      case require_book_member s user_id book_id of
        Inl e \<Rightarrow> Inl e
      | Inr _ \<Rightarrow>
          let page = page_loop chg_commit_id limit 0 None (rows_mem s book_id cursor limit);
              next_cursor = page_cursor chg_sequence cursor page;
              has_more = list_ex (\<lambda>c. chg_book_id c = book_id \<and> next_cursor < chg_sequence c) (changes s) in
          Inr \<lparr>pull_next_cursor = int_to_string next_cursor, pull_has_more = has_more,
               pull_changes = map (change_dto_mem rf s) page\<rparr>)"

subsection \<open>Bootstrap\<close>

definition bootstrap_account_json :: "account_record \<Rightarrow> json" where
  "bootstrap_account_json a = json_object [(''id'', JString (acc_id a)), (''version'', JInt (acc_version a)),
     (''name'', JString (acc_name a)), (''accountType'', JString (acc_account_type a)),
     (''currency'', JString (acc_currency a)), (''parentAccountId'', json_opt_str (acc_parent_account_id a))]"

definition bootstrap_tx_json :: "rfc3339 \<Rightarrow> tx_record \<Rightarrow> json" where
  "bootstrap_tx_json rf t = json_object [(''id'', JString (tx_id t)), (''version'', JInt (tx_version t)),
     (''occurredAt'', JString (format_occurred_at rf (tx_occurred_at t))),
     (''description'', json_opt_str (tx_description t)), (''source'', json_opt_str (tx_source t)),
     (''entries'', JArray (map entry_json (tx_entries t)))]"

definition high_water_mem :: "memory_store \<Rightarrow> string \<Rightarrow> int" where
  "high_water_mem s book_id =
     (case map chg_sequence (filter (\<lambda>c. chg_book_id c = book_id) (changes s)) of
        [] \<Rightarrow> 0 | x # xs \<Rightarrow> fold max xs x)"

definition bootstrap_mem :: "rfc3339 \<Rightarrow> string \<Rightarrow> memory_store \<Rightarrow> string \<Rightarrow> string \<Rightarrow> json api_result" where
  "bootstrap_mem rf new_id s user_id book_id =
     (case require_book_member s user_id book_id of
        Inl e \<Rightarrow> Inl e
      | Inr _ \<Rightarrow>
          if \<not> hm_contains (books s) book_id then Inl (ApiError 404 ''BOOK_NOT_FOUND'')
          else
            let txs = filter (\<lambda>t. tx_book_id t = book_id \<and> \<not> tx_deleted t) (hm_values (transactions s));
                accs = filter (\<lambda>a. acc_book_id a = book_id) (hm_values (accounts s)) in
            Inr (json_object [(''bootstrapId'', JString new_id),
              (''highWaterCursor'', JString (int_to_string (high_water_mem s book_id))),
              (''accounts'', JArray (map bootstrap_account_json accs)),
              (''transactions'', JArray (map (bootstrap_tx_json rf) txs))]))"

subsection \<open>The feed\<close>

definition book_log_mem :: "memory_store \<Rightarrow> string \<Rightarrow> change_record list" where
  "book_log_mem s b = filter (\<lambda>c. chg_book_id c = b) (changes s)"

lemma book_log_sorted: "log_ok s \<Longrightarrow> sorted_wrt (<) (map chg_sequence (book_log_mem s b))"
  using log_ok_sorted [of s] by (auto simp: book_log_mem_def sorted_wrt_map intro: sorted_wrt_filter)

lemma rows_mem_log:
  assumes "log_ok s"
  shows "rows_mem s b cursor limit = filter (\<lambda>c. cursor < chg_sequence c) (book_log_mem s b)"
proof -
  have "sorted (map chg_sequence (filter P (changes s)))" for P
    using log_ok_sorted [OF assms]
    by (auto simp: sorted_wrt_map intro: sorted_wrt_filter sorted_wrt_mono_rel [of _ "\<lambda>x y. chg_sequence x < chg_sequence y"])
  then have "rows_mem s b cursor limit =
      filter (\<lambda>c. chg_book_id c = b \<and> cursor < chg_sequence c) (changes s)"
    by (simp add: rows_mem_def sort_key_id_if_sorted)
  then show ?thesis by (simp add: book_log_mem_def filter_filter conj_commute)
qed

interpretation mem_feed: change_feed book_log_mem rows_mem chg_sequence chg_commit_id log_ok
  by unfold_locales (simp_all add: book_log_sorted rows_mem_log)

lemma has_more_pending:
  "list_ex (\<lambda>c. chg_book_id c = b \<and> n < chg_sequence c) (changes s) \<longleftrightarrow>
     filter (\<lambda>c. n < chg_sequence c) (book_log_mem s b) \<noteq> []"
  by (auto simp: list_ex_iff book_log_mem_def filter_empty_conv)


text \<open>One request of a client that holds \<open>cursor\<close>: the page, the next cursor it reads from the
  answer, and whether to ask again.\<close>

definition pull_request :: "rfc3339 \<Rightarrow> memory_store \<Rightarrow> string \<Rightarrow> string \<Rightarrow> nat option \<Rightarrow> int \<Rightarrow>
  sync_change_dto list \<times> int \<times> bool" where
  "pull_request rf s user_id book_id limit cursor =
     (case pull_mem rf s user_id book_id \<lparr>q_cursor = Some cursor, q_limit = limit\<rparr> of
        Inl _ \<Rightarrow> ([], cursor, False)
      | Inr r \<Rightarrow> (pull_changes r, the (parse_signed 64 (pull_next_cursor r)), pull_has_more r))"

lemma seq_in_i64:
  assumes "log_ok s" and "int (length (changes s)) < 2 ^ 63" and "c \<in> set (changes s)"
  shows "in_i64 (chg_sequence c)"
  using log_ok_bounds [OF assms(1,3)] assms(2) by (simp add: in_signed_def next_sequence_def)

lemma pull_mem_Inr:
  assumes "log_ok s" and "require_book_member s u b = Inr ()"
  shows "pull_mem rf s u b \<lparr>q_cursor = Some cur, q_limit = l\<rparr> =
    (let page = page_loop chg_commit_id (pull_limit l) 0 None (rows_mem s b cur (pull_limit l));
         n = page_cursor chg_sequence cur page in
     Inr \<lparr>pull_next_cursor = int_to_string n,
          pull_has_more = (filter (\<lambda>c. n < chg_sequence c) (book_log_mem s b) \<noteq> []),
          pull_changes = map (change_dto_mem rf s) page\<rparr>)"
  using assms(2) by (simp add: pull_mem_def Let_def has_more_pending del: require_book_member_ok)

lemma pull_request_page:
  assumes inv: "log_ok s" "int (length (changes s)) < 2 ^ 63" and mem: "require_book_member s u b = Inr ()"
    and cur: "in_i64 cur"
  shows "pull_request rf s u b l cur =
    (let p = page_loop chg_commit_id (pull_limit l) 0 None (rows_mem s b cur (pull_limit l));
         n = page_cursor chg_sequence cur p in
     (map (change_dto_mem rf s) p, n, filter (\<lambda>c. n < chg_sequence c) (book_log_mem s b) \<noteq> []))"
proof -
  let ?p = "page_loop chg_commit_id (pull_limit l) 0 None (rows_mem s b cur (pull_limit l))"
  have "last ?p \<in> set (changes s)" if "?p \<noteq> []"
    using mem_feed.page_in_log [OF inv(1), of "last ?p"] last_in_set [OF that]
    by (auto simp: book_log_mem_def)
  then have "in_i64 (page_cursor chg_sequence cur ?p)"
    using cur seq_in_i64 [OF inv] by (auto simp: page_cursor_def)
  then show ?thesis
    by (simp add: pull_request_def pull_mem_Inr [OF inv(1) mem] Let_def parse_int_to_string)
qed

lemma pull_drain_from:
  assumes "log_ok s" and "int (length (changes s)) < 2 ^ 63" and "require_book_member s u b = Inr ()"
    and "l \<noteq> Some 0" and "in_i64 cur"
  shows "drain (pull_request rf s u b l) (Suc (length (changes s))) cur =
    Some (map (change_dto_mem rf s) (filter (\<lambda>c. cur < chg_sequence c) (book_log_mem s b)))"
proof (rule mem_feed.drain_complete [where limit = "pull_limit l" and ok = in_i64])
  show "0 < pull_limit l" using assms(4) by (cases l) (auto simp: pull_limit_def)
  show "in_i64 (chg_sequence c)" if "c \<in> set (book_log_mem s b)" for c
    using that seq_in_i64 [OF assms(1,2)] by (simp add: book_log_mem_def)
  have "length (filter P (book_log_mem s b)) \<le> length (changes s)" for P
    unfolding book_log_mem_def by (meson le_trans length_filter_le)
  then show "length (filter (\<lambda>c. cur < chg_sequence c) (book_log_mem s b)) < Suc (length (changes s))"
    by (simp add: le_imp_less_Suc)
qed (use assms pull_request_page in auto)

text \<open>
  C6. Pulling is complete. A member of a book who follows the returned cursors from 0, with any page
  size but 0, gets \<open>hasMore = false\<close> after at most one request more than there are changes, and has
  then received every change of the book exactly once and in order, and no change of another book.
\<close>

theorem pull_drains_book:
  assumes "log_ok s" and "int (length (changes s)) < 2 ^ 63"
    and "hm_get (books s) b = Some bk" and "bk_owner_id bk = u" and "l \<noteq> Some 0"
  shows "drain (pull_request rf s u b l) (Suc (length (changes s))) 0 =
    Some (map (change_dto_mem rf s) (filter (\<lambda>c. chg_book_id c = b) (changes s)))"
proof -
  have "filter (\<lambda>c. 0 < chg_sequence c) (book_log_mem s b) = filter (\<lambda>c. chg_book_id c = b) (changes s)"
    using log_ok_bounds [OF assms(1)] by (force simp: book_log_mem_def filter_filter intro!: filter_cong)
  moreover have "require_book_member s u b = Inr ()" using assms(3,4) by simp
  ultimately show ?thesis using pull_drain_from [OF assms(1,2) _ assms(5)] by (simp add: in_signed_def)
qed

definition ex_change :: "int \<Rightarrow> string \<Rightarrow> string \<Rightarrow> change_record" where
  "ex_change n b cid = \<lparr>chg_sequence = n, chg_book_id = b, chg_commit_id = cid,
     chg_entity_type = ''account'', chg_entity_id = ''a'', chg_operation = ''upsert'',
     chg_entity_version = 1, chg_payload = JNull\<rparr>"

definition ex_feed_store :: memory_store where
  "ex_feed_store = empty_store
     \<lparr>books := [(''b1'', \<lparr>bk_id = ''b1'', bk_name = ''P'', bk_owner_id = ''u1''\<rparr>)],
      changes := [ex_change 1 ''b1'' ''c1'', ex_change 2 ''b2'' ''c2'', ex_change 3 ''b1'' ''c3'']\<rparr>"

theorem pull_drains_book_witness:
  "drain (pull_request \<lparr>rfc_parse = \<lambda>_. None, rfc_format = \<lambda>_. []\<rparr> ex_feed_store ''u1'' ''b1'' (Some 1)) 4 0 =
   Some (map (change_dto_mem \<lparr>rfc_parse = \<lambda>_. None, rfc_format = \<lambda>_. []\<rparr> ex_feed_store)
     [ex_change 1 ''b1'' ''c1'', ex_change 3 ''b1'' ''c3''])"
proof -
  have "log_ok ex_feed_store" by (simp add: log_ok_def ex_feed_store_def ex_change_def upt_rec)
  moreover have "length (changes ex_feed_store) = 3"
    and "filter (\<lambda>c. chg_book_id c = ''b1'') (changes ex_feed_store) =
      [ex_change 1 ''b1'' ''c1'', ex_change 3 ''b1'' ''c3'']"
    by (simp_all add: ex_feed_store_def ex_change_def)
  moreover have "hm_get (books ex_feed_store) ''b1'' = Some \<lparr>bk_id = ''b1'', bk_name = ''P'', bk_owner_id = ''u1''\<rparr>"
    by (simp add: ex_feed_store_def hm_get_def)
  ultimately show ?thesis
    using pull_drains_book [of ex_feed_store "''b1''" _ "''u1''" "Some 1"] by simp
qed

text \<open>
  A page never splits a commit: when there are more changes after a page, the next one belongs
  to another commit than the last change of the page, and the page holds at least \<open>limit\<close> changes.
\<close>

theorem pull_commit_unsplit:
  assumes "log_ok s" and "0 < limit"
    and "page = page_loop chg_commit_id limit 0 None (rows_mem s b cursor limit)"
    and "rows_mem s b cursor limit = page @ c # rest"
  shows "limit \<le> length page \<and> page \<noteq> [] \<and> chg_commit_id c \<noteq> chg_commit_id (last page)"
proof -
  have ne: "page \<noteq> []"
    unfolding assms(3) by (rule page_loop_progress [OF assms(2)]) (simp add: assms(4))
  have "rows_mem s b cursor limit =
      page_loop chg_commit_id limit 0 None (rows_mem s b cursor limit) @ c # rest"
    using assms(3,4) by metis
  from page_loop_commit [OF this, folded assms(3)] ne assms(2) show ?thesis by auto
qed

theorem pull_commit_unsplit_witness:
  "page_loop chg_commit_id 1 0 None (rows_mem ex_feed_store ''b1'' 0 1) = [ex_change 1 ''b1'' ''c1''] \<and>
   (1::nat) \<le> length [ex_change 1 ''b1'' ''c1''] \<and>
   chg_commit_id (ex_change 3 ''b1'' ''c3'') \<noteq> chg_commit_id (last [ex_change 1 ''b1'' ''c1''])"
  using pull_commit_unsplit [of ex_feed_store 1 "[ex_change 1 ''b1'' ''c1'']" "''b1''" 0 "ex_change 3 ''b1'' ''c3''" "[]"]
  by (simp add: log_ok_def ex_feed_store_def ex_change_def upt_rec rows_mem_def insort_key.simps)

text \<open>With \<open>limit = 0\<close> a page is empty and the cursor stays, while \<open>hasMore\<close> is true.\<close>

lemma pull_limit_zero:
  assumes "log_ok s" and "require_book_member s u b = Inr ()" and "book_log_mem s b \<noteq> []"
  shows "pull_mem rf s u b \<lparr>q_cursor = Some 0, q_limit = Some 0\<rparr> =
    Inr \<lparr>pull_next_cursor = int_to_string 0, pull_has_more = True, pull_changes = []\<rparr>"
proof -
  have "page_loop chg_commit_id 0 0 None xs = []" for xs by (cases xs) simp_all
  moreover have "filter (\<lambda>c. 0 < chg_sequence c) (book_log_mem s b) = book_log_mem s b"
    using log_ok_bounds [OF assms(1)] by (force simp: book_log_mem_def intro!: filter_True)
  ultimately show ?thesis
    using assms(3) by (simp add: pull_mem_Inr [OF assms(1,2)] pull_limit_def page_cursor_def Let_def)
qed


subsection \<open>The snapshot and where it continues\<close>

lemma high_water_bounds:
  assumes "log_ok s"
  shows "0 \<le> high_water_mem s b \<and> high_water_mem s b < next_sequence s \<and>
    (\<forall>c \<in> set (book_log_mem s b). chg_sequence c \<le> high_water_mem s b)"
proof (cases "map chg_sequence (book_log_mem s b)")
  case Nil
  then show ?thesis by (simp add: high_water_mem_def book_log_mem_def next_sequence_def)
next
  case (Cons x xs)
  have "high_water_mem s b = Max (chg_sequence ` set (book_log_mem s b))"
    using Cons Max.set_eq_fold [of x xs]
    by (simp add: high_water_mem_def book_log_mem_def [symmetric] flip: list.set_map)
  moreover have "chg_sequence ` set (book_log_mem s b) \<noteq> {}" using Cons by auto
  ultimately have "high_water_mem s b \<in> chg_sequence ` set (book_log_mem s b)"
    and "\<forall>c \<in> set (book_log_mem s b). chg_sequence c \<le> high_water_mem s b"
    using Max_in [of "chg_sequence ` set (book_log_mem s b)"] by auto
  then show ?thesis using log_ok_bounds [OF assms] by (force simp: book_log_mem_def)
qed

lemma new_after_high_water:
  assumes "log_ok s" and "log_ok s'" and "changes s' = changes s @ new"
  shows "filter (\<lambda>c. high_water_mem s b < chg_sequence c) (book_log_mem s' b) =
    filter (\<lambda>c. chg_book_id c = b) new"
proof -
  have "map chg_sequence (changes s') = map chg_sequence (changes s) @ map chg_sequence new"
    using assms(3) by simp
  then have "map chg_sequence new = map int [Suc (length (changes s))..<Suc (length (changes s'))]"
    using assms by (simp add: log_ok_def upt_add_eq_append [of 1 "Suc (length (changes s))" "length new", simplified])
  then have "\<forall>n \<in> set (map chg_sequence new). next_sequence s \<le> n"
    by (auto simp: next_sequence_def simp del: upt_Suc)
  then have "\<forall>c \<in> set new. high_water_mem s b < chg_sequence c"
    using high_water_bounds [OF assms(1), of b] by fastforce
  moreover have "filter (\<lambda>c. high_water_mem s b < chg_sequence c) (book_log_mem s b) = []"
    using high_water_bounds [OF assms(1), of b] by (auto simp: filter_empty_conv not_less)
  ultimately show ?thesis
    by (auto simp: book_log_mem_def assms(3) intro: filter_cong)
qed

text \<open>
  C7. Nothing falls between the snapshot and the feed. Whatever is written after a bootstrap of a
  book, a member who continues from the cursor of the snapshot receives exactly the changes of the
  book that were logged after it, once each and in order.
\<close>

theorem bootstrap_then_pull:
  assumes "log_ok s" and "bootstrap_mem rf new_id s u b = Inr j"
    and "log_ok s'" and "changes s' = changes s @ new" and "books s' = books s"
    and "int (length (changes s')) < 2 ^ 63" and "l \<noteq> Some 0"
  shows "\<exists>cur. Option.bind (get_str j ''highWaterCursor'') (parse_signed 64) = Some cur \<and>
    drain (pull_request rf s' u b l) (Suc (length (changes s'))) cur =
      Some (map (change_dto_mem rf s') (filter (\<lambda>c. chg_book_id c = b) new))"
proof -
  have mem: "require_book_member s u b = Inr ()"
    and j: "get_str j ''highWaterCursor'' = Some (int_to_string (high_water_mem s b))"
    using assms(2)
    by (auto simp: bootstrap_mem_def get_str_def json_get_object Let_def split: sum.splits if_splits)
  have mem': "require_book_member s' u b = Inr ()" using mem assms(5) by simp
  have "next_sequence s \<le> 2 ^ 63" using assms(4,6) by (simp add: next_sequence_def)
  then have hw: "in_i64 (high_water_mem s b)"
    using high_water_bounds [OF assms(1), of b] unfolding in_signed_def by auto
  show ?thesis
    using pull_drain_from [OF assms(3,6) mem' assms(7) hw] j
    by (simp add: new_after_high_water [OF assms(1,3,4)] parse_int_to_string [OF hw])
qed

theorem bootstrap_then_pull_witness:
  "\<exists>j cur. bootstrap_mem \<lparr>rfc_parse = \<lambda>_. None, rfc_format = \<lambda>_. []\<rparr> ''n'' ex_feed_store ''u1'' ''b1'' = Inr j \<and>
     Option.bind (get_str j ''highWaterCursor'') (parse_signed 64) = Some cur \<and>
     drain (pull_request \<lparr>rfc_parse = \<lambda>_. None, rfc_format = \<lambda>_. []\<rparr>
         (ex_feed_store\<lparr>changes := changes ex_feed_store @ [ex_change 4 ''b1'' ''c4'']\<rparr>) ''u1'' ''b1'' None) 5 cur =
       Some (map (change_dto_mem \<lparr>rfc_parse = \<lambda>_. None, rfc_format = \<lambda>_. []\<rparr>
         (ex_feed_store\<lparr>changes := changes ex_feed_store @ [ex_change 4 ''b1'' ''c4'']\<rparr>)) [ex_change 4 ''b1'' ''c4''])"
proof -
  let ?rf = "\<lparr>rfc_parse = \<lambda>_. None, rfc_format = \<lambda>_. []\<rparr>"
  let ?s = "ex_feed_store\<lparr>changes := changes ex_feed_store @ [ex_change 4 ''b1'' ''c4'']\<rparr>"
  obtain j where j: "bootstrap_mem ?rf ''n'' ex_feed_store ''u1'' ''b1'' = Inr j"
    by (auto simp: bootstrap_mem_def require_book_member_def hm_contains_def ex_feed_store_def hm_get_def Let_def)
  have "log_ok ex_feed_store" "log_ok ?s"
    by (simp_all add: log_ok_def ex_feed_store_def ex_change_def upt_rec)
  moreover have "length (changes ?s) = 4"
    and "filter (\<lambda>c. chg_book_id c = ''b1'') [ex_change 4 ''b1'' ''c4''] = [ex_change 4 ''b1'' ''c4'']"
    by (simp_all add: ex_feed_store_def ex_change_def)
  ultimately show ?thesis
    using bootstrap_then_pull [OF _ j, of ?s "[ex_change 4 ''b1'' ''c4'']" None] j
    by (auto simp del: bind_eq_Some_conv)
qed

text \<open>The JSON of a stored transaction reads back as the transaction.\<close>

lemma bootstrap_tx_shows:
  assumes "entries_ok (tx_entries t)"
  shows "payload_shows rf (bootstrap_tx_json rf t) t"
proof -
  have "entry_tuple (parse_entry (entry_json e)) = e" if "e \<in> set (tx_entries t)" for e
    using assms that by (cases e) (auto simp: entries_ok_def list_all_iff parse_entry_json entry_tuple_def)
  then have "map (entry_tuple \<circ> parse_entry) (map entry_json (tx_entries t)) = tx_entries t"
    by (simp add: map_idI)
  then show ?thesis
    by (simp add: payload_shows_def bootstrap_tx_json_def json_get_object format_occurred_at_def)
qed

text \<open>
  The snapshot is the book. \<open>bootstrap\<close> lists exactly the live transactions and the accounts of
  the book; a client that parses a listed transaction the way the server parses a mutation reads back
  its stored entries and its instant, and every listed transaction is balanced.
\<close>

theorem bootstrap_snapshot:
  assumes "store_inv s" and "bootstrap_mem rf new_id s u b = Inr j"
  shows "\<exists>txs accs. json_get j ''transactions'' = Some (JArray (map (bootstrap_tx_json rf) txs)) \<and>
    json_get j ''accounts'' = Some (JArray (map bootstrap_account_json accs)) \<and>
    set txs = {t. \<exists>i. hm_get (transactions s) i = Some t \<and> tx_book_id t = b \<and> \<not> tx_deleted t} \<and>
    set accs = {a. \<exists>i. hm_get (accounts s) i = Some a \<and> acc_book_id a = b} \<and>
    list_all (\<lambda>t. payload_shows rf (bootstrap_tx_json rf t) t \<and> entries_ok (tx_entries t)) txs"
proof -
  let ?txs = "filter (\<lambda>t. tx_book_id t = b \<and> \<not> tx_deleted t) (hm_values (transactions s))"
  let ?accs = "filter (\<lambda>a. acc_book_id a = b) (hm_values (accounts s))"
  have wf: "hm_wf (transactions s)" "hm_wf (accounts s)"
    and ok: "\<And>i t. hm_get (transactions s) i = Some t \<Longrightarrow> entries_ok (tx_entries t)"
    using assms(1) by (auto simp: store_inv_def tx_map_ok_iff account_map_ok_iff tx_ok_def)
  have "json_get j ''transactions'' = Some (JArray (map (bootstrap_tx_json rf) ?txs)) \<and>
      json_get j ''accounts'' = Some (JArray (map bootstrap_account_json ?accs))"
    using assms(2) by (auto simp: bootstrap_mem_def json_get_object Let_def split: sum.splits if_splits)
  moreover have "list_all (\<lambda>t. payload_shows rf (bootstrap_tx_json rf t) t \<and> entries_ok (tx_entries t)) ?txs"
    using ok bootstrap_tx_shows by (auto simp: list_all_iff hm.vals_iff [OF wf(1)])
  moreover have "set ?txs = {t. \<exists>i. hm_get (transactions s) i = Some t \<and> tx_book_id t = b \<and> \<not> tx_deleted t}"
    and "set ?accs = {a. \<exists>i. hm_get (accounts s) i = Some a \<and> acc_book_id a = b}"
    using hm.vals_iff [OF wf(1)] hm.vals_iff [OF wf(2)] by auto
  ultimately show ?thesis by blast
qed

definition ex_book_store :: memory_store where
  "ex_book_store = empty_store\<lparr>books := [(''b1'', \<lparr>bk_id = ''b1'', bk_name = ''P'', bk_owner_id = ''u1''\<rparr>)]\<rparr>"

theorem bootstrap_snapshot_witness:
  "\<exists>j. bootstrap_mem \<lparr>rfc_parse = \<lambda>_. None, rfc_format = \<lambda>_. []\<rparr> ''n'' ex_book_store ''u1'' ''b1'' = Inr j \<and>
     json_get j ''transactions'' = Some (JArray [])"
proof -
  let ?rf = "\<lparr>rfc_parse = \<lambda>_. None, rfc_format = \<lambda>_. []\<rparr>"
  obtain j where j: "bootstrap_mem ?rf ''n'' ex_book_store ''u1'' ''b1'' = Inr j"
    by (auto simp: bootstrap_mem_def require_book_member_def hm_contains_def ex_book_store_def hm_get_def Let_def)
  have "store_inv ex_book_store"
    by (rule store_inv_cong [OF store_inv_empty]) (simp_all add: ex_book_store_def)
  from bootstrap_snapshot [OF this j] j show ?thesis
    by (auto simp: ex_book_store_def empty_store_def)
qed

end
