(* ===== verification/Pg_Store.thy ===== *)
theory Pg_Store
  imports Store_State
begin

section \<open>The relational store\<close>

text \<open>
  The tables the sync handlers and the background jobs use (migrations/001, 002, 003, 005, 006 and
  008 to 012) as lists of rows, SQL statements as functions that may fail on a constraint, and transactions.

  A statement is a function from the database to an error or a value and the database; \<open>sql_bind\<close>
  is the \<open>?\<close> of the source: the first error ends the sequence. \<open>in_tx\<close> is \<open>pool.begin\<close>, the
  statements and \<open>commit\<close>: an error discards every change but the numbers taken from the sequence of
  \<open>sync_changes\<close>, which PostgreSQL does not give back. Its first argument is the fate of the
  transaction outside the program's control: it runs to the end, or the connection or the server
  fails somewhere before the commit (with some numbers of the sequence used up), or the commit takes
  effect and its reply is lost. A single statement on the pool is a transaction of one statement.

  Transactions run one after the other in this model; the advisory locks the handlers take are
  statements that change nothing.
\<close>

record tx_row =
  txr_id :: string
  txr_book_id :: string
  txr_description :: "string option"
  txr_version :: int
  txr_deleted_at :: "timestamp option"
  txr_occurred_at :: timestamp
  txr_source :: "string option"
  txr_fingerprint :: "string option"

record entry_row =
  er_id :: string
  er_transaction_id :: string
  er_account_id :: string
  er_amount_minor :: int
  er_currency_code :: string
  er_entry_index :: int

record member_row =
  mem_book_id :: string
  mem_user_id :: string
  mem_role :: string

record session_row =
  sr_id :: string
  sr_user_id :: string
  sr_device_id :: string
  sr_refresh_token_hash :: string
  sr_created_at :: timestamp
  sr_revoked_at :: "timestamp option"

record subscription_row =
  sub_user_id :: string
  sub_plan :: string
  sub_status :: string

record job_row =
  jb_id :: string
  jb_job_type :: string
  jb_payload :: json
  jb_status :: string
  jb_priority :: int
  jb_run_at :: timestamp
  jb_attempts :: int
  jb_max_attempts :: int
  jb_locked_by :: "string option"
  jb_locked_at :: "timestamp option"
  jb_last_error :: "string option"
  jb_completed_at :: "timestamp option"

record rule_row =
  rr_id :: string
  rr_book_id :: string
  rr_name :: string
  rr_payload :: json
  rr_next_run_at :: timestamp
  rr_active :: bool

record pg =
  pg_books :: "book_record list"
  pg_members :: "member_row list"
  pg_sessions :: "session_row list"
  pg_subscriptions :: "subscription_row list"
  pg_accounts :: "account_record list"
  pg_transactions :: "tx_row list"
  pg_entries :: "entry_row list"
  pg_mutations :: "((string \<times> string \<times> string) \<times> mutation_receipt) list"
  pg_changes :: "change_record list"
  pg_revisions :: "revision_record list"
  pg_jobs :: "job_row list"
  pg_rules :: "rule_row list"
  pg_audit :: "audit_event_record list"
  pg_attachments :: "attachment_record list"
  pg_sequence :: int

datatype sql_error = UniqueViolation | ForeignKeyViolation | CheckViolation | ProtocolError | ConnectionError

type_synonym 'a sql = "pg \<Rightarrow> (sql_error + 'a) \<times> pg"

definition sql_return :: "'a \<Rightarrow> 'a sql" where
  "sql_return x = (\<lambda>s. (Inr x, s))"

definition sql_fail :: "sql_error \<Rightarrow> 'a sql" where
  "sql_fail e = (\<lambda>s. (Inl e, s))"

definition sql_bind :: "'a sql \<Rightarrow> ('a \<Rightarrow> 'b sql) \<Rightarrow> 'b sql" where
  "sql_bind m f = (\<lambda>s. case m s of (Inl e, s') \<Rightarrow> (Inl e, s') | (Inr x, s') \<Rightarrow> f x s')"

text \<open>A \<open>SELECT\<close> reads; an \<open>INSERT\<close> or \<open>UPDATE\<close> fails when its check does.\<close>

definition sql_get :: "(pg \<Rightarrow> 'a) \<Rightarrow> 'a sql" where
  "sql_get f = (\<lambda>s. (Inr (f s), s))"

definition sql_modify :: "(pg \<Rightarrow> sql_error option) \<Rightarrow> (pg \<Rightarrow> pg) \<Rightarrow> unit sql" where
  "sql_modify check f = (\<lambda>s. case check s of Some e \<Rightarrow> (Inl e, s) | None \<Rightarrow> (Inr (), f s))"

fun sql_mapM :: "('a \<Rightarrow> unit sql) \<Rightarrow> 'a list \<Rightarrow> unit sql" where
  "sql_mapM f [] = sql_return ()"
| "sql_mapM f (x # xs) = sql_bind (f x) (\<lambda>_. sql_mapM f xs)"

datatype tx_fate = Runs | Aborted nat | ReplyLost

definition in_tx :: "tx_fate \<Rightarrow> 'a sql \<Rightarrow> 'a sql" where
  "in_tx fate m s =
     (case fate of
        Aborted n \<Rightarrow> (Inl ConnectionError, s\<lparr>pg_sequence := pg_sequence s + int n\<rparr>)
      | Runs \<Rightarrow>
          (case m s of
             (Inl e, s') \<Rightarrow> (Inl e, s\<lparr>pg_sequence := pg_sequence s'\<rparr>)
           | (Inr x, s') \<Rightarrow> (Inr x, s'))
      | ReplyLost \<Rightarrow>
          (case m s of
             (Inl e, s') \<Rightarrow> (Inl e, s\<lparr>pg_sequence := pg_sequence s'\<rparr>)
           | (Inr x, s') \<Rightarrow> (Inl ConnectionError, s')))"

lemma sql_return_apply [simp]: "sql_return x s = (Inr x, s)"
  by (simp add: sql_return_def)

lemma sql_fail_apply [simp]: "sql_fail e s = (Inl e, s)"
  by (simp add: sql_fail_def)

lemma sql_get_apply [simp]: "sql_get g s = (Inr (g s), s)"
  by (simp add: sql_get_def)

lemma sql_bind_return [simp]: "sql_bind (sql_return x) f = f x"
  by (simp add: sql_return_def sql_bind_def fun_eq_iff)

lemma sql_bind_get [simp]: "sql_bind (sql_get g) f s = f (g s) s"
  by (simp add: sql_get_def sql_bind_def)

lemma sql_bind_Inr:
  "sql_bind m f s = (Inr y, s') \<longleftrightarrow> (\<exists>x s1. m s = (Inr x, s1) \<and> f x s1 = (Inr y, s'))"
  by (auto simp: sql_bind_def split: prod.splits sum.splits)

lemma sql_bind_Inl:
  "sql_bind m f s = (Inl e, s') \<longleftrightarrow>
     m s = (Inl e, s') \<or> (\<exists>x s1. m s = (Inr x, s1) \<and> f x s1 = (Inl e, s'))"
  by (auto simp: sql_bind_def split: prod.splits sum.splits)

lemma sql_modify_Inr: "sql_modify c f s = (Inr x, s') \<longleftrightarrow> c s = None \<and> s' = f s"
  by (auto simp: sql_modify_def split: option.splits)

lemma sql_modify_Inl: "sql_modify c f s = (Inl e, s') \<longleftrightarrow> c s = Some e \<and> s' = s"
  by (auto simp: sql_modify_def split: option.splits)

lemmas sql_Inr = sql_bind_Inr sql_modify_Inr

text \<open>Nothing but the sequence moves without a commit.\<close>

lemma in_tx_cases:
  assumes "in_tx fate m s = (r, s')"
  obtains (committed) x where "m s = (Inr x, s')" "r = Inr x \<and> fate = Runs \<or> r = Inl ConnectionError \<and> fate = ReplyLost"
  | (failed) e s1 where "r = Inl e" "m s = (Inl e, s1)" "s' = s\<lparr>pg_sequence := pg_sequence s1\<rparr>"
  | (aborted) n where "r = Inl ConnectionError" "s' = s\<lparr>pg_sequence := pg_sequence s + int n\<rparr>" "fate = Aborted n"
proof -
  obtain q s1 where q: "m s = (q, s1)" by (cases "m s")
  show thesis
  proof (cases fate)
    case Runs
    then show thesis using assms committed failed by (cases q) (simp_all add: in_tx_def q, blast+)
  next
    case (Aborted n)
    then show thesis using assms aborted [of n] by (simp add: in_tx_def)
  next
    case ReplyLost
    then show thesis using assms committed failed by (cases q) (simp_all add: in_tx_def q, blast+)
  qed
qed

lemma in_tx_runs_Inr: "m s = (Inr x, s') \<Longrightarrow> in_tx Runs m s = (Inr x, s')"
  by (simp add: in_tx_def)

lemma in_tx_Inr: "in_tx fate m s = (Inr x, s') \<Longrightarrow> m s = (Inr x, s')"
  by (auto simp: in_tx_def split: tx_fate.splits prod.splits sum.splits)

subsection \<open>What every statement keeps\<close>

text \<open>
  A relation that statements stay within: reflexive and transitive, so that it carries over from the
  statements to their sequences. The handlers are built from \<open>sql_bind\<close>, branches and statements,
  and the rules of this locale follow that structure.
\<close>

definition sql_within :: "(pg \<Rightarrow> pg \<Rightarrow> bool) \<Rightarrow> 'a sql \<Rightarrow> bool" where
  "sql_within R m \<longleftrightarrow> (\<forall>s. R s (snd (m s)))"

locale sql_order =
  fixes R :: "pg \<Rightarrow> pg \<Rightarrow> bool"
  assumes order_refl: "R s s"
    and order_trans: "R s t \<Longrightarrow> R t u \<Longrightarrow> R s u"
begin

lemma within_bind:
  assumes "sql_within R m" and "\<And>x. sql_within R (f x)"
  shows "sql_within R (sql_bind m f)"
  unfolding sql_within_def
proof
  fix s
  obtain r s1 where m: "m s = (r, s1)" by fastforce
  have "R s s1" using assms(1) m by (metis sql_within_def snd_conv)
  moreover have "R s1 (snd (f x s1))" for x using assms(2) by (simp add: sql_within_def)
  ultimately show "R s (snd (sql_bind m f s))"
    by (auto simp: sql_bind_def m split: sum.split intro: order_trans)
qed

lemma within_basic:
  "sql_within R (sql_return x)" "sql_within R (sql_fail e)" "sql_within R (sql_get g)"
  by (simp_all add: sql_within_def order_refl)

lemma within_if:
  "(c \<Longrightarrow> sql_within R m) \<Longrightarrow> (\<not> c \<Longrightarrow> sql_within R n) \<Longrightarrow> sql_within R (if c then m else n)"
  by simp

lemma within_option:
  "sql_within R m \<Longrightarrow> (\<And>y. sql_within R (f y)) \<Longrightarrow> sql_within R (case x of None \<Rightarrow> m | Some y \<Rightarrow> f y)"
  by (cases x) simp_all

lemma within_sum:
  "(\<And>y. sql_within R (f y)) \<Longrightarrow> (\<And>y. sql_within R (g y)) \<Longrightarrow>
     sql_within R (case x of Inl y \<Rightarrow> f y | Inr y \<Rightarrow> g y)"
  by (cases x) simp_all

lemma within_modify: "(\<And>s. R s (f s)) \<Longrightarrow> sql_within R (sql_modify c f)"
  by (simp add: sql_within_def sql_modify_def order_refl split: option.split)

lemma within_mapM: "(\<And>x. sql_within R (f x)) \<Longrightarrow> sql_within R (sql_mapM f xs)"
  by (induction xs) (auto intro: within_bind within_basic)

lemma within_in_tx:
  assumes "sql_within R m" and "\<And>s n. R s (s\<lparr>pg_sequence := n\<rparr>)"
  shows "sql_within R (in_tx fate m)"
  unfolding sql_within_def
proof
  fix s
  obtain r s' where eq: "in_tx fate m s = (r, s')" by fastforce
  have "R s (snd (m s))" using assms(1) by (simp add: sql_within_def)
  with eq have "R s s'" by (cases rule: in_tx_cases) (auto simp: assms(2))
  then show "R s (snd (in_tx fate m s))" by (simp add: eq)
qed

lemmas within_intros = within_bind within_basic within_if within_option within_sum within_mapM

end

subsection \<open>Timestamps\<close>

text \<open>
  A \<open>TIMESTAMPTZ\<close> holds microseconds. Binding an \<open>OffsetDateTime\<close>, which has nanoseconds, sends the
  whole microseconds between 2000-01-01 and the instant, with the rest cut off towards zero.
\<close>

definition pg_epoch :: timestamp where
  "pg_epoch = 946684800 * 10 ^ 9"

definition to_micros :: "timestamp \<Rightarrow> timestamp" where
  "to_micros t =
     (let d = t - pg_epoch in pg_epoch + (if d < 0 then - ((- d) div 1000 * 1000) else d div 1000 * 1000))"

lemma to_micros_idem [simp]: "to_micros (to_micros t) = to_micros t"
  by (auto simp: to_micros_def Let_def)

text \<open>Less than a microsecond is lost.\<close>

lemma to_micros_near: "\<bar>to_micros t - t\<bar> < 1000"
  by (auto simp: to_micros_def Let_def)

subsection \<open>Statements\<close>

definition select_account :: "pg \<Rightarrow> string \<Rightarrow> account_record option" where
  "select_account s aid = List.find (\<lambda>a. acc_id a = aid) (pg_accounts s)"

definition select_transaction :: "pg \<Rightarrow> string \<Rightarrow> string \<Rightarrow> tx_row option" where
  "select_transaction s i book_id =
     List.find (\<lambda>t. txr_id t = i \<and> txr_book_id t = book_id) (pg_transactions s)"

text \<open>The partial unique index \<open>uq_transactions_auto_event\<close>.\<close>

definition auto_event :: "tx_row \<Rightarrow> (string \<times> string) option" where
  "auto_event t =
     (if txr_source t = Some ''auto_ledger'' \<and> txr_deleted_at t = None
      then map_option (\<lambda>fp. (txr_book_id t, fp)) (txr_fingerprint t) else None)"

fun distinct_some :: "'a option list \<Rightarrow> bool" where
  "distinct_some [] = True"
| "distinct_some (x # xs) = ((x = None \<or> x \<notin> set xs) \<and> distinct_some xs)"

definition insert_change :: "string \<Rightarrow> string \<Rightarrow> string \<Rightarrow> string \<Rightarrow> string \<Rightarrow> int \<Rightarrow> json \<Rightarrow> unit sql" where
  "insert_change book_id commit_id entity_type entity_id operation version payload =
     sql_modify (\<lambda>_. None) (\<lambda>s. s\<lparr>pg_sequence := pg_sequence s + 1, pg_changes := pg_changes s @
       [\<lparr>chg_sequence = pg_sequence s + 1, chg_book_id = book_id, chg_commit_id = commit_id,
         chg_entity_type = entity_type, chg_entity_id = entity_id, chg_operation = operation,
         chg_entity_version = version, chg_payload = payload\<rparr>]\<rparr>)"

definition insert_account :: "account_record \<Rightarrow> unit sql" where
  "insert_account a = sql_modify
     (\<lambda>s. if acc_id a \<in> set (map acc_id (pg_accounts s)) then Some UniqueViolation
          else if acc_book_id a \<notin> set (map bk_id (pg_books s)) then Some ForeignKeyViolation else None)
     (\<lambda>s. s\<lparr>pg_accounts := pg_accounts s @ [a]\<rparr>)"

definition insert_revision :: "revision_record \<Rightarrow> unit sql" where
  "insert_revision r = sql_modify
     (\<lambda>s. if rev_id r \<in> set (map rev_id (pg_revisions s)) then Some UniqueViolation
          else if rev_book_id r \<notin> set (map bk_id (pg_books s)) then Some ForeignKeyViolation else None)
     (\<lambda>s. s\<lparr>pg_revisions := pg_revisions s @ [r]\<rparr>)"

text \<open>The one column written from a time with nanoseconds is \<open>occurred_at\<close>.\<close>

definition insert_tx_row :: "tx_row \<Rightarrow> unit sql" where
  "insert_tx_row t = sql_modify
     (\<lambda>s. if txr_id t \<in> set (map txr_id (pg_transactions s)) then Some UniqueViolation
          else if auto_event t \<noteq> None \<and> auto_event t \<in> set (map auto_event (pg_transactions s))
          then Some UniqueViolation
          else if txr_book_id t \<notin> set (map bk_id (pg_books s)) then Some ForeignKeyViolation
          else if txr_version t < 1 then Some CheckViolation else None)
     (\<lambda>s. s\<lparr>pg_transactions := pg_transactions s @ [t\<lparr>txr_occurred_at := to_micros (txr_occurred_at t)\<rparr>]\<rparr>)"

text \<open>\<open>UPDATE transactions ... WHERE p\<close> with the number of rows it affected.\<close>

definition update_tx_rows :: "(tx_row \<Rightarrow> bool) \<Rightarrow> (tx_row \<Rightarrow> tx_row) \<Rightarrow> nat sql" where
  "update_tx_rows p f =
     (\<lambda>s. let rows = map (\<lambda>t. if p t then f t else t) (pg_transactions s) in
          if \<not> distinct_some (map auto_event rows) then (Inl UniqueViolation, s)
          else if list_ex (\<lambda>t. txr_version t < 1) rows then (Inl CheckViolation, s)
          else (Inr (length (filter p (pg_transactions s))), s\<lparr>pg_transactions := rows\<rparr>))"

definition delete_entries :: "string \<Rightarrow> unit sql" where
  "delete_entries i = sql_modify (\<lambda>_. None)
     (\<lambda>s. s\<lparr>pg_entries := filter (\<lambda>e. er_transaction_id e \<noteq> i) (pg_entries s)\<rparr>)"

definition insert_entry_row :: "entry_row \<Rightarrow> unit sql" where
  "insert_entry_row e = sql_modify
     (\<lambda>s. if er_id e \<in> set (map er_id (pg_entries s)) then Some UniqueViolation
          else if (er_transaction_id e, er_entry_index e) \<in>
                    set (map (\<lambda>x. (er_transaction_id x, er_entry_index x)) (pg_entries s))
          then Some UniqueViolation
          else if er_transaction_id e \<notin> set (map txr_id (pg_transactions s)) then Some ForeignKeyViolation
          else if er_account_id e \<notin> set (map acc_id (pg_accounts s)) then Some ForeignKeyViolation
          else if er_amount_minor e = 0 then Some CheckViolation else None)
     (\<lambda>s. s\<lparr>pg_entries := pg_entries s @ [e]\<rparr>)"

definition select_receipt :: "pg \<Rightarrow> string \<times> string \<times> string \<Rightarrow> mutation_receipt option" where
  "select_receipt s k = map_of (pg_mutations s) k"

definition insert_receipt :: "string \<times> string \<times> string \<Rightarrow> mutation_receipt \<Rightarrow> unit sql" where
  "insert_receipt k r = sql_modify
     (\<lambda>s. if k \<in> set (map fst (pg_mutations s)) then Some UniqueViolation else None)
     (\<lambda>s. s\<lparr>pg_mutations := pg_mutations s @ [(k, r)]\<rparr>)"

text \<open>The same with \<open>ON CONFLICT DO NOTHING\<close>.\<close>

definition insert_receipt_if_absent :: "string \<times> string \<times> string \<Rightarrow> mutation_receipt \<Rightarrow> unit sql" where
  "insert_receipt_if_absent k r = sql_modify (\<lambda>_. None)
     (\<lambda>s. if k \<in> set (map fst (pg_mutations s)) then s
          else s\<lparr>pg_mutations := pg_mutations s @ [(k, r)]\<rparr>)"

definition entries_of :: "pg \<Rightarrow> string \<Rightarrow> entry_row list" where
  "entries_of s i = sort_key er_entry_index (filter (\<lambda>e. er_transaction_id e = i) (pg_entries s))"

end
