(* ===== verification/Sync_Pg.thy ===== *)
theory Sync_Pg
  imports Pg_Store Sync_Mem Change_Feed Sync_Pull
begin

section \<open>Push and pull over the relational store (transport/http/sync.rs)\<close>

text \<open>
  \<open>valid_account_parent_pg\<close>, \<open>process_mutation_pg\<close>, \<open>process_account_mutation_pg\<close>,
  \<open>insert_pg_receipt\<close>, \<open>insert_delete_change\<close>, the classification of database errors, and the
  relational branches of \<open>push\<close>, \<open>pull\<close> and \<open>bootstrap\<close>.

  \<open>pg_call\<close> is what one mutation reads from outside: two clocks, two fresh ids, and the fate of each
  of its three database transactions (the receipt lookup, the mutation, the final receipt).
\<close>

record pg_call =
  pc_now :: timestamp
  pc_db_now :: timestamp
  pc_commit_id :: string
  pc_revision_id :: string
  pc_lookup :: tx_fate
  pc_process :: tx_fate
  pc_store :: tx_fate

datatype sync_db_error_kind = AutoLedgerDuplicate | OtherDbError

definition classify_sync_db_error :: "sql_error \<Rightarrow> sync_db_error_kind" where
  "classify_sync_db_error e = (if e = UniqueViolation then AutoLedgerDuplicate else OtherDbError)"

definition db_error_receipt :: "sync_mutation_dto \<Rightarrow> mutation_receipt_dto" where
  "db_error_receipt m = rejected_receipt m ''DB_ERROR'' None"

definition insert_pg_receipt :: "string \<Rightarrow> string \<Rightarrow> mutation_receipt_dto \<Rightarrow> unit sql" where
  "insert_pg_receipt book_id device_id receipt =
     insert_receipt (book_id, device_id, rcp_mutation_id receipt) (stored_receipt receipt)"

text \<open>Every way out of the two handlers: store the receipt, commit, return it.\<close>

definition finish :: "string \<Rightarrow> string \<Rightarrow> mutation_receipt_dto \<Rightarrow> mutation_receipt_dto sql" where
  "finish book_id device_id receipt =
     sql_bind (insert_pg_receipt book_id device_id receipt) (\<lambda>_. sql_return receipt)"

definition insert_delete_change :: "pg_call \<Rightarrow> string \<Rightarrow> sync_mutation_dto \<Rightarrow> int \<Rightarrow> unit sql" where
  "insert_delete_change c book_id m version =
     sql_bind (insert_change book_id (pc_commit_id c) ''transaction'' (mut_entity_id m) ''delete'' version
         (mut_payload m))
       (\<lambda>_. insert_revision \<lparr>rev_id = pc_revision_id c, rev_book_id = book_id,
          rev_transaction_id = mut_entity_id m, rev_version = version, rev_operation = ''delete'',
          rev_payload = mut_payload m\<rparr>)"

subsection \<open>Transactions\<close>

definition process_delete_pg :: "pg_call \<Rightarrow> string \<Rightarrow> string \<Rightarrow> sync_mutation_dto \<Rightarrow> tx_row option \<Rightarrow>
  mutation_receipt_dto sql" where
  "process_delete_pg c book_id device_id m existing =
     (case existing of
        None \<Rightarrow> finish book_id device_id (rejected_receipt m ''NOT_FOUND'' None)
      | Some t \<Rightarrow>
          let version = txr_version t in
          if mut_base_version m \<noteq> 0 \<and> mut_base_version m \<noteq> version
          then finish book_id device_id (rejected_receipt m ''LEDGER_VERSION_CONFLICT'' (Some version))
          else
            sql_bind
              (update_tx_rows
                (\<lambda>r. txr_id r = mut_entity_id m \<and> txr_book_id r = book_id \<and> txr_version r = version)
                (\<lambda>r. r\<lparr>txr_deleted_at := Some (pc_db_now c), txr_version := version + 1\<rparr>))
              (\<lambda>affected. if affected \<noteq> 1 then sql_fail ProtocolError
                else sql_bind (insert_delete_change c book_id m (version + 1))
                  (\<lambda>_. finish book_id device_id (applied_receipt m (version + 1)))))"

definition owns_accounts_pg :: "pg \<Rightarrow> string \<Rightarrow> entry_draft list \<Rightarrow> bool" where
  "owns_accounts_pg s book_id drafts =
     (let account_ids = remdups (sort (map draft_account_id drafts)) in
      length (filter (\<lambda>a. acc_book_id a = book_id \<and> acc_id a \<in> set account_ids) (pg_accounts s)) =
        length account_ids)"

definition find_deduped_pg :: "string \<Rightarrow> sync_mutation_dto \<Rightarrow> tx_row option \<Rightarrow> pg \<Rightarrow> tx_row option" where
  "find_deduped_pg book_id m existing s =
     (case (existing, parse_source_event_fingerprint m) of
        (None, Some fp) \<Rightarrow>
          if parse_source m = Some ''auto_ledger''
          then List.find (\<lambda>t. txr_book_id t = book_id \<and> txr_source t = Some ''auto_ledger'' \<and>
                 txr_fingerprint t = Some fp \<and> txr_deleted_at t = None) (pg_transactions s)
          else None
      | _ \<Rightarrow> None)"

definition upsert_payload_pg ::
  "rfc3339 \<Rightarrow> sync_mutation_dto \<Rightarrow> tx_row option \<Rightarrow> timestamp \<Rightarrow> json" where
  "upsert_payload_pg rf m existing occurred_at =
     (let payload = canonical_transaction_payload rf (mut_payload m) occurred_at in
      if existing \<noteq> None \<and> json_get payload ''source'' = None
      then (case Option.bind existing txr_source of
              Some src \<Rightarrow> json_insert ''source'' (JString src) payload | None \<Rightarrow> payload)
      else payload)"

text \<open>
  The row is updated in place, or inserted when there is none. It keeps the microseconds of
  \<open>occurred_at\<close>; the payload of the log and of the revision shows the time as it was sent.
\<close>

definition write_tx_row :: "string \<Rightarrow> sync_mutation_dto \<Rightarrow> tx_row option \<Rightarrow> timestamp \<Rightarrow> int \<Rightarrow> unit sql" where
  "write_tx_row book_id m existing occurred_at version =
     (let description = get_str (mut_payload m) ''description''; source = parse_source m in
      case existing of
        Some _ \<Rightarrow>
          sql_bind
            (update_tx_rows
              (\<lambda>r. txr_id r = mut_entity_id m \<and> txr_book_id r = book_id \<and> txr_version r = mut_base_version m)
              (\<lambda>r. r\<lparr>txr_description := description, txr_occurred_at := to_micros occurred_at, txr_version := version,
                 txr_source := (case source of Some x \<Rightarrow> Some x | None \<Rightarrow> txr_source r)\<rparr>))
            (\<lambda>affected. if affected \<noteq> 1 then sql_fail ProtocolError else delete_entries (mut_entity_id m))
      | None \<Rightarrow>
          insert_tx_row \<lparr>txr_id = mut_entity_id m, txr_book_id = book_id, txr_description = description,
            txr_version = version, txr_deleted_at = None, txr_occurred_at = occurred_at,
            txr_source = source, txr_fingerprint = parse_source_event_fingerprint m\<rparr>)"

definition entry_row_of :: "sync_mutation_dto \<Rightarrow> nat \<times> entry_draft \<Rightarrow> entry_row" where
  "entry_row_of m = (\<lambda>(idx, d).
     \<lparr>er_id = mut_entity_id m @ ''-'' @ nat_to_string idx, er_transaction_id = mut_entity_id m,
      er_account_id = draft_account_id d, er_amount_minor = as_i64 (draft_amount_minor d),
      er_currency_code = draft_currency d, er_entry_index = wrap_signed 32 (int idx)\<rparr>)"

definition apply_transaction_pg :: "rfc3339 \<Rightarrow> pg_call \<Rightarrow> string \<Rightarrow> string \<Rightarrow> sync_mutation_dto \<Rightarrow>
  tx_row option \<Rightarrow> timestamp option \<Rightarrow> entry_draft list \<Rightarrow> mutation_receipt_dto sql" where
  "apply_transaction_pg rf c book_id device_id m existing requested drafts =
     (let version = (case existing of None \<Rightarrow> 1 | Some t \<Rightarrow> txr_version t + 1);
          occurred_at = (case requested of Some t \<Rightarrow> t
                         | None \<Rightarrow> (case existing of Some t \<Rightarrow> txr_occurred_at t | None \<Rightarrow> pc_now c));
          payload = upsert_payload_pg rf m existing occurred_at in
      sql_bind (write_tx_row book_id m existing occurred_at version) (\<lambda>_.
      sql_bind (sql_mapM (\<lambda>e. insert_entry_row (entry_row_of m e)) (List.enumerate 0 drafts)) (\<lambda>_.
      sql_bind (insert_change book_id (pc_commit_id c) ''transaction'' (mut_entity_id m) ''upsert''
        version payload) (\<lambda>_.
      sql_bind (insert_revision \<lparr>rev_id = pc_revision_id c, rev_book_id = book_id,
        rev_transaction_id = mut_entity_id m, rev_version = version,
        rev_operation = mut_operation m, rev_payload = payload\<rparr>) (\<lambda>_.
      finish book_id device_id (applied_receipt m version))))))"

definition upsert_body_pg :: "rfc3339 \<Rightarrow> pg_call \<Rightarrow> string \<Rightarrow> string \<Rightarrow> sync_mutation_dto \<Rightarrow>
  timestamp option \<Rightarrow> entry_draft list \<Rightarrow> tx_row option \<Rightarrow> mutation_receipt_dto sql" where
  "upsert_body_pg rf c book_id device_id m requested drafts existing =
     (case (case existing of
              Some t \<Rightarrow> if mut_operation m = ''create'' \<or> mut_base_version m \<noteq> txr_version t
                        then Some (txr_version t) else None
            | None \<Rightarrow> None) of
        Some v \<Rightarrow> finish book_id device_id (rejected_receipt m ''LEDGER_VERSION_CONFLICT'' (Some v))
      | None \<Rightarrow>
          sql_bind (sql_get (find_deduped_pg book_id m existing)) (\<lambda>deduped.
            case deduped of
              Some t \<Rightarrow> finish book_id device_id (deduped_receipt m (txr_version t))
            | None \<Rightarrow> apply_transaction_pg rf c book_id device_id m existing requested drafts))"

text \<open>The statements inside the transaction of \<open>process_mutation_pg\<close>; \<open>drafts\<close> is None for a delete.\<close>

definition transaction_body_pg :: "rfc3339 \<Rightarrow> pg_call \<Rightarrow> string \<Rightarrow> string \<Rightarrow> sync_mutation_dto \<Rightarrow>
  timestamp option \<Rightarrow> entry_draft list option \<Rightarrow> mutation_receipt_dto sql" where
  "transaction_body_pg rf c book_id device_id m requested drafts =
     sql_bind (sql_get (\<lambda>s. select_receipt s (book_id, device_id, mut_mutation_id m))) (\<lambda>existing_receipt.
       case existing_receipt of
         Some r \<Rightarrow> sql_return (replay_receipt m r)
       | None \<Rightarrow>
           sql_bind (sql_get (\<lambda>s. case drafts of None \<Rightarrow> True | Some ds \<Rightarrow> owns_accounts_pg s book_id ds)) (\<lambda>found.
             if \<not> found then finish book_id device_id (rejected_receipt m ''ACCOUNT_NOT_FOUND'' None)
             else
               sql_bind (sql_get (\<lambda>s. select_transaction s (mut_entity_id m) book_id)) (\<lambda>existing.
                 case drafts of
                   None \<Rightarrow> process_delete_pg c book_id device_id m existing
                 | Some ds \<Rightarrow> upsert_body_pg rf c book_id device_id m requested ds existing)))"

definition receipt_of_result ::
  "sync_mutation_dto \<Rightarrow> sql_error + mutation_receipt_dto \<Rightarrow> mutation_receipt_dto" where
  "receipt_of_result m r =
     (case r of
        Inr receipt \<Rightarrow> receipt
      | Inl e \<Rightarrow>
          if classify_sync_db_error e = AutoLedgerDuplicate \<and> is_auto_ledger_fingerprint m
          then deduped_receipt m 1 else db_error_receipt m)"

subsection \<open>Accounts\<close>

definition valid_account_parent_pg :: "pg \<Rightarrow> string \<Rightarrow> string \<Rightarrow> string \<Rightarrow> string option \<Rightarrow> bool" where
  "valid_account_parent_pg s book_id account_id account_type parent_account_id =
     (case parent_account_id of
        None \<Rightarrow> True
      | Some parent_id \<Rightarrow>
          if account_type \<notin> {''expense'', ''income''} \<or> parent_id = account_id then False
          else case select_account s parent_id of
            None \<Rightarrow> False
          | Some parent \<Rightarrow>
              if acc_book_id parent \<noteq> book_id \<or> acc_account_type parent \<noteq> account_type \<or>
                 acc_parent_account_id parent \<noteq> None then False
              else length (filter (\<lambda>a. acc_parent_account_id a = Some account_id) (pg_accounts s)) = 0)"

definition account_change_pg :: "pg_call \<Rightarrow> string \<Rightarrow> string \<Rightarrow> sync_mutation_dto \<Rightarrow> account_payload \<Rightarrow>
  int \<Rightarrow> string \<Rightarrow> string \<Rightarrow> string option \<Rightarrow> mutation_receipt_dto sql" where
  "account_change_pg c book_id device_id m p version account_type currency parent =
     sql_bind (insert_change book_id (pc_commit_id c) ''account'' (mut_entity_id m) ''upsert'' version
         (account_payload_json (ap_name p) account_type currency parent))
       (\<lambda>_. finish book_id device_id (applied_receipt m version))"

definition create_account_pg :: "pg_call \<Rightarrow> string \<Rightarrow> string \<Rightarrow> sync_mutation_dto \<Rightarrow> account_payload \<Rightarrow>
  account_record option \<Rightarrow> mutation_receipt_dto sql" where
  "create_account_pg c book_id device_id m p existing =
     (case existing of
        Some a \<Rightarrow> finish book_id device_id (rejected_receipt m ''LEDGER_VERSION_CONFLICT'' (Some (acc_version a)))
      | None \<Rightarrow>
          let parent = Option.bind (ap_parent_account_id p) (\<lambda>x. x) in
          sql_bind (sql_get (\<lambda>s. valid_account_parent_pg s book_id (mut_entity_id m) (ap_account_type p) parent)) (\<lambda>ok.
            if \<not> ok then finish book_id device_id (rejected_receipt m ''INVALID_CATEGORY_PARENT'' None)
            else sql_bind (insert_account \<lparr>acc_id = mut_entity_id m, acc_book_id = book_id,
                     acc_name = ap_name p, acc_account_type = ap_account_type p,
                     acc_currency = ap_currency p, acc_parent_account_id = parent, acc_version = 1\<rparr>)
                   (\<lambda>_. account_change_pg c book_id device_id m p 1 (ap_account_type p) (ap_currency p) parent)))"

definition update_account_rows :: "string \<Rightarrow> string \<Rightarrow> string \<Rightarrow> string option \<Rightarrow> int \<Rightarrow> unit sql" where
  "update_account_rows aid book_id name parent version = sql_modify (\<lambda>_. None)
     (\<lambda>s. s\<lparr>pg_accounts := map (\<lambda>a. if acc_id a = aid \<and> acc_book_id a = book_id
        then a\<lparr>acc_name := name, acc_parent_account_id := parent, acc_version := version\<rparr> else a) (pg_accounts s)\<rparr>)"

definition update_account_pg :: "pg_call \<Rightarrow> string \<Rightarrow> string \<Rightarrow> sync_mutation_dto \<Rightarrow> account_payload \<Rightarrow>
  account_record option \<Rightarrow> mutation_receipt_dto sql" where
  "update_account_pg c book_id device_id m p existing =
     (case existing of
        None \<Rightarrow> finish book_id device_id (rejected_receipt m ''ACCOUNT_NOT_FOUND'' None)
      | Some a \<Rightarrow>
          if acc_book_id a \<noteq> book_id then finish book_id device_id (rejected_receipt m ''ACCOUNT_NOT_FOUND'' None)
          else
            let parent = (case ap_parent_account_id p of None \<Rightarrow> acc_parent_account_id a | Some q \<Rightarrow> q);
                version = acc_version a + 1 in
            sql_bind (sql_get (\<lambda>s. valid_account_parent_pg s book_id (mut_entity_id m) (acc_account_type a) parent)) (\<lambda>ok.
              if \<not> ok then finish book_id device_id (rejected_receipt m ''INVALID_CATEGORY_PARENT'' None)
              else sql_bind (update_account_rows (mut_entity_id m) book_id (ap_name p) parent version)
                     (\<lambda>_. account_change_pg c book_id device_id m p version (acc_account_type a) (acc_currency a) parent)))"

definition account_body_pg :: "pg_call \<Rightarrow> string \<Rightarrow> string \<Rightarrow> sync_mutation_dto \<Rightarrow> mutation_receipt_dto sql" where
  "account_body_pg c book_id device_id m =
     sql_bind (sql_get (\<lambda>s. select_receipt s (book_id, device_id, mut_mutation_id m))) (\<lambda>existing_receipt.
       case existing_receipt of
         Some r \<Rightarrow> sql_return (replay_receipt m r)
       | None \<Rightarrow>
           (case parse_account_payload book_id m of
              Inl receipt \<Rightarrow> finish book_id device_id receipt
            | Inr p \<Rightarrow>
                sql_bind (sql_get (\<lambda>s. select_account s (mut_entity_id m))) (\<lambda>existing.
                  if mut_operation m = ''create'' then create_account_pg c book_id device_id m p existing
                  else update_account_pg c book_id device_id m p existing)))"

definition process_account_mutation_pg ::
  "pg_call \<Rightarrow> string \<Rightarrow> string \<Rightarrow> sync_mutation_dto \<Rightarrow> pg \<Rightarrow> mutation_receipt_dto \<times> pg" where
  "process_account_mutation_pg c book_id device_id m s =
     (case in_tx (pc_process c) (account_body_pg c book_id device_id m) s of
        (Inr receipt, s') \<Rightarrow> (receipt, s')
      | (Inl _, s') \<Rightarrow> (db_error_receipt m, s'))"

definition process_mutation_pg ::
  "rfc3339 \<Rightarrow> pg_call \<Rightarrow> string \<Rightarrow> string \<Rightarrow> sync_mutation_dto \<Rightarrow> pg \<Rightarrow> mutation_receipt_dto \<times> pg" where
  "process_mutation_pg rf c book_id device_id m s =
     (if mut_entity_type m = ''account'' then process_account_mutation_pg c book_id device_id m s
      else if mut_entity_type m \<noteq> ''transaction'' then (rejected_receipt m ''UNSUPPORTED_MUTATION'' None, s)
      else if mut_operation m = ''delete'' then
        apfst (receipt_of_result m)
          (in_tx (pc_process c) (transaction_body_pg rf c book_id device_id m None None) s)
      else case parse_occurred_at rf m of
        Inl receipt \<Rightarrow> (receipt, s)
      | Inr requested \<Rightarrow>
          (case parse_entries m of
             Inl receipt \<Rightarrow> (receipt, s)
           | Inr drafts \<Rightarrow>
               (case validate_or_reject m drafts of
                  Some receipt \<Rightarrow> (receipt, s)
                | None \<Rightarrow> apfst (receipt_of_result m)
                    (in_tx (pc_process c) (transaction_body_pg rf c book_id device_id m requested (Some drafts)) s))))"

subsection \<open>Push\<close>

definition db_err :: api_error where
  "db_err = ApiError 500 ''DB_ERROR''"

definition push_step_pg ::
  "rfc3339 \<Rightarrow> pg_call \<Rightarrow> addressed \<Rightarrow> pg \<Rightarrow> (api_error + mutation_receipt_dto) \<times> pg" where
  "push_step_pg rf c = (\<lambda>(book_id, device_id, m) s.
     case in_tx (pc_lookup c) (sql_get (\<lambda>s. select_receipt s (book_id, device_id, mut_mutation_id m))) s of
       (Inl _, s') \<Rightarrow> (Inl db_err, s')
     | (Inr (Some existing), s') \<Rightarrow> (Inr (replay_receipt m existing), s')
     | (Inr None, s') \<Rightarrow>
         (case process_mutation_pg rf c book_id device_id m s' of
            (receipt, s'') \<Rightarrow>
              (case in_tx (pc_store c) (insert_receipt_if_absent (book_id, device_id, mut_mutation_id m)
                      (stored_receipt receipt)) s'' of
                 (Inl _, s''') \<Rightarrow> (Inl db_err, s''')
               | (Inr _, s''') \<Rightarrow> (Inr receipt, s'''))))"

definition push_pg :: "rfc3339 \<Rightarrow> (nat \<Rightarrow> pg_call) \<Rightarrow> string \<Rightarrow> sync_push_request \<Rightarrow> pg \<Rightarrow>
  (api_error + mutation_receipt_dto list) \<times> pg" where
  "push_pg rf calls book_id req s =
     push_loop (push_step_pg rf) calls 0
       (map (\<lambda>m. (book_id, push_device_id req, m)) (push_mutations req)) s"

subsection \<open>Pull and bootstrap\<close>

definition book_rows_pg :: "pg \<Rightarrow> string \<Rightarrow> change_record list" where
  "book_rows_pg s book_id = sort_key chg_sequence (filter (\<lambda>c. chg_book_id c = book_id) (pg_changes s))"

definition rows_pg :: "pg \<Rightarrow> string \<Rightarrow> int \<Rightarrow> nat \<Rightarrow> change_record list" where
  "rows_pg s book_id cursor limit =
     take (limit + 50) (sort_key chg_sequence
       (filter (\<lambda>c. chg_book_id c = book_id \<and> cursor < chg_sequence c) (pg_changes s)))"

definition change_dto_pg :: "rfc3339 \<Rightarrow> pg \<Rightarrow> change_record \<Rightarrow> sync_change_dto" where
  "change_dto_pg rf s c =
     (let occurred_at = (if chg_entity_type c = ''transaction''
            then map_option txr_occurred_at (select_transaction s (chg_entity_id c) (chg_book_id c)) else None);
          payload = (if chg_entity_type c = ''transaction'' \<and> chg_operation c = ''upsert''
            then (case occurred_at of Some t \<Rightarrow> backfill_transaction_occurred_at rf (chg_payload c) t
                  | None \<Rightarrow> chg_payload c)
            else chg_payload c) in
      \<lparr>dto_sequence = int_to_string (chg_sequence c), dto_commit_id = chg_commit_id c,
       dto_entity_type = chg_entity_type c, dto_entity_id = chg_entity_id c,
       dto_operation = chg_operation c, dto_version = chg_entity_version c, dto_payload = payload\<rparr>)"

definition pull_pg :: "rfc3339 \<Rightarrow> pg \<Rightarrow> string \<Rightarrow> pull_query \<Rightarrow> sync_pull_response" where
  "pull_pg rf s book_id q =
     (let cursor = (case q_cursor q of None \<Rightarrow> 0 | Some c \<Rightarrow> c); limit = pull_limit (q_limit q);
          page = map (change_dto_pg rf s) (page_loop chg_commit_id limit 0 None (rows_pg s book_id cursor limit));
          next_cursor = (if page = [] then cursor
            else case parse_signed 64 (dto_sequence (last page)) of Some n \<Rightarrow> n | None \<Rightarrow> cursor);
          has_more = length (filter (\<lambda>c. chg_book_id c = book_id \<and> next_cursor < chg_sequence c) (pg_changes s)) in
      \<lparr>pull_next_cursor = int_to_string next_cursor, pull_has_more = (0 < has_more), pull_changes = page\<rparr>)"

definition bootstrap_tx_pg :: "rfc3339 \<Rightarrow> pg \<Rightarrow> tx_row \<Rightarrow> json" where
  "bootstrap_tx_pg rf s t =
     json_object [(''id'', JString (txr_id t)), (''version'', JInt (txr_version t)),
       (''occurredAt'', JString (format_occurred_at rf (txr_occurred_at t))),
       (''description'', json_opt_str (txr_description t)), (''source'', json_opt_str (txr_source t)),
       (''entries'', JArray (map (\<lambda>e. entry_json (er_account_id e, er_amount_minor e, er_currency_code e))
          (entries_of s (txr_id t))))]"

definition bootstrap_pg :: "rfc3339 \<Rightarrow> string \<Rightarrow> pg \<Rightarrow> string \<Rightarrow> json api_result" where
  "bootstrap_pg rf new_id s book_id =
     (if book_id \<notin> set (map bk_id (pg_books s)) then Inl (ApiError 404 ''BOOK_NOT_FOUND'')
      else
        let seqs = map chg_sequence (filter (\<lambda>c. chg_book_id c = book_id) (pg_changes s));
            high = (case seqs of [] \<Rightarrow> 0 | x # xs \<Rightarrow> fold max xs x);
            txs = filter (\<lambda>t. txr_book_id t = book_id \<and> txr_deleted_at t = None) (pg_transactions s);
            accs = sort_key acc_id (filter (\<lambda>a. acc_book_id a = book_id) (pg_accounts s)) in
        Inr (json_object [(''bootstrapId'', JString new_id), (''highWaterCursor'', JString (int_to_string high)),
          (''accounts'', JArray (map bootstrap_account_json accs)),
          (''transactions'', JArray (map (bootstrap_tx_pg rf s) txs))]))"

end
