(* ===== verification/Sync_Pg_Laws.thy ===== *)
theory Sync_Pg_Laws
  imports Sync_Pg
begin

section \<open>Laws of the relational push\<close>

text \<open>
  The relational store keeps the contract \<open>receipt_store\<close> as well: receipts are only ever added, the
  transaction that applies a mutation stores its receipt, and a replay reads it back. Unlike the
  in-memory store, this one can fail in the middle; the statements hold for every fate of its
  transactions, with the one condition that the reply to the commit of a mutation is not lost where
  the returned receipt is claimed to be the stored one.
\<close>

subsection \<open>Receipts are only added\<close>

definition adds_receipts :: "pg \<Rightarrow> pg \<Rightarrow> bool" where
  "adds_receipts s s' \<longleftrightarrow> (\<exists>xs. pg_mutations s' = pg_mutations s @ xs)"

lemma adds_receipts_refl [simp]: "adds_receipts s s"
  by (simp add: adds_receipts_def)

lemma adds_receipts_same [simp]: "pg_mutations s' = pg_mutations s \<Longrightarrow> adds_receipts s s'"
  by (simp add: adds_receipts_def)

lemma adds_receipts_trans: "adds_receipts s s' \<Longrightarrow> adds_receipts s' s'' \<Longrightarrow> adds_receipts s s''"
  by (auto simp: adds_receipts_def)

lemma adds_receipts_select: "adds_receipts s s' \<Longrightarrow> select_receipt s k = Some r \<Longrightarrow> select_receipt s' k = Some r"
  by (auto simp: adds_receipts_def select_receipt_def map_add_Some_iff)

interpretation receipts: sql_order adds_receipts
  by unfold_locales (simp, rule adds_receipts_trans)

lemma receipts_stmts:
  "sql_within adds_receipts (insert_change b cid ty i p v j)" "sql_within adds_receipts (insert_account a)"
  "sql_within adds_receipts (insert_revision rv)" "sql_within adds_receipts (insert_tx_row t)"
  "sql_within adds_receipts (delete_entries i)" "sql_within adds_receipts (insert_entry_row e)"
  "sql_within adds_receipts (insert_receipt k r)" "sql_within adds_receipts (insert_receipt_if_absent k r)"
  "sql_within adds_receipts (update_account_rows aid b n q w)" "sql_within adds_receipts (update_tx_rows ps f)"
  by (auto simp: insert_change_def insert_account_def insert_revision_def insert_tx_row_def
      delete_entries_def insert_entry_row_def insert_receipt_def insert_receipt_if_absent_def
      update_account_rows_def adds_receipts_def intro!: receipts.within_modify)
    (simp add: sql_within_def update_tx_rows_def Let_def)

lemma receipts_finish: "sql_within adds_receipts (finish b d r)"
  unfolding finish_def insert_pg_receipt_def by (intro receipts.within_intros receipts_stmts)

text \<open>The handlers with every step visible, for rules that follow their structure.\<close>

lemmas body_defs = account_body_pg_def create_account_pg_def update_account_pg_def account_change_pg_def
  transaction_body_pg_def process_delete_pg_def insert_delete_change_def upsert_body_pg_def
  apply_transaction_pg_def write_tx_row_def Let_def

lemma receipts_bodies:
  "sql_within adds_receipts (account_body_pg c b d m)"
  "sql_within adds_receipts (transaction_body_pg rf c b d m requested drafts)"
  unfolding body_defs by (intro receipts.within_intros receipts_stmts receipts_finish)+

lemma process_pg_adds: "adds_receipts s (snd (process_mutation_pg rf c b d m s))"
proof -
  have "adds_receipts s (snd (in_tx fate (account_body_pg c b d m) s))"
    "adds_receipts s (snd (in_tx fate (transaction_body_pg rf c b d m requested drafts) s))"
    for fate requested drafts
    using receipts.within_in_tx [OF receipts_bodies(1)] receipts.within_in_tx [OF receipts_bodies(2)]
    by (auto simp: sql_within_def)
  then show ?thesis
    by (auto simp: process_mutation_pg_def process_account_mutation_pg_def
        split: sum.split option.split prod.splits) (metis snd_conv)+
qed


subsection \<open>A committed mutation has stored the receipt it returns\<close>

definition records :: "string \<Rightarrow> string \<Rightarrow> sync_mutation_dto \<Rightarrow> mutation_receipt_dto sql \<Rightarrow> bool" where
  "records b d m sq \<longleftrightarrow> (\<forall>s r s'. sq s = (Inr r, s') \<longrightarrow> rcp_mutation_id r = mut_mutation_id m \<and>
     select_receipt s' (b, d, mut_mutation_id m) = Some (stored_receipt r))"

lemma records_bind: "(\<And>x. records b d m (f x)) \<Longrightarrow> records b d m (sql_bind y f)"
  unfolding records_def sql_bind_Inr by blast

lemma records_if: "(c \<Longrightarrow> records b d m x) \<Longrightarrow> (\<not> c \<Longrightarrow> records b d m y) \<Longrightarrow> records b d m (if c then x else y)"
  by simp

lemma records_option:
  "(x = None \<Longrightarrow> records b d m y) \<Longrightarrow> (\<And>z. x = Some z \<Longrightarrow> records b d m (f z)) \<Longrightarrow>
     records b d m (case x of None \<Rightarrow> y | Some z \<Rightarrow> f z)"
  by (cases x) simp_all

lemma records_sum:
  "(\<And>y. x = Inl y \<Longrightarrow> records b d m (f y)) \<Longrightarrow> (\<And>y. x = Inr y \<Longrightarrow> records b d m (g y)) \<Longrightarrow>
     records b d m (case x of Inl y \<Rightarrow> f y | Inr y \<Rightarrow> g y)"
  by (cases x) simp_all

lemma records_fail: "records b d m (sql_fail e)"
  by (simp add: records_def)

lemma records_finish: "rcp_mutation_id r = mut_mutation_id m \<Longrightarrow> records b d m (finish b d r)"
  by (auto simp: records_def finish_def insert_pg_receipt_def insert_receipt_def sql_Inr
      select_receipt_def map_add_def map_of_eq_None_iff split: if_splits option.splits)
    (metis domI dom_map_of_conv_image_fst)

lemmas records_intros = records_bind records_if records_option records_sum records_fail records_finish

lemma records_replay:
  assumes "records b d m (f s)" and "sql_bind (sql_get (\<lambda>s. select_receipt s (b, d, mut_mutation_id m)))
      (\<lambda>x. case x of Some r \<Rightarrow> sql_return (replay_receipt m r) | None \<Rightarrow> f s) s = (Inr r, s')"
  shows "rcp_mutation_id r = mut_mutation_id m \<and>
    select_receipt s' (b, d, mut_mutation_id m) = Some (stored_receipt r)"
  using assms
  by (cases "select_receipt s (b, d, mut_mutation_id m)")
    (auto simp: records_def replay_receipt_def stored_receipt_def)

lemma records_bodies: "records b d m (account_body_pg c b d m)"
    "records b d m (transaction_body_pg rf c b d m requested drafts)"
proof -
  have id: "rcp_mutation_id r = mut_mutation_id m" if "parse_account_payload b m = Inl r" for r
    using parse_account_payload_Inl [OF that] by auto
  show "records b d m (account_body_pg c b d m)"
    unfolding records_def
  proof (intro allI impI)
    fix s r s' assume "account_body_pg c b d m s = (Inr r, s')"
    then show "rcp_mutation_id r = mut_mutation_id m \<and>
        select_receipt s' (b, d, mut_mutation_id m) = Some (stored_receipt r)"
      unfolding account_body_pg_def
      by (rule records_replay [rotated])
        (unfold create_account_pg_def update_account_pg_def account_change_pg_def Let_def,
         intro records_intros, simp_all add: id)
  qed
  show "records b d m (transaction_body_pg rf c b d m requested drafts)"
    unfolding records_def
  proof (intro allI impI)
    fix s r s' assume "transaction_body_pg rf c b d m requested drafts s = (Inr r, s')"
    then show "rcp_mutation_id r = mut_mutation_id m \<and>
        select_receipt s' (b, d, mut_mutation_id m) = Some (stored_receipt r)"
      unfolding transaction_body_pg_def
      by (rule records_replay [rotated])
        (unfold process_delete_pg_def upsert_body_pg_def apply_transaction_pg_def Let_def,
         intro records_intros, simp_all)
  qed
qed

definition steady_call :: "pg_call \<Rightarrow> bool" where
  "steady_call c \<longleftrightarrow> pc_lookup c = Runs \<and> pc_process c \<noteq> ReplyLost"

text \<open>How \<open>process_mutation_pg\<close> answers: by the account handler, at once, or by a transaction.\<close>

lemma process_mutation_pg_cases:
  assumes "process_mutation_pg rf c b d m s = (r, s')"
  obtains (account) "mut_entity_type m = ''account''" "process_account_mutation_pg c b d m s = (r, s')"
  | (early) "s' = s" "refused m r" "\<And>c' M. process_mutation_mem rf c' b m M = (r, M)"
  | (delete) "mut_entity_type m = ''transaction''" "mut_operation m = ''delete''"
      "apfst (receipt_of_result m) (in_tx (pc_process c) (transaction_body_pg rf c b d m None None) s) = (r, s')"
  | (upsert) requested ds where "mut_entity_type m = ''transaction''" "mut_operation m \<in> {''create'', ''update''}"
      "parse_occurred_at rf m = Inr requested" "parse_entries m = Inr ds" "validate_balanced ds = Inr ()"
      "apfst (receipt_of_result m)
         (in_tx (pc_process c) (transaction_body_pg rf c b d m requested (Some ds)) s) = (r, s')"
proof -
  consider "mut_entity_type m = ''account''"
    | "mut_entity_type m \<noteq> ''account''" "mut_entity_type m \<noteq> ''transaction''"
    | "mut_entity_type m = ''transaction''" "mut_operation m = ''delete''"
    | "mut_entity_type m = ''transaction''" "mut_operation m \<noteq> ''delete''" by blast
  then show thesis
  proof cases
    case 1
    with assms show thesis by (intro account) (simp_all add: process_mutation_pg_def)
  next
    case 2
    with assms show thesis by (intro early) (auto simp: process_mutation_pg_def process_mutation_mem_def)
  next
    case 3
    with assms show thesis by (intro delete) (simp_all add: process_mutation_pg_def)
  next
    case 4
    show thesis
    proof (cases "\<exists>requested ds. parse_occurred_at rf m = Inr requested \<and> parse_entries m = Inr ds \<and>
        validate_or_reject m ds = None")
      case True
      then obtain requested ds where p: "parse_occurred_at rf m = Inr requested"
        "parse_entries m = Inr ds" "validate_or_reject m ds = None" by blast
      note val = validate_or_reject_None [OF p(3) 4(2)]
      have "apfst (receipt_of_result m)
          (in_tx (pc_process c) (transaction_body_pg rf c b d m requested (Some ds)) s) = (r, s')"
        using assms 4 p by (simp add: process_mutation_pg_def)
      with p val 4 show thesis by (intro upsert) simp_all
    next
      case False
      then have "s' = s \<and> refused m r"
        using assms 4
        by (auto simp: process_mutation_pg_def parse_occurred_at_def parse_entries_def
            split: sum.splits option.splits dest!: validate_or_reject_Some)
      moreover have "process_mutation_mem rf c' b m M = (r, M)" for c' M
        using assms 4 False
        by (auto simp: process_mutation_pg_def process_mutation_mem_def split: sum.splits option.splits)
      ultimately show thesis by (intro early) simp_all
    qed
  qed
qed

text \<open>The receipt a mutation returns is the stored one, or none is stored yet.\<close>

lemma process_pg_receipt:
  assumes "pc_process c \<noteq> ReplyLost" and "process_mutation_pg rf c b d m s = (r, s')"
    and "select_receipt s (b, d, mut_mutation_id m) = None"
  shows "rcp_mutation_id r = mut_mutation_id m \<and>
    select_receipt s' (b, d, mut_mutation_id m) \<in> {None, Some (stored_receipt r)}"
proof -
  have tx: "rcp_mutation_id (receipt_of_result m x) = mut_mutation_id m \<and>
      select_receipt s1 (b, d, mut_mutation_id m) \<in> {None, Some (stored_receipt (receipt_of_result m x))} \<and>
      (\<forall>e. x = Inl e \<longrightarrow> select_receipt s1 (b, d, mut_mutation_id m) = None)"
    if "records b d m sq" and "in_tx (pc_process c) sq s = (x, s1)" for sq x s1
    using that(2)
  proof (cases rule: in_tx_cases)
    case (committed y)
    then show ?thesis using that(1) assms(1) by (auto simp: records_def receipt_of_result_def)
  qed (use assms(3) in \<open>auto simp: receipt_of_result_def select_receipt_def db_error_receipt_def\<close>)
  have acc: ?thesis if acc: "process_account_mutation_pg c b d m s = (r, s')"
  proof -
    obtain x s1 where eq: "in_tx (pc_process c) (account_body_pg c b d m) s = (x, s1)" by fastforce
    then show ?thesis
      using acc tx [OF records_bodies(1) eq]
      by (cases x) (auto simp: process_account_mutation_pg_def receipt_of_result_def db_error_receipt_def)
  qed
  have txn: ?thesis if "apfst (receipt_of_result m) (in_tx (pc_process c)
      (transaction_body_pg rf c b d m requested drafts) s) = (r, s')" for requested drafts
  proof -
    obtain x s1 where eq: "in_tx (pc_process c) (transaction_body_pg rf c b d m requested drafts) s = (x, s1)"
      by fastforce
    then show ?thesis using that tx [OF records_bodies(2) eq] by auto
  qed
  from assms(2) show ?thesis
  proof (cases rule: process_mutation_pg_cases)
    case early
    then show ?thesis using assms(3) by (simp add: refused_def)
  qed (use acc txn in blast)+
qed


subsection \<open>Replay\<close>

definition receipt_of_pg :: "pg \<Rightarrow> addressed \<Rightarrow> mutation_receipt_dto option" where
  "receipt_of_pg s = (\<lambda>(book_id, device_id, m).
     map_option (replay_receipt m) (select_receipt s (book_id, device_id, mut_mutation_id m)))"

lemma in_tx_read: "in_tx fate (sql_get g) s = (r, s') \<Longrightarrow> pg_mutations s' = pg_mutations s"
  by (auto simp: in_tx_def split: tx_fate.splits)

lemma in_tx_read_Inr: "in_tx fate (sql_get g) s = (Inr x, s') \<Longrightarrow> x = g s \<and> s' = s"
  by (auto dest: in_tx_Inr)

lemma push_step_pg_adds: "adds_receipts s (snd (push_step_pg rf c x s))"
proof -
  obtain b d m where x: "x = (b, d, m)" by (cases x)
  obtain r s1 where look: "in_tx (pc_lookup c) (sql_get (\<lambda>s. select_receipt s (b, d, mut_mutation_id m))) s = (r, s1)"
    by fastforce
  have s1: "adds_receipts s s1" using in_tx_read [OF look] by simp
  obtain y s2 where pr: "process_mutation_pg rf c b d m s1 = (y, s2)" by fastforce
  have s2: "adds_receipts s s2"
    using process_pg_adds [of s1 rf c b d m] pr s1 by (auto intro: adds_receipts_trans)
  have "sql_within adds_receipts (in_tx fate (insert_receipt_if_absent k v))" for fate k v
    by (intro receipts.within_in_tx receipts_stmts) simp
  then have "adds_receipts s (snd (in_tx fate (insert_receipt_if_absent k v) s2))" for fate k v
    using s2 adds_receipts_trans unfolding sql_within_def by blast
  then have "adds_receipts s s3" if "in_tx fate (insert_receipt_if_absent k v) s2 = (z, s3)" for fate k v z s3
    using that by (metis snd_conv)
  with s1 show ?thesis
    by (auto simp: x push_step_pg_def look pr split: sum.splits option.splits prod.splits)
qed

lemma push_step_pg_recorded:
  assumes "steady_call c" and "push_step_pg rf c x s = (Inr r, s')"
  shows "receipt_of_pg s' x = Some r"
proof -
  obtain b d m where x: "x = (b, d, m)" by (cases x)
  let ?k = "(b, d, mut_mutation_id m)"
  have look: "in_tx (pc_lookup c) (sql_get (\<lambda>s. select_receipt s ?k)) s = (Inr (select_receipt s ?k), s)"
    using assms(1) by (simp add: steady_call_def in_tx_def)
  show ?thesis
  proof (cases "select_receipt s ?k")
    case (Some e)
    then show ?thesis using assms(2) look by (auto simp: x push_step_pg_def receipt_of_pg_def)
  next
    case None
    obtain y s2 where pr: "process_mutation_pg rf c b d m s = (y, s2)" by fastforce
    have st: "in_tx (pc_store c) (insert_receipt_if_absent ?k (stored_receipt y)) s2 = (Inr (), s')" "r = y"
      using assms(2) look None pr by (auto simp: x push_step_pg_def split: sum.splits prod.splits)
    have y: "rcp_mutation_id y = mut_mutation_id m"
        "select_receipt s2 ?k \<in> {None, Some (stored_receipt y)}"
      using process_pg_receipt [OF _ pr None] assms(1) by (auto simp: steady_call_def)
    have "insert_receipt_if_absent ?k (stored_receipt y) s2 = (Inr (), s')" using in_tx_Inr [OF st(1)] .
    then have "select_receipt s' ?k = Some (stored_receipt y)"
      using y(2)
      by (auto simp: insert_receipt_if_absent_def sql_modify_Inr select_receipt_def map_add_Some_iff
          map_of_eq_None_iff split: if_splits)
    with y(1) st(2) show ?thesis
      by (cases y) (simp add: receipt_of_pg_def x replay_receipt_def stored_receipt_def)
  qed
qed

interpretation pg_receipts: receipt_store receipt_of_pg "push_step_pg rf" steady_call for rf
proof
  fix s :: pg and m :: addressed and r and c
  assume "receipt_of_pg s m = Some r" and "steady_call c"
  then show "push_step_pg rf c m s = (Inr r, s)"
    by (cases m) (auto simp: receipt_of_pg_def push_step_pg_def steady_call_def in_tx_def)
next
  fix s s' :: pg and m :: addressed and r and c
  assume "steady_call c" and "push_step_pg rf c m s = (Inr r, s')"
  then show "receipt_of_pg s' m = Some r" by (rule push_step_pg_recorded)
next
  fix s :: pg and m m' :: addressed and r and c
  assume "receipt_of_pg s m = Some r"
  then show "receipt_of_pg (snd (push_step_pg rf c m' s)) m = Some r"
    using adds_receipts_select [OF push_step_pg_adds [of s rf c m']]
    by (cases m) (auto simp: receipt_of_pg_def)
qed

text \<open>
  C9. Pushing is idempotent on the relational store too. When a push has been answered and no reply
  to a commit was lost on the way, then pushing the same request again, with any clock and ids, after
  any further mutations of any devices, whether they succeeded, failed or were cut off, returns the
  same receipts and leaves every table as it is.
\<close>

theorem push_pg_replay:
  assumes "push_pg rf calls b req s = (Inr rs, s')" and "\<And>i. steady_call (calls i)"
    and "step_reach (push_step_pg rf) s' s''" and "\<And>i. steady_call (calls' i)"
  shows "push_pg rf calls' b req s'' = (Inr rs, s'')"
  using assms unfolding push_pg_def by (rule pg_receipts.push_replay)

text \<open>
  A failure is remembered like a result: when the transaction of a mutation is cut off, \<open>push\<close>
  stores the DB_ERROR receipt, and every retry of the mutation is answered with it.
\<close>

lemma db_error_is_final:
  assumes "select_receipt s (b, d, mut_mutation_id m) = None" and "mut_entity_type m = ''account''"
    and "pc_lookup c = Runs" "pc_process c = Aborted n" "pc_store c = Runs"
    and "step_reach (push_step_pg rf) (snd (push_step_pg rf c (b, d, m) s)) s'" and "steady_call c'"
  shows "push_step_pg rf c' (b, d, m) s' = (Inr (db_error_receipt m), s')"
proof -
  have st: "\<exists>s1. push_step_pg rf c (b, d, m) s = (Inr (db_error_receipt m), s1)"
    using assms(1-5)
    by (simp add: push_step_pg_def in_tx_def process_mutation_pg_def process_account_mutation_pg_def
        insert_receipt_if_absent_def sql_modify_def split: prod.split)
  then have "receipt_of_pg (snd (push_step_pg rf c (b, d, m) s)) (b, d, m) = Some (db_error_receipt m)"
    using push_step_pg_recorded [of c rf "(b, d, m)" s] assms(3,4) by (auto simp: steady_call_def)
  then have "receipt_of_pg s' (b, d, m) = Some (db_error_receipt m)"
    using pg_receipts.reach_kept [OF assms(6)] by blast
  then show ?thesis using pg_receipts.replay assms(7) by blast
qed

subsection \<open>A concrete database\<close>

definition ex_pg :: pg where
  "ex_pg = \<lparr>pg_books = [\<lparr>bk_id = ''b1'', bk_name = ''P'', bk_owner_id = ''u1''\<rparr>], pg_members = [],
     pg_sessions = [], pg_subscriptions = [], pg_accounts = [], pg_transactions = [], pg_entries = [],
     pg_mutations = [], pg_changes = [], pg_revisions = [], pg_jobs = [], pg_rules = [],
     pg_audit = [], pg_attachments = [], pg_sequence = 0\<rparr>"

definition ex_pg_call :: "nat \<Rightarrow> pg_call" where
  "ex_pg_call n = \<lparr>pc_now = int n, pc_db_now = int n, pc_commit_id = ''c'' @ nat_to_string n,
     pc_revision_id = ''r'' @ nat_to_string n, pc_lookup = Runs, pc_process = Runs, pc_store = Runs\<rparr>"

theorem push_pg_replay_witness:
  "push_pg ex_rf (\<lambda>_. ex_pg_call 9) ''b1'' ex_push (snd (push_pg ex_rf ex_pg_call ''b1'' ex_push ex_pg)) =
     push_pg ex_rf ex_pg_call ''b1'' ex_push ex_pg"
proof -
  have "case fst (push_pg ex_rf ex_pg_call ''b1'' ex_push ex_pg) of
      Inl _ \<Rightarrow> False | Inr rs \<Rightarrow> map rcp_result_code rs = [''OK'', ''OK'', ''OK'']" by code_simp
  then obtain rs where "fst (push_pg ex_rf ex_pg_call ''b1'' ex_push ex_pg) = Inr rs"
    by (auto split: sum.splits)
  then have run: "push_pg ex_rf ex_pg_call ''b1'' ex_push ex_pg =
      (Inr rs, snd (push_pg ex_rf ex_pg_call ''b1'' ex_push ex_pg))"
    by (metis prod.collapse)
  have steady: "steady_call (ex_pg_call n)" for n by (simp add: steady_call_def ex_pg_call_def)
  show ?thesis using push_pg_replay [OF run steady reach_refl steady] run by simp
qed

end
