(* ===== verification/Sync_Refinement.thy ===== *)
theory Sync_Refinement
  imports Sync_Pg_Laws Sync_Mem_Laws
begin

section \<open>The two stores agree\<close>

text \<open>
  The relational store implements the in-memory one. \<open>sim\<close> relates a database to a store that holds
  the same accounts and, up to the nanoseconds a \<open>TIMESTAMPTZ\<close> cannot hold, the same transactions; a
  committed mutation of the database answers with the receipt
  the in-memory store gives, and leaves the two related again (\<open>mutation_refines\<close>). The cases in
  which the two differ by design of the SQL are the conditions \<open>agree\<close>: the entity id belongs to a
  transaction of another book, or an update meets a deleted transaction or another fingerprint.
\<close>

definition accounts_map :: "pg \<Rightarrow> (string, account_record) hashmap" where
  "accounts_map s = map (\<lambda>a. (acc_id a, a)) (pg_accounts s)"

definition row_entries :: "pg \<Rightarrow> string \<Rightarrow> entry list" where
  "row_entries s i = map (\<lambda>e. (er_account_id e, er_amount_minor e, er_currency_code e))
     (filter (\<lambda>e. er_transaction_id e = i) (pg_entries s))"

definition abs_tx :: "pg \<Rightarrow> tx_row \<Rightarrow> tx_record" where
  "abs_tx s t = \<lparr>tx_id = txr_id t, tx_book_id = txr_book_id t, tx_occurred_at = txr_occurred_at t,
     tx_description = txr_description t, tx_version = txr_version t, tx_deleted = (txr_deleted_at t \<noteq> None),
     tx_entries = row_entries s (txr_id t), tx_source = txr_source t,
     tx_source_event_fingerprint = txr_fingerprint t\<rparr>"

definition transactions_map :: "pg \<Rightarrow> (string, tx_record) hashmap" where
  "transactions_map s = map (\<lambda>t. (txr_id t, abs_tx s t)) (pg_transactions s)"

text \<open>A transaction of the in-memory store with its time as a row has it.\<close>

definition stored_tx :: "tx_record \<Rightarrow> tx_record" where
  "stored_tx t = t\<lparr>tx_occurred_at := to_micros (tx_occurred_at t)\<rparr>"

definition stored_map :: "(string, tx_record) hashmap \<Rightarrow> (string, tx_record) hashmap" where
  "stored_map m = map (\<lambda>(i, t). (i, stored_tx t)) m"

definition sim :: "pg \<Rightarrow> memory_store \<Rightarrow> bool" where
  "sim s M \<longleftrightarrow> accounts M = accounts_map s \<and> stored_map (transactions M) = transactions_map s"

text \<open>The primary keys, and the foreign key of the entries.\<close>

definition keys_ok :: "pg \<Rightarrow> bool" where
  "keys_ok s \<longleftrightarrow> distinct (map acc_id (pg_accounts s)) \<and> distinct (map txr_id (pg_transactions s)) \<and>
     list_all (\<lambda>e. er_transaction_id e \<in> set (map txr_id (pg_transactions s))) (pg_entries s)"

lemma abs_tx_sel [simp]:
  "tx_id (abs_tx s t) = txr_id t" "tx_book_id (abs_tx s t) = txr_book_id t"
  "tx_occurred_at (abs_tx s t) = txr_occurred_at t" "tx_version (abs_tx s t) = txr_version t"
  "tx_deleted (abs_tx s t) \<longleftrightarrow> txr_deleted_at t \<noteq> None" "tx_source (abs_tx s t) = txr_source t"
  "tx_source_event_fingerprint (abs_tx s t) = txr_fingerprint t"
  by (simp_all add: abs_tx_def)

lemma stored_tx_sel [simp]:
  "tx_id (stored_tx t) = tx_id t" "tx_book_id (stored_tx t) = tx_book_id t"
  "tx_version (stored_tx t) = tx_version t" "tx_deleted (stored_tx t) = tx_deleted t"
  "tx_source (stored_tx t) = tx_source t" "tx_entries (stored_tx t) = tx_entries t"
  "tx_source_event_fingerprint (stored_tx t) = tx_source_event_fingerprint t"
  "tx_occurred_at (stored_tx t) = to_micros (tx_occurred_at t)"
  by (simp_all add: stored_tx_def)

text \<open>What a row and the transaction it stores agree on.\<close>

lemma stored_tx_abs:
  assumes "stored_tx x = abs_tx s e"
  shows "tx_version x = txr_version e" "tx_source x = txr_source e" "tx_book_id x = txr_book_id e"
    and "txr_occurred_at e = to_micros (tx_occurred_at x)"
  using arg_cong [OF assms, of tx_version] arg_cong [OF assms, of tx_source]
    arg_cong [OF assms, of tx_book_id] arg_cong [OF assms, of tx_occurred_at] by simp_all

lemma hm_get_stored: "hm_get (stored_map m) k = map_option stored_tx (hm_get m k)"
  unfolding stored_map_def hm_get_def by (induction m) auto

lemma stored_map_insert: "stored_map (hm_insert k v m) = hm_insert k (stored_tx v) (stored_map m)"
  unfolding stored_map_def hm_insert_def by (induction m) auto

subsection \<open>Maps as tables\<close>

lemma find_map_of: "List.find (\<lambda>a. key a = k) xs = map_of (map (\<lambda>a. (key a, a)) xs) k"
  by (induction xs) auto

lemma hm_insert_new: "k \<notin> set (map fst m) \<Longrightarrow> hm_insert k v m = m @ [(k, v)]"
  unfolding hm_insert_def by (induction m) auto

lemma hm_insert_same:
  "distinct (map fst m) \<Longrightarrow> k \<in> set (map fst m) \<Longrightarrow>
     hm_insert k v m = map (\<lambda>(k', w). if k' = k then (k, v) else (k', w)) m"
  unfolding hm_insert_def
proof (induction m)
  case Nil
  then show ?case by simp
next
  case (Cons p m)
  obtain k' w where p: "p = (k', w)" by fastforce
  have "map (\<lambda>(k'', w). if k'' = k then (k, v) else (k'', w)) m = m" if "k \<notin> fst ` set m"
    using that by (intro map_idI) (auto simp: image_iff)
  with Cons p show ?case by (auto simp: image_iff)
qed

lemma accounts_map_keys [simp]: "map fst (accounts_map s) = map acc_id (pg_accounts s)"
  by (simp add: accounts_map_def)

lemma transactions_map_keys [simp]: "map fst (transactions_map s) = map txr_id (pg_transactions s)"
  by (simp add: transactions_map_def)

lemma select_account_map: "select_account s i = hm_get (accounts_map s) i"
  by (simp add: select_account_def find_map_of hm_get_def accounts_map_def)

lemma hm_get_None: "hm_get m k = None \<longleftrightarrow> k \<notin> set (map fst m)"
  by (simp add: hm_get_def map_of_eq_None_iff)

lemma valid_parent_sim:
  "accounts M = accounts_map s \<Longrightarrow> valid_account_parent_pg s = valid_account_parent_mem M"
  by (auto simp: fun_eq_iff valid_account_parent_pg_def valid_account_parent_mem_def select_account_map
      hm_values_def accounts_map_def list_ex_iff filter_empty_conv comp_def split: option.split)

lemma finish_Inr:
  "finish b d r s = (Inr r', s') \<longleftrightarrow> r' = r \<and> (b, d, rcp_mutation_id r) \<notin> set (map fst (pg_mutations s)) \<and>
     s' = s\<lparr>pg_mutations := pg_mutations s @ [((b, d, rcp_mutation_id r), stored_receipt r)]\<rparr>"
  by (auto simp: finish_def insert_pg_receipt_def insert_receipt_def sql_Inr split: if_splits)

lemma insert_change_Inr:
  "insert_change b cid ty i p v j s = (Inr x, s') \<longleftrightarrow>
     s' = s\<lparr>pg_sequence := pg_sequence s + 1, pg_changes := pg_changes s @
       [\<lparr>chg_sequence = pg_sequence s + 1, chg_book_id = b, chg_commit_id = cid, chg_entity_type = ty,
         chg_entity_id = i, chg_operation = p, chg_entity_version = v, chg_payload = j\<rparr>]\<rparr>"
  by (auto simp: insert_change_def sql_Inr)

subsection \<open>Accounts\<close>

text \<open>What a log record shows to a client, without its number and its commit.\<close>

definition change_view :: "change_record \<Rightarrow> string \<times> string \<times> string \<times> string \<times> int \<times> json" where
  "change_view c = (chg_book_id c, chg_entity_type c, chg_entity_id c, chg_operation c,
     chg_entity_version c, chg_payload c)"

text \<open>
  The new records of the two logs after one mutation. Their payloads are equal, unless an update names
  no time: each log then shows the stored one, which the database has cut to microseconds.
\<close>

definition same_payload :: "rfc3339 \<Rightarrow> json \<Rightarrow> json \<Rightarrow> bool" where
  "same_payload rf j j' \<longleftrightarrow> j = j' \<or>
     (\<exists>t t'. to_micros t = to_micros t' \<and> json_get j ''occurredAt'' = Some (JString (rfc_format rf t)) \<and>
        json_get j' ''occurredAt'' = Some (JString (rfc_format rf t')) \<and>
        (\<forall>k. k \<noteq> ''occurredAt'' \<longrightarrow> json_get j k = json_get j' k))"

definition same_record :: "rfc3339 \<Rightarrow> change_record \<Rightarrow> change_record \<Rightarrow> bool" where
  "same_record rf c d \<longleftrightarrow>
     change_view (c\<lparr>chg_payload := JNull\<rparr>) = change_view (d\<lparr>chg_payload := JNull\<rparr>) \<and>
     same_payload rf (chg_payload c) (chg_payload d)"

definition same_news :: "rfc3339 \<Rightarrow> pg \<Rightarrow> pg \<Rightarrow> memory_store \<Rightarrow> memory_store \<Rightarrow> bool" where
  "same_news rf s s' M M' \<longleftrightarrow> (\<exists>cs ds. pg_changes s' = pg_changes s @ cs \<and> changes M' = changes M @ ds \<and>
     list_all2 (same_record rf) cs ds)"

lemma same_recordI:
  "change_view c = (b, ty, i, p, v, j) \<Longrightarrow> change_view d = (b, ty, i, p, v, j') \<Longrightarrow> same_payload rf j j' \<Longrightarrow>
     same_record rf c d"
  by (simp add: same_record_def change_view_def)

lemma same_payload_refl [simp]: "same_payload rf j j"
  by (simp add: same_payload_def)

lemma same_news_none: "pg_changes s' = pg_changes s \<Longrightarrow> changes M' = changes M \<Longrightarrow> same_news rf s s' M M'"
  by (simp add: same_news_def)

lemma same_news_one:
  "pg_changes s' = pg_changes s @ [c] \<Longrightarrow> changes M' = changes M @ [d] \<Longrightarrow> same_record rf c d \<Longrightarrow>
     same_news rf s s' M M'"
  by (simp add: same_news_def)

lemma create_account_refines:
  assumes eq: "accounts M = accounts_map s"
    and pg: "create_account_pg c b d m p (select_account s (mut_entity_id m)) s = (Inr r, s')"
  shows "case create_account_mem b m p M of
      Inl r' \<Rightarrow> r = r' \<and> accounts_map s' = accounts M \<and> pg_changes s' = pg_changes s
    | Inr (M', v, ty, cur, parent) \<Rightarrow> r = applied_receipt m v \<and> accounts_map s' = accounts M' \<and>
        changes M' = changes M \<and> transactions M' = transactions M \<and>
        (\<exists>c. pg_changes s' = pg_changes s @ [c] \<and> change_view c = (b, ''account'', mut_entity_id m, ''upsert'', v,
           account_payload_json (ap_name p) ty cur parent))"
proof (cases "hm_get (accounts_map s) (mut_entity_id m)")
  case (Some a)
  then show ?thesis
    using pg eq
    by (auto simp: create_account_pg_def create_account_mem_def select_account_map finish_Inr accounts_map_def)
next
  case None
  then have new: "mut_entity_id m \<notin> set (map fst (accounts_map s))" by (simp only: hm_get_None not_False_eq_True)
  show ?thesis
    using pg None eq hm_insert_new [OF new]
    by (auto simp: create_account_pg_def create_account_mem_def select_account_map finish_Inr
        valid_parent_sim [OF eq] account_change_pg_def insert_change_Inr insert_account_def sql_Inr
        change_view_def Let_def split: if_splits) (auto simp: accounts_map_def)
qed

lemma update_account_refines:
  assumes eq: "accounts M = accounts_map s" and keys: "keys_ok s"
    and pg: "update_account_pg c b d m p (select_account s (mut_entity_id m)) s = (Inr r, s')"
  shows "case update_account_mem b m p M of
      Inl r' \<Rightarrow> r = r' \<and> accounts_map s' = accounts M \<and> pg_changes s' = pg_changes s
    | Inr (M', v, ty, cur, parent) \<Rightarrow> r = applied_receipt m v \<and> accounts_map s' = accounts M' \<and>
        changes M' = changes M \<and> transactions M' = transactions M \<and>
        (\<exists>c. pg_changes s' = pg_changes s @ [c] \<and> change_view c = (b, ''account'', mut_entity_id m, ''upsert'', v,
           account_payload_json (ap_name p) ty cur parent))"
proof (cases "hm_get (accounts_map s) (mut_entity_id m)")
  case None
  then show ?thesis
    using pg eq
    by (auto simp: update_account_pg_def update_account_mem_def select_account_map finish_Inr accounts_map_def)
next
  case (Some e)
  have dist: "distinct (map fst (accounts_map s))" using keys by (simp add: keys_ok_def)
  have mem: "mut_entity_id m \<in> set (map fst (accounts_map s))"
    using Some by (metis hm_get_None option.distinct(1))
  have e: "acc_id e = mut_entity_id m" "e \<in> set (pg_accounts s)"
    using map_of_SomeD [of "accounts_map s" "mut_entity_id m" e] Some by (auto simp: hm_get_def accounts_map_def)
  have only: "a = e" if "a \<in> set (pg_accounts s)" "acc_id a = mut_entity_id m" for a
    using that e keys unfolding keys_ok_def by (metis inj_onD distinct_map)
  have upd: "map (\<lambda>a. (acc_id a, a)) (map (\<lambda>a. if acc_id a = mut_entity_id m \<and> acc_book_id a = acc_book_id e
        then a\<lparr>acc_name := n, acc_parent_account_id := q, acc_version := v\<rparr> else a) (pg_accounts s)) =
      hm_insert (mut_entity_id m) (e\<lparr>acc_name := n, acc_parent_account_id := q, acc_version := v\<rparr>) (accounts_map s)"
    for n q v
  proof -
    let ?new = "e\<lparr>acc_name := n, acc_parent_account_id := q, acc_version := v\<rparr>"
    have "(if acc_id a = mut_entity_id m \<and> acc_book_id a = acc_book_id e
        then a\<lparr>acc_name := n, acc_parent_account_id := q, acc_version := v\<rparr> else a) =
        (if acc_id a = mut_entity_id m then ?new else a)" if "a \<in> set (pg_accounts s)" for a
      using only [OF that] by auto
    then show ?thesis
      unfolding hm_insert_same [OF dist mem]
      by (simp add: accounts_map_def e(1))
  qed
  show ?thesis
    using pg Some eq
    by (auto simp: update_account_pg_def update_account_mem_def select_account_map finish_Inr
        valid_parent_sim [OF eq] account_change_pg_def insert_change_Inr update_account_rows_def sql_Inr
        change_view_def Let_def split: if_splits)
      (simp_all add: accounts_map_def upd [unfolded accounts_map_def map_map])
qed

lemma account_body_refines:
  assumes "accounts M = accounts_map s" and "keys_ok s"
    and "select_receipt s (b, d, mut_mutation_id m) = None"
    and "account_body_pg c b d m s = (Inr r, s')" and "process_account_mutation_mem c' b m M = (r', M')"
  shows "r = r' \<and> accounts M' = accounts_map s' \<and> transactions M' = transactions M \<and> same_news rf s s' M M'"
proof (cases "parse_account_payload b m")
  case (Inl x)
  then show ?thesis
    using assms by (auto simp: account_body_pg_def process_account_mutation_mem_def finish_Inr
        accounts_map_def intro: same_news_none)
next
  case (Inr p)
  have pg: "(if mut_operation m = ''create'' then create_account_pg c b d m p (select_account s (mut_entity_id m))
      else update_account_pg c b d m p (select_account s (mut_entity_id m))) s = (Inr r, s')"
    using assms(3,4) Inr by (simp add: account_body_pg_def)
  let ?res = "if mut_operation m = ''create'' then create_account_mem b m p M else update_account_mem b m p M"
  have ref: "case ?res of
      Inl r' \<Rightarrow> r = r' \<and> accounts_map s' = accounts M \<and> pg_changes s' = pg_changes s
    | Inr (M', v, ty, cur, parent) \<Rightarrow> r = applied_receipt m v \<and> accounts_map s' = accounts M' \<and>
        changes M' = changes M \<and> transactions M' = transactions M \<and>
        (\<exists>c. pg_changes s' = pg_changes s @ [c] \<and> change_view c = (b, ''account'', mut_entity_id m, ''upsert'', v,
           account_payload_json (ap_name p) ty cur parent))"
    using pg create_account_refines [OF assms(1), of c b d m p r s']
      update_account_refines [OF assms(1,2), of c b d m p r s'] by (simp split: if_splits)
  show ?thesis
  proof (cases ?res)
    case (Inl x)
    then show ?thesis
      using ref assms(5) Inr by (auto simp: process_account_mutation_mem_def intro: same_news_none)
  next
    case res: (Inr y)
    obtain M1 v ty cur parent where y: "y = (M1, v, ty, cur, parent)" by (cases y)
    have "r' = applied_receipt m v" and
      M': "M' = push_change b (call_new_id c') ''account'' (mut_entity_id m) ''upsert'' v
        (account_payload_json (ap_name p) ty cur parent) M1"
      using assms(5) Inr res by (simp_all add: process_account_mutation_mem_def y)
    then show ?thesis
      using ref res
      by (auto simp: y push_change_def intro!: same_news_one same_recordI [OF _ _ same_payload_refl])
        (simp add: change_view_def)
  qed
qed


subsection \<open>Transactions\<close>

definition agree :: "pg \<Rightarrow> string \<Rightarrow> sync_mutation_dto \<Rightarrow> bool" where
  "agree s b m \<longleftrightarrow> list_all (\<lambda>t. txr_id t = mut_entity_id m \<longrightarrow> txr_book_id t = b \<and>
     (mut_operation m \<noteq> ''delete'' \<longrightarrow>
        txr_deleted_at t = None \<and> txr_fingerprint t = parse_source_event_fingerprint m)) (pg_transactions s)"

lemma transactions_map_get:
  "hm_get (transactions_map s) i = map_option (abs_tx s) (List.find (\<lambda>t. txr_id t = i) (pg_transactions s))"
proof -
  have "map_of (map (\<lambda>t. (txr_id t, f t)) ts) i = map_option f (List.find (\<lambda>t. txr_id t = i) ts)" for f ts
    by (induction ts) auto
  then show ?thesis by (simp add: hm_get_def transactions_map_def)
qed

lemma select_transaction_agree:
  assumes "agree s b m"
  shows "select_transaction s (mut_entity_id m) b = List.find (\<lambda>t. txr_id t = mut_entity_id m) (pg_transactions s)"
  using assms unfolding agree_def select_transaction_def
  by (intro find_cong) (auto simp: list_all_iff)

lemma select_transaction_Some:
  "select_transaction s i b = Some t \<Longrightarrow> t \<in> set (pg_transactions s) \<and> txr_id t = i \<and> txr_book_id t = b"
  by (auto simp: select_transaction_def find_Some_iff)

lemma owns_accounts_sim:
  assumes "accounts M = accounts_map s" and "keys_ok s"
  shows "owns_accounts_pg s b ds \<longleftrightarrow> owns_accounts_mem M b ds"
proof -
  let ?ids = "remdups (sort (map draft_account_id ds))"
  let ?fs = "filter (\<lambda>a. acc_book_id a = b \<and> acc_id a \<in> set ?ids) (pg_accounts s)"
  have dist: "distinct (map acc_id ?fs)"
    using assms(2) by (simp add: keys_ok_def distinct_map_filter)
  have sub: "set (map acc_id ?fs) \<subseteq> set ?ids" by auto
  have "length ?fs = length ?ids \<longleftrightarrow> card (set (map acc_id ?fs)) = card (set ?ids)"
    using distinct_card [OF dist] distinct_card [OF distinct_remdups [of "sort (map draft_account_id ds)"]]
    by simp
  also have "\<dots> \<longleftrightarrow> set (map acc_id ?fs) = set ?ids"
    using card_subset_eq [OF _ sub] by auto
  also have "\<dots> \<longleftrightarrow> (\<forall>d \<in> set ds. draft_account_id d \<in> acc_id ` set ?fs)"
    using sub by auto
  also have "\<dots> \<longleftrightarrow> (\<forall>d \<in> set ds. \<exists>a \<in> set (pg_accounts s). acc_book_id a = b \<and> acc_id a = draft_account_id d)"
    by (intro ball_cong refl) force
  also have "\<dots> \<longleftrightarrow> owns_accounts_mem M b ds"
  proof -
    have "distinct (map fst (accounts_map s))" using assms(2) by (simp add: keys_ok_def)
    then have "hm_get (accounts_map s) k = Some a \<longleftrightarrow> a \<in> set (pg_accounts s) \<and> acc_id a = k" for k a
      unfolding hm_get_def by (subst map_of_eq_Some_iff) (auto simp: accounts_map_def)
    moreover have "(case x of None \<Rightarrow> False | Some a \<Rightarrow> acc_book_id a = b) \<longleftrightarrow>
        (\<exists>a. x = Some a \<and> acc_book_id a = b)" for x :: "account_record option"
      by (cases x) simp_all
    ultimately show ?thesis
      by (auto simp: owns_accounts_mem_def list_all_iff assms(1))
  qed
  finally show ?thesis by (simp add: owns_accounts_pg_def Let_def)
qed

lemma insert_entry_row_Inr: "insert_entry_row e s = (Inr u, s') \<Longrightarrow> s' = s\<lparr>pg_entries := pg_entries s @ [e]\<rparr>"
  by (auto simp: insert_entry_row_def sql_Inr split: if_splits)

lemma insert_entries_Inr:
  "sql_mapM (\<lambda>e. insert_entry_row (g e)) xs s = (Inr u, s') \<Longrightarrow>
     s' = s\<lparr>pg_entries := pg_entries s @ map g xs\<rparr>"
proof (induction xs arbitrary: s)
  case Nil
  then show ?case by simp
next
  case (Cons x xs)
  obtain s1 where s1: "s1 = s\<lparr>pg_entries := pg_entries s @ [g x]\<rparr>"
    and rest: "sql_mapM (\<lambda>e. insert_entry_row (g e)) xs s1 = (Inr u, s')"
    using Cons.prems by (auto simp: sql_bind_Inr dest!: insert_entry_row_Inr)
  show ?case using Cons.IH [OF rest] by (simp add: s1)
qed

lemma find_deduped_sim:
  assumes sim: "stored_map (transactions M) = transactions_map s" and e: "map_option stored_tx e' = map_option (abs_tx s) e"
  shows "map_option tx_version (find_deduped_mem b m e' M) = map_option txr_version (find_deduped_pg b m e s)"
proof -
  have rows: "map_option tx_version (List.find P (map (abs_tx s) ts)) = map_option txr_version (List.find Q ts)"
    if "\<And>t. P (abs_tx s t) = Q t" for P Q ts
    using that by (induction ts) auto
  have mem: "map_option tx_version (List.find P (map stored_tx ts)) = map_option tx_version (List.find P ts)"
    if "\<And>t. P (stored_tx t) = P t" for P ts
    using that by (induction ts) auto
  have vals: "map stored_tx (hm_values (transactions M)) = map (abs_tx s) (pg_transactions s)"
    using arg_cong [OF sim, of "map snd"]
    by (simp add: hm_values_def stored_map_def transactions_map_def comp_def case_prod_beta)
  have "map_option tx_version (List.find (auto_ledger_duplicate b fp) (hm_values (transactions M))) =
      map_option tx_version (List.find (auto_ledger_duplicate b fp) (map (abs_tx s) (pg_transactions s)))" for fp
    unfolding vals [symmetric] by (rule mem [symmetric]) (simp add: auto_ledger_duplicate_def)
  moreover have "map_option tx_version (List.find (auto_ledger_duplicate b fp) (map (abs_tx s) (pg_transactions s))) =
       map_option txr_version (List.find (\<lambda>t. txr_book_id t = b \<and>
      txr_source t = Some ''auto_ledger'' \<and> txr_fingerprint t = Some fp \<and> txr_deleted_at t = None)
      (pg_transactions s))" for fp
    by (rule rows) (auto simp: auto_ledger_duplicate_def)
  moreover have "e' = None \<longleftrightarrow> e = None" using e by (cases e'; cases e) simp_all
  ultimately show ?thesis
    by (auto simp: find_deduped_mem_def find_deduped_pg_def split: option.split)
qed

lemma payload_sim:
  assumes e: "map_option stored_tx e' = map_option (abs_tx s) e" and t: "to_micros t = to_micros t'"
  shows "same_payload rf (upsert_payload_pg rf m e t) (upsert_payload_mem rf m e' t')"
proof (cases "is_object (mut_payload m)")
  case True
  have "Option.bind e' tx_source = Option.bind e txr_source"
    using e stored_tx_abs(2) by (cases e'; cases e) auto
  then have "upsert_payload_pg rf m e u = upsert_payload_mem rf m e' u" for u
    using e by (cases e; cases e') (auto simp: upsert_payload_pg_def upsert_payload_mem_def Let_def split: option.split)
  moreover have "json_get (upsert_payload_mem rf m e' u) ''occurredAt'' = Some (JString (rfc_format rf u))"
    and "k \<noteq> ''occurredAt'' \<Longrightarrow> json_get (upsert_payload_mem rf m e' u) k = json_get (upsert_payload_mem rf m e' u') k" for u u' k
    using True by (auto simp: upsert_payload_mem_def Let_def canonical_transaction_payload_def
        format_occurred_at_def split: option.split)
  ultimately show ?thesis using t unfolding same_payload_def by metis
next
  case False
  then show ?thesis
    by (simp add: upsert_payload_pg_def upsert_payload_mem_def canonical_transaction_payload_def
        json_insert_no_object Let_def split: option.split)
qed


text \<open>The tables after a committed upsert and after a committed delete.\<close>

lemma update_tx_rows_Inr:
  "update_tx_rows p f s = (Inr n, s') \<Longrightarrow> n = length (filter p (pg_transactions s)) \<and>
     distinct_some (map auto_event (map (\<lambda>t. if p t then f t else t) (pg_transactions s))) \<and>
     s' = s\<lparr>pg_transactions := map (\<lambda>t. if p t then f t else t) (pg_transactions s)\<rparr>"
  by (auto simp: update_tx_rows_def Let_def split: if_splits)

lemma insert_tx_row_Inr:
  "insert_tx_row t s = (Inr u, s') \<Longrightarrow> txr_id t \<notin> set (map txr_id (pg_transactions s)) \<and>
     (auto_event t = None \<or> auto_event t \<notin> set (map auto_event (pg_transactions s))) \<and>
     s' = s\<lparr>pg_transactions := pg_transactions s @ [t\<lparr>txr_occurred_at := to_micros (txr_occurred_at t)\<rparr>]\<rparr>"
  by (auto simp: insert_tx_row_def sql_Inr split: if_splits)

lemma insert_revision_Inr:
  "insert_revision rv s = (Inr u, s') \<Longrightarrow> s' = s\<lparr>pg_revisions := pg_revisions s @ [rv]\<rparr>"
  by (auto simp: insert_revision_def sql_Inr split: if_splits)

definition updated_row :: "sync_mutation_dto \<Rightarrow> timestamp \<Rightarrow> int \<Rightarrow> tx_row \<Rightarrow> tx_row" where
  "updated_row m occurred_at version r =
     r\<lparr>txr_description := get_str (mut_payload m) ''description'', txr_occurred_at := to_micros occurred_at,
       txr_version := version, txr_source := (case parse_source m of Some x \<Rightarrow> Some x | None \<Rightarrow> txr_source r)\<rparr>"

definition inserted_row :: "string \<Rightarrow> sync_mutation_dto \<Rightarrow> timestamp \<Rightarrow> int \<Rightarrow> tx_row" where
  "inserted_row b m occurred_at version =
     \<lparr>txr_id = mut_entity_id m, txr_book_id = b, txr_description = get_str (mut_payload m) ''description'',
      txr_version = version, txr_deleted_at = None, txr_occurred_at = to_micros occurred_at,
      txr_source = parse_source m, txr_fingerprint = parse_source_event_fingerprint m\<rparr>"

definition written_rows :: "string \<Rightarrow> sync_mutation_dto \<Rightarrow> tx_row option \<Rightarrow> timestamp \<Rightarrow> int \<Rightarrow> tx_row list \<Rightarrow> tx_row list" where
  "written_rows b m existing occurred_at version rows =
     (case existing of
        None \<Rightarrow> rows @ [inserted_row b m occurred_at version]
      | Some _ \<Rightarrow> map (\<lambda>r. if txr_id r = mut_entity_id m \<and> txr_book_id r = b \<and> txr_version r = mut_base_version m
          then updated_row m occurred_at version r else r) rows)"

lemma distinct_some_snoc: "distinct_some (xs @ [x]) \<longleftrightarrow> distinct_some xs \<and> (x = None \<or> x \<notin> set xs)"
  by (induction xs) auto

lemma write_tx_row_Inr:
  assumes "write_tx_row b m existing occurred_at version s = (Inr u, s')" and "keys_ok s"
  shows "s' = s\<lparr>pg_transactions := written_rows b m existing occurred_at version (pg_transactions s),
      pg_entries := filter (\<lambda>e. er_transaction_id e \<noteq> mut_entity_id m) (pg_entries s)\<rparr> \<and>
    (existing = None \<longrightarrow> mut_entity_id m \<notin> set (map txr_id (pg_transactions s))) \<and>
    (distinct_some (map auto_event (pg_transactions s)) \<longrightarrow> distinct_some (map auto_event (pg_transactions s')))"
proof (cases existing)
  case None
  have new: "mut_entity_id m \<notin> set (map txr_id (pg_transactions s))"
    and ev: "auto_event (inserted_row b m occurred_at version) = None \<or>
      auto_event (inserted_row b m occurred_at version) \<notin> set (map auto_event (pg_transactions s))"
    and s': "s' = s\<lparr>pg_transactions := pg_transactions s @ [inserted_row b m occurred_at version]\<rparr>"
    using assms(1) None
    by (auto simp: write_tx_row_def Let_def inserted_row_def auto_event_def dest!: insert_tx_row_Inr)
  have "filter (\<lambda>e. er_transaction_id e \<noteq> mut_entity_id m) (pg_entries s) = pg_entries s"
    using new assms(2) unfolding keys_ok_def list_all_iff by (intro filter_True) metis
  then show ?thesis using new ev s' None by (simp add: written_rows_def distinct_some_snoc)
next
  case (Some t)
  then show ?thesis
    using assms(1)
    by (auto simp: write_tx_row_def Let_def updated_row_def written_rows_def sql_bind_Inr delete_entries_def
        sql_modify_Inr dest!: update_tx_rows_Inr split: if_splits)
qed


definition upsert_time :: "pg_call \<Rightarrow> tx_row option \<Rightarrow> timestamp option \<Rightarrow> timestamp" where
  "upsert_time c existing requested = (case requested of Some t \<Rightarrow> t
     | None \<Rightarrow> (case existing of Some t \<Rightarrow> txr_occurred_at t | None \<Rightarrow> pc_now c))"

definition upsert_version :: "tx_row option \<Rightarrow> int" where
  "upsert_version existing = (case existing of None \<Rightarrow> 1 | Some t \<Rightarrow> txr_version t + 1)"

lemma apply_transaction_Inr:
  assumes "apply_transaction_pg rf c b d m existing requested ds s = (Inr r, s')" and "keys_ok s"
  defines "w \<equiv> upsert_version existing" and "t \<equiv> upsert_time c existing requested"
  shows "r = applied_receipt m w \<and>
    pg_transactions s' = written_rows b m existing t w (pg_transactions s) \<and>
    pg_entries s' = filter (\<lambda>e. er_transaction_id e \<noteq> mut_entity_id m) (pg_entries s) @
      map (entry_row_of m) (List.enumerate 0 ds) \<and>
    pg_accounts s' = pg_accounts s \<and> pg_books s' = pg_books s \<and> pg_sequence s' = pg_sequence s + 1 \<and>
    (\<exists>ch. pg_changes s' = pg_changes s @ [ch] \<and> chg_sequence ch = pg_sequence s + 1 \<and>
       change_view ch = (b, ''transaction'', mut_entity_id m, ''upsert'', w, upsert_payload_pg rf m existing t)) \<and>
    (existing = None \<longrightarrow> mut_entity_id m \<notin> set (map txr_id (pg_transactions s))) \<and>
    (distinct_some (map auto_event (pg_transactions s)) \<longrightarrow> distinct_some (map auto_event (pg_transactions s')))"
proof -
  obtain s1 s2 s3 s4 where
    s1: "write_tx_row b m existing t w s = (Inr (), s1)" and
    s2: "sql_mapM (\<lambda>e. insert_entry_row (entry_row_of m e)) (List.enumerate 0 ds) s1 = (Inr (), s2)" and
    s3: "insert_change b (pc_commit_id c) ''transaction'' (mut_entity_id m) ''upsert'' w
      (upsert_payload_pg rf m existing t) s2 = (Inr (), s3)" and
    s4: "insert_revision \<lparr>rev_id = pc_revision_id c, rev_book_id = b, rev_transaction_id = mut_entity_id m,
      rev_version = w, rev_operation = mut_operation m, rev_payload = upsert_payload_pg rf m existing t\<rparr> s3 =
      (Inr (), s4)" and
    s5: "finish b d (applied_receipt m w) s4 = (Inr r, s')"
    using assms(1) unfolding apply_transaction_pg_def Let_def w_def t_def upsert_time_def upsert_version_def
      sql_bind_Inr by (auto simp: old.unit.exhaust)
  note w1 = write_tx_row_Inr [OF s1 assms(2)] and w2 = insert_entries_Inr [OF s2]
    and w3 = s3 [unfolded insert_change_Inr] and w4 = insert_revision_Inr [OF s4]
    and w5 = s5 [unfolded finish_Inr]
  show ?thesis using w1 by (auto simp: w5 w4 w3 w2 change_view_def)
qed

lemma row_entries_written:
  assumes "pg_entries s' = filter (\<lambda>e. er_transaction_id e \<noteq> mut_entity_id m) (pg_entries s) @
      map (entry_row_of m) (List.enumerate 0 ds)"
  shows "row_entries s' i = (if i = mut_entity_id m then map entry_tuple ds else row_entries s i)"
proof -
  have all: "filter (\<lambda>e. er_transaction_id e = mut_entity_id m) (map (entry_row_of m) xs) = map (entry_row_of m) xs" for xs
    by (intro filter_True) (auto simp: entry_row_of_def)
  have "map (\<lambda>e. (er_account_id e, er_amount_minor e, er_currency_code e)) (map (entry_row_of m) xs) =
      map (entry_tuple \<circ> snd) xs" for xs
    by (auto simp: entry_row_of_def entry_tuple_def)
  then have "map (\<lambda>e. (er_account_id e, er_amount_minor e, er_currency_code e))
      (map (entry_row_of m) (List.enumerate n ds)) = map entry_tuple ds" for n
    by (simp only: map_map [symmetric] map_snd_enumerate)
  moreover have "filter (\<lambda>e. er_transaction_id e = i) (map (entry_row_of m) xs) = []" if "i \<noteq> mut_entity_id m" for xs
    using that by (auto simp: entry_row_of_def filter_empty_conv)
  moreover have "filter (\<lambda>x. er_transaction_id x = i \<and> er_transaction_id x \<noteq> mut_entity_id m) (pg_entries s) =
      (if i = mut_entity_id m then [] else filter (\<lambda>e. er_transaction_id e = i) (pg_entries s))"
    by (auto simp: filter_empty_conv intro: filter_cong)
  ultimately show ?thesis
    using all by (auto simp: row_entries_def assms filter_filter conj_commute)
qed

lemma find_unique:
  assumes "distinct (map key xs)" and "x \<in> set xs"
  shows "List.find (\<lambda>y. key y = key x) xs = Some x"
  using assms by (induction xs) auto

lemma transactions_map_written:
  assumes rows: "pg_transactions s' = written_rows b m existing t w (pg_transactions s)"
    and ents: "\<And>i. row_entries s' i = (if i = mut_entity_id m then map entry_tuple ds else row_entries s i)"
    and keys: "keys_ok s" and ag: "agree s b m" and op: "mut_operation m \<noteq> ''delete''"
    and ex: "existing = select_transaction s (mut_entity_id m) b"
    and new: "existing = None \<Longrightarrow> mut_entity_id m \<notin> set (map txr_id (pg_transactions s))"
    and base: "\<And>e. existing = Some e \<Longrightarrow> mut_base_version m = txr_version e"
    and t: "t = upsert_time c existing requested" and w: "w = upsert_version existing"
    and now: "call_now c' = pc_now c" and same: "map_option stored_tx old = map_option (abs_tx s) existing"
  shows "transactions_map s' = hm_insert (mut_entity_id m)
    (stored_tx (upsert_record_mem c' b m old requested ds)) (transactions_map s)"
proof (cases existing)
  case None
  then have ni: "mut_entity_id m \<notin> set (map fst (transactions_map s))" using new by simp
  have "abs_tx s' r = abs_tx s r" if "r \<in> set (pg_transactions s)" for r
  proof -
    have "txr_id r \<in> set (map txr_id (pg_transactions s))" using that by simp
    then have "txr_id r \<noteq> mut_entity_id m" using new [OF None] by metis
    then show ?thesis using ents by (simp add: abs_tx_def)
  qed
  moreover have "old = None" using same None by simp
  then have "abs_tx s' (inserted_row b m t w) = stored_tx (upsert_record_mem c' b m old requested ds)"
    by (auto simp: abs_tx_def stored_tx_def inserted_row_def upsert_record_mem_def ents t w None now upsert_time_def
        upsert_version_def upsert_occurred_at_def split: option.split)
  ultimately show ?thesis
    unfolding hm_insert_new [OF ni]
    by (simp add: transactions_map_def rows written_rows_def None inserted_row_def)
next
  case (Some e)
  have e: "e \<in> set (pg_transactions s)" "txr_id e = mut_entity_id m" "txr_book_id e = b"
    using select_transaction_Some [of s "mut_entity_id m" b e] ex Some by auto
  have ed: "txr_deleted_at e = None" "txr_fingerprint e = parse_source_event_fingerprint m"
    using ag e op by (auto simp: agree_def list_all_iff)
  have only: "r = e" if "r \<in> set (pg_transactions s)" "txr_id r = mut_entity_id m" for r
    using that e keys unfolding keys_ok_def by (metis inj_onD distinct_map)
  have dist: "distinct (map fst (transactions_map s))" and mem: "mut_entity_id m \<in> set (map fst (transactions_map s))"
    using keys e(1) by (auto simp: keys_ok_def e(2) [symmetric])
  obtain x where x: "old = Some x" "stored_tx x = abs_tx s e" using same Some by (cases old) auto
  have rec: "abs_tx s' (updated_row m t w e) = stored_tx (upsert_record_mem c' b m old requested ds)"
    using e ed stored_tx_abs [OF x(2)]
    by (auto simp: x(1) abs_tx_def stored_tx_def updated_row_def upsert_record_mem_def ents t w Some upsert_time_def
        upsert_version_def upsert_occurred_at_def split: option.split)
  let ?f = "\<lambda>r. if txr_id r = mut_entity_id m \<and> txr_book_id r = b \<and> txr_version r = mut_base_version m
    then updated_row m t w r else r"
  have "(txr_id (?f r), abs_tx s' (?f r)) = (if txr_id r = mut_entity_id m
      then (mut_entity_id m, stored_tx (upsert_record_mem c' b m old requested ds))
      else (txr_id r, abs_tx s r))" if r: "r \<in> set (pg_transactions s)" for r
  proof (cases "txr_id r = mut_entity_id m")
    case True
    then show ?thesis using only [OF r] e base [OF Some] rec by (simp add: updated_row_def)
  next
    case False
    then show ?thesis using ents by (simp add: abs_tx_def)
  qed
  then show ?thesis
    unfolding hm_insert_same [OF dist mem]
    by (simp add: transactions_map_def rows written_rows_def Some)
qed


lemma upsert_body_refines:
  assumes sim: "sim s M" and keys: "keys_ok s" and ag: "agree s b m" and op: "mut_operation m \<noteq> ''delete''"
    and pg: "upsert_body_pg rf c b d m requested ds (select_transaction s (mut_entity_id m) b) s = (Inr r, s')"
    and own: "owns_accounts_mem M b ds"
    and mem: "process_upsert_mem rf c' b m requested ds M = (r', M')" and now: "call_now c' = pc_now c"
  shows "r = r' \<and> sim s' M' \<and> same_news rf s s' M M'"
proof -
  let ?e = "select_transaction s (mut_entity_id m) b" and ?old = "hm_get (transactions M) (mut_entity_id m)"
  have tx: "stored_map (transactions M) = transactions_map s" and acc: "accounts M = accounts_map s"
    using sim by (auto simp: sim_def)
  have ex: "map_option stored_tx ?old = map_option (abs_tx s) ?e"
    by (simp add: hm_get_stored [symmetric] tx transactions_map_get select_transaction_agree [OF ag])
  have some: "\<exists>x. ?old = Some x \<and> stored_tx x = abs_tx s e \<and> tx_version x = txr_version e" if "?e = Some e" for e
    using ex that stored_tx_abs(1) by (cases ?old) auto
  have none: "?old = None" if "?e = None" using ex that by simp
  note ded = find_deduped_sim [OF tx ex, of b m]
  have fin: ?thesis if "finish b d x s = (Inr r, s')" and "(x, M) = (r', M')" for x
    using that sim
    by (auto simp: finish_Inr sim_def accounts_map_def transactions_map_def abs_tx_def row_entries_def
        intro: same_news_none)
  consider (conflict) e where "?e = Some e" "mut_operation m = ''create'' \<or> mut_base_version m \<noteq> txr_version e"
    | (dup) t where "\<And>e. ?e = Some e \<Longrightarrow> mut_operation m \<noteq> ''create'' \<and> mut_base_version m = txr_version e"
        "find_deduped_pg b m ?e s = Some t"
    | (fresh) "\<And>e. ?e = Some e \<Longrightarrow> mut_operation m \<noteq> ''create'' \<and> mut_base_version m = txr_version e"
        "find_deduped_pg b m ?e s = None"
    by (cases ?e; cases "find_deduped_pg b m ?e s") blast+
  then show ?thesis
  proof cases
    case conflict
    then show ?thesis
      using pg mem own some by (intro fin [of "rejected_receipt m ''LEDGER_VERSION_CONFLICT'' (Some (txr_version e))"])
        (auto simp: upsert_body_pg_def process_upsert_mem_def Let_def)
  next
    case dup
    then obtain t' where "find_deduped_mem b m ?old M = Some t'" "tx_version t' = txr_version t"
      using ded by auto
    moreover have "\<not> (mut_operation m = ''create'' \<or> mut_base_version m \<noteq> tx_version x)" if "?old = Some x" for x
      using dup(1) some none that by (cases ?e) auto
    ultimately show ?thesis
      using dup pg mem own
      by (intro fin [of "deduped_receipt m (txr_version t)"])
        (auto simp: upsert_body_pg_def process_upsert_mem_def Let_def split: option.splits)
  next
    case fresh
    have nod: "find_deduped_mem b m ?old M = None" using fresh(2) ded by simp
    have pgr: "apply_transaction_pg rf c b d m ?e requested ds s = (Inr r, s')"
      using pg fresh by (auto simp: upsert_body_pg_def split: option.splits)
    have base: "\<not> (mut_operation m = ''create'' \<or> mut_base_version m \<noteq> tx_version x)" if "?old = Some x" for x
      using fresh(1) some none that by (cases ?e) auto
    have memr: "apply_transaction_mem rf c' b m ?old requested ds M = (r', M')"
      using mem own nod base by (auto simp: process_upsert_mem_def Let_def split: option.splits)
    let ?w = "upsert_version ?e" and ?t = "upsert_time c ?e requested"
    note eff = apply_transaction_Inr [OF pgr keys]
    have ents: "row_entries s' i = (if i = mut_entity_id m then map entry_tuple ds else row_entries s i)" for i
      using eff by (intro row_entries_written) blast
    let ?rec = "upsert_record_mem c' b m ?old requested ds"
    have rec: "tx_version ?rec = ?w"
      using some none by (cases ?e) (auto simp: upsert_record_mem_def upsert_version_def)
    have time: "to_micros ?t = to_micros (tx_occurred_at ?rec)"
      using some none now stored_tx_abs(4)
      by (cases ?e) (fastforce simp: upsert_record_mem_def upsert_time_def upsert_occurred_at_def split: option.split)+
    have "transactions_map s' = hm_insert (mut_entity_id m) (stored_tx ?rec) (transactions_map s)"
      by (rule transactions_map_written [OF _ ents keys ag op refl _ _ refl refl now ex])
        (use eff fresh(1) in auto)
    moreover have "accounts_map s' = accounts_map s" using eff by (simp add: accounts_map_def)
    moreover have "r' = applied_receipt m ?w" and M': "M' = push_change b (call_new_id c') ''transaction''
        (mut_entity_id m) ''upsert'' ?w (upsert_payload_mem rf m ?old (tx_occurred_at ?rec))
        (M\<lparr>transactions := hm_insert (mut_entity_id m) ?rec (transactions M)\<rparr>)"
      using memr by (simp_all add: apply_transaction_mem_def Let_def rec)
    moreover have "same_news rf s s' M M'"
      unfolding M' using eff payload_sim [OF ex time, of rf m]
      by (auto simp: push_change_def intro!: same_news_one same_recordI) (auto simp: change_view_def)
    ultimately show ?thesis using eff acc tx by (auto simp: sim_def stored_map_insert)
  qed
qed


lemma delete_Inr:
  assumes pg: "process_delete_pg c b d m (Some e) s = (Inr r, s')"
    and ok: "mut_base_version m = 0 \<or> mut_base_version m = txr_version e"
  shows "r = applied_receipt m (txr_version e + 1) \<and>
    pg_transactions s' = map (\<lambda>t. if txr_id t = mut_entity_id m \<and> txr_book_id t = b \<and> txr_version t = txr_version e
      then t\<lparr>txr_deleted_at := Some (pc_db_now c), txr_version := txr_version e + 1\<rparr> else t) (pg_transactions s) \<and>
    distinct_some (map auto_event (pg_transactions s')) \<and>
    pg_entries s' = pg_entries s \<and> pg_accounts s' = pg_accounts s \<and> pg_sequence s' = pg_sequence s + 1 \<and>
    (\<exists>ch. pg_changes s' = pg_changes s @ [ch] \<and> chg_sequence ch = pg_sequence s + 1 \<and>
       change_view ch = (b, ''transaction'', mut_entity_id m, ''delete'', txr_version e + 1, mut_payload m))"
  using pg ok
  by (auto simp: process_delete_pg_def insert_delete_change_def sql_bind_Inr insert_change_Inr finish_Inr
      change_view_def Let_def dest!: update_tx_rows_Inr insert_revision_Inr split: if_splits)

lemma delete_refines:
  assumes sim: "sim s M" and keys: "keys_ok s" and ag: "agree s b m"
    and pg: "process_delete_pg c b d m (select_transaction s (mut_entity_id m) b) s = (Inr r, s')"
    and mem: "process_delete_mem c' b m M = (r', M')"
  shows "r = r' \<and> sim s' M' \<and> same_news rf s s' M M'"
proof -
  let ?e = "select_transaction s (mut_entity_id m) b"
  have tx: "stored_map (transactions M) = transactions_map s" and acc: "accounts M = accounts_map s"
    using sim by (auto simp: sim_def)
  have ex: "map_option stored_tx (hm_get (transactions M) (mut_entity_id m)) = map_option (abs_tx s) ?e"
    by (simp add: hm_get_stored [symmetric] tx transactions_map_get select_transaction_agree [OF ag])
  have fin: ?thesis if "finish b d x s = (Inr r, s')" and "(x, M) = (r', M')" for x
    using that sim
    by (auto simp: finish_Inr sim_def accounts_map_def transactions_map_def abs_tx_def row_entries_def
        intro: same_news_none)
  show ?thesis
  proof (cases ?e)
    case None
    then show ?thesis
      using pg mem ex by (intro fin [of "rejected_receipt m ''NOT_FOUND'' None"])
        (auto simp: process_delete_pg_def process_delete_mem_def)
  next
    case (Some e)
    have e: "e \<in> set (pg_transactions s)" "txr_id e = mut_entity_id m" "txr_book_id e = b"
      using select_transaction_Some [of s "mut_entity_id m" b e] Some by auto
    obtain x where x: "hm_get (transactions M) (mut_entity_id m) = Some x" "stored_tx x = abs_tx s e"
      using ex Some by auto
    note same = stored_tx_abs [OF x(2)]
    show ?thesis
    proof (cases "mut_base_version m = 0 \<or> mut_base_version m = txr_version e")
      case False
      then show ?thesis
        using pg mem x same Some e
        by (intro fin [of "rejected_receipt m ''LEDGER_VERSION_CONFLICT'' (Some (txr_version e))"])
          (auto simp: process_delete_pg_def process_delete_mem_def Let_def)
    next
      case True
      note eff = delete_Inr [OF pg [unfolded Some] True]
      let ?f = "\<lambda>t. if txr_id t = mut_entity_id m \<and> txr_book_id t = b \<and> txr_version t = txr_version e
        then t\<lparr>txr_deleted_at := Some (pc_db_now c), txr_version := txr_version e + 1\<rparr> else t"
      have ents: "row_entries s' i = row_entries s i" for i using eff by (simp add: row_entries_def)
      have only: "t = e" if "t \<in> set (pg_transactions s)" "txr_id t = mut_entity_id m" for t
        using that e keys unfolding keys_ok_def by (metis inj_onD distinct_map)
      have dist: "distinct (map fst (transactions_map s))"
        and mem': "mut_entity_id m \<in> set (map fst (transactions_map s))"
        using keys e(1) by (auto simp: keys_ok_def e(2) [symmetric])
      let ?new = "x\<lparr>tx_deleted := True, tx_version := txr_version e + 1\<rparr>"
      have new: "stored_tx ?new = (abs_tx s e)\<lparr>tx_deleted := True, tx_version := txr_version e + 1\<rparr>"
        by (simp add: x(2) [symmetric] stored_tx_def)
      have "(txr_id (?f t), abs_tx s' (?f t)) =
          (if txr_id t = mut_entity_id m then (mut_entity_id m, stored_tx ?new) else (txr_id t, abs_tx s t))"
        if t: "t \<in> set (pg_transactions s)" for t
        using only [OF t] e ents unfolding new by (auto simp: abs_tx_def)
      then have "transactions_map s' = hm_insert (mut_entity_id m) (stored_tx ?new) (transactions_map s)"
        unfolding hm_insert_same [OF dist mem'] using eff by (simp add: transactions_map_def)
      moreover have "accounts_map s' = accounts_map s" using eff by (simp add: accounts_map_def)
      moreover have "r' = applied_receipt m (txr_version e + 1)"
        and M': "M' = push_change b (call_new_id c') ''transaction'' (mut_entity_id m) ''delete''
          (txr_version e + 1) (mut_payload m)
          (M\<lparr>transactions := hm_insert (mut_entity_id m) ?new (transactions M)\<rparr>)"
        using mem x same Some e True by (auto simp: process_delete_mem_def Let_def split: if_splits)
      moreover have "same_news rf s s' M M'"
        unfolding M' using eff
        by (auto simp: push_change_def intro!: same_news_one same_recordI [OF _ _ same_payload_refl])
          (auto simp: change_view_def)
      ultimately show ?thesis using eff acc tx by (auto simp: sim_def stored_map_insert)
    qed
  qed
qed

subsection \<open>One mutation\<close>

text \<open>No statement of the mutation's transaction violates a constraint.\<close>

definition commits_pg :: "rfc3339 \<Rightarrow> pg_call \<Rightarrow> string \<Rightarrow> string \<Rightarrow> sync_mutation_dto \<Rightarrow> pg \<Rightarrow> bool" where
  "commits_pg rf c b d m s =
     (if mut_entity_type m = ''account'' then \<not> isl (fst (account_body_pg c b d m s))
      else if mut_operation m = ''delete'' then \<not> isl (fst (transaction_body_pg rf c b d m None None s))
      else case (parse_occurred_at rf m, parse_entries m) of
        (Inr requested, Inr ds) \<Rightarrow> \<not> isl (fst (transaction_body_pg rf c b d m requested (Some ds) s))
      | _ \<Rightarrow> True)"

lemma transaction_body_fresh:
  assumes "select_receipt s (b, d, mut_mutation_id m) = None"
  shows "transaction_body_pg rf c b d m requested drafts s =
    (if case drafts of None \<Rightarrow> True | Some ds \<Rightarrow> owns_accounts_pg s b ds
     then (case drafts of None \<Rightarrow> process_delete_pg c b d m (select_transaction s (mut_entity_id m) b)
           | Some ds \<Rightarrow> upsert_body_pg rf c b d m requested ds (select_transaction s (mut_entity_id m) b)) s
     else finish b d (rejected_receipt m ''ACCOUNT_NOT_FOUND'' None) s)"
  using assms by (simp add: transaction_body_pg_def split: option.split)

lemma in_tx_committed:
  assumes "\<not> isl (fst (m s))" and "in_tx Runs m s = (x, s')"
  obtains y where "x = Inr y" "m s = (Inr y, s')"
  using assms by (auto simp: in_tx_def isl_def split: prod.splits sum.splits)

text \<open>The account handler leaves the tables of the transactions alone.\<close>

definition same_tx_tables :: "pg \<Rightarrow> pg \<Rightarrow> bool" where
  "same_tx_tables s s' \<longleftrightarrow> pg_transactions s' = pg_transactions s \<and> pg_entries s' = pg_entries s"

interpretation tx_tables: sql_order same_tx_tables
  by unfold_locales (auto simp: same_tx_tables_def)

lemma account_body_tx_tables: "sql_within same_tx_tables (account_body_pg c b d m)"
proof -
  have "sql_within same_tx_tables (insert_change b' cid ty i p v j)" "sql_within same_tx_tables (insert_account a)"
    "sql_within same_tx_tables (update_account_rows aid b' n q w)" "sql_within same_tx_tables (insert_receipt k r)"
    for b' cid ty i p v j a aid n q w k r
    by (auto simp: insert_change_def insert_account_def update_account_rows_def insert_receipt_def
        same_tx_tables_def intro!: tx_tables.within_modify)
  then show ?thesis
    unfolding body_defs finish_def insert_pg_receipt_def by (intro tx_tables.within_intros)
qed

lemma process_mutation_refines:
  assumes sim: "sim s M" and keys: "keys_ok s" and ag: "mut_entity_type m = ''transaction'' \<Longrightarrow> agree s b m"
    and new: "select_receipt s (b, d, mut_mutation_id m) = None"
    and runs: "pc_process c = Runs" "commits_pg rf c b d m s" and now: "call_now c' = pc_now c"
    and pg: "process_mutation_pg rf c b d m s = (r, s')" and mem: "process_mutation_mem rf c' b m M = (r', M')"
  shows "r = r' \<and> sim s' M' \<and> same_news rf s s' M M'"
  using pg
proof (cases rule: process_mutation_pg_cases)
  case account
  obtain x s1 where eq: "in_tx Runs (account_body_pg c b d m) s = (x, s1)" by fastforce
  have "\<not> isl (fst (account_body_pg c b d m s))" using runs(2) account(1) by (simp add: commits_pg_def)
  then obtain y where y: "x = Inr y" "account_body_pg c b d m s = (Inr y, s1)" by (rule in_tx_committed [OF _ eq])
  then have rs: "r = y" "s' = s1"
    using account(2) runs(1) eq by (auto simp: process_account_mutation_pg_def)
  have memr: "process_account_mutation_mem c' b m M = (r', M')"
    using mem account(1) by (simp add: process_mutation_mem_def)
  have "pg_transactions s1 = pg_transactions s" "pg_entries s1 = pg_entries s"
    using account_body_tx_tables [of c b d m] y(2) by (auto simp: sql_within_def same_tx_tables_def dest: spec [of _ s])
  then have "transactions_map s1 = transactions_map s"
    by (simp add: transactions_map_def abs_tx_def row_entries_def)
  with account_body_refines [OF _ keys new y(2) memr] sim rs show ?thesis by (simp add: sim_def)
next
  case early
  then have "(r, M) = (r', M')" using mem by metis
  then show ?thesis using early(1) sim by (auto intro: same_news_none)
next
  case delete
  obtain x s1 where eq: "in_tx Runs (transaction_body_pg rf c b d m None None) s = (x, s1)" by fastforce
  have "\<not> isl (fst (transaction_body_pg rf c b d m None None s))"
    using runs(2) delete(1,2) by (simp add: commits_pg_def)
  then obtain y where y: "x = Inr y" "transaction_body_pg rf c b d m None None s = (Inr y, s1)"
    by (rule in_tx_committed [OF _ eq])
  then have "r = y" "s' = s1" using delete(3) runs(1) eq by (auto simp: receipt_of_result_def)
  moreover have "process_delete_pg c b d m (select_transaction s (mut_entity_id m) b) s = (Inr y, s1)"
    using y(2) by (simp add: transaction_body_fresh [OF new])
  moreover have "process_delete_mem c' b m M = (r', M')"
    using mem delete(1,2) by (simp add: process_mutation_mem_def)
  ultimately show ?thesis using delete_refines [OF sim keys ag [OF delete(1)]] by simp
next
  case (upsert requested ds)
  have op: "mut_operation m \<noteq> ''delete''" using upsert(2) by auto
  obtain x s1 where eq: "in_tx Runs (transaction_body_pg rf c b d m requested (Some ds)) s = (x, s1)" by fastforce
  have "\<not> isl (fst (transaction_body_pg rf c b d m requested (Some ds) s))"
    using runs(2) upsert(1,3,4) op by (simp add: commits_pg_def)
  then obtain y where y: "x = Inr y" "transaction_body_pg rf c b d m requested (Some ds) s = (Inr y, s1)"
    by (rule in_tx_committed [OF _ eq])
  then have rs: "r = y" "s' = s1" using upsert(6) runs(1) eq by (auto simp: receipt_of_result_def)
  have own: "owns_accounts_pg s b ds = owns_accounts_mem M b ds"
    using owns_accounts_sim [OF _ keys] sim by (simp add: sim_def)
  have memr: "process_upsert_mem rf c' b m requested ds M = (r', M')"
  proof -
    have "validate_or_reject m ds = None" using upsert(1,2,5) by (auto simp: validate_or_reject_def)
    then show ?thesis using mem upsert(1,3,4) op by (simp add: process_mutation_mem_def)
  qed
  show ?thesis
  proof (cases "owns_accounts_mem M b ds")
    case True
    then have "upsert_body_pg rf c b d m requested ds (select_transaction s (mut_entity_id m) b) s = (Inr y, s1)"
      using y(2) own by (simp add: transaction_body_fresh [OF new])
    then show ?thesis
      using upsert_body_refines [OF sim keys ag [OF upsert(1)] op _ True memr now] rs by simp
  next
    case False
    then have "finish b d (rejected_receipt m ''ACCOUNT_NOT_FOUND'' None) s = (Inr y, s1)"
      using y(2) own by (simp add: transaction_body_fresh [OF new])
    moreover have "r' = rejected_receipt m ''ACCOUNT_NOT_FOUND'' None" "M' = M"
      using memr False by (auto simp: process_upsert_mem_def)
    ultimately show ?thesis
      using sim rs
      by (auto simp: finish_Inr sim_def accounts_map_def transactions_map_def abs_tx_def row_entries_def
          intro: same_news_none)
  qed
qed


subsection \<open>One step of push\<close>

text \<open>A mutation touches no receipt but its own.\<close>

definition others_kept :: "string \<times> string \<times> string \<Rightarrow> pg \<Rightarrow> pg \<Rightarrow> bool" where
  "others_kept k s s' \<longleftrightarrow> (\<forall>k'. k' \<noteq> k \<longrightarrow> select_receipt s' k' = select_receipt s k')"

interpretation one_receipt: sql_order "others_kept k" for k
  by unfold_locales (auto simp: others_kept_def)

lemma others_kept_same [simp]: "pg_mutations s' = pg_mutations s \<Longrightarrow> others_kept k s s'"
  by (simp add: others_kept_def select_receipt_def)

lemma one_receipt_stmts:
  "sql_within (others_kept k) (insert_change b cid ty i p v j)" "sql_within (others_kept k) (insert_account a)"
  "sql_within (others_kept k) (insert_revision rv)" "sql_within (others_kept k) (insert_tx_row t)"
  "sql_within (others_kept k) (delete_entries i)" "sql_within (others_kept k) (insert_entry_row e)"
  "sql_within (others_kept k) (insert_receipt k r)" "sql_within (others_kept k) (insert_receipt_if_absent k r)"
  "sql_within (others_kept k) (update_account_rows aid b n q w)" "sql_within (others_kept k) (update_tx_rows ps f)"
  by (auto simp: insert_change_def insert_account_def insert_revision_def insert_tx_row_def
      delete_entries_def insert_entry_row_def insert_receipt_def insert_receipt_if_absent_def
      update_account_rows_def others_kept_def select_receipt_def map_add_def
      intro!: one_receipt.within_modify split: option.split)
    (auto simp: sql_within_def update_tx_rows_def others_kept_def select_receipt_def Let_def)

lemma one_receipt_finish:
  "rcp_mutation_id r = mut_mutation_id m \<Longrightarrow> sql_within (others_kept (b, d, mut_mutation_id m)) (finish b d r)"
  unfolding finish_def insert_pg_receipt_def
  by (intro one_receipt.within_intros) (simp add: one_receipt_stmts)

lemma one_receipt_sum:
  "(\<And>y. x = Inl y \<Longrightarrow> sql_within R (f y)) \<Longrightarrow> (\<And>y. sql_within R (g y)) \<Longrightarrow>
     sql_within R (case x of Inl y \<Rightarrow> f y | Inr y \<Rightarrow> g y)"
  by (cases x) simp_all

lemma one_receipt_bodies:
  "sql_within (others_kept (b, d, mut_mutation_id m)) (account_body_pg c b d m)"
  "sql_within (others_kept (b, d, mut_mutation_id m)) (transaction_body_pg rf c b d m requested drafts)"
proof -
  have id: "rcp_mutation_id r = mut_mutation_id m" if "parse_account_payload b m = Inl r" for r
    using parse_account_payload_Inl [OF that] by auto
  show "sql_within (others_kept (b, d, mut_mutation_id m)) (account_body_pg c b d m)"
    "sql_within (others_kept (b, d, mut_mutation_id m)) (transaction_body_pg rf c b d m requested drafts)"
    unfolding body_defs
    by ((intro one_receipt_sum one_receipt.within_bind one_receipt.within_basic one_receipt.within_if
        one_receipt.within_option one_receipt.within_mapM one_receipt_stmts one_receipt_finish;
        simp add: id)+)
qed

lemma process_pg_others:
  "others_kept (b, d, mut_mutation_id m) s (snd (process_mutation_pg rf c b d m s))"
proof -
  obtain r s' where eq: "process_mutation_pg rf c b d m s = (r, s')" by fastforce
  have tx: "others_kept (b, d, mut_mutation_id m) s s1"
    if "sql_within (others_kept (b, d, mut_mutation_id m)) sq" and "in_tx fate sq s = (x, s1)"
    for sq :: "mutation_receipt_dto sql" and fate x s1
    using one_receipt.within_in_tx [OF that(1), of fate] that(2)
    by (auto simp: sql_within_def dest: spec [of _ s])
  from eq have "others_kept (b, d, mut_mutation_id m) s s'"
  proof (cases rule: process_mutation_pg_cases)
    case account
    then show ?thesis
      using tx [OF one_receipt_bodies(1), of "pc_process c"]
      by (auto simp: process_account_mutation_pg_def split: prod.splits sum.splits)
  next
    case early
    then show ?thesis by simp
  next
    case delete
    then show ?thesis using tx [OF one_receipt_bodies(2), of "pc_process c" rf c None None]
      by (cases "in_tx (pc_process c) (transaction_body_pg rf c b d m None None) s") auto
  next
    case (upsert requested ds)
    then show ?thesis using tx [OF one_receipt_bodies(2), of "pc_process c" rf c requested "Some ds"]
      by (cases "in_tx (pc_process c) (transaction_body_pg rf c b d m requested (Some ds)) s") auto
  qed
  then show ?thesis by (simp add: eq)
qed

definition sim_receipts :: "pg \<Rightarrow> memory_store \<Rightarrow> bool" where
  "sim_receipts s M \<longleftrightarrow> sim s M \<and> (\<forall>k. select_receipt s k = hm_get (mutations M) k)"

definition quiet_call :: "pg_call \<Rightarrow> bool" where
  "quiet_call c \<longleftrightarrow> pc_lookup c = Runs \<and> pc_process c = Runs \<and> pc_store c = Runs"

text \<open>A mutation without a receipt: it is processed and its receipt is stored, unless the transaction did so.\<close>

lemma push_step_pg_new:
  assumes "quiet_call c" and "select_receipt s (b, d, mut_mutation_id m) = None"
    and "process_mutation_pg rf c b d m s = (r, s1)" and "push_step_pg rf c (b, d, m) s = (x, s')"
  shows "x = Inr r" and "\<exists>ms. s' = s1\<lparr>pg_mutations := ms\<rparr>"
    and "select_receipt s' k = (if k = (b, d, mut_mutation_id m) then Some (stored_receipt r) else select_receipt s k)"
proof -
  let ?k = "(b, d, mut_mutation_id m)"
  have q: "pc_lookup c = Runs" "pc_process c = Runs" "pc_store c = Runs"
    using assms(1) by (auto simp: quiet_call_def)
  have store: "in_tx Runs (insert_receipt_if_absent ?k v) s1 = (Inr (), if ?k \<in> set (map fst (pg_mutations s1)) then s1
      else s1\<lparr>pg_mutations := pg_mutations s1 @ [(?k, v)]\<rparr>)" for v
    by (simp add: in_tx_def insert_receipt_if_absent_def sql_modify_def)
  have s': "s' = (if ?k \<in> set (map fst (pg_mutations s1)) then s1
      else s1\<lparr>pg_mutations := pg_mutations s1 @ [(?k, stored_receipt r)]\<rparr>)" and x: "x = Inr r"
    using assms(2-4) q store by (auto simp: push_step_pg_def in_tx_def [of Runs "sql_get _"])
  show "x = Inr r" by (rule x)
  have "s1 = s1\<lparr>pg_mutations := pg_mutations s1\<rparr>" by simp
  then show "\<exists>ms. s' = s1\<lparr>pg_mutations := ms\<rparr>" using s' by metis
  have "select_receipt s' k = (if k = ?k then Some (stored_receipt r) else select_receipt s1 k)"
    using s' process_pg_receipt [OF _ assms(3,2)] q map_of_eq_None_iff [of "pg_mutations s1" ?k]
    by (auto simp: select_receipt_def map_add_def split: option.split)
  moreover have "select_receipt s1 k = select_receipt s k" if "k \<noteq> ?k"
    using process_pg_others [of b d m s rf c] assms(3) that unfolding others_kept_def by (metis snd_conv)
  ultimately show "select_receipt s' k = (if k = ?k then Some (stored_receipt r) else select_receipt s k)" by simp
qed

lemma push_step_mem_new:
  assumes "hm_get (mutations M) (b, d, mut_mutation_id m) = None"
    and "process_mutation_mem rf c b m M = (r, M1)" and "push_step_mem rf c (b, d, m) M = (x, M')"
  shows "x = Inr r" and "M' = M1\<lparr>mutations := hm_insert (b, d, mut_mutation_id m) (stored_receipt r) (mutations M)\<rparr>"
  using assms process_mutation_receipts [of rf c b m M] by (auto simp: push_step_mem_def)

text \<open>
  C4. The relational store implements the in-memory one. Let the stores be related, no statement of
  the call be lost or fail (\<open>quiet_call\<close>, \<open>commits_pg\<close>), both calls read the same clock, and the
  mutation of a transaction meet no other book's id and no update a deleted transaction or another
  fingerprint (\<open>agree\<close>: there the two handlers differ). Then \<open>push\<close> answers with the same receipt
  over both, and leaves the accounts, the transactions with their entries and the stored receipts
  related again, the times up to the microseconds a row holds; the new log records show the same book,
  entity, operation, version and payload, where the payloads of an update that names no time may
  show two times of the same microsecond.
\<close>

theorem push_step_refines:
  assumes "sim_receipts s M" and "keys_ok s" and "mut_entity_type m = ''transaction'' \<Longrightarrow> agree s b m"
    and "quiet_call c" and "commits_pg rf c b d m s" and "call_now c' = pc_now c"
    and "push_step_pg rf c (b, d, m) s = (x, s')" and "push_step_mem rf c' (b, d, m) M = (x', M')"
  shows "x = x' \<and> sim_receipts s' M' \<and> same_news rf s s' M M'"
proof -
  let ?k = "(b, d, mut_mutation_id m)"
  have sim: "sim s M" and rec: "\<And>k. select_receipt s k = hm_get (mutations M) k"
    using assms(1) by (auto simp: sim_receipts_def)
  have q: "pc_lookup c = Runs" "pc_process c = Runs" "pc_store c = Runs"
    using assms(4) by (auto simp: quiet_call_def)
  show ?thesis
  proof (cases "select_receipt s ?k")
    case (Some e)
    then show ?thesis
      using assms(1,7,8) rec q
      by (auto simp: push_step_pg_def push_step_mem_def in_tx_def intro: same_news_none)
  next
    case None
    obtain r s1 where pg: "process_mutation_pg rf c b d m s = (r, s1)" by fastforce
    obtain r' M1 where mem: "process_mutation_mem rf c' b m M = (r', M1)" by fastforce
    have none: "hm_get (mutations M) ?k = None" using None rec by simp
    note ref = process_mutation_refines [OF sim assms(2,3) None q(2) assms(5,6) pg mem]
    note new = push_step_pg_new [OF assms(4) None pg assms(7)] and new' = push_step_mem_new [OF none mem assms(8)]
    obtain ms where s': "s' = s1\<lparr>pg_mutations := ms\<rparr>" using new(2) by blast
    have "select_receipt s' k = hm_get (mutations M') k" for k
      using ref rec by (simp add: new(3) new'(2))
    moreover have "sim s' M'"
      using ref by (auto simp: s' new'(2) sim_def accounts_map_def transactions_map_def abs_tx_def row_entries_def)
    moreover have "same_news rf s s' M M'" using ref by (auto simp: same_news_def s' new'(2))
    ultimately show ?thesis using ref new(1) new'(1) by (simp add: sim_receipts_def)
  qed
qed


text \<open>The empty database and the empty store, and a push of an account.\<close>

theorem push_step_refines_witness:
  "fst (push_step_pg ex_rf (ex_pg_call 1) (''b1'', ''d1'', ex_account ''m1'' ''b1:cash'' ''asset'') ex_pg) =
   fst (push_step_mem ex_rf (ex_call 1) (''b1'', ''d1'', ex_account ''m1'' ''b1:cash'' ''asset'') empty_store)"
proof -
  let ?m = "ex_account ''m1'' ''b1:cash'' ''asset''"
  have "sim_receipts ex_pg empty_store" "keys_ok ex_pg"
    by (simp_all add: sim_receipts_def sim_def stored_map_def keys_ok_def ex_pg_def empty_store_def accounts_map_def
        transactions_map_def select_receipt_def)
  moreover have "mut_entity_type ?m = ''transaction'' \<Longrightarrow> agree ex_pg ''b1'' ?m"
    by (simp add: ex_account_def)
  moreover have "quiet_call (ex_pg_call 1)" "call_now (ex_call 1) = pc_now (ex_pg_call 1)"
    by (simp_all add: quiet_call_def ex_pg_call_def ex_call_def)
  moreover have "commits_pg ex_rf (ex_pg_call 1) ''b1'' ''d1'' ?m ex_pg" by code_simp
  ultimately show ?thesis
    using push_step_refines [OF _ _ _ _ _ _ surjective_pairing surjective_pairing] by blast
qed

end
