(* ===== verification/Sync_Pg_Inv.thy ===== *)
theory Sync_Pg_Inv
  imports Sync_Refinement
begin

section \<open>The invariant of the relational store\<close>

text \<open>
  \<open>pg_inv\<close> holds after every push, whatever becomes of its transactions: the keys are unique, the
  category tree has two levels, no automatic event has two live transactions in a book, the entries
  of every transaction balance and lie in accounts of its book, and the change log is strictly
  ordered by numbers below the sequence, which may leave gaps.
\<close>

definition log_inv_pg :: "pg \<Rightarrow> bool" where
  "log_inv_pg s \<longleftrightarrow> sorted_wrt (<) (map chg_sequence (pg_changes s)) \<and>
     list_all (\<lambda>c. chg_sequence c \<le> pg_sequence s) (pg_changes s)"

definition row_owned :: "pg \<Rightarrow> tx_row \<Rightarrow> bool" where
  "row_owned s t \<longleftrightarrow> list_all (\<lambda>(acc, _, _). \<exists>a. hm_get (accounts_map s) acc = Some a \<and>
     acc_book_id a = txr_book_id t) (row_entries s (txr_id t))"

definition rows_inv :: "pg \<Rightarrow> bool" where
  "rows_inv s \<longleftrightarrow> distinct_some (map auto_event (pg_transactions s)) \<and>
     list_all (\<lambda>t. entries_ok (row_entries s (txr_id t)) \<and> row_owned s t) (pg_transactions s)"

definition pg_inv :: "pg \<Rightarrow> bool" where
  "pg_inv s \<longleftrightarrow> keys_ok s \<and> account_map_ok (accounts_map s) \<and> rows_inv s \<and> log_inv_pg s"

subsection \<open>The log\<close>

definition log_step :: "pg \<Rightarrow> pg \<Rightarrow> bool" where
  "log_step s s' \<longleftrightarrow> pg_sequence s \<le> pg_sequence s' \<and> (log_inv_pg s \<longrightarrow> log_inv_pg s')"

interpretation log_order: sql_order log_step
  by unfold_locales (auto simp: log_step_def)

lemma log_step_same [simp]:
  "pg_sequence s' = pg_sequence s \<Longrightarrow> pg_changes s' = pg_changes s \<Longrightarrow> log_step s s'"
  by (simp add: log_step_def log_inv_pg_def)

lemma log_step_change: "sql_within log_step (insert_change b cid ty i p v j)"
  unfolding insert_change_def
  by (intro log_order.within_modify)
    (auto simp: log_step_def log_inv_pg_def sorted_wrt_append list_all_iff intro: add_strict_increasing2)

lemma log_stmts:
  "sql_within log_step (insert_change b cid ty i p v j)" "sql_within log_step (insert_account a)"
  "sql_within log_step (insert_revision rv)" "sql_within log_step (insert_tx_row t)"
  "sql_within log_step (delete_entries i)" "sql_within log_step (insert_entry_row e)"
  "sql_within log_step (insert_receipt k r)" "sql_within log_step (insert_receipt_if_absent k r)"
  "sql_within log_step (update_account_rows aid b n q w)" "sql_within log_step (update_tx_rows ps f)"
  by (rule log_step_change)
    (auto simp: insert_account_def insert_revision_def insert_tx_row_def
      delete_entries_def insert_entry_row_def insert_receipt_def insert_receipt_if_absent_def
      update_account_rows_def intro!: log_order.within_modify,
     auto simp: sql_within_def update_tx_rows_def Let_def)

lemma log_bodies:
  "sql_within log_step (account_body_pg c b d m)"
  "sql_within log_step (transaction_body_pg rf c b d m requested drafts)"
  unfolding body_defs finish_def insert_pg_receipt_def by (intro log_order.within_intros log_stmts)+

lemma in_tx_pg_inv:
  assumes inv: "pg_inv s" and body: "\<And>x s1. m s = (Inr x, s1) \<Longrightarrow> pg_inv s1"
    and log: "sql_within log_step m" and run: "in_tx fate m s = (r, s')"
  shows "pg_inv s'"
proof -
  have seq: "pg_inv (s\<lparr>pg_sequence := n\<rparr>)" if "pg_sequence s \<le> n" for n
    using inv that
    by (auto simp: pg_inv_def keys_ok_def accounts_map_def rows_inv_def row_owned_def row_entries_def
        log_inv_pg_def list_all_iff)
  have "pg_sequence s \<le> pg_sequence (snd (m s))" using log by (simp add: sql_within_def log_step_def)
  with run show ?thesis
    by (cases rule: in_tx_cases) (auto simp: body seq)
qed


subsection \<open>Accounts\<close>

lemma rows_inv_accounts:
  assumes "rows_inv s" and "pg_transactions s' = pg_transactions s" and "pg_entries s' = pg_entries s"
    and "\<And>i a. hm_get (accounts_map s) i = Some a \<Longrightarrow>
      \<exists>a'. hm_get (accounts_map s') i = Some a' \<and> acc_book_id a' = acc_book_id a"
  shows "rows_inv s'"
proof -
  have ents: "row_entries s' i = row_entries s i" for i using assms(3) by (simp add: row_entries_def)
  have "row_owned s' t" if "row_owned s t" for t
    using that assms(4) unfolding row_owned_def ents list_all_iff by fastforce
  with assms(1) show ?thesis by (auto simp: rows_inv_def assms(2) ents list_all_iff)
qed

lemma account_body_inv:
  assumes inv: "pg_inv s" and run: "account_body_pg c b d m s = (Inr r, s')"
  shows "pg_inv s'"
proof (cases "select_receipt s (b, d, mut_mutation_id m)")
  case (Some x)
  then show ?thesis using inv run by (auto simp: account_body_pg_def)
next
  case None
  let ?M = "empty_store\<lparr>accounts := accounts_map s\<rparr>"
  obtain r' M' where mem: "process_account_mutation_mem undefined b m ?M = (r', M')" by fastforce
  have keys: "keys_ok s" and ok: "account_map_ok (accounts_map s)" using inv by (auto simp: pg_inv_def)
  have acc: "accounts M' = accounts_map s'"
    using account_body_refines [OF _ keys None run mem] by simp
  have tabs: "pg_transactions s' = pg_transactions s" "pg_entries s' = pg_entries s"
    using account_body_tx_tables [of c b d m] run
    by (auto simp: sql_within_def same_tx_tables_def dest: spec [of _ s])
  have okM: "accounts_ok ?M" using ok by simp
  have "account_map_ok (accounts_map s') \<and> (\<forall>i a. hm_get (accounts_map s) i = Some a \<longrightarrow>
      (\<exists>a'. hm_get (accounts_map s') i = Some a' \<and> acc_book_id a' = acc_book_id a))"
    using process_account_outcome [OF okM mem]
  proof (elim disjE exE conjE)
    assume "M' = ?M"
    then show ?thesis using acc ok by simp
  next
    fix a
    assume w: "account_write ?M b m a" and M': "M' = put_account (call_new_id undefined) (account_log_payload a) a ?M"
    have same: "acc_book_id y = acc_book_id a" if "hm_get (accounts_map s) (acc_id a) = Some y" for y
      using w that by (simp add: account_write_def)
    have acc': "accounts_map s' = hm_insert (acc_id a) a (accounts_map s)"
      using M' by (simp add: acc [symmetric])
    show ?thesis
      unfolding acc' using account_write_map_ok [OF okM w] same by simp
  qed
  note accs = this
  have "log_step s (snd (account_body_pg c b d m s))" using log_bodies(1) by (simp add: sql_within_def)
  then have "log_inv_pg s'" using run inv by (simp add: log_step_def pg_inv_def)
  moreover have "rows_inv s'"
    by (rule rows_inv_accounts [OF _ tabs]) (use inv accs in \<open>simp_all add: pg_inv_def\<close>)
  moreover have "keys_ok s'"
    using accs accounts_map_keys [of s'] keys by (simp add: keys_ok_def tabs account_map_ok_iff hm_wf_def)
  ultimately show ?thesis using accs by (simp add: pg_inv_def)
qed

subsection \<open>Transactions\<close>

lemma rows_inv_cong:
  "pg_transactions s' = pg_transactions s \<Longrightarrow> pg_entries s' = pg_entries s \<Longrightarrow> pg_accounts s' = pg_accounts s \<Longrightarrow>
     rows_inv s' = rows_inv s"
  by (simp add: rows_inv_def row_owned_def row_entries_def accounts_map_def)

lemma finish_inv:
  assumes "pg_inv s" and "finish b d r s = (Inr r', s')"
  shows "pg_inv s'"
  using assms rows_inv_cong [of s' s]
  by (auto simp: finish_Inr pg_inv_def keys_ok_def accounts_map_def log_inv_pg_def)

lemma row_owned_cong:
  assumes "txr_id t' = txr_id t" and "txr_book_id t' = txr_book_id t"
    and "row_entries s' (txr_id t) = row_entries s (txr_id t)" and "accounts_map s' = accounts_map s"
  shows "row_owned s' t' = row_owned s t"
  by (simp add: row_owned_def assms)

lemma apply_transaction_inv:
  assumes inv: "pg_inv s" and run: "apply_transaction_pg rf c b d m existing requested ds s = (Inr r, s')"
    and own: "owns_accounts_pg s b ds" and bal: "entries_ok (map entry_tuple ds)"
    and ex: "existing = select_transaction s (mut_entity_id m) b"
  shows "keys_ok s' \<and> account_map_ok (accounts_map s') \<and> rows_inv s'"
proof -
  have keys: "keys_ok s" and ok: "account_map_ok (accounts_map s)" and rows: "rows_inv s"
    using inv by (auto simp: pg_inv_def)
  note eff = apply_transaction_Inr [OF run keys]
  let ?w = "upsert_version existing" and ?t = "upsert_time c existing requested"
  have ents: "row_entries s' i = (if i = mut_entity_id m then map entry_tuple ds else row_entries s i)" for i
    using eff by (intro row_entries_written) blast
  have acc: "accounts_map s' = accounts_map s" using eff by (simp add: accounts_map_def)
  have txs: "pg_transactions s' = written_rows b m existing ?t ?w (pg_transactions s)" using eff by blast
  have "owns_accounts_mem (empty_store\<lparr>accounts := accounts_map s\<rparr>) b ds"
    using owns_accounts_sim [OF _ keys, of "empty_store\<lparr>accounts := accounts_map s\<rparr>"] own by simp
  then have owned: "list_all (\<lambda>(acc, _, _). \<exists>a. hm_get (accounts_map s) acc = Some a \<and> acc_book_id a = b)
      (map entry_tuple ds)"
    by (fastforce simp: owns_accounts_mem_def list_all_iff entry_tuple_def split: option.splits)
  have ids: "map txr_id (pg_transactions s') = (case existing of None \<Rightarrow> map txr_id (pg_transactions s) @ [mut_entity_id m]
      | Some _ \<Rightarrow> map txr_id (pg_transactions s))"
    by (auto simp: txs written_rows_def inserted_row_def updated_row_def split: option.split)
  have mem: "mut_entity_id m \<in> set (map txr_id (pg_transactions s'))"
  proof (cases existing)
    case (Some e)
    then have "e \<in> set (pg_transactions s)" "txr_id e = mut_entity_id m"
      using select_transaction_Some [of s "mut_entity_id m" b e] ex by auto
    then show ?thesis using Some by (simp add: ids) (metis imageI)
  qed (simp add: ids)
  have only: "txr_book_id t = b" if t: "t \<in> set (pg_transactions s')" "txr_id t = mut_entity_id m" for t
  proof (cases existing)
    case None
    then have "mut_entity_id m \<notin> set (map txr_id (pg_transactions s))" using eff by blast
    then have "t \<notin> set (pg_transactions s)" using t(2) by (metis image_eqI list.set_map)
    then show ?thesis using t None by (simp add: txs written_rows_def inserted_row_def)
  next
    case (Some e)
    then have e: "e \<in> set (pg_transactions s)" "txr_id e = mut_entity_id m" "txr_book_id e = b"
      using select_transaction_Some [of s "mut_entity_id m" b e] ex by auto
    obtain t0 where t0: "t0 \<in> set (pg_transactions s)" "txr_id t0 = txr_id t" "txr_book_id t0 = txr_book_id t"
      using t(1) Some by (auto simp: txs written_rows_def updated_row_def split: if_splits)
    then have "t0 = e" using e keys t(2) unfolding keys_ok_def by (metis inj_onD distinct_map)
    with e t0 show ?thesis by simp
  qed
  have old: "\<exists>t0 \<in> set (pg_transactions s). txr_id t0 = txr_id t \<and> txr_book_id t0 = txr_book_id t"
    if "t \<in> set (pg_transactions s')" "txr_id t \<noteq> mut_entity_id m" for t
    using that by (auto simp: txs written_rows_def inserted_row_def updated_row_def split: option.splits if_splits)
  have "entries_ok (row_entries s' (txr_id t)) \<and> row_owned s' t" if t: "t \<in> set (pg_transactions s')" for t
  proof (cases "txr_id t = mut_entity_id m")
    case True
    then show ?thesis using bal owned only [OF t True] by (simp add: row_owned_def ents acc)
  next
    case False
    obtain t0 where t0: "t0 \<in> set (pg_transactions s)" "txr_id t = txr_id t0" "txr_book_id t = txr_book_id t0"
      using old [OF t False] by metis
    then have "row_owned s' t = row_owned s t0"
      using False by (intro row_owned_cong) (simp_all add: ents acc)
    then show ?thesis using rows False t0 by (simp add: rows_inv_def ents list_all_iff)
  qed
  moreover have "distinct_some (map auto_event (pg_transactions s'))"
    using eff rows unfolding rows_inv_def by blast
  moreover have "keys_ok s'"
  proof -
    have new: "existing = None \<Longrightarrow> mut_entity_id m \<notin> set (map txr_id (pg_transactions s))" using eff by blast
    have "distinct (map txr_id (pg_transactions s'))"
      unfolding ids using keys new by (simp add: keys_ok_def split: option.split)
    moreover have "set (map txr_id (pg_transactions s)) \<subseteq> set (map txr_id (pg_transactions s'))"
      unfolding ids by (auto split: option.split)
    then have "er_transaction_id e \<in> set (map txr_id (pg_transactions s'))" if "e \<in> set (pg_entries s)" for e
      using that keys unfolding keys_ok_def list_all_iff by blast
    moreover have "er_transaction_id (entry_row_of m x) = mut_entity_id m" for x
      by (simp add: entry_row_of_def split: prod.split)
    then have "er_transaction_id e \<in> set (map txr_id (pg_transactions s'))"
      if "e \<in> set (map (entry_row_of m) (List.enumerate 0 ds))" for e
      using that mem by auto
    moreover have "pg_accounts s' = pg_accounts s" and "set (pg_entries s') \<subseteq> set (pg_entries s) \<union>
        set (map (entry_row_of m) (List.enumerate 0 ds))" using eff by auto
    ultimately show ?thesis
      using keys unfolding keys_ok_def list_all_iff by (metis (no_types, lifting) UnE in_mono)
  qed
  ultimately show ?thesis using ok acc by (simp add: rows_inv_def list_all_iff)
qed


lemma delete_inv:
  assumes inv: "pg_inv s" and run: "process_delete_pg c b d m (Some e) s = (Inr r, s')"
    and ok: "mut_base_version m = 0 \<or> mut_base_version m = txr_version e"
  shows "keys_ok s' \<and> account_map_ok (accounts_map s') \<and> rows_inv s'"
proof -
  note eff = delete_Inr [OF run ok]
  have ents: "row_entries s' i = row_entries s i" for i using eff by (simp add: row_entries_def)
  have acc: "accounts_map s' = accounts_map s" using eff by (simp add: accounts_map_def)
  have ids: "map txr_id (pg_transactions s') = map txr_id (pg_transactions s)" using eff by auto
  have old: "\<exists>t0 \<in> set (pg_transactions s). txr_id t0 = txr_id t \<and> txr_book_id t0 = txr_book_id t"
    if "t \<in> set (pg_transactions s')" for t using that eff by (auto split: if_splits)
  have "entries_ok (row_entries s' (txr_id t)) \<and> row_owned s' t" if t: "t \<in> set (pg_transactions s')" for t
  proof -
    obtain t0 where t0: "t0 \<in> set (pg_transactions s)" "txr_id t = txr_id t0" "txr_book_id t = txr_book_id t0"
      using old [OF t] by metis
    then have "row_owned s' t = row_owned s t0" by (intro row_owned_cong) (simp_all add: ents acc)
    then show ?thesis using inv t0 by (simp add: pg_inv_def rows_inv_def ents list_all_iff)
  qed
  moreover have "keys_ok s'"
    using inv eff ids unfolding pg_inv_def keys_ok_def by metis
  moreover have "distinct_some (map auto_event (pg_transactions s'))" using eff by blast
  ultimately show ?thesis
    using inv unfolding pg_inv_def rows_inv_def list_all_iff acc by blast
qed

lemma transaction_body_inv:
  assumes inv: "pg_inv s" and run: "transaction_body_pg rf c b d m requested drafts s = (Inr r, s')"
    and bal: "\<And>ds. drafts = Some ds \<Longrightarrow> entries_ok (map entry_tuple ds)"
  shows "pg_inv s'"
proof (cases "select_receipt s (b, d, mut_mutation_id m)")
  case (Some x)
  then show ?thesis using inv run by (auto simp: transaction_body_pg_def)
next
  case None
  have "log_step s (snd (transaction_body_pg rf c b d m requested drafts s))"
    using log_bodies(2) by (simp add: sql_within_def)
  then have log: "log_inv_pg s'" using run inv by (simp add: log_step_def pg_inv_def)
  let ?e = "select_transaction s (mut_entity_id m) b"
  note fin = finish_inv [OF inv]
  have "keys_ok s' \<and> account_map_ok (accounts_map s') \<and> rows_inv s'"
  proof (cases drafts)
    case None': None
    then have del: "process_delete_pg c b d m ?e s = (Inr r, s')"
      using run by (simp add: transaction_body_fresh [OF None])
    consider "?e = None" | e where "?e = Some e" "mut_base_version m \<noteq> 0" "mut_base_version m \<noteq> txr_version e"
      | e where "?e = Some e" "mut_base_version m = 0 \<or> mut_base_version m = txr_version e"
      by (cases ?e) blast+
    then show ?thesis
    proof cases
      case 1
      then show ?thesis using del fin by (auto simp: process_delete_pg_def pg_inv_def)
    next
      case 2
      then show ?thesis using del fin by (auto simp: process_delete_pg_def pg_inv_def Let_def)
    next
      case 3
      then show ?thesis using delete_inv [OF inv] del by simp
    qed
  next
    case (Some ds)
    show ?thesis
    proof (cases "owns_accounts_pg s b ds")
      case False
      then show ?thesis using run Some fin by (auto simp: transaction_body_fresh [OF None] pg_inv_def)
    next
      case True
      then have up: "upsert_body_pg rf c b d m requested ds ?e s = (Inr r, s')"
        using run Some by (simp add: transaction_body_fresh [OF None])
      show ?thesis
      proof (cases "apply_transaction_pg rf c b d m ?e requested ds s = (Inr r, s')")
        case app: True
        show ?thesis by (rule apply_transaction_inv [OF inv app True bal [OF Some] refl])
      next
        case False
        then have "\<exists>x. finish b d x s = (Inr r, s')"
          using up by (auto simp: upsert_body_pg_def split: option.splits if_splits)
        then show ?thesis using fin by (auto simp: pg_inv_def)
      qed
    qed
  qed
  with log show ?thesis by (simp add: pg_inv_def)
qed

lemma process_pg_inv:
  assumes inv: "pg_inv s" and fits: "payload_fits m"
  shows "pg_inv (snd (process_mutation_pg rf c b d m s))"
proof -
  obtain r s' where eq: "process_mutation_pg rf c b d m s = (r, s')" by fastforce
  from eq have "pg_inv s'"
  proof (cases rule: process_mutation_pg_cases)
    case account
    then obtain x where "in_tx (pc_process c) (account_body_pg c b d m) s = (x, s')"
      by (auto simp: process_account_mutation_pg_def split: prod.splits sum.splits)
    then show ?thesis using in_tx_pg_inv [OF inv _ log_bodies(1)] account_body_inv [OF inv] by blast
  next
    case early
    then show ?thesis using inv by simp
  next
    case delete
    then obtain x where "in_tx (pc_process c) (transaction_body_pg rf c b d m None None) s = (x, s')"
      by (cases "in_tx (pc_process c) (transaction_body_pg rf c b d m None None) s") auto
    then show ?thesis using in_tx_pg_inv [OF inv _ log_bodies(2)] transaction_body_inv [OF inv] by blast
  next
    case (upsert requested ds)
    have "length ds < 2 ^ 63" using fits upsert(4) by (simp add: payload_fits_def)
    then have "balanced_spec ds" using upsert(5) by (simp add: validate_balanced_ok_spec)
    then have bal: "entries_ok (map entry_tuple ds)" by (rule entries_ok_drafts)
    obtain x where "in_tx (pc_process c) (transaction_body_pg rf c b d m requested (Some ds)) s = (x, s')"
      using upsert(6) by (cases "in_tx (pc_process c) (transaction_body_pg rf c b d m requested (Some ds)) s") auto
    moreover have "pg_inv s1" if "transaction_body_pg rf c b d m requested (Some ds) s = (Inr z, s1)" for z s1
      using transaction_body_inv [OF inv that] bal by simp
    ultimately show ?thesis using in_tx_pg_inv [OF inv _ log_bodies(2)] by blast
  qed
  then show ?thesis by (simp add: eq)
qed

lemma in_tx_receipt_inv:
  assumes "pg_inv s" and "in_tx fate (insert_receipt_if_absent k v) s = (r, s')"
  shows "pg_inv s'"
proof (rule in_tx_pg_inv [OF assms(1) _ log_stmts(8) assms(2)])
  fix x s1 assume "insert_receipt_if_absent k v s = (Inr x, s1)"
  then have "s1 = s \<or> s1 = s\<lparr>pg_mutations := pg_mutations s @ [(k, v)]\<rparr>"
    by (auto simp: insert_receipt_if_absent_def sql_modify_Inr)
  then show "pg_inv s1"
    using assms(1) rows_inv_cong [of s1 s]
    by (auto simp: pg_inv_def keys_ok_def accounts_map_def log_inv_pg_def)
qed

lemma in_tx_read_inv: "pg_inv s \<Longrightarrow> in_tx fate (sql_get g) s = (r, s') \<Longrightarrow> pg_inv s'"
  by (rule in_tx_pg_inv [where m = "sql_get g"]) (auto simp: log_order.within_basic)

lemma push_step_pg_inv:
  assumes inv: "pg_inv s" and fits: "payload_fits m"
  shows "pg_inv (snd (push_step_pg rf c (b, d, m) s))"
proof -
  let ?k = "(b, d, mut_mutation_id m)"
  obtain x s1 where look: "in_tx (pc_lookup c) (sql_get (\<lambda>s. select_receipt s ?k)) s = (x, s1)" by fastforce
  have s1: "pg_inv s1" using in_tx_read_inv [OF inv look] .
  obtain r s2 where pr: "process_mutation_pg rf c b d m s1 = (r, s2)" by fastforce
  have s2: "pg_inv s2" using process_pg_inv [OF s1 fits, of rf c b d] pr by simp
  obtain y s3 where st: "in_tx (pc_store c) (insert_receipt_if_absent ?k (stored_receipt r)) s2 = (y, s3)" by fastforce
  have "pg_inv s3" using in_tx_receipt_inv [OF s2 st] .
  with s1 show ?thesis
    by (auto simp: push_step_pg_def look pr st split: sum.split option.split)
qed

lemma push_pg_inv:
  assumes "pg_inv s" and "list_all payload_fits (push_mutations req)"
  shows "pg_inv (snd (push_pg rf calls b req s))"
  unfolding push_pg_def
proof (rule push_loop_inv [where P = pg_inv and Q = "\<lambda>(b, d, m). payload_fits m"])
  show "pg_inv (snd (push_step_pg rf c x s))"
    if "pg_inv s" and "case x of (b, d, m) \<Rightarrow> payload_fits m" for c x s
    using that by (cases x) (simp add: push_step_pg_inv)
  show "case x of (b, d, m) \<Rightarrow> payload_fits m"
    if "x \<in> set (map (\<lambda>m. (b, push_device_id req, m)) (push_mutations req))" for x
    using that assms(2) by (auto simp: list_all_iff)
qed (rule assms(1))

text \<open>
  C5. The relational store stays right whatever happens to its transactions. For every fate of every
  transaction of a push (it runs, it is cut off at any point, the reply to its commit is lost), the
  keys are unique and the entries refer to stored transactions, the category tree has two levels, no
  automatic event has two live transactions in one book, every transaction balances over accounts of
  its own book, and the change log is strictly ordered.
\<close>

theorem push_pg_keeps_invariant:
  assumes "pg_inv s" and "list_all payload_fits (push_mutations req)"
  shows "pg_inv (snd (push_pg rf calls b req s))"
  using assms by (rule push_pg_inv)

definition ex_faulty_call :: "nat \<Rightarrow> pg_call" where
  "ex_faulty_call n = (ex_pg_call n)\<lparr>pc_process := (if n = 1 then Aborted 3 else if n = 2 then ReplyLost else Runs)\<rparr>"

lemma ex_pg_inv: "pg_inv ex_pg"
  by (simp add: pg_inv_def keys_ok_def rows_inv_def log_inv_pg_def account_map_ok_def ex_pg_def accounts_map_def)

theorem push_pg_keeps_invariant_witness:
  "pg_inv (snd (push_pg ex_rf ex_faulty_call ''b1'' ex_push ex_pg))"
  by (rule push_pg_keeps_invariant [OF ex_pg_inv]) (simp add: ex_push_def)

end
