(* ===== verification/Sync_Pg_Pull.thy ===== *)
theory Sync_Pg_Pull
  imports Sync_Pg_Inv
begin

section \<open>Pulling from the relational store\<close>

text \<open>
  The relational feed reads at most \<open>limit + 50\<close> rows per request. It interprets \<open>change_feed\<close> under
  the log invariant, so a client that follows its cursors also sees every change once and in order,
  although the numbers have gaps; what the bound costs is the promise about commits
  (\<open>pg_page_splits_commit\<close>).
\<close>

lemma book_rows_sorted:
  assumes "log_inv_pg s"
  shows "sort_key chg_sequence (filter P (pg_changes s)) = filter P (pg_changes s)"
proof (rule sort_key_id_if_sorted)
  show "sorted (map chg_sequence (filter P (pg_changes s)))"
    using assms unfolding log_inv_pg_def sorted_wrt_map
    by (auto intro: sorted_wrt_filter sorted_wrt_mono_rel [of _ "\<lambda>x y. chg_sequence x < chg_sequence y"])
qed

lemma book_rows_pg_log: "log_inv_pg s \<Longrightarrow> book_rows_pg s b = filter (\<lambda>c. chg_book_id c = b) (pg_changes s)"
  by (simp add: book_rows_pg_def book_rows_sorted)

lemma rows_pg_log:
  assumes "log_inv_pg s"
  shows "rows_pg s b cursor limit = take (limit + 50) (filter (\<lambda>c. cursor < chg_sequence c) (book_rows_pg s b))"
  using assms by (simp add: rows_pg_def book_rows_sorted book_rows_pg_log filter_filter conj_commute)

interpretation pg_feed: change_feed book_rows_pg rows_pg chg_sequence chg_commit_id log_inv_pg
proof
  fix s :: pg and b
  assume inv: "log_inv_pg s"
  show "sorted_wrt (<) (map chg_sequence (book_rows_pg s b))"
    using inv by (simp add: book_rows_pg_log log_inv_pg_def sorted_wrt_map sorted_wrt_filter)
  fix cursor :: int and limit :: nat
  show "\<exists>rest. filter (\<lambda>c. cursor < chg_sequence c) (book_rows_pg s b) = rows_pg s b cursor limit @ rest"
    unfolding rows_pg_log [OF inv] by (metis append_take_drop_id)
  show "filter (\<lambda>c. cursor < chg_sequence c) (book_rows_pg s b) = []"
    if "rows_pg s b cursor limit = []" and "0 < limit"
    using that unfolding rows_pg_log [OF inv] by simp
qed

definition pull_request_pg :: "rfc3339 \<Rightarrow> pg \<Rightarrow> string \<Rightarrow> nat option \<Rightarrow> int \<Rightarrow> sync_change_dto list \<times> int \<times> bool" where
  "pull_request_pg rf s book_id limit cursor =
     (let r = pull_pg rf s book_id \<lparr>q_cursor = Some cursor, q_limit = limit\<rparr> in
      (pull_changes r, the (parse_signed 64 (pull_next_cursor r)), pull_has_more r))"

lemma pull_request_pg_page:
  assumes inv: "log_inv_pg s" and seqs: "list_all (\<lambda>c. in_i64 (chg_sequence c)) (pg_changes s)" and cur: "in_i64 cur"
  shows "pull_request_pg rf s b l cur =
    (let p = page_loop chg_commit_id (pull_limit l) 0 None (rows_pg s b cur (pull_limit l));
         n = page_cursor chg_sequence cur p in
     (map (change_dto_pg rf s) p, n, filter (\<lambda>c. n < chg_sequence c) (book_rows_pg s b) \<noteq> []))"
proof -
  let ?p = "page_loop chg_commit_id (pull_limit l) 0 None (rows_pg s b cur (pull_limit l))"
  have last: "in_i64 (chg_sequence (last ?p))" if "?p \<noteq> []"
  proof -
    have "last ?p \<in> set (book_rows_pg s b)" using pg_feed.page_in_log [OF inv] last_in_set [OF that] by blast
    then show ?thesis using seqs by (auto simp: book_rows_pg_def list_all_iff)
  qed
  have more: "0 < length (filter (\<lambda>c. chg_book_id c = b \<and> n < chg_sequence c) (pg_changes s)) \<longleftrightarrow>
      filter (\<lambda>c. n < chg_sequence c) (book_rows_pg s b) \<noteq> []" for n
    by (simp add: book_rows_pg_log [OF inv] filter_filter conj_commute)
  show ?thesis
  proof (cases "?p = []")
    case True
    then show ?thesis
      using cur by (simp add: pull_request_pg_def pull_pg_def Let_def more page_cursor_def parse_int_to_string
          del: length_greater_0_conv)
  next
    case False
    have "parse_signed 64 (dto_sequence (last (map (change_dto_pg rf s) ?p))) = Some (chg_sequence (last ?p))"
      using last [OF False] by (simp add: last_map False change_dto_pg_def Let_def parse_int_to_string)
    with False last [OF False] show ?thesis
      by (simp add: pull_request_pg_def pull_pg_def Let_def more page_cursor_def parse_int_to_string
          del: length_greater_0_conv)
  qed
qed

text \<open>
  C10. The relational feed is complete as well. Following the cursors from 0 with any page size but 0
  ends with \<open>hasMore = false\<close> and has delivered every change of the book exactly once and in order,
  in spite of the gaps that cut-off transactions leave in the numbers and of the bound on the rows
  read per request.
\<close>

theorem pull_pg_drains_book:
  assumes "pg_inv s" and "list_all (\<lambda>c. 0 < chg_sequence c \<and> in_i64 (chg_sequence c)) (pg_changes s)" and "l \<noteq> Some 0"
  shows "drain (pull_request_pg rf s b l) (Suc (length (pg_changes s))) 0 =
    Some (map (change_dto_pg rf s) (filter (\<lambda>c. chg_book_id c = b) (pg_changes s)))"
proof -
  have inv: "log_inv_pg s" using assms(1) by (simp add: pg_inv_def)
  have all: "filter (\<lambda>c. 0 < chg_sequence c) (book_rows_pg s b) = filter (\<lambda>c. chg_book_id c = b) (pg_changes s)"
    using assms(2) by (auto simp: book_rows_pg_log [OF inv] list_all_iff filter_filter intro!: filter_cong)
  have "drain (pull_request_pg rf s b l) (Suc (length (pg_changes s))) 0 =
      Some (map (change_dto_pg rf s) (filter (\<lambda>c. 0 < chg_sequence c) (book_rows_pg s b)))"
  proof (rule pg_feed.drain_complete [OF inv, where limit = "pull_limit l" and ok = in_i64])
    show "0 < pull_limit l" using assms(3) by (cases l) (auto simp: pull_limit_def)
    show "in_i64 (chg_sequence c)" if "c \<in> set (book_rows_pg s b)" for c
      using that assms(2) by (auto simp: book_rows_pg_def list_all_iff)
    show "length (filter (\<lambda>c. 0 < chg_sequence c) (book_rows_pg s b)) < Suc (length (pg_changes s))"
      unfolding all by (simp add: le_imp_less_Suc)
    show "in_i64 0" by (simp add: in_signed_def)
  qed (use assms(2) in \<open>auto intro!: pull_request_pg_page [OF inv] simp: list_all_iff\<close>)
  then show ?thesis by (simp only: all)
qed

definition ex_gap_pg :: pg where
  "ex_gap_pg = ex_pg\<lparr>pg_sequence := 9, pg_changes := [ex_change 2 ''b1'' ''c1'', ex_change 7 ''b1'' ''c2'']\<rparr>"

theorem pull_pg_drains_book_witness:
  "drain (pull_request_pg ex_rf ex_gap_pg ''b1'' (Some 1)) 3 0 =
     Some (map (change_dto_pg ex_rf ex_gap_pg) [ex_change 2 ''b1'' ''c1'', ex_change 7 ''b1'' ''c2''])"
proof -
  have "pg_inv ex_gap_pg"
    by (simp add: pg_inv_def keys_ok_def rows_inv_def log_inv_pg_def account_map_ok_def ex_gap_pg_def ex_pg_def
        accounts_map_def ex_change_def)
  moreover have "length (pg_changes ex_gap_pg) = 2"
    and "filter (\<lambda>c. chg_book_id c = ''b1'') (pg_changes ex_gap_pg) = [ex_change 2 ''b1'' ''c1'', ex_change 7 ''b1'' ''c2'']"
    and "list_all (\<lambda>c. 0 < chg_sequence c \<and> in_i64 (chg_sequence c)) (pg_changes ex_gap_pg)"
    by (simp_all add: ex_gap_pg_def ex_change_def in_signed_def)
  ultimately show ?thesis using pull_pg_drains_book [of ex_gap_pg "Some 1" ex_rf "''b1''"] by simp
qed

text \<open>A commit of more rows than the request reads is split across pages.\<close>

lemma pg_page_splits_commit:
  fixes rows :: "change_record list"
  assumes "0 < limit" and "\<forall>c \<in> set rows. chg_commit_id c = k" and "limit + 50 < length rows"
  shows "page_loop chg_commit_id limit 0 None (take (limit + 50) rows) = take (limit + 50) rows \<and>
    chg_commit_id (rows ! (limit + 50)) = chg_commit_id (last (take (limit + 50) rows))"
proof -
  have all: "page_loop chg_commit_id limit n lc cs = cs"
    if "\<forall>c \<in> set cs. chg_commit_id c = k" and "lc = Some k \<or> n < limit" for n lc and cs :: "change_record list"
    using that
  proof (induction cs arbitrary: n lc)
    case (Cons c cs)
    have "page_loop chg_commit_id limit (Suc n) (Some k) cs = cs" using Cons.IH [of "Some k" "Suc n"] Cons.prems(1) by simp
    moreover have "chg_commit_id c = k" using Cons.prems(1) by simp
    ultimately show ?case using Cons.prems(2) by (cases "limit \<le> n") simp_all
  qed simp
  have "take (limit + 50) rows \<noteq> []" using assms by auto
  then have "last (take (limit + 50) rows) \<in> set rows" by (meson in_set_takeD last_in_set)
  moreover have "rows ! (limit + 50) \<in> set rows" using assms(3) by simp
  moreover have "page_loop chg_commit_id limit 0 None (take (limit + 50) rows) = take (limit + 50) rows"
  proof (rule all)
    show "\<forall>c \<in> set (take (limit + 50) rows). chg_commit_id c = k" using assms(2) by (meson in_set_takeD)
  qed (use assms(1) in simp)
  ultimately show ?thesis using assms(2) by simp
qed


subsection \<open>Writers that overlap\<close>

text \<open>
  Two mutations of one book lock different entities, so their transactions can overlap: a number is
  taken when the row is inserted and the row becomes visible at commit. The second component of a
  state holds the rows of open transactions.
\<close>

inductive overlap :: "pg \<times> change_record list \<Rightarrow> pg \<times> change_record list \<Rightarrow> bool" where
  overlap_refl: "overlap x x"
| overlap_insert: "overlap x (s, waiting) \<Longrightarrow> chg_sequence c = pg_sequence s + 1 \<Longrightarrow>
     overlap x (s\<lparr>pg_sequence := pg_sequence s + 1\<rparr>, waiting @ [c])"
| overlap_commit: "overlap x (s, waiting) \<Longrightarrow> c \<in> set waiting \<Longrightarrow>
     overlap x (s\<lparr>pg_changes := pg_changes s @ [c]\<rparr>, remove1 c waiting)"

lemma overlap_missed_change:
  "\<exists>s1 s2. overlap (ex_pg, []) (s1, [ex_change 1 ''b1'' ''c1'']) \<and>
     overlap (s1, [ex_change 1 ''b1'' ''c1'']) (s2, []) \<and>
     pull_next_cursor (pull_pg ex_rf s1 ''b1'' \<lparr>q_cursor = Some 0, q_limit = None\<rparr>) = ''2'' \<and>
     map dto_sequence (pull_changes (pull_pg ex_rf s1 ''b1'' \<lparr>q_cursor = Some 0, q_limit = None\<rparr>)) = [''2''] \<and>
     ex_change 1 ''b1'' ''c1'' \<in> set (pg_changes s2) \<and>
     pull_changes (pull_pg ex_rf s2 ''b1'' \<lparr>q_cursor = Some 2, q_limit = None\<rparr>) = []"
proof -
  let ?c1 = "ex_change 1 ''b1'' ''c1''" and ?c2 = "ex_change 2 ''b1'' ''c2''"
  let ?a = "ex_pg\<lparr>pg_sequence := 1\<rparr>" and ?b = "ex_pg\<lparr>pg_sequence := 2\<rparr>"
  let ?s1 = "ex_pg\<lparr>pg_sequence := 2, pg_changes := [?c2]\<rparr>"
  let ?s2 = "ex_pg\<lparr>pg_sequence := 2, pg_changes := [?c2, ?c1]\<rparr>"
  have "overlap (ex_pg, []) (?a, [?c1])"
    using overlap_insert [OF overlap_refl [of "(ex_pg, [])"], of ?c1] by (simp add: ex_pg_def ex_change_def)
  then have "overlap (ex_pg, []) (?b, [?c1, ?c2])"
    using overlap_insert [of "(ex_pg, [])" ?a "[?c1]" ?c2] by (simp add: ex_pg_def ex_change_def)
  then have "overlap (ex_pg, []) (?s1, [?c1])"
    using overlap_commit [of "(ex_pg, [])" ?b "[?c1, ?c2]" ?c2] by (simp add: ex_pg_def ex_change_def)
  moreover have "overlap (?s1, [?c1]) (?s2, [])"
    using overlap_commit [OF overlap_refl [of "(?s1, [?c1])"], of ?c1] by (simp add: ex_pg_def)
  moreover have "pull_next_cursor (pull_pg ex_rf ?s1 ''b1'' \<lparr>q_cursor = Some 0, q_limit = None\<rparr>) = ''2''"
    "map dto_sequence (pull_changes (pull_pg ex_rf ?s1 ''b1'' \<lparr>q_cursor = Some 0, q_limit = None\<rparr>)) = [''2'']"
    "pull_changes (pull_pg ex_rf ?s2 ''b1'' \<lparr>q_cursor = Some 2, q_limit = None\<rparr>) = []"
    by code_simp+
  moreover have "?c1 \<in> set (pg_changes ?s2)" by simp
  ultimately show ?thesis by (intro exI [of _ ?s1] exI [of _ ?s2] conjI)
qed

end
