(* ===== verification/Sync_Api.thy ===== *)
theory Sync_Api
  imports Sync_Pg_Pull Sync_Mem_Laws
begin

section \<open>The sync endpoints over both backends\<close>

text \<open>
  \<open>AppState\<close> holds the in-memory store and, when a database is configured, a pool: every handler
  asks \<open>state.pool\<close> and runs on the one or the other. The authorisation queries of authz.rs on the
  database, and the three handlers \<open>push\<close>, \<open>pull\<close> and \<open>bootstrap\<close> with their membership check.
\<close>

datatype backend = Memory memory_store | Postgres pg

definition ensure_session_active_pg :: "pg \<Rightarrow> claims \<Rightarrow> unit api_result" where
  "ensure_session_active_pg s c =
     (if list_ex (\<lambda>r. sr_id r = cl_session_id c \<and> sr_user_id r = cl_sub c \<and> sr_device_id r = cl_device_id c \<and>
           sr_revoked_at r = None) (pg_sessions s)
      then Inr () else Inl (ApiError 401 ''SESSION_REVOKED''))"

definition require_book_member_pg :: "pg \<Rightarrow> string \<Rightarrow> string \<Rightarrow> unit api_result" where
  "require_book_member_pg s user_id book_id =
     (if list_ex (\<lambda>r. mem_book_id r = book_id \<and> mem_user_id r = user_id) (pg_members s) \<or>
         list_ex (\<lambda>b. bk_id b = book_id \<and> bk_owner_id b = user_id) (pg_books s)
      then Inr () else Inl (ApiError 403 ''BOOK_FORBIDDEN''))"

definition user_plan_pg :: "pg \<Rightarrow> string \<Rightarrow> string" where
  "user_plan_pg s user_id =
     (case List.find (\<lambda>r. sub_user_id r = user_id \<and> sub_status r = ''active'') (pg_subscriptions s) of
        Some r \<Rightarrow> sub_plan r | None \<Rightarrow> ''free'')"

fun member_of :: "backend \<Rightarrow> string \<Rightarrow> string \<Rightarrow> unit api_result" where
  "member_of (Memory s) user_id book_id = require_book_member s user_id book_id"
| "member_of (Postgres s) user_id book_id = require_book_member_pg s user_id book_id"

text \<open>What the handlers read from outside, for either backend.\<close>

record sync_env =
  env_calls :: "nat \<Rightarrow> call"
  env_pg_calls :: "nat \<Rightarrow> pg_call"
  env_rfc :: rfc3339

definition push :: "sync_env \<Rightarrow> auth_user \<Rightarrow> string \<Rightarrow> sync_push_request \<Rightarrow> backend \<Rightarrow>
  mutation_receipt_dto list api_result \<times> backend" where
  "push env auth book_id req st =
     (case member_of st (au_user_id auth) book_id of
        Inl e \<Rightarrow> (Inl e, st)
      | Inr _ \<Rightarrow>
          (case st of
             Memory s \<Rightarrow> apsnd Memory (push_mem (env_rfc env) (env_calls env) book_id req s)
           | Postgres s \<Rightarrow> apsnd Postgres (push_pg (env_rfc env) (env_pg_calls env) book_id req s)))"

definition pull :: "sync_env \<Rightarrow> auth_user \<Rightarrow> string \<Rightarrow> pull_query \<Rightarrow> backend \<Rightarrow> sync_pull_response api_result" where
  "pull env auth book_id q st =
     (case member_of st (au_user_id auth) book_id of
        Inl e \<Rightarrow> Inl e
      | Inr _ \<Rightarrow>
          (case st of
             Memory s \<Rightarrow> pull_mem (env_rfc env) s (au_user_id auth) book_id q
           | Postgres s \<Rightarrow> Inr (pull_pg (env_rfc env) s book_id q)))"

definition bootstrap :: "sync_env \<Rightarrow> string \<Rightarrow> auth_user \<Rightarrow> string \<Rightarrow> backend \<Rightarrow> json api_result" where
  "bootstrap env new_id auth book_id st =
     (case member_of st (au_user_id auth) book_id of
        Inl e \<Rightarrow> Inl e
      | Inr _ \<Rightarrow>
          (case st of
             Memory s \<Rightarrow> bootstrap_mem (env_rfc env) new_id s (au_user_id auth) book_id
           | Postgres s \<Rightarrow> bootstrap_pg (env_rfc env) new_id s book_id))"

definition member_spec :: "backend \<Rightarrow> string \<Rightarrow> string \<Rightarrow> bool" where
  "member_spec st u b = (case st of
     Memory s \<Rightarrow> (\<exists>bk. hm_get (books s) b = Some bk \<and> bk_owner_id bk = u)
   | Postgres s \<Rightarrow> (\<exists>r \<in> set (pg_members s). mem_book_id r = b \<and> mem_user_id r = u) \<or>
       (\<exists>bk \<in> set (pg_books s). bk_id bk = b \<and> bk_owner_id bk = u))"

lemma member_of_spec:
  "member_of st u b = (if member_spec st u b then Inr () else Inl (ApiError 403 ''BOOK_FORBIDDEN''))"
  by (cases st) (auto simp: member_spec_def require_book_member_def require_book_member_pg_def list_ex_iff
      split: option.splits)

text \<open>
  Only members sync a book. A user who is neither the owner nor (on the database) a member gets
  403 BOOK_FORBIDDEN from push, pull and bootstrap, whatever the request holds, and a refused push
  leaves the backend exactly as it was.
\<close>

theorem sync_requires_membership:
  assumes "\<not> member_spec st (au_user_id auth) b"
  shows "push env auth b req st = (Inl (ApiError 403 ''BOOK_FORBIDDEN''), st) \<and>
    pull env auth b q st = Inl (ApiError 403 ''BOOK_FORBIDDEN'') \<and>
    bootstrap env new_id auth b st = Inl (ApiError 403 ''BOOK_FORBIDDEN'')"
  using assms by (simp add: push_def pull_def bootstrap_def member_of_spec)

definition ex_env :: sync_env where
  "ex_env = \<lparr>env_calls = ex_call, env_pg_calls = ex_pg_call, env_rfc = ex_rf\<rparr>"

theorem sync_requires_membership_witness:
  "push ex_env \<lparr>au_user_id = ''u2'', au_session_id = ''s'', au_device_id = ''d''\<rparr> ''b1'' ex_push (Postgres ex_pg) =
     (Inl (ApiError 403 ''BOOK_FORBIDDEN''), Postgres ex_pg)"
  using sync_requires_membership [of "Postgres ex_pg" "\<lparr>au_user_id = ''u2'', au_session_id = ''s'', au_device_id = ''d''\<rparr>" "''b1''"]
  by (simp add: member_spec_def ex_pg_def)

end
