(* ===== verification/Audit_Trail.thy ===== *)
theory Audit_Trail
  imports Store_State
begin

section \<open>The audit trail (infrastructure/audit.rs)\<close>

text \<open>
  The events the handlers record, the bounded in-memory trail and its paged query. Encoding of
  metadata is the \<open>serde_json\<close> crate's: the argument \<open>to_vec\<close>, None when encoding fails. The id
  (\<open>Uuid::now_v7()\<close>) and the clock value an event is stored with are arguments. A failed write is
  only counted by the metrics, so \<^term>\<open>record_memory\<close> leaves the store as it is.

  Proved: the trail keeps exactly the newest thousand accepted events, and following
  \<open>next_cursor\<close> from the first page lists every matching event once, newest first.
\<close>

datatype audit_actor = ActorUser | ActorSystem

datatype audit_outcome = Success | Failure | Denied

fun actor_str :: "audit_actor \<Rightarrow> string" where
  "actor_str ActorUser = ''user''"
| "actor_str ActorSystem = ''system''"

fun outcome_str :: "audit_outcome \<Rightarrow> string" where
  "outcome_str Success = ''success''"
| "outcome_str Failure = ''failure''"
| "outcome_str Denied = ''denied''"

record audit_event =
  ev_actor :: audit_actor
  ev_actor_id :: "string option"
  ev_action :: string
  ev_outcome :: audit_outcome
  ev_target_type :: "string option"
  ev_target_id :: "string option"
  ev_request_id :: "string option"
  ev_metadata :: json

definition user_event :: "string \<Rightarrow> string \<Rightarrow> audit_outcome \<Rightarrow> audit_event" where
  "user_event actor_id action outcome =
     \<lparr>ev_actor = ActorUser, ev_actor_id = Some actor_id, ev_action = action, ev_outcome = outcome,
      ev_target_type = None, ev_target_id = None, ev_request_id = None, ev_metadata = json_object []\<rparr>"

definition system_event :: "string \<Rightarrow> audit_outcome \<Rightarrow> audit_event" where
  "system_event action outcome =
     \<lparr>ev_actor = ActorSystem, ev_actor_id = None, ev_action = action, ev_outcome = outcome,
      ev_target_type = None, ev_target_id = None, ev_request_id = None, ev_metadata = json_object []\<rparr>"

definition anonymous_event :: "string \<Rightarrow> audit_outcome \<Rightarrow> audit_event" where
  "anonymous_event action outcome =
     \<lparr>ev_actor = ActorUser, ev_actor_id = None, ev_action = action, ev_outcome = outcome,
      ev_target_type = None, ev_target_id = None, ev_request_id = None, ev_metadata = json_object []\<rparr>"

definition with_target :: "string \<Rightarrow> string \<Rightarrow> audit_event \<Rightarrow> audit_event" where
  "with_target target_type target_id ev =
     ev\<lparr>ev_target_type := Some target_type, ev_target_id := Some target_id\<rparr>"

definition with_request_id :: "string option \<Rightarrow> audit_event \<Rightarrow> audit_event" where
  "with_request_id rid ev = ev\<lparr>ev_request_id := rid\<rparr>"

definition with_metadata :: "json \<Rightarrow> audit_event \<Rightarrow> audit_event" where
  "with_metadata md ev = ev\<lparr>ev_metadata := md\<rparr>"

text \<open>\<open>header\<close> is the value of \<open>x-request-id\<close>, None when it is missing or not visible ASCII.\<close>

definition request_id :: "string option \<Rightarrow> string option" where
  "request_id header = Option.bind header (\<lambda>v. if v \<noteq> [] \<and> length v \<le> 64 then Some v else None)"

definition bounded_metadata :: "(json \<Rightarrow> string option) \<Rightarrow> json \<Rightarrow> json option" where
  "bounded_metadata to_vec md =
     (case to_vec md of
        None \<Rightarrow> None
      | Some bytes \<Rightarrow> if 4096 < length bytes then None else Some md)"

definition audit_row :: "string \<times> timestamp \<Rightarrow> audit_event \<Rightarrow> json \<Rightarrow> audit_event_record" where
  "audit_row = (\<lambda>(rid, now) ev md.
     \<lparr>aud_id = rid, aud_occurred_at = now, aud_actor_type = actor_str (ev_actor ev),
      aud_actor_id = ev_actor_id ev, aud_action = ev_action ev,
      aud_outcome = outcome_str (ev_outcome ev), aud_target_type = ev_target_type ev,
      aud_target_id = ev_target_id ev, aud_request_id = ev_request_id ev, aud_metadata = md\<rparr>)"

text \<open>\<open>push\<close>, then \<open>drain\<close> of what exceeds a thousand from the front.\<close>

definition record_memory ::
  "(json \<Rightarrow> string option) \<Rightarrow> string \<times> timestamp \<Rightarrow> audit_event \<Rightarrow> memory_store \<Rightarrow> memory_store" where
  "record_memory to_vec stamp ev s =
     (case bounded_metadata to_vec (ev_metadata ev) of
        None \<Rightarrow> s
      | Some md \<Rightarrow>
          let events = audit_events s @ [audit_row stamp ev md] in
          s\<lparr>audit_events := (if 1000 < length events then drop (length events - 1000) events else events)\<rparr>)"

subsection \<open>Queries\<close>

record audit_query =
  aq_actor_id :: "string option"
  aq_action :: "string option"
  aq_outcome :: "string option"
  aq_before :: "string option"
  aq_limit :: nat

record audit_event_view =
  av_id :: string
  av_occurred_at :: string
  av_actor_type :: string
  av_actor_id :: "string option"
  av_action :: string
  av_outcome :: string
  av_target_type :: "string option"
  av_target_id :: "string option"
  av_request_id :: "string option"
  av_metadata :: json

record audit_page =
  ap_events :: "audit_event_view list"
  ap_next_cursor :: "string option"

definition none_or :: "'a option \<Rightarrow> ('a \<Rightarrow> bool) \<Rightarrow> bool" where
  "none_or x p = (case x of None \<Rightarrow> True | Some a \<Rightarrow> p a)"

definition audit_matches :: "audit_query \<Rightarrow> audit_event_record \<Rightarrow> bool" where
  "audit_matches q e \<longleftrightarrow>
     none_or (aq_actor_id q) (\<lambda>a. aud_actor_id e = Some a) \<and>
     none_or (aq_action q) (\<lambda>a. aud_action e = a) \<and>
     none_or (aq_outcome q) (\<lambda>a. aud_outcome e = a) \<and>
     none_or (aq_before q) (\<lambda>b. aud_id e < b)"

text \<open>The stable sort by descending id.\<close>

definition newest_first :: "audit_event_record list \<Rightarrow> audit_event_record list" where
  "newest_first es = rev (sort_key aud_id (rev es))"

text \<open>\<open>fmt\<close> is the RFC 3339 rendering, empty when it fails.\<close>

definition audit_view :: "(timestamp \<Rightarrow> string) \<Rightarrow> audit_event_record \<Rightarrow> audit_event_view" where
  "audit_view fmt e =
     \<lparr>av_id = aud_id e, av_occurred_at = fmt (aud_occurred_at e), av_actor_type = aud_actor_type e,
      av_actor_id = aud_actor_id e, av_action = aud_action e, av_outcome = aud_outcome e,
      av_target_type = aud_target_type e, av_target_id = aud_target_id e,
      av_request_id = aud_request_id e, av_metadata = aud_metadata e\<rparr>"

definition page_from_rows ::
  "(timestamp \<Rightarrow> string) \<Rightarrow> audit_event_record list \<Rightarrow> nat \<Rightarrow> audit_page" where
  "page_from_rows fmt rows limit =
     (let has_more = limit < length rows; rows = take limit rows in
      \<lparr>ap_events = map (audit_view fmt) rows,
       ap_next_cursor = (if has_more \<and> rows \<noteq> [] then Some (aud_id (last rows)) else None)\<rparr>)"

definition audit_limit :: "nat \<Rightarrow> nat" where
  "audit_limit n = max 1 (min 200 n)"

definition query_mem :: "(timestamp \<Rightarrow> string) \<Rightarrow> memory_store \<Rightarrow> audit_query \<Rightarrow> audit_page" where
  "query_mem fmt s q =
     (let limit = audit_limit (aq_limit q);
          events = newest_first (filter (audit_matches q) (audit_events s)) in
      page_from_rows fmt (take (limit + 1) events) limit)"

text \<open>A client that passes \<open>next_cursor\<close> as \<open>before\<close> until there is none.\<close>

fun audit_follow :: "nat \<Rightarrow> (timestamp \<Rightarrow> string) \<Rightarrow> memory_store \<Rightarrow> audit_query \<Rightarrow>
    audit_event_view list option" where
  "audit_follow 0 fmt s q = None"
| "audit_follow (Suc fuel) fmt s q =
     (let page = query_mem fmt s q in
      case ap_next_cursor page of
        None \<Rightarrow> Some (ap_events page)
      | Some c \<Rightarrow> map_option ((@) (ap_events page)) (audit_follow fuel fmt s (q\<lparr>aq_before := Some c\<rparr>)))"

subsection \<open>The trail is the newest thousand events\<close>

definition newest :: "nat \<Rightarrow> 'a list \<Rightarrow> 'a list" where
  "newest n xs = drop (length xs - n) xs"

definition accepted_rows ::
  "(json \<Rightarrow> string option) \<Rightarrow> ((string \<times> timestamp) \<times> audit_event) list \<Rightarrow> audit_event_record list" where
  "accepted_rows to_vec evs =
     List.map_filter (\<lambda>(stamp, ev).
       map_option (audit_row stamp ev) (bounded_metadata to_vec (ev_metadata ev))) evs"

lemma newest_snoc: "newest n (newest n xs @ [x]) = newest n (xs @ [x])" if "0 < n"
  using that by (cases "length xs \<le> n") (auto simp: newest_def Suc_diff_le)

lemma newest_newest_append: "0 < n \<Longrightarrow> newest n (newest n xs @ ys) = newest n (xs @ ys)"
proof (induction ys arbitrary: xs)
  case Nil
  then show ?case by (simp add: newest_def)
next
  case (Cons y ys)
  have "newest n ((newest n xs @ [y]) @ ys) = newest n (newest n (newest n xs @ [y]) @ ys)"
    using Cons by simp
  also have "\<dots> = newest n (newest n (xs @ [y]) @ ys)" using Cons.prems by (simp add: newest_snoc)
  also have "\<dots> = newest n ((xs @ [y]) @ ys)" using Cons by blast
  finally show ?case by simp
qed

lemma record_memory_events:
  "audit_events (record_memory to_vec stamp ev s) =
     (if bounded_metadata to_vec (ev_metadata ev) = None then audit_events s
      else newest 1000 (audit_events s @ accepted_rows to_vec [(stamp, ev)]))"
  by (auto simp: record_memory_def Let_def newest_def accepted_rows_def map_filter_simps split: option.splits)

lemma record_memory_other [simp]:
  "users (record_memory to_vec stamp ev s) = users s"
  "users_by_email (record_memory to_vec stamp ev s) = users_by_email s"
  "sessions (record_memory to_vec stamp ev s) = sessions s"
  "refresh_to_session (record_memory to_vec stamp ev s) = refresh_to_session s"
  "books (record_memory to_vec stamp ev s) = books s"
  "accounts (record_memory to_vec stamp ev s) = accounts s"
  "transactions (record_memory to_vec stamp ev s) = transactions s"
  "mutations (record_memory to_vec stamp ev s) = mutations s"
  "changes (record_memory to_vec stamp ev s) = changes s"
  "budgets (record_memory to_vec stamp ev s) = budgets s"
  "invites (record_memory to_vec stamp ev s) = invites s"
  "subscriptions (record_memory to_vec stamp ev s) = subscriptions s"
  "fx_rates (record_memory to_vec stamp ev s) = fx_rates s"
  "revisions (record_memory to_vec stamp ev s) = revisions s"
  "attachments (record_memory to_vec stamp ev s) = attachments s"
  by (simp_all add: record_memory_def Let_def split: option.splits)

lemma newest_small: "length xs \<le> n \<Longrightarrow> newest n xs = xs"
  by (simp add: newest_def)

text \<open>
  The in-memory audit trail is bounded and never loses a recent event: after any sequence of
  events it holds exactly the newest thousand of what it held and of the events whose metadata is
  within 4096 bytes, in the order they were recorded.
\<close>

theorem audit_trail_newest:
  assumes "length (audit_events s) \<le> 1000"
  shows "audit_events (fold (\<lambda>(stamp, ev). record_memory to_vec stamp ev) evs s) =
           newest 1000 (audit_events s @ accepted_rows to_vec evs)"
  using assms
proof (induction evs arbitrary: s)
  case Nil
  then show ?case by (simp add: newest_small accepted_rows_def map_filter_simps)
next
  case (Cons e evs)
  obtain stamp ev where e: "e = (stamp, ev)" by fastforce
  let ?s = "record_memory to_vec stamp ev s"
  let ?new = "accepted_rows to_vec [(stamp, ev)]"
  have split: "accepted_rows to_vec (e # evs) = ?new @ accepted_rows to_vec evs"
    by (simp add: accepted_rows_def map_filter_simps e split: option.splits)
  have ev: "audit_events ?s = newest 1000 (audit_events s @ ?new)"
    using Cons.prems
    by (auto simp: record_memory_events accepted_rows_def map_filter_simps newest_small)
  then have "length (audit_events ?s) \<le> 1000" by (simp add: newest_def)
  then have "audit_events (fold (\<lambda>(stamp, ev). record_memory to_vec stamp ev) evs ?s) =
      newest 1000 (audit_events ?s @ accepted_rows to_vec evs)" by (rule Cons.IH)
  also have "\<dots> = newest 1000 (audit_events s @ accepted_rows to_vec (e # evs))"
    unfolding ev split by (simp add: newest_newest_append)
  finally show ?case by (simp add: e)
qed

definition ex_audit_event :: audit_event where
  "ex_audit_event = with_target ''user'' ''u1'' (user_event ''u1'' ''auth.login'' Success)"

theorem audit_trail_newest_witness:
  "audit_events (fold (\<lambda>(stamp, ev). record_memory (\<lambda>_. Some ''{}'') stamp ev)
      [((''a1'', 5), ex_audit_event)] empty_store) =
     newest 1000 [audit_row (''a1'', 5) ex_audit_event (json_object [])]"
proof -
  have "length (audit_events empty_store) \<le> 1000" by (simp add: empty_store_def)
  from audit_trail_newest [OF this, of "\<lambda>_. Some ''{}''" "[((''a1'', 5), ex_audit_event)]"]
  show ?thesis
    by (simp add: empty_store_def accepted_rows_def map_filter_simps bounded_metadata_def
        ex_audit_event_def with_target_def user_event_def)
qed

subsection \<open>Pages cover the trail\<close>

lemma newest_first_filter: "newest_first (filter p es) = filter p (newest_first es)"
  by (simp add: newest_first_def rev_filter [symmetric] filter_sort)

lemma newest_first_decreasing:
  assumes "distinct (map aud_id es)"
  shows "sorted_wrt (\<lambda>a b. aud_id b < aud_id a) (newest_first es)"
proof -
  have "distinct (map aud_id (sort_key aud_id (rev es)))"
    using assms by (simp add: distinct_map rev_map)
  then have "sorted_wrt (<) (map aud_id (sort_key aud_id (rev es)))"
    by (simp add: strict_sorted_iff)
  then show ?thesis by (simp add: newest_first_def sorted_wrt_rev sorted_wrt_map)
qed

lemma drop_by_cursor:
  assumes "sorted_wrt (\<lambda>a b. aud_id b < aud_id a) L" and "0 < n" and "n < length L"
  shows "filter (\<lambda>e. aud_id e < aud_id (last (take n L))) L = drop n L"
proof -
  have c: "last (take n L) = L ! (n - 1)" using assms(2,3) by (subst last_conv_nth) auto
  have tk: "filter (\<lambda>e. aud_id e < aud_id (L ! (n - 1))) (take n L) = []"
  proof -
    have "\<not> aud_id (L ! i) < aud_id (L ! (n - 1))" if "i < n" for i
      using sorted_wrt_nth_less [OF assms(1), of i "n - 1"] that assms(3)
      by (cases "i = n - 1") (auto simp: not_less less_imp_le)
    then show ?thesis using assms(3) by (auto simp: filter_empty_conv in_set_conv_nth)
  qed
  have dr: "filter (\<lambda>e. aud_id e < aud_id (L ! (n - 1))) (drop n L) = drop n L"
  proof (rule filter_True, rule ballI)
    fix e assume "e \<in> set (drop n L)"
    then obtain i where "i < length L - n" "e = L ! (n + i)" by (auto simp: in_set_conv_nth)
    then show "aud_id e < aud_id (L ! (n - 1))"
      using sorted_wrt_nth_less [OF assms(1), of "n - 1" "n + i"] assms(2) by simp
  qed
  have "filter p L = filter p (take n L) @ filter p (drop n L)" for p
    by (metis append_take_drop_id filter_append)
  then show ?thesis unfolding c using tk dr by simp
qed

definition audit_listing :: "memory_store \<Rightarrow> audit_query \<Rightarrow> audit_event_record list" where
  "audit_listing s q = newest_first (filter (audit_matches q) (audit_events s))"

lemma audit_limit_pos [simp]: "0 < audit_limit n"
  by (simp add: audit_limit_def)

lemma query_mem_page:
  "ap_events (query_mem fmt s q) = map (audit_view fmt) (take (audit_limit (aq_limit q)) (audit_listing s q))"
  "ap_next_cursor (query_mem fmt s q) =
     (if audit_limit (aq_limit q) < length (audit_listing s q)
      then Some (aud_id (last (take (audit_limit (aq_limit q)) (audit_listing s q)))) else None)"
  using audit_limit_pos [of "aq_limit q"]
  by (auto simp: query_mem_def page_from_rows_def Let_def audit_listing_def min_def)

lemma audit_listing_after:
  assumes "distinct (map aud_id (audit_events s))" and "n < length (audit_listing s q)" and "0 < n"
  shows "audit_listing s (q\<lparr>aq_before := Some (aud_id (last (take n (audit_listing s q))))\<rparr>) =
    drop n (audit_listing s q)"
proof -
  let ?c = "aud_id (last (take n (audit_listing s q)))"
  have "last (take n (audit_listing s q)) \<in> set (audit_listing s q)"
    using assms(2,3) by (intro in_set_takeD [OF last_in_set]) auto
  then have "audit_matches q (last (take n (audit_listing s q)))"
    by (auto simp: audit_listing_def newest_first_def)
  then have "aud_id e < ?c \<Longrightarrow> none_or (aq_before q) (\<lambda>b. aud_id e < b)" for e
    by (auto simp: audit_matches_def none_or_def split: option.splits)
  then have m: "audit_matches (q\<lparr>aq_before := Some ?c\<rparr>) = (\<lambda>e. audit_matches q e \<and> aud_id e < ?c)"
    by (auto simp: audit_matches_def none_or_def fun_eq_iff)
  have "audit_listing s (q\<lparr>aq_before := Some ?c\<rparr>) = filter (\<lambda>e. aud_id e < ?c) (audit_listing s q)"
    unfolding audit_listing_def [of s "q\<lparr>aq_before := Some ?c\<rparr>"] m
    by (simp add: audit_listing_def newest_first_filter conj_commute)
  also have "\<dots> = drop n (audit_listing s q)"
  proof (rule drop_by_cursor [OF _ assms(3,2)])
    have "sorted_wrt (\<lambda>a b. aud_id b < aud_id a) (newest_first (audit_events s))"
      by (rule newest_first_decreasing [OF assms(1)])
    then show "sorted_wrt (\<lambda>a b. aud_id b < aud_id a) (audit_listing s q)"
      by (simp add: audit_listing_def newest_first_filter sorted_wrt_filter)
  qed
  finally show ?thesis .
qed

text \<open>
  Paging through the audit trail is complete: when event ids are distinct, a client that passes
  \<open>next_cursor\<close> on as \<open>before\<close> ends after at most as many requests as there are matching events,
  plus one, and has then read every matching event exactly once, newest first, whatever limit it
  asks for.
\<close>

theorem audit_pages_complete:
  assumes "distinct (map aud_id (audit_events s))" and "length (audit_listing s q) < fuel"
  shows "audit_follow fuel fmt s q = Some (map (audit_view fmt) (audit_listing s q))"
  using assms(2)
proof (induction fuel arbitrary: q)
  case 0
  then show ?case by simp
next
  case (Suc fuel)
  let ?n = "audit_limit (aq_limit q)" and ?L = "audit_listing s q"
  show ?case
  proof (cases "?n < length ?L")
    case False
    then show ?thesis by (simp add: query_mem_page)
  next
    case True
    let ?q = "q\<lparr>aq_before := Some (aud_id (last (take ?n ?L)))\<rparr>"
    have rest: "audit_listing s ?q = drop ?n ?L"
      by (rule audit_listing_after [OF assms(1) True audit_limit_pos])
    then have "length (audit_listing s ?q) < fuel"
      using Suc.prems True audit_limit_pos [of "aq_limit q"] by (simp only: rest length_drop)
    from Suc.IH [OF this] True show ?thesis
      by (simp add: query_mem_page rest flip: map_append)
  qed
qed

definition ex_audit_store :: memory_store where
  "ex_audit_store = fold (\<lambda>(stamp, ev). record_memory (\<lambda>_. Some ''{}'') stamp ev)
     [((''a1'', 5), ex_audit_event), ((''a2'', 6), ex_audit_event), ((''a3'', 7), ex_audit_event)] empty_store"

definition ex_audit_query :: audit_query where
  "ex_audit_query = \<lparr>aq_actor_id = Some ''u1'', aq_action = None, aq_outcome = Some ''success'',
     aq_before = None, aq_limit = 0\<rparr>"

theorem audit_pages_complete_witness:
  "map_option (map av_id) (audit_follow 4 (\<lambda>_. []) ex_audit_store ex_audit_query) =
     Some [''a3'', ''a2'', ''a1'']"
proof -
  have d: "distinct (map aud_id (audit_events ex_audit_store))"
    and n: "length (audit_listing ex_audit_store ex_audit_query) < 4"
    and l: "map aud_id (audit_listing ex_audit_store ex_audit_query) = [''a3'', ''a2'', ''a1'']"
    by code_simp+
  from l have "map (av_id \<circ> audit_view fmt) (audit_listing ex_audit_store ex_audit_query) = [''a3'', ''a2'', ''a1'']" for fmt
    by (simp add: audit_view_def comp_def)
  then show ?thesis using audit_pages_complete [OF d n, of "\<lambda>_. []"] by simp
qed

end
