(* ===== verification/Auth.thy ===== *)
theory Auth
  imports Audit_Trail Authz
begin

section \<open>Accounts of users, sessions and refresh tokens (transport/http/auth.rs)\<close>

text \<open>
  Registration, login, rotation of refresh tokens and logout over the in-memory store, with the
  validators of their inputs. What the source takes from other crates is a field of \<open>auth_env\<close>:
  Argon2 hashing and verification, SHA-256 of a token, EdDSA encoding of claims, JSON encoding.
  What one request reads from outside (fresh ids, random bytes, clocks) is a field of \<open>auth_call\<close>.
  A \<open>CookieJar\<close> is read for one cookie and collects the cookies to set, so it is the value of the
  request's cookie and the list of cookies of the response.
\<close>

record register_request =
  rq_email :: string
  rq_password :: string
  rq_display_name :: string

datatype session_mode = Cookie | Unsupported

record login_request =
  lq_email :: string
  lq_password :: string
  lq_device_id :: string
  lq_device_name :: "string option"
  lq_session_mode :: "session_mode option"

record refresh_request =
  rf_refresh_token :: "string option"
  rf_session_mode :: "session_mode option"

record token_response =
  tk_access_token :: string
  tk_refresh_token :: "string option"
  tk_token_type :: string
  tk_expires_in :: nat
  tk_book_id :: "string option"
  tk_plan :: "string option"

record auth_env =
  ae_hash_password :: "string \<Rightarrow> string \<Rightarrow> string option"
  ae_verify_password :: "string \<Rightarrow> string \<Rightarrow> bool"
  ae_hash_token :: "string \<Rightarrow> string"
  ae_encode :: "claims \<Rightarrow> string option"
  ae_to_vec :: "json \<Rightarrow> string option"
  ae_cookie_secure :: bool

record auth_call =
  ac_salt :: string
  ac_user_id :: string
  ac_session_id :: string
  ac_book_id :: string
  ac_random_token :: string
  ac_unix_now :: int
  ac_stamp :: "string \<times> timestamp"
  ac_request_id :: "string option"

subsection \<open>Validation\<close>

definition valid_email_local_byte :: "char \<Rightarrow> bool" where
  "valid_email_local_byte b \<longleftrightarrow> is_ascii_alphanumeric b \<or>
     b \<in> {CHR ''!'', CHR 0x23, CHR ''$'', CHR ''%'', CHR ''&'', CHR 0x27, CHR ''*'', CHR ''+'', CHR ''-'',
       CHR ''/'', CHR ''='', CHR ''?'', CHR ''^'', CHR ''_'', CHR 0x60, CHR ''{'', CHR ''|'', CHR ''}'',
       CHR ''~'', CHR ''.''}"

definition valid_domain_label :: "string \<Rightarrow> bool" where
  "valid_domain_label label \<longleftrightarrow>
     label \<noteq> [] \<and> length label \<le> 63 \<and> hd label \<noteq> CHR ''-'' \<and> last label \<noteq> CHR ''-'' \<and>
     list_all (\<lambda>b. is_ascii_alphanumeric b \<or> b = CHR ''-'') label"

definition valid_email :: "string \<Rightarrow> bool" where
  "valid_email email \<longleftrightarrow>
     \<not> (email = [] \<or> 254 < length email \<or> \<not> is_ascii email) \<and>
     (case split_on (CHR ''@'') email of
        [local_part, domain] \<Rightarrow>
          \<not> (local_part = [] \<or> 64 < length local_part \<or> hd local_part = CHR ''.'' \<or>
             last local_part = CHR ''.'' \<or> contains_str ''..'' local_part \<or>
             \<not> list_all valid_email_local_byte local_part \<or> CHR ''.'' \<notin> set domain) \<and>
          list_all valid_domain_label (split_on (CHR ''.'') domain)
      | _ \<Rightarrow> False)"

definition normalize_email :: "string \<Rightarrow> string api_result" where
  "normalize_email value =
     (let email = to_ascii_lowercase (trim value) in
      if \<not> valid_email email then Inl (ApiError 422 ''INVALID_EMAIL'') else Inr email)"

definition validate_registration :: "register_request \<Rightarrow> register_request api_result" where
  "validate_registration req =
     (case normalize_email (rq_email req) of
        Inl e \<Rightarrow> Inl e
      | Inr email \<Rightarrow>
          let password_length = chars_count (rq_password req) in
          if \<not> (8 \<le> password_length \<and> password_length \<le> 128) then Inl (ApiError 422 ''WEAK_PASSWORD'')
          else
            let display_name = trim (rq_display_name req); n = chars_count display_name in
            if \<not> (1 \<le> n \<and> n \<le> 80) \<or> has_control display_name
            then Inl (ApiError 422 ''INVALID_DISPLAY_NAME'')
            else Inr (req\<lparr>rq_email := email, rq_display_name := display_name\<rparr>))"

definition validate_login :: "login_request \<Rightarrow> login_request api_result" where
  "validate_login req =
     (case normalize_email (lq_email req) of
        Inl e \<Rightarrow> Inl e
      | Inr email \<Rightarrow>
          let device_id = trim (lq_device_id req) in
          if 128 < chars_count (lq_password req) then Inl (ApiError 422 ''INVALID_PASSWORD'')
          else
            let n = chars_count device_id in
            if \<not> (1 \<le> n \<and> n \<le> 128) \<or> has_control device_id then Inl (ApiError 422 ''INVALID_DEVICE_ID'')
            else Inr (req\<lparr>lq_email := email, lq_device_id := device_id\<rparr>))"

fun uses_cookie_session :: "session_mode option \<Rightarrow> bool api_result" where
  "uses_cookie_session None = Inr False"
| "uses_cookie_session (Some Cookie) = Inr True"
| "uses_cookie_session (Some Unsupported) = Inl (ApiError 400 ''UNSUPPORTED_SESSION_MODE'')"

definition valid_refresh_token :: "string \<Rightarrow> bool" where
  "valid_refresh_token token \<longleftrightarrow> length token = 64 \<and> list_all is_ascii_hexdigit token"

subsection \<open>Cookies\<close>

record cookie =
  ck_name :: string
  ck_value :: string
  ck_path :: string
  ck_http_only :: bool
  ck_secure :: bool
  ck_same_site :: string
  ck_max_age :: int
  ck_expires :: "timestamp option"

text \<open>\<open>max_age\<close> is in seconds.\<close>

definition add_refresh_cookie :: "auth_env \<Rightarrow> string \<Rightarrow> cookie" where
  "add_refresh_cookie env value =
     \<lparr>ck_name = ''ledgerly_refresh'', ck_value = value, ck_path = ''/v1/auth'', ck_http_only = True,
      ck_secure = ae_cookie_secure env, ck_same_site = ''Strict'', ck_max_age = 30 * 24 * 3600,
      ck_expires = None\<rparr>"

definition clear_refresh_cookie :: "auth_env \<Rightarrow> cookie" where
  "clear_refresh_cookie env =
     \<lparr>ck_name = ''ledgerly_refresh'', ck_value = [], ck_path = ''/v1/auth'', ck_http_only = True,
      ck_secure = ae_cookie_secure env, ck_same_site = ''Strict'', ck_max_age = 0,
      ck_expires = Some 0\<rparr>"

text \<open>The refresh token leaves the body and becomes a cookie in cookie mode (\<open>take\<close>).\<close>

definition finish_refresh :: "auth_env \<Rightarrow> bool \<Rightarrow> token_response \<Rightarrow> cookie list \<times> token_response" where
  "finish_refresh env cookie_mode tokens =
     (if \<not> cookie_mode then ([], tokens)
      else (case tk_refresh_token tokens of
              Some r \<Rightarrow> ([add_refresh_cookie env r], tokens\<lparr>tk_refresh_token := None\<rparr>)
            | None \<Rightarrow> ([], tokens)))"

definition refresh_error_response :: "auth_env \<Rightarrow> bool \<Rightarrow> api_error \<Rightarrow> cookie list \<times> api_error" where
  "refresh_error_response env cookie_mode error =
     (if cookie_mode \<and> err_status error = 401 then ([clear_refresh_cookie env], error) else ([], error))"

subsection \<open>Issuing tokens\<close>

definition build_token_response ::
  "auth_env \<Rightarrow> int \<Rightarrow> string \<Rightarrow> string \<Rightarrow> string \<Rightarrow> string \<Rightarrow> token_response api_result" where
  "build_token_response env now user_id device_id session_id refresh =
     (let exp = nat ((now + 900) mod 2 ^ 64);
          c = \<lparr>cl_sub = user_id, cl_session_id = session_id, cl_device_id = device_id,
               cl_token_version = 1, cl_exp = exp\<rparr> in
      case ae_encode env c of
        None \<Rightarrow> Inl (ApiError 500 ''TOKEN_ENCODING_FAILED'')
      | Some access \<Rightarrow>
          Inr \<lparr>tk_access_token = access, tk_refresh_token = Some refresh, tk_token_type = ''Bearer'',
               tk_expires_in = 900, tk_book_id = None, tk_plan = None\<rparr>)"

definition issue_tokens ::
  "auth_env \<Rightarrow> auth_call \<Rightarrow> string \<Rightarrow> string \<Rightarrow> memory_store \<Rightarrow> token_response api_result \<times> memory_store" where
  "issue_tokens env c user_id device_id s =
     (let session_id = ac_session_id c; refresh = ac_random_token c;
          refresh_hash = ae_hash_token env refresh in
      case build_token_response env (ac_unix_now c) user_id device_id session_id refresh of
        Inl e \<Rightarrow> (Inl e, s)
      | Inr tokens \<Rightarrow>
          (Inr tokens,
           s\<lparr>sessions := hm_insert session_id
                \<lparr>ses_id = session_id, ses_user_id = user_id, ses_device_id = device_id,
                 ses_refresh_hash = refresh_hash, ses_revoked = False\<rparr> (sessions s),
             refresh_to_session := hm_insert refresh_hash session_id (refresh_to_session s),
             subscriptions := (if hm_contains (subscriptions s) user_id then subscriptions s
                else hm_insert user_id ''free'' (subscriptions s))\<rparr>))"

subsection \<open>Handlers\<close>

definition audit :: "auth_env \<Rightarrow> auth_call \<Rightarrow> audit_event \<Rightarrow> memory_store \<Rightarrow> memory_store" where
  "audit env c ev = record_memory (ae_to_vec env) (ac_stamp c) (with_request_id (request_id (ac_request_id c)) ev)"

definition failed_because :: "string \<Rightarrow> audit_event \<Rightarrow> audit_event" where
  "failed_because reason = with_metadata (json_object [(''reason'', JString reason)])"

definition revoke_session :: "string \<Rightarrow> memory_store \<Rightarrow> memory_store" where
  "revoke_session session_id s =
     (case hm_get (sessions s) session_id of
        None \<Rightarrow> s
      | Some session \<Rightarrow> s\<lparr>sessions := hm_insert session_id (session\<lparr>ses_revoked := True\<rparr>) (sessions s)\<rparr>)"

definition logout :: "auth_env \<Rightarrow> auth_call \<Rightarrow> auth_user \<Rightarrow> memory_store \<Rightarrow> cookie list \<times> memory_store" where
  "logout env c auth s =
     ([clear_refresh_cookie env],
      audit env c (user_event (au_user_id auth) ''auth.logout'' Success)
        (revoke_session (au_session_id auth) s))"

definition register ::
  "auth_env \<Rightarrow> auth_call \<Rightarrow> register_request \<Rightarrow> memory_store \<Rightarrow> string api_result \<times> memory_store" where
  "register env c req0 s =
     (case validate_registration req0 of
        Inl e \<Rightarrow> (Inl e, s)
      | Inr req \<Rightarrow>
          (case ae_hash_password env (ac_salt c) (rq_password req) of
             None \<Rightarrow> (Inl (ApiError 500 ''PASSWORD_HASH_FAILED''), s)
           | Some hash \<Rightarrow>
               let uid = ac_user_id c in
               if hm_contains (users_by_email s) (rq_email req)
               then (Inl (ApiError 409 ''EMAIL_TAKEN''),
                     audit env c (failed_because ''email_taken'' (anonymous_event ''auth.register'' Failure)) s)
               else
                 (Inr uid,
                  audit env c (with_target ''user'' uid (user_event uid ''auth.register'' Success))
                    (s\<lparr>users_by_email := hm_insert (rq_email req) uid (users_by_email s),
                      users := hm_insert uid \<lparr>usr_id = uid, usr_email = rq_email req,
                        usr_password_hash = hash, usr_display_name = rq_display_name req\<rparr> (users s)\<rparr>))))"

text \<open>Login: what happens once the credentials are accepted.\<close>

definition grant :: "auth_env \<Rightarrow> auth_call \<Rightarrow> string \<Rightarrow> string \<Rightarrow> string \<Rightarrow> memory_store \<Rightarrow>
    token_response api_result \<times> memory_store" where
  "grant env c action user_id device_id s =
     (let (book_id, s1) = ensure_demo_book (ac_book_id c) s user_id in
      case issue_tokens env c user_id device_id s1 of
        (Inl e, s2) \<Rightarrow> (Inl e, s2)
      | (Inr tokens, s2) \<Rightarrow>
          (Inr (tokens\<lparr>tk_book_id := Some book_id, tk_plan := Some (user_plan s2 user_id)\<rparr>),
           audit env c (with_target ''user'' user_id (user_event user_id action Success)) s2))"

definition login :: "auth_env \<Rightarrow> auth_call \<Rightarrow> login_request \<Rightarrow> memory_store \<Rightarrow>
    (cookie list \<times> token_response) api_result \<times> memory_store" where
  "login env c req0 s =
     (let refuse = (Inl (ApiError 401 ''INVALID_CREDENTIALS''),
            audit env c (failed_because ''invalid_credentials'' (anonymous_event ''auth.login'' Failure)) s) in
      case validate_login req0 of
        Inl e \<Rightarrow> (Inl e, s)
      | Inr req \<Rightarrow>
          (case uses_cookie_session (lq_session_mode req) of
             Inl e \<Rightarrow> (Inl e, s)
           | Inr cookie_mode \<Rightarrow>
               (case Option.bind (hm_get (users_by_email s) (lq_email req)) (hm_get (users s)) of
                  None \<Rightarrow> refuse
                | Some user \<Rightarrow>
                    if \<not> ae_verify_password env (lq_password req) (usr_password_hash user) then refuse
                    else apfst (map_sum (\<lambda>e. e) (finish_refresh env cookie_mode))
                           (grant env c ''auth.login'' (usr_id user) (lq_device_id req) s))))"

definition rotate_refresh_token ::
  "auth_env \<Rightarrow> auth_call \<Rightarrow> string \<Rightarrow> memory_store \<Rightarrow> token_response api_result \<times> memory_store" where
  "rotate_refresh_token env c hash s =
     (case hm_get (refresh_to_session s) hash of
        None \<Rightarrow>
          (Inl (ApiError 401 ''INVALID_REFRESH''),
           audit env c (failed_because ''invalid_refresh'' (anonymous_event ''auth.refresh'' Failure)) s)
      | Some session_id \<Rightarrow>
          let s1 = s\<lparr>refresh_to_session := hm_remove hash (refresh_to_session s)\<rparr> in
          (case hm_get (sessions s1) session_id of
             None \<Rightarrow> (Inl (ApiError 401 ''INVALID_REFRESH''), s1)
           | Some session \<Rightarrow>
               let s2 = revoke_session session_id s1 in
               if ses_revoked session \<or> ses_refresh_hash session \<noteq> hash
               then (Inl (ApiError 401 ''REFRESH_REUSE''),
                     audit env c (failed_because ''refresh_reuse''
                       (user_event (ses_user_id session) ''auth.refresh'' Failure)) s2)
               else grant env c ''auth.refresh'' (ses_user_id session) (ses_device_id session) s2))"

text \<open>\<open>jar\<close> is the value of the cookie \<open>ledgerly_refresh\<close> of the request.\<close>

definition refresh_credential ::
  "auth_env \<Rightarrow> string option \<Rightarrow> refresh_request \<Rightarrow> bool \<Rightarrow> (cookie list \<times> api_error) + string" where
  "refresh_credential env jar req cookie_mode =
     (if cookie_mode then
        if rf_refresh_token req \<noteq> None then Inl ([], ApiError 400 ''MIXED_REFRESH_CREDENTIALS'')
        else (case jar of
                Some token \<Rightarrow> Inr token
              | None \<Rightarrow> Inl (refresh_error_response env True (ApiError 401 ''INVALID_REFRESH'')))
      else (case rf_refresh_token req of
              Some token \<Rightarrow> Inr token
            | None \<Rightarrow> Inl ([], ApiError 400 ''MISSING_REFRESH_CREDENTIAL'')))"

definition refresh :: "auth_env \<Rightarrow> auth_call \<Rightarrow> string option \<Rightarrow> refresh_request \<Rightarrow> memory_store \<Rightarrow>
    ((cookie list \<times> api_error) + (cookie list \<times> token_response)) \<times> memory_store" where
  "refresh env c jar req s =
     (case uses_cookie_session (rf_session_mode req) of
        Inl e \<Rightarrow> (Inl ([], e), s)
      | Inr cookie_mode \<Rightarrow>
          (case refresh_credential env jar req cookie_mode of
             Inl e \<Rightarrow> (Inl e, s)
           | Inr refresh_token \<Rightarrow>
               if \<not> valid_refresh_token refresh_token
               then (Inl (refresh_error_response env cookie_mode (ApiError 401 ''INVALID_REFRESH'')),
                     audit env c (failed_because ''invalid_refresh'' (anonymous_event ''auth.refresh'' Failure)) s)
               else apfst (map_sum (refresh_error_response env cookie_mode) (finish_refresh env cookie_mode))
                      (rotate_refresh_token env c (ae_hash_token env refresh_token) s)))"

subsection \<open>What the handlers leave alone\<close>

text \<open>The part of the store these handlers share; a step of any other handler keeps it.\<close>

definition same_auth :: "memory_store \<Rightarrow> memory_store \<Rightarrow> bool" where
  "same_auth s s' \<longleftrightarrow> users s' = users s \<and> users_by_email s' = users_by_email s \<and>
     sessions s' = sessions s \<and> refresh_to_session s' = refresh_to_session s"

lemma same_auth_refl [simp]: "same_auth s s"
  by (simp add: same_auth_def)

lemma same_auth_audit [simp]: "same_auth s (audit env c ev s)"
  by (simp add: same_auth_def audit_def)

lemma audit_sel [simp]:
  "users (audit env c ev s) = users s" "users_by_email (audit env c ev s) = users_by_email s"
  "sessions (audit env c ev s) = sessions s"
  "refresh_to_session (audit env c ev s) = refresh_to_session s"
  by (simp_all add: audit_def)

lemma seed_account_other [simp]:
  "users (seed_account b d s) = users s" "users_by_email (seed_account b d s) = users_by_email s"
  "sessions (seed_account b d s) = sessions s"
  "refresh_to_session (seed_account b d s) = refresh_to_session s"
  by (simp_all add: seed_account_def Let_def split: prod.splits)

lemma seed_fold_other:
  "users (fold (seed_account b) ds s) = users s"
  "users_by_email (fold (seed_account b) ds s) = users_by_email s"
  "sessions (fold (seed_account b) ds s) = sessions s"
  "refresh_to_session (fold (seed_account b) ds s) = refresh_to_session s"
  by (induction ds arbitrary: s) simp_all

lemma ensure_demo_book_same: "same_auth s (snd (ensure_demo_book new_id s u))"
  by (simp add: same_auth_def ensure_demo_book_def seed_accounts_mem_def seed_fold_other split: option.splits)

definition new_session :: "auth_env \<Rightarrow> auth_call \<Rightarrow> string \<Rightarrow> string \<Rightarrow> session_record" where
  "new_session env c user_id device_id =
     \<lparr>ses_id = ac_session_id c, ses_user_id = user_id, ses_device_id = device_id,
      ses_refresh_hash = ae_hash_token env (ac_random_token c), ses_revoked = False\<rparr>"

definition issued_claims :: "auth_call \<Rightarrow> string \<Rightarrow> string \<Rightarrow> claims" where
  "issued_claims c user_id device_id =
     \<lparr>cl_sub = user_id, cl_session_id = ac_session_id c, cl_device_id = device_id,
      cl_token_version = 1, cl_exp = nat ((ac_unix_now c + 900) mod 2 ^ 64)\<rparr>"

text \<open>\<open>grant\<close> either fails to encode and keeps the tables, or adds one live session.\<close>

definition grants :: "auth_env \<Rightarrow> auth_call \<Rightarrow> string \<Rightarrow> string \<Rightarrow> memory_store \<Rightarrow> memory_store \<Rightarrow> bool" where
  "grants env c user_id device_id s s' \<longleftrightarrow>
     users s' = users s \<and> users_by_email s' = users_by_email s \<and>
     sessions s' = hm_insert (ac_session_id c) (new_session env c user_id device_id) (sessions s) \<and>
     refresh_to_session s' =
       hm_insert (ae_hash_token env (ac_random_token c)) (ac_session_id c) (refresh_to_session s)"

lemma grant_cases:
  obtains (failed) s' where "ae_encode env (issued_claims c u d) = None"
      "grant env c a u d s = (Inl (ApiError 500 ''TOKEN_ENCODING_FAILED''), s')" "same_auth s s'"
  | (granted) access tk s' where "ae_encode env (issued_claims c u d) = Some access"
      "grant env c a u d s = (Inr tk, s')" "grants env c u d s s'"
      "tk_access_token tk = access" "tk_refresh_token tk = Some (ac_random_token c)"
proof -
  obtain b s1 where demo: "ensure_demo_book (ac_book_id c) s u = (b, s1)" by fastforce
  with ensure_demo_book_same [of s "ac_book_id c" u] have same: "same_auth s s1" by simp
  show thesis
  proof (cases "ae_encode env (issued_claims c u d)")
    case None
    then show thesis using same
      by (intro failed [of s1])
        (auto simp: grant_def demo issue_tokens_def build_token_response_def issued_claims_def Let_def)
  next
    case (Some access)
    then show thesis using same
      by (intro granted [of access "projr (fst (grant env c a u d s))" "snd (grant env c a u d s)"])
        (auto simp: grant_def demo issue_tokens_def build_token_response_def issued_claims_def Let_def
          grants_def same_auth_def new_session_def)
  qed
qed

subsection \<open>Steps of the authentication state\<close>

text \<open>
  \<open>fresh_call\<close>: the ids and the random token of a request are new, which is what version 7 UUIDs
  and 256 random bits are for.
\<close>

definition fresh_call :: "auth_env \<Rightarrow> auth_call \<Rightarrow> memory_store \<Rightarrow> bool" where
  "fresh_call env c s \<longleftrightarrow>
     hm_get (users s) (ac_user_id c) = None \<and> hm_get (sessions s) (ac_session_id c) = None \<and>
     (\<forall>sid ses. hm_get (sessions s) sid = Some ses \<longrightarrow>
        ses_refresh_hash ses \<noteq> ae_hash_token env (ac_random_token c))"

text \<open>The requests of any clients, in any order; \<open>step_other\<close> is any handler outside this component.\<close>

inductive auth_step :: "auth_env \<Rightarrow> memory_store \<Rightarrow> memory_store \<Rightarrow> bool" for env where
  step_register: "fresh_call env c s \<Longrightarrow> auth_step env s (snd (register env c rreq s))"
| step_login: "fresh_call env c s \<Longrightarrow> auth_step env s (snd (login env c lreq s))"
| step_refresh: "fresh_call env c s \<Longrightarrow> auth_step env s (snd (refresh env c jar freq s))"
| step_logout: "auth_step env s (snd (logout env c auth s))"
| step_other: "same_auth s s' \<Longrightarrow> auth_step env s s'"

inductive_cases auth_stepE: "auth_step env s s'"

text \<open>What a request does to the state, as a sequence of elementary changes.\<close>

inductive auth_event :: "auth_env \<Rightarrow> memory_store \<Rightarrow> memory_store \<Rightarrow> bool" for env where
  ev_same: "same_auth s s' \<Longrightarrow> auth_event env s s'"
| ev_user: "hm_get (users s) u = None \<Longrightarrow> hm_get (users_by_email s) (usr_email r) = None \<Longrightarrow> usr_id r = u \<Longrightarrow>
    normalize_email email = Inr (usr_email r) \<Longrightarrow>
    users s' = hm_insert u r (users s) \<Longrightarrow> users_by_email s' = hm_insert (usr_email r) u (users_by_email s) \<Longrightarrow>
    sessions s' = sessions s \<Longrightarrow> refresh_to_session s' = refresh_to_session s \<Longrightarrow> auth_event env s s'"
| ev_session: "fresh_call env c s \<Longrightarrow> hm_get (users s) u \<noteq> None \<Longrightarrow> grants env c u d s s' \<Longrightarrow> auth_event env s s'"
| ev_revoke: "auth_event env s (revoke_session sid s)"
| ev_drop: "hm_get (refresh_to_session s) h = Some sid \<Longrightarrow>
    auth_event env s (revoke_session sid (s\<lparr>refresh_to_session := hm_remove h (refresh_to_session s)\<rparr>))"

inductive_cases auth_eventE: "auth_event env s s'"

abbreviation auth_events :: "auth_env \<Rightarrow> memory_store \<Rightarrow> memory_store \<Rightarrow> bool" where
  "auth_events env \<equiv> (auth_event env)\<^sup>*\<^sup>*"

definition auth_inv :: "memory_store \<Rightarrow> bool" where
  "auth_inv s \<longleftrightarrow>
     (\<forall>e u. hm_get (users_by_email s) e = Some u \<longrightarrow>
        (\<exists>r. hm_get (users s) u = Some r \<and> usr_email r = e)) \<and>
     (\<forall>u r. hm_get (users s) u = Some r \<longrightarrow> usr_id r = u \<and>
        hm_get (users_by_email s) (usr_email r) = Some u \<and> (\<exists>v. normalize_email v = Inr (usr_email r))) \<and>
     (\<forall>h sid. hm_get (refresh_to_session s) h = Some sid \<longrightarrow>
        (\<exists>ses. hm_get (sessions s) sid = Some ses \<and> ses_refresh_hash ses = h)) \<and>
     (\<forall>sid ses. hm_get (sessions s) sid = Some ses \<longrightarrow> ses_id ses = sid \<and>
        hm_get (users s) (ses_user_id ses) \<noteq> None \<and>
        (\<not> ses_revoked ses \<longrightarrow> hm_get (refresh_to_session s) (ses_refresh_hash ses) = Some sid))"

lemma auth_invD:
  assumes "auth_inv s"
  shows "hm_get (users_by_email s) e = Some u \<Longrightarrow> \<exists>r. hm_get (users s) u = Some r \<and> usr_email r = e"
    and "hm_get (users s) u = Some r \<Longrightarrow> usr_id r = u"
    and "hm_get (users s) u = Some r \<Longrightarrow> hm_get (users_by_email s) (usr_email r) = Some u"
    and "hm_get (users s) u = Some r \<Longrightarrow> \<exists>v. normalize_email v = Inr (usr_email r)"
    and "hm_get (refresh_to_session s) h = Some sid \<Longrightarrow>
      \<exists>ses. hm_get (sessions s) sid = Some ses \<and> ses_refresh_hash ses = h"
    and "hm_get (sessions s) sid = Some ses \<Longrightarrow> hm_get (users s) (ses_user_id ses) \<noteq> None"
    and "hm_get (sessions s) sid = Some ses \<Longrightarrow> \<not> ses_revoked ses \<Longrightarrow>
      hm_get (refresh_to_session s) (ses_refresh_hash ses) = Some sid"
  using assms unfolding auth_inv_def by blast+

lemma revoke_session_sel [simp]:
  "users (revoke_session sid s) = users s" "users_by_email (revoke_session sid s) = users_by_email s"
  "refresh_to_session (revoke_session sid s) = refresh_to_session s"
  "hm_get (sessions (revoke_session sid s)) k =
     (if k = sid then map_option (\<lambda>x. x\<lparr>ses_revoked := True\<rparr>) (hm_get (sessions s) sid)
      else hm_get (sessions s) k)"
  by (simp_all add: revoke_session_def split: option.splits)

lemma fresh_call_drop:
  "fresh_call env c s \<Longrightarrow>
     fresh_call env c (revoke_session sid (s\<lparr>refresh_to_session := m\<rparr>))"
  by (auto simp: fresh_call_def split: if_splits)

lemma auth_event_inv:
  assumes "auth_event env s s'" and "auth_inv s"
  shows "auth_inv s'"
  using assms(1)
proof cases
  case ev_same
  then show ?thesis using assms(2) by (simp add: auth_inv_def same_auth_def)
next
  case (ev_user u r email)
  then show ?thesis using assms(2) unfolding auth_inv_def by (auto split: if_splits) (metis option.distinct(1))+
next
  case (ev_session c u d)
  then show ?thesis using assms(2) unfolding auth_inv_def grants_def fresh_call_def
    by (auto simp: new_session_def split: if_splits) (metis option.distinct(1))+
next
  case (ev_revoke sid)
  have "\<exists>x. (\<exists>z. hm_get (sessions s) sid = Some z \<and> z\<lparr>ses_revoked := True\<rparr> = x) \<and> ses_refresh_hash x = h"
    if "hm_get (refresh_to_session s) h = Some sid" for h
    using auth_invD(5) [OF assms(2) that] by fastforce
  then show ?thesis using assms(2) ev_revoke unfolding auth_inv_def by (auto split: if_splits)
next
  case (ev_drop h sid)
  have keys: "hm_get (refresh_to_session s') k = (if k = h then None else hm_get (refresh_to_session s) k)" for k
    by (simp add: ev_drop(1))
  have sess: "hm_get (sessions s') k = (if k = sid then map_option (\<lambda>x. x\<lparr>ses_revoked := True\<rparr>) (hm_get (sessions s) sid)
      else hm_get (sessions s) k)" for k
    by (simp add: ev_drop(1))
  have usr: "users s' = users s" "users_by_email s' = users_by_email s" by (simp_all add: ev_drop(1))
  have "\<exists>ses. hm_get (sessions s') x = Some ses \<and> ses_refresh_hash ses = k"
    if "hm_get (refresh_to_session s') k = Some x" for k x
    using that auth_invD(5) [OF assms(2), of k x] by (fastforce simp: keys sess split: if_splits)
  moreover have "ses_id ses = x \<and> hm_get (users s) (ses_user_id ses) \<noteq> None \<and>
      (\<not> ses_revoked ses \<longrightarrow> hm_get (refresh_to_session s') (ses_refresh_hash ses) = Some x)"
    if "hm_get (sessions s') x = Some ses" for x ses
  proof (cases "x = sid")
    case True
    then show ?thesis using that assms(2) by (auto simp: sess auth_inv_def)
  next
    case False
    with that have x: "hm_get (sessions s) x = Some ses" by (simp add: sess)
    then have "\<not> ses_revoked ses \<Longrightarrow> ses_refresh_hash ses \<noteq> h"
      using auth_invD(7) [OF assms(2) x] ev_drop(2) False by auto
    then show ?thesis using x assms(2) by (auto simp: keys auth_inv_def)
  qed
  ultimately show ?thesis using assms(2) unfolding auth_inv_def usr by blast
qed

lemma auth_events_inv: "auth_events env s s' \<Longrightarrow> auth_inv s \<Longrightarrow> auth_inv s'"
  by (induction rule: rtranclp_induct) (auto intro: auth_event_inv)

lemma grant_events:
  assumes "fresh_call env c s" and "hm_get (users s) u \<noteq> None"
  shows "auth_events env s (snd (grant env c a u d s))"
  by (rule grant_cases [of env c u d a s]) (auto intro: ev_same ev_session [OF assms])

lemma rotate_events:
  assumes "auth_inv s" and "fresh_call env c s"
  shows "auth_events env s (snd (rotate_refresh_token env c h s))"
proof (cases "hm_get (refresh_to_session s) h")
  case None
  then show ?thesis
    by (auto simp: rotate_refresh_token_def intro!: r_into_rtranclp [of "auth_event env"] ev_same)
next
  case (Some sid)
  let ?s1 = "s\<lparr>refresh_to_session := hm_remove h (refresh_to_session s)\<rparr>"
  let ?s2 = "revoke_session sid ?s1"
  obtain ses where ses: "hm_get (sessions s) sid = Some ses" "ses_refresh_hash ses = h"
    using auth_invD(5) [OF assms(1) Some] by blast
  have drop: "auth_event env s ?s2" by (rule ev_drop [OF Some])
  have same: "auth_event env ?s2 (audit env c ev ?s2)" for ev by (rule ev_same) simp
  have new: "auth_events env ?s2 (snd (grant env c ''auth.refresh'' (ses_user_id ses) (ses_device_id ses) ?s2))"
    using auth_invD(6) [OF assms(1) ses(1)] by (intro grant_events fresh_call_drop assms(2)) simp
  show ?thesis
  proof (cases "ses_revoked ses")
    case True
    then have "rotate_refresh_token env c h s = (Inl (ApiError 401 ''REFRESH_REUSE''),
        audit env c (failed_because ''refresh_reuse'' (user_event (ses_user_id ses) ''auth.refresh'' Failure)) ?s2)"
      by (simp add: rotate_refresh_token_def Some ses Let_def)
    with drop same show ?thesis by (simp add: converse_rtranclp_into_rtranclp r_into_rtranclp)
  next
    case False
    then have "rotate_refresh_token env c h s =
        grant env c ''auth.refresh'' (ses_user_id ses) (ses_device_id ses) ?s2"
      by (simp add: rotate_refresh_token_def Some ses Let_def)
    with drop new show ?thesis by (simp add: converse_rtranclp_into_rtranclp)
  qed
qed

lemma validate_registration_email:
  "validate_registration req = Inr req' \<Longrightarrow> normalize_email (rq_email req) = Inr (rq_email req')"
  by (auto simp: validate_registration_def Let_def split: sum.splits if_splits)

lemma validate_login_email:
  "validate_login req = Inr req' \<Longrightarrow>
     normalize_email (lq_email req) = Inr (lq_email req') \<and> lq_password req' = lq_password req \<and>
     lq_session_mode req' = lq_session_mode req \<and> lq_device_id req' = trim (lq_device_id req)"
  by (auto simp: validate_login_def Let_def split: sum.splits if_splits)

lemma register_event:
  assumes "fresh_call env c s"
  shows "auth_event env s (snd (register env c req s))"
proof (cases "validate_registration req")
  case (Inl e)
  then show ?thesis by (auto simp: register_def intro: ev_same)
next
  case (Inr req')
  note ok = validate_registration_email [OF this]
  show ?thesis
  proof (cases "ae_hash_password env (ac_salt c) (rq_password req')")
    case None
    then show ?thesis using Inr by (auto simp: register_def intro: ev_same)
  next
    case (Some hash)
    show ?thesis
    proof (cases "hm_contains (users_by_email s) (rq_email req')")
      case True
      then show ?thesis using Inr Some by (auto simp: register_def Let_def intro: ev_same)
    next
      case False
      then show ?thesis using Inr Some assms ok
        by (intro ev_user [where u = "ac_user_id c" and email = "rq_email req" and
              r = "\<lparr>usr_id = ac_user_id c, usr_email = rq_email req', usr_password_hash = hash,
                usr_display_name = rq_display_name req'\<rparr>"])
          (auto simp: register_def Let_def fresh_call_def hm_contains_def)
    qed
  qed
qed

lemma login_events:
  assumes "auth_inv s" and "fresh_call env c s"
  shows "auth_events env s (snd (login env c req s))"
proof -
  have same: "auth_events env s (audit env c ev s)" for ev by (intro r_into_rtranclp ev_same) simp
  have "auth_events env s (snd (grant env c ''auth.login'' (usr_id user) d s))"
    if "hm_get (users s) u = Some user" for u user d
    using that auth_invD(2) [OF assms(1) that] by (intro grant_events assms(2)) simp
  then show ?thesis
    by (auto simp: login_def Let_def same bind_eq_Some_conv split: sum.splits option.splits)
qed

lemma refresh_events:
  assumes "auth_inv s" and "fresh_call env c s"
  shows "auth_events env s (snd (refresh env c jar req s))"
proof -
  have "auth_events env s (audit env c ev s)" for ev by (intro r_into_rtranclp ev_same) simp
  then show ?thesis using rotate_events [OF assms]
    by (auto simp: refresh_def split: sum.splits)
qed

lemma auth_step_events: "auth_step env s s' \<Longrightarrow> auth_inv s \<Longrightarrow> auth_events env s s'"
proof (induction rule: auth_step.induct)
  case (step_logout s c auth)
  have "auth_event env s (revoke_session (au_session_id auth) s)" by (rule ev_revoke)
  moreover have "auth_event env s (audit env c ev s)" for s ev by (rule ev_same) simp
  ultimately show ?case
    by (simp add: logout_def converse_rtranclp_into_rtranclp r_into_rtranclp)
qed (auto intro: register_event login_events refresh_events ev_same)

lemma auth_steps_events: "(auth_step env)\<^sup>*\<^sup>* s s' \<Longrightarrow> auth_inv s \<Longrightarrow> auth_events env s s'"
proof (induction rule: rtranclp_induct)
  case (step s' s'')
  then show ?case using auth_step_events auth_events_inv rtranclp_trans by metis
qed simp

end
