(* ===== verification/Auth_Laws.thy ===== *)
theory Auth_Laws
  imports Auth
begin

section \<open>What the authentication handlers guarantee\<close>

text \<open>
  Over any sequence of requests with fresh ids (\<^const>\<open>auth_step\<close>): the user and session tables
  stay consistent, a registered user can log in, issued tokens work while the session lives, a
  refresh token works once, logout is final. Last, the normal form of an e-mail address.
\<close>

text \<open>
  C14. Starting from the empty store, whatever the clients send, the user and session tables stay
  consistent: an e-mail address belongs to exactly one user and is in normal form, every refresh
  token in use belongs to a session with that token, every session to a user, and every live
  session can be refreshed.
\<close>

theorem auth_inv_reachable:
  assumes "(auth_step env)\<^sup>*\<^sup>* empty_store s"
  shows "auth_inv s"
proof -
  have "auth_inv empty_store" by (simp add: auth_inv_def empty_store_def)
  then show ?thesis using auth_steps_events [OF assms] auth_events_inv by blast
qed

subsection \<open>Records that last\<close>

definition revoked :: "memory_store \<Rightarrow> string \<Rightarrow> bool" where
  "revoked s sid \<longleftrightarrow> (case hm_get (sessions s) sid of None \<Rightarrow> False | Some ses \<Rightarrow> ses_revoked ses)"

text \<open>A refresh token (by its hash) that was issued and belongs to revoked sessions only.\<close>

definition spent :: "memory_store \<Rightarrow> string \<Rightarrow> bool" where
  "spent s h \<longleftrightarrow> (\<exists>sid ses. hm_get (sessions s) sid = Some ses \<and> ses_refresh_hash ses = h) \<and>
     (\<forall>sid ses. hm_get (sessions s) sid = Some ses \<and> ses_refresh_hash ses = h \<longrightarrow> ses_revoked ses)"

definition same_session :: "session_record \<Rightarrow> session_record \<Rightarrow> bool" where
  "same_session a b \<longleftrightarrow> ses_id b = ses_id a \<and> ses_user_id b = ses_user_id a \<and>
     ses_device_id b = ses_device_id a \<and> ses_refresh_hash b = ses_refresh_hash a \<and>
     (ses_revoked a \<longrightarrow> ses_revoked b)"

lemma auth_event_session:
  assumes "auth_event env s s'" and "hm_get (sessions s) sid = Some ses"
  shows "\<exists>ses'. hm_get (sessions s') sid = Some ses' \<and> same_session ses ses'"
  using assms
  by (cases rule: auth_event.cases) (auto simp: same_auth_def same_session_def grants_def fresh_call_def)

lemma auth_event_new_session:
  assumes "auth_event env s s'" and "hm_get (sessions s') sid = Some ses'"
  obtains (old) ses where "hm_get (sessions s) sid = Some ses" "same_session ses ses'"
  | (new) "\<forall>k ses. hm_get (sessions s) k = Some ses \<longrightarrow> ses_refresh_hash ses \<noteq> ses_refresh_hash ses'"
  using assms
  by (cases rule: auth_event.cases)
    (auto simp: same_auth_def same_session_def grants_def fresh_call_def new_session_def split: if_splits)

lemma auth_event_user:
  assumes "auth_event env s s'" and "hm_get (users s) u = Some r"
  shows "hm_get (users s') u = Some r"
  using assms by (cases rule: auth_event.cases) (auto simp: same_auth_def grants_def)

lemma auth_events_user: "auth_events env s s' \<Longrightarrow> hm_get (users s) u = Some r \<Longrightarrow> hm_get (users s') u = Some r"
  by (induction rule: rtranclp_induct) (auto intro: auth_event_user)

lemma auth_events_session:
  "auth_events env s s' \<Longrightarrow> hm_get (sessions s) sid = Some ses \<Longrightarrow>
     \<exists>ses'. hm_get (sessions s') sid = Some ses' \<and> same_session ses ses'"
proof (induction rule: rtranclp_induct)
  case base
  then show ?case by (simp add: same_session_def)
next
  case (step s' s'')
  then show ?case using auth_event_session [OF step(2)] by (fastforce simp: same_session_def)
qed

lemma auth_events_revoked: "auth_events env s s' \<Longrightarrow> revoked s sid \<Longrightarrow> revoked s' sid"
  using auth_events_session [of env s s' sid]
  by (fastforce simp: revoked_def same_session_def split: option.splits)

lemma auth_event_spent:
  assumes "auth_event env s s'" and "spent s h"
  shows "spent s' h"
proof -
  obtain sid ses where ses: "hm_get (sessions s) sid = Some ses" "ses_refresh_hash ses = h"
    using assms(2) by (auto simp: spent_def)
  then have "\<exists>sid ses. hm_get (sessions s') sid = Some ses \<and> ses_refresh_hash ses = h"
    using auth_event_session [OF assms(1) ses(1)] by (auto simp: same_session_def)
  moreover have "ses_revoked x" if "hm_get (sessions s') k = Some x" "ses_refresh_hash x = h" for k x
    using assms(1) that(1)
  proof (cases rule: auth_event_new_session)
    case (old y)
    then show ?thesis using assms(2) that(2) by (auto simp: spent_def same_session_def)
  next
    case new
    then show ?thesis using ses that(2) by metis
  qed
  ultimately show ?thesis by (auto simp: spent_def)
qed

lemma auth_events_spent: "auth_events env s s' \<Longrightarrow> spent s h \<Longrightarrow> spent s' h"
  by (induction rule: rtranclp_induct) (auto intro: auth_event_spent)

subsection \<open>Rotation\<close>

lemma rotate_spent:
  assumes "auth_inv s" and "spent s h"
  shows "\<exists>code s'. rotate_refresh_token env c h s = (Inl (ApiError 401 code), s') \<and>
    (\<forall>k. hm_get (sessions s') k = hm_get (sessions s) k)"
proof (cases "hm_get (refresh_to_session s) h")
  case None
  then show ?thesis by (simp add: rotate_refresh_token_def)
next
  case (Some sid)
  then obtain ses where ses: "hm_get (sessions s) sid = Some ses" "ses_refresh_hash ses = h"
    using auth_invD(5) [OF assms(1)] by blast
  then have "ses_revoked ses" using assms(2) by (auto simp: spent_def)
  then show ?thesis using Some ses by (auto simp: rotate_refresh_token_def Let_def)
qed

lemma rotate_Inr:
  assumes "rotate_refresh_token env c h s = (Inr tk, s')"
  obtains sid ses where "hm_get (refresh_to_session s) h = Some sid" "hm_get (sessions s) sid = Some ses"
    "\<not> ses_revoked ses" "ses_refresh_hash ses = h"
    "grant env c ''auth.refresh'' (ses_user_id ses) (ses_device_id ses)
       (revoke_session sid (s\<lparr>refresh_to_session := hm_remove h (refresh_to_session s)\<rparr>)) = (Inr tk, s')"
  using assms by (auto simp: rotate_refresh_token_def Let_def split: option.splits if_splits)

lemma rotate_makes_spent:
  assumes "auth_inv s" and "fresh_call env c s" and "rotate_refresh_token env c h s = (Inr tk, s')"
  shows "spent s' h"
  using assms(3)
proof (cases rule: rotate_Inr)
  case (1 sid ses)
  let ?s = "revoke_session sid (s\<lparr>refresh_to_session := hm_remove h (refresh_to_session s)\<rparr>)"
  have live: "k = sid" if "hm_get (sessions s) k = Some x" "ses_refresh_hash x = h" "\<not> ses_revoked x" for k x
    using auth_invD(7) [OF assms(1) that(1,3)] that(2) 1(1) by simp
  have "\<exists>k x. hm_get (sessions ?s) k = Some x \<and> ses_refresh_hash x = h"
    using 1 by (intro exI [of _ sid]) auto
  moreover have "ses_revoked x" if "hm_get (sessions ?s) k = Some x" "ses_refresh_hash x = h" for k x
    using that live [of k x] by (auto split: if_splits)
  ultimately have "spent ?s h" unfolding spent_def by blast
  moreover have "auth_events env ?s s'"
    using grant_events [of env c ?s "ses_user_id ses" "''auth.refresh''" "ses_device_id ses"] 1(5)
      fresh_call_drop [OF assms(2)] auth_invD(6) [OF assms(1) 1(2)] by simp
  ultimately show ?thesis by (rule auth_events_spent [rotated])
qed

text \<open>The token a refresh request presents: from the cookie in cookie mode, else from the body.\<close>

definition presented :: "string option \<Rightarrow> refresh_request \<Rightarrow> string option" where
  "presented jar req =
     (case uses_cookie_session (rf_session_mode req) of
        Inl _ \<Rightarrow> None
      | Inr True \<Rightarrow> (if rf_refresh_token req = None then jar else None)
      | Inr False \<Rightarrow> rf_refresh_token req)"

lemma refresh_presented:
  assumes "presented jar req = Some t" and "valid_refresh_token t"
  shows "\<exists>mode. refresh env c jar req s =
    apfst (map_sum (refresh_error_response env mode) (finish_refresh env mode))
      (rotate_refresh_token env c (ae_hash_token env t) s)"
  using assms
  by (auto simp: presented_def refresh_def refresh_credential_def split: sum.splits bool.splits if_splits)

lemma refresh_not_presented:
  assumes "presented jar req = None"
  shows "\<exists>e. fst (refresh env c jar req s) = Inl e"
  using assms
  by (auto simp: presented_def refresh_def refresh_credential_def split: sum.splits bool.splits if_splits option.splits)

lemma refresh_not_valid:
  assumes "presented jar req = Some t" and "\<not> valid_refresh_token t"
  shows "\<exists>e. fst (refresh env c jar req s) = Inl e"
  using assms
  by (auto simp: presented_def refresh_def refresh_credential_def split: sum.splits bool.splits if_splits)

lemma refresh_Inr:
  assumes "refresh env c jar req s = (Inr r, s')"
  obtains t tk where "presented jar req = Some t" "valid_refresh_token t"
    "rotate_refresh_token env c (ae_hash_token env t) s = (Inr tk, s')"
proof -
  obtain t where t: "presented jar req = Some t"
    using refresh_not_presented [of jar req env c s] assms by (cases "presented jar req") auto
  then have v: "valid_refresh_token t"
    using refresh_not_valid [of jar req t env c s] assms by auto
  obtain x s'' where rot: "rotate_refresh_token env c (ae_hash_token env t) s = (x, s'')" by fastforce
  then obtain tk where "x = Inr tk" and "s'' = s'"
    using refresh_presented [OF t v, of env c s] assms by (cases x) auto
  with rot t v show thesis by (intro that) simp_all
qed

lemma refresh_Inr_spent:
  assumes "auth_inv s" and "fresh_call env c s" and "refresh env c jar req s = (Inr r, s')"
    and "presented jar req = Some t"
  shows "valid_refresh_token t" and "spent s' (ae_hash_token env t)"
  using assms(3) assms(4) rotate_makes_spent [OF assms(1,2)]
  by (auto elim!: refresh_Inr)

text \<open>
  C12. A refresh token works once. After a refresh that succeeded, whatever requests follow, every
  further refresh that presents the same token, in the body or as the cookie, is answered 401 and
  starts no session; and the session it belonged to is revoked, so its access tokens stop working.
\<close>

theorem refresh_token_single_use:
  assumes "auth_inv s" and "fresh_call env c s"
    and "refresh env c jar req s = (Inr r, s1)" and "presented jar req = Some t"
    and "(auth_step env)\<^sup>*\<^sup>* s1 s2" and "presented jar' req' = Some t"
  shows "(\<exists>cookies code s3. refresh env c' jar' req' s2 = (Inl (cookies, ApiError 401 code), s3) \<and>
            (\<forall>k. hm_get (sessions s3) k = hm_get (sessions s2) k)) \<and>
         (\<forall>sid. hm_get (refresh_to_session s) (ae_hash_token env t) = Some sid \<longrightarrow> revoked s2 sid)"
proof -
  have evs: "auth_events env s s1"
    using refresh_events [OF assms(1,2), of jar req] assms(3) by simp
  have inv1: "auth_inv s1" by (rule auth_events_inv [OF evs assms(1)])
  have evs2: "auth_events env s1 s2" by (rule auth_steps_events [OF assms(5) inv1])
  have inv2: "auth_inv s2" by (rule auth_events_inv [OF evs2 inv1])
  have t: "valid_refresh_token t" and "spent s1 (ae_hash_token env t)"
    by (rule refresh_Inr_spent [OF assms(1-4)])+
  then have sp: "spent s2 (ae_hash_token env t)" using auth_events_spent [OF evs2] by blast
  obtain code s3 where rot: "rotate_refresh_token env c' (ae_hash_token env t) s2 = (Inl (ApiError 401 code), s3)"
    and keep: "\<forall>k. hm_get (sessions s3) k = hm_get (sessions s2) k"
    using rotate_spent [OF inv2 sp] by blast
  have "\<exists>cookies. refresh env c' jar' req' s2 = (Inl (cookies, ApiError 401 code), s3)"
    using refresh_presented [OF assms(6) t, of env c' s2] rot by (auto simp: refresh_error_response_def)
  moreover have "revoked s2 sid" if sid: "hm_get (refresh_to_session s) (ae_hash_token env t) = Some sid" for sid
  proof -
    obtain ses where "hm_get (sessions s) sid = Some ses" "ses_refresh_hash ses = ae_hash_token env t"
      using auth_invD(5) [OF assms(1) sid] by blast
    then obtain ses' where "hm_get (sessions s2) sid = Some ses'" "ses_refresh_hash ses' = ae_hash_token env t"
      using auth_events_session [OF rtranclp_trans [OF evs evs2]] by (fastforce simp: same_session_def)
    then show ?thesis using sp by (auto simp: revoked_def spent_def)
  qed
  ultimately show ?thesis using keep by blast
qed

subsection \<open>Login and live sessions\<close>

lemma login_Inr:
  assumes "auth_inv s" and "login env c req s = (Inr r, s')"
  obtains e u d cookie_mode tk where "normalize_email (lq_email req) = Inr e"
    "hm_get (users_by_email s) e = Some u" "d = trim (lq_device_id req)"
    "r = finish_refresh env cookie_mode tk" "grant env c ''auth.login'' u d s = (Inr tk, s')"
proof -
  obtain req' where v: "validate_login req = Inr req'"
    using assms(2) by (cases "validate_login req") (simp_all add: login_def Let_def)
  obtain m where m: "uses_cookie_session (lq_session_mode req') = Inr m"
    using assms(2) v by (cases "uses_cookie_session (lq_session_mode req')") (simp_all add: login_def Let_def)
  obtain u user where u: "hm_get (users_by_email s) (lq_email req') = Some u" "hm_get (users s) u = Some user"
    using assms(2) v m by (auto simp: login_def Let_def split: bind_splits option.splits)
  have "ae_verify_password env (lq_password req') (usr_password_hash user)"
    using assms(2) v m u by (auto simp: login_def Let_def split: if_splits)
  then have "apfst (map_sum (\<lambda>e. e) (finish_refresh env m)) (grant env c ''auth.login'' u (lq_device_id req') s) = (Inr r, s')"
    using assms(2) v m u auth_invD(2) [OF assms(1) u(2)] by (simp add: login_def Let_def)
  then obtain tk where "r = finish_refresh env m tk" "grant env c ''auth.login'' u (lq_device_id req') s = (Inr tk, s')"
    by (cases "grant env c ''auth.login'' u (lq_device_id req') s"; cases "fst (grant env c ''auth.login'' u (lq_device_id req') s)")
      auto
  then show thesis using that validate_login_email [OF v] u(1) by metis
qed

lemma grant_Inr:
  assumes "grant env c a u d s = (Inr tk, s')"
  shows "grants env c u d s s'" and "ae_encode env (issued_claims c u d) = Some (tk_access_token tk)"
    and "tk_refresh_token tk = Some (ac_random_token c)"
  using assms by (auto intro: grant_cases [of env c u d a s])

text \<open>
  The tokens of a successful login work as long as the session is not revoked, whatever other
  requests do: the access token authenticates exactly the user who owns the e-mail address, with the
  session and the device of the login, when the token library accepts what it signed; and the
  refresh token is handed over either in the body or in an HTTP-only cookie, never in both.
\<close>

theorem login_tokens_work:
  assumes "auth_inv s" and "fresh_call env c s"
    and "login env c req s = (Inr (cookies, tk), s1)"
    and "normalize_email (lq_email req) = Inr e" and "hm_get (users_by_email s) e = Some u"
    and "\<And>tok. ae_encode env (issued_claims c u (trim (lq_device_id req))) = Some tok \<Longrightarrow>
          decode (jwt_decoding_key cfg) tok = Some (issued_claims c u (trim (lq_device_id req)))"
    and "(auth_step env)\<^sup>*\<^sup>* s1 s2" and "\<not> revoked s2 (ac_session_id c)"
  shows "from_request_parts decode cfg s2 (Some (''Bearer '' @ tk_access_token tk)) =
           Inr \<lparr>au_user_id = u, au_session_id = ac_session_id c, au_device_id = trim (lq_device_id req)\<rparr> \<and>
         (cookies = [] \<and> tk_refresh_token tk = Some (ac_random_token c) \<or>
          cookies = [add_refresh_cookie env (ac_random_token c)] \<and> tk_refresh_token tk = None)"
  using assms(1,3)
proof (cases rule: login_Inr)
  case (1 e' u' d m tk0)
  have eq: "u' = u" "d = trim (lq_device_id req)" using 1 assms(4,5) by simp_all
  note g = grant_Inr [OF 1(5)]
  have tk: "tk_access_token tk = tk_access_token tk0"
    using 1(4) g(3) by (auto simp: finish_refresh_def split: if_splits)
  have inv1: "auth_inv s1"
    using login_events [OF assms(1,2), of req] assms(1,3) auth_events_inv by fastforce
  have "hm_get (sessions s1) (ac_session_id c) = Some (new_session env c u d)"
    using g(1) by (simp add: grants_def eq)
  then obtain ses where ses: "hm_get (sessions s2) (ac_session_id c) = Some ses" "same_session (new_session env c u d) ses"
    using auth_events_session [OF auth_steps_events [OF assms(7) inv1]] by blast
  have act: "ensure_session_active s2 (issued_claims c u d) = Inr ()"
    using ses assms(8)
    by (auto simp: revoked_def same_session_def new_session_def issued_claims_def session_active_def)
  have dec: "decode (jwt_decoding_key cfg) (tk_access_token tk) = Some (issued_claims c u d)"
    using assms(6) g(2) by (simp add: tk eq)
  have "from_request_parts decode cfg s2 (Some (''Bearer '' @ tk_access_token tk)) =
      Inr \<lparr>au_user_id = u, au_session_id = ac_session_id c, au_device_id = d\<rparr>"
    using dec act
    by (simp add: from_request_parts_def decode_access_token_def del: ensure_session_active_ok)
      (simp add: issued_claims_def)
  moreover have "cookies = [] \<and> tk_refresh_token tk = Some (ac_random_token c) \<or>
      cookies = [add_refresh_cookie env (ac_random_token c)] \<and> tk_refresh_token tk = None"
    using 1(4) g(3) by (auto simp: finish_refresh_def split: if_splits)
  ultimately show ?thesis by (simp add: eq)
qed

lemma rotate_live:
  assumes "auth_inv s" and "fresh_call env c s"
    and "hm_get (sessions s) sid = Some ses" and "\<not> ses_revoked ses"
    and "ae_encode env (issued_claims c (ses_user_id ses) (ses_device_id ses)) = Some access"
  obtains tk s' where "rotate_refresh_token env c (ses_refresh_hash ses) s = (Inr tk, s')"
    "tk_access_token tk = access" "revoked s' sid"
    "hm_get (sessions s') (ac_session_id c) = Some (new_session env c (ses_user_id ses) (ses_device_id ses))"
    "\<forall>k. k \<noteq> sid \<and> k \<noteq> ac_session_id c \<longrightarrow> hm_get (sessions s') k = hm_get (sessions s) k"
proof -
  let ?h = "ses_refresh_hash ses"
  let ?s = "revoke_session sid (s\<lparr>refresh_to_session := hm_remove ?h (refresh_to_session s)\<rparr>)"
  have key: "hm_get (refresh_to_session s) ?h = Some sid" by (rule auth_invD(7) [OF assms(1,3,4)])
  have ne: "ac_session_id c \<noteq> sid" using assms(2,3) by (auto simp: fresh_call_def)
  have rot: "rotate_refresh_token env c ?h s = grant env c ''auth.refresh'' (ses_user_id ses) (ses_device_id ses) ?s"
    using key assms(3,4) by (simp add: rotate_refresh_token_def Let_def)
  obtain tk s' where g: "grant env c ''auth.refresh'' (ses_user_id ses) (ses_device_id ses) ?s = (Inr tk, s')"
    and tk: "tk_access_token tk = access"
    and gr: "grants env c (ses_user_id ses) (ses_device_id ses) ?s s'"
    using assms(5) by (auto intro: grant_cases [of env c "ses_user_id ses" "ses_device_id ses" "''auth.refresh''" ?s])
  have "revoked s' sid" and "hm_get (sessions s') (ac_session_id c) =
      Some (new_session env c (ses_user_id ses) (ses_device_id ses))"
    and "\<forall>k. k \<noteq> sid \<and> k \<noteq> ac_session_id c \<longrightarrow> hm_get (sessions s') k = hm_get (sessions s) k"
    using gr assms(3) ne by (simp_all add: grants_def revoked_def)
  with rot g tk show thesis by (intro that) simp_all
qed

lemma finish_refresh_access [simp]:
  "tk_access_token (snd (finish_refresh env mode tk)) = tk_access_token tk"
  by (simp add: finish_refresh_def split: option.split)

text \<open>
  A live session can always be continued: presenting its refresh token gives new tokens for the
  same user and device, with a new live session in place of the old one, which is revoked.
\<close>

theorem live_session_refreshes:
  assumes "auth_inv s" and "fresh_call env c s"
    and "hm_get (sessions s) sid = Some ses" and "\<not> ses_revoked ses"
    and "presented jar req = Some t" and "valid_refresh_token t" and "ae_hash_token env t = ses_refresh_hash ses"
    and "ae_encode env (issued_claims c (ses_user_id ses) (ses_device_id ses)) = Some access"
  shows "\<exists>cookies tk s'. refresh env c jar req s = (Inr (cookies, tk), s') \<and> tk_access_token tk = access \<and>
           revoked s' sid \<and> hm_get (sessions s') (ac_session_id c) =
             Some (new_session env c (ses_user_id ses) (ses_device_id ses)) \<and>
           (\<forall>k. k \<noteq> sid \<and> k \<noteq> ac_session_id c \<longrightarrow> hm_get (sessions s') k = hm_get (sessions s) k)"
proof -
  obtain tk s' where rot: "rotate_refresh_token env c (ses_refresh_hash ses) s = (Inr tk, s')"
    and tk: "tk_access_token tk = access"
    and new: "revoked s' sid" "hm_get (sessions s') (ac_session_id c) =
      Some (new_session env c (ses_user_id ses) (ses_device_id ses))"
      "\<forall>k. k \<noteq> sid \<and> k \<noteq> ac_session_id c \<longrightarrow> hm_get (sessions s') k = hm_get (sessions s) k"
    using rotate_live [OF assms(1-4,8)] by metis
  obtain mode where "refresh env c jar req s = (Inr (finish_refresh env mode tk), s')"
    using refresh_presented [OF assms(5,6), of env c s] by (auto simp: assms(7) rot)
  with tk new finish_refresh_access [of env mode tk] show ?thesis
    by (cases "finish_refresh env mode tk") auto
qed

lemma spent_refresh_refused:
  assumes "auth_inv s" and "spent s (ae_hash_token env t)" and "presented jar req = Some t"
  shows "\<exists>cookies code s'. refresh env c jar req s = (Inl (cookies, ApiError 401 code), s')"
proof (cases "valid_refresh_token t")
  case True
  from rotate_spent [OF assms(1,2), of env c]
  obtain code s' where "rotate_refresh_token env c (ae_hash_token env t) s = (Inl (ApiError 401 code), s')" by blast
  then show ?thesis
    using refresh_presented [OF assms(3) True, of env c s] by (auto simp: refresh_error_response_def)
next
  case False
  then show ?thesis using assms(3)
    by (auto simp: presented_def refresh_def refresh_credential_def refresh_error_response_def
        split: sum.splits bool.splits if_splits)
qed

text \<open>The hash of a live session belongs to no other live session, so revoking the session spends it.\<close>

lemma revoke_spends:
  assumes "auth_inv s" and "hm_get (sessions s) sid = Some ses" and "\<not> ses_revoked ses"
  shows "spent (revoke_session sid s) (ses_refresh_hash ses)"
  unfolding spent_def
proof (intro conjI exI allI impI)
  show "hm_get (sessions (revoke_session sid s)) sid = Some (ses\<lparr>ses_revoked := True\<rparr>)" using assms(2) by simp
  show "ses_refresh_hash (ses\<lparr>ses_revoked := True\<rparr>) = ses_refresh_hash ses" by simp
  fix k x assume x: "hm_get (sessions (revoke_session sid s)) k = Some x \<and> ses_refresh_hash x = ses_refresh_hash ses"
  show "ses_revoked x"
  proof (rule ccontr)
    assume live: "\<not> ses_revoked x"
    then have k: "k \<noteq> sid" using x assms(2) by auto
    then have "hm_get (sessions s) k = Some x" using x by simp
    from auth_invD(7) [OF assms(1) this live] auth_invD(7) [OF assms(1-3)] x k show False by simp
  qed
qed

lemma from_request_parts_revoked:
  assumes "from_request_parts decode cfg s header = Inr auth" and "revoked s' (au_session_id auth)"
  shows "from_request_parts decode cfg s' header = Inl (ApiError 401 ''SESSION_REVOKED'')"
    and "hm_get (sessions s) (au_session_id auth) = Some ses \<Longrightarrow> \<not> ses_revoked ses"
proof -
  obtain token cl where hd: "header = Some (''Bearer '' @ token) \<or> header = Some (''bearer '' @ token)"
    and dec: "decode_access_token decode cfg token = Inr cl" and cl: "cl_session_id cl = au_session_id auth"
    and act: "ensure_session_active s cl = Inr ()"
    using assms(1) unfolding from_request_parts_def
    by (auto split: option.splits sum.splits simp del: ensure_session_active_ok)
  have "ensure_session_active s' cl = Inl (ApiError 401 ''SESSION_REVOKED'')"
    using assms(2) by (auto simp: ensure_session_active_def cl revoked_def session_active_def split: option.splits)
  then show "from_request_parts decode cfg s' header = Inl (ApiError 401 ''SESSION_REVOKED'')"
    using hd dec by (auto simp: from_request_parts_def)
  show "\<not> ses_revoked ses" if "hm_get (sessions s) (au_session_id auth) = Some ses"
    using act that by (auto simp: cl session_active_def)
qed

text \<open>
  Logout is final and immediate. After the logout of an authenticated request, whatever requests
  follow, the same credentials are refused with \<open>SESSION_REVOKED\<close> although the access token has
  not expired, and every refresh with the token of that session is refused.
\<close>

theorem logout_final:
  assumes "auth_inv s" and "from_request_parts decode cfg s header = Inr auth"
    and "logout env c auth s = (cookies, s1)" and "(auth_step env)\<^sup>*\<^sup>* s1 s2"
    and "hm_get (sessions s) (au_session_id auth) = Some ses"
    and "presented jar req = Some t" and "ae_hash_token env t = ses_refresh_hash ses"
  shows "from_request_parts decode cfg s2 header = Inl (ApiError 401 ''SESSION_REVOKED'') \<and>
         (\<exists>cookies' code s3. refresh env c' jar req s2 = (Inl (cookies', ApiError 401 code), s3))"
proof -
  let ?sid = "au_session_id auth"
  have s1: "s1 = audit env c (user_event (au_user_id auth) ''auth.logout'' Success) (revoke_session ?sid s)"
    using assms(3) by (simp add: logout_def)
  have inv1: "auth_inv s1"
    using auth_events_inv [OF auth_step_events [OF step_logout assms(1), of env c auth] assms(1)] assms(3) by simp
  have evs: "auth_events env s1 s2" by (rule auth_steps_events [OF assms(4) inv1])
  have "revoked s1 ?sid" using assms(5) by (simp add: s1 revoked_def)
  then have "revoked s2 ?sid" by (rule auth_events_revoked [OF evs])
  note parts = from_request_parts_revoked [OF assms(2) this]
  have "spent s1 (ses_refresh_hash ses)"
    using revoke_spends [OF assms(1,5) parts(2) [OF assms(5)]] unfolding s1 spent_def audit_sel .
  then have "spent s2 (ae_hash_token env t)" using auth_events_spent [OF evs] assms(7) by simp
  then show ?thesis
    using parts(1) spent_refresh_refused [OF auth_events_inv [OF evs inv1] _ assms(6)] by blast
qed

subsection \<open>Registration\<close>

lemma register_Inr:
  assumes "register env c req s = (Inr uid, s')"
  obtains e hash r where "normalize_email (rq_email req) = Inr e" "uid = ac_user_id c"
    "ae_hash_password env (ac_salt c) (rq_password req) = Some hash"
    "hm_get (users s') uid = Some r" "usr_email r = e" "usr_password_hash r = hash"
proof -
  obtain req' where v: "validate_registration req = Inr req'"
    using assms by (cases "validate_registration req") (simp_all add: register_def)
  then have pw: "rq_password req' = rq_password req"
    by (auto simp: validate_registration_def Let_def split: sum.splits if_splits)
  obtain hash where "ae_hash_password env (ac_salt c) (rq_password req') = Some hash"
    using assms v by (cases "ae_hash_password env (ac_salt c) (rq_password req')") (simp_all add: register_def)
  with assms v pw validate_registration_email [OF v] show thesis
    by (intro that [of "rq_email req'" hash]) (auto simp: register_def Let_def split: if_splits)
qed

lemma login_accepts:
  assumes "auth_inv s" and "hm_get (users s) uid = Some r"
    and "validate_login lreq = Inr lreq'" and "normalize_email (lq_email lreq) = Inr (usr_email r)"
    and "ae_verify_password env (lq_password lreq) (usr_password_hash r)"
    and "uses_cookie_session (lq_session_mode lreq) = Inr mode"
    and "ae_encode env (issued_claims c uid (trim (lq_device_id lreq))) = Some access"
  obtains cookies tk s' where "login env c lreq s = (Inr (cookies, tk), s')" "tk_access_token tk = access"
    "hm_get (sessions s') (ac_session_id c) = Some (new_session env c uid (trim (lq_device_id lreq)))"
proof -
  have em: "hm_get (users_by_email s) (usr_email r) = Some uid" by (rule auth_invD(3) [OF assms(1,2)])
  have uid: "usr_id r = uid" by (rule auth_invD(2) [OF assms(1,2)])
  have l: "lq_email lreq' = usr_email r" "lq_password lreq' = lq_password lreq"
      "lq_session_mode lreq' = lq_session_mode lreq" "lq_device_id lreq' = trim (lq_device_id lreq)"
    using validate_login_email [OF assms(3)] assms(4) by simp_all
  have log: "login env c lreq s = apfst (map_sum (\<lambda>e. e) (finish_refresh env mode))
      (grant env c ''auth.login'' uid (trim (lq_device_id lreq)) s)"
    using assms(3,5,6) by (simp add: login_def Let_def l em assms(2) uid)
  obtain tk s' where g: "grant env c ''auth.login'' uid (trim (lq_device_id lreq)) s = (Inr tk, s')"
    and "grants env c uid (trim (lq_device_id lreq)) s s'" and "tk_access_token tk = access"
    using assms(7) by (auto intro: grant_cases [of env c uid "trim (lq_device_id lreq)" "''auth.login''" s])
  with log finish_refresh_access [of env mode tk] show thesis
    by (cases "finish_refresh env mode tk") (auto simp: grants_def intro: that)
qed

text \<open>
  A registration lasts. After it, whatever requests follow, the user can log in with the same
  password and any spelling of the address that normalises to the same one, and gets a live session
  of that user; a second registration of the address is refused as long as its own input is valid.
\<close>

theorem registration_lasts:
  assumes "auth_inv s" and "fresh_call env c s" and "register env c req s = (Inr uid, s1)"
    and "(auth_step env)\<^sup>*\<^sup>* s1 s2"
    and "\<forall>salt p h. ae_hash_password env salt p = Some h \<longrightarrow> ae_verify_password env p h"
    and "validate_login lreq = Inr lreq'" and "normalize_email (lq_email lreq) = normalize_email (rq_email req)"
    and "lq_password lreq = rq_password req" and "uses_cookie_session (lq_session_mode lreq) = Inr mode"
    and "ae_encode env (issued_claims c' uid (trim (lq_device_id lreq))) = Some access"
    and "validate_registration req2 = Inr req2'" and "normalize_email (rq_email req2) = normalize_email (rq_email req)"
    and "ae_hash_password env (ac_salt c'') (rq_password req2') = Some hash2"
  shows "(\<exists>cookies tk s3. login env c' lreq s2 = (Inr (cookies, tk), s3) \<and> tk_access_token tk = access \<and>
            hm_get (sessions s3) (ac_session_id c') = Some (new_session env c' uid (trim (lq_device_id lreq)))) \<and>
         fst (register env c'' req2 s2) = Inl (ApiError 409 ''EMAIL_TAKEN'')"
  using assms(3)
proof (cases rule: register_Inr)
  case (1 e hash r)
  have "auth_events env s s1" using register_event [OF assms(2), of req] assms(3) by auto
  then have inv1: "auth_inv s1" using auth_events_inv assms(1) by blast
  have evs: "auth_events env s1 s2" by (rule auth_steps_events [OF assms(4) inv1])
  have inv2: "auth_inv s2" by (rule auth_events_inv [OF evs inv1])
  have r: "hm_get (users s2) uid = Some r" by (rule auth_events_user [OF evs 1(4)])
  have em: "hm_get (users_by_email s2) e = Some uid" using auth_invD(3) [OF inv2 r] 1(5) by simp
  have "ae_verify_password env (lq_password lreq) (usr_password_hash r)"
    using assms(5) 1(3,6) unfolding assms(8) by blast
  moreover have "normalize_email (lq_email lreq) = Inr (usr_email r)" using assms(7) 1(1,5) by simp
  ultimately obtain cookies tk s3 where "login env c' lreq s2 = (Inr (cookies, tk), s3)" "tk_access_token tk = access"
    "hm_get (sessions s3) (ac_session_id c') = Some (new_session env c' uid (trim (lq_device_id lreq)))"
    using login_accepts [OF inv2 r assms(6) _ _ assms(9,10)] by metis
  moreover have "rq_email req2' = e"
    using validate_registration_email [OF assms(11)] assms(12) 1(1) by simp
  then have "fst (register env c'' req2 s2) = Inl (ApiError 409 ''EMAIL_TAKEN'')"
    using assms(11,13) em by (simp add: register_def Let_def hm_contains_def)
  ultimately show ?thesis by blast
qed

subsection \<open>E-mail addresses\<close>

lemma split_on_two: "split_on d s = [a, b] \<Longrightarrow> s = a @ d # b \<and> d \<notin> set a \<and> d \<notin> set b"
proof (induction s arbitrary: a b)
  case (Cons c s)
  have one: "split_on d t = [p] \<Longrightarrow> t = p \<and> d \<notin> set p" for t p
    by (induction t arbitrary: p) (auto split: if_splits list.splits)
  show ?case
  proof (cases "c = d")
    case True
    then show ?thesis using Cons.prems one [of s b] by auto
  next
    case False
    then obtain a' where "split_on d s = [a', b]" "a = c # a'"
      using Cons.prems by (auto split: list.splits)
    then show ?thesis using Cons.IH False by auto
  qed
qed simp

lemma split_on_chars: "c \<in> set s \<Longrightarrow> c = d \<or> (\<exists>p \<in> set (split_on d s). c \<in> set p)"
  by (induction s) (auto split: list.splits)

text \<open>A visible ASCII character.\<close>

definition is_graphic :: "char \<Rightarrow> bool" where
  "is_graphic c \<longleftrightarrow> 32 < byte c \<and> byte c < 127"

lemma graphic_chars:
  "is_ascii_alphanumeric c \<Longrightarrow> is_graphic c" "valid_email_local_byte c \<Longrightarrow> is_graphic c"
  by (auto simp: is_graphic_def is_ascii_alphanumeric_def is_ascii_digit_def is_ascii_uppercase_def
      valid_email_local_byte_def byte_def)

lemma valid_email_parts:
  assumes "valid_email email"
  obtains a b where "email = a @ CHR ''@'' # b" "CHR ''@'' \<notin> set a" "CHR ''@'' \<notin> set b"
    "a \<noteq> []" "length a \<le> 64" "CHR ''.'' \<in> set b" "list_all is_graphic email" "length email \<le> 254"
proof -
  obtain a b where ab: "split_on (CHR ''@'') email = [a, b]"
    using assms unfolding valid_email_def by (auto split: list.splits)
  note eq = split_on_two [OF ab]
  have "list_all is_graphic a" using assms ab
    by (auto simp: valid_email_def list_all_iff intro: graphic_chars)
  moreover have "is_graphic c" if c: "c \<in> set b" for c
  proof -
    have "list_all valid_domain_label (split_on (CHR ''.'') b)" using assms ab by (simp add: valid_email_def)
    then have "c = CHR ''.'' \<or> is_ascii_alphanumeric c \<or> c = CHR ''-''"
      using split_on_chars [OF c, of "CHR ''.''"] by (fastforce simp: list_all_iff valid_domain_label_def)
    moreover have "is_graphic (CHR ''.'')" "is_graphic (CHR ''-'')" by (simp_all add: is_graphic_def byte_def)
    ultimately show ?thesis using graphic_chars(1) by blast
  qed
  moreover have "is_graphic (CHR ''@'')" by (simp add: is_graphic_def byte_def)
  ultimately have "list_all is_graphic email" using eq by (auto simp: list_all_iff)
  then show thesis using assms ab eq by (intro that [of a b]) (auto simp: valid_email_def)
qed

lemma ws_len_graphic:
  assumes "is_graphic x"
  shows "ws_len (byte x # bs) = 0"
proof -
  have x: "32 < byte x" "byte x < 127" using assms by (simp_all add: is_graphic_def)
  show ?thesis
  proof (cases bs)
    case (Cons y ys)
    then show ?thesis using x by (cases ys) auto
  qed (use x in auto)
qed

lemma ws_tail_graphic:
  assumes "is_graphic x"
  shows "ws_tail (byte x # bs) = 0"
proof -
  have x: "32 < byte x" "byte x < 127" using assms by (simp_all add: is_graphic_def)
  have "ws_len [byte x] \<noteq> 1" using x by simp
  moreover have "ws_len (rev (take 2 (byte x # bs))) \<noteq> 2" using x by (cases bs) auto
  moreover have "ws_len (rev (take 3 (byte x # bs))) \<noteq> 3"
  proof (cases bs)
    case (Cons y ys)
    then show ?thesis using x by (cases ys) auto
  qed (use x in auto)
  ultimately show ?thesis by (simp add: ws_tail_def)
qed

lemma trim_graphic:
  assumes "list_all is_graphic s"
  shows "trim s = s"
proof -
  have start: "ws_len (map byte s) = 0"
    using assms by (cases s) (simp_all add: ws_len_graphic)
  have "ws_tail (map byte (rev s)) = 0"
  proof (cases "rev s")
    case Nil
    then show ?thesis by (simp add: ws_tail_def)
  next
    case (Cons x xs)
    then have "x \<in> set s" by (metis list.set_intros(1) set_rev)
    then have "is_graphic x" using assms by (simp add: list_all_iff)
    then show ?thesis unfolding Cons list.map by (rule ws_tail_graphic)
  qed
  with start show ?thesis by (simp add: trim_def trim_start_def trim_end_def trim_by_stop)
qed

lemma lowercase_no_upper: "list_all (\<lambda>c. \<not> is_ascii_uppercase c) (to_ascii_lowercase s)"
  by (auto simp: to_ascii_lowercase_def list_all_iff is_ascii_uppercase_def byte_def of_char_of)

lemma lowercase_id: "list_all (\<lambda>c. \<not> is_ascii_uppercase c) s \<Longrightarrow> to_ascii_lowercase s = s"
  by (induction s) (auto simp: to_ascii_lowercase_def)

text \<open>
  \<open>normalize_email\<close> gives a normal form: what it returns has no upper-case letters, exactly one
  \<open>@\<close> with a non-empty local part of at most 64 bytes before it and a dotted domain after it, is at
  most 254 bytes of visible ASCII, and is mapped to itself, so that one spelling of the address is
  stored and looked up.
\<close>

theorem normalize_email_normal_form:
  assumes "normalize_email value = Inr email"
  shows "normalize_email email = Inr email \<and> length email \<le> 254 \<and> list_all is_graphic email \<and>
         list_all (\<lambda>c. \<not> is_ascii_uppercase c) email \<and>
         (\<exists>a b. email = a @ CHR ''@'' # b \<and> CHR ''@'' \<notin> set a \<and> CHR ''@'' \<notin> set b \<and>
            a \<noteq> [] \<and> length a \<le> 64 \<and> CHR ''.'' \<in> set b)"
proof -
  have v: "valid_email email" and e: "email = to_ascii_lowercase (trim value)"
    using assms by (auto simp: normalize_email_def Let_def split: if_splits)
  have low: "list_all (\<lambda>c. \<not> is_ascii_uppercase c) email" unfolding e by (rule lowercase_no_upper)
  from v show ?thesis
  proof (cases rule: valid_email_parts)
    case (1 a b)
    have "normalize_email email = Inr email"
      using v by (simp add: normalize_email_def Let_def trim_graphic [OF 1(7)] lowercase_id [OF low])
    with 1 low show ?thesis by blast
  qed
qed

theorem normalize_email_normal_form_witness:
  "normalize_email '' Ann@Mail.Example.org '' = Inr ''ann@mail.example.org'' \<and>
   normalize_email ''ann@mail.example.org'' = Inr ''ann@mail.example.org''"
proof -
  have "normalize_email '' Ann@Mail.Example.org '' = Inr ''ann@mail.example.org''" by code_simp
  then show ?thesis using normalize_email_normal_form by blast
qed

subsection \<open>A concrete store\<close>

definition ex_auth_env :: auth_env where
  "ex_auth_env = \<lparr>ae_hash_password = (\<lambda>salt p. Some (''argon:'' @ p)),
     ae_verify_password = (\<lambda>p h. h = ''argon:'' @ p), ae_hash_token = (@) ''sha:'',
     ae_encode = (\<lambda>cl. Some (''jwt:'' @ cl_session_id cl)), ae_to_vec = (\<lambda>_. Some []), ae_cookie_secure = True\<rparr>"

definition ex_token :: "string \<Rightarrow> string" where
  "ex_token n = replicate 63 (CHR ''0'') @ n"

definition ex_auth_call :: "string \<Rightarrow> auth_call" where
  "ex_auth_call n = \<lparr>ac_salt = ''salt'', ac_user_id = ''u'' @ n, ac_session_id = ''s'' @ n,
     ac_book_id = ''b'' @ n, ac_random_token = ex_token n, ac_unix_now = 1700000000,
     ac_stamp = (''e'' @ n, 0), ac_request_id = None\<rparr>"

definition ex_ses :: session_record where
  "ex_ses = \<lparr>ses_id = ''s1'', ses_user_id = ''u1'', ses_device_id = ''phone'',
     ses_refresh_hash = ''sha:'' @ ex_token ''1'', ses_revoked = False\<rparr>"

definition ex_auth_store :: memory_store where
  "ex_auth_store = empty_store\<lparr>
     users := [(''u1'', \<lparr>usr_id = ''u1'', usr_email = ''ann@example.org'',
       usr_password_hash = ''argon:correct horse'', usr_display_name = ''Ann''\<rparr>)],
     users_by_email := [(''ann@example.org'', ''u1'')],
     sessions := [(''s1'', ex_ses)],
     refresh_to_session := [(''sha:'' @ ex_token ''1'', ''s1'')]\<rparr>"

definition ex_register :: register_request where
  "ex_register = \<lparr>rq_email = ''Ann@Example.org'', rq_password = ''correct horse'', rq_display_name = ''Ann''\<rparr>"

definition ex_login :: login_request where
  "ex_login = \<lparr>lq_email = '' ANN@example.org'', lq_password = ''correct horse'', lq_device_id = ''phone'',
     lq_device_name = None, lq_session_mode = Some Cookie\<rparr>"

definition ex_body_refresh :: refresh_request where
  "ex_body_refresh = \<lparr>rf_refresh_token = Some (ex_token ''1''), rf_session_mode = None\<rparr>"

definition ex_cookie_refresh :: refresh_request where
  "ex_cookie_refresh = \<lparr>rf_refresh_token = None, rf_session_mode = Some Cookie\<rparr>"

definition ex_decode :: "string \<Rightarrow> string \<Rightarrow> claims option" where
  "ex_decode key token =
     (if key = ''key'' \<and> token = ''jwt:s1'' then Some (issued_claims (ex_auth_call ''1'') ''u1'' ''phone'')
      else if key = ''key'' \<and> token = ''jwt:s2'' then Some (issued_claims (ex_auth_call ''2'') ''u1'' ''phone'')
      else None)"

definition ex_jwt :: "string jwt_config" where
  "ex_jwt = \<lparr>jwt_decoding_key = ''key'', jwt_previous_decoding_key = None\<rparr>"

lemma ex_auth_inv: "auth_inv ex_auth_store"
proof -
  have "normalize_email ''ann@example.org'' = Inr ''ann@example.org''" by code_simp
  then show ?thesis
    by (auto simp: auth_inv_def ex_auth_store_def ex_ses_def hm_get_def empty_store_def split: if_splits intro: exI [of _ "''ann@example.org''"])
qed

lemma ex_fresh: "fresh_call ex_auth_env (ex_auth_call ''2'') ex_auth_store"
  by (auto simp: fresh_call_def ex_auth_store_def ex_ses_def ex_auth_env_def ex_auth_call_def ex_token_def hm_get_def
      split: if_splits)

lemma ex_fresh_empty: "fresh_call env c empty_store"
  by (simp add: fresh_call_def empty_store_def)

lemma ex_session: "hm_get (sessions ex_auth_store) ''s1'' = Some ex_ses" "\<not> ses_revoked ex_ses"
  by (simp_all add: ex_auth_store_def ex_ses_def hm_get_def)

lemma ex_signed: "ae_encode ex_auth_env (issued_claims (ex_auth_call ''2'') u d) = Some ''jwt:s2''"
  by (simp add: issued_claims_def ex_auth_call_def ex_auth_env_def)

lemma ex_presented:
  "presented None ex_body_refresh = Some (ex_token ''1'')"
  "presented (Some (ex_token ''1'')) ex_cookie_refresh = Some (ex_token ''1'')"
  "valid_refresh_token (ex_token ''1'')"
  by code_simp+

lemma ex_env_sel [simp]:
  "ae_hash_token ex_auth_env t = ''sha:'' @ t" "ae_encode ex_auth_env cl = Some (''jwt:'' @ cl_session_id cl)"
  "ae_hash_password ex_auth_env salt p = Some (''argon:'' @ p)"
  "ae_verify_password ex_auth_env p h = (h = ''argon:'' @ p)"
  by (simp_all add: ex_auth_env_def)

theorem auth_inv_reachable_witness:
  "auth_inv (snd (register ex_auth_env (ex_auth_call ''1'') ex_register empty_store)) \<and>
   fst (register ex_auth_env (ex_auth_call ''1'') ex_register empty_store) = Inr ''u1''"
proof
  show "auth_inv (snd (register ex_auth_env (ex_auth_call ''1'') ex_register empty_store))"
    by (rule auth_inv_reachable [where env = ex_auth_env]) (intro r_into_rtranclp step_register ex_fresh_empty)
  show "fst (register ex_auth_env (ex_auth_call ''1'') ex_register empty_store) = Inr ''u1''" by code_simp
qed

theorem live_session_refreshes_witness:
  "\<exists>cookies tk s'. refresh ex_auth_env (ex_auth_call ''2'') None ex_body_refresh ex_auth_store =
     (Inr (cookies, tk), s') \<and> tk_access_token tk = ''jwt:s2'' \<and> revoked s' ''s1''"
proof -
  have "ae_hash_token ex_auth_env (ex_token ''1'') = ses_refresh_hash ex_ses" by (simp add: ex_ses_def)
  from live_session_refreshes [OF ex_auth_inv ex_fresh ex_session ex_presented(1,3) this ex_signed]
  show ?thesis by blast
qed

theorem refresh_token_single_use_witness:
  "\<exists>r s1. refresh ex_auth_env (ex_auth_call ''2'') None ex_body_refresh ex_auth_store = (Inr r, s1) \<and>
     revoked s1 ''s1'' \<and>
     (\<exists>cookies code s3. refresh ex_auth_env (ex_auth_call ''3'') (Some (ex_token ''1'')) ex_cookie_refresh s1 =
        (Inl (cookies, ApiError 401 code), s3))"
proof -
  have h: "ae_hash_token ex_auth_env (ex_token ''1'') = ses_refresh_hash ex_ses" by (simp add: ex_ses_def)
  obtain tk s1 where "rotate_refresh_token ex_auth_env (ex_auth_call ''2'') (ses_refresh_hash ex_ses) ex_auth_store = (Inr tk, s1)"
    by (rule rotate_live [OF ex_auth_inv ex_fresh ex_session ex_signed])
  then have "\<exists>mode. refresh ex_auth_env (ex_auth_call ''2'') None ex_body_refresh ex_auth_store =
      (Inr (finish_refresh ex_auth_env mode tk), s1)"
    using refresh_presented [OF ex_presented(1,3), of ex_auth_env "ex_auth_call ''2''" ex_auth_store]
    unfolding h by auto
  then obtain r where r: "refresh ex_auth_env (ex_auth_call ''2'') None ex_body_refresh ex_auth_store = (Inr r, s1)"
    by blast
  have key: "hm_get (refresh_to_session ex_auth_store) (ae_hash_token ex_auth_env (ex_token ''1'')) = Some ''s1''"
    by (simp add: ex_auth_store_def hm_get_def)
  note once = refresh_token_single_use [OF ex_auth_inv ex_fresh r ex_presented(1) rtranclp.rtrancl_refl
      ex_presented(2), of "ex_auth_call ''3''"]
  show ?thesis using r key once by blast
qed

theorem login_tokens_work_witness:
  "\<exists>cookies tk s1. login ex_auth_env (ex_auth_call ''2'') ex_login ex_auth_store = (Inr (cookies, tk), s1) \<and>
     from_request_parts ex_decode ex_jwt s1 (Some (''Bearer '' @ tk_access_token tk)) =
       Inr \<lparr>au_user_id = ''u1'', au_session_id = ac_session_id (ex_auth_call ''2''),
         au_device_id = trim (lq_device_id ex_login)\<rparr>"
proof -
  let ?r = "\<lparr>usr_id = ''u1'', usr_email = ''ann@example.org'', usr_password_hash = ''argon:correct horse'',
    usr_display_name = ''Ann''\<rparr>"
  have e: "normalize_email (lq_email ex_login) = Inr ''ann@example.org''"
    and v: "validate_login ex_login = Inr (ex_login\<lparr>lq_email := ''ann@example.org''\<rparr>)"
    and d: "trim (lq_device_id ex_login) = ''phone''" by code_simp+
  have u: "hm_get (users_by_email ex_auth_store) ''ann@example.org'' = Some ''u1''"
    and r: "hm_get (users ex_auth_store) ''u1'' = Some ?r"
    by (simp_all add: ex_auth_store_def hm_get_def)
  have e': "normalize_email (lq_email ex_login) = Inr (usr_email ?r)" using e by simp
  have p: "ae_verify_password ex_auth_env (lq_password ex_login) (usr_password_hash ?r)"
    and m: "uses_cookie_session (lq_session_mode ex_login) = Inr True"
    by (simp_all add: ex_login_def)
  obtain cookies tk s1 where l: "login ex_auth_env (ex_auth_call ''2'') ex_login ex_auth_store = (Inr (cookies, tk), s1)"
    and ses: "hm_get (sessions s1) (ac_session_id (ex_auth_call ''2'')) =
      Some (new_session ex_auth_env (ex_auth_call ''2'') ''u1'' (trim (lq_device_id ex_login)))"
    by (rule login_accepts [OF ex_auth_inv r v e' p m ex_signed])
  have live: "\<not> revoked s1 (ac_session_id (ex_auth_call ''2''))" using ses by (simp add: revoked_def new_session_def)
  have dec: "\<And>tok. ae_encode ex_auth_env (issued_claims (ex_auth_call ''2'') ''u1'' (trim (lq_device_id ex_login))) = Some tok \<Longrightarrow>
      ex_decode (jwt_decoding_key ex_jwt) tok =
      Some (issued_claims (ex_auth_call ''2'') ''u1'' (trim (lq_device_id ex_login)))"
    unfolding ex_signed by (simp add: ex_decode_def ex_jwt_def d)
  have "from_request_parts ex_decode ex_jwt s1 (Some (''Bearer '' @ tk_access_token tk)) =
       Inr \<lparr>au_user_id = ''u1'', au_session_id = ac_session_id (ex_auth_call ''2''),
         au_device_id = trim (lq_device_id ex_login)\<rparr>"
    by (rule login_tokens_work [THEN conjunct1, OF ex_auth_inv ex_fresh l e u _ rtranclp.rtrancl_refl live]) (rule dec)
  with l show ?thesis by blast
qed

theorem logout_final_witness:
  "from_request_parts ex_decode ex_jwt ex_auth_store (Some ''Bearer jwt:s1'') =
     Inr \<lparr>au_user_id = ''u1'', au_session_id = ''s1'', au_device_id = ''phone''\<rparr> \<and>
   from_request_parts ex_decode ex_jwt
     (snd (logout ex_auth_env (ex_auth_call ''2'') \<lparr>au_user_id = ''u1'', au_session_id = ''s1'', au_device_id = ''phone''\<rparr> ex_auth_store))
     (Some ''Bearer jwt:s1'') = Inl (ApiError 401 ''SESSION_REVOKED'')"
proof
  show a: "from_request_parts ex_decode ex_jwt ex_auth_store (Some ''Bearer jwt:s1'') =
     Inr \<lparr>au_user_id = ''u1'', au_session_id = ''s1'', au_device_id = ''phone''\<rparr>"
    by (simp add: from_request_parts_def decode_access_token_def ex_jwt_def ex_decode_def issued_claims_def
        ex_auth_call_def ensure_session_active_def ex_session(1))
      (simp add: ex_ses_def session_active_def)
  have h: "ae_hash_token ex_auth_env (ex_token ''1'') = ses_refresh_hash ex_ses" by (simp add: ex_ses_def)
  have ses: "hm_get (sessions ex_auth_store) (au_session_id \<lparr>au_user_id = ''u1'', au_session_id = ''s1'',
      au_device_id = ''phone''\<rparr>) = Some ex_ses" using ex_session(1) by simp
  show "from_request_parts ex_decode ex_jwt
     (snd (logout ex_auth_env (ex_auth_call ''2'') \<lparr>au_user_id = ''u1'', au_session_id = ''s1'', au_device_id = ''phone''\<rparr> ex_auth_store))
     (Some ''Bearer jwt:s1'') = Inl (ApiError 401 ''SESSION_REVOKED'')"
    by (rule logout_final [OF ex_auth_inv a surjective_pairing rtranclp.rtrancl_refl ses ex_presented(1) h, THEN conjunct1])
qed

theorem registration_lasts_witness:
  "\<exists>cookies tk s3. login ex_auth_env (ex_auth_call ''2'') ex_login
      (snd (register ex_auth_env (ex_auth_call ''1'') ex_register empty_store)) = (Inr (cookies, tk), s3) \<and>
    tk_access_token tk = ''jwt:s2''"
proof -
  have ok: "fst (register ex_auth_env (ex_auth_call ''1'') ex_register empty_store) = Inr ''u1''"
    and v: "validate_login ex_login = Inr (ex_login\<lparr>lq_email := ''ann@example.org''\<rparr>)"
    and e: "normalize_email (lq_email ex_login) = normalize_email (rq_email ex_register)"
    and w: "validate_registration ex_register = Inr (ex_register\<lparr>rq_email := ''ann@example.org''\<rparr>)"
    by code_simp+
  have inv: "auth_inv empty_store" by (simp add: auth_inv_def empty_store_def)
  have r: "register ex_auth_env (ex_auth_call ''1'') ex_register empty_store =
      (Inr ''u1'', snd (register ex_auth_env (ex_auth_call ''1'') ex_register empty_store))"
    using ok by (metis prod.collapse)
  have pw: "lq_password ex_login = rq_password ex_register" and m: "uses_cookie_session (lq_session_mode ex_login) = Inr True"
    by (simp_all add: ex_login_def ex_register_def)
  have ver: "\<forall>salt p h. ae_hash_password ex_auth_env salt p = Some h \<longrightarrow> ae_verify_password ex_auth_env p h" by simp
  show ?thesis
    using registration_lasts [OF inv ex_fresh_empty r rtranclp.rtrancl_refl ver v e pw m ex_signed w refl ex_env_sel(3)]
    by blast
qed

end
