(* ===== verification/Object_Store.thy ===== *)
theory Object_Store
  imports Prelude
begin

section \<open>The object store (infrastructure/object_store.rs)\<close>

text \<open>
  Object keys, signed URLs with their two endpoints, and the local backend: objects and the parts of
  multipart uploads as files below \<open>OBJECT_STORE_DIR\<close>. SHA-256, HMAC-SHA-256 with hex encoding and
  \<open>ObjectPath::from\<close> (which percent-encodes unusual characters) are other crates' and arguments
  here. The file system is a map from relative paths to contents and the list of the directories of
  multipart uploads; an operation that creates the parents of a file first always succeeds in
  writing it. I/O failures of the operating system itself are not modelled.

  The S3 backend is a client of another crate; the handlers that use an object store take its
  operations as a record, of which \<open>local_ops\<close> is the local instance.
\<close>

type_synonym bytes = string

subsection \<open>Keys\<close>

fun trim_start_char :: "char \<Rightarrow> string \<Rightarrow> string" where
  "trim_start_char d [] = []"
| "trim_start_char d (c # s) = (if c = d then trim_start_char d s else c # s)"

definition trim_end_char :: "char \<Rightarrow> string \<Rightarrow> string" where
  "trim_end_char d s = rev (trim_start_char d (rev s))"

definition bad_segment :: "string \<Rightarrow> bool" where
  "bad_segment seg \<longleftrightarrow> seg = [] \<or> seg = ''.'' \<or> seg = ''..''"

text \<open>\<open>Path::is_absolute\<close> on Unix: the path starts with a slash.\<close>

definition validated_key :: "string \<Rightarrow> string option" where
  "validated_key object_key =
     (let key = trim_start_char (CHR ''/'') object_key in
      if key = [] \<or> CHR 0x5C \<in> set key \<or> hd key = CHR ''/'' \<or>
         list_ex bad_segment (split_on (CHR ''/'') key)
      then None else Some key)"

lemma trim_start_char_hd: "trim_start_char d s \<noteq> [] \<Longrightarrow> hd (trim_start_char d s) \<noteq> d"
  by (induction s) auto

lemma trim_start_char_id: "s = [] \<or> hd s \<noteq> d \<Longrightarrow> trim_start_char d s = s"
  by (cases s) auto

lemma validated_key_Some:
  "validated_key k = Some key \<longleftrightarrow>
     key = trim_start_char (CHR ''/'') k \<and> key \<noteq> [] \<and> CHR 0x5C \<notin> set key \<and>
     \<not> list_ex bad_segment (split_on (CHR ''/'') key)"
  using trim_start_char_hd [of "CHR ''/''" k] by (auto simp: validated_key_def Let_def)

lemma validated_key_fix: "validated_key k = Some key \<Longrightarrow> validated_key key = Some key"
  using trim_start_char_hd [of "CHR ''/''" k]
  by (auto simp: validated_key_Some trim_start_char_id)

subsection \<open>Signed URLs\<close>

record signing_config =
  sc_secret :: string
  sc_previous_secret :: "string option"
  sc_public_base :: string

text \<open>The three updates of the MAC are one message; \<open>mac\<close> is the keyed MAC in hex.\<close>

definition signed_message :: "string \<Rightarrow> string \<Rightarrow> nat \<Rightarrow> string" where
  "signed_message method object_key expires =
     method @ [CHR 0x0A] @ object_key @ [CHR 0x0A] @ nat_to_string expires"

definition sign_with_secret ::
  "(string \<Rightarrow> string \<Rightarrow> string) \<Rightarrow> string \<Rightarrow> string \<Rightarrow> string \<Rightarrow> nat \<Rightarrow> string" where
  "sign_with_secret mac secret method object_key expires =
     mac secret (signed_message method object_key expires)"

definition sign :: "(string \<Rightarrow> string \<Rightarrow> string) \<Rightarrow> signing_config \<Rightarrow> string \<Rightarrow> string \<Rightarrow> nat \<Rightarrow> string" where
  "sign mac cfg = sign_with_secret mac (sc_secret cfg)"

definition verify :: "(string \<Rightarrow> string \<Rightarrow> string) \<Rightarrow> signing_config \<Rightarrow> nat \<Rightarrow>
    string \<Rightarrow> string \<Rightarrow> nat \<Rightarrow> string \<Rightarrow> bool" where
  "verify mac cfg now_secs method object_key expires sig =
     (if expires < now_secs then False
      else if sign_with_secret mac (sc_secret cfg) method object_key expires = sig then True
      else (case sc_previous_secret cfg of
              None \<Rightarrow> False
            | Some previous \<Rightarrow> sign_with_secret mac previous method object_key expires = sig))"

record signed_query =
  sq_expires :: nat
  sq_sig :: string
  sq_method :: "string option"

text \<open>
  The URL is its path and its query parameters, as the router and the query extractor take them
  apart again; \<open>now_secs() + ttl_secs\<close> is a \<open>u64\<close> of a few thousand years.
\<close>

definition sign_url :: "(string \<Rightarrow> string \<Rightarrow> string) \<Rightarrow> signing_config \<Rightarrow> nat \<Rightarrow> string \<Rightarrow> string \<Rightarrow> nat \<Rightarrow>
    string \<times> signed_query" where
  "sign_url mac cfg now_secs method object_key ttl_secs =
     (let expires = now_secs + ttl_secs; sig = sign mac cfg method object_key expires in
      (trim_end_char (CHR ''/'') (sc_public_base cfg) @ ''/v1/object-store/'' @
         trim_start_char (CHR ''/'') object_key,
       \<lparr>sq_expires = expires, sq_sig = sig, sq_method = Some method\<rparr>))"

subsection \<open>The local backend\<close>

record local_fs =
  fs_files :: "(string, bytes) hashmap"
  fs_part_dirs :: "string list"

record stored_object_metadata =
  som_key :: string
  som_size_bytes :: nat
  som_sha256 :: string

datatype store_error = InvalidKey | ObjectMissing | InvalidPartId | IoNotFound | UploadIdMissing | NotConfigured | RemoteFailed

type_synonym 'a store_result = "store_error + 'a"

text \<open>What the backend takes from other crates.\<close>

record local_env =
  le_object_path :: "string \<Rightarrow> string"
  le_sha256 :: "bytes \<Rightarrow> string"

definition object_path :: "local_env \<Rightarrow> string \<Rightarrow> string store_result" where
  "object_path env object_key =
     (case validated_key object_key of None \<Rightarrow> Inl InvalidKey | Some key \<Rightarrow> Inr (le_object_path env key))"

definition put_bytes :: "local_env \<Rightarrow> string \<Rightarrow> bytes \<Rightarrow> local_fs \<Rightarrow> unit store_result \<times> local_fs" where
  "put_bytes env object_key body fs =
     (case object_path env object_key of
        Inl e \<Rightarrow> (Inl e, fs)
      | Inr path \<Rightarrow> (Inr (), fs\<lparr>fs_files := hm_insert path body (fs_files fs)\<rparr>))"

definition get_bytes :: "local_env \<Rightarrow> string \<Rightarrow> local_fs \<Rightarrow> bytes option store_result" where
  "get_bytes env object_key fs =
     (case object_path env object_key of Inl e \<Rightarrow> Inl e | Inr path \<Rightarrow> Inr (hm_get (fs_files fs) path))"

definition object_size :: "local_env \<Rightarrow> string \<Rightarrow> local_fs \<Rightarrow> nat option store_result" where
  "object_size env object_key fs =
     (case object_path env object_key of
        Inl e \<Rightarrow> Inl e
      | Inr path \<Rightarrow> Inr (map_option length (hm_get (fs_files fs) path)))"

definition object_metadata :: "local_env \<Rightarrow> string \<Rightarrow> local_fs \<Rightarrow> stored_object_metadata store_result" where
  "object_metadata env object_key fs =
     (case validated_key object_key of
        None \<Rightarrow> Inl InvalidKey
      | Some key \<Rightarrow>
          (case object_path env key of
             Inl e \<Rightarrow> Inl e
           | Inr path \<Rightarrow>
               (case hm_get (fs_files fs) path of
                  None \<Rightarrow> Inl ObjectMissing
                | Some content \<Rightarrow> Inr \<lparr>som_key = key, som_size_bytes = length content,
                    som_sha256 = le_sha256 env content\<rparr>)))"

definition delete_object :: "local_env \<Rightarrow> string \<Rightarrow> local_fs \<Rightarrow> unit store_result \<times> local_fs" where
  "delete_object env object_key fs =
     (case object_path env object_key of
        Inl e \<Rightarrow> (Inl e, fs)
      | Inr path \<Rightarrow> (Inr (), fs\<lparr>fs_files := hm_remove path (fs_files fs)\<rparr>))"

subsection \<open>Multipart uploads\<close>

definition local_multipart_dir :: "string \<Rightarrow> string store_result" where
  "local_multipart_dir object_key =
     (case validated_key object_key of None \<Rightarrow> Inl InvalidKey | Some key \<Rightarrow> Inr (''.multipart/'' @ key))"

definition start_multipart :: "string \<Rightarrow> local_fs \<Rightarrow> string option store_result \<times> local_fs" where
  "start_multipart object_key fs =
     (case local_multipart_dir object_key of
        Inl e \<Rightarrow> (Inl e, fs)
      | Inr dir \<Rightarrow> (Inr None, fs\<lparr>fs_part_dirs := List.insert dir (fs_part_dirs fs)\<rparr>))"

text \<open>\<open>{part_number:08}\<close>: decimal, padded with zeros to eight places.\<close>

definition pad8 :: "nat \<Rightarrow> string" where
  "pad8 n = (let s = nat_to_string n in replicate (8 - length s) (CHR ''0'') @ s)"

lemma digits_value_zeros: "digits_value 0 (replicate k (CHR ''0'') @ t) = digits_value 0 t"
  by (induction k) (auto simp: is_ascii_digit_def byte_def)

lemma pad8_inject: "pad8 a = pad8 b \<longleftrightarrow> a = b"
  by (metis digits_value_nat_to_string digits_value_zeros option.inject pad8_def)

lemma pad8_digits: "list_all is_ascii_digit (pad8 n)"
  using nat_to_string_digits [of n] by (auto simp: pad8_def Let_def list_all_iff is_ascii_digit_def byte_def)

lemma pad8_not_Nil [simp]: "pad8 n \<noteq> []" "[] \<noteq> pad8 n"
  by (simp_all add: pad8_def Let_def)

definition part_path :: "string \<Rightarrow> string \<Rightarrow> string" where
  "part_path dir part_id = dir @ ''/part-'' @ part_id"

text \<open>Writing a part does not create the directory of the upload.\<close>

definition put_multipart_part ::
  "string \<Rightarrow> nat \<Rightarrow> bytes \<Rightarrow> local_fs \<Rightarrow> string store_result \<times> local_fs" where
  "put_multipart_part object_key part_number body fs =
     (let part_id = pad8 part_number in
      case local_multipart_dir object_key of
        Inl e \<Rightarrow> (Inl e, fs)
      | Inr dir \<Rightarrow>
          if dir \<notin> set (fs_part_dirs fs) then (Inl IoNotFound, fs)
          else (Inr part_id, fs\<lparr>fs_files := hm_insert (part_path dir part_id) body (fs_files fs)\<rparr>))"

definition bad_part_id :: "string \<Rightarrow> bool" where
  "bad_part_id part_id \<longleftrightarrow>
     part_id = [] \<or> CHR ''/'' \<in> set part_id \<or> CHR 0x5C \<in> set part_id \<or> contains_str ''..'' part_id"

text \<open>The loop that copies the parts; the content written so far is returned with the error.\<close>

fun copy_parts :: "string \<Rightarrow> string list \<Rightarrow> bytes \<Rightarrow> local_fs \<Rightarrow> unit store_result \<times> bytes" where
  "copy_parts dir [] output fs = (Inr (), output)"
| "copy_parts dir (part_id # part_ids) output fs =
     (if bad_part_id part_id then (Inl InvalidPartId, output)
      else case hm_get (fs_files fs) (part_path dir part_id) of
        None \<Rightarrow> (Inl IoNotFound, output)
      | Some input \<Rightarrow> copy_parts dir part_ids (output @ input) fs)"

text \<open>\<open>remove_dir_all\<close>, which is no error when the directory does not exist.\<close>

definition remove_dir_all :: "string \<Rightarrow> local_fs \<Rightarrow> local_fs" where
  "remove_dir_all dir fs =
     fs\<lparr>fs_files := filter (\<lambda>(p, _). \<not> starts_with (dir @ ''/'') p) (fs_files fs),
        fs_part_dirs := filter (\<lambda>d. d \<noteq> dir \<and> \<not> starts_with (dir @ ''/'') d) (fs_part_dirs fs)\<rparr>"

text \<open>
  \<open>tmp\<close> is the path of the temporary file (\<open>with_extension\<close> of a fresh UUID): it takes what has been
  copied, is left behind by an error and is renamed to the target otherwise.
\<close>

definition complete_multipart ::
  "string \<Rightarrow> string \<Rightarrow> string list \<Rightarrow> local_fs \<Rightarrow> unit store_result \<times> local_fs" where
  "complete_multipart tmp object_key part_ids fs =
     (case local_multipart_dir object_key of
        Inl e \<Rightarrow> (Inl e, fs)
      | Inr dir \<Rightarrow>
          (case validated_key object_key of
             None \<Rightarrow> (Inl InvalidKey, fs)
           | Some target \<Rightarrow>
               (case copy_parts dir part_ids [] (fs\<lparr>fs_files := hm_insert tmp [] (fs_files fs)\<rparr>) of
                  (Inl e, output) \<Rightarrow> (Inl e, fs\<lparr>fs_files := hm_insert tmp output (fs_files fs)\<rparr>)
                | (Inr _, output) \<Rightarrow>
                    (Inr (), remove_dir_all dir
                       (fs\<lparr>fs_files := hm_insert target output (hm_remove tmp (fs_files fs))\<rparr>)))))"

definition abort_multipart :: "string \<Rightarrow> local_fs \<Rightarrow> unit store_result \<times> local_fs" where
  "abort_multipart object_key fs =
     (case local_multipart_dir object_key of
        Inl e \<Rightarrow> (Inl e, fs)
      | Inr dir \<Rightarrow> (Inr (), remove_dir_all dir fs))"

subsection \<open>The signed endpoints\<close>

definition put_object :: "(string \<Rightarrow> string \<Rightarrow> string) \<Rightarrow> signing_config \<Rightarrow> nat \<Rightarrow> local_env \<Rightarrow>
    string \<Rightarrow> signed_query \<Rightarrow> bytes \<Rightarrow> local_fs \<Rightarrow> unit api_result \<times> local_fs" where
  "put_object mac cfg now_secs env key q body fs =
     (let method = (case sq_method q of Some x \<Rightarrow> x | None \<Rightarrow> ''PUT'') in
      if method \<noteq> ''PUT'' \<or> \<not> verify mac cfg now_secs ''PUT'' key (sq_expires q) (sq_sig q)
      then (Inl (ApiError 403 ''BAD_SIGNATURE''), fs)
      else case validated_key key of
        None \<Rightarrow> (Inl (ApiError 400 ''INVALID_KEY''), fs)
      | Some _ \<Rightarrow>
          (case put_bytes env key body fs of
             (Inl _, fs') \<Rightarrow> (Inl (ApiError 500 ''OBJECT_STORE_IO''), fs')
           | (Inr _, fs') \<Rightarrow> (Inr (), fs')))"

definition get_object :: "(string \<Rightarrow> string \<Rightarrow> string) \<Rightarrow> signing_config \<Rightarrow> nat \<Rightarrow> local_env \<Rightarrow>
    string \<Rightarrow> signed_query \<Rightarrow> local_fs \<Rightarrow> bytes api_result" where
  "get_object mac cfg now_secs env key q fs =
     (let method = (case sq_method q of Some x \<Rightarrow> x | None \<Rightarrow> ''GET'') in
      if method \<noteq> ''GET'' \<or> \<not> verify mac cfg now_secs ''GET'' key (sq_expires q) (sq_sig q)
      then Inl (ApiError 403 ''BAD_SIGNATURE'')
      else case validated_key key of
        None \<Rightarrow> Inl (ApiError 400 ''INVALID_KEY'')
      | Some _ \<Rightarrow>
          (case get_bytes env key fs of
             Inl _ \<Rightarrow> Inl (ApiError 500 ''OBJECT_STORE_IO'')
           | Inr None \<Rightarrow> Inl (ApiError 404 ''NOT_FOUND'')
           | Inr (Some content) \<Rightarrow> Inr content))"

subsection \<open>What a signature authorises\<close>

lemma nat_to_string_inject: "nat_to_string a = nat_to_string b \<longleftrightarrow> a = b"
  by (metis digits_value_nat_to_string option.inject)

lemma nat_to_string_no_newline: "CHR 0x0A \<notin> set (nat_to_string n)"
  using nat_to_string_digits [of n] by (auto simp: list_all_iff is_ascii_digit_def byte_def)

lemma last_separator:
  assumes "a @ d # x = b @ d # y" and "d \<notin> set x" and "d \<notin> set y"
  shows "a = b \<and> x = y"
proof -
  have "takeWhile ((\<noteq>) d) (rev x @ d # rev a) = takeWhile ((\<noteq>) d) (rev y @ d # rev b)"
    using assms(1) by (metis append.assoc append_Cons append_Nil rev.simps(2) rev_append)
  moreover have "takeWhile ((\<noteq>) d) (rev z @ d # w) = rev z" if "d \<notin> set z" for z w
    using that by (subst takeWhile_append2) auto
  ultimately have "x = y" using assms(2,3) by simp
  then show ?thesis using assms(1) by simp
qed

lemma signed_message_inject:
  assumes "m \<in> {''PUT'', ''GET''}" and "m' \<in> {''PUT'', ''GET''}"
  shows "signed_message m k e = signed_message m' k' e' \<longleftrightarrow> m = m' \<and> k = k' \<and> e = e'"
proof
  assume eq: "signed_message m k e = signed_message m' k' e'"
  then have "m = m'" using assms by (auto simp: signed_message_def)
  with eq have "k @ CHR 0x0A # nat_to_string e = k' @ CHR 0x0A # nat_to_string e'"
    by (simp add: signed_message_def)
  then have "k = k' \<and> nat_to_string e = nat_to_string e'"
    by (rule last_separator) (rule nat_to_string_no_newline)+
  with \<open>m = m'\<close> show "m = m' \<and> k = k' \<and> e = e'" by (simp add: nat_to_string_inject)
qed simp

text \<open>
  A signed URL authorises exactly one method on one object until it expires. With a MAC free of
  collisions and of forgeries across secrets, the signature of a URL made for one method, key and
  lifetime is accepted for a request exactly when the request has that method, that key and that
  expiry, the expiry has not passed, and the secret it was made with is the current or the previous
  one: rotating the secret keeps the URLs already handed out valid, once.
\<close>

theorem signed_url_scope:
  assumes "\<forall>s s' x x'. mac s x = mac s' x' \<longrightarrow> s = s' \<and> x = x'"
    and "m \<in> {''PUT'', ''GET''}" and "m' \<in> {''PUT'', ''GET''}"
    and "sign_url mac signer made_at m' k' ttl = (url, q)"
  shows "verify mac cfg now_secs m k e (sq_sig q) \<longleftrightarrow>
           m = m' \<and> k = k' \<and> e = sq_expires q \<and> now_secs \<le> made_at + ttl \<and>
           (sc_secret cfg = sc_secret signer \<or> sc_previous_secret cfg = Some (sc_secret signer))"
proof -
  have q: "sq_expires q = made_at + ttl"
      "sq_sig q = mac (sc_secret signer) (signed_message m' k' (made_at + ttl))"
    using assms(4) by (auto simp: sign_url_def sign_def sign_with_secret_def Let_def)
  have mac: "mac s (signed_message m k e) = sq_sig q \<longleftrightarrow>
      s = sc_secret signer \<and> m = m' \<and> k = k' \<and> e = made_at + ttl" for s
    unfolding q(2) using assms(1) signed_message_inject [OF assms(2,3)] by metis
  have "verify mac cfg now_secs m k e (sq_sig q) \<longleftrightarrow> now_secs \<le> e \<and>
      (mac (sc_secret cfg) (signed_message m k e) = sq_sig q \<or>
       (\<exists>p. sc_previous_secret cfg = Some p \<and> mac p (signed_message m k e) = sq_sig q))"
    by (auto simp: verify_def sign_with_secret_def split: option.splits)
  also have "\<dots> \<longleftrightarrow> m = m' \<and> k = k' \<and> e = sq_expires q \<and> now_secs \<le> made_at + ttl \<and>
      (sc_secret cfg = sc_secret signer \<or> sc_previous_secret cfg = Some (sc_secret signer))"
    unfolding mac q(1) by auto
  finally show ?thesis .
qed

text \<open>A toy MAC without collisions: the secret and the message, each character marked by its side.\<close>

definition ex_mac :: "string \<Rightarrow> string \<Rightarrow> string" where
  "ex_mac secret msg = concat (map (\<lambda>c. [CHR ''s'', c]) secret) @ concat (map (\<lambda>c. [CHR ''m'', c]) msg)"

lemma marked_inject:
  assumes "a \<noteq> b"
  shows "concat (map (\<lambda>c. [a, c]) x) @ concat (map (\<lambda>c. [b, c]) y) =
    concat (map (\<lambda>c. [a, c]) x') @ concat (map (\<lambda>c. [b, c]) y') \<longleftrightarrow> x = x' \<and> y = y'"
proof -
  have one: "concat (map (\<lambda>c. [b, c]) u) = concat (map (\<lambda>c. [b, c]) v) \<longleftrightarrow> u = v" for u v
  proof (induction u arbitrary: v)
    case Nil
    then show ?case by (cases v) auto
  next
    case (Cons z u)
    then show ?case by (cases v) auto
  qed
  show ?thesis
  proof (induction x arbitrary: x')
    case Nil
    show ?case
    proof (cases x')
      case Nil
      then show ?thesis by (simp add: one)
    next
      case (Cons w x'')
      then show ?thesis using assms by (cases y) auto
    qed
  next
    case (Cons z x)
    then show ?case using assms by (cases x'; cases y') auto
  qed
qed

definition ex_signer :: signing_config where
  "ex_signer = \<lparr>sc_secret = ''old'', sc_previous_secret = None, sc_public_base = ''https://ledger.example/''\<rparr>"

theorem signed_url_scope_witness:
  "verify ex_mac \<lparr>sc_secret = ''new'', sc_previous_secret = Some ''old'', sc_public_base = []\<rparr> 100 ''PUT''
     ''books/b/a'' 700 (sq_sig (snd (sign_url ex_mac ex_signer 100 ''PUT'' ''books/b/a'' 600))) \<and>
   \<not> verify ex_mac ex_signer 100 ''GET''
     ''books/b/a'' 700 (sq_sig (snd (sign_url ex_mac ex_signer 100 ''PUT'' ''books/b/a'' 600)))"
proof -
  have mac: "\<forall>s s' x x'. ex_mac s x = ex_mac s' x' \<longrightarrow> s = s' \<and> x = x'"
    unfolding ex_mac_def by (subst marked_inject) simp_all
  have q: "sq_expires (snd (sign_url ex_mac ex_signer 100 ''PUT'' ''books/b/a'' 600)) = 700"
    by (simp add: sign_url_def Let_def)
  show ?thesis
    using signed_url_scope [where m = "''PUT''" and m' = "''PUT''" and signer = ex_signer and made_at = 100
        and k' = "''books/b/a''" and ttl = 600, OF mac _ _ surjective_pairing]
      signed_url_scope [where m = "''GET''" and m' = "''PUT''" and signer = ex_signer and made_at = 100
        and k' = "''books/b/a''" and ttl = 600, OF mac _ _ surjective_pairing] q
    by (simp add: ex_signer_def)
qed

subsection \<open>Files after an operation\<close>

lemma hm_get_filter:
  "hm_get (filter (\<lambda>(k, _). P k) m) k = (if P k then hm_get m k else None)"
  by (induction m) (auto simp: hm_get_def)

lemma remove_dir_all_files:
  "hm_get (fs_files (remove_dir_all dir fs)) p =
     (if starts_with (dir @ ''/'') p then None else hm_get (fs_files fs) p)"
  using hm_get_filter [of "\<lambda>p. \<not> starts_with (dir @ ''/'') p" "fs_files fs" p]
  by (simp add: remove_dir_all_def)

lemma starts_with_append [simp]: "starts_with p (p @ t)"
  by (simp add: starts_with_iff)

text \<open>A key outside the directory of part files: every key the handlers make starts with \<open>books/\<close>.\<close>

definition plain_key :: "string \<Rightarrow> bool" where
  "plain_key key \<longleftrightarrow> validated_key key = Some key \<and> \<not> starts_with ''.multipart/'' key"

lemma plain_key_multipart [simp]: "plain_key key \<Longrightarrow> local_multipart_dir key = Inr (''.multipart/'' @ key)"
  by (simp add: plain_key_def local_multipart_dir_def)

lemma copy_parts_Inr:
  "(\<forall>i \<in> set ids. \<not> bad_part_id i \<and> hm_get (fs_files fs) (part_path dir i) = Some (part i)) \<Longrightarrow>
     copy_parts dir ids acc fs = (Inr (), acc @ concat (map part ids))"
  by (induction ids arbitrary: acc) auto

end
