(* ===== verification/Attachments.thy ===== *)
theory Attachments
  imports Object_Store Audit_Trail Authz
begin

section \<open>Attachments of a book (transport/http/commercial.rs)\<close>

text \<open>
  Upload sessions, single and multipart uploads, completion with verification, listing and deletion,
  over the in-memory catalogue and any object store. The operations of the object store a handler
  calls are a record of functions (\<open>store_ops\<close>) over a state of its own; \<open>local_ops\<close> instantiates
  it with the local backend. A handler returns its response and both states. Between the read and
  the write of the catalogue other requests may run in the program; here a handler runs as one step.

  \<open>att_call\<close> is what a request reads from outside: the fresh id, the clock, the stamp of its audit
  event and the request id header; \<open>att_config\<close> the configured limit and the JSON encoder.
\<close>

record 'o store_ops =
  so_is_s3 :: bool
  so_start :: "string \<Rightarrow> 'o \<Rightarrow> string option store_result \<times> 'o"
  so_put_part :: "string \<Rightarrow> string option \<Rightarrow> nat \<Rightarrow> bytes \<Rightarrow> 'o \<Rightarrow> string store_result \<times> 'o"
  so_complete :: "string \<Rightarrow> string option \<Rightarrow> string list \<Rightarrow> 'o \<Rightarrow> unit store_result \<times> 'o"
  so_abort :: "string \<Rightarrow> string option \<Rightarrow> 'o \<Rightarrow> unit store_result \<times> 'o"
  so_delete :: "string \<Rightarrow> 'o \<Rightarrow> unit store_result \<times> 'o"
  so_size :: "string \<Rightarrow> 'o \<Rightarrow> nat option store_result"
  so_metadata :: "string \<Rightarrow> 'o \<Rightarrow> stored_object_metadata store_result"
  so_direct_url :: "string \<Rightarrow> string \<Rightarrow> nat \<Rightarrow> string option store_result"
  so_part_url :: "string \<Rightarrow> string option \<Rightarrow> nat \<Rightarrow> nat \<Rightarrow> string option store_result"
  so_sign_url :: "string \<Rightarrow> string \<Rightarrow> nat \<Rightarrow> string"

text \<open>The local backend never hands out direct URLs and has no upload ids.\<close>

definition local_ops :: "local_env \<Rightarrow> string \<Rightarrow> (string \<Rightarrow> string \<Rightarrow> nat \<Rightarrow> string) \<Rightarrow> local_fs store_ops" where
  "local_ops env tmp url =
     \<lparr>so_is_s3 = False, so_start = start_multipart,
      so_put_part = (\<lambda>key _ n body. put_multipart_part key n body),
      so_complete = (\<lambda>key _ ids. complete_multipart tmp key ids),
      so_abort = (\<lambda>key _. abort_multipart key),
      so_delete = delete_object env, so_size = object_size env, so_metadata = object_metadata env,
      so_direct_url = (\<lambda>_ _ _. Inr None), so_part_url = (\<lambda>_ _ _ _. Inr None), so_sign_url = url\<rparr>"

record att_config =
  cf_attachment_max_bytes :: nat
  cf_to_vec :: "json \<Rightarrow> string option"

record att_call =
  tc_id :: string
  tc_now :: timestamp
  tc_stamp :: "string \<times> timestamp"
  tc_request_id :: "string option"

definition object_store_api_error :: api_error where
  "object_store_api_error = ApiError 500 ''OBJECT_STORE_IO''"

definition att_audit :: "att_config \<Rightarrow> att_call \<Rightarrow> audit_event \<Rightarrow> memory_store \<Rightarrow> memory_store" where
  "att_audit cf c ev =
     record_memory (cf_to_vec cf) (tc_stamp c) (with_request_id (request_id (tc_request_id c)) ev)"

definition att_event :: "string \<Rightarrow> string \<Rightarrow> audit_outcome \<Rightarrow> string \<Rightarrow> (string \<times> json) list \<Rightarrow> audit_event" where
  "att_event user_id action outcome attachment_id md =
     with_metadata (json_object md) (with_target ''attachment'' attachment_id (user_event user_id action outcome))"

subsection \<open>The catalogue\<close>

definition is_attachment :: "string \<Rightarrow> string \<Rightarrow> attachment_record \<Rightarrow> bool" where
  "is_attachment book_id attachment_id r \<longleftrightarrow> att_id r = attachment_id \<and> att_book_id r = book_id"

definition find_attachment :: "memory_store \<Rightarrow> string \<Rightarrow> string \<Rightarrow> attachment_record option" where
  "find_attachment s book_id attachment_id =
     List.find (is_attachment book_id attachment_id) (attachments s)"

text \<open>\<open>iter_mut().find(..)\<close>: the first match is changed.\<close>

fun update_first :: "('a \<Rightarrow> bool) \<Rightarrow> ('a \<Rightarrow> 'a) \<Rightarrow> 'a list \<Rightarrow> 'a list" where
  "update_first p f [] = []"
| "update_first p f (x # xs) = (if p x then f x # xs else x # update_first p f xs)"

definition update_attachment ::
  "string \<Rightarrow> string \<Rightarrow> (attachment_record \<Rightarrow> attachment_record) \<Rightarrow> memory_store \<Rightarrow> memory_store" where
  "update_attachment book_id attachment_id f s =
     s\<lparr>attachments := update_first (is_attachment book_id attachment_id) f (attachments s)\<rparr>"

definition remove_attachment :: "string \<Rightarrow> string \<Rightarrow> memory_store \<Rightarrow> memory_store" where
  "remove_attachment book_id attachment_id s =
     s\<lparr>attachments := filter (\<lambda>r. \<not> is_attachment book_id attachment_id r) (attachments s)\<rparr>"

definition mark_attachment_failed :: "string \<Rightarrow> string \<Rightarrow> memory_store \<Rightarrow> memory_store" where
  "mark_attachment_failed book_id attachment_id =
     update_attachment book_id attachment_id (\<lambda>r. r\<lparr>att_upload_status := ''failed''\<rparr>)"

subsection \<open>The plan of a multipart upload\<close>

definition MULTIPART_PART_SIZE_BYTES :: nat where
  "MULTIPART_PART_SIZE_BYTES = 5 * 1024 * 1024"

definition multipart_part_count :: "nat \<Rightarrow> nat" where
  "multipart_part_count size_bytes =
     (size_bytes + MULTIPART_PART_SIZE_BYTES - 1) div MULTIPART_PART_SIZE_BYTES"

definition multipart_part_length :: "nat \<Rightarrow> nat \<Rightarrow> nat option" where
  "multipart_part_length size_bytes part_number =
     (let total_parts = multipart_part_count size_bytes in
      if part_number = 0 \<or> total_parts < part_number then None
      else if part_number < total_parts then Some MULTIPART_PART_SIZE_BYTES
      else Some (size_bytes - (total_parts - 1) * MULTIPART_PART_SIZE_BYTES))"

definition should_use_multipart :: "bool \<Rightarrow> int option \<Rightarrow> bool" where
  "should_use_multipart s3 declared =
     (case declared of None \<Rightarrow> False
      | Some n \<Rightarrow> (if s3 then 64 * 1024 * 1024 else 7 * 1024 * 1024) < n)"

definition validate_multipart_part_plan :: "string \<Rightarrow> string \<Rightarrow> int option \<Rightarrow> nat \<Rightarrow> nat api_result" where
  "validate_multipart_part_plan upload_mode upload_status size_bytes part_number =
     (if upload_mode \<noteq> ''multipart'' \<or> upload_status \<noteq> ''pending''
      then Inl (ApiError 409 ''MULTIPART_NOT_PENDING'')
      else case size_bytes of
        None \<Rightarrow> Inl (ApiError 400 ''INVALID_MULTIPART_STATE'')
      | Some n \<Rightarrow>
          if n < 0 then Inl (ApiError 400 ''INVALID_MULTIPART_STATE'')
          else case multipart_part_length (nat n) part_number of
            None \<Rightarrow> Inl (ApiError 400 ''INVALID_MULTIPART_PART'')
          | Some expected \<Rightarrow> Inr expected)"

definition validate_multipart_part ::
  "string \<Rightarrow> string \<Rightarrow> int option \<Rightarrow> nat \<Rightarrow> nat \<Rightarrow> unit api_result" where
  "validate_multipart_part upload_mode upload_status size_bytes part_number actual_length =
     (case validate_multipart_part_plan upload_mode upload_status size_bytes part_number of
        Inl e \<Rightarrow> Inl e
      | Inr expected \<Rightarrow>
          if actual_length \<noteq> expected then Inl (ApiError 422 ''INVALID_MULTIPART_PART_SIZE'') else Inr ())"

fun collect_strings :: "json list \<Rightarrow> string list option" where
  "collect_strings [] = Some []"
| "collect_strings (v # vs) =
     (case as_str v of None \<Rightarrow> None | Some x \<Rightarrow> map_option ((#) x) (collect_strings vs))"

definition parse_multipart_parts :: "json \<Rightarrow> string list api_result" where
  "parse_multipart_parts value =
     (case Option.bind (as_array value) collect_strings of
        None \<Rightarrow> Inl (ApiError 500 ''INVALID_MULTIPART_STATE'')
      | Some parts \<Rightarrow> Inr parts)"

text \<open>\<open>parts.resize(n, String::new())\<close>.\<close>

definition resize :: "nat \<Rightarrow> string list \<Rightarrow> string list" where
  "resize n parts = take n parts @ replicate (n - length parts) []"

definition uploaded_count :: "string list \<Rightarrow> nat" where
  "uploaded_count parts = length (filter (\<lambda>p. p \<noteq> []) parts)"

definition update_multipart_part :: "json \<Rightarrow> nat \<Rightarrow> nat \<Rightarrow> string \<Rightarrow> (json \<times> nat \<times> nat) api_result" where
  "update_multipart_part value size_bytes part_number part_id =
     (case parse_multipart_parts value of
        Inl e \<Rightarrow> Inl e
      | Inr parts \<Rightarrow>
          let total_parts = multipart_part_count size_bytes in
          if total_parts < length parts then Inl (ApiError 500 ''INVALID_MULTIPART_STATE'')
          else
            let parts = (resize total_parts parts)[part_number - 1 := part_id] in
            Inr (JArray (map JString parts), uploaded_count parts, total_parts))"

definition normalize_multipart_part_id :: "string \<Rightarrow> string api_result" where
  "normalize_multipart_part_id value =
     (let value = trim value in
      if value = [] \<or> 1024 < length value \<or> has_control value
      then Inl (ApiError 400 ''INVALID_MULTIPART_PART_ID'') else Inr value)"

text \<open>\<open>rsplit(['/', '\\']).next()\<close>: what follows the last separator.\<close>

definition normalize_attachment_file_name :: "string option \<Rightarrow> string option api_result" where
  "normalize_attachment_file_name value =
     (case map_option trim value of
        None \<Rightarrow> Inr None
      | Some v \<Rightarrow>
          if v = [] then Inr None
          else
            let v = rev (takeWhile (\<lambda>c. c \<noteq> CHR ''/'' \<and> c \<noteq> CHR 0x5C) (rev v)) in
            if 255 < length v then Inl (ApiError 400 ''INVALID_ATTACHMENT_FILE_NAME'') else Inr (Some v))"

subsection \<open>Upload sessions\<close>

record upload_session_request =
  us_transaction_id :: "string option"
  us_mime_type :: "string option"
  us_file_name :: "string option"
  us_size :: "int option"

definition new_attachment :: "att_call \<Rightarrow> string \<Rightarrow> string \<Rightarrow> upload_session_request \<Rightarrow> string option \<Rightarrow>
    string \<Rightarrow> string \<Rightarrow> string option \<Rightarrow> attachment_record" where
  "new_attachment c user_id book_id req file_name object_key upload_mode upload_id =
     \<lparr>att_id = tc_id c, att_book_id = book_id, att_transaction_id = us_transaction_id req,
      att_file_name = file_name, att_object_key = object_key, att_content_hash = None,
      att_mime_type = us_mime_type req, att_size_bytes = us_size req, att_upload_status = ''pending'',
      att_upload_mode = upload_mode, att_multipart_upload_id = upload_id, att_multipart_parts = [],
      att_created_by = Some user_id, att_created_at = tc_now c\<rparr>"

definition signed_or_direct ::
  "'o store_ops \<Rightarrow> string \<Rightarrow> string \<Rightarrow> nat \<Rightarrow> (string \<times> string) api_result" where
  "signed_or_direct ops method object_key ttl =
     (case so_direct_url ops method object_key ttl of
        Inl _ \<Rightarrow> Inl object_store_api_error
      | Inr (Some url) \<Rightarrow> Inr (url, ''direct'')
      | Inr None \<Rightarrow> Inr (so_sign_url ops method object_key ttl, ''proxy''))"

definition session_json :: "att_config \<Rightarrow> string \<Rightarrow> string \<Rightarrow> (string \<times> json) list \<Rightarrow> json" where
  "session_json cf attachment_id object_key extra =
     json_object ([(''attachmentId'', JString attachment_id), (''objectKey'', JString object_key),
       (''uploadHeaders'', json_object []), (''maxSizeBytes'', JInt (int (cf_attachment_max_bytes cf)))] @ extra)"

text \<open>The answer to a session that was stored; its mode is recorded by the audit event.\<close>

definition session_response :: "'o store_ops \<Rightarrow> att_config \<Rightarrow> string \<Rightarrow> string \<Rightarrow> bool \<Rightarrow> (string \<times> json) api_result" where
  "session_response ops cf attachment_id object_key multipart =
     (if multipart then
        Inr (''multipart'', session_json cf attachment_id object_key
          [(''uploadUrl'', JNull), (''uploadMode'', JString ''multipart''), (''downloadUrl'', JNull),
           (''downloadMode'', JNull), (''partSizeBytes'', JInt (int MULTIPART_PART_SIZE_BYTES)),
           (''expiresIn'', JInt 86400)])
      else case signed_or_direct ops ''PUT'' object_key 600 of
        Inl e \<Rightarrow> Inl e
      | Inr (upload_url, upload_mode) \<Rightarrow>
          (case signed_or_direct ops ''GET'' object_key 3600 of
             Inl e \<Rightarrow> Inl e
           | Inr (download_url, download_mode) \<Rightarrow>
               Inr (upload_mode, session_json cf attachment_id object_key
                 [(''uploadUrl'', JString upload_url), (''uploadMode'', JString upload_mode),
                  (''downloadUrl'', JString download_url), (''downloadMode'', JString download_mode),
                  (''expiresIn'', JInt 600)])))"

definition create_upload_session :: "'o store_ops \<Rightarrow> att_config \<Rightarrow> att_call \<Rightarrow> string \<Rightarrow> string \<Rightarrow>
    upload_session_request \<Rightarrow> memory_store \<times> 'o \<Rightarrow> json api_result \<times> memory_store \<times> 'o" where
  "create_upload_session ops cf c user_id book_id req = (\<lambda>(s, ob).
     case require_book_member s user_id book_id of Inl e \<Rightarrow> (Inl e, s, ob) | Inr _ \<Rightarrow>
     case require_plan s user_id ''plus'' of Inl e \<Rightarrow> (Inl e, s, ob) | Inr _ \<Rightarrow>
     case normalize_attachment_file_name (us_file_name req) of Inl e \<Rightarrow> (Inl e, s, ob) | Inr file_name \<Rightarrow>
     if (case us_size req of None \<Rightarrow> False | Some n \<Rightarrow> n < 0)
     then (Inl (ApiError 400 ''INVALID_ATTACHMENT_SIZE''), s, ob)
     else if (case us_size req of None \<Rightarrow> False | Some n \<Rightarrow> int (cf_attachment_max_bytes cf) < n)
     then (Inl (ApiError 413 ''ATTACHMENT_TOO_LARGE''), s, ob)
     else
       let object_key = ''books/'' @ book_id @ ''/'' @ tc_id c;
           multipart = should_use_multipart (so_is_s3 ops) (us_size req) in
       case (if multipart then so_start ops object_key ob else (Inr None, ob)) of
         (Inl _, ob1) \<Rightarrow> (Inl object_store_api_error, s, ob1)
       | (Inr upload_id, ob1) \<Rightarrow>
           let record_mode = (if multipart then ''multipart'' else ''single'');
               s1 = s\<lparr>attachments := attachments s @
                 [new_attachment c user_id book_id req file_name object_key record_mode upload_id]\<rparr> in
           case session_response ops cf (tc_id c) object_key multipart of
             Inl e \<Rightarrow> (Inl e, s1, ob1)
           | Inr (mode, response) \<Rightarrow>
               (Inr response,
                att_audit cf c (att_event user_id ''attachment.upload_session'' Success (tc_id c)
                  [(''bookId'', JString book_id), (''uploadMode'', JString mode)]) s1, ob1))"

subsection \<open>Parts\<close>

definition part_json :: "nat \<Rightarrow> string \<Rightarrow> nat \<Rightarrow> nat \<Rightarrow> json" where
  "part_json part_number part_id uploaded_parts total_parts =
     json_object [(''partNumber'', JInt (int part_number)), (''partId'', JString part_id),
       (''uploadedParts'', JInt (int uploaded_parts)), (''totalParts'', JInt (int total_parts))]"

text \<open>
  The size goes through \<open>as u64\<close> and back through \<open>as i64\<close>, which returns the same value; a
  validated one is not negative, so the part count is that of its natural number. A record whose
  part list is longer than the plan is refused after the part has been stored.
\<close>

definition upload_multipart_part :: "'o store_ops \<Rightarrow> string \<Rightarrow> string \<Rightarrow> string \<Rightarrow> nat \<Rightarrow> bytes \<Rightarrow>
    memory_store \<times> 'o \<Rightarrow> json api_result \<times> memory_store \<times> 'o" where
  "upload_multipart_part ops user_id book_id attachment_id part_number body = (\<lambda>(s, ob).
     case require_book_member s user_id book_id of Inl e \<Rightarrow> (Inl e, s, ob) | Inr _ \<Rightarrow>
     case require_plan s user_id ''plus'' of Inl e \<Rightarrow> (Inl e, s, ob) | Inr _ \<Rightarrow>
     if body = [] then (Inl (ApiError 400 ''EMPTY_MULTIPART_PART''), s, ob)
     else case find_attachment s book_id attachment_id of
       None \<Rightarrow> (Inl (ApiError 404 ''NOT_FOUND''), s, ob)
     | Some r \<Rightarrow>
         let size_bytes = (case att_size_bytes r of None \<Rightarrow> 0 | Some n \<Rightarrow> n) in
         case validate_multipart_part (att_upload_mode r) (att_upload_status r) (Some size_bytes)
                part_number (length body) of
           Inl e \<Rightarrow> (Inl e, s, ob)
         | Inr _ \<Rightarrow>
             (case so_put_part ops (att_object_key r) (att_multipart_upload_id r) (part_number - 1) body ob of
                (Inl _, ob1) \<Rightarrow> (Inl object_store_api_error, s, ob1)
              | (Inr part_id, ob1) \<Rightarrow>
                  let total_parts = multipart_part_count (nat size_bytes) in
                  if total_parts < length (att_multipart_parts r)
                  then (Inl (ApiError 500 ''INVALID_MULTIPART_STATE''), s, ob1)
                  else
                    let parts = (resize total_parts (att_multipart_parts r))[part_number - 1 := part_id] in
                    (Inr (part_json part_number part_id (uploaded_count parts) total_parts),
                     update_attachment book_id attachment_id (\<lambda>r. r\<lparr>att_multipart_parts := parts\<rparr>) s, ob1)))"

text \<open>The part list of a record as the JSON array the shared helpers take.\<close>

definition parts_value :: "attachment_record \<Rightarrow> json" where
  "parts_value r = JArray (map JString (att_multipart_parts r))"

definition complete_multipart_part :: "'o store_ops \<Rightarrow> string \<Rightarrow> string \<Rightarrow> string \<Rightarrow> nat \<Rightarrow> string \<Rightarrow>
    memory_store \<times> 'o \<Rightarrow> json api_result \<times> memory_store \<times> 'o" where
  "complete_multipart_part ops user_id book_id attachment_id part_number raw_part_id = (\<lambda>(s, ob).
     case require_book_member s user_id book_id of Inl e \<Rightarrow> (Inl e, s, ob) | Inr _ \<Rightarrow>
     case require_plan s user_id ''plus'' of Inl e \<Rightarrow> (Inl e, s, ob) | Inr _ \<Rightarrow>
     if \<not> so_is_s3 ops then (Inl (ApiError 409 ''MULTIPART_DIRECT_UNAVAILABLE''), s, ob)
     else case normalize_multipart_part_id raw_part_id of Inl e \<Rightarrow> (Inl e, s, ob) | Inr part_id \<Rightarrow>
     case find_attachment s book_id attachment_id of
       None \<Rightarrow> (Inl (ApiError 404 ''NOT_FOUND''), s, ob)
     | Some r \<Rightarrow>
         case validate_multipart_part_plan (att_upload_mode r) (att_upload_status r) (att_size_bytes r) part_number of
           Inl e \<Rightarrow> (Inl e, s, ob)
         | Inr _ \<Rightarrow>
             let size_bytes = (case att_size_bytes r of None \<Rightarrow> 0 | Some n \<Rightarrow> nat n) in
             case update_multipart_part (parts_value r) size_bytes part_number part_id of
               Inl e \<Rightarrow> (Inl e, s, ob)
             | Inr (parts_json, uploaded_parts, total_parts) \<Rightarrow>
                 (case parse_multipart_parts parts_json of
                    Inl e \<Rightarrow> (Inl e, s, ob)
                  | Inr parts \<Rightarrow>
                      (Inr (part_json part_number part_id uploaded_parts total_parts),
                       update_attachment book_id attachment_id (\<lambda>r. r\<lparr>att_multipart_parts := parts\<rparr>) s, ob)))"

definition multipart_part_upload_url :: "'o store_ops \<Rightarrow> string \<Rightarrow> string \<Rightarrow> string \<Rightarrow> nat \<Rightarrow>
    memory_store \<Rightarrow> json api_result" where
  "multipart_part_upload_url ops user_id book_id attachment_id part_number s =
     (case require_book_member s user_id book_id of Inl e \<Rightarrow> Inl e | Inr _ \<Rightarrow>
      case require_plan s user_id ''plus'' of Inl e \<Rightarrow> Inl e | Inr _ \<Rightarrow>
      case find_attachment s book_id attachment_id of
        None \<Rightarrow> Inl (ApiError 404 ''NOT_FOUND'')
      | Some r \<Rightarrow>
          (case att_size_bytes r of
             None \<Rightarrow> Inl (ApiError 400 ''INVALID_MULTIPART_STATE'')
           | Some n \<Rightarrow>
               if n < 0 then Inl (ApiError 400 ''INVALID_MULTIPART_STATE'')
               else case validate_multipart_part_plan (att_upload_mode r) (att_upload_status r) (Some n) part_number of
                 Inl e \<Rightarrow> Inl e
               | Inr _ \<Rightarrow>
                   (case so_part_url ops (att_object_key r) (att_multipart_upload_id r) part_number 600 of
                      Inl _ \<Rightarrow> Inl object_store_api_error
                    | Inr direct_url \<Rightarrow>
                        Inr (json_object [(''partNumber'', JInt (int part_number)),
                          (''uploadMode'', JString (if direct_url \<noteq> None then ''direct'' else ''proxy'')),
                          (''uploadUrl'', json_opt_str direct_url), (''uploadHeaders'', json_object []),
                          (''expiresIn'', JInt 600),
                          (''totalParts'', JInt (int (multipart_part_count (nat n))))]))))"

definition multipart_upload_status :: "string \<Rightarrow> string \<Rightarrow> string \<Rightarrow> memory_store \<Rightarrow> json api_result" where
  "multipart_upload_status user_id book_id attachment_id s =
     (case require_book_member s user_id book_id of Inl e \<Rightarrow> Inl e | Inr _ \<Rightarrow>
      case find_attachment s book_id attachment_id of
        None \<Rightarrow> Inl (ApiError 404 ''NOT_FOUND'')
      | Some r \<Rightarrow>
          if att_upload_mode r \<noteq> ''multipart'' then Inl (ApiError 409 ''MULTIPART_NOT_PENDING'')
          else (case att_size_bytes r of
             None \<Rightarrow> Inl (ApiError 400 ''INVALID_MULTIPART_STATE'')
           | Some n \<Rightarrow>
               if n < 0 then Inl (ApiError 400 ''INVALID_MULTIPART_STATE'')
               else case parse_multipart_parts (parts_value r) of
                 Inl e \<Rightarrow> Inl e
               | Inr parts \<Rightarrow>
                   Inr (json_object [(''attachmentId'', JString attachment_id),
                     (''objectKey'', JString (att_object_key r)), (''uploadStatus'', JString (att_upload_status r)),
                     (''uploadMode'', JString (att_upload_mode r)),
                     (''partSizeBytes'', JInt (int MULTIPART_PART_SIZE_BYTES)),
                     (''totalParts'', JInt (int (multipart_part_count (nat n)))),
                     (''uploadedPartNumbers'', JArray (map (\<lambda>(i, _). JInt (int (i + 1)))
                        (filter (\<lambda>(_, p). p \<noteq> []) (List.enumerate 0 parts))))])))"

definition abort_multipart_upload :: "'o store_ops \<Rightarrow> att_config \<Rightarrow> att_call \<Rightarrow> string \<Rightarrow> string \<Rightarrow> string \<Rightarrow>
    memory_store \<times> 'o \<Rightarrow> unit api_result \<times> memory_store \<times> 'o" where
  "abort_multipart_upload ops cf c user_id book_id attachment_id = (\<lambda>(s, ob).
     case require_book_member s user_id book_id of Inl e \<Rightarrow> (Inl e, s, ob) | Inr _ \<Rightarrow>
     case require_plan s user_id ''plus'' of Inl e \<Rightarrow> (Inl e, s, ob) | Inr _ \<Rightarrow>
     case find_attachment s book_id attachment_id of
       None \<Rightarrow> (Inl (ApiError 404 ''NOT_FOUND''), s, ob)
     | Some r \<Rightarrow>
         if att_upload_mode r \<noteq> ''multipart'' \<or> att_upload_status r \<noteq> ''pending''
         then (Inl (ApiError 409 ''MULTIPART_NOT_PENDING''), s, ob)
         else case so_abort ops (att_object_key r) (att_multipart_upload_id r) ob of
           (Inl _, ob1) \<Rightarrow> (Inl object_store_api_error, s, ob1)
         | (Inr _, ob1) \<Rightarrow>
             (Inr (), att_audit cf c (att_event user_id ''attachment.multipart_abort'' Success attachment_id
                [(''bookId'', JString book_id)]) (remove_attachment book_id attachment_id s), ob1))"

definition delete_attachment :: "'o store_ops \<Rightarrow> att_config \<Rightarrow> att_call \<Rightarrow> string \<Rightarrow> string \<Rightarrow> string \<Rightarrow>
    memory_store \<times> 'o \<Rightarrow> unit api_result \<times> memory_store \<times> 'o" where
  "delete_attachment ops cf c user_id book_id attachment_id = (\<lambda>(s, ob).
     case require_book_member s user_id book_id of Inl e \<Rightarrow> (Inl e, s, ob) | Inr _ \<Rightarrow>
     case find_attachment s book_id attachment_id of
       None \<Rightarrow> (Inl (ApiError 404 ''NOT_FOUND''), s, ob)
     | Some r \<Rightarrow>
         case so_delete ops (att_object_key r) ob of
           (Inl _, ob1) \<Rightarrow> (Inl object_store_api_error, s, ob1)
         | (Inr _, ob1) \<Rightarrow>
             (Inr (), att_audit cf c (att_event user_id ''attachment.delete'' Success attachment_id
                [(''bookId'', JString book_id)]) (remove_attachment book_id attachment_id s), ob1))"

subsection \<open>Completion\<close>

definition complete_failure ::
  "att_config \<Rightarrow> att_call \<Rightarrow> string \<Rightarrow> string \<Rightarrow> string \<Rightarrow> string \<Rightarrow> memory_store \<Rightarrow> memory_store" where
  "complete_failure cf c user_id book_id attachment_id reason =
     att_audit cf c (att_event user_id ''attachment.complete'' Failure attachment_id
       [(''bookId'', JString book_id), (''reason'', JString reason)])"

definition reject_attachment_upload :: "'o store_ops \<Rightarrow> att_config \<Rightarrow> att_call \<Rightarrow> string \<Rightarrow> string \<Rightarrow> string \<Rightarrow>
    string \<Rightarrow> string option \<Rightarrow> string \<Rightarrow> memory_store \<times> 'o \<Rightarrow> api_error \<times> memory_store \<times> 'o" where
  "reject_attachment_upload ops cf c user_id book_id attachment_id object_key upload_id reason = (\<lambda>(s, ob).
     let ob1 = (case upload_id of None \<Rightarrow> ob | Some u \<Rightarrow> snd (so_abort ops object_key (Some u) ob));
         ob2 = snd (so_delete ops object_key ob1) in
     (ApiError 422 ''UPLOAD_SIZE_MISMATCH'',
      complete_failure cf c user_id book_id attachment_id reason (mark_attachment_failed book_id attachment_id s), ob2))"

text \<open>The first half: the parts of a multipart upload are put together.\<close>

definition assemble :: "'o store_ops \<Rightarrow> att_config \<Rightarrow> att_call \<Rightarrow> string \<Rightarrow> string \<Rightarrow> attachment_record \<Rightarrow>
    memory_store \<times> 'o \<Rightarrow> unit api_result \<times> memory_store \<times> 'o" where
  "assemble ops cf c user_id book_id r = (\<lambda>(s, ob).
     if att_upload_mode r \<noteq> ''multipart'' then (Inr (), s, ob)
     else case att_size_bytes r of
       None \<Rightarrow> (Inl (ApiError 400 ''INVALID_MULTIPART_STATE''), s, ob)
     | Some n \<Rightarrow>
         if n < 0 then (Inl (ApiError 400 ''INVALID_MULTIPART_STATE''), s, ob)
         else case parse_multipart_parts (parts_value r) of Inl e \<Rightarrow> (Inl e, s, ob) | Inr part_ids \<Rightarrow>
           if length part_ids \<noteq> multipart_part_count (nat n) \<or> [] \<in> set part_ids
           then (Inl (ApiError 400 ''MULTIPART_INCOMPLETE''), s, ob)
           else case so_complete ops (att_object_key r) (att_multipart_upload_id r) part_ids ob of
             (Inl _, ob1) \<Rightarrow> (Inl object_store_api_error,
                complete_failure cf c user_id book_id (att_id r) ''multipart_complete_failed'' s, ob1)
           | (Inr _, ob1) \<Rightarrow> (Inr (), s, ob1))"

text \<open>The second half: the stored object is checked against the session and hashed.\<close>

definition verify_upload :: "'o store_ops \<Rightarrow> att_config \<Rightarrow> att_call \<Rightarrow> string \<Rightarrow> string \<Rightarrow> attachment_record \<Rightarrow>
    memory_store \<times> 'o \<Rightarrow> stored_object_metadata api_result \<times> memory_store \<times> 'o" where
  "verify_upload ops cf c user_id book_id r = (\<lambda>(s, ob).
     let fail = complete_failure cf c user_id book_id (att_id r);
         reject = (\<lambda>reason. case reject_attachment_upload ops cf c user_id book_id (att_id r)
           (att_object_key r) (att_multipart_upload_id r) reason (s, ob) of (e, rest) \<Rightarrow> (Inl e, rest)) in
     case so_size ops (att_object_key r) ob of
       Inl _ \<Rightarrow> (Inl object_store_api_error, fail ''storage_unavailable'' s, ob)
     | Inr None \<Rightarrow> (Inl (ApiError 400 ''UPLOAD_INCOMPLETE''), fail ''upload_incomplete'' s, ob)
     | Inr (Some actual_size) \<Rightarrow>
         if cf_attachment_max_bytes cf < actual_size \<or>
            (case att_size_bytes r of None \<Rightarrow> False | Some n \<Rightarrow> n < 0 \<or> nat n \<noteq> actual_size)
         then reject ''size_mismatch''
         else case so_metadata ops (att_object_key r) ob of
           Inl _ \<Rightarrow> (Inl object_store_api_error, fail ''verification_failed'' s, ob)
         | Inr md \<Rightarrow>
             if som_size_bytes md \<noteq> actual_size then reject ''size_changed_during_verification''
             else (Inr md, s, ob))"

definition mark_ready :: "stored_object_metadata \<Rightarrow> attachment_record \<Rightarrow> attachment_record" where
  "mark_ready md r = r\<lparr>att_upload_status := ''ready'', att_size_bytes := Some (as_i64 (int (som_size_bytes md))),
     att_content_hash := Some (som_sha256 md), att_multipart_upload_id := None, att_multipart_parts := []\<rparr>"

definition complete_attachment :: "'o store_ops \<Rightarrow> att_config \<Rightarrow> att_call \<Rightarrow> string \<Rightarrow> string \<Rightarrow> string \<Rightarrow>
    memory_store \<times> 'o \<Rightarrow> json api_result \<times> memory_store \<times> 'o" where
  "complete_attachment ops cf c user_id book_id attachment_id = (\<lambda>(s, ob).
     case require_book_member s user_id book_id of Inl e \<Rightarrow> (Inl e, s, ob) | Inr _ \<Rightarrow>
     case require_plan s user_id ''plus'' of Inl e \<Rightarrow> (Inl e, s, ob) | Inr _ \<Rightarrow>
     case find_attachment s book_id attachment_id of
       None \<Rightarrow> (Inl (ApiError 404 ''NOT_FOUND''), s, ob)
     | Some r \<Rightarrow>
         case assemble ops cf c user_id book_id r (s, ob) of (Inl e, rest) \<Rightarrow> (Inl e, rest) | (Inr _, s1, ob1) \<Rightarrow>
         case verify_upload ops cf c user_id book_id r (s1, ob1) of (Inl e, rest) \<Rightarrow> (Inl e, rest) | (Inr md, s2, ob2) \<Rightarrow>
           let s3 = update_attachment book_id attachment_id (mark_ready md) s2 in
           case signed_or_direct ops ''GET'' (att_object_key r) 3600 of
             Inl e \<Rightarrow> (Inl e, s3, ob2)
           | Inr (download_url, _) \<Rightarrow>
               (Inr (json_object [(''attachmentId'', JString attachment_id), (''uploadStatus'', JString ''ready''),
                  (''downloadUrl'', JString download_url)]),
                att_audit cf c (att_event user_id ''attachment.complete'' Success attachment_id
                  [(''bookId'', JString book_id)]) s3, ob2))"

subsection \<open>The catalogue listing\<close>

text \<open>Newest first, and by descending id among equal times; \<open>sort_by\<close> is stable.\<close>

definition catalogue_order :: "attachment_record list \<Rightarrow> attachment_record list" where
  "catalogue_order rs = rev (sort_key att_created_at (sort_key att_id (rev rs)))"

definition attachment_download_info ::
  "'o store_ops \<Rightarrow> string \<Rightarrow> string \<Rightarrow> (string option \<times> string option) api_result" where
  "attachment_download_info ops upload_status object_key =
     (if upload_status \<noteq> ''ready'' then Inr (None, None)
      else map_sum (\<lambda>e. e) (\<lambda>(url, mode). (Some url, Some mode)) (signed_or_direct ops ''GET'' object_key 3600))"

definition catalogue_item :: "(timestamp \<Rightarrow> string) \<Rightarrow> attachment_record \<Rightarrow> string option \<Rightarrow> string option \<Rightarrow> json" where
  "catalogue_item fmt r download_url download_mode =
     json_object [(''id'', JString (att_id r)), (''transactionId'', json_opt_str (att_transaction_id r)),
       (''fileName'', JString (case att_file_name r of Some n \<Rightarrow> n | None \<Rightarrow> ''attachment'')),
       (''objectKey'', JString (att_object_key r)), (''contentHash'', json_opt_str (att_content_hash r)),
       (''mimeType'', JString (case att_mime_type r of Some t \<Rightarrow> t | None \<Rightarrow> ''application/octet-stream'')),
       (''sizeBytes'', (case att_size_bytes r of Some n \<Rightarrow> JInt n | None \<Rightarrow> JNull)),
       (''uploadStatus'', JString (att_upload_status r)), (''createdAt'', JString (fmt (att_created_at r))),
       (''downloadUrl'', json_opt_str download_url), (''downloadMode'', json_opt_str download_mode)]"

fun catalogue_items ::
  "'o store_ops \<Rightarrow> (timestamp \<Rightarrow> string) \<Rightarrow> attachment_record list \<Rightarrow> json list api_result" where
  "catalogue_items ops fmt [] = Inr []"
| "catalogue_items ops fmt (r # rs) =
     (case attachment_download_info ops (att_upload_status r) (att_object_key r) of
        Inl e \<Rightarrow> Inl e
      | Inr (url, mode) \<Rightarrow> map_sum (\<lambda>e. e) ((#) (catalogue_item fmt r url mode)) (catalogue_items ops fmt rs))"

definition list_attachments ::
  "'o store_ops \<Rightarrow> (timestamp \<Rightarrow> string) \<Rightarrow> string \<Rightarrow> string \<Rightarrow> memory_store \<Rightarrow> json api_result" where
  "list_attachments ops fmt user_id book_id s =
     (case require_book_member s user_id book_id of Inl e \<Rightarrow> Inl e | Inr _ \<Rightarrow>
      map_sum (\<lambda>e. e) (\<lambda>items. json_object [(''attachments'', JArray items)])
        (catalogue_items ops fmt (catalogue_order (filter (\<lambda>r. att_book_id r = book_id) (attachments s)))))"

end
