(* ===== verification/Attachment_Laws.thy ===== *)
theory Attachment_Laws
  imports Attachments
begin

section \<open>What the attachment handlers guarantee\<close>

text \<open>
  The plan of a multipart upload partitions the file; the catalogue keeps its invariant over any
  requests with any object store; completion marks an attachment ready only with the size and the
  hash of what is stored, stated over the contract \<open>verified_store\<close> of an object store and
  discharged for the local one; and a file uploaded in parts, in any order, is stored as it was.
\<close>

subsection \<open>The plan\<close>

lemma part_size_pos [simp]: "0 < MULTIPART_PART_SIZE_BYTES"
  by (simp add: MULTIPART_PART_SIZE_BYTES_def)

lemma part_count_bounds:
  assumes "0 < n"
  shows "0 < multipart_part_count n"
    and "(multipart_part_count n - 1) * MULTIPART_PART_SIZE_BYTES < n"
    and "n \<le> multipart_part_count n * MULTIPART_PART_SIZE_BYTES"
proof -
  let ?P = MULTIPART_PART_SIZE_BYTES
  obtain m where m: "n = Suc m" using assms by (cases n) auto
  have c: "multipart_part_count n = m div ?P + 1"
    by (simp add: multipart_part_count_def m)
  show "0 < multipart_part_count n" by (simp add: c)
  show "(multipart_part_count n - 1) * ?P < n"
    unfolding c using div_times_less_eq_dividend [of m ?P] by (simp add: m le_imp_less_Suc)
  have "m < (m div ?P + 1) * ?P" using dividend_less_div_times [of ?P m] by simp
  then show "n \<le> multipart_part_count n * ?P" unfolding c by (simp add: m)
qed

lemma part_count_0 [simp]: "multipart_part_count 0 = 0"
  by (simp add: multipart_part_count_def MULTIPART_PART_SIZE_BYTES_def)

lemma part_length_Some:
  assumes "multipart_part_length n i = Some l"
  shows "0 < l \<and> l \<le> MULTIPART_PART_SIZE_BYTES \<and> 0 < i \<and> i \<le> multipart_part_count n \<and>
    l = min MULTIPART_PART_SIZE_BYTES (n - (i - 1) * MULTIPART_PART_SIZE_BYTES)"
proof -
  let ?P = MULTIPART_PART_SIZE_BYTES and ?c = "multipart_part_count n"
  have i: "0 < i" "i \<le> ?c" using assms by (auto simp: multipart_part_length_def Let_def split: if_splits)
  have n: "0 < n" using i by (cases n) auto
  note b = part_count_bounds [OF n]
  show ?thesis
  proof (cases "i < ?c")
    case True
    then have "i * ?P \<le> (?c - 1) * ?P" by (intro mult_le_mono1) simp
    then have "?P \<le> n - (i - 1) * ?P" using b(2) i(1) by (cases i) auto
    then show ?thesis using True assms i by (auto simp: multipart_part_length_def Let_def)
  next
    case False
    then have eq: "i = ?c" using i by simp
    have "n - (?c - 1) * ?P \<le> ?P" using b(1,3) by (cases ?c) auto
    then show ?thesis using assms i b eq by (auto simp: multipart_part_length_def Let_def min_def)
  qed
qed

lemma part_length_in: "multipart_part_length n i \<noteq> None \<longleftrightarrow> 0 < i \<and> i \<le> multipart_part_count n"
  by (auto simp: multipart_part_length_def Let_def)

text \<open>Part \<open>i\<close> of a file, from one: the bytes a client sends for it.\<close>

definition slice :: "bytes \<Rightarrow> nat \<Rightarrow> bytes" where
  "slice data i = take MULTIPART_PART_SIZE_BYTES (drop ((i - 1) * MULTIPART_PART_SIZE_BYTES) data)"

lemma slice_length: "multipart_part_length (length data) i = Some l \<Longrightarrow> length (slice data i) = l"
  using part_length_Some [of "length data" i l] by (simp add: slice_def min.commute)

lemma slices_prefix:
  "concat (map (\<lambda>i. slice data (Suc i)) [0..<k]) = take (k * MULTIPART_PART_SIZE_BYTES) data"
proof (induction k)
  case (Suc k)
  then show ?case
    by (simp add: slice_def take_add add.commute [of MULTIPART_PART_SIZE_BYTES])
qed simp

lemma slices_concat:
  "concat (map (\<lambda>i. slice data (Suc i)) [0..<multipart_part_count (length data)]) = data"
  unfolding slices_prefix
  using part_count_bounds(3) [of "length data"] by (cases "data = []") auto

text \<open>
  The plan of a multipart upload partitions the file: there is a length for exactly the part
  numbers from one to the part count, each is positive and at most the part size, and together they
  are the declared size.
\<close>

lemma multipart_plan_partitions:
  "sum_list (map (\<lambda>i. the (multipart_part_length n i)) [1..<Suc (multipart_part_count n)]) = n \<and>
   (multipart_part_length n i = None \<longleftrightarrow> i = 0 \<or> multipart_part_count n < i) \<and>
   (case multipart_part_length n i of
      None \<Rightarrow> True | Some l \<Rightarrow> 0 < l \<and> l \<le> MULTIPART_PART_SIZE_BYTES)"
proof -
  define data where "data = replicate n (CHR ''x'')"
  have n: "length data = n" by (simp add: data_def)
  have "length (slice data i) = the (multipart_part_length n i)" if "i \<in> {1..multipart_part_count n}" for i
    using that part_length_in [of n i] slice_length [of data i] n by auto
  then have "sum_list (map (\<lambda>i. the (multipart_part_length n i)) [1..<Suc (multipart_part_count n)]) =
      sum_list (map (\<lambda>i. length (slice data i)) [1..<Suc (multipart_part_count n)])"
    by (intro arg_cong [of _ _ sum_list] map_cong) auto
  also have "\<dots> = length (concat (map (\<lambda>i. slice data (Suc i)) [0..<multipart_part_count n]))"
    unfolding length_concat map_map One_nat_def map_Suc_upt [symmetric] by (simp add: comp_def)
  also have "\<dots> = n" using slices_concat [of data] by (simp add: n)
  finally have total: "sum_list (map (\<lambda>i. the (multipart_part_length n i)) [1..<Suc (multipart_part_count n)]) = n" .
  have none: "multipart_part_length n i = None \<longleftrightarrow> i = 0 \<or> multipart_part_count n < i"
    using part_length_in [of n i] by auto
  have "case multipart_part_length n i of None \<Rightarrow> True | Some l \<Rightarrow> 0 < l \<and> l \<le> MULTIPART_PART_SIZE_BYTES"
    using part_length_Some [of n i] by (auto split: option.split)
  with total none show ?thesis by blast
qed

subsection \<open>The catalogue after a change\<close>

lemma find_update_first:
  assumes "\<And>x. p x \<Longrightarrow> p (f x)"
  shows "List.find p (update_first p f xs) = map_option f (List.find p xs)"
  using assms by (induction xs) auto

lemma find_update_attachment:
  assumes "\<And>r. is_attachment b a (f r) = is_attachment b a r"
  shows "find_attachment (update_attachment b a f s) b a = map_option f (find_attachment s b a)"
  by (simp add: find_attachment_def update_attachment_def find_update_first assms)

lemma update_attachment_other [simp]:
  "books (update_attachment b a f s) = books s" "subscriptions (update_attachment b a f s) = subscriptions s"
  by (simp_all add: update_attachment_def)

lemma att_audit_other [simp]:
  "attachments (att_audit cf c ev s) = attachments s" "books (att_audit cf c ev s) = books s"
  "subscriptions (att_audit cf c ev s) = subscriptions s"
  by (simp_all add: att_audit_def)

lemma find_att_audit [simp]: "find_attachment (att_audit cf c ev s) b a = find_attachment s b a"
  by (simp add: find_attachment_def)

lemma parse_parts_value [simp]: "parse_multipart_parts (JArray (map JString ps)) = Inr ps"
proof -
  have "collect_strings (map JString ps) = Some ps" by (induction ps) auto
  then show ?thesis by (simp add: parse_multipart_parts_def)
qed

lemma length_resize [simp]: "length (resize n ps) = n"
  by (simp add: resize_def)

subsection \<open>Completion verifies what is stored\<close>

text \<open>What completion relies on: the size and the metadata an object store reports are those of the content.\<close>

locale verified_store =
  fixes ops :: "'o store_ops" and content :: "'o \<Rightarrow> string \<Rightarrow> bytes option" and sha :: "bytes \<Rightarrow> string"
  assumes size_of: "so_size ops k ob = Inr x \<Longrightarrow> x = map_option length (content ob k)"
    and metadata_of: "so_metadata ops k ob = Inr md \<Longrightarrow>
      \<exists>b. content ob k = Some b \<and> som_size_bytes md = length b \<and> som_sha256 md = sha b"
begin

lemma verify_upload_Inr:
  assumes "verify_upload ops cf c u b r (s, ob) = (Inr md, s', ob')"
  shows "s' = s \<and> ob' = ob \<and> (\<exists>bs. content ob (att_object_key r) = Some bs \<and>
    som_size_bytes md = length bs \<and> som_sha256 md = sha bs \<and> length bs \<le> cf_attachment_max_bytes cf \<and>
    (\<forall>n. att_size_bytes r = Some n \<longrightarrow> n = int (length bs)))"
proof -
  obtain actual where sz: "so_size ops (att_object_key r) ob = Inr (Some actual)"
    using assms by (auto simp: verify_upload_def Let_def split: sum.splits option.splits prod.splits)
  have ok: "actual \<le> cf_attachment_max_bytes cf"
      "\<forall>n. att_size_bytes r = Some n \<longrightarrow> 0 \<le> n \<and> nat n = actual"
    and md: "so_metadata ops (att_object_key r) ob = Inr md" and st: "s' = s" "ob' = ob"
    using assms
    by (auto simp: verify_upload_def Let_def sz split: sum.splits option.splits prod.splits if_splits)
  show ?thesis
    using metadata_of [OF md] size_of [OF sz] ok st by (auto simp: nat_eq_iff)
qed

lemma complete_verified:
  assumes "complete_attachment ops cf c u b a (s, ob) = (Inr resp, s', ob')"
  obtains r bs md where "find_attachment s b a = Some r" "content ob' (att_object_key r) = Some bs"
    "length bs \<le> cf_attachment_max_bytes cf" "\<forall>n. att_size_bytes r = Some n \<longrightarrow> n = int (length bs)"
    "som_size_bytes md = length bs" "som_sha256 md = sha bs"
    "find_attachment s' b a = Some (mark_ready md r)"
proof -
  obtain r where r: "find_attachment s b a = Some r"
    using assms by (auto simp: complete_attachment_def split: sum.splits option.splits)
  obtain s1 ob1 where as: "assemble ops cf c u b r (s, ob) = (Inr (), s1, ob1)"
    using assms r by (auto simp: complete_attachment_def split: sum.splits option.splits prod.splits)
  have s1: "s1 = s" using as
    by (auto simp: assemble_def split: if_splits option.splits sum.splits prod.splits)
  obtain md s2 ob2 where v: "verify_upload ops cf c u b r (s1, ob1) = (Inr md, s2, ob2)"
    using assms r as by (auto simp: complete_attachment_def split: sum.splits option.splits prod.splits)
  note ok = verify_upload_Inr [OF v]
  have "ob' = ob1" and "find_attachment s' b a = find_attachment (update_attachment b a (mark_ready md) s) b a"
    using assms r as v ok s1
    by (auto simp: complete_attachment_def Let_def split: sum.splits option.splits prod.splits)
  then have "find_attachment s' b a = Some (mark_ready md r)" "ob' = ob1"
    by (simp_all add: find_update_attachment mark_ready_def is_attachment_def r)
  then show thesis using that r ok by blast
qed

lemma ready_verified:
  assumes "complete_attachment ops cf c u b a (s, ob) = (Inr resp, s', ob')" and "cf_attachment_max_bytes cf < 2 ^ 63"
  shows "\<exists>r r' bs. find_attachment s b a = Some r \<and> find_attachment s' b a = Some r' \<and>
    content ob' (att_object_key r') = Some bs \<and>
    length bs \<le> cf_attachment_max_bytes cf \<and> att_size_bytes r \<in> {None, Some (int (length bs))} \<and>
    att_upload_status r' = ''ready'' \<and> att_size_bytes r' = Some (int (length bs)) \<and> att_content_hash r' = Some (sha bs)"
  using assms(1)
proof (cases rule: complete_verified)
  case (1 r bs md)
  have "in_i64 (int (length bs))" using 1(3) assms(2) by (simp add: in_signed_def)
  then have rec: "att_upload_status (mark_ready md r) = ''ready''"
      "att_size_bytes (mark_ready md r) = Some (int (length bs))"
      "att_content_hash (mark_ready md r) = Some (sha bs)"
      "att_object_key (mark_ready md r) = att_object_key r"
    using 1(5,6) by (simp_all add: mark_ready_def)
  moreover have "att_size_bytes r \<in> {None, Some (int (length bs))}" using 1(4) by (cases "att_size_bytes r") auto
  ultimately show ?thesis using 1(1,2,3,7) by metis
qed

end

definition local_content :: "local_env \<Rightarrow> local_fs \<Rightarrow> string \<Rightarrow> bytes option" where
  "local_content env fs key = (case get_bytes env key fs of Inl _ \<Rightarrow> None | Inr content \<Rightarrow> content)"

lemma local_content_Some: "local_content env fs key = Some bs \<longleftrightarrow> get_bytes env key fs = Inr (Some bs)"
  by (simp add: local_content_def split: sum.split)

interpretation local_store: verified_store "local_ops env tmp url" "local_content env" "le_sha256 env"
  by unfold_locales
    (auto simp: local_ops_def object_size_def object_metadata_def local_content_def get_bytes_def object_path_def
      dest: validated_key_fix split: option.splits sum.splits)

text \<open>
  C32. An attachment becomes ready only for what is really stored: when completion succeeds on the
  local store, the object exists, is no larger than the configured maximum and exactly as large as
  the session declared, and the catalogue shows its size and its SHA-256.
\<close>

theorem ready_means_verified:
  assumes "complete_attachment (local_ops env tmp url) cf c u b a (s, fs) = (Inr resp, s', fs')"
    and "cf_attachment_max_bytes cf < 2 ^ 63"
  shows "\<exists>r r' bs. find_attachment s b a = Some r \<and> find_attachment s' b a = Some r' \<and>
           get_bytes env (att_object_key r') fs' = Inr (Some bs) \<and>
           length bs \<le> cf_attachment_max_bytes cf \<and> att_size_bytes r \<in> {None, Some (int (length bs))} \<and>
           att_upload_status r' = ''ready'' \<and> att_size_bytes r' = Some (int (length bs)) \<and>
           att_content_hash r' = Some (le_sha256 env bs)"
  using local_store.ready_verified [OF assms] by (simp only: local_content_Some)

subsection \<open>Uploading a file in parts\<close>

lemma contains_str_chars: "contains_str p s \<Longrightarrow> set p \<subseteq> set s"
proof (induction s)
  case (Cons c s)
  have here: "set p \<subseteq> set (c # s)" if "starts_with p (c # s)"
    using that unfolding starts_with_iff by (metis Un_upper1 set_append)
  show ?case
  proof (cases "starts_with p (c # s)")
    case False
    then show ?thesis using Cons by auto
  qed (rule here)
qed simp

lemma pad8_good [simp]: "\<not> bad_part_id (pad8 n)"
proof -
  have "c \<notin> set (pad8 n)" if "\<not> is_ascii_digit c" for c
    using pad8_digits [of n] that by (auto simp: list_all_iff)
  then have "CHR ''.'' \<notin> set (pad8 n)" "CHR ''/'' \<notin> set (pad8 n)" "CHR 0x5C \<notin> set (pad8 n)"
    by (simp_all add: is_ascii_digit_def byte_def)
  then show ?thesis using contains_str_chars [of "''..''" "pad8 n"] by (auto simp: bad_part_id_def)
qed

text \<open>The client sends the parts \<open>order\<close> names, one request after the other, in any order and with repeats.\<close>

definition upload_all :: "'o store_ops \<Rightarrow> string \<Rightarrow> string \<Rightarrow> string \<Rightarrow> bytes \<Rightarrow> nat list \<Rightarrow>
    memory_store \<times> 'o \<Rightarrow> memory_store \<times> 'o" where
  "upload_all ops u b a data order st =
     fold (\<lambda>i st. snd (upload_multipart_part ops u b a i (slice data i) st)) order st"

text \<open>While an upload runs: the record, the ids of the parts sent so far, and their files.\<close>

definition uploading :: "string \<Rightarrow> string \<Rightarrow> string \<Rightarrow> string \<Rightarrow> bytes \<Rightarrow> nat set \<Rightarrow>
    memory_store \<times> local_fs \<Rightarrow> bool" where
  "uploading u b a key data sent = (\<lambda>(s, fs).
     require_book_member s u b = Inr () \<and> (\<exists>p. require_plan s u ''plus'' = Inr p) \<and>
     ''.multipart/'' @ key \<in> set (fs_part_dirs fs) \<and>
     (\<exists>r. find_attachment s b a = Some r \<and> att_object_key r = key \<and> att_upload_mode r = ''multipart'' \<and>
        att_upload_status r = ''pending'' \<and> att_size_bytes r = Some (int (length data)) \<and>
        length (att_multipart_parts r) \<in> {0, multipart_part_count (length data)} \<and>
        resize (multipart_part_count (length data)) (att_multipart_parts r) =
          map (\<lambda>i. if Suc i \<in> sent then pad8 i else []) [0..<multipart_part_count (length data)]) \<and>
     (\<forall>i \<in> sent. hm_get (fs_files fs) (part_path (''.multipart/'' @ key) (pad8 (i - 1))) = Some (slice data i)))"

lemma update_attachment_member:
  "require_book_member (update_attachment b a f s) u b' = require_book_member s u b'"
  "require_plan (update_attachment b a f s) u p = require_plan s u p"
  by (simp_all add: require_book_member_def require_plan_def user_plan_def)

lemma att_audit_member:
  "require_book_member (att_audit cf c ev s) u b = require_book_member s u b"
  "require_plan (att_audit cf c ev s) u p = require_plan s u p"
  by (simp_all add: require_book_member_def require_plan_def user_plan_def)

lemma upload_part_step:
  assumes key: "plain_key key" and st: "uploading u b a key data sent (s, fs)"
    and i: "0 < i" "i \<le> multipart_part_count (length data)"
  shows "\<exists>resp. fst (upload_multipart_part (local_ops env tmp url) u b a i (slice data i) (s, fs)) = Inr resp"
    and "uploading u b a key data (insert i sent)
      (snd (upload_multipart_part (local_ops env tmp url) u b a i (slice data i) (s, fs)))"
proof -
  let ?n = "multipart_part_count (length data)" and ?dir = "''.multipart/'' @ key"
  obtain r p where mem: "require_book_member s u b = Inr ()" "require_plan s u ''plus'' = Inr p"
    and dir: "?dir \<in> set (fs_part_dirs fs)" and r: "find_attachment s b a = Some r" "att_object_key r = key"
      "att_upload_mode r = ''multipart''" "att_upload_status r = ''pending''"
      "att_size_bytes r = Some (int (length data))"
    and len: "length (att_multipart_parts r) \<in> {0, ?n}"
    and parts: "resize ?n (att_multipart_parts r) = map (\<lambda>i. if Suc i \<in> sent then pad8 i else []) [0..<?n]"
    and files: "\<forall>i \<in> sent. hm_get (fs_files fs) (part_path ?dir (pad8 (i - 1))) = Some (slice data i)"
    using st unfolding uploading_def by blast
  obtain l where l: "multipart_part_length (length data) i = Some l"
    using part_length_in [of "length data" i] i by auto
  have sl: "length (slice data i) = l" "slice data i \<noteq> []"
    using slice_length [OF l] part_length_Some [OF l] by auto
  let ?fs = "fs\<lparr>fs_files := hm_insert (part_path ?dir (pad8 (i - 1))) (slice data i) (fs_files fs)\<rparr>"
  let ?ids = "(resize ?n (att_multipart_parts r))[i - 1 := pad8 (i - 1)]"
  let ?s = "update_attachment b a (\<lambda>r. r\<lparr>att_multipart_parts := ?ids\<rparr>) s"
  have put: "put_multipart_part key (i - 1) (slice data i) fs = (Inr (pad8 (i - 1)), ?fs)"
    using key dir by (simp add: put_multipart_part_def Let_def)
  have up: "upload_multipart_part (local_ops env tmp url) u b a i (slice data i) (s, fs) =
      (Inr (part_json i (pad8 (i - 1)) (uploaded_count ?ids) ?n), ?s, ?fs)"
    using len sl
    by (auto simp: upload_multipart_part_def mem r validate_multipart_part_def
        validate_multipart_part_plan_def l local_ops_def put Let_def
        simp del: require_book_member_ok One_nat_def)
  show "\<exists>resp. fst (upload_multipart_part (local_ops env tmp url) u b a i (slice data i) (s, fs)) = Inr resp"
    by (simp add: up)
  have ids: "?ids = map (\<lambda>j. if Suc j \<in> insert i sent then pad8 j else []) [0..<?n]"
    using i by (intro nth_equalityI) (auto simp: parts nth_list_update)
  have find: "find_attachment ?s b a = Some (r\<lparr>att_multipart_parts := ?ids\<rparr>)"
    by (simp add: find_update_attachment is_attachment_def r)
  have other: "hm_get (fs_files ?fs) (part_path ?dir (pad8 (j - 1))) = Some (slice data j)" if "j \<in> insert i sent" for j
  proof (cases "j - 1 = i - 1")
    case True
    then have "slice data j = slice data i" unfolding slice_def by (rule arg_cong)
    then show ?thesis using True by (simp del: One_nat_def)
  next
    case False
    then show ?thesis using that files by (auto simp: part_path_def pad8_inject)
  qed
  have "resize ?n ?ids = ?ids" by (simp add: resize_def)
  then show "uploading u b a key data (insert i sent)
      (snd (upload_multipart_part (local_ops env tmp url) u b a i (slice data i) (s, fs)))"
    unfolding up uploading_def using mem dir r find ids other
    by (simp add: update_attachment_member del: require_book_member_ok)
qed

lemma upload_all_uploading:
  assumes "plain_key key" and "uploading u b a key data sent st"
    and "set order \<subseteq> {1..multipart_part_count (length data)}"
  shows "uploading u b a key data (sent \<union> set order) (upload_all (local_ops env tmp url) u b a data order st)"
  using assms(2,3)
proof (induction order arbitrary: sent st)
  case Nil
  then show ?case by (simp add: upload_all_def)
next
  case (Cons i order)
  obtain s fs where st: "st = (s, fs)" by fastforce
  have i: "0 < i" "i \<le> multipart_part_count (length data)" using Cons.prems(2) by auto
  have "uploading u b a key data (insert i sent)
      (snd (upload_multipart_part (local_ops env tmp url) u b a i (slice data i) (s, fs)))"
    using upload_part_step(2) [OF assms(1) Cons.prems(1) [unfolded st] i] .
  from Cons.IH [OF this] Cons.prems(2) show ?case by (simp add: upload_all_def st)
qed

text \<open>All parts are there: completion stores the file.\<close>

lemma complete_uploaded:
  assumes key: "plain_key key" "le_object_path env key = key"
    and tmp: "\<not> starts_with ''.multipart/'' tmp"
    and max: "length data \<le> cf_attachment_max_bytes cf"
    and st: "uploading u b a key data {1..multipart_part_count (length data)} (s, fs)"
    and pos: "data \<noteq> []"
  obtains resp s' fs' where
    "complete_attachment (local_ops env tmp url) cf c u b a (s, fs) = (Inr resp, s', fs')"
    "get_bytes env key fs' = Inr (Some data)"
proof -
  let ?n = "multipart_part_count (length data)" and ?dir = "''.multipart/'' @ key"
  obtain r p where mem: "require_book_member s u b = Inr ()" "require_plan s u ''plus'' = Inr p"
    and dir: "?dir \<in> set (fs_part_dirs fs)" and r: "find_attachment s b a = Some r" "att_object_key r = key"
      "att_upload_mode r = ''multipart''" "att_upload_status r = ''pending''"
      "att_size_bytes r = Some (int (length data))"
    and len: "length (att_multipart_parts r) \<in> {0, ?n}"
    and parts: "resize ?n (att_multipart_parts r) = map (\<lambda>i. if Suc i \<in> {1..?n} then pad8 i else []) [0..<?n]"
    and files: "\<forall>i \<in> {1..?n}. hm_get (fs_files fs) (part_path ?dir (pad8 (i - 1))) = Some (slice data i)"
    using st unfolding uploading_def by blast
  have npos: "0 < ?n" using part_count_bounds(1) pos by simp
  have "map (\<lambda>i. if Suc i \<in> {1..?n} then pad8 i else []) [0..<?n] = map pad8 [0..<?n]"
    by (intro map_cong) auto
  then have all: "resize ?n (att_multipart_parts r) = map pad8 [0..<?n]" using parts by simp
  have "length (att_multipart_parts r) = ?n"
  proof (rule ccontr)
    assume "length (att_multipart_parts r) \<noteq> ?n"
    then have "att_multipart_parts r = []" using len by simp
    then have "resize ?n (att_multipart_parts r) ! 0 = []" using npos by (simp add: resize_def)
    then show False using npos by (simp add: all)
  qed
  then have ids: "att_multipart_parts r = map pad8 [0..<?n]" using all by (simp add: resize_def)
  let ?fs1 = "fs\<lparr>fs_files := hm_insert tmp [] (fs_files fs)\<rparr>"
  have tmp': "part_path ?dir x \<noteq> tmp" for x
    using tmp by (auto simp: part_path_def starts_with_iff)
  define piece where "piece id = the (hm_get (fs_files fs) (part_path ?dir id))" for id
  have piece: "hm_get (fs_files fs) (part_path ?dir (pad8 i)) = Some (slice data (Suc i))" if "i < ?n" for i
    using bspec [OF files, of "Suc i"] that by simp
  have "copy_parts ?dir (map pad8 [0..<?n]) [] ?fs1 = (Inr (), [] @ concat (map piece (map pad8 [0..<?n])))"
    using piece tmp' by (intro copy_parts_Inr) (auto simp: piece_def)
  also have "concat (map piece (map pad8 [0..<?n])) = concat (map (\<lambda>i. slice data (Suc i)) [0..<?n])"
    using piece by (intro arg_cong [of _ _ concat]) (auto simp: piece_def)
  also have "\<dots> = data" by (rule slices_concat)
  finally have copy: "copy_parts ?dir (map pad8 [0..<?n]) [] ?fs1 = (Inr (), data)" by simp
  let ?fs2 = "remove_dir_all ?dir (fs\<lparr>fs_files := hm_insert key data (hm_remove tmp (fs_files fs))\<rparr>)"
  have comp: "complete_multipart tmp key (map pad8 [0..<?n]) fs = (Inr (), ?fs2)"
    using key(1) copy by (simp add: complete_multipart_def plain_key_def)
  have "\<not> starts_with (?dir @ ''/'') key"
    using key(1) by (auto simp: plain_key_def starts_with_iff)
  then have stored: "hm_get (fs_files ?fs2) key = Some data" by (simp add: remove_dir_all_files)
  have path: "validated_key key = Some key" using key(1) by (simp add: plain_key_def)
  have get: "get_bytes env key ?fs2 = Inr (Some data)"
    using stored by (simp add: get_bytes_def object_path_def path key(2))
  have asm: "assemble (local_ops env tmp url) cf c u b r (s, fs) = (Inr (), s, ?fs2)"
    using comp by (auto simp: assemble_def r ids parts_value_def local_ops_def simp del: map_map)
  have ver: "\<exists>md. verify_upload (local_ops env tmp url) cf c u b r (s, ?fs2) = (Inr md, s, ?fs2)"
    using stored max by (simp add: verify_upload_def local_ops_def object_size_def object_metadata_def object_path_def
        path key(2) r Let_def)
  have "\<exists>resp s'. complete_attachment (local_ops env tmp url) cf c u b a (s, fs) = (Inr resp, s', ?fs2)"
    using asm ver by (auto simp: complete_attachment_def mem r signed_or_direct_def local_ops_def Let_def
        simp del: require_book_member_ok)
  with get show thesis using that by blast
qed

lemma find_append:
  "List.find p (xs @ ys) = (case List.find p xs of None \<Rightarrow> List.find p ys | Some x \<Rightarrow> Some x)"
  by (induction xs) auto

lemma create_starts_upload:
  assumes "create_upload_session (local_ops env tmp url) cf c u b req (s, fs) = (Inr resp, s1, fs1)"
    and "us_size req = Some (int (length data))" and "should_use_multipart False (us_size req)"
    and "find_attachment s b (tc_id c) = None" and "plain_key (''books/'' @ b @ ''/'' @ tc_id c)"
  shows "uploading u b (tc_id c) (''books/'' @ b @ ''/'' @ tc_id c) data {} (s1, fs1)"
    and "length data \<le> cf_attachment_max_bytes cf"
proof -
  let ?key = "''books/'' @ b @ ''/'' @ tc_id c"
  obtain p where mem: "require_book_member s u b = Inr ()" "require_plan s u ''plus'' = Inr p"
    using assms(1) unfolding create_upload_session_def
    by (auto split: sum.splits simp del: require_book_member_ok)
  obtain name where name: "normalize_attachment_file_name (us_file_name req) = Inr name"
    using assms(1) unfolding create_upload_session_def mem by (auto split: sum.splits)
  show max: "length data \<le> cf_attachment_max_bytes cf"
  proof (rule ccontr)
    assume "\<not> length data \<le> cf_attachment_max_bytes cf"
    then show False
      using assms(1) by (simp add: create_upload_session_def mem name assms(2) del: require_book_member_ok)
  qed
  let ?r = "new_attachment c u b req name ?key ''multipart'' None"
  have multi: "should_use_multipart False (Some (int (length data)))" using assms(2,3) by simp
  have s1: "books s1 = books s" "subscriptions s1 = subscriptions s" "attachments s1 = attachments s @ [?r]"
    and fs1: "fs1 = fs\<lparr>fs_part_dirs := List.insert (''.multipart/'' @ ?key) (fs_part_dirs fs)\<rparr>"
    using assms(1,5) max
    by (auto simp: create_upload_session_def mem name assms(2) multi local_ops_def start_multipart_def
        session_response_def Let_def simp del: require_book_member_ok)
  have "find_attachment s1 b (tc_id c) = Some ?r"
    using assms(4) by (simp add: find_attachment_def s1(3) find_append is_attachment_def new_attachment_def)
  moreover have "require_book_member s1 u b = Inr ()" "require_plan s1 u ''plus'' = Inr p"
    using mem by (simp_all add: require_book_member_def require_plan_def user_plan_def s1)
  moreover have "resize n [] = map (\<lambda>i. if Suc i \<in> {} then pad8 i else []) [0..<n]" for n
    by (simp add: resize_def map_replicate_const)
  ultimately show "uploading u b (tc_id c) ?key data {} (s1, fs1)"
    by (auto simp: uploading_def fs1 new_attachment_def assms(2) simp del: require_book_member_ok)
qed

text \<open>
  C31. Multipart upload is a round trip. After a session for a file above the multipart threshold, a
  client that sends every part of the file at least once, in any order and with any repeats, and
  then completes the upload gets a success, and the stored object is the file, byte for byte.
\<close>

theorem multipart_roundtrip:
  assumes "create_upload_session (local_ops env tmp url) cf c u b req (s, fs) = (Inr resp, s1, fs1)"
    and "us_size req = Some (int (length data))" and "should_use_multipart False (us_size req)"
    and "find_attachment s b (tc_id c) = None"
    and "plain_key (''books/'' @ b @ ''/'' @ tc_id c)"
    and "le_object_path env (''books/'' @ b @ ''/'' @ tc_id c) = ''books/'' @ b @ ''/'' @ tc_id c"
    and "\<not> starts_with ''.multipart/'' tmp"
    and "set order = {1..multipart_part_count (length data)}"
  shows "\<exists>resp' s3 fs3. complete_attachment (local_ops env tmp url) cf c' u b (tc_id c)
             (upload_all (local_ops env tmp url) u b (tc_id c) data order (s1, fs1)) = (Inr resp', s3, fs3) \<and>
           get_bytes env (''books/'' @ b @ ''/'' @ tc_id c) fs3 = Inr (Some data)"
proof -
  let ?key = "''books/'' @ b @ ''/'' @ tc_id c"
  obtain s2 fs2 where up: "upload_all (local_ops env tmp url) u b (tc_id c) data order (s1, fs1) = (s2, fs2)"
    by fastforce
  have "uploading u b (tc_id c) ?key data ({} \<union> set order)
      (upload_all (local_ops env tmp url) u b (tc_id c) data order (s1, fs1))"
    using create_starts_upload [OF assms(1-5)] assms(5,8) by (intro upload_all_uploading) auto
  then have st: "uploading u b (tc_id c) ?key data {1..multipart_part_count (length data)} (s2, fs2)"
    by (simp add: up assms(8))
  have "data \<noteq> []" using assms(2,3) by (auto simp: should_use_multipart_def)
  then show ?thesis unfolding up
    by (rule complete_uploaded [OF assms(5,6,7) create_starts_upload(2) [OF assms(1-5)] st]) blast
qed

subsection \<open>A concrete upload\<close>

definition ex_local_env :: local_env where
  "ex_local_env = \<lparr>le_object_path = (\<lambda>k. k), le_sha256 = (\<lambda>b. nat_to_string (length b))\<rparr>"

definition ex_ops :: "local_fs store_ops" where
  "ex_ops = local_ops ex_local_env ''books/b1/a1.tmp-0'' (\<lambda>m k t. ''https://ledger.example/'' @ k)"

definition ex_cf :: att_config where
  "ex_cf = \<lparr>cf_attachment_max_bytes = 100 * 1024 * 1024, cf_to_vec = (\<lambda>_. Some [])\<rparr>"

definition ex_att_call :: att_call where
  "ex_att_call = \<lparr>tc_id = ''a1'', tc_now = 0, tc_stamp = (''e1'', 0), tc_request_id = None\<rparr>"

definition ex_att_store :: memory_store where
  "ex_att_store = empty_store\<lparr>books := [(''b1'', \<lparr>bk_id = ''b1'', bk_name = ''Personal'', bk_owner_id = ''u1''\<rparr>)],
     subscriptions := [(''u1'', ''plus'')]\<rparr>"

definition ex_fs :: local_fs where
  "ex_fs = \<lparr>fs_files = [], fs_part_dirs = []\<rparr>"

definition ex_upload :: "nat \<Rightarrow> upload_session_request" where
  "ex_upload n = \<lparr>us_transaction_id = None, us_mime_type = None, us_file_name = None, us_size = Some (int n)\<rparr>"

definition ex_data :: bytes where
  "ex_data = replicate (8 * 1024 * 1024) (CHR ''x'')"

lemma ex_create:
  "\<exists>resp s1 fs1. create_upload_session ex_ops ex_cf ex_att_call ''u1'' ''b1'' (ex_upload (length ex_data)) (ex_att_store, ex_fs)
     = (Inr resp, s1, fs1)"
proof -
  have "require_book_member ex_att_store ''u1'' ''b1'' = Inr ()" "require_plan ex_att_store ''u1'' ''plus'' = Inr ''plus''"
    by (simp_all add: require_book_member_def require_plan_def user_plan_def plan_allows_def ex_att_store_def hm_get_def)
  moreover have "validated_key ''books/b1/a1'' = Some ''books/b1/a1''" by code_simp
  ultimately show ?thesis
    by (simp add: create_upload_session_def ex_upload_def normalize_attachment_file_name_def ex_cf_def ex_data_def
        should_use_multipart_def ex_ops_def local_ops_def ex_att_call_def start_multipart_def local_multipart_dir_def
        session_response_def Let_def del: require_book_member_ok)
qed

lemma ex_key: "plain_key (''books/'' @ ''b1'' @ ''/'' @ tc_id ex_att_call)"
proof -
  have "validated_key ''books/b1/a1'' = Some ''books/b1/a1''" "\<not> starts_with ''.multipart/'' ''books/b1/a1''"
    by code_simp+
  then show ?thesis by (simp add: plain_key_def ex_att_call_def)
qed

theorem multipart_roundtrip_witness:
  "\<exists>resp s1 fs1 resp' s3 fs3. create_upload_session ex_ops ex_cf ex_att_call ''u1'' ''b1'' (ex_upload (length ex_data))
       (ex_att_store, ex_fs) = (Inr resp, s1, fs1) \<and>
     complete_attachment ex_ops ex_cf ex_att_call ''u1'' ''b1'' (tc_id ex_att_call)
       (upload_all ex_ops ''u1'' ''b1'' (tc_id ex_att_call) ex_data
          (rev [1..<Suc (multipart_part_count (length ex_data))]) (s1, fs1)) = (Inr resp', s3, fs3) \<and>
     get_bytes ex_local_env (''books/'' @ ''b1'' @ ''/'' @ tc_id ex_att_call) fs3 = Inr (Some ex_data)"
proof -
  obtain resp s1 fs1 where c: "create_upload_session ex_ops ex_cf ex_att_call ''u1'' ''b1'' (ex_upload (length ex_data))
      (ex_att_store, ex_fs) = (Inr resp, s1, fs1)"
    using ex_create by blast
  have "us_size (ex_upload (length ex_data)) = Some (int (length ex_data))" by (simp add: ex_upload_def)
  moreover have "should_use_multipart False (us_size (ex_upload (length ex_data)))"
    by (simp add: ex_upload_def should_use_multipart_def ex_data_def)
  moreover have "find_attachment ex_att_store ''b1'' (tc_id ex_att_call) = None"
    by (simp add: find_attachment_def ex_att_store_def empty_store_def)
  moreover have "le_object_path ex_local_env k = k" for k by (simp add: ex_local_env_def)
  moreover have "\<not> starts_with ''.multipart/'' ''books/b1/a1.tmp-0''" by code_simp
  moreover have "set (rev [1..<Suc (multipart_part_count (length ex_data))]) = {1..multipart_part_count (length ex_data)}"
    by auto
  ultimately show ?thesis
    using c multipart_roundtrip [OF c [unfolded ex_ops_def] _ _ _ ex_key, folded ex_ops_def] by blast
qed

theorem ready_means_verified_witness:
  "\<exists>resp s' fs'. complete_attachment ex_ops ex_cf ex_att_call ''u1'' ''b1'' ''a1''
       (ex_att_store\<lparr>attachments := [new_attachment ex_att_call ''u1'' ''b1'' (ex_upload 2) None ''books/b1/a1'' ''single'' None]\<rparr>,
        ex_fs\<lparr>fs_files := [(''books/b1/a1'', ''hi'')]\<rparr>) = (Inr resp, s', fs') \<and>
     (\<exists>r'. find_attachment s' ''b1'' ''a1'' = Some r' \<and> att_upload_status r' = ''ready'')"
proof -
  let ?st = "(ex_att_store\<lparr>attachments := [new_attachment ex_att_call ''u1'' ''b1'' (ex_upload 2) None ''books/b1/a1'' ''single'' None]\<rparr>,
        ex_fs\<lparr>fs_files := [(''books/b1/a1'', ''hi'')]\<rparr>)"
  have "require_book_member (fst ?st) ''u1'' ''b1'' = Inr ()" "require_plan (fst ?st) ''u1'' ''plus'' = Inr ''plus''"
    by (simp_all add: require_book_member_def require_plan_def user_plan_def plan_allows_def ex_att_store_def hm_get_def)
  moreover have "validated_key ''books/b1/a1'' = Some ''books/b1/a1''" by code_simp
  ultimately obtain resp s' fs' where c: "complete_attachment ex_ops ex_cf ex_att_call ''u1'' ''b1'' ''a1'' ?st = (Inr resp, s', fs')"
    by (simp add: complete_attachment_def find_attachment_def is_attachment_def new_attachment_def ex_att_call_def
        assemble_def verify_upload_def ex_ops_def local_ops_def object_size_def object_metadata_def object_path_def
        ex_local_env_def ex_fs_def hm_get_def ex_cf_def ex_upload_def signed_or_direct_def Let_def
        del: require_book_member_ok)
  have "cf_attachment_max_bytes ex_cf < 2 ^ 63" by (simp add: ex_cf_def)
  from ready_means_verified [OF c [unfolded ex_ops_def] this] c show ?thesis by blast
qed

end
