(* ===== verification/Attachment_Inv.thy ===== *)
theory Attachment_Inv
  imports Attachment_Laws
begin

section \<open>The attachment catalogue stays consistent\<close>

text \<open>
  The requests that change the catalogue as a step relation, over any object store, and the
  invariant of the records by rule induction.
\<close>

definition att_ok :: "nat \<Rightarrow> attachment_record \<Rightarrow> bool" where
  "att_ok limit r \<longleftrightarrow>
     att_upload_status r \<in> {''pending'', ''ready'', ''failed''} \<and> att_upload_mode r \<in> {''single'', ''multipart''} \<and>
     att_object_key r = ''books/'' @ att_book_id r @ ''/'' @ att_id r \<and>
     (case att_size_bytes r of None \<Rightarrow> att_upload_mode r = ''single'' | Some n \<Rightarrow> 0 \<le> n \<and> n \<le> int limit) \<and>
     (att_upload_status r = ''ready'' \<longrightarrow>
        att_content_hash r \<noteq> None \<and> att_size_bytes r \<noteq> None \<and> att_multipart_parts r = []) \<and>
     (att_upload_status r = ''pending'' \<longrightarrow> att_content_hash r = None) \<and>
     length (att_multipart_parts r) \<le>
       (if att_upload_mode r = ''single'' then 0
        else multipart_part_count (case att_size_bytes r of None \<Rightarrow> 0 | Some n \<Rightarrow> nat n))"

definition att_key :: "attachment_record \<Rightarrow> string \<times> string" where
  "att_key r = (att_book_id r, att_id r)"

definition att_inv :: "nat \<Rightarrow> memory_store \<Rightarrow> bool" where
  "att_inv limit s \<longleftrightarrow> distinct (map att_key (attachments s)) \<and> list_all (att_ok limit) (attachments s)"

text \<open>
  Any request of any user; \<open>att_other\<close> is a handler that leaves the catalogue alone. A session takes
  a fresh UUID as its id.
\<close>

inductive att_step :: "'o store_ops \<Rightarrow> att_config \<Rightarrow> memory_store \<times> 'o \<Rightarrow> memory_store \<times> 'o \<Rightarrow> bool"
  for ops cf where
  att_create: "find_attachment s b (tc_id c) = None \<Longrightarrow>
    att_step ops cf (s, ob) (snd (create_upload_session ops cf c u b req (s, ob)))"
| att_part: "att_step ops cf st (snd (upload_multipart_part ops u b a n body st))"
| att_direct_part: "att_step ops cf st (snd (complete_multipart_part ops u b a n part_id st))"
| att_abort: "att_step ops cf st (snd (abort_multipart_upload ops cf c u b a st))"
| att_delete: "att_step ops cf st (snd (delete_attachment ops cf c u b a st))"
| att_complete: "att_step ops cf st (snd (complete_attachment ops cf c u b a st))"
| att_other: "attachments s' = attachments s \<Longrightarrow> att_step ops cf (s, ob) (s', ob')"

subsection \<open>Changes of one record\<close>

lemma list_all_update_first:
  assumes "list_all P xs" and "\<And>x. List.find p xs = Some x \<Longrightarrow> P (f x)"
  shows "list_all P (update_first p f xs)"
  using assms by (induction xs) auto

lemma map_update_first: "(\<And>x. k (f x) = k x) \<Longrightarrow> map k (update_first p f xs) = map k xs"
  by (induction xs) auto

lemma att_inv_update:
  assumes "att_inv l s" and "\<And>x. att_key (f x) = att_key x"
    and "\<And>r. find_attachment s b a = Some r \<Longrightarrow> att_ok l (f r)"
  shows "att_inv l (update_attachment b a f s)"
  using assms list_all_update_first [of "att_ok l" "attachments s" "is_attachment b a" f]
  by (simp add: att_inv_def update_attachment_def map_update_first find_attachment_def)

lemma att_inv_remove: "att_inv l s \<Longrightarrow> att_inv l (remove_attachment b a s)"
  by (auto simp: att_inv_def remove_attachment_def list_all_iff distinct_map inj_on_def)

lemma att_inv_same: "att_inv l s \<Longrightarrow> attachments s' = attachments s \<Longrightarrow> att_inv l s'"
  by (simp add: att_inv_def)

lemma att_inv_found:
  assumes "att_inv l s" and "find_attachment s b a = Some r"
  shows "att_ok l r" and "att_book_id r = b" and "att_id r = a"
proof -
  have "r \<in> set (attachments s)" "is_attachment b a r"
    using assms(2) by (auto simp: find_attachment_def find_Some_iff)
  then show "att_ok l r" "att_book_id r = b" "att_id r = a"
    using assms(1) by (auto simp: att_inv_def list_all_iff is_attachment_def)
qed

lemma att_inv_audit [simp]: "att_inv l (att_audit cf c ev s) = att_inv l s"
  by (simp add: att_inv_def)

lemma att_ok_parts:
  assumes "att_ok l r" and "validate_multipart_part_plan (att_upload_mode r) (att_upload_status r) sz n = Inr e"
    and "length ps \<le> multipart_part_count (case att_size_bytes r of None \<Rightarrow> 0 | Some n \<Rightarrow> nat n)"
  shows "att_ok l (r\<lparr>att_multipart_parts := ps\<rparr>)"
  using assms by (auto simp: att_ok_def validate_multipart_part_plan_def split: if_splits option.splits)

subsection \<open>Every request keeps the invariant\<close>

lemma create_inv:
  assumes "att_inv (cf_attachment_max_bytes cf) s" and "find_attachment s b (tc_id c) = None"
  shows "att_inv (cf_attachment_max_bytes cf) (fst (snd (create_upload_session ops cf c u b req (s, ob))))"
proof -
  let ?l = "cf_attachment_max_bytes cf"
  define key where "key = ''books/'' @ b @ ''/'' @ tc_id c"
  define multi where "multi = should_use_multipart (so_is_s3 ops) (us_size req)"
  define new where "new name uid = new_attachment c u b req name key (if multi then ''multipart'' else ''single'') uid"
    for name uid
  have fresh: "att_key (new name uid) \<notin> set (map att_key (attachments s))" for name uid
    using assms(2)
    by (auto simp: find_attachment_def find_None_iff is_attachment_def new_def new_attachment_def att_key_def)
  have ok: "att_ok ?l (new name uid)" if "case us_size req of None \<Rightarrow> True | Some n \<Rightarrow> 0 \<le> n \<and> n \<le> int ?l" for name uid
    using that by (auto simp: att_ok_def new_def new_attachment_def key_def multi_def should_use_multipart_def
        split: option.splits)
  have inv: "att_inv ?l (s\<lparr>attachments := attachments s @ [new name uid]\<rparr>)"
    if "case us_size req of None \<Rightarrow> True | Some n \<Rightarrow> 0 \<le> n \<and> n \<le> int ?l" for name uid
    using assms(1) fresh [of name uid] ok [OF that] by (simp add: att_inv_def)
  show ?thesis
    using assms(1) inv unfolding create_upload_session_def
    by (auto simp: Let_def new_def key_def multi_def
        split: sum.splits option.splits prod.splits if_splits)
qed

lemma upload_part_inv:
  assumes "att_inv l (fst st)"
  shows "att_inv l (fst (snd (upload_multipart_part ops u b a n body st)))"
proof -
  have ok: "att_ok l (r\<lparr>att_multipart_parts := (resize (multipart_part_count (nat z)) (att_multipart_parts r))[j := i]\<rparr>)"
    if "att_ok l r"
      and "validate_multipart_part (att_upload_mode r) (att_upload_status r) (Some z) n k = Inr x"
      and "z = (case att_size_bytes r of None \<Rightarrow> 0 | Some n \<Rightarrow> n)" for r i j k x z
    using that
    by (auto simp: validate_multipart_part_def intro!: att_ok_parts split: sum.splits if_splits option.splits)
  show ?thesis
  proof (cases "find_attachment (fst st) b a")
    case None
    then show ?thesis
      using assms unfolding upload_multipart_part_def by (auto split: prod.splits sum.splits)
  next
    case (Some r)
    then have "att_ok l r" by (rule att_inv_found(1) [OF assms])
    with Some show ?thesis
      using assms unfolding upload_multipart_part_def
      by (auto simp: Let_def att_key_def intro!: att_inv_update ok [OF \<open>att_ok l r\<close> _ refl]
          split: prod.splits sum.splits if_splits)
  qed
qed

lemma direct_part_inv:
  assumes "att_inv l (fst st)"
  shows "att_inv l (fst (snd (complete_multipart_part ops u b a n pid st)))"
proof -
  have "att_ok l (r\<lparr>att_multipart_parts := ps\<rparr>)"
    if "find_attachment (fst st) b a = Some r"
      and "validate_multipart_part_plan (att_upload_mode r) (att_upload_status r) (att_size_bytes r) n = Inr x"
      and "update_multipart_part (parts_value r) (case att_size_bytes r of None \<Rightarrow> 0 | Some n \<Rightarrow> nat n) n i = Inr (j, y, z)"
      and "parse_multipart_parts j = Inr ps" for r i j x y z ps
    using that att_inv_found(1) [OF assms that(1)]
    by (auto simp: update_multipart_part_def parts_value_def Let_def intro!: att_ok_parts split: if_splits)
  then show ?thesis
    using assms unfolding complete_multipart_part_def
    by (auto simp: Let_def att_key_def intro!: att_inv_update split: prod.splits sum.splits option.splits if_splits)
qed

lemma abort_att_inv: "att_inv l (fst st) \<Longrightarrow> att_inv l (fst (snd (abort_multipart_upload ops cf c u b a st)))"
  unfolding abort_multipart_upload_def
  by (auto intro: att_inv_remove split: prod.splits sum.splits option.splits if_splits)

lemma delete_att_inv: "att_inv l (fst st) \<Longrightarrow> att_inv l (fst (snd (delete_attachment ops cf c u b a st)))"
  unfolding delete_attachment_def
  by (auto intro: att_inv_remove split: prod.splits sum.splits option.splits if_splits)

lemma assemble_inv: "att_inv l s \<Longrightarrow> assemble ops cf c u b r (s, ob) = (x, s1, ob1) \<Longrightarrow> att_inv l s1"
  by (auto simp: assemble_def complete_failure_def split: prod.splits sum.splits option.splits if_splits)

lemma failed_inv: "att_inv l s \<Longrightarrow> att_inv l (mark_attachment_failed b a s)"
  unfolding mark_attachment_failed_def
  using att_inv_found(1) [of l s b a]
  by (intro att_inv_update) (auto simp: att_key_def att_ok_def split: option.splits)

lemma verify_inv:
  assumes "att_inv l s" and "verify_upload ops cf c u b r (s, ob) = (x, s1, ob1)"
  shows "att_inv l s1" and "x = Inr md \<Longrightarrow> som_size_bytes md \<le> cf_attachment_max_bytes cf"
  using assms unfolding verify_upload_def
  by (auto simp: Let_def complete_failure_def reject_attachment_upload_def failed_inv
      split: prod.splits sum.splits option.splits if_splits)

lemma ready_ok:
  assumes "att_ok l r" and "som_size_bytes md \<le> l" and "l < 2 ^ 63"
  shows "att_ok l (mark_ready md r)"
proof -
  have "in_i64 (int (som_size_bytes md))" using assms(2,3) by (simp add: in_signed_def)
  then show ?thesis
    using assms by (auto simp: att_ok_def mark_ready_def split: option.splits)
qed

lemma complete_inv:
  assumes "att_inv (cf_attachment_max_bytes cf) (fst st)" and "cf_attachment_max_bytes cf < 2 ^ 63"
  shows "att_inv (cf_attachment_max_bytes cf) (fst (snd (complete_attachment ops cf c u b a st)))"
proof -
  let ?l = "cf_attachment_max_bytes cf"
  have ready: "att_inv ?l (update_attachment b a (mark_ready md) s')"
    if "att_inv ?l s'" and "som_size_bytes md \<le> ?l" for md s'
    using that assms(2) by (intro att_inv_update) (auto simp: att_key_def mark_ready_def att_inv_found(1) ready_ok
        intro: ready_ok [unfolded mark_ready_def])
  show ?thesis
    using assms(1) unfolding complete_attachment_def
    by (auto simp: Let_def split: prod.splits sum.splits option.splits
        dest: assemble_inv verify_inv intro!: ready)
qed

text \<open>With the invariant the part list never outgrows its plan, so the handlers' own check is idle.\<close>

lemma upload_state_valid:
  assumes "att_inv l s"
  shows "fst (upload_multipart_part ops u b a n body (s, ob)) \<noteq> Inl (ApiError 500 ''INVALID_MULTIPART_STATE'')"
proof -
  have "length (att_multipart_parts r) \<le> multipart_part_count (nat (case att_size_bytes r of None \<Rightarrow> 0 | Some n \<Rightarrow> n))"
    if "find_attachment s b a = Some r" for r
    using att_inv_found(1) [OF assms that] by (auto simp: att_ok_def split: option.splits if_splits)
  then show ?thesis
    by (auto simp: upload_multipart_part_def Let_def object_store_api_error_def validate_multipart_part_def
        validate_multipart_part_plan_def require_book_member_def require_plan_def
        split: prod.splits sum.splits option.splits if_splits)
qed

text \<open>
  C35. Attachment catalogue: whatever requests are served, in any order and over any object store, the
  records keep distinct (book, id) pairs; every status is pending, ready or failed; every object key
  is that of its record; a declared size is within the configured limit; a ready record has a size
  and a hash and no parts left; a pending one has no hash; no part list outgrows the plan of its
  size, so an upload of a part is never answered with a server error about its own state.
\<close>
theorem attachments_inv_reachable:
  assumes "(att_step ops cf)\<^sup>*\<^sup>* (s0, ob0) (s, ob)" and "attachments s0 = []"
    and "cf_attachment_max_bytes cf < 2 ^ 63"
  shows "att_inv (cf_attachment_max_bytes cf) s \<and>
    fst (upload_multipart_part ops u b a n body (s, ob)) \<noteq> Inl (ApiError 500 ''INVALID_MULTIPART_STATE'')"
proof -
  let ?l = "cf_attachment_max_bytes cf"
  have step: "att_inv ?l (fst st')" if "att_step ops cf st st'" and "att_inv ?l (fst st)" for st st'
    using that by cases (auto intro: create_inv upload_part_inv direct_part_inv abort_att_inv delete_att_inv
        complete_inv [OF _ assms(3)] att_inv_same)
  have "att_inv ?l (fst (s, ob))"
    using assms(1) by (induction rule: rtranclp_induct) (auto simp: att_inv_def assms(2) dest: step [unfolded att_inv_def])
  then show ?thesis using upload_state_valid by simp
qed

theorem attachments_inv_reachable_witness:
  "\<exists>s ob r. (att_step ex_ops ex_cf)\<^sup>*\<^sup>* (ex_att_store, ex_fs) (s, ob) \<and> att_inv (cf_attachment_max_bytes ex_cf) s \<and>
     find_attachment s ''b1'' ''a1'' = Some r \<and> att_upload_status r = ''pending''"
proof -
  let ?req = "ex_upload 2"
  let ?st = "snd (create_upload_session ex_ops ex_cf ex_att_call ''u1'' ''b1'' ?req (ex_att_store, ex_fs))"
  have none: "attachments ex_att_store = []" by (simp add: ex_att_store_def empty_store_def)
  then have "find_attachment ex_att_store ''b1'' (tc_id ex_att_call) = None" by (simp add: find_attachment_def)
  then have run: "(att_step ex_ops ex_cf)\<^sup>*\<^sup>* (ex_att_store, ex_fs) (fst ?st, snd ?st)"
    unfolding prod.collapse by (intro r_into_rtranclp att_create)
  have "require_book_member ex_att_store ''u1'' ''b1'' = Inr ()" "require_plan ex_att_store ''u1'' ''plus'' = Inr ''plus''"
    by (simp_all add: require_book_member_def require_plan_def user_plan_def plan_allows_def ex_att_store_def hm_get_def)
  then obtain r where "find_attachment (fst ?st) ''b1'' ''a1'' = Some r" "att_upload_status r = ''pending''"
    by (simp add: create_upload_session_def ex_upload_def normalize_attachment_file_name_def ex_cf_def
        should_use_multipart_def ex_ops_def local_ops_def ex_att_call_def session_response_def signed_or_direct_def
        find_attachment_def is_attachment_def new_attachment_def none Let_def del: require_book_member_ok)
  moreover have "cf_attachment_max_bytes ex_cf < 2 ^ 63" by (simp add: ex_cf_def)
  ultimately show ?thesis
    using run attachments_inv_reachable [OF run none] by blast
qed

end
