(* ===== verification/Object_Backup.thy ===== *)
theory Object_Backup
  imports Object_Store
begin

section \<open>Backup and restore of the object store (infrastructure/object_store.rs)\<close>

text \<open>
  The backup of the local objects into a directory with a manifest, its verification and its
  restoration. The object directory is the tree that \<open>fs::read_dir\<close> shows, so that links and special
  files are cases of \<open>collect_files\<close>; the objects of a backup are a map from keys to contents. The
  JSON form of the manifest is the type \<open>'m\<close> with its encoder and decoder as arguments, SHA-256 is
  an argument, and the four outcomes of moving directories during a restore are a record of
  Booleans. Other failures of the operating system are not modelled. Sizes are natural numbers: no
  set of files reaches \<open>2 ^ 64\<close> bytes.
\<close>

datatype fs_node = FileN bytes | DirN "(string \<times> fs_node) list" | SymlinkN | OtherN

datatype backup_error =
    NotLocal | OutputNotEmpty | OutputOverlaps | SymlinkFound | BadKey | ChangedDuringBackup
  | ManifestMissing | ManifestUnreadable | WrongKind | WrongSchema | CountMismatch
  | DuplicateKey | FileMissing | MetadataMismatch | TotalMismatch
  | TargetNotDirectory | MoveAwayFailed | PublishFailed | RemovePreviousFailed
  | StoreFailed store_error | Disappeared | WriteFailed | NotS3 | SourceNotDirectory

record object_store_backup_manifest =
  om_kind :: string
  om_schema_version :: nat
  om_created_at :: string
  om_object_count :: nat
  om_total_size_bytes :: nat
  om_objects :: "stored_object_metadata list"

record object_store_backup_report =
  rp_object_count :: nat
  rp_total_size_bytes :: nat

definition manifest_report :: "object_store_backup_manifest \<Rightarrow> object_store_backup_report" where
  "manifest_report m = \<lparr>rp_object_count = om_object_count m, rp_total_size_bytes = om_total_size_bytes m\<rparr>"

definition OBJECT_STORE_BACKUP_SCHEMA_VERSION :: nat where
  "OBJECT_STORE_BACKUP_SCHEMA_VERSION = 1"

definition OBJECT_STORE_BACKUP_KIND :: string where
  "OBJECT_STORE_BACKUP_KIND = ''ledgerly-object-store-backup''"

text \<open>A backup directory: \<open>manifest.json\<close> and the files below \<open>objects/\<close>.\<close>

record 'm backup_dir =
  bd_manifest :: "'m option"
  bd_objects :: "(string, bytes) hashmap"

datatype out_dir = OutAbsent | OutEmpty | OutNonEmpty

subsection \<open>Backup\<close>

fun join_path :: "string list \<Rightarrow> string" where
  "join_path [] = []"
| "join_path [c] = c"
| "join_path (c # cs) = c @ ''/'' @ join_path cs"

text \<open>The files below a directory whose path from the root is \<open>prefix\<close>, with their contents.\<close>

fun collect_files :: "string list \<Rightarrow> (string \<times> fs_node) list \<Rightarrow> backup_error + (string \<times> bytes) list" where
  "collect_files prefix [] = Inr []"
| "collect_files prefix ((name, FileN content) # rest) =
     (case validated_key (join_path (prefix @ [name])) of
        None \<Rightarrow> Inl BadKey
      | Some key \<Rightarrow> map_sum (\<lambda>e. e) ((#) (key, content)) (collect_files prefix rest))"
| "collect_files prefix ((name, DirN entries) # rest) =
     (case collect_files (prefix @ [name]) entries of
        Inl e \<Rightarrow> Inl e
      | Inr files \<Rightarrow> map_sum (\<lambda>e. e) ((@) files) (collect_files prefix rest))"
| "collect_files prefix ((name, SymlinkN) # rest) = Inl SymlinkFound"
| "collect_files prefix ((name, OtherN) # rest) = collect_files prefix rest"

definition metadata_for_path :: "(bytes \<Rightarrow> string) \<Rightarrow> string \<Rightarrow> bytes \<Rightarrow> stored_object_metadata" where
  "metadata_for_path sha256 key content =
     \<lparr>som_key = key, som_size_bytes = length content, som_sha256 = sha256 content\<rparr>"

text \<open>\<open>File::open\<close> of an object of a backup.\<close>

definition metadata_in :: "(bytes \<Rightarrow> string) \<Rightarrow> (string, bytes) hashmap \<Rightarrow> string \<Rightarrow> backup_error + stored_object_metadata" where
  "metadata_in sha256 objects key =
     (case hm_get objects key of None \<Rightarrow> Inl FileMissing | Some content \<Rightarrow> Inr (metadata_for_path sha256 key content))"

text \<open>The copying loop: each copied file is read again and compared with its source.\<close>

fun copy_objects :: "(bytes \<Rightarrow> string) \<Rightarrow> (string \<times> bytes) list \<Rightarrow> stored_object_metadata list \<Rightarrow> nat \<Rightarrow>
    (string, bytes) hashmap \<Rightarrow> (backup_error + (stored_object_metadata list \<times> nat)) \<times> (string, bytes) hashmap" where
  "copy_objects sha256 [] objects total_size_bytes dest = (Inr (objects, total_size_bytes), dest)"
| "copy_objects sha256 ((key, content) # files) objects total_size_bytes dest =
     (let metadata = metadata_for_path sha256 key content; dest = hm_insert key content dest in
      case metadata_in sha256 dest key of
        Inl e \<Rightarrow> (Inl e, dest)
      | Inr copied \<Rightarrow>
          if copied \<noteq> metadata then (Inl ChangedDuringBackup, dest)
          else copy_objects sha256 files (objects @ [metadata]) (total_size_bytes + som_size_bytes metadata) dest)"

text \<open>
  \<open>overlaps\<close> tells that one of the two resolved directories contains the other. The manifest is
  published last, by a rename.
\<close>

definition backup_object_store :: "(bytes \<Rightarrow> string) \<Rightarrow> (object_store_backup_manifest \<Rightarrow> 'm) \<Rightarrow> bool \<Rightarrow> out_dir \<Rightarrow>
    bool \<Rightarrow> string \<Rightarrow> (string \<times> fs_node) list \<Rightarrow> (backup_error + object_store_backup_report) \<times> 'm backup_dir" where
  "backup_object_store sha256 encode is_local out overlaps created_at source =
     (let written = (\<lambda>objects. \<lparr>bd_manifest = None, bd_objects = objects\<rparr>) in
      if \<not> is_local then (Inl NotLocal, written [])
      else if out = OutNonEmpty then (Inl OutputNotEmpty, written [])
      else if overlaps then (Inl OutputOverlaps, written [])
      else case collect_files [] source of
        Inl e \<Rightarrow> (Inl e, written [])
      | Inr source_files \<Rightarrow>
          (case copy_objects sha256 (sort_key fst source_files) [] 0 [] of
             (Inl e, dest) \<Rightarrow> (Inl e, written dest)
           | (Inr (objects, total_size_bytes), dest) \<Rightarrow>
               let manifest = \<lparr>om_kind = OBJECT_STORE_BACKUP_KIND,
                     om_schema_version = OBJECT_STORE_BACKUP_SCHEMA_VERSION, om_created_at = created_at,
                     om_object_count = length objects, om_total_size_bytes = total_size_bytes,
                     om_objects = objects\<rparr> in
               (Inr (manifest_report manifest), \<lparr>bd_manifest = Some (encode manifest), bd_objects = dest\<rparr>)))"

subsection \<open>Verification\<close>

definition read_object_store_manifest ::
  "('m \<Rightarrow> object_store_backup_manifest option) \<Rightarrow> 'm backup_dir \<Rightarrow> backup_error + object_store_backup_manifest" where
  "read_object_store_manifest decode dir =
     (case bd_manifest dir of
        None \<Rightarrow> Inl ManifestMissing
      | Some raw \<Rightarrow>
          (case decode raw of
             None \<Rightarrow> Inl ManifestUnreadable
           | Some manifest \<Rightarrow>
               if om_kind manifest \<noteq> OBJECT_STORE_BACKUP_KIND then Inl WrongKind
               else if om_schema_version manifest \<noteq> OBJECT_STORE_BACKUP_SCHEMA_VERSION then Inl WrongSchema
               else if om_object_count manifest \<noteq> length (om_objects manifest) then Inl CountMismatch
               else Inr manifest))"

fun verify_objects :: "(bytes \<Rightarrow> string) \<Rightarrow> (string, bytes) hashmap \<Rightarrow> stored_object_metadata list \<Rightarrow>
    string list \<Rightarrow> nat \<Rightarrow> backup_error + nat" where
  "verify_objects sha256 files [] seen total_size_bytes = Inr total_size_bytes"
| "verify_objects sha256 files (object # objects) seen total_size_bytes =
     (case validated_key (som_key object) of
        None \<Rightarrow> Inl BadKey
      | Some key \<Rightarrow>
          if key \<in> set seen then Inl DuplicateKey
          else case metadata_in sha256 files key of
            Inl e \<Rightarrow> Inl e
          | Inr actual \<Rightarrow>
              if actual \<noteq> object then Inl MetadataMismatch
              else verify_objects sha256 files objects (key # seen) (total_size_bytes + som_size_bytes object))"

definition verify_object_store_backup :: "(bytes \<Rightarrow> string) \<Rightarrow> ('m \<Rightarrow> object_store_backup_manifest option) \<Rightarrow>
    'm backup_dir \<Rightarrow> backup_error + object_store_backup_report" where
  "verify_object_store_backup sha256 decode dir =
     (case read_object_store_manifest decode dir of
        Inl e \<Rightarrow> Inl e
      | Inr manifest \<Rightarrow>
          (case verify_objects sha256 (bd_objects dir) (om_objects manifest) [] 0 of
             Inl e \<Rightarrow> Inl e
           | Inr total_size_bytes \<Rightarrow>
               if total_size_bytes \<noteq> om_total_size_bytes manifest then Inl TotalMismatch
               else Inr (manifest_report manifest)))"

subsection \<open>Restoration\<close>

datatype target = TargetAbsent | TargetFile | TargetDir "(string, bytes) hashmap"

text \<open>The directory moves of a restore that succeed.\<close>

record restore_io =
  io_move_away :: bool
  io_publish :: bool
  io_move_back :: bool
  io_remove_previous :: bool

text \<open>The objects are copied into a staging directory, each one checked before and after.\<close>

fun stage_objects :: "(bytes \<Rightarrow> string) \<Rightarrow> (string, bytes) hashmap \<Rightarrow> stored_object_metadata list \<Rightarrow>
    string list \<Rightarrow> nat \<Rightarrow> (string, bytes) hashmap \<Rightarrow> backup_error + (nat \<times> (string, bytes) hashmap)" where
  "stage_objects sha256 files [] seen total_size_bytes staging = Inr (total_size_bytes, staging)"
| "stage_objects sha256 files (object # objects) seen total_size_bytes staging =
     (case validated_key (som_key object) of
        None \<Rightarrow> Inl BadKey
      | Some key \<Rightarrow>
          if key \<in> set seen then Inl DuplicateKey
          else case hm_get files key of
            None \<Rightarrow> Inl FileMissing
          | Some content \<Rightarrow>
              if metadata_for_path sha256 key content \<noteq> object then Inl MetadataMismatch
              else
                let staging = hm_insert key content staging in
                case metadata_in sha256 staging key of
                  Inl e \<Rightarrow> Inl e
                | Inr restored \<Rightarrow>
                    if restored \<noteq> object then Inl MetadataMismatch
                    else stage_objects sha256 files objects (key # seen) (total_size_bytes + som_size_bytes object) staging)"

text \<open>Publishing the staging directory, with what is left at the target when a move fails.\<close>

definition publish_staging :: "restore_io \<Rightarrow> (string, bytes) hashmap \<Rightarrow> target \<Rightarrow> (backup_error + unit) \<times> target" where
  "publish_staging io staging target =
     (let had_target = target \<noteq> TargetAbsent in
      if had_target \<and> \<not> io_move_away io then (Inl MoveAwayFailed, target)
      else if \<not> io_publish io
      then (Inl PublishFailed, if had_target \<and> io_move_back io then target else TargetAbsent)
      else if had_target \<and> \<not> io_remove_previous io then (Inl RemovePreviousFailed, TargetDir staging)
      else (Inr (), TargetDir staging))"

definition restore_object_store :: "(bytes \<Rightarrow> string) \<Rightarrow> ('m \<Rightarrow> object_store_backup_manifest option) \<Rightarrow> bool \<Rightarrow>
    restore_io \<Rightarrow> 'm backup_dir \<Rightarrow> target \<Rightarrow> (backup_error + object_store_backup_report) \<times> target" where
  "restore_object_store sha256 decode is_local io dir target =
     (if \<not> is_local then (Inl NotLocal, target)
      else case read_object_store_manifest decode dir of
        Inl e \<Rightarrow> (Inl e, target)
      | Inr manifest \<Rightarrow>
          if target = TargetFile then (Inl TargetNotDirectory, target)
          else case stage_objects sha256 (bd_objects dir) (om_objects manifest) [] 0 [] of
            Inl e \<Rightarrow> (Inl e, target)
          | Inr (total_size_bytes, staging) \<Rightarrow>
              if total_size_bytes \<noteq> om_total_size_bytes manifest then (Inl TotalMismatch, target)
              else case publish_staging io staging target of
                (Inl e, target') \<Rightarrow> (Inl e, target')
              | (Inr _, target') \<Rightarrow> (Inr (manifest_report manifest), target'))"

subsection \<open>The files of a tree\<close>

text \<open>What the operating system guarantees of the names in a directory.\<close>

definition name_ok :: "string \<Rightarrow> bool" where
  "name_ok n \<longleftrightarrow> n \<noteq> [] \<and> CHR ''/'' \<notin> set n"

fun tree_ok :: "(string \<times> fs_node) list \<Rightarrow> bool" where
  "tree_ok [] \<longleftrightarrow> True"
| "tree_ok ((n, DirN es) # rest) \<longleftrightarrow> name_ok n \<and> n \<notin> fst ` set rest \<and> tree_ok es \<and> tree_ok rest"
| "tree_ok ((n, _) # rest) \<longleftrightarrow> name_ok n \<and> n \<notin> fst ` set rest \<and> tree_ok rest"

text \<open>The content of the file at a path of names.\<close>

fun file_at :: "(string \<times> fs_node) list \<Rightarrow> string list \<Rightarrow> bytes option" where
  "file_at es [] = None"
| "file_at es (n # ns) =
     (case map_of es n of
        Some (FileN c) \<Rightarrow> if ns = [] then Some c else None
      | Some (DirN es') \<Rightarrow> file_at es' ns
      | _ \<Rightarrow> None)"

lemma join_path_Cons [simp]: "ns \<noteq> [] \<Longrightarrow> join_path (n # ns) = n @ CHR ''/'' # join_path ns"
  by (cases ns) auto

lemma split_on_append: "d \<notin> set n \<Longrightarrow> split_on d (n @ d # s) = n # split_on d s"
  by (induction n) auto

lemma split_on_Cons_append: "split_on d (s @ d # t) = split_on d s @ split_on d t"
  by (induction s) (auto split: list.splits)

lemma split_on_single: "d \<notin> set n \<Longrightarrow> split_on d n = [n]"
  by (induction n) auto

lemma split_join_path: "list_all name_ok ns \<Longrightarrow> ns \<noteq> [] \<Longrightarrow> split_on (CHR ''/'') (join_path ns) = ns"
  by (induction ns rule: join_path.induct) (auto simp: name_ok_def split_on_append split_on_single)

lemma join_path_inject:
  assumes "list_all name_ok ns" "list_all name_ok ms"
  shows "join_path ns = join_path ms \<longleftrightarrow> ns = ms"
proof -
  have empty: "join_path ks = [] \<longleftrightarrow> ks = []" if "list_all name_ok ks" for ks
    using that by (induction ks rule: join_path.induct) (auto simp: name_ok_def)
  show ?thesis
    using assms split_join_path [of ns] split_join_path [of ms] empty [of ns] empty [of ms] by metis
qed

lemma validated_join_path:
  assumes "validated_key (join_path ns) = Some key" and "list_all name_ok ns"
  shows "key = join_path ns"
proof -
  have "hd (join_path ns) \<noteq> CHR ''/''" if "ns \<noteq> []"
    using that assms(2) by (cases ns rule: join_path.cases) (auto simp: name_ok_def hd_append dest: hd_in_set)
  then show ?thesis
    using assms(1) by (cases "ns = []") (auto simp: validated_key_Some trim_start_char_id)
qed

text \<open>The files of a tree in the order of \<open>collect_files\<close>, by their paths.\<close>

fun tree_files :: "(string \<times> fs_node) list \<Rightarrow> (string list \<times> bytes) list" where
  "tree_files [] = []"
| "tree_files ((n, FileN c) # rest) = ([n], c) # tree_files rest"
| "tree_files ((n, DirN es) # rest) = map (\<lambda>(ns, c). (n # ns, c)) (tree_files es) @ tree_files rest"
| "tree_files ((n, SymlinkN) # rest) = tree_files rest"
| "tree_files ((n, OtherN) # rest) = tree_files rest"

lemma file_at_hd: "file_at es ns = Some c \<Longrightarrow> ns \<noteq> [] \<and> hd ns \<in> fst ` set es"
  by (cases ns) (auto split: option.splits dest!: map_of_SomeD intro: rev_image_eqI)

lemma tree_files_iff: "tree_ok es \<Longrightarrow> (ns, c) \<in> set (tree_files es) \<longleftrightarrow> file_at es ns = Some c"
proof (induction es arbitrary: ns c rule: tree_files.induct)
  case (2 n d rest)
  then show ?case using file_at_hd [of rest ns c] by (cases ns) auto
next
  case (3 n es rest)
  then show ?case using file_at_hd [of rest ns c] by (cases ns) auto
next
  case (4 n rest)
  then show ?case using file_at_hd [of rest ns c] by (cases ns) auto
next
  case (5 n rest)
  then show ?case using file_at_hd [of rest ns c] by (cases ns) auto
qed (auto elim: file_at.elims)

lemma tree_files_ok: "tree_ok es \<Longrightarrow> (ns, c) \<in> set (tree_files es) \<Longrightarrow> list_all name_ok ns"
  by (induction es arbitrary: ns c rule: tree_files.induct) auto

lemma tree_files_distinct: "tree_ok es \<Longrightarrow> distinct (map fst (tree_files es))"
proof (induction es rule: tree_files.induct)
  case (2 n c rest)
  then show ?case using file_at_hd [of rest] by (force simp: tree_files_iff)
next
  case (3 n es rest)
  have "map fst (map (\<lambda>(ns, c). (n # ns, c)) (tree_files es)) = map ((#) n) (map fst (tree_files es))" by auto
  moreover have "distinct (map ((#) n) (map fst (tree_files es)))"
    using 3 by (subst distinct_map) auto
  ultimately have "distinct (map fst (map (\<lambda>(ns, c). (n # ns, c)) (tree_files es)))" by metis
  moreover have "n # ns \<noteq> ms" if "(ms, d) \<in> set (tree_files rest)" for ns ms d
  proof -
    have "hd ms \<in> fst ` set rest" "n \<notin> fst ` set rest"
      using that 3(3) file_at_hd [of rest ms d] tree_files_iff [of rest ms d] by simp_all
    then show ?thesis by (metis list.sel(1))
  qed
  ultimately show ?case using 3 by auto
qed auto

lemma collect_files_tree:
  assumes "collect_files prefix es = Inr files" and "tree_ok es" and "list_all name_ok prefix"
  shows "files = map (\<lambda>(ns, c). (join_path (prefix @ ns), c)) (tree_files es)
    \<and> list_all (\<lambda>(k, _). validated_key k = Some k) files"
  using assms
proof (induction prefix es arbitrary: files rule: collect_files.induct)
  case (2 prefix name content rest)
  then show ?case
    using validated_join_path [of "prefix @ [name]"]
    by (auto split: option.splits elim!: map_sum_InrE dest: validated_key_fix)
next
  case (3 prefix name entries rest)
  then show ?case
    by (auto split: sum.splits elim!: map_sum_InrE simp: split_def)
qed (auto split: option.splits)

text \<open>The keys of a backup are those of the files, each once.\<close>

lemma collect_files_map:
  assumes "collect_files [] es = Inr files" and "tree_ok es"
  shows "distinct (map fst files)" and "list_all (\<lambda>(k, _). validated_key k = Some k) files"
    and "list_all name_ok ns \<Longrightarrow> map_of files (join_path ns) = file_at es ns"
proof -
  let ?t = "tree_files es"
  have files: "files = map (\<lambda>(ns, c). (join_path ns, c)) ?t" and "list_all (\<lambda>(k, _). validated_key k = Some k) files"
    using collect_files_tree [OF assms] by auto
  then show "list_all (\<lambda>(k, _). validated_key k = Some k) files" by simp
  have inj: "inj_on join_path (fst ` set ?t)"
    using tree_files_ok [OF assms(2)] by (auto simp: inj_on_def join_path_inject)
  have keys: "map fst files = map join_path (map fst ?t)" by (auto simp: files)
  then show d: "distinct (map fst files)"
    unfolding keys distinct_map [of join_path] using inj tree_files_distinct [OF assms(2)] by simp
  assume ns: "list_all name_ok ns"
  have "map_of files (join_path ns) = Some c \<longleftrightarrow> file_at es ns = Some c" for c
    using d ns tree_files_ok [OF assms(2)] tree_files_iff [OF assms(2)]
    by (auto simp: files map_of_eq_Some_iff join_path_inject)
  then show "map_of files (join_path ns) = file_at es ns" by (metis not_Some_eq)
qed

subsection \<open>Copying, verifying and staging\<close>

lemma copy_objects_all:
  assumes "distinct (map fst files)"
  shows "\<exists>dest'. copy_objects sha256 files objects acc dest =
      (Inr (objects @ map (\<lambda>(k, c). metadata_for_path sha256 k c) files, acc + (\<Sum>(k, c)\<leftarrow>files. length c)), dest')
    \<and> (\<forall>k. hm_get dest' k = (case map_of files k of Some c \<Rightarrow> Some c | None \<Rightarrow> hm_get dest k))"
  using assms
proof (induction files arbitrary: objects acc dest)
  case (Cons f files)
  obtain k c where f: "f = (k, c)" by fastforce
  have new: "map_of files k = None" using Cons.prems by (simp add: f map_of_eq_None_iff)
  obtain d' where d: "copy_objects sha256 files (objects @ [metadata_for_path sha256 k c]) (acc + length c) (hm_insert k c dest) =
      (Inr ((objects @ [metadata_for_path sha256 k c]) @ map (\<lambda>(k, c). metadata_for_path sha256 k c) files,
        (acc + length c) + (\<Sum>(k, c)\<leftarrow>files. length c)), d')"
    and g: "\<And>j. hm_get d' j = (case map_of files j of Some c \<Rightarrow> Some c | None \<Rightarrow> hm_get (hm_insert k c dest) j)"
    using Cons.IH Cons.prems by (fastforce simp: f)
  show ?case
    using d new
    by (intro exI [of _ d']) (simp add: f g Let_def metadata_in_def metadata_for_path_def add.assoc split: option.split)
qed simp

text \<open>A staging run succeeds exactly when the verification does, and then holds the listed objects.\<close>

lemma stage_verify:
  "verify_objects sha256 files objects seen acc = map_sum (\<lambda>e. e) fst (stage_objects sha256 files objects seen acc staging)"
proof (induction objects arbitrary: seen acc staging)
  case (Cons x objects)
  then show ?case by (auto simp: Let_def metadata_in_def split: option.splits)
qed simp

lemma stage_objects_Inr:
  assumes "stage_objects sha256 files objects seen acc staging = Inr (acc', staging')"
  shows "hm_get staging' k = (if k \<in> som_key ` set objects then hm_get files k else hm_get staging k)
    \<and> (k \<in> som_key ` set objects \<longrightarrow> (\<exists>c. hm_get files k = Some c \<and> metadata_for_path sha256 k c \<in> set objects))"
  using assms
proof (induction objects arbitrary: seen acc staging)
  case (Cons x objects)
  obtain key content where x: "validated_key (som_key x) = Some key" "hm_get files key = Some content"
      "x = metadata_for_path sha256 key content"
      "stage_objects sha256 files objects (key # seen) (acc + som_size_bytes x) (hm_insert key content staging)
        = Inr (acc', staging')"
    using Cons.prems by (auto simp: Let_def split: option.splits sum.splits if_splits)
  have "som_key x = key" using x(3) by (simp add: metadata_for_path_def)
  then show ?case using Cons.IH [OF x(4)] x by auto
qed simp

lemma stage_objects_all:
  assumes "distinct (map fst fs)" and "list_all (\<lambda>(k, _). validated_key k = Some k) fs"
    and "\<forall>(k, c) \<in> set fs. hm_get files k = Some c" and "set seen \<inter> fst ` set fs = {}"
  shows "\<exists>staging'. stage_objects sha256 files (map (\<lambda>(k, c). metadata_for_path sha256 k c) fs) seen acc staging
    = Inr (acc + (\<Sum>(k, c)\<leftarrow>fs. length c), staging')"
  using assms
proof (induction fs arbitrary: seen acc staging)
  case (Cons f fs)
  obtain k c where f: "f = (k, c)" by fastforce
  have "set (k # seen) \<inter> fst ` set fs = {}" using Cons.prems by (auto simp: f)
  then show ?case
    using Cons.IH [of "k # seen" "acc + length c"] Cons.prems
    by (auto simp: f Let_def metadata_in_def metadata_for_path_def add.assoc)
qed simp

subsection \<open>A backup is verified and restored\<close>

lemma case_option_hm [simp]: "(case x of None \<Rightarrow> hm_get [] k | Some y \<Rightarrow> Some y) = x"
  by (cases x) auto

lemma backup_Inr:
  assumes "backup_object_store sha256 encode True out False created source = (Inr rep, dir)" and "tree_ok source"
  obtains fs m where "distinct (map fst fs)" "list_all (\<lambda>(k, _). validated_key k = Some k) fs"
    "\<forall>ns. list_all name_ok ns \<longrightarrow> map_of fs (join_path ns) = file_at source ns"
    "bd_manifest dir = Some (encode m)" "\<forall>k. hm_get (bd_objects dir) k = map_of fs k" "rep = manifest_report m"
    "om_kind m = OBJECT_STORE_BACKUP_KIND" "om_schema_version m = OBJECT_STORE_BACKUP_SCHEMA_VERSION"
    "om_object_count m = length fs" "om_objects m = map (\<lambda>(k, c). metadata_for_path sha256 k c) fs"
    "om_total_size_bytes m = (\<Sum>(k, c)\<leftarrow>fs. length c)"
proof -
  obtain files where files: "collect_files [] source = Inr files"
    using assms(1) by (auto simp: backup_object_store_def Let_def split: sum.splits if_splits)
  let ?fs = "sort_key fst files"
  note all = collect_files_map [OF files assms(2)]
  have d: "distinct (map fst ?fs)"
    using all(1) by (simp add: distinct_map distinct_sort)
  have m: "map_of ?fs = map_of files"
    using d all(1) by (auto simp: map_of_inject_set)
  obtain dest where c: "copy_objects sha256 ?fs [] 0 [] =
      (Inr (map (\<lambda>(k, c). metadata_for_path sha256 k c) ?fs, \<Sum>(k, c)\<leftarrow>?fs. length c), dest)"
    and g: "\<And>k. hm_get dest k = map_of ?fs k"
    using copy_objects_all [OF d, of sha256 "[]" 0 "[]"] by (auto simp: case_option_hm)
  define w where "w = \<lparr>om_kind = OBJECT_STORE_BACKUP_KIND, om_schema_version = OBJECT_STORE_BACKUP_SCHEMA_VERSION,
    om_created_at = created, om_object_count = length ?fs, om_total_size_bytes = (\<Sum>(k, c)\<leftarrow>?fs. length c),
    om_objects = map (\<lambda>(k, c). metadata_for_path sha256 k c) ?fs\<rparr>"
  have "rep = manifest_report w" "dir = \<lparr>bd_manifest = Some (encode w), bd_objects = dest\<rparr>"
    using assms(1) files c by (auto simp: backup_object_store_def Let_def w_def split: if_splits)
  then show thesis
    using all(2,3) g m d by (intro that [of ?fs w]) (simp_all add: list_all_iff w_def)
qed

lemma restored_backup:
  assumes "backup_object_store sha256 encode True out False created source = (Inr rep, dir)"
    and "tree_ok source" and "\<forall>m. decode (encode m) = Some m" and "target \<noteq> TargetFile"
    and "io_move_away io \<and> io_publish io \<and> io_remove_previous io"
  shows "verify_object_store_backup sha256 decode dir = Inr rep \<and>
    (\<exists>objects. restore_object_store sha256 decode True io dir target = (Inr rep, TargetDir objects) \<and>
      (\<forall>ns. list_all name_ok ns \<longrightarrow> hm_get objects (join_path ns) = file_at source ns))"
proof -
  obtain fs m where fs: "distinct (map fst fs)" "list_all (\<lambda>(k, _). validated_key k = Some k) fs"
    "\<forall>ns. list_all name_ok ns \<longrightarrow> map_of fs (join_path ns) = file_at source ns"
    and dir: "bd_manifest dir = Some (encode m)" "\<forall>k. hm_get (bd_objects dir) k = map_of fs k" "rep = manifest_report m"
    and m: "om_kind m = OBJECT_STORE_BACKUP_KIND" "om_schema_version m = OBJECT_STORE_BACKUP_SCHEMA_VERSION"
    "om_object_count m = length fs" "om_objects m = map (\<lambda>(k, c). metadata_for_path sha256 k c) fs"
    "om_total_size_bytes m = (\<Sum>(k, c)\<leftarrow>fs. length c)"
    by (rule backup_Inr [OF assms(1,2)])
  have "\<forall>(k, c) \<in> set fs. hm_get (bd_objects dir) k = Some c"
    using fs(1) by (auto simp: dir(2) map_of_eq_Some_iff)
  then obtain st where st: "stage_objects sha256 (bd_objects dir) (om_objects m) [] 0 [] = Inr (om_total_size_bytes m, st)"
    using stage_objects_all [OF fs(1,2), of "bd_objects dir" "[]" sha256 0 "[]"] m(4,5) by auto
  have "som_key ` set (om_objects m) = fst ` set fs"
    by (auto simp: m(4) metadata_for_path_def image_image split_def)
  then have "hm_get st k = map_of fs k" for k
    using stage_objects_Inr [OF st, of k] map_of_eq_None_iff [of fs k] by (auto simp: dir(2) split: if_splits)
  moreover have "read_object_store_manifest decode dir = Inr m"
    using assms(3) dir(1) m by (simp add: read_object_store_manifest_def)
  moreover have "verify_objects sha256 (bd_objects dir) (om_objects m) [] 0 = Inr (om_total_size_bytes m)"
    using stage_verify [of sha256 "bd_objects dir" "om_objects m" "[]" 0 "[]"] st by simp
  ultimately show ?thesis
    using st assms(4,5) fs(3) dir(3)
    by (auto simp: verify_object_store_backup_def restore_object_store_def publish_staging_def Let_def)
qed

text \<open>
  Backup and restore of the object store: a backup that succeeds passes its own verification, and
  restoring it, over an absent or an existing directory, yields an object store with exactly the
  files of the source, each under its path and with its content, and the same report.
\<close>
theorem backup_restore_roundtrip:
  assumes "backup_object_store sha256 encode True out False created source = (Inr rep, dir)"
    and "tree_ok source" and "\<forall>m. decode (encode m) = Some m" and "target \<noteq> TargetFile"
    and "io_move_away io \<and> io_publish io \<and> io_remove_previous io"
  shows "verify_object_store_backup sha256 decode dir = Inr rep \<and>
    (\<exists>objects. restore_object_store sha256 decode True io dir target = (Inr rep, TargetDir objects) \<and>
      (\<forall>ns. list_all name_ok ns \<longrightarrow> hm_get objects (join_path ns) = file_at source ns))"
  using assms by (rule restored_backup)

text \<open>Only the removal of the old directory fails with its error.\<close>

lemma read_manifest_error: "read_object_store_manifest decode dir \<noteq> Inl RemovePreviousFailed"
  by (auto simp: read_object_store_manifest_def split: option.splits if_splits)

lemma stage_objects_error: "stage_objects sha256 files objects seen acc staging \<noteq> Inl RemovePreviousFailed"
  by (induction objects arbitrary: seen acc staging)
    (auto simp: Let_def metadata_in_def split: option.splits sum.splits if_splits)

text \<open>
  C34. Restoring is all or nothing. A restore that succeeds leaves a directory with exactly the objects
  the manifest lists, each with the recorded size and hash, whatever was there before, and reports what
  the verification of the backup reports; a restore of
  a backup that fails its verification changes nothing. A restore that fails changes nothing either,
  with two exceptions: the new directory could not be put in place nor the old one back, and then there is
  none; or the new one is in place with the manifest's objects and the old one could not be removed.
\<close>
theorem restore_all_or_nothing:
  assumes "restore_object_store sha256 decode True io dir target = (x, target')"
  shows "(\<forall>e. verify_object_store_backup sha256 decode dir = Inl e \<longrightarrow> (\<exists>e'. x = Inl e') \<and> target' = target)
    \<and> (\<forall>rep. x = Inr rep \<longrightarrow> verify_object_store_backup sha256 decode dir = Inr rep)
    \<and> (x \<in> Inl ` (UNIV - {PublishFailed, RemovePreviousFailed}) \<longrightarrow> target' = target)
    \<and> (x = Inl PublishFailed \<longrightarrow> target' = target \<or> target' = TargetAbsent \<and> \<not> io_move_back io)
    \<and> (x = Inl RemovePreviousFailed \<or> \<not> isl x \<longrightarrow>
        (\<exists>m objects. read_object_store_manifest decode dir = Inr m \<and> target' = TargetDir objects \<and>
          (\<forall>k. case hm_get objects k of
             None \<Rightarrow> k \<notin> som_key ` set (om_objects m)
           | Some c \<Rightarrow> hm_get (bd_objects dir) k = Some c \<and> metadata_for_path sha256 k c \<in> set (om_objects m))))"
proof (cases "read_object_store_manifest decode dir")
  case (Inl e)
  then show ?thesis
    using assms read_manifest_error [of decode dir]
    by (auto simp: restore_object_store_def verify_object_store_backup_def)
next
  case (Inr m)
  let ?stage = "stage_objects sha256 (bd_objects dir) (om_objects m) [] 0 []"
  have v: "verify_object_store_backup sha256 decode dir =
      (case ?stage of Inl e \<Rightarrow> Inl e | Inr (t, _) \<Rightarrow> if t \<noteq> om_total_size_bytes m then Inl TotalMismatch else Inr (manifest_report m))"
    by (auto simp: verify_object_store_backup_def Inr stage_verify [where staging = "[]"] split: sum.splits)
  show ?thesis
  proof (cases "target = TargetFile \<or> (\<forall>st. ?stage \<noteq> Inr (om_total_size_bytes m, st))")
    case True
    then show ?thesis
      using assms stage_objects_error [of sha256 "bd_objects dir" "om_objects m" "[]" 0 "[]"]
      by (auto simp: restore_object_store_def Inr v split: sum.splits if_splits)
  next
    case False
    then obtain st where st: "?stage = Inr (om_total_size_bytes m, st)" and t: "target \<noteq> TargetFile" by auto
    have "case hm_get st k of None \<Rightarrow> k \<notin> som_key ` set (om_objects m)
        | Some c \<Rightarrow> hm_get (bd_objects dir) k = Some c \<and> metadata_for_path sha256 k c \<in> set (om_objects m)" for k
      using stage_objects_Inr [OF st, of k] by (auto split: option.splits if_splits)
    then show ?thesis
      using assms t by (auto simp: restore_object_store_def Inr st v publish_staging_def Let_def split: if_splits)
  qed
qed

subsection \<open>A concrete backup\<close>

definition ex_sha256 :: "bytes \<Rightarrow> string" where
  "ex_sha256 content = nat_to_string (length content)"

definition ex_tree :: "(string \<times> fs_node) list" where
  "ex_tree = [(''books'', DirN [(''b1'', DirN [(''a1'', FileN ''hi'')]), (''c'', OtherN)])]"

definition ex_io :: restore_io where
  "ex_io = \<lparr>io_move_away = True, io_publish = True, io_move_back = True, io_remove_previous = True\<rparr>"

definition ex_backup :: "object_store_backup_manifest backup_dir" where
  "ex_backup = snd (backup_object_store ex_sha256 (\<lambda>m. m) True OutEmpty False ''2026-01-01T00:00:00Z'' ex_tree)"

lemma ex_backup_runs:
  "\<exists>rep. backup_object_store ex_sha256 (\<lambda>m. m) True OutEmpty False ''2026-01-01T00:00:00Z'' ex_tree = (Inr rep, ex_backup)"
proof -
  have "\<not> isl (fst (backup_object_store ex_sha256 (\<lambda>m. m) True OutEmpty False ''2026-01-01T00:00:00Z'' ex_tree))"
    by code_simp
  then show ?thesis unfolding ex_backup_def by (metis prod.collapse isl_def sum.collapse(2))
qed

theorem backup_restore_roundtrip_witness:
  "\<exists>rep objects. verify_object_store_backup ex_sha256 Some ex_backup = Inr rep \<and>
     restore_object_store ex_sha256 Some True ex_io ex_backup (TargetDir [(''old'', ''x'')]) = (Inr rep, TargetDir objects) \<and>
     hm_get objects ''books/b1/a1'' = Some ''hi'' \<and> hm_get objects ''old'' = None"
proof -
  obtain rep where "backup_object_store ex_sha256 (\<lambda>m. m) True OutEmpty False ''2026-01-01T00:00:00Z'' ex_tree = (Inr rep, ex_backup)"
    using ex_backup_runs by blast
  moreover have "tree_ok ex_tree" by code_simp
  moreover have "io_move_away ex_io \<and> io_publish ex_io \<and> io_remove_previous ex_io" by (simp add: ex_io_def)
  ultimately obtain objects where r: "verify_object_store_backup ex_sha256 Some ex_backup = Inr rep"
    "restore_object_store ex_sha256 Some True ex_io ex_backup (TargetDir [(''old'', ''x'')]) = (Inr rep, TargetDir objects)"
    and at: "\<forall>ns. list_all name_ok ns \<longrightarrow> hm_get objects (join_path ns) = file_at ex_tree ns"
    using backup_restore_roundtrip [of ex_sha256 "\<lambda>m. m" OutEmpty _ ex_tree rep ex_backup Some "TargetDir [(''old'', ''x'')]" ex_io]
    by blast
  have "hm_get objects ''books/b1/a1'' = Some ''hi''" "hm_get objects ''old'' = None"
    using at [rule_format, of "[''books'', ''b1'', ''a1'']"] at [rule_format, of "[''old'']"]
    by (simp_all add: name_ok_def ex_tree_def)
  with r show ?thesis by blast
qed

theorem restore_all_or_nothing_witness:
  "fst (restore_object_store ex_sha256 Some True ex_io ex_backup TargetAbsent) \<noteq> Inl PublishFailed \<and>
   (\<exists>rep. verify_object_store_backup ex_sha256 Some ex_backup = Inr rep)"
proof -
  obtain x t where r: "restore_object_store ex_sha256 Some True ex_io ex_backup TargetAbsent = (x, t)" by fastforce
  have "\<not> isl (fst (restore_object_store ex_sha256 Some True ex_io ex_backup TargetAbsent))" by code_simp
  then obtain rep where "x = Inr rep" using r by (metis fst_conv isl_def sum.collapse(2))
  with r restore_all_or_nothing [OF r] show ?thesis by auto
qed

end
