(* ===== verification/Float64.thy ===== *)
theory Float64
  imports Prelude
begin

section \<open>Double-precision numbers\<close>

text \<open>
  The finite values of \<open>f64\<close> as rationals: every operation of the program's code rounds its exact
  result to 53 significant bits, ties to even, with the exponent of the subnormal numbers at its
  least. Results past the largest finite value are not turned into an infinity; the code compares
  such values with small ones or casts them with \<open>as i64\<close>, which saturates, and both agree.
\<close>

fun ilog2 :: "int \<Rightarrow> int" where
  "ilog2 n = (if n \<le> 1 then 0 else 1 + ilog2 (n div 2))"

declare ilog2.simps [simp del]

definition f64_exp :: "rat \<Rightarrow> int" where
  "f64_exp x = (case quotient_of x of (p, q) \<Rightarrow>
     let k = ilog2 p - ilog2 q in if 2 powi k \<le> x then k else k - 1)"

definition round_half_even :: "rat \<Rightarrow> int" where
  "round_half_even x =
     (let f = \<lfloor>x\<rfloor>; d = x - of_int f in
      if d < 1 / 2 then f else if 1 / 2 < d then f + 1 else if even f then f else f + 1)"

definition f64_grid :: "rat \<Rightarrow> int" where
  "f64_grid x = max (f64_exp x - 52) (- 1074)"

definition f64_round :: "rat \<Rightarrow> rat" where
  "f64_round x =
     (if x = 0 then 0
      else let u = 2 powi f64_grid \<bar>x\<bar> in of_int (round_half_even (x / u)) * u)"

text \<open>\<open>as f64\<close> of an integer, and the four operations.\<close>

definition f64_of_int :: "int \<Rightarrow> rat" where
  "f64_of_int n = f64_round (of_int n)"

definition f64_add :: "rat \<Rightarrow> rat \<Rightarrow> rat" where
  "f64_add x y = f64_round (x + y)"

definition f64_sub :: "rat \<Rightarrow> rat \<Rightarrow> rat" where
  "f64_sub x y = f64_round (x - y)"

definition f64_mul :: "rat \<Rightarrow> rat \<Rightarrow> rat" where
  "f64_mul x y = f64_round (x * y)"

definition f64_div :: "rat \<Rightarrow> rat \<Rightarrow> rat" where
  "f64_div x y = f64_round (x / y)"

subsection \<open>The exponent\<close>

lemma ilog2_bounds: "0 < n \<Longrightarrow> 0 \<le> ilog2 n \<and> 2 ^ nat (ilog2 n) \<le> n \<and> n < 2 * 2 ^ nat (ilog2 n)"
proof (induction n rule: ilog2.induct)
  case (1 n)
  show ?case
  proof (cases "n \<le> 1")
    case True
    then show ?thesis using 1 by (subst (1 2 3) ilog2.simps) auto
  next
    case False
    then have h: "0 \<le> ilog2 (n div 2)" "2 ^ nat (ilog2 (n div 2)) \<le> n div 2" "n div 2 < 2 * 2 ^ nat (ilog2 (n div 2))"
      using 1 by auto
    have "ilog2 n = 1 + ilog2 (n div 2)" using False by (subst ilog2.simps) auto
    moreover have "2 * (n div 2) \<le> n" "n < 2 * (n div 2) + 2" by presburger+
    ultimately show ?thesis using h by (simp add: nat_add_distrib)
  qed
qed

lemma ilog2_powi:
  assumes "0 < n"
  shows "(2::rat) powi ilog2 n \<le> of_int n" and "of_int n < (2::rat) powi (ilog2 n + 1)"
proof -
  note b = ilog2_bounds [OF assms]
  have "(of_int (2 ^ nat (ilog2 n)) :: rat) \<le> of_int n" "(of_int n :: rat) < of_int (2 * 2 ^ nat (ilog2 n))"
    using b by (simp_all only: of_int_le_iff of_int_less_iff)
  then show "(2::rat) powi ilog2 n \<le> of_int n" and "of_int n < (2::rat) powi (ilog2 n + 1)"
    using b by (simp_all add: power_int_def nat_add_distrib)
qed

lemma f64_exp_bounds:
  assumes "0 < x"
  shows "2 powi f64_exp x \<le> x" and "x < 2 powi (f64_exp x + 1)"
proof -
  obtain p q where pq: "quotient_of x = (p, q)" by fastforce
  have q: "0 < q" and x: "x = of_int p / of_int q"
    using quotient_of_denom_pos [OF pq] quotient_of_div [OF pq] by auto
  have p: "0 < p" using assms q x by (simp add: zero_less_divide_iff)
  define k where "k = ilog2 p - ilog2 q"
  note bp = ilog2_powi [OF p] and bq = ilog2_powi [OF q]
  have upper: "x < 2 powi (k + 1)"
  proof -
    have "2 powi (k + 1) * 2 powi ilog2 q = (2::rat) powi (ilog2 p + 1)"
      by (simp add: k_def power_int_add [symmetric])
    moreover have "(2::rat) powi (k + 1) * 2 powi ilog2 q \<le> 2 powi (k + 1) * of_int q"
      using bq(1) by (intro mult_left_mono) auto
    ultimately have "of_int p < (2::rat) powi (k + 1) * of_int q" using bp(2) by linarith
    then show ?thesis using q by (simp add: x divide_less_eq)
  qed
  have lower: "2 powi (k - 1) \<le> x"
  proof -
    have "2 powi (k - 1) * 2 powi (ilog2 q + 1) = (2::rat) powi ilog2 p"
      by (simp add: k_def power_int_add [symmetric])
    moreover have "(2::rat) powi (k - 1) * of_int q \<le> 2 powi (k - 1) * 2 powi (ilog2 q + 1)"
      using bq(2) by (intro mult_left_mono) auto
    ultimately have "(2::rat) powi (k - 1) * of_int q \<le> of_int p" using bp(1) by linarith
    then show ?thesis using q by (simp add: x le_divide_eq)
  qed
  have e: "f64_exp x = (if 2 powi k \<le> x then k else k - 1)"
    by (simp add: f64_exp_def pq k_def Let_def)
  show "2 powi f64_exp x \<le> x" "x < 2 powi (f64_exp x + 1)"
    using e upper lower by auto
qed

lemma powi_less_cancel: "(2::rat) powi a < 2 powi b \<Longrightarrow> a < b"
  by (meson not_le power_int_increasing one_le_numeral)

lemma f64_exp_unique:
  assumes "2 powi k \<le> x" and "x < 2 powi (k + 1)"
  shows "f64_exp x = k"
proof -
  have "0 < x" using assms(1) zero_less_power_int [of "2::rat" k] by linarith
  note b = f64_exp_bounds [OF this]
  have "(2::rat) powi k < 2 powi (f64_exp x + 1)" "(2::rat) powi f64_exp x < 2 powi (k + 1)"
    using b assms by linarith+
  from this [THEN powi_less_cancel] show ?thesis by simp
qed

lemma f64_exp_mono:
  assumes "0 < x" and "x \<le> y"
  shows "f64_exp x \<le> f64_exp y"
proof -
  have "(2::rat) powi f64_exp x < 2 powi (f64_exp y + 1)"
    using f64_exp_bounds [of x] f64_exp_bounds [of y] assms by linarith
  from this [THEN powi_less_cancel] show ?thesis by simp
qed

subsection \<open>Rounding\<close>

lemma round_half_even_error: "\<bar>of_int (round_half_even x) - x\<bar> \<le> 1 / 2"
proof -
  have "of_int \<lfloor>x\<rfloor> \<le> x" "x < of_int \<lfloor>x\<rfloor> + 1" by linarith+
  then show ?thesis by (auto simp: round_half_even_def Let_def abs_le_iff)
qed

lemma round_half_even_int [simp]: "round_half_even (of_int n) = n"
  by (simp add: round_half_even_def)

lemma round_half_even_mono:
  assumes "x \<le> y"
  shows "round_half_even x \<le> round_half_even y"
proof (cases "\<lfloor>x\<rfloor> = \<lfloor>y\<rfloor>")
  case True
  then show ?thesis using assms by (auto simp: round_half_even_def Let_def)
next
  case False
  then have "\<lfloor>x\<rfloor> + 1 \<le> \<lfloor>y\<rfloor>" using floor_mono [OF assms] by linarith
  moreover have "round_half_even x \<le> \<lfloor>x\<rfloor> + 1" "\<lfloor>y\<rfloor> \<le> round_half_even y"
    by (auto simp: round_half_even_def Let_def)
  ultimately show ?thesis by linarith
qed

lemma round_half_even_minus: "round_half_even (- x) = - round_half_even x"
proof (cases "x = of_int \<lfloor>x\<rfloor>")
  case True
  then show ?thesis by (metis of_int_minus round_half_even_int)
next
  case False
  then have fl: "\<lfloor>- x\<rfloor> = - \<lfloor>x\<rfloor> - 1" by linarith
  have "of_int \<lfloor>x\<rfloor> \<le> x" "x < of_int \<lfloor>x\<rfloor> + 1" by linarith+
  then show ?thesis unfolding round_half_even_def Let_def fl by (auto simp: field_simps)
qed

lemma f64_round_minus: "f64_round (- x) = - f64_round x"
  by (simp add: f64_round_def Let_def round_half_even_minus minus_divide_left [symmetric])

lemma f64_round_0 [simp]: "f64_round 0 = 0"
  by (simp add: f64_round_def)

text \<open>A multiple of the spacing at \<open>x\<close> bounds the rounding of \<open>x\<close> when it bounds \<open>x\<close>.\<close>

lemma f64_round_bounded:
  assumes "0 < x" and "g = of_int n * 2 powi f64_grid x"
  shows "x \<le> g \<Longrightarrow> f64_round x \<le> g" and "g \<le> x \<Longrightarrow> g \<le> f64_round x"
proof -
  let ?u = "(2::rat) powi f64_grid x"
  have u: "0 < ?u" by simp
  have r: "f64_round x = of_int (round_half_even (x / ?u)) * ?u"
    using assms(1) by (simp add: f64_round_def Let_def)
  show "f64_round x \<le> g" if "x \<le> g"
  proof -
    have "x / ?u \<le> of_int n" using that u by (simp add: assms(2) divide_le_eq)
    then have "round_half_even (x / ?u) \<le> n" by (metis round_half_even_mono round_half_even_int)
    then show ?thesis using u by (simp add: r assms(2))
  qed
  show "g \<le> f64_round x" if "g \<le> x"
  proof -
    have "of_int n \<le> x / ?u" using that u by (simp add: assms(2) le_divide_eq)
    then have "n \<le> round_half_even (x / ?u)" by (metis round_half_even_mono round_half_even_int)
    then show ?thesis using u by (simp add: r assms(2))
  qed
qed

lemma powi_multiple: "a \<le> b \<Longrightarrow> \<exists>n. (2::rat) powi b = of_int n * 2 powi a"
proof -
  assume "a \<le> b"
  then have "(2::rat) powi b = 2 ^ nat (b - a) * 2 powi a"
    by (metis (no_types) diff_add_cancel diff_ge_0_iff_ge power_int_add power_int_of_nat int_nat_eq zero_neq_numeral)
  then show ?thesis by (intro exI [of _ "2 ^ nat (b - a)"]) simp
qed

lemma f64_round_mono_pos:
  assumes "0 < x" and "x \<le> y"
  shows "f64_round x \<le> f64_round y"
proof (cases "f64_grid x = f64_grid y")
  case True
  have "round_half_even (x / 2 powi f64_grid y) \<le> round_half_even (y / 2 powi f64_grid y)"
    using assms(2) by (intro round_half_even_mono divide_right_mono) auto
  then show ?thesis using True assms by (simp add: f64_round_def Let_def)
next
  case False
  let ?g = "(2::rat) powi f64_exp y"
  have less: "f64_grid x < f64_grid y" "f64_exp x < f64_exp y" "f64_grid y \<le> f64_exp y"
    using False f64_exp_mono [OF assms] by (auto simp: f64_grid_def)
  have "x < 2 powi (f64_exp x + 1)" by (rule f64_exp_bounds(2) [OF assms(1)])
  also have "\<dots> \<le> ?g" using less(2) by (intro power_int_increasing) auto
  finally have x: "x \<le> ?g" by simp
  obtain n m where g: "?g = of_int n * 2 powi f64_grid x" "?g = of_int m * 2 powi f64_grid y"
    using powi_multiple [of "f64_grid x" "f64_exp y"] powi_multiple [of "f64_grid y" "f64_exp y"] less by auto
  have y: "0 < y" using assms by simp
  have "f64_round x \<le> ?g" by (rule f64_round_bounded(1) [OF assms(1) g(1) x])
  also have "?g \<le> f64_round y" by (rule f64_round_bounded(2) [OF y g(2) f64_exp_bounds(1) [OF y]])
  finally show ?thesis .
qed

lemma f64_round_nonneg: "0 \<le> x \<Longrightarrow> 0 \<le> f64_round x"
  by (cases "x = 0") (use f64_round_bounded(2) [of x 0 0] in auto)

lemma f64_round_mono: "x \<le> y \<Longrightarrow> f64_round x \<le> f64_round y"
proof -
  assume le: "x \<le> y"
  consider "0 < x" | "x \<le> 0" "0 \<le> y" | "y < 0" using le by linarith
  then show ?thesis
  proof cases
    case 1
    then show ?thesis using le by (rule f64_round_mono_pos)
  next
    case 2
    then show ?thesis using f64_round_nonneg [of y] f64_round_nonneg [of "- x"] by (simp add: f64_round_minus)
  next
    case 3
    then show ?thesis using f64_round_mono_pos [of "- y" "- x"] le by (simp add: f64_round_minus)
  qed
qed

text \<open>The error in a binade, and integers of 53 bits.\<close>

lemma f64_round_error:
  assumes "2 powi k \<le> x" and "x < 2 powi (k + 1)" and "- 1022 \<le> k"
  shows "\<bar>f64_round x - x\<bar> \<le> 2 powi (k - 53)"
proof -
  have g: "f64_grid x = k - 52" using assms f64_exp_unique by (simp add: f64_grid_def)
  have pos: "0 < x" using assms(1) zero_less_power_int [of "2::rat" k] by linarith
  let ?u = "(2::rat) powi (k - 52)"
  have "f64_round x - x = (of_int (round_half_even (x / ?u)) - x / ?u) * ?u"
    using pos by (simp add: f64_round_def Let_def g left_diff_distrib)
  then have "\<bar>f64_round x - x\<bar> = \<bar>of_int (round_half_even (x / ?u)) - x / ?u\<bar> * ?u" by (simp add: abs_mult)
  also have "\<dots> \<le> 1 / 2 * ?u" by (intro mult_right_mono round_half_even_error) simp
  also have "\<dots> = 2 powi (k - 53)"
    using power_int_add [of "2::rat" "k - 53" 1] by simp
  finally show ?thesis .
qed

lemma f64_round_int:
  assumes "\<bar>n\<bar> \<le> 2 ^ 53"
  shows "f64_round (of_int n) = of_int n"
proof -
  have pos: "f64_round (of_int n) = of_int n" if n: "0 < n" "n \<le> 2 ^ 53" for n
  proof -
    let ?x = "of_int n :: rat"
    have "?x \<le> of_int (2 ^ 53)" using n(2) by (simp only: of_int_le_iff)
    then have x: "0 < ?x" "?x \<le> 2 powi 53" using n(1) by simp_all
    have "f64_exp ?x \<le> 53"
      using f64_exp_mono [OF x] f64_exp_unique [of 53 "2 powi 53"] by simp
    then consider "f64_exp ?x = 53" | "f64_grid ?x \<le> 0" by (fastforce simp: f64_grid_def)
    then have "\<exists>m. ?x = of_int m * 2 powi f64_grid ?x"
    proof cases
      case 1
      then have "?x = 2 powi 53" using f64_exp_bounds(1) [OF x(1)] x(2) by simp
      then show ?thesis using 1 powi_multiple [of "f64_grid ?x" 53] by (simp add: f64_grid_def)
    next
      case 2
      then obtain m where "(2::rat) powi 0 = of_int m * 2 powi f64_grid ?x" using powi_multiple by blast
      then have "?x = of_int (n * m) * 2 powi f64_grid ?x" by simp
      then show ?thesis by blast
    qed
    then show ?thesis using f64_round_bounded [OF x(1)] by (metis order.antisym order.refl)
  qed
  consider "n = 0" | "0 < n" | "0 < - n" by linarith
  then show ?thesis
  proof cases
    case 3
    then show ?thesis using pos [of "- n"] assms by (simp add: f64_round_minus)
  qed (use pos [of n] assms in auto)
qed

end
