(* ===== verification/Reports.thy ===== *)
theory Reports
  imports Float64 Authz
begin

section \<open>Reports, exchange rates and revisions (transport/http/reports.rs)\<close>

text \<open>
  The report endpoints over the in-memory store, with the helpers both stores share: the aggregation
  of entries with its conversion of currencies, the budget status and the months. Sums of \<open>i64\<close> wrap
  as in a release build. The calendar of the \<open>time\<close> crate is a record of functions; a date that it
  refuses is \<open>None\<close>, on which the code panics, and \<open>None\<close> as the result of a handler stands for
  that panic. \<open>now\<close> is the clock.
\<close>

subsection \<open>Conversion and aggregation\<close>

text \<open>\<open>f64::round\<close> goes away from zero at ties, and \<open>as i64\<close> saturates.\<close>

definition round_away :: "rat \<Rightarrow> int" where
  "round_away x = (if 0 \<le> x then \<lfloor>x + 1 / 2\<rfloor> else - \<lfloor>1 / 2 - x\<rfloor>)"

definition saturate_i64 :: "int \<Rightarrow> int" where
  "saturate_i64 n = max (- (2 ^ 63)) (min (2 ^ 63 - 1) n)"

text \<open>Division by zero gives an infinity, which saturates, or \<open>NaN\<close>, which is cast to zero.\<close>

definition f64_div_as_i64 :: "int \<Rightarrow> rat \<Rightarrow> int" where
  "f64_div_as_i64 amount rate =
     (if rate = 0 then (if amount = 0 then 0 else saturate_i64 (sgn amount * 2 ^ 63))
      else saturate_i64 (round_away (f64_div (f64_of_int amount) rate)))"

definition f64_mul_as_i64 :: "int \<Rightarrow> rat \<Rightarrow> int" where
  "f64_mul_as_i64 amount rate = saturate_i64 (round_away (f64_mul (f64_of_int amount) rate))"

type_synonym rates = "(string \<times> string \<times> rat) list"

definition convert_amount :: "int \<Rightarrow> string \<Rightarrow> string \<Rightarrow> rates \<Rightarrow> int" where
  "convert_amount amount currency base rates =
     (if currency = base then amount
      else case List.find (\<lambda>(b, q, _). b = base \<and> q = currency) rates of
        Some (_, _, rate) \<Rightarrow> f64_div_as_i64 amount rate
      | None \<Rightarrow>
          (case List.find (\<lambda>(b, q, _). b = currency \<and> q = base) rates of
             Some (_, _, rate) \<Rightarrow> f64_mul_as_i64 amount rate
           | None \<Rightarrow> amount))"

text \<open>A row: the name and type of the account, the amount and its currency.\<close>

type_synonym report_row = "string \<times> string \<times> int \<times> string"

definition category_add :: "string \<Rightarrow> int \<Rightarrow> (string \<times> int) list \<Rightarrow> (string \<times> int) list" where
  "category_add name amount m =
     bt_insert name (i64_add (case map_of m name of Some a \<Rightarrow> a | None \<Rightarrow> 0) amount) m"

fun aggregate_loop :: "string \<Rightarrow> rates \<Rightarrow> report_row list \<Rightarrow> int \<times> int \<times> (string \<times> int) list \<Rightarrow>
    int \<times> int \<times> (string \<times> int) list" where
  "aggregate_loop base rates [] acc = acc"
| "aggregate_loop base rates ((name, account_type, amount, currency) # rows) (income, expense, categories) =
     (let converted = convert_amount amount currency base rates in
      aggregate_loop base rates rows
        (if 0 < converted then
           if account_type = ''income'' then (i64_add income converted, expense, categories)
           else if account_type = ''expense''
           then (income, i64_add expense converted, category_add name converted categories)
           else (income, expense, categories)
         else (income, expense, categories)))"

definition category_json :: "string \<Rightarrow> string \<times> int \<Rightarrow> json" where
  "category_json base = (\<lambda>(name, amount).
     json_object [(''name'', JString name), (''amountMinor'', JString (int_to_string amount)),
       (''currency'', JString base)])"

definition aggregate_entries :: "report_row list \<Rightarrow> string \<Rightarrow> rates \<Rightarrow> int \<times> int \<times> json list" where
  "aggregate_entries rows base rates =
     (case aggregate_loop base rates rows (0, 0, []) of
        (income, expense, categories) \<Rightarrow> (income, expense, map (category_json base) categories))"

subsection \<open>Summary\<close>

definition tx_rows :: "memory_store \<Rightarrow> tx_record \<Rightarrow> report_row list" where
  "tx_rows s tx = concat (map (\<lambda>(account_id, amount, currency).
     case hm_get (accounts s) account_id of
       None \<Rightarrow> []
     | Some acc \<Rightarrow> [(acc_name acc, acc_account_type acc, amount, currency)]) (tx_entries tx))"

definition summary_rows :: "memory_store \<Rightarrow> string \<Rightarrow> report_row list" where
  "summary_rows s book_id = concat (map (\<lambda>tx.
     if tx_book_id tx \<noteq> book_id \<or> tx_deleted tx then [] else tx_rows s tx) (hm_values (transactions s)))"

definition summary_json :: "string \<Rightarrow> string \<Rightarrow> int \<Rightarrow> int \<Rightarrow> json list \<Rightarrow> json" where
  "summary_json plan base income expense categories =
     json_object [(''plan'', JString plan), (''baseCurrency'', JString base),
       (''incomeMinor'', JString (int_to_string income)), (''expenseMinor'', JString (int_to_string expense)),
       (''netMinor'', JString (int_to_string (i64_sub income expense))), (''categories'', JArray categories)]"

text \<open>In memory the query's \<open>from\<close> and \<open>to\<close> are read and not used.\<close>

definition summary :: "string \<Rightarrow> string \<Rightarrow> memory_store \<Rightarrow> json api_result" where
  "summary user_id book_id s =
     (case require_book_member s user_id book_id of Inl e \<Rightarrow> Inl e | Inr _ \<Rightarrow>
      case require_plan s user_id ''plus'' of Inl e \<Rightarrow> Inl e | Inr plan \<Rightarrow>
      case aggregate_entries (summary_rows s book_id) ''CNY'' [] of
        (income, expense, categories) \<Rightarrow> Inr (summary_json plan ''CNY'' income expense categories))"

subsection \<open>Months\<close>

record calendar =
  cal_year :: "timestamp \<Rightarrow> int"
  cal_month :: "timestamp \<Rightarrow> nat"
  cal_month_start :: "int \<Rightarrow> nat \<Rightarrow> timestamp option"

definition parse_u8 :: "string \<Rightarrow> nat option" where
  "parse_u8 s =
     (case parse_digits (case s of c # t \<Rightarrow> if c = CHR ''+'' then t else s | [] \<Rightarrow> []) of
        None \<Rightarrow> None
      | Some n \<Rightarrow> if n < 256 then Some n else None)"

definition parse_month :: "calendar \<Rightarrow> timestamp \<Rightarrow> string option \<Rightarrow> (int \<times> nat) api_result" where
  "parse_month cal now s =
     (let s = (case s of Some s \<Rightarrow> s | None \<Rightarrow> ''current'') in
      if s = ''current'' then Inr (cal_year cal now, cal_month cal now)
      else case split_on (CHR ''-'') s of
        [y, m] \<Rightarrow>
          (case parse_signed 32 y of
             None \<Rightarrow> Inl (ApiError 400 ''INVALID_MONTH'')
           | Some year \<Rightarrow>
               (case parse_u8 m of
                  None \<Rightarrow> Inl (ApiError 400 ''INVALID_MONTH'')
                | Some month \<Rightarrow>
                    if 1 \<le> month \<and> month \<le> 12 then Inr (year, month)
                    else Inl (ApiError 400 ''INVALID_MONTH'')))
      | _ \<Rightarrow> Inl (ApiError 400 ''INVALID_MONTH''))"

definition next_month :: "int \<times> nat \<Rightarrow> int \<times> nat" where
  "next_month = (\<lambda>(year, month). if month = 12 then (year + 1, 1) else (year, month + 1))"

definition month_range :: "calendar \<Rightarrow> int \<Rightarrow> nat \<Rightarrow> (timestamp \<times> timestamp) option" where
  "month_range cal year month =
     (case cal_month_start cal year month of
        None \<Rightarrow> None
      | Some start \<Rightarrow>
          (case next_month (year, month) of (next_year, next_mon) \<Rightarrow>
             map_option (Pair start) (cal_month_start cal next_year next_mon)))"

fun back_months :: "nat \<Rightarrow> int \<times> nat \<Rightarrow> int \<times> nat" where
  "back_months 0 ym = ym"
| "back_months (Suc n) (year, month) =
     back_months n (if month = 1 then (year - 1, 12) else (year, month - 1))"

definition subtract_months :: "calendar \<Rightarrow> timestamp \<Rightarrow> nat \<Rightarrow> timestamp option" where
  "subtract_months cal date n =
     (case back_months n (cal_year cal date, cal_month cal date) of (year, month) \<Rightarrow> cal_month_start cal year month)"

text \<open>\<open>{:04}-{:02}\<close>; a minus sign counts towards the width.\<close>

definition zero_pad :: "nat \<Rightarrow> string \<Rightarrow> string" where
  "zero_pad w s = replicate (w - length s) (CHR ''0'') @ s"

definition month_label :: "calendar \<Rightarrow> timestamp \<Rightarrow> string" where
  "month_label cal t =
     (if cal_year cal t < 0 then CHR ''-'' # zero_pad 3 (nat_to_string (nat (- cal_year cal t)))
      else zero_pad 4 (nat_to_string (nat (cal_year cal t)))) @ ''-'' @
     zero_pad 2 (nat_to_string (cal_month cal t))"

subsection \<open>Trend\<close>

text \<open>What an entry adds to the income and the expense of a month; amounts are not converted in memory.\<close>

definition trend_add :: "memory_store \<Rightarrow> entry \<Rightarrow> int \<times> int \<Rightarrow> int \<times> int" where
  "trend_add s = (\<lambda>(account_id, amount, _) (income, expense).
     case hm_get (accounts s) account_id of
       None \<Rightarrow> (income, expense)
     | Some acc \<Rightarrow>
         if 0 < amount then
           if acc_account_type acc = ''income'' then (i64_add income amount, expense)
           else if acc_account_type acc = ''expense'' then (income, i64_add expense amount)
           else (income, expense)
         else (income, expense))"

definition in_period :: "string \<Rightarrow> timestamp \<Rightarrow> timestamp \<Rightarrow> tx_record \<Rightarrow> bool" where
  "in_period book_id lo hi tx \<longleftrightarrow>
     tx_book_id tx = book_id \<and> \<not> tx_deleted tx \<and> lo \<le> tx_occurred_at tx \<and> tx_occurred_at tx < hi"

definition trend_month :: "memory_store \<Rightarrow> string \<Rightarrow> timestamp \<Rightarrow> timestamp \<Rightarrow> int \<times> int" where
  "trend_month s book_id lo hi =
     fold (\<lambda>tx acc. if in_period book_id lo hi tx then fold (trend_add s) (tx_entries tx) acc else acc)
       (hm_values (transactions s)) (0, 0)"

record trend_point =
  tp_month :: string
  tp_income :: int
  tp_expense :: int
  tp_net :: int

definition trend_point_at :: "calendar \<Rightarrow> timestamp \<Rightarrow> memory_store \<Rightarrow> string \<Rightarrow> nat \<Rightarrow> trend_point option" where
  "trend_point_at cal now s book_id i =
     (case subtract_months cal now i of None \<Rightarrow> None | Some month_date \<Rightarrow>
      case month_range cal (cal_year cal month_date) (cal_month cal month_date) of None \<Rightarrow> None
      | Some (lo, hi) \<Rightarrow>
          (case trend_month s book_id lo hi of (income, expense) \<Rightarrow>
             Some \<lparr>tp_month = month_label cal lo, tp_income = income, tp_expense = expense,
               tp_net = i64_sub income expense\<rparr>))"

definition trend_mem :: "calendar \<Rightarrow> timestamp \<Rightarrow> memory_store \<Rightarrow> string \<Rightarrow> nat \<Rightarrow> trend_point list option" where
  "trend_mem cal now s book_id months =
     map_option rev (those (map (trend_point_at cal now s book_id) [0..<months]))"

definition trend_json :: "trend_point list \<Rightarrow> json" where
  "trend_json series = json_object [(''series'', JArray (map (\<lambda>p. json_object
     [(''month'', JString (tp_month p)), (''incomeMinor'', JString (int_to_string (tp_income p))),
      (''expenseMinor'', JString (int_to_string (tp_expense p))),
      (''netMinor'', JString (int_to_string (tp_net p)))]) series))]"

definition trend_months :: "nat option \<Rightarrow> nat" where
  "trend_months q = min (case q of Some n \<Rightarrow> n | None \<Rightarrow> 6) 24"

definition trend :: "calendar \<Rightarrow> timestamp \<Rightarrow> string \<Rightarrow> string \<Rightarrow> nat option \<Rightarrow> memory_store \<Rightarrow> json api_result option" where
  "trend cal now user_id book_id months s =
     (case require_book_member s user_id book_id of Inl e \<Rightarrow> Some (Inl e) | Inr _ \<Rightarrow>
      case require_plan s user_id ''plus'' of Inl e \<Rightarrow> Some (Inl e) | Inr _ \<Rightarrow>
      map_option (\<lambda>series. Inr (trend_json series)) (trend_mem cal now s book_id (trend_months months)))"

subsection \<open>Budgets\<close>

definition budget_status :: "int \<Rightarrow> int \<Rightarrow> string" where
  "budget_status actual budget =
     (if budget \<le> 0 then ''ok''
      else let ratio = f64_div (f64_of_int actual) (f64_of_int budget) in
        if 1 < ratio then ''over'' else if f64_round (9 / 10) < ratio then ''ok'' else ''under'')"

definition budget_map :: "memory_store \<Rightarrow> string \<Rightarrow> (string \<times> string \<times> int) list" where
  "budget_map s book_id = fold (\<lambda>change m.
     case get_str (chg_payload change) ''id'' of
       None \<Rightarrow> m
     | Some i \<Rightarrow>
         bt_insert i
           (case get_str (chg_payload change) ''name'' of Some n \<Rightarrow> n | None \<Rightarrow> ''Budget'',
            case Option.bind (json_get (chg_payload change) ''amountMinor'') json_as_i64 of Some a \<Rightarrow> a | None \<Rightarrow> 0) m)
     (filter (\<lambda>c. chg_book_id c = book_id \<and> chg_entity_type c = ''budget'') (changes s)) []"

definition budget_spent :: "memory_store \<Rightarrow> string \<Rightarrow> timestamp \<Rightarrow> timestamp \<Rightarrow> int" where
  "budget_spent s book_id lo hi =
     fold (\<lambda>tx acc. if in_period book_id lo hi tx
       then fold (\<lambda>(account_id, amount, _) acc. case hm_get (accounts s) account_id of
              None \<Rightarrow> acc
            | Some a \<Rightarrow> if acc_account_type a = ''expense'' \<and> 0 < amount then i64_add acc amount else acc)
          (tx_entries tx) acc
       else acc) (hm_values (transactions s)) 0"

definition budget_item :: "int \<Rightarrow> string \<times> string \<times> int \<Rightarrow> json" where
  "budget_item actual = (\<lambda>(i, name, amount).
     json_object [(''id'', JString i), (''name'', JString name), (''budgetMinor'', JString (int_to_string amount)),
       (''actualMinor'', JString (int_to_string actual)), (''currency'', JString ''CNY''),
       (''status'', JString (budget_status actual amount))])"

definition budget_mem :: "calendar \<Rightarrow> memory_store \<Rightarrow> string \<Rightarrow> timestamp \<Rightarrow> timestamp \<Rightarrow> json" where
  "budget_mem cal s book_id lo hi =
     json_object [(''month'', JString (month_label cal lo)), (''baseCurrency'', JString ''CNY''),
       (''items'', JArray (map (budget_item (budget_spent s book_id lo hi)) (budget_map s book_id)))]"

definition budget :: "calendar \<Rightarrow> timestamp \<Rightarrow> string \<Rightarrow> string \<Rightarrow> string option \<Rightarrow> memory_store \<Rightarrow> json api_result option" where
  "budget cal now user_id book_id month s =
     (case require_book_member s user_id book_id of Inl e \<Rightarrow> Some (Inl e) | Inr _ \<Rightarrow>
      case require_plan s user_id ''plus'' of Inl e \<Rightarrow> Some (Inl e) | Inr _ \<Rightarrow>
      case parse_month cal now month of Inl e \<Rightarrow> Some (Inl e) | Inr (year, mon) \<Rightarrow>
      map_option (\<lambda>(lo, hi). Inr (budget_mem cal s book_id lo hi)) (month_range cal year mon))"

subsection \<open>Revisions and exchange rates\<close>

definition list_revisions :: "string \<Rightarrow> string \<Rightarrow> string \<Rightarrow> memory_store \<Rightarrow> json api_result" where
  "list_revisions user_id book_id tx s =
     (case require_book_member s user_id book_id of Inl e \<Rightarrow> Inl e | Inr _ \<Rightarrow>
      Inr (json_object [(''revisions'', JArray (map (\<lambda>r. json_object
        [(''id'', JString (rev_id r)), (''version'', JInt (rev_version r)),
         (''operation'', JString (rev_operation r)), (''payload'', rev_payload r)])
        (filter (\<lambda>r. rev_book_id r = book_id \<and> rev_transaction_id r = tx) (revisions s))))]))"

record upsert_fx_request =
  ufx_base_currency :: string
  ufx_quote_currency :: string
  ufx_rate :: rat

definition fx_json :: "string \<Rightarrow> string \<Rightarrow> rat \<Rightarrow> json" where
  "fx_json base quote_currency rate = json_object [(''baseCurrency'', JString base),
     (''quoteCurrency'', JString quote_currency), (''rate'', JFloat rate)]"

definition list_fx :: "string \<Rightarrow> string \<Rightarrow> memory_store \<Rightarrow> json api_result" where
  "list_fx user_id book_id s =
     (case require_book_member s user_id book_id of Inl e \<Rightarrow> Inl e | Inr _ \<Rightarrow>
      Inr (json_object [(''rates'', JArray (map (\<lambda>r. fx_json (fx_base_currency r) (fx_quote_currency r) (fx_rate r))
        (filter (\<lambda>r. fx_book_id r = book_id) (fx_rates s))))]))"

fun put_rate :: "fx_rate_record \<Rightarrow> fx_rate_record list \<Rightarrow> fx_rate_record list" where
  "put_rate new [] = [new]"
| "put_rate new (r # rs) =
     (if fx_book_id r = fx_book_id new \<and> fx_base_currency r = fx_base_currency new \<and>
         fx_quote_currency r = fx_quote_currency new
      then r\<lparr>fx_rate := fx_rate new\<rparr> # rs else r # put_rate new rs)"

definition upsert_fx :: "string \<Rightarrow> string \<Rightarrow> upsert_fx_request \<Rightarrow> memory_store \<Rightarrow> json api_result \<times> memory_store" where
  "upsert_fx user_id book_id req s =
     (case require_book_member s user_id book_id of Inl e \<Rightarrow> (Inl e, s) | Inr _ \<Rightarrow>
      if ufx_rate req \<le> 0 then (Inl (ApiError 400 ''INVALID_RATE''), s)
      else (Inr (fx_json (ufx_base_currency req) (ufx_quote_currency req) (ufx_rate req)),
        s\<lparr>fx_rates := put_rate \<lparr>fx_book_id = book_id, fx_base_currency = ufx_base_currency req,
          fx_quote_currency = ufx_quote_currency req, fx_rate = ufx_rate req\<rparr> (fx_rates s)\<rparr>))"

end
