(* ===== verification/Calendar.thy ===== *)
theory Calendar
  imports Reports
begin

section \<open>The calendar of the \<open>time\<close> crate\<close>

text \<open>
  What the reports rely on of \<open>OffsetDateTime\<close> and \<open>Date::from_calendar_date\<close>, as a locale over the
  calendar record: the first of a month exists for the years -9999 to 9999 and lies in its month, and
  every instant lies between the start of its own month and the start of the next. The proleptic
  Gregorian calendar on nanoseconds since 1970 is an instance.
\<close>

locale calendar_laws =
  fixes cal :: calendar
  assumes start_exists: "1 \<le> m \<Longrightarrow> m \<le> 12 \<Longrightarrow> - 9999 \<le> y \<Longrightarrow> y \<le> 9999 \<Longrightarrow> cal_month_start cal y m \<noteq> None"
    and start_month: "cal_month_start cal y m = Some t \<Longrightarrow> cal_year cal t = y \<and> cal_month cal t = m"
    and month_number: "1 \<le> cal_month cal t \<and> cal_month cal t \<le> 12"
    and own_month: "month_range cal (cal_year cal t) (cal_month cal t) = Some (lo, hi) \<Longrightarrow> lo \<le> t \<and> t < hi"
begin

lemma month_range_ordered:
  assumes "month_range cal y m = Some (lo, hi)"
  shows "lo < hi"
proof -
  have "cal_month_start cal y m = Some lo"
    using assms by (auto simp: month_range_def split: option.splits prod.splits)
  then have "month_range cal (cal_year cal lo) (cal_month cal lo) = Some (lo, hi)"
    using start_month assms by auto
  from own_month [OF this] show ?thesis by simp
qed

end

subsection \<open>The Gregorian calendar\<close>

definition leap :: "int \<Rightarrow> int" where
  "leap y = (if y mod 4 = 0 \<and> (y mod 100 \<noteq> 0 \<or> y mod 400 = 0) then 1 else 0)"

text \<open>Days from the first of January of the year 1 to the first of January of the year \<open>y\<close>.\<close>

definition days_before_year :: "int \<Rightarrow> int" where
  "days_before_year y = 365 * (y - 1) + (y - 1) div 4 - (y - 1) div 100 + (y - 1) div 400"

definition days_before_month :: "int \<Rightarrow> nat \<Rightarrow> int" where
  "days_before_month l m =
     (if m \<le> 1 then 0 else if m = 2 then 31 else
      l + (if m = 3 then 59 else if m = 4 then 90 else if m = 5 then 120 else if m = 6 then 151
        else if m = 7 then 181 else if m = 8 then 212 else if m = 9 then 243 else if m = 10 then 273
        else if m = 11 then 304 else 334))"

definition month_of_day :: "int \<Rightarrow> int \<Rightarrow> nat" where
  "month_of_day l r =
     (if r < 31 then 1 else if r < l + 59 then 2 else if r < l + 90 then 3 else if r < l + 120 then 4
      else if r < l + 151 then 5 else if r < l + 181 then 6 else if r < l + 212 then 7 else if r < l + 243 then 8
      else if r < l + 273 then 9 else if r < l + 304 then 10 else if r < l + 334 then 11 else 12)"

definition year_of_day :: "int \<Rightarrow> int" where
  "year_of_day d =
     (let y = (400 * d) div 146097 + 1 in
      if d < days_before_year y then y - 1 else if days_before_year (y + 1) \<le> d then y + 1 else y)"

definition day_nanos :: int where
  "day_nanos = 86400 * 1000000000"

definition gregorian :: calendar where
  "gregorian =
     \<lparr>cal_year = (\<lambda>t. year_of_day (t div day_nanos + 719162)),
      cal_month = (\<lambda>t. let d = t div day_nanos + 719162; y = year_of_day d in
        month_of_day (leap y) (d - days_before_year y)),
      cal_month_start = (\<lambda>y m.
        if - 9999 \<le> y \<and> y \<le> 9999 \<and> 1 \<le> m \<and> m \<le> 12
        then Some ((days_before_year y + days_before_month (leap y) m - 719162) * day_nanos) else None)\<rparr>"

lemma leap_cases: "leap y = 0 \<or> leap y = 1"
  by (simp add: leap_def)

lemma div_between: "0 < k \<Longrightarrow> k * (n div k) \<le> n \<and> n < k * (n div k) + k" for n k :: int
  using pos_mod_bound [of k n] pos_mod_sign [of k n] mult_div_mod_eq [of k n] by linarith

lemma div_pred:
  fixes n k :: int
  assumes "0 < k"
  shows "n div k = (n - 1) div k + (if n mod k = 0 then 1 else 0)"
proof (cases "n mod k = 0")
  case True
  then have "n - 1 = k * (n div k - 1) + (k - 1)" using mult_div_mod_eq [of k n] by (simp add: algebra_simps)
  then have "(n - 1) div k = n div k - 1" using assms by (intro int_div_pos_eq [of _ _ _ "k - 1"]) auto
  with True show ?thesis by simp
next
  case False
  then have "0 \<le> n mod k - 1" "n mod k - 1 < k" "n - 1 = k * (n div k) + (n mod k - 1)"
    using assms pos_mod_sign [of k n] pos_mod_bound [of k n] mult_div_mod_eq [of k n] by linarith+
  then have "(n - 1) div k = n div k" by (intro int_div_pos_eq)
  with False show ?thesis by simp
qed

lemma leap_rule: "(r \<longrightarrow> q) \<Longrightarrow> (q \<longrightarrow> p) \<Longrightarrow>
    (if p then 1 else 0) - (if q then 1 else 0) + (if r then 1 else 0) = (if p \<and> (\<not> q \<or> r) then 1 else (0::int))"
  by (cases p; cases q; cases r) simp_all

lemma year_sum: "A = a + i \<Longrightarrow> B = b + j \<Longrightarrow> C = c + k \<Longrightarrow> i - j + k = l \<Longrightarrow>
    365 * y + A - B + C = 365 * (y - 1) + a - b + c + 365 + (l::int)"
  by simp

lemma days_before_year_Suc: "days_before_year (y + 1) = days_before_year y + 365 + leap y"
proof -
  have "y mod 400 = 0 \<longrightarrow> y mod 100 = 0"
    using dvd_trans [of 100 400 y] by (simp add: mod_eq_0_iff_dvd)
  moreover have "y mod 100 = 0 \<longrightarrow> y mod 4 = 0"
    using dvd_trans [of 4 100 y] by (simp add: mod_eq_0_iff_dvd)
  ultimately have "(if y mod 4 = 0 then 1 else 0) - (if y mod 100 = 0 then 1 else 0) + (if y mod 400 = 0 then 1 else 0) = leap y"
    unfolding leap_def by (rule leap_rule)
  then show ?thesis
    unfolding days_before_year_def add_diff_cancel_right' by (intro year_sum [OF div_pred div_pred div_pred]) simp_all
qed

lemma days_before_month_1 [simp]: "days_before_month l (Suc 0) = 0"
  by (simp add: days_before_month_def)

lemma days_before_year_bounds:
  "400 * days_before_year y \<le> 146097 * (y - 1) + 396" "146097 * (y - 1) - 699 \<le> 400 * days_before_year y"
  using div_between [of 4 "y - 1"] div_between [of 100 "y - 1"] div_between [of 400 "y - 1"]
  unfolding days_before_year_def by simp_all

lemma days_before_year_mono: "a \<le> b \<Longrightarrow> days_before_year a \<le> days_before_year b"
proof (induction b rule: int_ge_induct)
  case (step b)
  then show ?case using days_before_year_Suc [of b] leap_cases [of b] by auto
qed simp

lemma year_of_day_bounds: "days_before_year (year_of_day d) \<le> d \<and> d < days_before_year (year_of_day d + 1)"
proof -
  define n where "n = (400 * d) div 146097"
  have n: "146097 * n \<le> 400 * d" "400 * d < 146097 * (n + 1)"
    using div_between [of 146097 "400 * d"] unfolding n_def by simp_all
  have "days_before_year n \<le> d" "d < days_before_year (n + 3)"
    using n days_before_year_bounds [of n] days_before_year_bounds [of "n + 3"] by (simp_all add: algebra_simps)
  then show ?thesis by (auto simp: year_of_day_def Let_def n_def [symmetric] add.assoc)
qed

lemma year_of_day_unique:
  assumes "days_before_year y \<le> d" and "d < days_before_year (y + 1)"
  shows "year_of_day d = y"
proof -
  note b = year_of_day_bounds [of d]
  have "\<not> year_of_day d + 1 \<le> y" "\<not> y + 1 \<le> year_of_day d"
    using days_before_year_mono [of "year_of_day d + 1" y] days_before_year_mono [of "y + 1" "year_of_day d"] b assms
    by linarith+
  then show ?thesis by linarith
qed

lemma month_of_day_bounds:
  assumes "0 \<le> r" and "l = 0 \<or> l = 1"
  shows "1 \<le> month_of_day l r \<and> month_of_day l r \<le> 12 \<and> days_before_month l (month_of_day l r) \<le> r \<and>
    (month_of_day l r < 12 \<longrightarrow> r < days_before_month l (month_of_day l r + 1))"
  using assms unfolding month_of_day_def by (auto simp: days_before_month_def)

lemma month_of_day_start:
  assumes "1 \<le> m" and "m \<le> 12" and "l = 0 \<or> l = 1"
  shows "month_of_day l (days_before_month l m) = m" and "0 \<le> days_before_month l m" "days_before_month l m < 365 + l"
proof -
  have "[1..<13] = [1, 2, 3, 4, 5, 6, 7, 8, 9, 10, 11, 12::nat]" by code_simp
  moreover have "m \<in> set [1..<13]" using assms(1,2) by simp
  ultimately have "m = 1 \<or> m = 2 \<or> m = 3 \<or> m = 4 \<or> m = 5 \<or> m = 6 \<or> m = 7 \<or> m = 8 \<or> m = 9 \<or> m = 10 \<or> m = 11 \<or> m = 12"
    by (simp only: list.set insert_iff empty_iff simp_thms)
  then show "month_of_day l (days_before_month l m) = m" "0 \<le> days_before_month l m" "days_before_month l m < 365 + l"
    using assms(3) by (elim disjE; simp add: month_of_day_def days_before_month_def)+
qed

lemma day_nanos_pos [simp]: "0 < day_nanos"
  by (simp add: day_nanos_def)

lemma gregorian_own_month:
  assumes "month_range gregorian (cal_year gregorian t) (cal_month gregorian t) = Some (lo, hi)"
  shows "lo \<le> t \<and> t < hi"
proof -
  define d where "d = t div day_nanos + 719162"
  define y where "y = year_of_day d"
  define m where "m = month_of_day (leap y) (d - days_before_year y)"
  have ym: "cal_year gregorian t = y" "cal_month gregorian t = m"
    by (simp_all add: gregorian_def Let_def d_def y_def m_def)
  have yb: "days_before_year y \<le> d" "d < days_before_year y + 365 + leap y"
    using year_of_day_bounds [of d] by (simp_all add: y_def days_before_year_Suc)
  have mb: "1 \<le> m" "m \<le> 12" "days_before_month (leap y) m \<le> d - days_before_year y"
    "m < 12 \<Longrightarrow> d - days_before_year y < days_before_month (leap y) (m + 1)"
    using month_of_day_bounds [of "d - days_before_year y" "leap y"] leap_cases [of y] yb(1) by (auto simp: m_def)
  have t: "(d - 719162) * day_nanos \<le> t" "t < (d - 719162 + 1) * day_nanos"
    using div_between [of day_nanos t] unfolding d_def by (simp_all add: algebra_simps)
  have below: "k * day_nanos \<le> t" if "k \<le> d - 719162" for k
    using t(1) mult_right_mono [OF that, of day_nanos] day_nanos_pos by linarith
  have above: "t < k * day_nanos" if "d - 719162 + 1 \<le> k" for k
    using t(2) mult_right_mono [OF that, of day_nanos] day_nanos_pos by linarith
  have lo: "lo = (days_before_year y + days_before_month (leap y) m - 719162) * day_nanos"
    using assms unfolding ym by (auto simp: month_range_def gregorian_def split: if_splits prod.splits)
  show ?thesis
  proof (cases "m = 12")
    case True
    then have "hi = (days_before_year (y + 1) + days_before_month (leap (y + 1)) 1 - 719162) * day_nanos"
      using assms unfolding ym by (auto simp: month_range_def gregorian_def next_month_def split: if_splits)
    then show ?thesis
      using lo below above mb yb by (auto simp: days_before_year_Suc)
  next
    case False
    then have "hi = (days_before_year y + days_before_month (leap y) (m + 1) - 719162) * day_nanos"
      using assms unfolding ym by (auto simp: month_range_def gregorian_def next_month_def split: if_splits)
    then show ?thesis using lo below above mb False by auto
  qed
qed

interpretation gregorian: calendar_laws gregorian
proof
  fix y m t
  assume s: "cal_month_start gregorian y m = Some t"
  then have m: "1 \<le> m" "m \<le> 12" and t: "t = (days_before_year y + days_before_month (leap y) m - 719162) * day_nanos"
    by (auto simp: gregorian_def split: if_splits)
  note b = month_of_day_start [OF m leap_cases [of y]]
  have d: "t div day_nanos + 719162 = days_before_year y + days_before_month (leap y) m"
    using t day_nanos_pos by (simp add: day_nanos_def)
  have y: "year_of_day (t div day_nanos + 719162) = y"
    unfolding d using b by (intro year_of_day_unique) (simp_all add: days_before_year_Suc)
  then have "cal_month gregorian t = month_of_day (leap y) (days_before_month (leap y) m)"
    by (simp add: gregorian_def Let_def d)
  then show "cal_year gregorian t = y \<and> cal_month gregorian t = m" using y b(1) by (simp add: gregorian_def)
next
  fix t
  show "1 \<le> cal_month gregorian t \<and> cal_month gregorian t \<le> 12"
    using month_of_day_bounds [of "t div day_nanos + 719162 - days_before_year (year_of_day (t div day_nanos + 719162))"
        "leap (year_of_day (t div day_nanos + 719162))"] leap_cases year_of_day_bounds [of "t div day_nanos + 719162"]
    by (simp add: gregorian_def Let_def)
next
  fix t lo hi
  assume "month_range gregorian (cal_year gregorian t) (cal_month gregorian t) = Some (lo, hi)"
  then show "lo \<le> t \<and> t < hi" by (rule gregorian_own_month)
qed (simp add: gregorian_def)

end
