(* ===== verification/Report_Laws.thy ===== *)
theory Report_Laws
  imports Reports
begin

section \<open>What the reports show\<close>

text \<open>
  The budget status against its integer reference, the totals of a summary as exact sums, and the
  months of a trend as a partition of time.
\<close>

subsection \<open>The budget status\<close>

definition budget_status_ref :: "int \<Rightarrow> int \<Rightarrow> string" where
  "budget_status_ref actual planned =
     (if planned \<le> 0 then ''ok'' else if planned < actual then ''over''
      else if 9 * planned < 10 * actual then ''ok'' else ''under'')"

lemma f64_round_1 [simp]: "f64_round 1 = 1"
  using f64_round_int [of 1] by simp

lemma nine_tenths: "\<bar>f64_round (9 / 10) - 9 / 10\<bar> \<le> 1 / 2 ^ 54"
proof -
  have "\<bar>f64_round (9 / 10) - 9 / 10\<bar> \<le> 2 powi (- 1 - 53)"
    by (rule f64_round_error) (simp_all add: power_int_def)
  then show ?thesis by (simp add: power_int_def power_one_over)
qed

text \<open>The rounded ratio of 53-bit integers and its two thresholds.\<close>

lemma ratio_over:
  assumes "0 < b" and "b < a" and "b \<le> 900000000000000"
  shows "1 < f64_div (f64_of_int a) (f64_of_int b)"
proof -
  have fb: "f64_of_int b = of_int b" using assms by (simp add: f64_of_int_def f64_round_int)
  have "f64_round (of_int (b + 1)) \<le> f64_of_int a"
    unfolding f64_of_int_def using assms by (intro f64_round_mono) (simp only: of_int_le_iff)
  then have fa: "of_int (b + 1) \<le> f64_of_int a"
    using assms f64_round_int [of "b + 1"] by simp
  let ?x = "of_int (b + 1) / of_int b :: rat"
  have mono: "f64_round ?x \<le> f64_div (f64_of_int a) (f64_of_int b)"
    unfolding f64_div_def fb using assms(1) fa by (intro f64_round_mono divide_right_mono) auto
  have x: "?x = 1 + 1 / of_int b" using assms(1) by (simp add: field_simps)
  show ?thesis
  proof (cases "b = 1")
    case True
    then show ?thesis using mono f64_round_int [of 2] by simp
  next
    case False
    then have b: "(2::rat) \<le> of_int b" "(of_int b :: rat) \<le> 900000000000000"
      using assms by (simp_all flip: of_int_numeral only: of_int_le_iff)
    then have "1 \<le> ?x" "?x < 2" "1 / 2 ^ 52 < 1 / (of_int b :: rat)"
      unfolding x by (simp_all add: field_simps)
    moreover have "\<bar>f64_round ?x - ?x\<bar> \<le> 2 powi (0 - 53)"
      using \<open>1 \<le> ?x\<close> \<open>?x < 2\<close> by (intro f64_round_error) simp_all
    then have "\<bar>f64_round ?x - ?x\<bar> \<le> 1 / 2 ^ 53" by (simp add: power_int_def power_one_over)
    moreover have "(1::rat) / 2 ^ 53 < 1 / 2 ^ 52" by simp
    ultimately show ?thesis using mono unfolding x abs_le_iff by linarith
  qed
qed

lemma ratio_not_over:
  assumes "0 < b" and "a \<le> b" and "b \<le> 900000000000000"
  shows "f64_div (f64_of_int a) (f64_of_int b) \<le> 1"
proof -
  have fb: "f64_of_int b = of_int b" using assms by (simp add: f64_of_int_def f64_round_int)
  have "f64_of_int a \<le> f64_of_int b"
    unfolding f64_of_int_def using assms(2) by (intro f64_round_mono) simp
  then have "f64_of_int a / f64_of_int b \<le> 1" using assms(1) by (simp add: fb)
  from f64_round_mono [OF this] show ?thesis by (simp add: f64_div_def)
qed

lemma ratio_ok:
  assumes "0 < b" and "a \<le> b" and "b \<le> 900000000000000"
  shows "f64_round (9 / 10) < f64_div (f64_of_int a) (f64_of_int b) \<longleftrightarrow> 9 * b < 10 * a"
proof -
  have fb: "f64_of_int b = of_int b" using assms by (simp add: f64_of_int_def f64_round_int)
  show ?thesis
  proof (cases "9 * b < 10 * a")
    case True
    have fa: "f64_of_int a = of_int a" using assms True by (simp add: f64_of_int_def f64_round_int)
    let ?x = "of_int a / of_int b :: rat"
    have b: "(0::rat) < of_int b" "(of_int b :: rat) \<le> 900000000000000"
      using assms by (simp_all flip: of_int_numeral only: of_int_le_iff of_int_0_less_iff)
    have "(of_int (9 * b + 1) :: rat) \<le> of_int (10 * a)" using True by (simp only: of_int_le_iff)
    then have "(9 * of_int b + 1) / 10 / of_int b \<le> ?x" using b(1) by (intro divide_right_mono) simp_all
    then have low: "9 / 10 + 1 / (10 * of_int b) \<le> ?x" using b(1) by (simp add: add_divide_distrib)
    moreover have "1 / 2 ^ 53 < 1 / (10 * (of_int b :: rat))" using b by (simp add: field_simps)
    moreover have "f64_round ?x \<ge> ?x - 1 / 2 ^ 54"
    proof (cases "?x < 1")
      case True
      have "0 \<le> 1 / (10 * of_int b :: rat)" using b(1) by simp
      then have "1 / 2 \<le> ?x" using low by linarith
      then have "2 powi (-1) \<le> ?x" by (simp add: power_int_def)
      then have "\<bar>f64_round ?x - ?x\<bar> \<le> 2 powi (- 1 - 53)"
        using True by (intro f64_round_error) simp_all
      moreover have "(2::rat) powi (- 1 - 53) = 1 / 2 ^ 54" by (simp add: power_int_def power_one_over)
      ultimately show ?thesis unfolding abs_le_iff by linarith
    next
      case False
      then have "?x = 1" using assms(2) b(1) by (simp add: field_simps)
      then show ?thesis by simp
    qed
    moreover have "(1::rat) / 2 ^ 53 = 1 / 2 ^ 54 + 1 / 2 ^ 54" by simp
    ultimately have "f64_round (9 / 10) < f64_round ?x" using nine_tenths unfolding abs_le_iff by linarith
    then show ?thesis using True by (simp add: f64_div_def fa fb)
  next
    case False
    have "(of_int (10 * a) :: rat) \<le> of_int (9 * b)" using False by (simp only: of_int_le_iff not_less)
    then have "of_int a / of_int b \<le> (9 / 10 :: rat)" using assms(1) by (simp add: field_simps)
    moreover have "f64_of_int a \<le> 0 \<or> f64_of_int a = of_int a"
    proof (cases "0 \<le> a")
      case True
      then show ?thesis using assms by (simp add: f64_of_int_def f64_round_int)
    next
      case False
      then show ?thesis using f64_round_mono [of "of_int a" 0] by (simp add: f64_of_int_def)
    qed
    ultimately have "f64_of_int a / f64_of_int b \<le> 9 / 10"
      using assms(1) by (auto simp: fb intro: order.trans [OF divide_nonpos_pos])
    from f64_round_mono [OF this] show ?thesis using False by (simp add: f64_div_def)
  qed
qed

text \<open>
  C37. Budget status: for budgets up to nine hundred million million minor units, and any actual
  amount, the floating-point comparison of \<open>budget_status\<close> gives the same status as exact integer
  arithmetic: over above the budget, ok above nine tenths of it, under up to and including nine tenths. (The
  comments of the test \<open>budget_status_over_under_ok\<close> count exactly nine tenths as ok; the code compares
  with \<open>> 0.9\<close>.)
\<close>
theorem budget_status_exact:
  assumes "planned \<le> 900000000000000"
  shows "budget_status actual planned = budget_status_ref actual planned"
proof (cases "0 < planned")
  case True
  note over = ratio_over [OF True _ assms] and not_over = ratio_not_over [OF True _ assms]
    and ok = ratio_ok [OF True _ assms]
  show ?thesis
    using True over [of actual] not_over [of actual] ok [of actual]
    by (cases "planned < actual") (auto simp: budget_status_def budget_status_ref_def Let_def)
qed (simp add: budget_status_def budget_status_ref_def)

theorem budget_status_exact_witness:
  "budget_status 95 100 = ''ok'' \<and> budget_status 110 100 = ''over'' \<and> budget_status 80 100 = ''under''"
  using budget_status_exact [of 100 95] budget_status_exact [of 100 110] budget_status_exact [of 100 80]
  by (simp add: budget_status_ref_def)

subsection \<open>Exact totals\<close>

text \<open>The positive amounts that a store records on the accounts \<open>P\<close> in the transactions \<open>sel\<close>.\<close>

definition entry_amount :: "memory_store \<Rightarrow> (account_record \<Rightarrow> bool) \<Rightarrow> entry \<Rightarrow> int" where
  "entry_amount s P = (\<lambda>(account_id, amount, _).
     case hm_get (accounts s) account_id of Some a \<Rightarrow> if P a then max 0 amount else 0 | None \<Rightarrow> 0)"

definition tx_total :: "memory_store \<Rightarrow> (account_record \<Rightarrow> bool) \<Rightarrow> tx_record \<Rightarrow> int" where
  "tx_total s P tx = (\<Sum>e\<leftarrow>tx_entries tx. entry_amount s P e)"

definition book_total :: "memory_store \<Rightarrow> (account_record \<Rightarrow> bool) \<Rightarrow> (tx_record \<Rightarrow> bool) \<Rightarrow> int" where
  "book_total s P sel = (\<Sum>tx\<leftarrow>filter sel (hm_values (transactions s)). tx_total s P tx)"

abbreviation of_type :: "string \<Rightarrow> account_record \<Rightarrow> bool" where
  "of_type ty a \<equiv> acc_account_type a = ty"

definition live :: "string \<Rightarrow> tx_record \<Rightarrow> bool" where
  "live book_id tx \<longleftrightarrow> tx_book_id tx = book_id \<and> \<not> tx_deleted tx"

lemma entry_amount_nonneg [simp]: "0 \<le> entry_amount s P e"
  by (auto simp: entry_amount_def split: prod.splits option.splits)

lemma tx_total_nonneg [simp]: "0 \<le> tx_total s P tx"
  unfolding tx_total_def by (rule sum_list_nonneg) auto

lemma book_total_nonneg [simp]: "0 \<le> book_total s P sel"
  unfolding book_total_def by (rule sum_list_nonneg) auto

text \<open>The same sums over the rows of a summary.\<close>

definition rows_total :: "(string \<Rightarrow> string \<Rightarrow> bool) \<Rightarrow> string \<Rightarrow> rates \<Rightarrow> report_row list \<Rightarrow> int" where
  "rows_total P base rates rows =
     (\<Sum>(name, ty, amount, currency)\<leftarrow>rows. if P name ty then max 0 (convert_amount amount currency base rates) else 0)"

lemma rows_total_simps [simp]:
  "rows_total P base rates [] = 0"
  "rows_total P base rates ((name, ty, amount, currency) # rows) =
     (if P name ty then max 0 (convert_amount amount currency base rates) else 0) + rows_total P base rates rows"
  "rows_total P base rates (rows @ rows') = rows_total P base rates rows + rows_total P base rates rows'"
  by (simp_all add: rows_total_def)

lemma rows_total_nonneg [simp]: "0 \<le> rows_total P base rates rows"
  unfolding rows_total_def by (rule sum_list_nonneg) auto

lemma convert_no_rates [simp]: "convert_amount amount currency base [] = amount"
  by (simp add: convert_amount_def)

lemma summary_rows_total:
  "rows_total (\<lambda>name ty. P ty name) base [] (summary_rows s b) =
     book_total s (\<lambda>a. P (acc_account_type a) (acc_name a)) (live b)"
proof -
  have tx: "rows_total (\<lambda>name ty. P ty name) base [] (tx_rows s tx) =
      tx_total s (\<lambda>a. P (acc_account_type a) (acc_name a)) tx" for tx
  proof -
    have "rows_total (\<lambda>name ty. P ty name) base [] (concat (map (\<lambda>(account_id, amount, currency).
        case hm_get (accounts s) account_id of None \<Rightarrow> []
        | Some acc \<Rightarrow> [(acc_name acc, acc_account_type acc, amount, currency)]) es)) =
      (\<Sum>e\<leftarrow>es. entry_amount s (\<lambda>a. P (acc_account_type a) (acc_name a)) e)" for es
      by (induction es) (auto simp: entry_amount_def split: option.splits)
    then show ?thesis by (simp add: tx_rows_def tx_total_def)
  qed
  have "rows_total (\<lambda>name ty. P ty name) base [] (concat (map (\<lambda>tx.
      if tx_book_id tx \<noteq> b \<or> tx_deleted tx then [] else tx_rows s tx) txs)) =
    (\<Sum>tx\<leftarrow>filter (live b) txs. tx_total s (\<lambda>a. P (acc_account_type a) (acc_name a)) tx)" for txs
    by (induction txs) (auto simp: tx live_def)
  then show ?thesis by (simp add: summary_rows_def book_total_def)
qed

subsection \<open>The aggregation\<close>

definition cat_get :: "(string \<times> int) list \<Rightarrow> string \<Rightarrow> int" where
  "cat_get m name = (case map_of m name of Some a \<Rightarrow> a | None \<Rightarrow> 0)"

lemma sum_bt_insert:
  "bt_wf m \<Longrightarrow> sum_list (map snd (bt_insert k v m)) = sum_list (map snd m) - cat_get m k + v"
proof (induction k v m rule: bt_insert.induct)
  case (2 k v k' v' m)
  have "map_of ((k', v') # m) k = None" if "k < k'"
    using that 2(2) by (auto simp: bt_wf_def map_of_eq_None_iff)
  with 2 show ?case by (auto simp: cat_get_def bt_wf_def)
qed (simp add: cat_get_def)

lemma cat_get_le_sum:
  assumes "\<forall>a \<in> snd ` set m. 0 \<le> a"
  shows "0 \<le> cat_get m k \<and> cat_get m k \<le> sum_list (map snd m)"
  using assms
proof (induction m)
  case (Cons x m)
  moreover have "0 \<le> sum_list (map snd m)" using Cons.prems by (intro sum_list_nonneg) auto
  ultimately show ?case by (cases x) (auto simp: cat_get_def split: option.splits)
qed (simp add: cat_get_def)

lemma in_i64_nonneg: "0 \<le> x \<Longrightarrow> x < 2 ^ 63 \<Longrightarrow> in_i64 x"
  by (simp add: in_signed_def)

text \<open>The maps the loop reaches: sorted, without negative amounts, and summing up to the expense.\<close>

definition categories_ok :: "int \<Rightarrow> (string \<times> int) list \<Rightarrow> bool" where
  "categories_ok expense m \<longleftrightarrow> bt_wf m \<and> (\<forall>a \<in> snd ` set m. 0 \<le> a) \<and> sum_list (map snd m) = expense"

lemma bt_insert_values: "snd ` set (bt_insert k v m) \<subseteq> insert v (snd ` set m)"
  by (induction k v m rule: bt_insert.induct) auto

lemma category_add_ok:
  assumes "categories_ok expense m" and "0 < a" and "expense + a < 2 ^ 63"
  shows "categories_ok (expense + a) (category_add name a m)"
    and "cat_get (category_add name a m) n = cat_get m n + (if n = name then a else 0)"
proof -
  have g: "0 \<le> cat_get m name" "cat_get m name \<le> expense"
    using assms(1) cat_get_le_sum by (auto simp: categories_ok_def)
  have "in_i64 (cat_get m name + a)" by (rule in_i64_nonneg) (use g assms in auto)
  then have add: "category_add name a m = bt_insert name (cat_get m name + a) m"
    by (simp add: category_add_def cat_get_def i64_add_exact)
  have "\<forall>b \<in> insert (cat_get m name + a) (snd ` set m). 0 \<le> b"
    using assms(1,2) g by (auto simp: categories_ok_def)
  then have "\<forall>b \<in> snd ` set (category_add name a m). 0 \<le> b"
    unfolding add using bt_insert_values [of name "cat_get m name + a" m] by (meson subsetD)
  then show "categories_ok (expense + a) (category_add name a m)"
    using assms by (simp add: categories_ok_def add sum_bt_insert)
  show "cat_get (category_add name a m) n = cat_get m n + (if n = name then a else 0)"
    by (simp add: add cat_get_def map_of_bt_insert)
qed

lemma aggregate_loop_exact:
  assumes "0 \<le> income" and "categories_ok expense m" and "0 \<le> expense"
    and "income + rows_total (\<lambda>_ ty. ty = ''income'') base rates rows < 2 ^ 63"
    and "expense + rows_total (\<lambda>_ ty. ty = ''expense'') base rates rows < 2 ^ 63"
  shows "\<exists>m'. aggregate_loop base rates rows (income, expense, m) =
      (income + rows_total (\<lambda>_ ty. ty = ''income'') base rates rows,
       expense + rows_total (\<lambda>_ ty. ty = ''expense'') base rates rows, m') \<and>
    categories_ok (expense + rows_total (\<lambda>_ ty. ty = ''expense'') base rates rows) m' \<and>
    (\<forall>n. cat_get m' n = cat_get m n + rows_total (\<lambda>name ty. ty = ''expense'' \<and> name = n) base rates rows)"
  using assms
proof (induction rows arbitrary: income expense m)
  case (Cons row rows)
  obtain name ty amount currency where row: "row = (name, ty, amount, currency)" by (cases row) auto
  let ?a = "convert_amount amount currency base rates"
  consider "?a \<le> 0 \<or> ty \<noteq> ''income'' \<and> ty \<noteq> ''expense''" | "0 < ?a" "ty = ''income''" | "0 < ?a" "ty = ''expense''"
    by linarith
  then show ?case
  proof cases
    case 1
    then show ?thesis using Cons.IH [of income expense m] Cons.prems by (auto simp: row Let_def)
  next
    case 2
    have "income + ?a \<le> income + rows_total (\<lambda>_ ty. ty = ''income'') base rates (row # rows)"
      using 2 by (simp add: row)
    then have "in_i64 (income + ?a)"
      using Cons.prems(1,4) 2(1) by (intro in_i64_nonneg) linarith+
    then show ?thesis using Cons.IH [of "income + ?a" expense m] Cons.prems 2 by (auto simp: row Let_def i64_add_exact add.assoc)
  next
    case 3
    have "expense + ?a \<le> expense + rows_total (\<lambda>_ ty. ty = ''expense'') base rates (row # rows)"
      using 3 by (simp add: row)
    then have lt: "expense + ?a < 2 ^ 63" using Cons.prems(5) by linarith
    then have "in_i64 (expense + ?a)" using Cons.prems 3 by (intro in_i64_nonneg) auto
    then show ?thesis
      using Cons.IH [of income "expense + ?a" "category_add name ?a m"] category_add_ok [OF Cons.prems(2) 3(1) lt] Cons.prems 3
      by (auto simp: row Let_def i64_add_exact add.assoc)
  qed
qed simp

text \<open>
  Summary: a member of the book on the plus plan gets totals that are exactly the sums, over the
  transactions of the book that are not deleted, of the positive amounts on income and on expense
  accounts; the categories are listed by increasing name, each with the sum of its own positive
  amounts, and together they sum up to the expense total.
\<close>
theorem summary_totals:
  assumes "require_book_member s u b = Inr ()" and "require_plan s u ''plus'' = Inr plan"
    and "book_total s (of_type ''income'') (live b) < 2 ^ 63" and "book_total s (of_type ''expense'') (live b) < 2 ^ 63"
  shows "\<exists>cs. summary u b s = Inr (summary_json plan ''CNY'' (book_total s (of_type ''income'') (live b))
        (book_total s (of_type ''expense'') (live b)) (map (category_json ''CNY'') cs)) \<and>
      sorted_wrt (<) (map fst cs) \<and> sum_list (map snd cs) = book_total s (of_type ''expense'') (live b) \<and>
      (\<forall>n. (case map_of cs n of Some a \<Rightarrow> a | None \<Rightarrow> 0) =
        book_total s (\<lambda>a. of_type ''expense'' a \<and> acc_name a = n) (live b))"
proof -
  have totals: "rows_total (\<lambda>_ ty. ty = x) ''CNY'' [] (summary_rows s b) = book_total s (of_type x) (live b)"
    "rows_total (\<lambda>name ty. ty = x \<and> name = n) ''CNY'' [] (summary_rows s b) =
      book_total s (\<lambda>a. of_type x a \<and> acc_name a = n) (live b)" for x n
    using summary_rows_total [where P = "\<lambda>ty _. ty = x"] summary_rows_total [where P = "\<lambda>ty name. ty = x \<and> name = n"]
    by simp_all
  have "categories_ok 0 []" by (simp add: categories_ok_def bt_wf_def)
  from aggregate_loop_exact [OF order.refl this order.refl, of "''CNY''" "[]" "summary_rows s b"]
  obtain cs where cs: "aggregate_loop ''CNY'' [] (summary_rows s b) (0, 0, []) =
      (book_total s (of_type ''income'') (live b), book_total s (of_type ''expense'') (live b), cs)"
    "categories_ok (book_total s (of_type ''expense'') (live b)) cs"
    "\<forall>n. cat_get cs n = book_total s (\<lambda>a. of_type ''expense'' a \<and> acc_name a = n) (live b)"
    using assms(3,4) by (auto simp: totals cat_get_def)
  then show ?thesis
    using assms(1,2) by (auto simp: summary_def aggregate_entries_def categories_ok_def bt_wf_def cat_get_def
        simp del: require_book_member_ok)
qed

text \<open>
  A client books income as a credit, with the amount negative on the income account: such a
  transaction adds nothing to the income of any report.
\<close>

lemma income_credit_not_counted:
  assumes "\<forall>(account_id, amount, currency) \<in> set (tx_entries tx).
    (\<exists>a. hm_get (accounts s) account_id = Some a \<and> of_type ''income'' a) \<longrightarrow> amount < 0"
  shows "tx_total s (of_type ''income'') tx = 0"
proof -
  have "entry_amount s (of_type ''income'') e = 0" if "e \<in> set (tx_entries tx)" for e
    using assms that by (fastforce simp: entry_amount_def split: option.splits)
  then show ?thesis by (simp add: tx_total_def cong: map_cong)
qed

definition ex_report_store :: memory_store where
  "ex_report_store = empty_store\<lparr>books := [(''b1'', \<lparr>bk_id = ''b1'', bk_name = ''Personal'', bk_owner_id = ''u1''\<rparr>)],
     subscriptions := [(''u1'', ''plus'')],
     accounts := [(''food'', \<lparr>acc_id = ''food'', acc_book_id = ''b1'', acc_name = ''Food'', acc_account_type = ''expense'',
         acc_currency = ''CNY'', acc_parent_account_id = None, acc_version = 1\<rparr>),
       (''cash'', \<lparr>acc_id = ''cash'', acc_book_id = ''b1'', acc_name = ''Cash'', acc_account_type = ''asset'',
         acc_currency = ''CNY'', acc_parent_account_id = None, acc_version = 1\<rparr>)],
     transactions := [(''t1'', \<lparr>tx_id = ''t1'', tx_book_id = ''b1'', tx_occurred_at = 0, tx_description = None,
       tx_version = 1, tx_deleted = False, tx_entries = [(''food'', 250, ''CNY''), (''cash'', - 250, ''CNY'')],
       tx_source = None, tx_source_event_fingerprint = None\<rparr>)]\<rparr>"

lemma ex_report_totals:
  "book_total ex_report_store (of_type ''income'') (live ''b1'') = 0"
  "book_total ex_report_store (of_type ''expense'') (live ''b1'') = 250"
  by (simp_all add: book_total_def tx_total_def entry_amount_def ex_report_store_def hm_values_def hm_get_def live_def)

lemma ex_report_access:
  "require_book_member ex_report_store ''u1'' ''b1'' = Inr ()" "require_plan ex_report_store ''u1'' ''plus'' = Inr ''plus''"
  by (simp_all add: require_book_member_def require_plan_def user_plan_def plan_allows_def ex_report_store_def hm_get_def)

theorem summary_totals_witness:
  "\<exists>cs. summary ''u1'' ''b1'' ex_report_store = Inr (summary_json ''plus'' ''CNY'' 0 250 (map (category_json ''CNY'') cs)) \<and>
     sum_list (map snd cs) = 250"
  using summary_totals [OF ex_report_access] by (auto simp: ex_report_totals)

end
