(* ===== verification/Report_Trend.thy ===== *)
theory Report_Trend
  imports Calendar Report_Laws
begin

section \<open>The months of a trend\<close>

text \<open>The windows of consecutive months partition time, so a trend counts every entry in one month.\<close>

subsection \<open>Exact monthly totals\<close>

lemma trend_add_exact:
  assumes "in_i64 (i + entry_amount s (of_type ''income'') e)" and "in_i64 (x + entry_amount s (of_type ''expense'') e)"
  shows "trend_add s e (i, x) = (i + entry_amount s (of_type ''income'') e, x + entry_amount s (of_type ''expense'') e)"
  using assms by (auto simp: trend_add_def entry_amount_def i64_add_exact split: prod.splits option.splits)

lemma fold_entries_exact:
  assumes "0 \<le> i" "0 \<le> x" "i + (\<Sum>e\<leftarrow>es. entry_amount s (of_type ''income'') e) < 2 ^ 63"
    "x + (\<Sum>e\<leftarrow>es. entry_amount s (of_type ''expense'') e) < 2 ^ 63"
  shows "fold (trend_add s) es (i, x) =
    (i + (\<Sum>e\<leftarrow>es. entry_amount s (of_type ''income'') e), x + (\<Sum>e\<leftarrow>es. entry_amount s (of_type ''expense'') e))"
  using assms
proof (induction es arbitrary: i x)
  case (Cons e es)
  have nn: "0 \<le> (\<Sum>e\<leftarrow>es. entry_amount s P e)" for P by (rule sum_list_nonneg) auto
  let ?i = "i + entry_amount s (of_type ''income'') e" and ?x = "x + entry_amount s (of_type ''expense'') e"
  have b: "0 \<le> ?i" "0 \<le> ?x" "?i + (\<Sum>e\<leftarrow>es. entry_amount s (of_type ''income'') e) < 2 ^ 63"
    "?x + (\<Sum>e\<leftarrow>es. entry_amount s (of_type ''expense'') e) < 2 ^ 63"
    using Cons.prems by (simp_all add: add.assoc)
  have "?i < 2 ^ 63" "?x < 2 ^ 63" using b nn [of "of_type ''income''"] nn [of "of_type ''expense''"] by linarith+
  then show ?case using Cons.IH [OF b] b trend_add_exact [of i s e x] by (simp add: in_i64_nonneg add.assoc)
qed simp

lemma trend_month_exact:
  assumes "book_total s (of_type ''income'') (in_period b lo hi) < 2 ^ 63"
    "book_total s (of_type ''expense'') (in_period b lo hi) < 2 ^ 63"
  shows "trend_month s b lo hi =
    (book_total s (of_type ''income'') (in_period b lo hi), book_total s (of_type ''expense'') (in_period b lo hi))"
proof -
  let ?T = "\<lambda>P txs. \<Sum>tx\<leftarrow>filter (in_period b lo hi) txs. tx_total s P tx"
  have nn: "0 \<le> ?T P txs" for P txs by (rule sum_list_nonneg) auto
  have "fold (\<lambda>tx acc. if in_period b lo hi tx then fold (trend_add s) (tx_entries tx) acc else acc) txs (i, x) =
      (i + ?T (of_type ''income'') txs, x + ?T (of_type ''expense'') txs)"
    if "0 \<le> i" "0 \<le> x" "i + ?T (of_type ''income'') txs < 2 ^ 63" "x + ?T (of_type ''expense'') txs < 2 ^ 63" for txs i x
    using that
  proof (induction txs arbitrary: i x)
    case (Cons tx txs)
    show ?case
    proof (cases "in_period b lo hi tx")
      case True
      let ?i = "i + tx_total s (of_type ''income'') tx" and ?x = "x + tx_total s (of_type ''expense'') tx"
      have c: "0 \<le> ?i" "0 \<le> ?x" "?i + ?T (of_type ''income'') txs < 2 ^ 63" "?x + ?T (of_type ''expense'') txs < 2 ^ 63"
        using Cons.prems True by (simp_all add: add.assoc)
      have "?i < 2 ^ 63" "?x < 2 ^ 63"
        using c nn [of "of_type ''income''" txs] nn [of "of_type ''expense''" txs] by linarith+
      then have "fold (trend_add s) (tx_entries tx) (i, x) = (?i, ?x)"
        using Cons.prems(1,2) fold_entries_exact [of i x s "tx_entries tx"] by (simp add: tx_total_def)
      with Cons.IH [OF c] True show ?thesis by (simp add: add.assoc)
    qed (use Cons in simp)
  qed simp
  from this [of 0 0 "hm_values (transactions s)"] show ?thesis
    using assms by (simp add: trend_month_def book_total_def)
qed

lemma book_total_mono: "(\<And>tx. sel tx \<Longrightarrow> sel' tx) \<Longrightarrow> book_total s P sel \<le> book_total s P sel'"
  unfolding book_total_def
proof (induction "hm_values (transactions s)" arbitrary: s)
  case Nil
  then show ?case by (simp flip: Nil(1))
next
  case (Cons tx txs)
  have "sum_list (map (tx_total s P) (filter sel l)) \<le> sum_list (map (tx_total s P) (filter sel' l))" for l
    using Cons.prems by (induction l) (auto intro: add_increasing)
  then show ?case .
qed

lemma book_total_split:
  assumes "lo \<le> mid" and "mid \<le> hi"
  shows "book_total s P (in_period b lo hi) = book_total s P (in_period b lo mid) + book_total s P (in_period b mid hi)"
proof -
  have "sum_list (map (tx_total s P) (filter (in_period b lo hi) l)) =
      sum_list (map (tx_total s P) (filter (in_period b lo mid) l)) +
      sum_list (map (tx_total s P) (filter (in_period b mid hi) l))" for l
    using assms by (induction l) (auto simp: in_period_def)
  then show ?thesis by (simp add: book_total_def)
qed

subsection \<open>Consecutive months\<close>

definition prev_month :: "int \<times> nat \<Rightarrow> int \<times> nat" where
  "prev_month = (\<lambda>(year, month). if month = 1 then (year - 1, 12) else (year, month - 1))"

lemma back_months_Suc: "back_months (Suc n) ym = prev_month (back_months n ym)"
proof (induction n arbitrary: ym)
  case 0
  then show ?case by (cases ym) (simp add: prev_month_def)
next
  case (Suc n)
  obtain y m where ym: "ym = (y, m)" by fastforce
  have "back_months (Suc (Suc n)) ym = back_months (Suc n) (prev_month ym)" by (simp add: ym prev_month_def)
  also have "\<dots> = prev_month (back_months n (prev_month ym))" by (rule Suc.IH)
  also have "back_months n (prev_month ym) = back_months (Suc n) ym" by (simp add: ym prev_month_def)
  finally show ?case .
qed

lemma back_months_range:
  assumes "1 \<le> m" "m \<le> 12"
  shows "1 \<le> snd (back_months n (y, m)) \<and> snd (back_months n (y, m)) \<le> 12 \<and>
    y - int n \<le> fst (back_months n (y, m)) \<and> fst (back_months n (y, m)) \<le> y"
proof (induction n)
  case (Suc n)
  then show ?case unfolding back_months_Suc by (cases "back_months n (y, m)") (auto simp: prev_month_def)
qed (use assms in simp)

lemma next_prev_month: "1 \<le> snd ym \<Longrightarrow> snd ym \<le> 12 \<Longrightarrow> next_month (prev_month ym) = ym"
  by (cases ym) (auto simp: next_month_def prev_month_def)

text \<open>The edges of the months: the end of the current month, its start, and the starts before it.\<close>

definition month_edge :: "calendar \<Rightarrow> timestamp \<Rightarrow> nat \<Rightarrow> timestamp option" where
  "month_edge cal now i =
     (let ym = (case i of 0 \<Rightarrow> next_month (cal_year cal now, cal_month cal now)
                | Suc j \<Rightarrow> back_months j (cal_year cal now, cal_month cal now)) in
      cal_month_start cal (fst ym) (snd ym))"

context calendar_laws
begin

lemma month_edge_defined:
  assumes "- 9900 \<le> cal_year cal now" and "cal_year cal now < 9999" and "i \<le> 24"
  shows "\<exists>t. month_edge cal now i = Some t"
proof -
  note m = month_number [of now]
  show ?thesis
  proof (cases i)
    case 0
    then show ?thesis using m assms start_exists by (auto simp: month_edge_def next_month_def)
  next
    case (Suc j)
    have r: "1 \<le> snd (back_months j (cal_year cal now, cal_month cal now))"
      "snd (back_months j (cal_year cal now, cal_month cal now)) \<le> 12"
      "- 9999 \<le> fst (back_months j (cal_year cal now, cal_month cal now))"
      "fst (back_months j (cal_year cal now, cal_month cal now)) \<le> 9999"
      using back_months_range [of "cal_month cal now" j "cal_year cal now"] m assms Suc by linarith+
    show ?thesis using start_exists [OF r] by (auto simp: month_edge_def Suc Let_def)
  qed
qed

lemma month_edge_range:
  assumes "month_edge cal now (Suc i) = Some lo" and "month_edge cal now i = Some hi"
  shows "subtract_months cal now i = Some lo" and "month_range cal (cal_year cal lo) (cal_month cal lo) = Some (lo, hi)"
proof -
  define ym where "ym = back_months i (cal_year cal now, cal_month cal now)"
  have s: "cal_month_start cal (fst ym) (snd ym) = Some lo" using assms(1) by (simp add: month_edge_def ym_def Let_def)
  then show "subtract_months cal now i = Some lo" by (simp add: subtract_months_def ym_def [symmetric] split_beta)
  have "next_month ym = (case i of 0 \<Rightarrow> next_month (cal_year cal now, cal_month cal now)
      | Suc j \<Rightarrow> back_months j (cal_year cal now, cal_month cal now))"
    using back_months_range [of "cal_month cal now" _ "cal_year cal now"] month_number [of now]
    by (cases i) (simp_all add: ym_def back_months_Suc next_prev_month del: back_months.simps(2))
  then have "cal_month_start cal (fst (next_month ym)) (snd (next_month ym)) = Some hi"
    using assms(2) by (simp add: month_edge_def Let_def)
  then show "month_range cal (cal_year cal lo) (cal_month cal lo) = Some (lo, hi)"
    using s start_month [OF s] by (simp add: month_range_def split_beta)
qed

lemma month_edge_now:
  assumes "month_edge cal now (Suc 0) = Some lo" and "month_edge cal now 0 = Some hi"
  shows "lo \<le> now \<and> now < hi"
proof -
  have "cal_month_start cal (cal_year cal now) (cal_month cal now) = Some lo"
    using assms(1) by (simp add: month_edge_def)
  then have "month_range cal (cal_year cal now) (cal_month cal now) = Some (lo, hi)"
    using month_edge_range(2) [OF assms] start_month by metis
  then show ?thesis by (rule own_month)
qed

end

lemma those_map: "(\<And>i. i < n \<Longrightarrow> g i = Some (h i)) \<Longrightarrow> those (map g [0..<n]) = Some (map h [0..<n])"
proof -
  assume "\<And>i. i < n \<Longrightarrow> g i = Some (h i)"
  then have "map g [0..<n] = map (\<lambda>i. Some (h i)) [0..<n]" by simp
  then have "those (map g [0..<n]) = those (map (\<lambda>i. Some (h i)) [0..<n])" by (rule arg_cong)
  also have "those (map (\<lambda>i. Some (h i)) xs) = Some (map h xs)" for xs by (induction xs) auto
  finally show ?thesis .
qed

lemma sum_of_windows:
  assumes "\<And>i. i < n \<Longrightarrow> f (Suc i) < f i"
  shows "(\<Sum>i\<leftarrow>[0..<n]. book_total s P (in_period b (f (Suc i)) (f i))) = book_total s P (in_period b (f n) (f 0))"
  using assms
proof (induction n)
  case 0
  have "in_period b t t = (\<lambda>_. False)" for t by (auto simp: in_period_def fun_eq_iff)
  then show ?case by (simp add: book_total_def)
next
  case (Suc n)
  have "f n \<le> f 0" using Suc.prems
  proof (induction n)
    case (Suc n)
    then show ?case using Suc.prems [of n] by (metis less_Suc_eq less_imp_le order.trans)
  qed simp
  then show ?case
    using Suc book_total_split [of "f (Suc n)" "f n" "f 0" s P b] by (simp add: less_imp_le)
qed

text \<open>
  C36. Trend: with a calendar that follows its documentation, and totals that fit in 64 bits, a trend
  of up to 24 months is answered; its months, oldest first, are consecutive half-open windows, the
  newest of which contains the current instant; the income and expense of a month are the exact sums
  of the positive amounts in its window, and over all months they sum up to the totals of the whole
  period, so no entry is lost or counted twice.
\<close>
theorem trend_partitions_time:
  assumes "calendar_laws cal" and "- 9900 \<le> cal_year cal now" and "cal_year cal now < 9999" and "n \<le> 23"
    and "book_total s (of_type ''income'') (live b) < 2 ^ 63" and "book_total s (of_type ''expense'') (live b) < 2 ^ 63"
  shows "\<exists>series f. trend_mem cal now s b (Suc n) = Some series \<and> length series = Suc n \<and> f 1 \<le> now \<and> now < f 0 \<and>
    (\<forall>i \<le> n. f (Suc i) < f i \<and> (\<exists>p. series ! (n - i) = p \<and> tp_month p = month_label cal (f (Suc i)) \<and>
       tp_income p = book_total s (of_type ''income'') (in_period b (f (Suc i)) (f i)) \<and>
       tp_expense p = book_total s (of_type ''expense'') (in_period b (f (Suc i)) (f i)))) \<and>
    sum_list (map tp_income series) = book_total s (of_type ''income'') (in_period b (f (Suc n)) (f 0)) \<and>
    sum_list (map tp_expense series) = book_total s (of_type ''expense'') (in_period b (f (Suc n)) (f 0))"
proof -
  define f where "f i = the (month_edge cal now i)" for i
  have edge: "month_edge cal now i = Some (f i)" if "i \<le> Suc n" for i
    using calendar_laws.month_edge_defined [OF assms(1-3), of i] that assms(4) by (auto simp: f_def)
  define h where "h i = \<lparr>tp_month = month_label cal (f (Suc i)),
    tp_income = book_total s (of_type ''income'') (in_period b (f (Suc i)) (f i)),
    tp_expense = book_total s (of_type ''expense'') (in_period b (f (Suc i)) (f i)),
    tp_net = i64_sub (book_total s (of_type ''income'') (in_period b (f (Suc i)) (f i)))
      (book_total s (of_type ''expense'') (in_period b (f (Suc i)) (f i)))\<rparr>" for i
  have range: "subtract_months cal now i = Some (f (Suc i))"
    "month_range cal (cal_year cal (f (Suc i))) (cal_month cal (f (Suc i))) = Some (f (Suc i), f i)" if "i \<le> n" for i
    using calendar_laws.month_edge_range [OF assms(1) edge edge] that by simp_all
  have less: "f (Suc i) < f i" if "i \<le> n" for i
    by (rule calendar_laws.month_range_ordered [OF assms(1) range(2) [OF that]])
  have "book_total s P (in_period b lo hi) \<le> book_total s P (live b)" for P lo hi
    by (rule book_total_mono) (simp add: in_period_def live_def)
  then have fits: "book_total s (of_type ''income'') (in_period b lo hi) < 2 ^ 63"
      "book_total s (of_type ''expense'') (in_period b lo hi) < 2 ^ 63" for lo hi
    using assms(5,6) order.strict_trans1 by blast+
  have "trend_point_at cal now s b i = Some (h i)" if "i < Suc n" for i
    using that range [of i] trend_month_exact [OF fits] by (simp add: trend_point_at_def h_def)
  then have series: "trend_mem cal now s b (Suc n) = Some (rev (map h [0..<Suc n]))"
    using those_map [of "Suc n" "trend_point_at cal now s b" h] by (simp add: trend_mem_def del: upt_Suc)
  have "f 1 \<le> now \<and> now < f 0"
    using calendar_laws.month_edge_now [OF assms(1) edge edge] by simp
  moreover have "rev (map h [0..<Suc n]) ! (n - i) = h i" if "i \<le> n" for i
    using that by (simp add: rev_nth del: upt_Suc)
  moreover have "sum_list (map tp_income (rev (map h [0..<Suc n]))) = book_total s (of_type ''income'') (in_period b (f (Suc n)) (f 0))"
    "sum_list (map tp_expense (rev (map h [0..<Suc n]))) = book_total s (of_type ''expense'') (in_period b (f (Suc n)) (f 0))"
    using sum_of_windows [of "Suc n" f s "of_type ''income''" b] sum_of_windows [of "Suc n" f s "of_type ''expense''" b] less
    by (simp_all add: rev_map [symmetric] sum_list_rev h_def comp_def del: upt_Suc)
  ultimately show ?thesis
    using series less by (intro exI [of _ "rev (map h [0..<Suc n])"] exI [of _ f]) (simp add: h_def del: upt_Suc)
qed

theorem trend_partitions_time_witness:
  "\<exists>series. trend_mem gregorian 0 ex_report_store ''b1'' 3 = Some series \<and> length series = 3 \<and>
     sum_list (map tp_expense series) = 250"
proof -
  have "cal_year gregorian 0 = 1970" by code_simp
  then have y: "- 9900 \<le> cal_year gregorian 0" "cal_year gregorian 0 < 9999" by simp_all
  have "book_total ex_report_store (of_type ''income'') (live ''b1'') < 2 ^ 63"
    "book_total ex_report_store (of_type ''expense'') (live ''b1'') < 2 ^ 63"
    by (simp_all add: ex_report_totals)
  from trend_partitions_time [OF gregorian.calendar_laws_axioms y _ this, of 2]
  obtain series f where t: "trend_mem gregorian 0 ex_report_store ''b1'' 3 = Some series" "length series = 3"
    "f 1 \<le> 0" "0 < f 0" "\<forall>i \<le> 2. f (Suc i) < f i"
    "sum_list (map tp_expense series) = book_total ex_report_store (of_type ''expense'') (in_period ''b1'' (f 3) (f 0))"
    by (auto simp: eval_nat_numeral)
  have "f 3 \<le> 0" using t(3) t(5) [rule_format, of 1] t(5) [rule_format, of 2] by (simp add: eval_nat_numeral)
  then have "book_total ex_report_store (of_type ''expense'') (in_period ''b1'' (f 3) (f 0)) = 250"
    using t(4) by (simp add: book_total_def tx_total_def entry_amount_def ex_report_store_def hm_values_def hm_get_def in_period_def)
  with t show ?thesis by auto
qed

subsection \<open>Two shortcomings of the budget report\<close>

text \<open>The last month the calendar has is accepted by \<open>parse_month\<close>, and its end does not exist.\<close>

lemma budget_last_month_panics:
  assumes "require_book_member s u b = Inr ()" and "require_plan s u ''plus'' = Inr p"
  shows "budget gregorian now u b (Some ''9999-12'') s = None"
proof -
  have "parse_month gregorian now (Some ''9999-12'') = Inr (9999, 12)" by code_simp
  moreover have "month_range gregorian 9999 12 = None"
    by (simp add: month_range_def gregorian_def next_month_def)
  ultimately show ?thesis using assms by (simp add: budget_def del: require_book_member_ok)
qed

text \<open>Budgets are not logged as changes, which is where the in-memory report looks for them.\<close>

lemma budget_report_empty:
  assumes "\<forall>c \<in> set (changes s). chg_entity_type c \<noteq> ''budget''"
  shows "budget_map s b = []"
proof -
  have "filter (\<lambda>c. chg_book_id c = b \<and> chg_entity_type c = ''budget'') (changes s) = []"
    using assms by (auto simp: filter_empty_conv)
  then show ?thesis by (simp add: budget_map_def)
qed

end
