(* ===== verification/Rate_Limit.thy ===== *)
theory Rate_Limit
  imports Float64
begin

section \<open>The token-bucket rate limit (infrastructure/rate_limit.rs)\<close>

text \<open>
  The layer's shared map of buckets as state, one step per request, with the monotonic clock in
  nanoseconds as an argument. Tokens are double-precision numbers and every operation on them rounds.
\<close>

record rate_limit_layer =
  rl_rps :: nat
  rl_auth_rps :: nat

record bucket =
  bu_tokens :: rat
  bu_last :: int
  bu_capacity :: rat

type_synonym buckets = "(string, bucket) hashmap"

definition new_rate_limit_layer :: "nat \<Rightarrow> nat \<Rightarrow> rate_limit_layer" where
  "new_rate_limit_layer rps auth_rps = \<lparr>rl_rps = max rps 1, rl_auth_rps = max auth_rps 1\<rparr>"

text \<open>\<open>Duration::as_secs_f64\<close> of a duration in nanoseconds.\<close>

definition as_secs_f64 :: "int \<Rightarrow> rat" where
  "as_secs_f64 nanos =
     f64_add (f64_of_int (nanos div 1000000000)) (f64_div (f64_of_int (nanos mod 1000000000)) (f64_of_int 1000000000))"

definition is_auth_path :: "string \<Rightarrow> bool" where
  "is_auth_path path = starts_with ''/v1/auth/'' path"

definition rate_limit_of :: "rate_limit_layer \<Rightarrow> bool \<Rightarrow> nat" where
  "rate_limit_of layer is_auth = (if is_auth then rl_auth_rps layer else rl_rps layer)"

definition bucket_key :: "string \<Rightarrow> bool \<Rightarrow> string" where
  "bucket_key ip is_auth = ip @ '':'' @ (if is_auth then ''auth'' else ''api'')"

definition refill :: "nat \<Rightarrow> int \<Rightarrow> bucket \<Rightarrow> bucket" where
  "refill limit now b =
     b\<lparr>bu_tokens := min (f64_add (bu_tokens b) (f64_mul (as_secs_f64 (max 0 (now - bu_last b))) (f64_of_int (int limit))))
       (bu_capacity b), bu_last := now\<rparr>"

text \<open>The check of one request: whether it is passed on, and the buckets after it.\<close>

definition rate_limit_call :: "rate_limit_layer \<Rightarrow> int \<Rightarrow> string \<Rightarrow> string \<Rightarrow> buckets \<Rightarrow> bool \<times> buckets" where
  "rate_limit_call layer now ip path m =
     (let is_auth = is_auth_path path; limit = rate_limit_of layer is_auth; key = bucket_key ip is_auth;
          b = refill limit now (case hm_get m key of Some b \<Rightarrow> b
            | None \<Rightarrow> \<lparr>bu_tokens = f64_of_int (int limit), bu_last = now, bu_capacity = f64_of_int (int limit)\<rparr>) in
      if 1 \<le> bu_tokens b then (True, hm_insert key (b\<lparr>bu_tokens := f64_sub (bu_tokens b) 1\<rparr>) m)
      else (False, hm_insert key b m))"

text \<open>A run of requests, each with its instant, address and path.\<close>

fun rate_limit_run :: "rate_limit_layer \<Rightarrow> (int \<times> string \<times> string) list \<Rightarrow> buckets \<Rightarrow> bool list \<times> buckets" where
  "rate_limit_run layer [] m = ([], m)"
| "rate_limit_run layer ((now, ip, path) # reqs) m =
     (case rate_limit_call layer now ip path m of (allowed, m1) \<Rightarrow>
      case rate_limit_run layer reqs m1 of (rest, m2) \<Rightarrow> (allowed # rest, m2))"

subsection \<open>The invariant of the buckets\<close>

definition layer_ok :: "rate_limit_layer \<Rightarrow> bool" where
  "layer_ok layer \<longleftrightarrow> 1 \<le> rl_rps layer \<and> rl_rps layer < 2 ^ 32 \<and> 1 \<le> rl_auth_rps layer \<and> rl_auth_rps layer < 2 ^ 32"

definition bucket_ok :: "nat \<Rightarrow> bucket \<Rightarrow> bool" where
  "bucket_ok limit b \<longleftrightarrow> 0 \<le> bu_tokens b \<and> bu_tokens b \<le> bu_capacity b \<and> bu_capacity b = of_nat limit"

definition buckets_ok :: "rate_limit_layer \<Rightarrow> buckets \<Rightarrow> bool" where
  "buckets_ok layer m \<longleftrightarrow>
     (\<forall>ip auth b. hm_get m (bucket_key ip auth) = Some b \<longrightarrow> bucket_ok (rate_limit_of layer auth) b)"

lemma bucket_key_inject: "bucket_key ip auth = bucket_key ip' auth' \<longleftrightarrow> ip = ip' \<and> auth = auth'"
proof -
  have "rev (bucket_key ip auth) = rev (bucket_key ip' auth') \<longleftrightarrow> ip = ip' \<and> auth = auth'"
    by (auto simp: bucket_key_def)
  then show ?thesis by simp
qed

lemma layer_okD: "layer_ok layer \<Longrightarrow> 1 \<le> rate_limit_of layer auth \<and> rate_limit_of layer auth < 2 ^ 32"
  by (auto simp: layer_ok_def rate_limit_of_def)

lemma f64_limit: "n < 2 ^ 32 \<Longrightarrow> f64_of_int (int n) = of_nat n"
  using f64_round_int [of "int n"] by (simp add: f64_of_int_def)

lemma as_secs_f64_nonneg: "0 \<le> n \<Longrightarrow> 0 \<le> as_secs_f64 n"
  by (auto simp: as_secs_f64_def f64_add_def f64_div_def f64_of_int_def intro!: f64_round_nonneg add_nonneg_nonneg divide_nonneg_nonneg)

lemma as_secs_f64_0 [simp]: "as_secs_f64 0 = 0"
  by (simp add: as_secs_f64_def f64_add_def f64_div_def f64_of_int_def)

lemma f64_round_ge_1: "1 \<le> x \<Longrightarrow> 1 \<le> f64_round x"
  using f64_round_mono [of 1 x] f64_round_int [of 1] by simp

lemma as_secs_f64_ge_1:
  assumes "1000000000 \<le> n"
  shows "1 \<le> as_secs_f64 n"
proof -
  have "1 \<le> n div 1000000000" using assms zdiv_mono1 [of 1000000000 n 1000000000] by simp
  then have "1 \<le> f64_of_int (n div 1000000000)" unfolding f64_of_int_def by (intro f64_round_ge_1) simp
  moreover have "0 \<le> f64_div (f64_of_int (n mod 1000000000)) (f64_of_int 1000000000)"
    unfolding f64_div_def f64_of_int_def by (intro f64_round_nonneg divide_nonneg_nonneg) simp_all
  ultimately show ?thesis unfolding as_secs_f64_def f64_add_def by (intro f64_round_ge_1) simp
qed

lemma refill_ok: "bucket_ok limit b \<Longrightarrow> bucket_ok limit (refill limit now b)"
  using as_secs_f64_nonneg [of "max 0 (now - bu_last b)"] f64_round_nonneg [of "of_nat limit"]
  by (auto simp: bucket_ok_def refill_def f64_add_def f64_mul_def f64_of_int_def
      intro!: f64_round_nonneg add_nonneg_nonneg mult_nonneg_nonneg)

lemma spend_ok:
  assumes "bucket_ok limit b" and "1 \<le> bu_tokens b" and "limit < 2 ^ 32"
  shows "bucket_ok limit (b\<lparr>bu_tokens := f64_sub (bu_tokens b) 1\<rparr>)"
proof -
  have "f64_round (bu_tokens b - 1) \<le> f64_round (of_nat limit)"
    using assms(1) by (intro f64_round_mono) (simp add: bucket_ok_def)
  also have "\<dots> = of_nat limit" using f64_limit [OF assms(3)] by (simp add: f64_of_int_def)
  finally show ?thesis using assms f64_round_nonneg [of "bu_tokens b - 1"] by (simp add: bucket_ok_def f64_sub_def)
qed

text \<open>The bucket a request meets, after the refill.\<close>

definition met :: "rate_limit_layer \<Rightarrow> int \<Rightarrow> string \<Rightarrow> bool \<Rightarrow> buckets \<Rightarrow> bucket" where
  "met layer now ip auth m = refill (rate_limit_of layer auth) now (case hm_get m (bucket_key ip auth) of Some b \<Rightarrow> b
     | None \<Rightarrow> \<lparr>bu_tokens = f64_of_int (int (rate_limit_of layer auth)), bu_last = now,
         bu_capacity = f64_of_int (int (rate_limit_of layer auth))\<rparr>)"

lemma rate_limit_call_met:
  "rate_limit_call layer now ip path m =
     (let b = met layer now ip (is_auth_path path) m; key = bucket_key ip (is_auth_path path) in
      if 1 \<le> bu_tokens b then (True, hm_insert key (b\<lparr>bu_tokens := f64_sub (bu_tokens b) 1\<rparr>) m)
      else (False, hm_insert key b m))"
  by (simp add: rate_limit_call_def met_def Let_def)

lemma met_ok:
  assumes "layer_ok layer" and "buckets_ok layer m"
  shows "bucket_ok (rate_limit_of layer auth) (met layer now ip auth m)"
proof -
  have "bucket_ok (rate_limit_of layer auth) \<lparr>bu_tokens = f64_of_int (int (rate_limit_of layer auth)), bu_last = now,
      bu_capacity = f64_of_int (int (rate_limit_of layer auth))\<rparr>"
    using layer_okD [OF assms(1), of auth] by (simp add: bucket_ok_def f64_limit)
  then show ?thesis
    using assms(2) unfolding met_def by (intro refill_ok) (auto simp: buckets_ok_def split: option.split)
qed

lemma rate_limit_call_ok:
  assumes "layer_ok layer" and "buckets_ok layer m"
  shows "buckets_ok layer (snd (rate_limit_call layer now ip path m))"
  using assms met_ok [OF assms] spend_ok layer_okD [OF assms(1)]
  by (auto simp: rate_limit_call_met Let_def buckets_ok_def bucket_key_inject)

lemma rate_limit_run_ok:
  assumes "layer_ok layer" and "buckets_ok layer m"
  shows "buckets_ok layer (snd (rate_limit_run layer reqs m))"
  using assms(2)
proof (induction reqs arbitrary: m)
  case (Cons r reqs)
  obtain now ip path where r: "r = (now, ip, path)" by (cases r) auto
  show ?case
    using Cons.IH rate_limit_call_ok [OF assms(1) Cons.prems, of now ip path] by (simp add: r split_beta)
qed simp

subsection \<open>Bursts and recovery\<close>

definition admitted :: "rate_limit_layer \<Rightarrow> (int \<times> string \<times> string) list \<Rightarrow> buckets \<Rightarrow> string \<Rightarrow> bool \<Rightarrow> nat" where
  "admitted layer reqs m ip auth =
     length (filter (\<lambda>((_, i, path), ok). ok \<and> i = ip \<and> is_auth_path path = auth)
       (zip reqs (fst (rate_limit_run layer reqs m))))"

lemma admitted_Cons:
  "admitted layer ((now, i, path) # reqs) m ip auth =
     (if fst (rate_limit_call layer now i path m) \<and> i = ip \<and> is_auth_path path = auth then 1 else 0) +
     admitted layer reqs (snd (rate_limit_call layer now i path m)) ip auth"
  by (simp add: admitted_def split_beta)

text \<open>
  Within an instant nothing is refilled, so what a bucket with at most \<open>n\<close> tokens admits is bounded
  by \<open>n\<close>: a request takes a token, and the rest of the run is bounded by the tokens left.
\<close>

lemma burst_next:
  assumes "is_auth_path path = auth" and "bu_tokens (met layer now ip auth m) \<le> of_nat n" and "n < 2 ^ 32"
    and rest: "\<And>m' b n'. hm_get m' (bucket_key ip auth) = Some b \<Longrightarrow> bu_last b = now \<Longrightarrow> bu_tokens b \<le> of_nat n' \<Longrightarrow>
      n' < 2 ^ 32 \<Longrightarrow> admitted layer reqs m' ip auth \<le> n'"
  shows "admitted layer ((now, ip, path) # reqs) m ip auth \<le> n"
proof -
  let ?b = "met layer now ip auth m"
  have last: "bu_last ?b = now" by (simp add: met_def refill_def)
  show ?thesis
  proof (cases "1 \<le> bu_tokens ?b")
    case True
    then have n: "1 \<le> n" using assms(2) by (cases n) auto
    have "f64_sub (bu_tokens ?b) 1 \<le> f64_round (of_nat (n - 1))"
      unfolding f64_sub_def using assms(2) n by (intro f64_round_mono) (simp add: of_nat_diff)
    then have tok: "f64_sub (bu_tokens ?b) 1 \<le> of_nat (n - 1)"
      using f64_limit [of "n - 1"] assms(3) by (simp add: f64_of_int_def)
    have "admitted layer reqs (hm_insert (bucket_key ip auth) (?b\<lparr>bu_tokens := f64_sub (bu_tokens ?b) 1\<rparr>) m) ip auth \<le> n - 1"
      by (rule rest [of _ "?b\<lparr>bu_tokens := f64_sub (bu_tokens ?b) 1\<rparr>"]) (use last tok assms(3) in simp_all)
    then show ?thesis using True n assms(1) by (simp add: admitted_Cons rate_limit_call_met Let_def)
  next
    case False
    have "admitted layer reqs (hm_insert (bucket_key ip auth) ?b m) ip auth \<le> n"
      by (rule rest [of _ ?b]) (use last assms(2,3) in simp_all)
    then show ?thesis using False assms(1) by (simp add: admitted_Cons rate_limit_call_met Let_def)
  qed
qed

lemma other_key:
  assumes "\<not> (i = ip \<and> is_auth_path path = auth)"
  shows "hm_get (snd (rate_limit_call layer now i path m)) (bucket_key ip auth) = hm_get m (bucket_key ip auth) \<and>
     admitted layer ((now, i, path) # reqs) m ip auth = admitted layer reqs (snd (rate_limit_call layer now i path m)) ip auth"
proof -
  have "bucket_key i (is_auth_path path) \<noteq> bucket_key ip auth" using assms by (simp add: bucket_key_inject)
  then show ?thesis using assms by (simp add: rate_limit_call_met Let_def admitted_Cons)
qed

lemma burst_from:
  assumes "\<forall>(t, _) \<in> set reqs. t = now" and "hm_get m (bucket_key ip auth) = Some b"
    and "bu_last b = now" and "bu_tokens b \<le> of_nat n" and "n < 2 ^ 32"
  shows "admitted layer reqs m ip auth \<le> n"
  using assms
proof (induction reqs arbitrary: m b n)
  case Nil
  then show ?case by (simp add: admitted_def)
next
  case (Cons r reqs)
  obtain i path where r: "r = (now, i, path)" using Cons.prems(1) by (cases r) auto
  have now: "\<forall>(t, _) \<in> set reqs. t = now" using Cons.prems(1) by auto
  have "f64_round (bu_tokens b) \<le> f64_round (of_nat n)" using Cons.prems(4) by (rule f64_round_mono)
  then have "bu_tokens (met layer now ip auth m) \<le> of_nat n"
    using Cons.prems(2,3) f64_limit [OF Cons.prems(5)]
    by (auto simp: met_def refill_def f64_add_def f64_mul_def f64_of_int_def)
  then show ?case
    using burst_next [OF _ _ Cons.prems(5) Cons.IH [OF now]] other_key [of i ip path auth layer now m reqs]
      Cons.IH [OF now _ Cons.prems(3-5)] Cons.prems(2) r
    by (cases "i = ip \<and> is_auth_path path = auth") auto
qed

lemma burst_any:
  assumes "layer_ok layer" and "buckets_ok layer m" and "\<forall>(t, _) \<in> set reqs. t = now"
  shows "admitted layer reqs m ip auth \<le> rate_limit_of layer auth"
  using assms(2,3)
proof (induction reqs arbitrary: m)
  case Nil
  then show ?case by (simp add: admitted_def)
next
  case (Cons r reqs)
  obtain i path where r: "r = (now, i, path)" using Cons.prems(2) by (cases r) auto
  have now: "\<forall>(t, _) \<in> set reqs. t = now" using Cons.prems(2) by auto
  have lim: "rate_limit_of layer auth < 2 ^ 32" using layer_okD [OF assms(1)] by blast
  have "bu_tokens (met layer now ip auth m) \<le> of_nat (rate_limit_of layer auth)"
    using met_ok [OF assms(1) Cons.prems(1), of auth now ip] by (simp add: bucket_ok_def)
  then show ?case
    using burst_next [OF _ _ lim burst_from [OF now]] other_key [of i ip path auth layer now m reqs]
      Cons.IH [OF rate_limit_call_ok [OF assms(1) Cons.prems(1)] now] r
    by (cases "i = ip \<and> is_auth_path path = auth") auto
qed

lemma recovered:
  assumes "layer_ok layer" and "buckets_ok layer m"
    and "\<forall>b. hm_get m (bucket_key ip (is_auth_path path)) = Some b \<longrightarrow> bu_last b + 1000000000 \<le> now"
  shows "fst (rate_limit_call layer now ip path m)"
proof -
  let ?auth = "is_auth_path path" and ?limit = "rate_limit_of layer (is_auth_path path)"
  note lim = layer_okD [OF assms(1), of ?auth]
  have one: "(1::rat) \<le> of_nat ?limit" using lim by simp
  have "1 \<le> bu_tokens (met layer now ip ?auth m)"
  proof (cases "hm_get m (bucket_key ip ?auth)")
    case None
    then show ?thesis
      using one lim f64_limit [of ?limit] f64_round_ge_1 [OF one]
      by (simp add: met_def refill_def f64_add_def f64_mul_def f64_of_int_def)
  next
    case (Some b)
    have b: "0 \<le> bu_tokens b" "bu_capacity b = of_nat ?limit"
      using assms(2) Some by (auto simp: buckets_ok_def bucket_ok_def)
    have "1 \<le> as_secs_f64 (max 0 (now - bu_last b))" using assms(3) Some by (intro as_secs_f64_ge_1) auto
    then have "1 \<le> as_secs_f64 (max 0 (now - bu_last b)) * of_nat ?limit" using one mult_mono [of 1 _ 1] by fastforce
    then have "1 \<le> f64_mul (as_secs_f64 (max 0 (now - bu_last b))) (f64_of_int (int ?limit))"
      using f64_limit [of ?limit] lim by (simp add: f64_mul_def f64_round_ge_1)
    then show ?thesis
      using b one f64_round_ge_1 by (simp add: Some met_def refill_def f64_add_def)
  qed
  then show ?thesis by (simp add: rate_limit_call_met Let_def)
qed

text \<open>
  C40. Rate limit: from an empty map, whatever requests came before, the tokens of every bucket stay
  between zero and its limit in spite of rounding; a burst of requests in one instant passes at most
  the limit of its kind for each address; and a request that comes a second or more after the last
  one of its address and kind passes.
\<close>
theorem rate_limit_bounds:
  assumes "rps < 2 ^ 32" and "auth_rps < 2 ^ 32" and "layer = new_rate_limit_layer rps auth_rps"
    and "m = snd (rate_limit_run layer earlier [])" and "\<forall>(t, _) \<in> set reqs. t = now"
  shows "buckets_ok layer m \<and>
    admitted layer reqs m ip auth \<le> (if auth then max auth_rps 1 else max rps 1) \<and>
    ((\<forall>b. hm_get m (bucket_key ip (is_auth_path path)) = Some b \<longrightarrow> bu_last b + 1000000000 \<le> now) \<longrightarrow>
       fst (rate_limit_call layer now ip path m))"
proof -
  have ok: "layer_ok layer" using assms(1-3) by (simp add: layer_ok_def new_rate_limit_layer_def)
  have "buckets_ok layer m" unfolding assms(4) by (rule rate_limit_run_ok [OF ok]) (simp add: buckets_ok_def)
  moreover have "rate_limit_of layer auth = (if auth then max auth_rps 1 else max rps 1)"
    by (simp add: assms(3) rate_limit_of_def new_rate_limit_layer_def)
  ultimately show ?thesis
    using burst_any [OF ok _ assms(5), of m ip auth] recovered [OF ok, of m ip path now] by simp
qed

theorem rate_limit_bounds_witness:
  "admitted (new_rate_limit_layer 20 5) (replicate 9 (7, ''10.0.0.1'', ''/v1/auth/login''))
     (snd (rate_limit_run (new_rate_limit_layer 20 5) [(3, ''10.0.0.2'', ''/v1/sync/pull'')] [])) ''10.0.0.1'' True \<le> 5"
proof -
  have "\<forall>(t, _) \<in> set (replicate 9 (7, ''10.0.0.1'', ''/v1/auth/login'')). t = (7::int)" by simp
  from rate_limit_bounds [OF _ _ refl refl this, of 20 5 "[(3, ''10.0.0.2'', ''/v1/sync/pull'')]" "''10.0.0.1''" True]
  show ?thesis by simp
qed

end
