(* ===== verification/Books.thy ===== *)
theory Books
  imports Reports Audit_Trail Sync_Mem
begin

section \<open>Books, direct transactions, billing, invites and budgets\<close>

text \<open>
  The handlers of transport/http/books.rs, ledger.rs and billing.rs, and those of commercial.rs that
  are not about attachments, over the in-memory store. \<open>web_call\<close> is what a request reads from
  outside: two fresh ids, the clock, the stamp of its audit event and its request id header;
  \<open>to_vec\<close> is the JSON encoder that bounds the metadata of an audit event.
\<close>

record web_call =
  wc_id :: string
  wc_second_id :: string
  wc_now :: timestamp
  wc_stamp :: "string \<times> timestamp"
  wc_request_id :: "string option"

definition web_audit :: "(json \<Rightarrow> string option) \<Rightarrow> web_call \<Rightarrow> audit_event \<Rightarrow> memory_store \<Rightarrow> memory_store" where
  "web_audit to_vec c ev = record_memory to_vec (wc_stamp c) (with_request_id (request_id (wc_request_id c)) ev)"

subsection \<open>Books (books.rs)\<close>

record create_book_request =
  cbr_name :: string
  cbr_currency_code :: string

definition list_books :: "string \<Rightarrow> memory_store \<Rightarrow> json" where
  "list_books user_id s =
     json_object [(''books'', JArray (map (\<lambda>b. json_object [(''id'', JString (bk_id b)), (''name'', JString (bk_name b)),
         (''role'', JString ''owner'')])
       (sort_key bk_name (filter (\<lambda>b. bk_owner_id b = user_id) (hm_values (books s))))))]"

definition new_book_account :: "string \<Rightarrow> string \<Rightarrow> string \<times> string \<times> string \<Rightarrow> memory_store \<Rightarrow> memory_store" where
  "new_book_account book_id currency = (\<lambda>(key, name, account_type) s.
     let i = scoped_account_id book_id key in
     s\<lparr>accounts := hm_insert i \<lparr>acc_id = i, acc_book_id = book_id, acc_name = name, acc_account_type = account_type,
         acc_currency = currency, acc_parent_account_id = None, acc_version = 1\<rparr> (accounts s)\<rparr>)"

definition book_request_error :: "create_book_request \<Rightarrow> api_error option" where
  "book_request_error req =
     (let name = trim (cbr_name req) in
      if name = [] \<or> 40 < chars_count name then Some (ApiError 400 ''INVALID_BOOK_NAME'')
      else if length (cbr_currency_code req) \<noteq> 3 \<or> \<not> list_all is_ascii_uppercase (cbr_currency_code req)
      then Some (ApiError 400 ''INVALID_CURRENCY'')
      else None)"

text \<open>The two accounts of a new book are stored without a record in the change log.\<close>

definition create_book :: "web_call \<Rightarrow> string \<Rightarrow> create_book_request \<Rightarrow> memory_store \<Rightarrow> json api_result \<times> memory_store" where
  "create_book c user_id req s =
     (case book_request_error req of Some e \<Rightarrow> (Inl e, s) | None \<Rightarrow>
        let name = trim (cbr_name req);
            book_id = wc_id c;
            s1 = s\<lparr>books := hm_insert book_id \<lparr>bk_id = book_id, bk_name = name, bk_owner_id = user_id\<rparr> (books s)\<rparr> in
        (Inr (json_object [(''id'', JString book_id), (''name'', JString name),
            (''currencyCode'', JString (cbr_currency_code req)), (''role'', JString ''owner'')]),
         fold (new_book_account book_id (cbr_currency_code req))
           [(''acc_cash'', ''Cash'', ''asset''), (''acc_bank'', ''Bank'', ''asset'')] s1))"

subsection \<open>Direct transactions (ledger.rs)\<close>

record entry_dto =
  ed_account_id :: string
  ed_amount_minor :: string
  ed_currency :: string

record create_transaction_request =
  ctr_book_id :: string
  ctr_description :: "string option"
  ctr_entries :: "entry_dto list"

fun parse_drafts :: "entry_dto list \<Rightarrow> entry_draft list api_result" where
  "parse_drafts [] = Inr []"
| "parse_drafts (e # es) =
     (case parse_signed 128 (ed_amount_minor e) of
        None \<Rightarrow> Inl (ApiError 400 ''INVALID_AMOUNT'')
      | Some a \<Rightarrow> map_sum (\<lambda>e. e)
          ((#) \<lparr>draft_account_id = ed_account_id e, draft_amount_minor = a, draft_currency = ed_currency e\<rparr>)
          (parse_drafts es))"

definition ledger_error :: "domain_error \<Rightarrow> api_error" where
  "ledger_error err = (if err = Unbalanced then ApiError 422 ''LEDGER_UNBALANCED'' else ApiError 400 ''LEDGER_INVALID'')"

definition entries_json :: "entry list \<Rightarrow> json" where
  "entries_json es = JArray (map (\<lambda>(a, n, c). JArray [JString a, JInt n, JString c]) es)"

definition create_transaction :: "rfc3339 \<Rightarrow> web_call \<Rightarrow> string \<Rightarrow> create_transaction_request \<Rightarrow> memory_store \<Rightarrow>
    (string \<times> int) api_result \<times> memory_store" where
  "create_transaction rf c user_id req s =
     (case require_book_member s user_id (ctr_book_id req) of Inl e \<Rightarrow> (Inl e, s) | Inr _ \<Rightarrow>
      case parse_drafts (ctr_entries req) of Inl e \<Rightarrow> (Inl e, s) | Inr drafts \<Rightarrow>
      case validate_balanced drafts of Inl err \<Rightarrow> (Inl (ledger_error err), s) | Inr _ \<Rightarrow>
      if \<not> hm_contains (books s) (ctr_book_id req) then (Inl (ApiError 404 ''BOOK_NOT_FOUND''), s)
      else
        let entries = map entry_tuple drafts in
        (Inr (wc_id c, 1),
         put_transaction (wc_second_id c) ''upsert''
           (canonical_transaction_payload rf (json_object [(''description'', json_opt_str (ctr_description req)),
              (''entries'', entries_json entries)]) (wc_now c))
           \<lparr>tx_id = wc_id c, tx_book_id = ctr_book_id req, tx_occurred_at = wc_now c, tx_description = ctr_description req,
            tx_version = 1, tx_deleted = False, tx_entries = entries, tx_source = None,
            tx_source_event_fingerprint = None\<rparr> s))"

subsection \<open>Billing (billing.rs)\<close>

definition dev_upgrade :: "(json \<Rightarrow> string option) \<Rightarrow> bool \<Rightarrow> web_call \<Rightarrow> string \<Rightarrow> string \<Rightarrow> memory_store \<Rightarrow>
    json api_result \<times> memory_store" where
  "dev_upgrade to_vec is_production c user_id plan s =
     (let ev = (\<lambda>outcome key v. with_metadata (json_object [(key, JString v)]) (user_event user_id ''billing.upgrade'' outcome)) in
      if is_production
      then (Inl (ApiError 403 ''DISABLED''), web_audit to_vec c (ev Denied ''reason'' ''production_disabled'') s)
      else if plan \<notin> {''free'', ''plus'', ''family''}
      then (Inl (ApiError 400 ''INVALID_PLAN''), web_audit to_vec c (ev Failure ''reason'' ''invalid_plan'') s)
      else (Inr (json_object [(''plan'', JString plan), (''status'', JString ''active'')]),
        web_audit to_vec c (with_target ''subscription'' user_id (ev Success ''plan'' plan))
          (s\<lparr>subscriptions := hm_insert user_id plan (subscriptions s)\<rparr>)))"

subsection \<open>Invites (commercial.rs)\<close>

record create_invite_request =
  cir_email :: string
  cir_role :: "string option"

definition create_invite :: "(json \<Rightarrow> string option) \<Rightarrow> web_call \<Rightarrow> string \<Rightarrow> string \<Rightarrow> create_invite_request \<Rightarrow>
    memory_store \<Rightarrow> json api_result \<times> memory_store" where
  "create_invite to_vec c user_id book_id req s =
     (case require_book_member s user_id book_id of Inl e \<Rightarrow> (Inl e, s) | Inr _ \<Rightarrow>
      case require_plan s user_id ''family'' of Inl e \<Rightarrow> (Inl e, s) | Inr _ \<Rightarrow>
        let role = (case cir_role req of Some r \<Rightarrow> r | None \<Rightarrow> ''editor'') in
        (Inr (json_object [(''inviteId'', JString (wc_id c)), (''token'', JString (wc_second_id c)),
            (''email'', JString (cir_email req)), (''role'', JString role)]),
         web_audit to_vec c (with_metadata (json_object [(''bookId'', JString book_id), (''role'', JString role)])
             (with_target ''invite'' (wc_id c) (user_event user_id ''invite.create'' Success)))
           (s\<lparr>invites := invites s @ [\<lparr>inv_id = wc_id c, inv_book_id = book_id, inv_email = cir_email req,
              inv_role = role, inv_token = wc_second_id c\<rparr>]\<rparr>)))"

definition list_invites :: "string \<Rightarrow> string \<Rightarrow> memory_store \<Rightarrow> json api_result" where
  "list_invites user_id book_id s =
     (case require_book_member s user_id book_id of Inl e \<Rightarrow> Inl e | Inr _ \<Rightarrow>
      Inr (json_object [(''invites'', JArray (map (\<lambda>i. json_object [(''id'', JString (inv_id i)),
          (''email'', JString (inv_email i)), (''role'', JString (inv_role i)), (''token'', JString (inv_token i))])
        (filter (\<lambda>i. inv_book_id i = book_id) (invites s))))]))"

subsection \<open>Budgets (commercial.rs)\<close>

record create_budget_request =
  cgr_name :: string
  cgr_amount_minor :: string
  cgr_currency :: "string option"
  cgr_category_account_id :: "string option"

definition create_budget :: "web_call \<Rightarrow> string \<Rightarrow> string \<Rightarrow> create_budget_request \<Rightarrow> memory_store \<Rightarrow>
    json api_result \<times> memory_store" where
  "create_budget c user_id book_id req s =
     (case require_book_member s user_id book_id of Inl e \<Rightarrow> (Inl e, s) | Inr _ \<Rightarrow>
      case parse_signed 64 (cgr_amount_minor req) of None \<Rightarrow> (Inl (ApiError 400 ''INVALID_AMOUNT''), s) | Some amount \<Rightarrow>
        let currency = (case cgr_currency req of Some x \<Rightarrow> x | None \<Rightarrow> ''CNY'') in
        (Inr (json_object [(''budgetId'', JString (wc_id c)), (''name'', JString (cgr_name req)),
            (''amountMinor'', JString (int_to_string amount)), (''currency'', JString currency),
            (''categoryAccountId'', json_opt_str (cgr_category_account_id req)), (''spentMinor'', JString ''0''),
            (''remainingMinor'', JString (int_to_string amount))]),
         s\<lparr>budgets := budgets s @ [\<lparr>bud_id = wc_id c, bud_book_id = book_id, bud_name = cgr_name req,
            bud_amount_minor = amount, bud_currency = currency, bud_category_account_id = cgr_category_account_id req\<rparr>]\<rparr>))"

definition is_same_month :: "calendar \<Rightarrow> timestamp \<Rightarrow> timestamp \<Rightarrow> bool" where
  "is_same_month cal t reference \<longleftrightarrow>
     cal_year cal t = cal_year cal reference \<and> cal_month cal t = cal_month cal reference"

definition month_spent_for_account :: "calendar \<Rightarrow> timestamp \<Rightarrow> memory_store \<Rightarrow> string \<Rightarrow> string \<Rightarrow> int" where
  "month_spent_for_account cal now s book_id account_id =
     fold (\<lambda>tx acc.
       if tx_book_id tx \<noteq> book_id \<or> tx_deleted tx \<or> \<not> is_same_month cal (tx_occurred_at tx) now then acc
       else fold (\<lambda>(a, amount, _) acc. if a = account_id then i64_add acc amount else acc) (tx_entries tx) acc)
     (hm_values (transactions s)) 0"

definition budget_entry :: "calendar \<Rightarrow> timestamp \<Rightarrow> memory_store \<Rightarrow> string \<Rightarrow> budget_record \<Rightarrow> json" where
  "budget_entry cal now s book_id b =
     (let spent = (case bud_category_account_id b of Some cat \<Rightarrow> month_spent_for_account cal now s book_id cat | None \<Rightarrow> 0) in
      json_object [(''id'', JString (bud_id b)), (''name'', JString (bud_name b)),
        (''amountMinor'', JString (int_to_string (bud_amount_minor b))), (''currency'', JString (bud_currency b)),
        (''categoryAccountId'', json_opt_str (bud_category_account_id b)), (''spentMinor'', JString (int_to_string spent)),
        (''remainingMinor'', JString (int_to_string (i64_sub (bud_amount_minor b) spent)))])"

definition list_budgets :: "calendar \<Rightarrow> timestamp \<Rightarrow> string \<Rightarrow> string \<Rightarrow> memory_store \<Rightarrow> json api_result" where
  "list_budgets cal now user_id book_id s =
     (case require_book_member s user_id book_id of Inl e \<Rightarrow> Inl e | Inr _ \<Rightarrow>
      Inr (json_object [(''budgets'', JArray (map (budget_entry cal now s book_id)
        (filter (\<lambda>b. bud_book_id b = book_id) (budgets s))))]))"

subsection \<open>Recurring rules (commercial.rs)\<close>

text \<open>Without a database a rule is answered and not stored, and the list is empty.\<close>

definition create_recurring :: "web_call \<Rightarrow> string \<Rightarrow> string \<Rightarrow> string \<Rightarrow> memory_store \<Rightarrow> json api_result" where
  "create_recurring c user_id book_id name s =
     (case require_book_member s user_id book_id of Inl e \<Rightarrow> Inl e | Inr _ \<Rightarrow>
      Inr (json_object [(''recurringId'', JString (wc_id c)), (''name'', JString name)]))"

definition list_recurring :: "string \<Rightarrow> string \<Rightarrow> memory_store \<Rightarrow> json api_result" where
  "list_recurring user_id book_id s =
     (case require_book_member s user_id book_id of Inl e \<Rightarrow> Inl e | Inr _ \<Rightarrow>
      Inr (json_object [(''rules'', JArray [])]))"

end
