(* ===== verification/Server.thy ===== *)
theory Server
  imports Books Auth_Laws Attachment_Laws
begin

section \<open>The in-memory server as a whole\<close>

text \<open>
  Every request that changes the in-memory store, of any component, as one step relation, and the
  invariant of the ledger that all of them share: the change log is numbered without gaps, every
  stored transaction is balanced, and its versions are exactly those the log records.
\<close>

definition ledger_inv :: "memory_store \<Rightarrow> bool" where
  "ledger_inv s \<longleftrightarrow> log_ok s \<and> tx_map_ok (transactions s) \<and> tx_history s"

text \<open>
  A fresh transaction id is a UUID that is not in use; the number of entries in a request is below
  \<open>2 ^ 63\<close> (\<open>payload_fits\<close> for a push). \<open>env\<close>, \<open>ops\<close>, \<open>cf\<close> and \<open>rf\<close> are what the handlers take from
  configuration, object store and libraries.
\<close>

inductive server_step :: "auth_env \<Rightarrow> 'o store_ops \<Rightarrow> att_config \<Rightarrow> rfc3339 \<Rightarrow> memory_store \<Rightarrow> memory_store \<Rightarrow> bool"
  for env ops cf rf where
  sv_push: "list_all payload_fits (push_mutations preq) \<Longrightarrow> server_step env ops cf rf s (snd (push_mem rf calls b preq s))"
| sv_register: "server_step env ops cf rf s (snd (register env ac rreq s))"
| sv_login: "server_step env ops cf rf s (snd (login env ac lreq s))"
| sv_refresh: "server_step env ops cf rf s (snd (refresh env ac jar freq s))"
| sv_logout: "server_step env ops cf rf s (snd (logout env ac au s))"
| sv_book: "server_step env ops cf rf s (snd (create_book c u breq s))"
| sv_transaction: "hm_get (transactions s) (wc_id c) = None \<Longrightarrow> length (ctr_entries treq) < 2 ^ 63 \<Longrightarrow>
    server_step env ops cf rf s (snd (create_transaction rf c u treq s))"
| sv_upgrade: "server_step env ops cf rf s (snd (dev_upgrade to_vec production c u plan s))"
| sv_invite: "server_step env ops cf rf s (snd (create_invite to_vec c u b ireq s))"
| sv_budget: "server_step env ops cf rf s (snd (create_budget c u b greq s))"
| sv_rate: "server_step env ops cf rf s (snd (upsert_fx u b xreq s))"
| sv_session: "server_step env ops cf rf s (fst (snd (create_upload_session ops cf tc u b ureq (s, ob))))"
| sv_part: "server_step env ops cf rf s (fst (snd (upload_multipart_part ops u b a n body (s, ob))))"
| sv_direct_part: "server_step env ops cf rf s (fst (snd (complete_multipart_part ops u b a n part_id (s, ob))))"
| sv_abort: "server_step env ops cf rf s (fst (snd (abort_multipart_upload ops cf tc u b a (s, ob))))"
| sv_delete: "server_step env ops cf rf s (fst (snd (delete_attachment ops cf tc u b a (s, ob))))"
| sv_complete: "server_step env ops cf rf s (fst (snd (complete_attachment ops cf tc u b a (s, ob))))"

subsection \<open>Elementary changes\<close>

lemma ledger_inv_cong: "ledger_inv s \<Longrightarrow> transactions s' = transactions s \<Longrightarrow> changes s' = changes s \<Longrightarrow> ledger_inv s'"
  by (simp add: ledger_inv_def log_ok_def tx_history_def entity_changes_def)

lemma ledger_inv_empty: "ledger_inv empty_store"
  by (simp add: ledger_inv_def log_ok_def tx_map_ok_def tx_history_def entity_changes_def empty_store_def)

lemma ledger_inv_transaction:
  assumes "ledger_inv s" and "tx_ok (tx_id t) t"
    and "tx_version t = next_version tx_version (hm_get (transactions s) (tx_id t))"
  shows "ledger_inv (put_transaction c p j t s)"
proof -
  have "0 \<le> tx_version x" if "hm_get (transactions s) i = Some x" for i x
    using assms(1) that by (force simp: ledger_inv_def tx_map_ok_iff tx_ok_def)
  then have "tx_history (put_transaction c p j t s)"
    using assms(1,3)
    by (auto simp: ledger_inv_def tx_history_def put_transaction_def next_version_def versions_upto_Suc split: option.splits)
  then show ?thesis
    using assms(1,2) by (simp add: ledger_inv_def tx_map_ok_insert) (simp add: put_transaction_def push_change_log_ok)
qed

lemma ledger_inv_other_change:
  assumes "ledger_inv s" and "transactions s' = transactions s" and "ty \<noteq> ''transaction''"
    and "changes s' = changes (push_change b c ty i p v j s)"
  shows "ledger_inv s'"
proof -
  have "ledger_inv (push_change b c ty i p v j s)"
    using assms(1,3) by (simp add: ledger_inv_def tx_history_def push_change_log_ok)
  then show ?thesis by (rule ledger_inv_cong) (use assms in simp_all)
qed

lemma ledger_inv_seed: "ledger_inv s \<Longrightarrow> ledger_inv (seed_accounts_mem s b)"
proof -
  have "ledger_inv (seed_account b d s)" if "ledger_inv s" for d s
  proof (cases "seed_account b d s = s")
    case False
    obtain key name ty parent where d: "d = (key, name, ty, parent)" by (cases d) auto
    show ?thesis
      by (rule ledger_inv_other_change [OF that, where ty = "''account''"])
        (use False in \<open>auto simp: d seed_account_def Let_def push_change_def\<close>)
  qed (use that in simp)
  then have "ledger_inv s \<Longrightarrow> ledger_inv (fold (seed_account b) ds s)" for ds
    by (induction ds arbitrary: s) simp_all
  then show "ledger_inv s \<Longrightarrow> ?thesis" by (simp add: seed_accounts_mem_def)
qed

lemma ledger_inv_demo_book: "ledger_inv s \<Longrightarrow> ledger_inv (snd (ensure_demo_book i s u))"
  by (auto simp: ensure_demo_book_def split: option.split intro!: ledger_inv_seed elim: ledger_inv_cong)

lemma record_memory_ledger [simp]:
  "transactions (record_memory to_vec st ev s) = transactions s" "changes (record_memory to_vec st ev s) = changes s"
  by (simp_all add: record_memory_def Let_def split: option.split)

lemma ledger_inv_audits [simp]:
  "ledger_inv (record_memory to_vec st ev s) = ledger_inv s"
  "ledger_inv (audit env ac ev s) = ledger_inv s"
  "ledger_inv (web_audit to_vec c ev s) = ledger_inv s"
  "ledger_inv (att_audit cf tc ev s) = ledger_inv s"
proof -
  show r: "ledger_inv (record_memory to_vec st ev s) = ledger_inv s" for to_vec st ev s
    using ledger_inv_cong [of s "record_memory to_vec st ev s"] ledger_inv_cong [of "record_memory to_vec st ev s" s] by auto
  show "ledger_inv (audit env ac ev s) = ledger_inv s" "ledger_inv (web_audit to_vec c ev s) = ledger_inv s"
    "ledger_inv (att_audit cf tc ev s) = ledger_inv s"
    by (simp_all add: audit_def web_audit_def att_audit_def r)
qed

lemma ledger_inv_fields [simp]:
  "ledger_inv (s\<lparr>users_by_email := a, users := b\<rparr>) = ledger_inv s"
  "ledger_inv (s\<lparr>sessions := d\<rparr>) = ledger_inv s"
  "ledger_inv (s\<lparr>refresh_to_session := e\<rparr>) = ledger_inv s"
  "ledger_inv (s\<lparr>sessions := d, refresh_to_session := e, subscriptions := f\<rparr>) = ledger_inv s"
  "ledger_inv (s\<lparr>subscriptions := f\<rparr>) = ledger_inv s"
  "ledger_inv (s\<lparr>invites := g\<rparr>) = ledger_inv s"
  "ledger_inv (s\<lparr>budgets := h\<rparr>) = ledger_inv s"
  "ledger_inv (s\<lparr>fx_rates := i\<rparr>) = ledger_inv s"
  "ledger_inv (s\<lparr>attachments := j\<rparr>) = ledger_inv s"
  "ledger_inv (s\<lparr>books := k\<rparr>) = ledger_inv s"
  "ledger_inv (s\<lparr>accounts := l\<rparr>) = ledger_inv s"
  "ledger_inv (s\<lparr>mutations := m\<rparr>) = ledger_inv s"
  by (simp_all add: ledger_inv_def log_ok_def tx_history_def entity_changes_def)

lemma ledger_inv_revoke [simp]: "ledger_inv (revoke_session i s) = ledger_inv s"
  by (simp add: revoke_session_def split: option.split)

subsection \<open>Every request keeps the ledger\<close>

lemma process_account_ledger:
  assumes "ledger_inv s"
  shows "ledger_inv (snd (process_account_mutation_mem c b m s))"
proof (cases "parse_account_payload b m")
  case (Inr p)
  let ?r = "if mut_operation m = ''create'' then create_account_mem b m p s else update_account_mem b m p s"
  have *: "\<exists>a. s1 = s\<lparr>accounts := a\<rparr>" if "?r = Inr (s1, v)" for s1 v
    using that by (auto simp: create_account_mem_def update_account_mem_def Let_def split: option.splits if_splits)
  show ?thesis
  proof (cases ?r)
    case r: (Inr q)
    obtain s1 v ty cur par where q: "q = (s1, v, ty, cur, par)" by (metis prod.exhaust)
    then obtain a where s1: "s1 = s\<lparr>accounts := a\<rparr>" using * r by blast
    have "ledger_inv (push_change b (call_new_id c) ''account'' (mut_entity_id m) ''upsert'' v
        (account_payload_json (ap_name p) ty cur par) s1)"
      by (rule ledger_inv_other_change [OF assms, where ty = "''account''"]) (auto simp: s1 push_change_def next_sequence_def)
    then show ?thesis using r Inr q by (simp add: process_account_mutation_mem_def)
  qed (use assms Inr in \<open>simp add: process_account_mutation_mem_def\<close>)
qed (use assms in \<open>simp add: process_account_mutation_mem_def\<close>)

lemma process_mutation_ledger:
  assumes "ledger_inv s" and "payload_fits m"
  shows "ledger_inv (snd (process_mutation_mem rf c b m s))"
proof -
  have ok: "tx_map_ok (transactions s)" using assms(1) by (simp add: ledger_inv_def)
  have delete: "ledger_inv (snd (process_delete_mem c b m s))"
  proof -
    obtain r s' where eq: "process_delete_mem c b m s = (r, s')" by fastforce
    consider "s' = s" | e where "hm_get (transactions s) (mut_entity_id m) = Some e"
        "s' = put_transaction (call_new_id c) ''delete'' (mut_payload m) (e\<lparr>tx_deleted := True, tx_version := tx_version e + 1\<rparr>) s"
      using process_delete_outcome [OF ok eq] by blast
    then show ?thesis
    proof cases
      case (2 e)
      have "tx_ok (mut_entity_id m) e" using ok 2(1) by (auto simp: tx_map_ok_iff)
      then show ?thesis
        using assms(1) 2(1) unfolding eq snd_conv 2(2)
        by (intro ledger_inv_transaction) (auto simp: tx_ok_def next_version_def)
    qed (use assms(1) eq in simp)
  qed
  have upsert: "ledger_inv (snd (process_upsert_mem rf c b m requested drafts s))"
    if p: "parse_entries m = Inr drafts" "validate_balanced drafts = Inr ()" for requested drafts
  proof -
    let ?e = "hm_get (transactions s) (mut_entity_id m)"
    let ?t = "upsert_record_mem c b m ?e requested drafts"
    obtain r s' where eq: "process_upsert_mem rf c b m requested drafts s = (r, s')" by fastforce
    have t: "tx_ok (mut_entity_id m) ?t" by (rule upsert_record_ok [OF p assms(2) ok])
    have "ledger_inv (put_transaction (call_new_id c) ''upsert'' (upsert_payload_mem rf m ?e (tx_occurred_at ?t)) ?t s)"
      using t assms(1)
      by (intro ledger_inv_transaction) (auto simp: tx_ok_def next_version_def upsert_record_mem_def split: option.split)
    then show ?thesis using process_upsert_outcome [OF eq] assms(1) by (auto simp: eq Let_def)
  qed
  have "validate_balanced drafts = Inr ()" if "validate_or_reject m drafts = None" "mut_operation m \<noteq> ''delete''" for drafts
    using that by (rule validate_or_reject_None(3))
  then show ?thesis
    using assms(1) process_account_ledger [OF assms(1)] delete upsert
    by (simp add: process_mutation_mem_def split: sum.split option.split)
qed

lemma push_ledger:
  assumes "ledger_inv s" and "list_all payload_fits (push_mutations req)"
  shows "ledger_inv (snd (push_mem rf calls b req s))"
  unfolding push_mem_def
proof (rule push_loop_inv [where P = ledger_inv and Q = "\<lambda>(b, d, m). payload_fits m"])
  show "ledger_inv (snd (push_step_mem rf c x s))"
    if "ledger_inv s" and "case x of (b, d, m) \<Rightarrow> payload_fits m" for c x s
    using that process_mutation_ledger [of s] by (cases x) (simp add: push_step_snd split: option.split)
  show "case x of (b, d, m) \<Rightarrow> payload_fits m"
    if "x \<in> set (map (\<lambda>m. (b, push_device_id req, m)) (push_mutations req))" for x
    using that assms(2) by (auto simp: list_all_iff)
qed (rule assms(1))

lemma grant_ledger: "ledger_inv s \<Longrightarrow> ledger_inv (snd (grant env ac action u d s))"
  using ledger_inv_demo_book [of s "ac_book_id ac" u]
  by (auto simp: grant_def issue_tokens_def Let_def split: prod.splits sum.splits)

lemma auth_ledger:
  assumes "ledger_inv s"
  shows "ledger_inv (snd (register env ac rreq s))" and "ledger_inv (snd (login env ac lreq s))"
    and "ledger_inv (snd (refresh env ac jar freq s))" and "ledger_inv (snd (logout env ac au s))"
proof -
  show "ledger_inv (snd (register env ac rreq s))"
    using assms by (simp add: register_def Let_def split: sum.split option.split)
  show "ledger_inv (snd (login env ac lreq s))"
    using assms by (auto simp: login_def Let_def grant_ledger split: sum.split option.split)
  have "ledger_inv (snd (rotate_refresh_token env ac h s))" for h
    using assms by (auto simp: rotate_refresh_token_def Let_def grant_ledger split: option.split)
  then show "ledger_inv (snd (refresh env ac jar freq s))"
    using assms by (auto simp: refresh_def split: sum.split)
  show "ledger_inv (snd (logout env ac au s))" using assms by (simp add: logout_def)
qed

lemma create_transaction_ledger:
  assumes "ledger_inv s" and "hm_get (transactions s) (wc_id c) = None" and "length (ctr_entries req) < 2 ^ 63"
  shows "ledger_inv (snd (create_transaction rf c u req s))"
proof -
  have len: "length ds = length es" if "parse_drafts es = Inr ds" for es ds
    using that by (induction es arbitrary: ds) (auto split: option.splits elim!: map_sum_InrE)
  have "entries_ok (map entry_tuple drafts)"
    if "parse_drafts (ctr_entries req) = Inr drafts" "validate_balanced drafts = Inr ()" for drafts
    using that len [OF that(1)] assms(3) by (intro entries_ok_drafts) (simp add: validate_balanced_ok_spec)
  then show ?thesis
    using assms(1,2) unfolding create_transaction_def
    by (auto simp: Let_def tx_ok_def next_version_def intro!: ledger_inv_transaction split: sum.splits)
qed

lemma web_ledger:
  assumes "ledger_inv s"
  shows "ledger_inv (snd (create_book c u breq s))" and "ledger_inv (snd (dev_upgrade to_vec production c u plan s))"
    and "ledger_inv (snd (create_invite to_vec c u b ireq s))" and "ledger_inv (snd (create_budget c u b greq s))"
    and "ledger_inv (snd (upsert_fx u b xreq s))"
  using assms
  by (simp_all add: create_book_def new_book_account_def dev_upgrade_def create_invite_def create_budget_def
      upsert_fx_def Let_def split: sum.split option.split)

lemma attachment_ledger:
  assumes "ledger_inv s"
  shows "ledger_inv (fst (snd (create_upload_session ops cf tc u b ureq (s, ob))))"
    and "ledger_inv (fst (snd (upload_multipart_part ops u b a n body (s, ob))))"
    and "ledger_inv (fst (snd (complete_multipart_part ops u b a n part_id (s, ob))))"
    and "ledger_inv (fst (snd (abort_multipart_upload ops cf tc u b a (s, ob))))"
    and "ledger_inv (fst (snd (delete_attachment ops cf tc u b a (s, ob))))"
    and "ledger_inv (fst (snd (complete_attachment ops cf tc u b a (s, ob))))"
proof -
  have upd: "ledger_inv (update_attachment b a f s) = ledger_inv s" "ledger_inv (remove_attachment b a s) = ledger_inv s" for b a f s
    by (simp_all add: update_attachment_def remove_attachment_def)
  show "ledger_inv (fst (snd (create_upload_session ops cf tc u b ureq (s, ob))))"
    using assms unfolding create_upload_session_def by (auto simp: Let_def split: sum.split option.split prod.split)
  show "ledger_inv (fst (snd (upload_multipart_part ops u b a n body (s, ob))))"
    using assms unfolding upload_multipart_part_def by (auto simp: Let_def upd split: sum.split option.split prod.split)
  show "ledger_inv (fst (snd (complete_multipart_part ops u b a n part_id (s, ob))))"
    using assms unfolding complete_multipart_part_def by (auto simp: Let_def upd split: sum.split option.split prod.split)
  show "ledger_inv (fst (snd (abort_multipart_upload ops cf tc u b a (s, ob))))"
    using assms unfolding abort_multipart_upload_def by (auto simp: upd split: sum.split option.split prod.split)
  show "ledger_inv (fst (snd (delete_attachment ops cf tc u b a (s, ob))))"
    using assms unfolding delete_attachment_def by (auto simp: upd split: sum.split option.split prod.split)
  have "ledger_inv s1" if "assemble ops cf tc u b r (s, ob) = (x, s1, ob1)" for r x s1 ob1
    using that assms by (auto simp: assemble_def complete_failure_def split: sum.splits option.splits prod.splits if_splits)
  moreover have "ledger_inv s2" if "verify_upload ops cf tc u b r (s1, ob1) = (x, s2, ob2)" "ledger_inv s1" for r x s1 s2 ob1 ob2
    using that by (auto simp: verify_upload_def complete_failure_def reject_attachment_upload_def mark_attachment_failed_def upd Let_def
        split: sum.splits option.splits prod.splits if_splits)
  ultimately show "ledger_inv (fst (snd (complete_attachment ops cf tc u b a (s, ob))))"
    using assms unfolding complete_attachment_def
    by (auto simp: Let_def upd split: sum.splits option.splits prod.splits)
qed

text \<open>
  C8. The whole in-memory server: starting from the empty store, after any sequence of requests to any
  of its handlers, with any object store and configuration, every stored transaction is balanced in
  one currency, the change log is numbered from one without gaps, and for every transaction the log
  holds exactly the versions one to its current version.
\<close>
theorem server_ledger_reachable:
  assumes "(server_step env ops cf rf)\<^sup>*\<^sup>* empty_store s"
  shows "ledger_inv s"
  using assms
proof (induction rule: rtranclp_induct)
  case base
  show ?case by (rule ledger_inv_empty)
next
  case (step s s')
  from step(2,3) show ?case
    by cases (simp_all add: push_ledger auth_ledger create_transaction_ledger web_ledger attachment_ledger)
qed

subsection \<open>Witness\<close>

text \<open>A user creates a book and records a transfer between its two accounts.\<close>

definition ex_web_call :: "string \<Rightarrow> web_call" where
  "ex_web_call i = \<lparr>wc_id = i, wc_second_id = ''c1'', wc_now = 0, wc_stamp = (''a1'', 0), wc_request_id = None\<rparr>"

definition ex_book :: memory_store where
  "ex_book = snd (create_book (ex_web_call ''b1'') ''u1'' \<lparr>cbr_name = ''Home'', cbr_currency_code = ''CNY''\<rparr> empty_store)"

definition ex_transfer :: create_transaction_request where
  "ex_transfer = \<lparr>ctr_book_id = ''b1'', ctr_description = None,
     ctr_entries = [\<lparr>ed_account_id = ''b1:acc_cash'', ed_amount_minor = ''5'', ed_currency = ''CNY''\<rparr>,
       \<lparr>ed_account_id = ''b1:acc_bank'', ed_amount_minor = ''-5'', ed_currency = ''CNY''\<rparr>]\<rparr>"

theorem server_ledger_reachable_witness:
  "\<exists>s t. (server_step ex_auth_env ex_ops ex_cf ex_rf)\<^sup>*\<^sup>* empty_store s \<and> ledger_inv s \<and>
     hm_get (transactions s) ''t1'' = Some t \<and> length (tx_entries t) = 2"
proof -
  let ?s = "snd (create_transaction ex_rf (ex_web_call ''t1'') ''u1'' ex_transfer ex_book)"
  have "transactions ex_book = []"
    by (simp add: ex_book_def create_book_def new_book_account_def Let_def empty_store_def split: option.split)
  then have "server_step ex_auth_env ex_ops ex_cf ex_rf ex_book ?s"
    by (intro sv_transaction) (simp_all add: hm_get_def ex_transfer_def)
  moreover have "server_step ex_auth_env ex_ops ex_cf ex_rf empty_store ex_book"
    unfolding ex_book_def by (rule sv_book)
  ultimately have run: "(server_step ex_auth_env ex_ops ex_cf ex_rf)\<^sup>*\<^sup>* empty_store ?s"
    by (meson converse_rtranclp_into_rtranclp r_into_rtranclp)
  moreover have "map_option (\<lambda>t. length (tx_entries t)) (hm_get (transactions ?s) ''t1'') = Some 2"
    by code_simp
  ultimately show ?thesis using server_ledger_reachable [OF run] by auto
qed

end
