(* ===== verification/Job_Queue.thy ===== *)
theory Job_Queue
  imports Pg_Store "HOL-Library.Product_Lexorder"
begin

section \<open>The job queue (infrastructure/jobs.rs)\<close>

text \<open>
  The table of background jobs: workers claim due jobs, execute them and record the outcome, any number of
  them at the same time. \<open>locked\<close> are the rows that other transactions hold while a claim
  runs, which \<open>SKIP LOCKED\<close> passes over. The clock of the database and fresh ids are arguments.
\<close>

record claimed_job =
  cj_id :: string
  cj_job_type :: string
  cj_payload :: json
  cj_attempts :: int
  cj_max_attempts :: int

definition job_order :: "job_row \<Rightarrow> int \<times> timestamp \<times> string" where
  "job_order j = (- jb_priority j, jb_run_at j, jb_id j)"

definition job_due :: "timestamp \<Rightarrow> string set \<Rightarrow> job_row \<Rightarrow> bool" where
  "job_due now locked j \<longleftrightarrow> jb_status j = ''pending'' \<and> jb_run_at j \<le> now \<and> jb_id j \<notin> locked"

definition due_jobs :: "timestamp \<Rightarrow> string set \<Rightarrow> nat \<Rightarrow> pg \<Rightarrow> job_row list" where
  "due_jobs now locked limit s = take limit (sort_key job_order (filter (job_due now locked) (pg_jobs s)))"

definition update_job :: "string \<Rightarrow> (job_row \<Rightarrow> job_row) \<Rightarrow> unit sql" where
  "update_job i f = sql_modify (\<lambda>_. None)
     (\<lambda>s. s\<lparr>pg_jobs := map (\<lambda>j. if jb_id j = i then f j else j) (pg_jobs s)\<rparr>)"

definition claim_row :: "timestamp \<Rightarrow> string \<Rightarrow> job_row \<Rightarrow> job_row" where
  "claim_row now worker_id j = j\<lparr>jb_status := ''running'', jb_locked_by := Some worker_id, jb_locked_at := Some now,
     jb_attempts := jb_attempts j + 1\<rparr>"

definition claimed_of :: "job_row \<Rightarrow> claimed_job" where
  "claimed_of j = \<lparr>cj_id = jb_id j, cj_job_type = jb_job_type j, cj_payload = jb_payload j,
     cj_attempts = jb_attempts j + 1, cj_max_attempts = jb_max_attempts j\<rparr>"

definition claim_jobs :: "timestamp \<Rightarrow> string set \<Rightarrow> string \<Rightarrow> nat \<Rightarrow> claimed_job list sql" where
  "claim_jobs now locked worker_id limit =
     sql_bind (sql_get (due_jobs now locked limit)) (\<lambda>rows.
     sql_bind (sql_mapM (\<lambda>j. update_job (jb_id j) (claim_row now worker_id)) rows) (\<lambda>_.
     sql_return (map claimed_of rows)))"

definition complete_job :: "timestamp \<Rightarrow> string \<Rightarrow> unit sql" where
  "complete_job now i = update_job i (\<lambda>j. j\<lparr>jb_status := ''completed'', jb_completed_at := Some now,
     jb_locked_by := None, jb_locked_at := None\<rparr>)"

text \<open>A timestamp counts nanoseconds; the delay is taken from the attempts of the row.\<close>

definition retry_delay :: "int \<Rightarrow> int" where
  "retry_delay attempts = 1000000000 * 2 ^ nat (min attempts 8)"

definition fail_job :: "timestamp \<Rightarrow> claimed_job \<Rightarrow> string \<Rightarrow> unit sql" where
  "fail_job now job err =
     (let status = (if cj_max_attempts job \<le> cj_attempts job then ''dead'' else ''pending'') in
      update_job (cj_id job) (\<lambda>j. j\<lparr>jb_status := status, jb_last_error := Some err, jb_locked_by := None,
        jb_locked_at := None, jb_run_at := now + retry_delay (jb_attempts j)\<rparr>))"

text \<open>The columns that an \<open>INSERT\<close> does not name take their defaults (migrations/002).\<close>

definition new_job :: "string \<Rightarrow> string \<Rightarrow> json \<Rightarrow> int \<Rightarrow> timestamp \<Rightarrow> job_row" where
  "new_job i job_type payload priority run_at =
     \<lparr>jb_id = i, jb_job_type = job_type, jb_payload = payload, jb_status = ''pending'', jb_priority = priority,
      jb_run_at = run_at, jb_attempts = 0, jb_max_attempts = 5, jb_locked_by = None, jb_locked_at = None,
      jb_last_error = None, jb_completed_at = None\<rparr>"

definition insert_job :: "job_row \<Rightarrow> unit sql" where
  "insert_job j = sql_modify
     (\<lambda>s. if jb_id j \<in> set (map jb_id (pg_jobs s)) then Some UniqueViolation else None)
     (\<lambda>s. s\<lparr>pg_jobs := pg_jobs s @ [j]\<rparr>)"

definition enqueue_at :: "string \<Rightarrow> string \<Rightarrow> json \<Rightarrow> int \<Rightarrow> timestamp \<Rightarrow> string sql" where
  "enqueue_at i job_type payload priority run_at =
     sql_bind (insert_job (new_job i job_type payload priority run_at)) (\<lambda>_. sql_return i)"

definition enqueue :: "string \<Rightarrow> timestamp \<Rightarrow> string \<Rightarrow> json \<Rightarrow> int \<Rightarrow> string sql" where
  "enqueue i now job_type payload priority = enqueue_at i job_type payload priority now"

definition enqueue_if_absent :: "string \<Rightarrow> timestamp \<Rightarrow> string \<Rightarrow> json \<Rightarrow> string option sql" where
  "enqueue_if_absent i now job_type payload =
     sql_bind (sql_get (\<lambda>s. list_ex (\<lambda>j. jb_job_type j = job_type \<and> jb_status j \<in> {''pending'', ''running''}) (pg_jobs s)))
       (\<lambda>exists. if exists then sql_return None
         else sql_bind (insert_job (new_job i job_type payload 0 now)) (\<lambda>_. sql_return (Some i)))"

subsection \<open>Workers\<close>

text \<open>
  The database with what each worker has in hand: the jobs it claimed and has not yet settled
  (\<open>run_worker\<close>). A worker claims with empty hands, at most ten jobs, and settles them in order; the
  result of the settling statement is ignored, so the worker goes on whatever its fate. A failed
  claim ends the worker, also when only the reply of its commit was lost; a crash drops
  what is in hand. Every other request leaves the table of jobs as it is.
\<close>

type_synonym workers = "pg \<times> (string \<Rightarrow> claimed_job list)"

inductive job_step :: "workers \<Rightarrow> workers \<Rightarrow> bool" where
  js_enqueue: "in_tx fate (enqueue_at i ty payload priority t) s = (r, s') \<Longrightarrow> job_step (s, h) (s', h)"
| js_enqueue_if_absent: "in_tx fate (enqueue_if_absent i now ty payload) s = (r', s') \<Longrightarrow> job_step (s, h) (s', h)"
| js_claim: "h w = [] \<Longrightarrow> in_tx fate (claim_jobs now locked w 10) s = (Inr js, s') \<Longrightarrow> job_step (s, h) (s', h(w := js))"
| js_claim_failed: "h w = [] \<Longrightarrow> in_tx fate (claim_jobs now locked w 10) s = (Inl e, s') \<Longrightarrow> job_step (s, h) (s', h)"
| js_success: "h w = j # js \<Longrightarrow> in_tx fate (complete_job now (cj_id j)) s = (r'', s') \<Longrightarrow> job_step (s, h) (s', h(w := js))"
| js_failure: "h w = j # js \<Longrightarrow> in_tx fate (fail_job now j err) s = (r'', s') \<Longrightarrow> job_step (s, h) (s', h(w := js))"
| js_crash: "job_step (s, h) (s, h(w := []))"
| js_other: "pg_jobs s' = pg_jobs s \<Longrightarrow> job_step (s, h) (s', h)"

definition job_ok :: "job_row \<Rightarrow> bool" where
  "job_ok j \<longleftrightarrow> jb_max_attempts j = 5 \<and> 0 \<le> jb_attempts j \<and>
     (jb_status j = ''pending'' \<and> jb_attempts j < 5 \<and> jb_locked_by j = None \<or>
      jb_status j = ''running'' \<and> 1 \<le> jb_attempts j \<and> jb_attempts j \<le> 5 \<and> jb_locked_by j \<noteq> None \<or>
      jb_status j = ''completed'' \<and> jb_attempts j \<le> 5 \<and> jb_locked_by j = None \<or>
      jb_status j = ''dead'' \<and> jb_attempts j = 5 \<and> jb_locked_by j = None)"

definition in_hand :: "pg \<Rightarrow> string \<Rightarrow> claimed_job \<Rightarrow> bool" where
  "in_hand s w c \<longleftrightarrow> (\<exists>j \<in> set (pg_jobs s). jb_id j = cj_id c \<and> jb_status j = ''running'' \<and> jb_locked_by j = Some w \<and>
     jb_attempts j = cj_attempts c \<and> jb_max_attempts j = cj_max_attempts c)"

definition job_inv :: "workers \<Rightarrow> bool" where
  "job_inv x \<longleftrightarrow> (case x of (s, h) \<Rightarrow>
     distinct (map jb_id (pg_jobs s)) \<and> list_all job_ok (pg_jobs s) \<and>
     (\<forall>w. distinct (map cj_id (h w)) \<and> list_all (in_hand s w) (h w)))"

subsection \<open>Claims\<close>

lemma update_job_Inr [simp]:
  "update_job i f s = (Inr (), s\<lparr>pg_jobs := map (\<lambda>j. if jb_id j = i then f j else j) (pg_jobs s)\<rparr>)"
  by (simp add: update_job_def sql_modify_def)

lemma claim_rows_Inr:
  assumes "distinct (map jb_id rows)" and "\<And>j. jb_id (f j) = jb_id j"
  shows "sql_mapM (\<lambda>j. update_job (jb_id j) f) rows s =
    (Inr (), s\<lparr>pg_jobs := map (\<lambda>j. if jb_id j \<in> set (map jb_id rows) then f j else j) (pg_jobs s)\<rparr>)"
  using assms(1)
proof (induction rows arbitrary: s)
  case (Cons r rows)
  then show ?case by (auto simp: sql_bind_def assms(2))
qed simp

lemma distinct_due_jobs:
  assumes "distinct (map jb_id (pg_jobs s))"
  shows "distinct (map jb_id (due_jobs now locked limit s))"
proof -
  have "distinct (map jb_id (sort_key job_order (filter P (pg_jobs s))))" for P
    using assms by (simp add: distinct_map inj_on_def)
  then show ?thesis by (simp add: due_jobs_def flip: take_map)
qed

lemma set_due_jobs: "j \<in> set (due_jobs now locked limit s) \<Longrightarrow> j \<in> set (pg_jobs s) \<and> job_due now locked j"
  by (auto simp: due_jobs_def dest!: in_set_takeD)

lemma claim_jobs_Inr:
  assumes "distinct (map jb_id (pg_jobs s))"
  shows "claim_jobs now locked w limit s = (Inr (map claimed_of (due_jobs now locked limit s)),
    s\<lparr>pg_jobs := map (\<lambda>j. if jb_id j \<in> set (map jb_id (due_jobs now locked limit s)) then claim_row now w j else j) (pg_jobs s)\<rparr>)"
  by (simp add: claim_jobs_def sql_bind_def claim_rows_Inr [OF distinct_due_jobs [OF assms]] claim_row_def)

lemma job_row_unique:
  assumes "distinct (map jb_id (pg_jobs s))" and "j \<in> set (pg_jobs s)" and "k \<in> set (pg_jobs s)" and "jb_id j = jb_id k"
  shows "j = k"
  using assms by (auto simp: distinct_map inj_on_def)

text \<open>The rows a claim takes are those whose ids it returns.\<close>

lemma due_job_iff:
  assumes "distinct (map jb_id (pg_jobs s))" and "j \<in> set (pg_jobs s)"
  shows "jb_id j \<in> set (map jb_id (due_jobs now locked limit s)) \<longleftrightarrow> j \<in> set (due_jobs now locked limit s)"
  using assms by (auto dest: set_due_jobs job_row_unique)

subsection \<open>The invariant\<close>

lemma in_tx_jobs:
  assumes "in_tx fate m s = (r, s')"
  shows "pg_jobs s' = pg_jobs s \<and> isl r \<or> (\<exists>x. m s = (Inr x, s'))"
  using assms by (cases rule: in_tx_cases) auto

lemma job_inv_cong: "pg_jobs s' = pg_jobs s \<Longrightarrow> job_inv (s', h) = job_inv (s, h)"
  by (simp add: job_inv_def in_hand_def list_all_iff)

lemma job_inv_drop:
  assumes "job_inv (s, h)" and "set js \<subseteq> set (h w)" and "distinct (map cj_id js)"
  shows "job_inv (s, h(w := js))"
  using assms by (auto simp: job_inv_def list_all_iff)

lemma insert_job_inv:
  assumes "job_inv (s, h)" and "insert_job (new_job i ty payload priority t) s = (Inr x, s')"
  shows "job_inv (s', h)"
  using assms
  by (auto simp: insert_job_def sql_modify_Inr job_inv_def in_hand_def new_job_def job_ok_def list_all_iff split: if_splits)

lemma claim_inv:
  assumes "job_inv (s, h)" and "h w = []" and "claim_jobs now locked w limit s = (Inr js, s')"
  shows "job_inv (s', h(w := js))" and "job_inv (s', h)"
proof -
  have d: "distinct (map jb_id (pg_jobs s))" and ok: "list_all job_ok (pg_jobs s)"
    and hands: "\<And>w. distinct (map cj_id (h w))" "\<And>w. list_all (in_hand s w) (h w)"
    using assms(1) by (auto simp: job_inv_def)
  let ?due = "due_jobs now locked limit s"
  have js: "js = map claimed_of ?due" and jobs: "pg_jobs s' = map (\<lambda>j. if j \<in> set ?due then claim_row now w j else j) (pg_jobs s)"
    using assms(3) due_job_iff [OF d] by (auto simp: claim_jobs_Inr [OF d])
  have due: "j \<in> set (pg_jobs s) \<and> job_ok j \<and> jb_status j = ''pending''" if "j \<in> set ?due" for j
    using set_due_jobs [OF that] ok by (auto simp: job_due_def list_all_iff)
  have ids: "map jb_id (pg_jobs s') = map jb_id (pg_jobs s)"
    by (simp add: jobs claim_row_def)
  have "job_ok (claim_row now w j)" if "j \<in> set ?due" for j
    using due [OF that] by (auto simp: claim_row_def job_ok_def)
  then have oks: "list_all job_ok (pg_jobs s')" using ok by (auto simp: jobs list_all_iff)
  have old: "in_hand s' v c" if "in_hand s v c" for v c
  proof -
    obtain j where j: "j \<in> set (pg_jobs s)" "jb_status j = ''running''" "jb_id j = cj_id c" "jb_locked_by j = Some v"
      "jb_attempts j = cj_attempts c" "jb_max_attempts j = cj_max_attempts c"
      using \<open>in_hand s v c\<close> by (auto simp: in_hand_def)
    then have "j \<notin> set ?due" using due by fastforce
    then have "j \<in> set (pg_jobs s')" using j(1) by (auto simp: jobs image_iff intro: bexI [of _ j])
    with j show ?thesis by (auto simp: in_hand_def)
  qed
  have new: "in_hand s' w (claimed_of j)" if "j \<in> set ?due" for j
  proof -
    have "claim_row now w j \<in> set (pg_jobs s')" using that due by (auto simp: jobs image_iff intro: bexI [of _ j])
    then show ?thesis unfolding in_hand_def by (rule bexI [rotated]) (simp add: claim_row_def claimed_of_def)
  qed
  have "map cj_id js = map jb_id ?due" by (simp add: js claimed_of_def)
  then have "distinct (map cj_id js)" using distinct_due_jobs [OF d] by simp
  then show "job_inv (s', h(w := js))" and "job_inv (s', h)"
    using ids d oks hands old new by (auto simp: job_inv_def list_all_iff js)
qed

text \<open>A worker settles the first job in its hand: the row leaves the state \<open>running\<close>.\<close>

lemma settle_inv:
  assumes inv: "job_inv (s, h)" and hd: "h w = c # js"
    and run: "update_job (cj_id c) f s = (Inr u, s')"
    and f: "\<And>j. jb_id (f j) = jb_id j"
    and ok: "\<And>j. job_ok j \<Longrightarrow> jb_attempts j = cj_attempts c \<Longrightarrow> jb_max_attempts j = cj_max_attempts c \<Longrightarrow> jb_status j = ''running'' \<Longrightarrow> job_ok (f j)"
  shows "job_inv (s', h(w := js))"
proof -
  have jobs: "pg_jobs s' = map (\<lambda>j. if jb_id j = cj_id c then f j else j) (pg_jobs s)" using run by auto
  have d: "distinct (map jb_id (pg_jobs s))" and oks: "list_all job_ok (pg_jobs s)"
    and hands: "\<And>w. distinct (map cj_id (h w))" "\<And>w. list_all (in_hand s w) (h w)"
    using inv by (auto simp: job_inv_def)
  obtain r where r: "r \<in> set (pg_jobs s)" "jb_id r = cj_id c" "jb_status r = ''running''" "jb_locked_by r = Some w"
    "jb_attempts r = cj_attempts c" "jb_max_attempts r = cj_max_attempts c"
    using hands(2) [of w] hd by (auto simp: in_hand_def)
  have only: "j = r" if "j \<in> set (pg_jobs s)" "jb_id j = cj_id c" for j
    using job_row_unique [OF d that(1) r(1)] that(2) r(2) by simp
  have ids: "map jb_id (pg_jobs s') = map jb_id (pg_jobs s)" by (simp add: jobs f)
  have "job_ok (f r)" using ok [of r] r oks by (simp add: list_all_iff)
  then have "list_all job_ok (pg_jobs s')"
    using oks only unfolding jobs list_all_iff by fastforce
  moreover have "in_hand s' v x" if "in_hand s v x" "cj_id x \<noteq> cj_id c" for v x
  proof -
    obtain j where j: "j \<in> set (pg_jobs s)" "jb_status j = ''running''" "jb_id j = cj_id x" "jb_locked_by j = Some v"
      "jb_attempts j = cj_attempts x" "jb_max_attempts j = cj_max_attempts x"
      using \<open>in_hand s v x\<close> by (auto simp: in_hand_def)
    then have "j \<in> set (pg_jobs s')" using that(2) by (auto simp: jobs image_iff intro: bexI [of _ j])
    with j show ?thesis by (auto simp: in_hand_def)
  qed
  moreover have "cj_id x \<noteq> cj_id c" if "x \<in> set ((h(w := js)) v)" for v x
  proof (cases "v = w")
    case True
    then show ?thesis using that hands(1) [of w] hd by (auto simp: image_iff)
  next
    case False
    then have "in_hand s v x" using that hands(2) [of v] by (auto simp: list_all_iff)
    then obtain j where "j \<in> set (pg_jobs s)" "jb_id j = cj_id x" "jb_locked_by j = Some v" by (auto simp: in_hand_def)
    then show ?thesis using only [of j] r(4) False by auto
  qed
  moreover have "distinct (map cj_id ((h(w := js)) v))" and "list_all (in_hand s v) ((h(w := js)) v)" for v
    using hands [of v] hands [of w] hd by auto
  ultimately show ?thesis using d ids by (simp add: job_inv_def list_all_iff)
qed

lemma complete_job_inv:
  assumes "job_inv (s, h)" and "h w = c # js" and "complete_job now (cj_id c) s = (Inr x, s')"
  shows "job_inv (s', h(w := js))"
  by (rule settle_inv [OF assms(1,2) assms(3) [unfolded complete_job_def]]) (auto simp: job_ok_def)

lemma fail_job_inv:
  assumes "job_inv (s, h)" and "h w = c # js" and "fail_job now c err s = (Inr x, s')"
  shows "job_inv (s', h(w := js))"
  by (rule settle_inv [OF assms(1,2) assms(3) [unfolded fail_job_def Let_def]]) (auto simp: job_ok_def)

lemma job_step_inv: "job_step x y \<Longrightarrow> job_inv x \<Longrightarrow> job_inv y"
proof (induction rule: job_step.induct)
  case (js_enqueue fate i ty payload priority t s r s' h)
  from in_tx_jobs [OF js_enqueue(1)] show ?case
  proof (elim disjE exE conjE)
    fix x assume "enqueue_at i ty payload priority t s = (Inr x, s')"
    then show ?thesis using insert_job_inv [OF js_enqueue(2)] by (auto simp: enqueue_at_def sql_bind_Inr)
  qed (use js_enqueue(2) job_inv_cong in blast)
next
  case (js_enqueue_if_absent fate i now ty payload s r' s' h)
  from in_tx_jobs [OF js_enqueue_if_absent(1)] show ?case
  proof (elim disjE exE conjE)
    fix x assume "enqueue_if_absent i now ty payload s = (Inr x, s')"
    then show ?thesis using js_enqueue_if_absent(2) insert_job_inv [OF js_enqueue_if_absent(2)]
      by (auto simp: enqueue_if_absent_def sql_bind_Inr split: if_splits)
  qed (use js_enqueue_if_absent(2) job_inv_cong in blast)
next
  case (js_claim h w fate now locked s js s')
  from claim_inv(1) [OF js_claim(3,1) in_tx_Inr [OF js_claim(2)]] show ?case .
next
  case (js_claim_failed h w fate now locked s e s')
  then show ?case
    using in_tx_jobs [OF js_claim_failed(2)] claim_inv(2) job_inv_cong by blast
next
  case (js_success h w j js fate now s r'' s')
  have "distinct (map cj_id (h w))" using js_success(3) by (simp add: job_inv_def)
  then have "job_inv (s, h(w := js))" using js_success(1) by (intro job_inv_drop [OF js_success(3)]) auto
  with in_tx_jobs [OF js_success(2)] complete_job_inv [OF js_success(3,1)] show ?case using job_inv_cong by blast
next
  case (js_failure h w j js fate now err s r'' s')
  have "distinct (map cj_id (h w))" using js_failure(3) by (simp add: job_inv_def)
  then have "job_inv (s, h(w := js))" using js_failure(1) by (intro job_inv_drop [OF js_failure(3)]) auto
  with in_tx_jobs [OF js_failure(2)] fail_job_inv [OF js_failure(3,1)] show ?case using job_inv_cong by blast
next
  case (js_crash s h w)
  then show ?case by (intro job_inv_drop) auto
next
  case (js_other s' s h)
  then show ?case using job_inv_cong by blast
qed

lemma job_steps_inv: "job_step\<^sup>*\<^sup>* x y \<Longrightarrow> job_inv x \<Longrightarrow> job_inv y"
  by (induction rule: rtranclp_induct) (auto intro: job_step_inv)

lemma job_inv_hands:
  assumes "job_inv (s, h)" and "c \<in> set (h w)" and "c' \<in> set (h v)" and "cj_id c = cj_id c'"
  shows "w = v \<and> c = c'"
proof -
  have d: "distinct (map jb_id (pg_jobs s))" and h: "in_hand s w c" "in_hand s v c'"
    using assms(1-3) by (auto simp: job_inv_def list_all_iff)
  then have "w = v" using assms(4) job_row_unique [OF d] unfolding in_hand_def by (metis option.inject)
  moreover have "inj_on cj_id (set (h w))" using assms(1) by (auto simp: job_inv_def distinct_map)
  ultimately show ?thesis using assms(2-4) by (auto dest: inj_onD)
qed

text \<open>
  C16. Any number of workers share the queue safely. After any sequence of steps from an empty queue,
  with any transactions lost or cut off and any workers crashing: a job is in the hands of at most one
  worker, and only while its row says it runs for that worker; every row is in one of four states, is
  attempted at most five times, waits only with attempts left and is dead only after the fifth.
\<close>

theorem job_queue_safe:
  assumes "job_step\<^sup>*\<^sup>* (s, \<lambda>_. []) (s', h)" and "pg_jobs s = []"
  shows "list_all job_ok (pg_jobs s') \<and>
    (\<forall>w v c c'. c \<in> set (h w) \<and> c' \<in> set (h v) \<and> cj_id c = cj_id c' \<longrightarrow> w = v \<and> c = c') \<and>
    (\<forall>w. list_all (in_hand s' w) (h w))"
proof -
  have "job_inv (s', h)"
    by (rule job_steps_inv [OF assms(1)]) (simp add: job_inv_def assms(2))
  then show ?thesis using job_inv_hands by (auto simp: job_inv_def)
qed

text \<open>
  A claim takes the most urgent jobs: as many as are due and not locked, at most \<open>limit\<close>, ordered
  by priority, due time and id, and none that is left would come before one that is taken. Exactly the
  rows taken change: they run for the worker with one more attempt.
\<close>

theorem claim_most_urgent:
  assumes "distinct (map jb_id (pg_jobs s))" and "claim_jobs now locked w limit s = (Inr js, s')"
  shows "\<exists>rows. js = map claimed_of rows \<and> set rows \<subseteq> set (filter (job_due now locked) (pg_jobs s)) \<and>
    length rows = min limit (length (filter (job_due now locked) (pg_jobs s))) \<and>
    sorted (map job_order rows) \<and>
    (\<forall>j \<in> set (filter (job_due now locked) (pg_jobs s)) - set rows. \<forall>r \<in> set rows. job_order r \<le> job_order j) \<and>
    pg_jobs s' = map (\<lambda>j. if j \<in> set rows then claim_row now w j else j) (pg_jobs s)"
proof (intro exI conjI)
  let ?all = "sort_key job_order (filter (job_due now locked) (pg_jobs s))"
  let ?rows = "due_jobs now locked limit s"
  show "js = map claimed_of ?rows" using assms by (simp add: claim_jobs_Inr)
  show "pg_jobs s' = map (\<lambda>j. if j \<in> set ?rows then claim_row now w j else j) (pg_jobs s)"
    using assms(2) due_job_iff [OF assms(1)] by (auto simp: claim_jobs_Inr [OF assms(1)])
  show "set ?rows \<subseteq> set (filter (job_due now locked) (pg_jobs s))" using set_due_jobs by fastforce
  show "length ?rows = min limit (length (filter (job_due now locked) (pg_jobs s)))"
    by (simp add: due_jobs_def min.commute)
  have sorted: "sorted (map job_order (take limit ?all) @ map job_order (drop limit ?all))"
    by (simp flip: map_append)
  then show "sorted (map job_order ?rows)" by (simp add: due_jobs_def sorted_append)
  have "j \<in> set (drop limit ?all)" if "j \<in> set (filter (job_due now locked) (pg_jobs s)) - set ?rows" for j
  proof -
    have "j \<in> set (take limit ?all @ drop limit ?all)" using that unfolding append_take_drop_id by simp
    then show ?thesis using that unfolding due_jobs_def set_append by blast
  qed
  then show "\<forall>j \<in> set (filter (job_due now locked) (pg_jobs s)) - set ?rows. \<forall>r \<in> set ?rows. job_order r \<le> job_order j"
    using sorted by (auto simp: due_jobs_def sorted_append)
qed

subsection \<open>Stranded jobs\<close>

definition stranded :: "job_row \<Rightarrow> workers \<Rightarrow> bool" where
  "stranded j x \<longleftrightarrow> (case x of (s, h) \<Rightarrow> j \<in> set (pg_jobs s) \<and> jb_status j = ''running'' \<and> (\<forall>w. jb_id j \<notin> cj_id ` set (h w)))"

lemma stranded_cong: "stranded j (s, h) \<Longrightarrow> set (pg_jobs s) \<subseteq> set (pg_jobs s') \<Longrightarrow> (\<And>w. set (h' w) \<subseteq> set (h w)) \<Longrightarrow> stranded j (s', h')"
  by (fastforce simp: stranded_def)

lemma stranded_claim:
  assumes "job_inv (s, h)" and "stranded j (s, h)" and "claim_jobs now locked w limit s = (Inr js, s')"
  shows "stranded j (s', h(w := js))" and "stranded j (s', h)"
proof -
  have d: "distinct (map jb_id (pg_jobs s))" using assms(1) by (simp add: job_inv_def)
  let ?due = "due_jobs now locked limit s"
  have j: "j \<in> set (pg_jobs s)" "jb_status j = ''running''" using assms(2) by (auto simp: stranded_def)
  then have no: "jb_id j \<notin> set (map jb_id ?due)"
    using due_job_iff [OF d j(1)] set_due_jobs by (fastforce simp: job_due_def)
  have js: "js = map claimed_of ?due"
    and jobs: "pg_jobs s' = map (\<lambda>j. if jb_id j \<in> set (map jb_id ?due) then claim_row now w j else j) (pg_jobs s)"
    using assms(3) by (auto simp: claim_jobs_Inr [OF d])
  have "j \<in> set (pg_jobs s')" using j(1) no by (auto simp: jobs image_iff intro: bexI [of _ j])
  then show "stranded j (s', h(w := js))" and "stranded j (s', h)"
    using assms(2) no by (auto simp: stranded_def js claimed_of_def)
qed

lemma stranded_settle:
  assumes "stranded j (s, h)" and "h w = c # js" and "update_job (cj_id c) f s = (Inr u, s')"
  shows "stranded j (s', h(w := js))"
proof -
  have j: "j \<in> set (pg_jobs s)" and no: "jb_id j \<noteq> cj_id c"
    using assms(1,2) by (auto simp: stranded_def dest!: spec [of _ w])
  then have "j \<in> set (pg_jobs s')" using assms(3) by (auto simp: image_iff intro: bexI [of _ j])
  then show ?thesis using assms(1,2) by (auto simp: stranded_def dest: spec [of _ w])
qed

lemma stranded_settle_tx:
  assumes "stranded j (s, h)" and "h w = c # js" and "in_tx fate (update_job (cj_id c) f) s = (r, s')"
  shows "stranded j (s', h(w := js))"
proof -
  have "set ((h(w := js)) v) \<subseteq> set (h v)" for v using assms(2) by auto
  note sub = this
  from in_tx_jobs [OF assms(3)] show ?thesis
  proof (elim disjE exE conjE)
    assume "pg_jobs s' = pg_jobs s"
    then show ?thesis by (intro stranded_cong [OF assms(1) _ sub]) simp
  qed (rule stranded_settle [OF assms(1,2)])
qed

lemma insert_job_set: "insert_job k s = (Inr x, s') \<Longrightarrow> set (pg_jobs s) \<subseteq> set (pg_jobs s')"
  by (auto simp: insert_job_def sql_modify_Inr)

lemma stranded_step: "job_step x y \<Longrightarrow> job_inv x \<Longrightarrow> stranded j x \<Longrightarrow> stranded j y"
proof (induction rule: job_step.induct)
  case (js_enqueue fate i ty payload priority t s r s' h)
  have "set (pg_jobs s) \<subseteq> set (pg_jobs s')"
    using in_tx_jobs [OF js_enqueue(1)] by (auto simp: enqueue_at_def sql_bind_Inr dest!: insert_job_set)
  then show ?case using js_enqueue(3) stranded_cong by blast
next
  case (js_enqueue_if_absent fate i now ty payload s r' s' h)
  have "set (pg_jobs s) \<subseteq> set (pg_jobs s')"
    using in_tx_jobs [OF js_enqueue_if_absent(1)]
    by (auto simp: enqueue_if_absent_def sql_bind_Inr dest!: insert_job_set split: if_splits)
  then show ?case using js_enqueue_if_absent(3) stranded_cong by blast
next
  case (js_claim h w fate now locked s js s')
  show ?case by (rule stranded_claim(1) [OF js_claim(3,4) in_tx_Inr [OF js_claim(2)]])
next
  case (js_claim_failed h w fate now locked s e s')
  from in_tx_jobs [OF js_claim_failed(2)] stranded_claim(2) [OF js_claim_failed(3,4)] show ?case
    using stranded_cong [OF js_claim_failed(4), of s' h] by auto
next
  case (js_success h w c js fate now s r'' s')
  show ?case by (rule stranded_settle_tx [OF js_success(4,1) js_success(2) [unfolded complete_job_def]])
next
  case (js_failure h w c js fate now err s r'' s')
  show ?case by (rule stranded_settle_tx [OF js_failure(4,1) js_failure(2) [unfolded fail_job_def Let_def]])
next
  case (js_crash s h w)
  then show ?case using stranded_cong [of j s h s "h(w := [])"] by auto
next
  case (js_other s' s h)
  then show ?case using stranded_cong [of j s h s' h] by auto
qed

text \<open>
  A job whose worker is gone is never taken up again. Once a row says it runs and no worker has it in
  hand (a crash, or a claim or a final update whose effect and reply parted), it keeps running
  for ever, whatever happens afterwards, and no job of its type is enqueued again by
  \<open>enqueue_if_absent\<close>, which is how the server schedules its periodic jobs at start-up.
\<close>

theorem stranded_job_blocks:
  assumes "job_inv (s, h)" and "stranded j (s, h)" and "job_step\<^sup>*\<^sup>* (s, h) (s', h')"
  shows "stranded j (s', h') \<and> enqueue_if_absent i now (jb_job_type j) payload s' = (Inr None, s')"
proof -
  have "job_inv (s', h') \<and> stranded j (s', h')"
    using assms(3,1,2) by (induction rule: rtranclp_induct2) (auto intro: job_step_inv stranded_step)
  then have st: "stranded j (s', h')" by blast
  then have "list_ex (\<lambda>k. jb_job_type k = jb_job_type j \<and> jb_status k \<in> {''pending'', ''running''}) (pg_jobs s')"
    by (auto simp: stranded_def list_ex_iff)
  then have "enqueue_if_absent i now (jb_job_type j) payload s' = (Inr None, s')"
    by (simp add: enqueue_if_absent_def)
  with st show ?thesis by blast
qed

subsection \<open>Witnesses\<close>

definition ex_queue :: "job_row list \<Rightarrow> pg" where
  "ex_queue js = \<lparr>pg_books = [], pg_members = [], pg_sessions = [], pg_subscriptions = [], pg_accounts = [],
     pg_transactions = [], pg_entries = [], pg_mutations = [], pg_changes = [], pg_revisions = [], pg_jobs = js,
     pg_rules = [], pg_audit = [], pg_attachments = [], pg_sequence = 0\<rparr>"

definition ex_job :: "string \<Rightarrow> int \<Rightarrow> job_row" where
  "ex_job i priority = new_job i ''compact_sync_log'' (JObject []) priority 0"

definition ex_run :: "string \<Rightarrow> job_row \<Rightarrow> pg" where
  "ex_run w j = ex_queue [claim_row 1 w j]"

lemma ex_due [simp]: "due_jobs 1 {} 10 (ex_queue [ex_job i p]) = [ex_job i p]"
  by (simp add: due_jobs_def ex_queue_def ex_job_def new_job_def job_due_def)

lemma ex_claim:
  "in_tx Runs (claim_jobs 1 {} w 10) (ex_queue [ex_job i p]) = (Inr [claimed_of (ex_job i p)], ex_run w (ex_job i p))"
proof -
  have "distinct (map jb_id (pg_jobs (ex_queue [ex_job i p])))" by (simp add: ex_queue_def)
  from claim_jobs_Inr [OF this, of 1 "{}" w 10]
  have "claim_jobs 1 {} w 10 (ex_queue [ex_job i p]) = (Inr [claimed_of (ex_job i p)], ex_run w (ex_job i p))"
    by simp (simp add: ex_run_def ex_queue_def)
  then show ?thesis by (rule in_tx_runs_Inr)
qed

lemma ex_claimed: "job_step\<^sup>*\<^sup>* (ex_queue [], \<lambda>_. []) (ex_run ''w1'' (ex_job ''j1'' 0), (\<lambda>_. [])(''w1'' := [claimed_of (ex_job ''j1'' 0)]))"
proof -
  have "in_tx Runs (enqueue_at ''j1'' ''compact_sync_log'' (JObject []) 0 0) (ex_queue []) = (Inr ''j1'', ex_queue [ex_job ''j1'' 0])"
    by (simp add: in_tx_def enqueue_at_def insert_job_def sql_modify_def sql_bind_def ex_queue_def ex_job_def)
  then have "job_step (ex_queue [], \<lambda>_. []) (ex_queue [ex_job ''j1'' 0], \<lambda>_. [])" by (rule js_enqueue)
  moreover have "job_step (ex_queue [ex_job ''j1'' 0], \<lambda>_. [])
      (ex_run ''w1'' (ex_job ''j1'' 0), (\<lambda>_. [])(''w1'' := [claimed_of (ex_job ''j1'' 0)]))"
    by (rule js_claim [OF refl ex_claim])
  ultimately show ?thesis by (meson converse_rtranclp_into_rtranclp r_into_rtranclp)
qed

theorem job_queue_safe_witness:
  "\<exists>s h. job_step\<^sup>*\<^sup>* (ex_queue [], \<lambda>_. []) (s, h) \<and> h ''w1'' \<noteq> [] \<and> list_all job_ok (pg_jobs s) \<and> (\<forall>w. list_all (in_hand s w) (h w))"
proof (intro exI conjI)
  have e: "pg_jobs (ex_queue []) = []" by (simp add: ex_queue_def)
  let ?s = "ex_run ''w1'' (ex_job ''j1'' 0)" and ?h = "(\<lambda>_. [])(''w1'' := [claimed_of (ex_job ''j1'' 0)])"
  show "job_step\<^sup>*\<^sup>* (ex_queue [], \<lambda>_. []) (?s, ?h)" by (rule ex_claimed)
  show "list_all job_ok (pg_jobs ?s)" using job_queue_safe [OF ex_claimed e] by blast
  show "\<forall>w. list_all (in_hand ?s w) (?h w)" using job_queue_safe [OF ex_claimed e] by blast
  show "?h ''w1'' \<noteq> []" by simp
qed

theorem claim_most_urgent_witness:
  "\<exists>rows. fst (claim_jobs 1 {} ''w1'' 1 (ex_queue [ex_job ''j1'' 0, ex_job ''j2'' 3])) = Inr (map claimed_of rows) \<and>
     length rows = 1 \<and> (\<forall>r \<in> set rows. job_order r \<le> job_order (ex_job ''j2'' 3))"
proof -
  let ?s = "ex_queue [ex_job ''j1'' 0, ex_job ''j2'' 3]"
  have d: "distinct (map jb_id (pg_jobs ?s))" by (simp add: ex_queue_def ex_job_def new_job_def)
  have due: "filter (job_due 1 {}) (pg_jobs ?s) = [ex_job ''j1'' 0, ex_job ''j2'' 3]"
    by (simp add: ex_queue_def ex_job_def new_job_def job_due_def)
  obtain js s' where run: "claim_jobs 1 {} ''w1'' 1 ?s = (Inr js, s')" using claim_jobs_Inr [OF d] by blast
  from claim_most_urgent [OF d run] obtain rows where rows: "js = map claimed_of rows" "length rows = 1"
    "\<forall>j \<in> {ex_job ''j1'' 0, ex_job ''j2'' 3} - set rows. \<forall>r \<in> set rows. job_order r \<le> job_order j"
    unfolding due by auto
  have "\<forall>r \<in> set rows. job_order r \<le> job_order (ex_job ''j2'' 3)"
  proof (cases "ex_job ''j2'' 3 \<in> set rows")
    case True
    then show ?thesis using rows(2) by (cases rows) auto
  qed (use rows(3) in auto)
  with rows run show ?thesis by auto
qed

theorem stranded_job_blocks_witness:
  "enqueue_if_absent ''j2'' 9 ''compact_sync_log'' (JObject []) (ex_run ''w1'' (ex_job ''j1'' 0)) =
     (Inr None, ex_run ''w1'' (ex_job ''j1'' 0))"
proof -
  let ?s = "ex_run ''w1'' (ex_job ''j1'' 0)" and ?j = "claim_row 1 ''w1'' (ex_job ''j1'' 0)"
  have inv: "job_inv (?s, \<lambda>_. [])"
    by (simp add: job_inv_def ex_run_def ex_queue_def job_ok_def claim_row_def ex_job_def new_job_def)
  have st: "stranded ?j (?s, \<lambda>_. [])" by (simp add: stranded_def ex_run_def ex_queue_def claim_row_def)
  have "jb_job_type ?j = ''compact_sync_log''" by (simp add: claim_row_def ex_job_def new_job_def)
  then show ?thesis
    using stranded_job_blocks [OF inv st rtranclp.rtrancl_refl, of "''j2''" 9 "JObject []"] by simp
qed

end
