(* ===== verification/Job_Execution.thy ===== *)
theory Job_Execution
  imports Job_Queue Sync_Pg_Pull Attachment_Laws
begin

section \<open>What the jobs do (infrastructure/jobs.rs, attachment_cleanup.rs)\<close>

text \<open>
  \<open>execute_job\<close> and what it calls: the recurring rules that become transactions, the compaction of the change
  log, and the purges of sessions, audit events and stale uploads. \<open>plus_month\<close> is PostgreSQL's addition of
  \<open>interval '1 month'\<close>; days and hours are exact multiples of the second, as in a session that runs in
  UTC. The backup and the recovery drill touch no table, only their outcomes are read here.
\<close>

datatype job_error = PayloadError string | DbError sql_error | TaskError

type_synonym 'a job_result = "job_error + 'a"

definition hours :: "nat \<Rightarrow> int" where
  "hours n = int n * 3600 * 1000000000"

definition db_result :: "(sql_error + 'a) \<times> pg \<Rightarrow> 'a job_result \<times> pg" where
  "db_result x = (case x of (Inl e, s) \<Rightarrow> (Inl (DbError e), s) | (Inr y, s) \<Rightarrow> (Inr y, s))"

subsection \<open>Recurring rules\<close>

text \<open>What one rule reads from outside: two fresh ids, the clock and the fate of its database transaction.\<close>

record rule_call =
  rc_tx_id :: string
  rc_commit_id :: string
  rc_now :: timestamp
  rc_fate :: tx_fate

definition due_rules :: "timestamp \<Rightarrow> pg \<Rightarrow> rule_row list" where
  "due_rules now s = take 50 (sort_key (\<lambda>r. (rr_next_run_at r, rr_id r))
     (filter (\<lambda>r. rr_active r \<and> rr_next_run_at r \<le> now) (pg_rules s)))"

definition advance_rule :: "(timestamp \<Rightarrow> timestamp) \<Rightarrow> string \<Rightarrow> unit sql" where
  "advance_rule plus_month i = sql_modify (\<lambda>_. None)
     (\<lambda>s. s\<lparr>pg_rules := map (\<lambda>r. if rr_id r = i then r\<lparr>rr_next_run_at := plus_month (rr_next_run_at r)\<rparr> else r) (pg_rules s)\<rparr>)"

definition rule_entries :: "json \<Rightarrow> json list" where
  "rule_entries payload = (case Option.bind (json_get payload ''entries'') as_array of Some es \<Rightarrow> es | None \<Rightarrow> [])"

fun rule_amount :: "json option \<Rightarrow> int job_result" where
  "rule_amount (Some (JString s)) = (case parse_signed 64 s of Some n \<Rightarrow> Inr n | None \<Rightarrow> Inl (PayloadError ''invalid digit''))"
| "rule_amount (Some (JInt n)) = (if in_i64 n then Inr n else Inl (PayloadError ''bad amountMinor''))"
| "rule_amount (Some (JFloat _)) = Inl (PayloadError ''bad amountMinor'')"
| "rule_amount _ = Inl (PayloadError ''missing amountMinor'')"

definition parse_rule_entry :: "json \<Rightarrow> entry job_result" where
  "parse_rule_entry raw =
     (case get_str raw ''accountId'' of None \<Rightarrow> Inl (PayloadError ''missing accountId'') | Some account_id \<Rightarrow>
      case rule_amount (json_get raw ''amountMinor'') of Inl e \<Rightarrow> Inl e | Inr amount \<Rightarrow>
      Inr (account_id, amount, case get_str raw ''currency'' of Some c \<Rightarrow> c | None \<Rightarrow> ''CNY''))"

fun parse_rule_entries :: "int \<Rightarrow> json list \<Rightarrow> (int \<times> entry list) job_result" where
  "parse_rule_entries acc [] = Inr (acc, [])"
| "parse_rule_entries acc (raw # raws) =
     (case parse_rule_entry raw of Inl e \<Rightarrow> Inl e | Inr (a, n, c) \<Rightarrow>
      map_sum (\<lambda>e. e) (map_prod (\<lambda>x. x) ((#) (a, n, c))) (parse_rule_entries (i128_add acc n) raws))"

definition rule_entry_row :: "string \<Rightarrow> nat \<times> entry \<Rightarrow> entry_row" where
  "rule_entry_row i = (\<lambda>(idx, account_id, amount, currency).
     \<lparr>er_id = i @ ''-'' @ nat_to_string idx, er_transaction_id = i, er_account_id = account_id,
      er_amount_minor = amount, er_currency_code = currency, er_entry_index = wrap_signed 32 (int idx)\<rparr>)"

definition rule_description :: "rule_row \<Rightarrow> string" where
  "rule_description r = (case get_str (rr_payload r) ''description'' of Some d \<Rightarrow> d | None \<Rightarrow> rr_name r)"

definition rule_change_payload :: "rfc3339 \<Rightarrow> rule_call \<Rightarrow> rule_row \<Rightarrow> entry list \<Rightarrow> json" where
  "rule_change_payload rf c r es =
     json_object [(''description'', JString (rule_description r)), (''occurredAt'', JString (rfc_format rf (rc_now c))),
       (''entries'', JArray (map (\<lambda>(a, n, cur). json_object [(''accountId'', JString a), (''amountMinor'', JString (int_to_string n)),
          (''currency'', JString cur)]) es)),
       (''recurringRuleId'', JString (rr_id r))]"

definition recurring_row :: "rule_call \<Rightarrow> rule_row \<Rightarrow> tx_row" where
  "recurring_row c r =
     \<lparr>txr_id = rc_tx_id c, txr_book_id = rr_book_id r, txr_description = Some (rule_description r),
      txr_version = 1, txr_deleted_at = None, txr_occurred_at = rc_now c, txr_source = None, txr_fingerprint = None\<rparr>"

definition recurring_tx :: "(timestamp \<Rightarrow> timestamp) \<Rightarrow> rfc3339 \<Rightarrow> rule_call \<Rightarrow> rule_row \<Rightarrow> entry list \<Rightarrow> unit sql" where
  "recurring_tx plus_month rf c r es =
     sql_bind (insert_tx_row (recurring_row c r)) (\<lambda>_.
     sql_bind (sql_mapM (\<lambda>e. insert_entry_row (rule_entry_row (rc_tx_id c) e)) (List.enumerate 0 es)) (\<lambda>_.
     sql_bind (insert_change (rr_book_id r) (rc_commit_id c) ''transaction'' (rc_tx_id c) ''upsert'' 1
        (rule_change_payload rf c r es)) (\<lambda>_.
     advance_rule plus_month (rr_id r))))"

definition run_rule :: "(timestamp \<Rightarrow> timestamp) \<Rightarrow> rfc3339 \<Rightarrow> rule_call \<Rightarrow> rule_row \<Rightarrow> pg \<Rightarrow> unit job_result \<times> pg" where
  "run_rule plus_month rf c r s =
     (let raws = rule_entries (rr_payload r) in
      if length raws < 2 then db_result (in_tx (rc_fate c) (advance_rule plus_month (rr_id r)) s)
      else case parse_rule_entries 0 raws of
        Inl e \<Rightarrow> (Inl e, s)
      | Inr (amount, es) \<Rightarrow>
          if amount \<noteq> 0 then db_result (in_tx (rc_fate c) (advance_rule plus_month (rr_id r)) s)
          else db_result (in_tx (rc_fate c) (recurring_tx plus_month rf c r es) s))"

fun run_rules :: "(timestamp \<Rightarrow> timestamp) \<Rightarrow> rfc3339 \<Rightarrow> (nat \<Rightarrow> rule_call) \<Rightarrow> nat \<Rightarrow> rule_row list \<Rightarrow> pg \<Rightarrow> unit job_result \<times> pg" where
  "run_rules plus_month rf calls i [] s = (Inr (), s)"
| "run_rules plus_month rf calls i (r # rs) s =
     (case run_rule plus_month rf (calls i) r s of
        (Inl e, s') \<Rightarrow> (Inl e, s')
      | (Inr _, s') \<Rightarrow> run_rules plus_month rf calls (Suc i) rs s')"

definition generate_due_recurring :: "(timestamp \<Rightarrow> timestamp) \<Rightarrow> rfc3339 \<Rightarrow> timestamp \<Rightarrow> tx_fate \<Rightarrow> (nat \<Rightarrow> rule_call) \<Rightarrow> pg \<Rightarrow>
    unit job_result \<times> pg" where
  "generate_due_recurring plus_month rf db_now fate calls s =
     (case in_tx fate (sql_get (due_rules db_now)) s of
        (Inl e, s') \<Rightarrow> (Inl (DbError e), s')
      | (Inr due, s') \<Rightarrow> run_rules plus_month rf calls 0 due s')"

subsection \<open>Purges\<close>

definition purge_expired_sessions :: "timestamp \<Rightarrow> unit sql" where
  "purge_expired_sessions now = sql_modify (\<lambda>_. None)
     (\<lambda>s. s\<lparr>pg_sessions := map (\<lambda>x. if sr_revoked_at x = None \<and> sr_created_at x < now - hours (30 * 24)
        then x\<lparr>sr_revoked_at := Some now\<rparr> else x) (pg_sessions s)\<rparr>)"

definition purge_audit_events :: "timestamp \<Rightarrow> nat \<Rightarrow> unit sql" where
  "purge_audit_events now retention_days = sql_modify (\<lambda>_. None)
     (\<lambda>s. s\<lparr>pg_audit := filter (\<lambda>e. \<not> aud_occurred_at e < now - hours (max retention_days 1 * 24)) (pg_audit s)\<rparr>)"

definition max_sequence :: "pg \<Rightarrow> int" where
  "max_sequence s = (if pg_changes s = [] then 0 else Max (set (map chg_sequence (pg_changes s))))"

definition compact_sync_log :: "unit sql" where
  "compact_sync_log = sql_modify (\<lambda>_. None)
     (\<lambda>s. s\<lparr>pg_changes := filter (\<lambda>c. \<not> chg_sequence c < max_sequence s - 100000) (pg_changes s)\<rparr>)"

subsection \<open>Stale uploads\<close>

record attachment_cleanup_report =
  acr_scanned :: nat
  acr_deleted :: nat
  acr_failed :: nat

definition stale_attachments :: "timestamp \<Rightarrow> nat \<Rightarrow> pg \<Rightarrow> attachment_record list" where
  "stale_attachments now ttl_hours s = take 200 (sort_key (\<lambda>a. (att_created_at a, att_id a))
     (filter (\<lambda>a. att_upload_status a \<in> {''pending'', ''failed''} \<and> att_created_at a < now - hours (max ttl_hours 1)) (pg_attachments s)))"

definition clean_object :: "'o store_ops \<Rightarrow> attachment_record \<Rightarrow> 'o \<Rightarrow> unit store_result \<times> 'o" where
  "clean_object ops a ob =
     (if att_upload_mode a = ''multipart''
      then case so_abort ops (att_object_key a) (att_multipart_upload_id a) ob of
             (Inr _, ob1) \<Rightarrow> so_delete ops (att_object_key a) ob1
           | (Inl e, ob1) \<Rightarrow> (Inl e, ob1)
      else so_delete ops (att_object_key a) ob)"

text \<open>The rows whose objects are gone, how many could not be cleaned, and the object store.\<close>

fun clean_objects :: "'o store_ops \<Rightarrow> attachment_record list \<Rightarrow> 'o \<Rightarrow> string list \<times> nat \<times> 'o" where
  "clean_objects ops [] ob = ([], 0, ob)"
| "clean_objects ops (a # as) ob =
     (case clean_object ops a ob of
        (Inr _, ob1) \<Rightarrow> (case clean_objects ops as ob1 of (ids, n, ob2) \<Rightarrow> (att_id a # ids, n, ob2))
      | (Inl _, ob1) \<Rightarrow> (case clean_objects ops as ob1 of (ids, n, ob2) \<Rightarrow> (ids, Suc n, ob2)))"

definition delete_attachments :: "string list \<Rightarrow> unit sql" where
  "delete_attachments ids = sql_modify (\<lambda>_. None)
     (\<lambda>s. s\<lparr>pg_attachments := filter (\<lambda>a. att_id a \<notin> set ids) (pg_attachments s)\<rparr>)"

text \<open>\<open>reached\<close> is the number of rows the loop has reached when the connection fails, if it does.\<close>

definition purge_stale_attachments :: "'o store_ops \<Rightarrow> nat \<Rightarrow> timestamp \<Rightarrow> tx_fate \<Rightarrow> nat \<Rightarrow> pg \<times> 'o \<Rightarrow>
    attachment_cleanup_report job_result \<times> pg \<times> 'o" where
  "purge_stale_attachments ops ttl_hours now fate reached = (\<lambda>(s, ob).
     let rows = stale_attachments now ttl_hours s in
     case clean_objects ops (case fate of Aborted _ \<Rightarrow> take reached rows | _ \<Rightarrow> rows) ob of (ids, failed, ob1) \<Rightarrow>
     (case db_result (in_tx fate (delete_attachments ids) s) of
       (Inl e, s') \<Rightarrow> (Inl e, s', ob1)
     | (Inr _, s') \<Rightarrow> (Inr \<lparr>acr_scanned = length rows, acr_deleted = length ids, acr_failed = failed\<rparr>, s', ob1)))"

subsection \<open>Execution\<close>

record job_env =
  je_audit_retention_days :: nat
  je_attachment_pending_ttl_hours :: nat
  je_backup_dir :: bool
  je_backup_interval_hours :: nat
  je_recovery_drill_enabled :: bool
  je_recovery_drill_interval_hours :: nat
  je_plus_month :: "timestamp \<Rightarrow> timestamp"
  je_rfc3339 :: rfc3339

record job_call =
  jx_now :: timestamp
  jx_next_id :: string
  jx_fate :: tx_fate
  jx_next_fate :: tx_fate
  jx_reached :: nat
  jx_rules :: "nat \<Rightarrow> rule_call"
  jx_task :: "unit job_result"

text \<open>A periodic job enqueues its successor only after it succeeded, and ignores a failure to do so.\<close>

definition and_enqueue :: "job_call \<Rightarrow> string \<Rightarrow> nat \<Rightarrow> unit job_result \<times> pg \<Rightarrow> unit job_result \<times> pg" where
  "and_enqueue c job_type delay_minutes x =
     (case x of
        (Inl e, s) \<Rightarrow> (Inl e, s)
      | (Inr _, s) \<Rightarrow> (Inr (), snd (in_tx (jx_next_fate c) (enqueue_at (jx_next_id c) job_type (JObject []) 0
          (jx_now c + int delay_minutes * 60 * 1000000000)) s)))"

definition execute_job :: "'o store_ops \<Rightarrow> job_env \<Rightarrow> job_call \<Rightarrow> claimed_job \<Rightarrow> pg \<times> 'o \<Rightarrow> unit job_result \<times> pg \<times> 'o" where
  "execute_job ops env c job = (\<lambda>(s, ob).
     let statement = (\<lambda>m. db_result (in_tx (jx_fate c) m s));
         with_ob = (\<lambda>(r, s'). (r, s', ob));
         ty = cj_job_type job in
     if ty = ''purge_expired_sessions'' then with_ob (statement (purge_expired_sessions (jx_now c)))
     else if ty = ''purge_audit_events''
     then with_ob (and_enqueue c ty (24 * 60) (statement (purge_audit_events (jx_now c) (je_audit_retention_days env))))
     else if ty = ''compact_sync_log'' then with_ob (statement compact_sync_log)
     else if ty = ''enqueue_recurring_scan''
     then with_ob (and_enqueue c ty 1
       (generate_due_recurring (je_plus_month env) (je_rfc3339 env) (jx_now c) (jx_fate c) (jx_rules c) s))
     else if ty = ''backup_bundle''
     then with_ob (if je_backup_dir env then and_enqueue c ty (max (je_backup_interval_hours env) 1 * 60) (jx_task c, s) else (Inr (), s))
     else if ty = ''recovery_drill''
     then with_ob (if je_recovery_drill_enabled env
       then and_enqueue c ty (max (je_recovery_drill_interval_hours env) 1 * 60) (jx_task c, s) else (Inr (), s))
     else if ty = ''purge_attachment_uploads''
     then (case purge_stale_attachments ops (je_attachment_pending_ttl_hours env) (jx_now c) (jx_fate c) (jx_reached c) (s, ob) of
        (r, s', ob') \<Rightarrow> case and_enqueue c ty (6 * 60) (map_sum (\<lambda>e. e) (\<lambda>_. ()) r, s') of (r', s'') \<Rightarrow> (r', s'', ob'))
     else (Inr (), s, ob))"

subsection \<open>Atomicity of a rule\<close>

lemma advance_rule_Inr: "advance_rule pm i s = (Inr u, s') \<Longrightarrow>
    s' = s\<lparr>pg_rules := map (\<lambda>r. if rr_id r = i then r\<lparr>rr_next_run_at := pm (rr_next_run_at r)\<rparr> else r) (pg_rules s)\<rparr>"
  by (simp add: advance_rule_def sql_modify_Inr)

lemma insert_entries_nonzero:
  "sql_mapM (\<lambda>e. insert_entry_row (g e)) xs s = (Inr u, s') \<Longrightarrow> list_all (\<lambda>x. er_amount_minor (g x) \<noteq> 0) xs"
proof (induction xs arbitrary: s)
  case (Cons x xs)
  then obtain v s1 where "insert_entry_row (g x) s = (Inr v, s1)" "sql_mapM (\<lambda>e. insert_entry_row (g e)) xs s1 = (Inr u, s')"
    by (auto simp: sql_bind_Inr)
  then show ?case using Cons.IH by (auto simp: insert_entry_row_def sql_modify_Inr split: if_splits)
qed simp

lemma recurring_tx_nonzero:
  assumes "recurring_tx pm rf c r es s = (Inr u, s')"
  shows "list_all (\<lambda>(_, n, _). n \<noteq> 0) es"
proof -
  have "list_all (\<lambda>x. er_amount_minor (rule_entry_row (rc_tx_id c) x) \<noteq> 0) (List.enumerate 0 es)"
    using assms by (auto simp: recurring_tx_def sql_bind_Inr intro: insert_entries_nonzero)
  then have "list_all (\<lambda>(_, n, _). n \<noteq> 0) (map snd (List.enumerate 0 es))"
    by (auto simp: list_all_iff rule_entry_row_def simp del: map_snd_enumerate)
  then show ?thesis by simp
qed

text \<open>The effect of a transaction that commits.\<close>

definition recurring_change :: "rfc3339 \<Rightarrow> rule_call \<Rightarrow> rule_row \<Rightarrow> entry list \<Rightarrow> int \<Rightarrow> change_record" where
  "recurring_change rf c r es n = \<lparr>chg_sequence = n, chg_book_id = rr_book_id r, chg_commit_id = rc_commit_id c,
     chg_entity_type = ''transaction'', chg_entity_id = rc_tx_id c, chg_operation = ''upsert'', chg_entity_version = 1,
     chg_payload = rule_change_payload rf c r es\<rparr>"

lemma recurring_tx_Inr:
  assumes "recurring_tx pm rf c r es s = (Inr u, s')"
  shows "rc_tx_id c \<notin> set (map txr_id (pg_transactions s))"
    and "s' = s\<lparr>pg_transactions := pg_transactions s @ [(recurring_row c r)\<lparr>txr_occurred_at := to_micros (rc_now c)\<rparr>],
       pg_entries := pg_entries s @ map (rule_entry_row (rc_tx_id c)) (List.enumerate 0 es),
       pg_sequence := pg_sequence s + 1, pg_changes := pg_changes s @ [recurring_change rf c r es (pg_sequence s + 1)],
       pg_rules := map (\<lambda>x. if rr_id x = rr_id r then x\<lparr>rr_next_run_at := pm (rr_next_run_at x)\<rparr> else x) (pg_rules s)\<rparr>"
  using assms
  by (auto simp: recurring_tx_def insert_tx_row_def insert_change_def recurring_change_def recurring_row_def sql_Inr split: if_splits
      dest!: insert_entries_Inr advance_rule_Inr)

lemma row_entries_rule:
  assumes "keys_ok s" and "i \<notin> set (map txr_id (pg_transactions s))"
    and "pg_entries s' = pg_entries s @ map (rule_entry_row i) (List.enumerate 0 es)"
  shows "row_entries s' k = (if k = i then es else row_entries s k)"
proof -
  have old: "filter (\<lambda>e. er_transaction_id e = i) (pg_entries s) = []"
    using assms(1,2) by (auto simp: keys_ok_def list_all_iff filter_empty_conv)
  have "er_transaction_id (rule_entry_row i x) = i" for x by (simp add: rule_entry_row_def split: prod.split)
  then have new: "filter (\<lambda>e. er_transaction_id e = k) (map (rule_entry_row i) xs) = (if k = i then map (rule_entry_row i) xs else [])" for xs
    by (induction xs) auto
  have "map (\<lambda>e. (er_account_id e, er_amount_minor e, er_currency_code e)) (map (rule_entry_row i) xs) = map snd xs" for xs
    by (induction xs) (auto simp: rule_entry_row_def)
  from this [of "List.enumerate 0 es"] show ?thesis
    using old unfolding row_entries_def assms(3) filter_append map_append new map_snd_enumerate by simp
qed

lemma rule_amount_range: "rule_amount v = Inr n \<Longrightarrow> in_i64 n"
  by (cases v rule: rule_amount.cases) (auto split: option.splits if_splits dest: parse_signed_range)

lemma parse_rule_entries_Inr:
  assumes "parse_rule_entries acc raws = Inr (amount, es)" and "\<bar>acc\<bar> + 2 ^ 63 * int (length raws) < 2 ^ 127"
  shows "length es = length raws \<and> list_all (\<lambda>(_, n, _). in_i64 n) es \<and> amount = acc + sum_list (map (\<lambda>(_, n, _). n) es)"
  using assms
proof (induction raws arbitrary: acc es)
  case (Cons raw raws)
  obtain a n c where e: "parse_rule_entry raw = Inr (a, n, c)" using Cons.prems(1) by (auto split: sum.splits)
  have n: "in_i64 n"
    using e by (auto simp: parse_rule_entry_def split: option.splits sum.splits dest: rule_amount_range)
  then have "\<bar>n\<bar> \<le> 2 ^ 63" by (auto simp: in_signed_def)
  then have b: "\<bar>acc + n\<bar> + 2 ^ 63 * int (length raws) < 2 ^ 127" using Cons.prems(2) by (simp add: algebra_simps)
  then have "i128_add acc n = acc + n" by (intro i128_add_exact) (auto simp: in_signed_def)
  with Cons.prems(1) e obtain es' where es: "es = (a, n, c) # es'" "parse_rule_entries (acc + n) raws = Inr (amount, es')"
    by (auto simp: map_prod_def elim!: map_sum_InrE split: prod.splits)
  from Cons.IH [OF es(2) b] n show ?case by (simp add: es(1))
qed simp

text \<open>
  The rules \<open>generate_due_recurring\<close> skips: fewer than two entries, or readable ones that do not sum to
  zero. A rule with an entry it cannot read is not skipped: the run ends with an error.
\<close>

definition rule_sum :: "entry list \<Rightarrow> int" where
  "rule_sum es = sum_list (map (\<lambda>(_, n, _). n) es)"

definition skipped_rule :: "rule_row \<Rightarrow> bool" where
  "skipped_rule r \<longleftrightarrow> length (rule_entries (rr_payload r)) < 2 \<or>
     (case parse_rule_entries 0 (rule_entries (rr_payload r)) of Inl _ \<Rightarrow> False | Inr (_, es) \<Rightarrow> rule_sum es \<noteq> 0)"

definition month_later :: "(timestamp \<Rightarrow> timestamp) \<Rightarrow> rule_row \<Rightarrow> rule_row list \<Rightarrow> rule_row list" where
  "month_later pm r = map (\<lambda>x. if rr_id x = rr_id r then x\<lparr>rr_next_run_at := pm (rr_next_run_at x)\<rparr> else x)"

lemma parse_rule_entries_sum:
  assumes "parse_rule_entries 0 (rule_entries (rr_payload r)) = Inr (amount, es)"
    and "length (rule_entries (rr_payload r)) < 2 ^ 63"
  shows "amount = rule_sum es"
proof -
  have "2 ^ 63 * int (length (rule_entries (rr_payload r))) < 2 ^ 63 * 2 ^ 63"
    using assms(2) by (intro mult_strict_left_mono) simp_all
  then show ?thesis using parse_rule_entries_Inr [OF assms(1)] by (simp add: rule_sum_def)
qed

lemma db_result_eq: "db_result x = (res, s') \<Longrightarrow> \<exists>y. x = (y, s') \<and> isl y = isl res"
  by (auto simp: db_result_def split: prod.splits sum.splits)

lemma advance_rule_tx:
  assumes "in_tx fate (advance_rule pm (rr_id r)) s = (x, s')"
  shows "isl x \<and> s' = s\<lparr>pg_sequence := pg_sequence s'\<rparr> \<or> s' = s\<lparr>pg_rules := month_later pm r (pg_rules s)\<rparr>"
  using assms by (cases rule: in_tx_cases) (auto simp: month_later_def dest!: advance_rule_Inr)

text \<open>
  C27. A due recurring rule is materialised atomically, whatever it holds and whatever becomes of the
  database transaction. Either nothing but the sequence moved and the run reports an error; or the rule is
  one to skip (fewer than two entries, or a sum other than zero) and nothing but its own date moved, by a
  month; or it has at least two entries that sum to zero, and the book has exactly one new
  transaction with those entries and the time of the run in microseconds, exactly one log record shows
  it, and the rule is due a month later. A rule with an unreadable entry leaves only the first case.
\<close>

theorem recurring_rule_atomic:
  assumes "keys_ok s" and "length (rule_entries (rr_payload r)) < 2 ^ 63" and "run_rule pm rf c r s = (res, s')"
  shows "isl res \<and> s' = s\<lparr>pg_sequence := pg_sequence s'\<rparr> \<or>
    skipped_rule r \<and> s' = s\<lparr>pg_rules := month_later pm r (pg_rules s)\<rparr> \<or>
    (\<exists>es t ch. 2 \<le> length (rule_entries (rr_payload r)) \<and>
       parse_rule_entries 0 (rule_entries (rr_payload r)) = Inr (0, es) \<and> rule_sum es = 0 \<and>
       pg_transactions s' = pg_transactions s @ [t] \<and> txr_id t = rc_tx_id c \<and> txr_book_id t = rr_book_id r \<and>
       txr_deleted_at t = None \<and> txr_occurred_at t = to_micros (rc_now c) \<and>
       (\<forall>k. row_entries s' k = (if k = rc_tx_id c then es else row_entries s k)) \<and>
       pg_changes s' = pg_changes s @ [ch] \<and> chg_book_id ch = rr_book_id r \<and> chg_entity_id ch = rc_tx_id c \<and>
       chg_entity_version ch = txr_version t \<and> pg_rules s' = month_later pm r (pg_rules s))"
proof -
  let ?raws = "rule_entries (rr_payload r)"
  let ?skip = "db_result (in_tx (rc_fate c) (advance_rule pm (rr_id r)) s)"
  consider (unreadable) e where "parse_rule_entries 0 ?raws = Inl e" "res = Inl e" "s' = s"
    | (skip) "skipped_rule r" "?skip = (res, s')"
    | (post) es where "2 \<le> length ?raws" "parse_rule_entries 0 ?raws = Inr (0, es)"
        "db_result (in_tx (rc_fate c) (recurring_tx pm rf c r es) s) = (res, s')"
  proof (cases "length ?raws < 2")
    case True
    then show thesis using assms(3) skip by (simp add: run_rule_def skipped_rule_def)
  next
    case long: False
    show thesis
    proof (cases "parse_rule_entries 0 ?raws")
      case (Inl e)
      then show thesis using assms(3) long unreadable by (simp add: run_rule_def)
    next
      case (Inr x)
      then obtain amount es where p: "parse_rule_entries 0 ?raws = Inr (amount, es)" by (cases x) simp
      then have "amount = rule_sum es" using assms(2) by (rule parse_rule_entries_sum)
      with p long assms(3) skip post show thesis
        by (cases "amount = 0") (auto simp: run_rule_def skipped_rule_def)
    qed
  qed
  then show ?thesis
  proof cases
    case unreadable
    then show ?thesis by simp
  next
    case skip
    then show ?thesis using db_result_eq [OF skip(2)] by (auto dest: advance_rule_tx)
  next
    case (post es)
    obtain x where run: "in_tx (rc_fate c) (recurring_tx pm rf c r es) s = (x, s')" and res: "isl x = isl res"
      using db_result_eq [OF post(3)] by blast
    from run show ?thesis
    proof (cases rule: in_tx_cases)
      case (committed u)
      note s' = recurring_tx_Inr(2) [OF committed(1)]
      have "row_entries s' k = (if k = rc_tx_id c then es else row_entries s k)" for k
        by (rule row_entries_rule [OF assms(1) recurring_tx_Inr(1) [OF committed(1)]]) (simp add: s')
      then show ?thesis using post(1,2) parse_rule_entries_sum [OF post(2) assms(2)]
        by (intro disjI2 exI [of _ es] exI [of _ "(recurring_row c r)\<lparr>txr_occurred_at := to_micros (rc_now c)\<rparr>"]
            exI [of _ "recurring_change rf c r es (pg_sequence s + 1)"])
          (simp add: s' recurring_row_def recurring_change_def month_later_def)
    qed (use res in auto)
  qed
qed

subsection \<open>The invariant of the database\<close>

text \<open>
  What \<open>create_recurring\<close> does not check of a rule, and the invariant of the ledger needs: its entries are in one
  valid currency and on accounts of its own book.
\<close>

definition rule_ok :: "pg \<Rightarrow> rule_row \<Rightarrow> bool" where
  "rule_ok s r \<longleftrightarrow> length (rule_entries (rr_payload r)) < 2 ^ 63 \<and>
     (case parse_rule_entries 0 (rule_entries (rr_payload r)) of
        Inl _ \<Rightarrow> True
      | Inr (_, es) \<Rightarrow> list_all (\<lambda>(a, _, c). valid_currency c \<and> c = snd (snd (hd es)) \<and>
          list_ex (\<lambda>x. acc_id x = a \<and> acc_book_id x = rr_book_id r) (pg_accounts s)) es)"

lemma pg_inv_cong:
  assumes "pg_accounts s' = pg_accounts s" and "pg_transactions s' = pg_transactions s" and "pg_entries s' = pg_entries s"
    and "log_inv_pg s'"
  shows "pg_inv s \<Longrightarrow> pg_inv s'"
  using assms(4) by (simp add: pg_inv_def keys_ok_def accounts_map_def rows_inv_def row_owned_def row_entries_def assms(1-3))

lemma recurring_tx_log: "sql_within log_step (recurring_tx pm rf c r es)" "sql_within log_step (advance_rule pm i)"
proof -
  show a: "sql_within log_step (advance_rule pm i)" for i
    unfolding advance_rule_def by (intro log_order.within_modify) simp
  show "sql_within log_step (recurring_tx pm rf c r es)"
    unfolding recurring_tx_def by (intro log_order.within_intros log_stmts a)
qed

lemma rule_entries_ok:
  assumes "rule_ok s r" and "2 \<le> length (rule_entries (rr_payload r))"
    and "parse_rule_entries 0 (rule_entries (rr_payload r)) = Inr (0, es)" and "list_all (\<lambda>(_, n, _). n \<noteq> 0) es"
  shows "entries_ok es"
proof -
  have "length (rule_entries (rr_payload r)) < 2 ^ 63" using assms(1) by (simp add: rule_ok_def)
  then have "2 ^ 63 * int (length (rule_entries (rr_payload r))) < 2 ^ 63 * 2 ^ 63"
    by (intro mult_strict_left_mono) simp_all
  then have "length es = length (rule_entries (rr_payload r)) \<and> list_all (\<lambda>(_, n, _). in_i64 n) es \<and>
      0 = sum_list (map (\<lambda>(_, n, _). n) es)"
    using parse_rule_entries_Inr [OF assms(3)] by simp
  then show ?thesis
    using assms unfolding entries_ok_def rule_ok_def list_all_iff by (auto 4 3)
qed

lemma accounts_map_get:
  assumes "keys_ok s" and "x \<in> set (pg_accounts s)"
  shows "hm_get (accounts_map s) (acc_id x) = Some x"
  using assms by (auto simp: keys_ok_def accounts_map_def hm_get_def comp_def)

lemma recurring_tx_inv:
  assumes inv: "pg_inv s" and ok: "rule_ok s r" and len: "2 \<le> length (rule_entries (rr_payload r))"
    and p: "parse_rule_entries 0 (rule_entries (rr_payload r)) = Inr (0, es)"
    and run: "recurring_tx pm rf c r es s = (Inr u, s')"
  shows "pg_inv s'"
proof -
  have keys: "keys_ok s" and rows: "rows_inv s" and log: "log_inv_pg s" using inv by (auto simp: pg_inv_def)
  note ents_ok = rule_entries_ok [OF ok len p recurring_tx_nonzero [OF run]]
  let ?t = "(recurring_row c r)\<lparr>txr_occurred_at := to_micros (rc_now c)\<rparr>"
  note fresh = recurring_tx_Inr(1) [OF run] and s' = recurring_tx_Inr(2) [OF run]
  have t: "txr_id ?t = rc_tx_id c" "txr_book_id ?t = rr_book_id r" "auto_event ?t = None"
    by (simp_all add: recurring_row_def auto_event_def)
  have ents: "row_entries s' k = (if k = rc_tx_id c then es else row_entries s k)" for k
    by (rule row_entries_rule [OF keys fresh]) (simp add: s')
  have acc: "accounts_map s' = accounts_map s" by (simp add: s' accounts_map_def)
  have "list_all (\<lambda>(a, _, _). \<exists>x. hm_get (accounts_map s) a = Some x \<and> acc_book_id x = rr_book_id r) es"
    using ok p accounts_map_get [OF keys] by (force simp: rule_ok_def list_all_iff list_ex_iff)
  then have own: "row_owned s' ?t" by (simp add: row_owned_def ents acc t)
  have old: "entries_ok (row_entries s' (txr_id x)) \<and> row_owned s' x" if "x \<in> set (pg_transactions s)" for x
  proof -
    have "txr_id x \<noteq> rc_tx_id c" using that fresh by (auto simp: image_iff)
    then show ?thesis using that rows by (simp add: rows_inv_def list_all_iff row_owned_def ents acc)
  qed
  have "er_transaction_id (rule_entry_row (rc_tx_id c) x) = rc_tx_id c" for x by (simp add: rule_entry_row_def split: prod.split)
  then have "keys_ok s'" using keys fresh t by (auto simp: keys_ok_def s' list_all_iff)
  moreover have "rows_inv s'"
    using rows ents_ok own old t by (auto simp: rows_inv_def s' list_all_iff distinct_some_snoc ents [unfolded s'])
  moreover have "log_inv_pg s'"
    using recurring_tx_log(1) [of pm rf c r es] run log unfolding sql_within_def log_step_def by (metis snd_conv)
  ultimately show ?thesis using inv acc by (simp add: pg_inv_def)
qed

text \<open>A statement that leaves the ledger's tables alone and keeps the log in order.\<close>

definition off_ledger :: "'a sql \<Rightarrow> bool" where
  "off_ledger m \<longleftrightarrow> sql_within log_step m \<and>
     sql_within (\<lambda>s s'. pg_accounts s' = pg_accounts s \<and> pg_transactions s' = pg_transactions s \<and> pg_entries s' = pg_entries s) m"

lemma off_ledger_inv:
  assumes "off_ledger m" and "pg_inv s"
  shows "pg_inv (snd (in_tx fate m s))" and "pg_accounts (snd (in_tx fate m s)) = pg_accounts s"
proof -
  obtain r s' where run: "in_tx fate m s = (r, s')" by fastforce
  have log: "sql_within log_step m" using assms(1) by (simp add: off_ledger_def)
  have tabs: "pg_accounts s1 = pg_accounts s \<and> pg_transactions s1 = pg_transactions s \<and>
      pg_entries s1 = pg_entries s \<and> log_step s s1" if "m s = (x, s1)" for x s1
    using assms(1) that by (auto simp: off_ledger_def sql_within_def) (metis snd_conv)+
  have body: "pg_inv s1" if "m s = (Inr x, s1)" for x s1
    by (rule pg_inv_cong [OF _ _ _ _ assms(2)]) (use tabs [OF that] assms(2) in \<open>auto simp: log_step_def pg_inv_def\<close>)
  have "pg_inv s'" by (rule in_tx_pg_inv [OF assms(2) _ log run]) (erule body)
  then show "pg_inv (snd (in_tx fate m s))" by (simp add: run)
  from run have "pg_accounts s' = pg_accounts s"
    by (cases rule: in_tx_cases) (auto simp: tabs)
  then show "pg_accounts (snd (in_tx fate m s)) = pg_accounts s" by (simp add: run)
qed

lemma off_ledger_modify:
  assumes "\<And>s. pg_accounts (f s) = pg_accounts s \<and> pg_transactions (f s) = pg_transactions s \<and> pg_entries (f s) = pg_entries s"
    and "\<And>s. log_step s (f s)"
  shows "off_ledger (sql_modify c f)"
  using assms by (auto simp: off_ledger_def sql_within_def sql_modify_def log_order.order_refl split: option.split)

lemma log_step_filter:
  assumes "pg_changes s' = filter P (pg_changes s)" and "pg_sequence s' = pg_sequence s"
  shows "log_step s s'"
  using assms by (auto simp: log_step_def log_inv_pg_def sorted_wrt_map sorted_wrt_filter list_all_iff)

lemma off_ledger_jobs:
  "off_ledger (advance_rule pm i)" "off_ledger (purge_expired_sessions now)" "off_ledger (purge_audit_events now n)"
  "off_ledger compact_sync_log" "off_ledger (delete_attachments ids)" "off_ledger (insert_job j)"
  unfolding advance_rule_def purge_expired_sessions_def purge_audit_events_def compact_sync_log_def delete_attachments_def insert_job_def
  by (rule off_ledger_modify; auto intro: log_step_filter)+

lemma off_ledger_enqueue: "off_ledger (enqueue_at i ty payload priority t)"
  using off_ledger_jobs(6) [of "new_job i ty payload priority t"]
  by (auto simp: enqueue_at_def off_ledger_def sql_within_def sql_bind_def split: prod.splits sum.splits) (metis snd_conv)+

lemma run_rule_inv:
  assumes "pg_inv s" and "rule_ok s r"
  shows "pg_inv (snd (run_rule pm rf c r s))" and "pg_accounts (snd (run_rule pm rf c r s)) = pg_accounts s"
proof -
  have snd: "snd (db_result x) = snd x" for x :: "(sql_error + 'x) \<times> pg"
    by (simp add: db_result_def split: prod.split sum.split)
  let ?tx = "\<lambda>es. in_tx (rc_fate c) (recurring_tx pm rf c r es) s"
  have tx: "pg_inv (snd (?tx es)) \<and> pg_accounts (snd (?tx es)) = pg_accounts s"
    if p: "parse_rule_entries 0 (rule_entries (rr_payload r)) = Inr (0, es)" "2 \<le> length (rule_entries (rr_payload r))" for es
  proof
    obtain x s' where run: "?tx es = (x, s')" by fastforce
    show "pg_inv (snd (?tx es))"
      using in_tx_pg_inv [OF assms(1) recurring_tx_inv [OF assms p(2,1)] recurring_tx_log(1) run] by (simp add: run)
    from run have "pg_accounts s' = pg_accounts s"
      by (cases rule: in_tx_cases) (auto dest: recurring_tx_Inr(2))
    then show "pg_accounts (snd (?tx es)) = pg_accounts s" by (simp add: run)
  qed
  show "pg_inv (snd (run_rule pm rf c r s))" and "pg_accounts (snd (run_rule pm rf c r s)) = pg_accounts s"
    using tx off_ledger_inv [OF off_ledger_jobs(1) assms(1)] assms(1)
    by (auto simp: run_rule_def Let_def snd not_less split: sum.split)
qed

lemma rule_ok_cong:
  assumes "pg_accounts s' = pg_accounts s"
  shows "rule_ok s' = rule_ok s"
  by (rule ext) (simp only: rule_ok_def assms)

lemma run_rules_inv:
  assumes "pg_inv s" and "list_all (rule_ok s) rs"
  shows "pg_inv (snd (run_rules pm rf calls i rs s))"
  using assms
proof (induction rs arbitrary: i s)
  case (Cons r rs)
  obtain x s1 where run: "run_rule pm rf (calls i) r s = (x, s1)" by fastforce
  then have s1: "pg_inv s1" "pg_accounts s1 = pg_accounts s"
    using run_rule_inv [of s r pm rf "calls i"] Cons.prems by auto
  then have "list_all (rule_ok s1) rs" using Cons.prems(2) rule_ok_cong [OF s1(2)] by simp
  then show ?case using Cons.IH [OF s1(1)] s1(1) by (simp add: run split: sum.split)
qed simp

text \<open>
  C26. No job breaks the ledger. Whatever job runs and whatever becomes of its transactions, the database keeps
  its invariant: transactions balanced in one currency on accounts of their book, keys unique, the change log in
  order. For the recurring scan the rules must name one valid currency and accounts of their own book,
  which no part of the server checks.
\<close>

theorem execute_job_keeps_invariant:
  assumes "pg_inv s" and "list_all (rule_ok s) (pg_rules s)"
  shows "pg_inv (fst (snd (execute_job ops env c job (s, ob))))"
proof -
  have db: "pg_inv (snd (db_result x)) = pg_inv (snd x)" for x :: "(sql_error + 'x) \<times> pg"
    by (simp add: db_result_def split: prod.split sum.split)
  have statement: "pg_inv (snd (db_result (in_tx fate m s)))" if "off_ledger m" for m :: "unit sql" and fate
    using off_ledger_inv(1) [OF that assms(1)] by (simp add: db)
  have next_job: "pg_inv (snd (and_enqueue c ty n x))" if "pg_inv (snd x)" for ty n and x :: "unit job_result \<times> pg"
    using that off_ledger_inv(1) [OF off_ledger_enqueue] by (auto simp: and_enqueue_def split: prod.split sum.split)
  have due: "list_all (rule_ok s) (due_rules now s)" for now
    using assms(2) by (auto simp: due_rules_def list_all_iff dest!: in_set_takeD)
  have "off_ledger (sql_get (f :: pg \<Rightarrow> rule_row list))" for f
    by (simp add: off_ledger_def sql_within_def log_order.order_refl)
  note sel = off_ledger_inv [OF this assms(1)]
  have scan: "pg_inv (snd (generate_due_recurring pm rf now fate calls s))" for pm rf now fate calls
  proof (cases "in_tx fate (sql_get (due_rules now)) s")
    case (Pair x s1)
    have s1: "pg_inv s1" "pg_accounts s1 = pg_accounts s"
      using sel [of fate "due_rules now"] by (simp_all add: Pair)
    then have "pg_inv s1" "rule_ok s1 = rule_ok s" using rule_ok_cong by blast+
    moreover have "x = Inr d \<Longrightarrow> d = due_rules now s" for d
      using Pair by (auto simp: in_tx_def split: tx_fate.splits)
    ultimately show ?thesis
      using run_rules_inv [of s1 "due_rules now s"] due by (auto simp: generate_due_recurring_def Pair split: sum.split)
  qed
  have purge: "pg_inv (fst (snd (purge_stale_attachments ops n now fate k (s, ob))))" for n now fate k
    using statement [OF off_ledger_jobs(5)]
    by (auto simp: purge_stale_attachments_def Let_def split: prod.split sum.split) (metis snd_conv)+
  have with_ob: "fst (snd (case x of (r, s') \<Rightarrow> (r, s', ob))) = snd x" for x :: "unit job_result \<times> pg"
    by (simp split: prod.split)
  have then_next: "fst (snd (case x of (r, s', ob') \<Rightarrow> case and_enqueue c ty n (f r, s') of (r', s'') \<Rightarrow> (r', s'', ob'))) =
      snd (and_enqueue c ty n (f (fst x), fst (snd x)))" for x :: "'y \<times> pg \<times> 'b" and ty n f
    by (simp split: prod.split)
  have here: "pg_inv (snd (r, s))" for r :: "unit job_result" using assms(1) by simp
  show ?thesis
    by (simp only: execute_job_def Let_def prod.case if_distrib [of snd] if_distrib [of fst] with_ob then_next fst_conv snd_conv
        statement [OF off_ledger_jobs(2)] statement [OF off_ledger_jobs(4)] statement [OF off_ledger_jobs(3), THEN next_job]
        next_job [OF scan] next_job [OF here] next_job purge assms(1) if_True if_False simp_thms split: if_split)
qed

subsection \<open>Compaction and pulls\<close>

lemma compacted:
  assumes "compact_sync_log s = (Inr u, s')"
  shows "s' = s\<lparr>pg_changes := filter (\<lambda>c. max_sequence s - 100000 \<le> chg_sequence c) (pg_changes s)\<rparr>"
  using assms by (simp add: compact_sync_log_def sql_modify_Inr not_less)

text \<open>
  Compacting the change log is invisible to a client that is at most 100000 numbers behind: every pull from
  such a cursor gives the same page, the same next cursor and the same answer whether there is more as before.
\<close>

theorem compaction_keeps_pull:
  assumes "pg_inv s" and "list_all (\<lambda>c. in_i64 (chg_sequence c)) (pg_changes s)" and "in_i64 cur"
    and "compact_sync_log s = (Inr u, s')" and "max_sequence s - 100000 \<le> cur + 1"
  shows "pull_request_pg rf s' b l cur = pull_request_pg rf s b l cur"
proof -
  note s' = compacted [OF assms(4)]
  have inv: "log_inv_pg s" using assms(1) by (simp add: pg_inv_def)
  have "log_step s s'" by (rule log_step_filter) (simp_all add: s')
  then have inv': "log_inv_pg s'" using inv by (simp add: log_step_def)
  have seqs: "list_all (\<lambda>c. in_i64 (chg_sequence c)) (pg_changes s')" using assms(2) by (simp add: s' list_all_iff)
  have after: "filter (\<lambda>c. n < chg_sequence c) (book_rows_pg s' b) = filter (\<lambda>c. n < chg_sequence c) (book_rows_pg s b)" if "cur \<le> n" for n
    unfolding book_rows_pg_log [OF inv] book_rows_pg_log [OF inv']
    using that assms(5) by (auto simp: s' filter_filter intro!: filter_cong)
  have rows: "rows_pg s' b cur k = rows_pg s b cur k" for k
    by (simp only: rows_pg_log [OF inv] rows_pg_log [OF inv'] after [OF order_refl])
  have dto: "change_dto_pg rf s' = change_dto_pg rf s"
    by (rule ext) (simp add: change_dto_pg_def select_transaction_def s')
  have "cur \<le> page_cursor chg_sequence cur (page_loop chg_commit_id k 0 None (rows_pg s b cur k))" for k
  proof (cases "page_loop chg_commit_id k 0 None (rows_pg s b cur k) = []")
    case False
    then have "last (page_loop chg_commit_id k 0 None (rows_pg s b cur k)) \<in> set (rows_pg s b cur k)"
      by (metis page_loop_prefix Un_iff last_in_set set_append)
    then show ?thesis using False by (auto simp: page_cursor_def rows_pg_log [OF inv] dest!: in_set_takeD)
  qed (simp add: page_cursor_def)
  then show ?thesis
    by (simp only: pull_request_pg_page [OF inv assms(2,3)] pull_request_pg_page [OF inv' seqs assms(3)] rows dto after Let_def)
qed

text \<open>
  C28. A client that is further behind is not told. From any cursor, however old, the pulls from the compacted log
  end with \<open>hasMore = false\<close> and have delivered exactly what is left of the later changes: the ones that were compacted away
  are passed over in silence, where the protocol document demands \<open>SYNC_CURSOR_EXPIRED\<close> and a bootstrap.
\<close>

theorem stale_cursor_unnoticed:
  assumes "pg_inv s" and "list_all (\<lambda>c. in_i64 (chg_sequence c)) (pg_changes s)" and "in_i64 cur" and "l \<noteq> Some 0"
    and "compact_sync_log s = (Inr u, s')"
  shows "drain (pull_request_pg rf s' b l) (Suc (length (pg_changes s'))) cur =
    Some (map (change_dto_pg rf s') (filter (\<lambda>c. chg_book_id c = b \<and> cur < chg_sequence c \<and> max_sequence s - 100000 \<le> chg_sequence c)
      (pg_changes s)))"
proof -
  note s' = compacted [OF assms(5)]
  have inv: "log_inv_pg s" using assms(1) by (simp add: pg_inv_def)
  have "log_step s s'" by (rule log_step_filter) (simp_all add: s')
  then have inv': "log_inv_pg s'" using inv by (simp add: log_step_def)
  have seqs: "list_all (\<lambda>c. in_i64 (chg_sequence c)) (pg_changes s')" using assms(2) by (simp add: s' list_all_iff)
  let ?left = "filter (\<lambda>c. cur < chg_sequence c) (book_rows_pg s' b)"
  have left: "?left = filter (\<lambda>c. chg_book_id c = b \<and> cur < chg_sequence c \<and> max_sequence s - 100000 \<le> chg_sequence c) (pg_changes s)"
    unfolding book_rows_pg_log [OF inv'] by (auto simp: s' filter_filter intro!: filter_cong)
  have "length ?left \<le> length (pg_changes s')"
    unfolding book_rows_pg_log [OF inv'] by (metis filter_filter length_filter_le)
  have "drain (pull_request_pg rf s' b l) (Suc (length (pg_changes s'))) cur = Some (map (change_dto_pg rf s') ?left)"
  proof (rule pg_feed.drain_complete [OF inv', where limit = "pull_limit l" and ok = in_i64])
    show "0 < pull_limit l" using assms(4) by (cases l) (auto simp: pull_limit_def)
    show "in_i64 (chg_sequence c)" if "c \<in> set (book_rows_pg s' b)" for c
      using that seqs by (auto simp: book_rows_pg_def list_all_iff)
    show "length ?left < Suc (length (pg_changes s'))" using \<open>length ?left \<le> length (pg_changes s')\<close> by simp
  qed (use assms(3) in \<open>auto intro!: pull_request_pg_page [OF inv' seqs]\<close>)
  then show ?thesis by (simp only: left)
qed

subsection \<open>A rule that cannot be read\<close>

lemma due_rules_later:
  assumes "distinct (map rr_id (pg_rules s))" and "due_rules now s = r # rs" and "now \<le> later"
  shows "\<exists>rs'. due_rules later s = r # rs'"
proof -
  let ?k = "\<lambda>r. (rr_next_run_at r, rr_id r)"
  let ?due = "\<lambda>t. filter (\<lambda>r. rr_active r \<and> rr_next_run_at r \<le> t) (pg_rules s)"
  obtain all where all: "sort_key ?k (?due now) = r # all"
    using assms(2) by (cases "sort_key ?k (?due now)") (auto simp: due_rules_def)
  have r: "r \<in> set (?due now)" and least: "?k r \<le> ?k x" if "x \<in> set (?due now)" for x
  proof -
    have set: "set (?due now) = insert r (set all)" using all by (metis list.simps(15) set_sort)
    then show "r \<in> set (?due now)" by blast
    have "sorted (map ?k (r # all))" using sorted_sort_key [of ?k "?due now"] by (simp only: all)
    then show "?k r \<le> ?k x" using that set by auto
  qed
  have "r \<in> set (?due now)" using all by (metis list.set_intros(1) set_sort)
  then have r': "r \<in> set (?due later)" using assms(3) by auto
  then obtain x xs where xs: "sort_key ?k (?due later) = x # xs"
    by (metis list.set_cases set_sort)
  then have x: "x \<in> set (?due later)" and "?k x \<le> ?k r"
  proof -
    have set: "set (?due later) = insert x (set xs)" using xs by (metis list.simps(15) set_sort)
    then show "x \<in> set (?due later)" by blast
    have "sorted (map ?k (x # xs))" using sorted_sort_key [of ?k "?due later"] by (simp only: xs)
    then show "?k x \<le> ?k r" using r' set by auto
  qed
  have "x \<in> set (?due now)" using x \<open>?k x \<le> ?k r\<close> \<open>r \<in> set (?due now)\<close> by auto
  from \<open>?k x \<le> ?k r\<close> least [OF this] have "?k x = ?k r" by (rule order_antisym)
  then have "x = r" using assms(1) x r' by (auto simp: distinct_map inj_on_def)
  then show ?thesis by (simp add: due_rules_def xs)
qed

text \<open>
  One rule that cannot be read stops the recurring rules of every book. When the first due rule has a payload
  whose entries do not parse, which \<open>create_recurring\<close> accepts, the scan fails there and changes nothing, so
  it fails in the same way at any later time; and the job enqueues its successor only after a success.
\<close>

theorem poisoned_rule_blocks_scan:
  assumes "distinct (map rr_id (pg_rules s))" and "due_rules now s = r # rs" and "2 \<le> length (rule_entries (rr_payload r))"
    and "parse_rule_entries 0 (rule_entries (rr_payload r)) = Inl e"
    and "now \<le> jx_now c" and "jx_fate c = Runs" and "cj_job_type job = ''enqueue_recurring_scan''"
  shows "execute_job ops env c job (s, ob) = (Inl e, s, ob)"
proof -
  obtain rs' where due: "due_rules (jx_now c) s = r # rs'" using due_rules_later [OF assms(1,2,5)] by blast
  have "in_tx Runs (sql_get (due_rules (jx_now c))) s = (Inr (r # rs'), s)" by (simp add: in_tx_def due)
  then have "generate_due_recurring (je_plus_month env) (je_rfc3339 env) (jx_now c) Runs (jx_rules c) s = (Inl e, s)"
    using assms(3,4) by (simp add: generate_due_recurring_def run_rule_def)
  then show ?thesis using assms(6,7) by (simp add: execute_job_def and_enqueue_def)
qed

subsection \<open>Witnesses\<close>

definition ex_rule :: "json list \<Rightarrow> rule_row" where
  "ex_rule es = \<lparr>rr_id = ''r1'', rr_book_id = ''b1'', rr_name = ''Rent'', rr_payload = JObject [(''entries'', JArray es)],
     rr_next_run_at = 5, rr_active = True\<rparr>"

definition ex_rule_entry :: "string \<Rightarrow> string \<Rightarrow> string \<Rightarrow> json" where
  "ex_rule_entry a n c = JObject [(''accountId'', JString a), (''amountMinor'', JString n), (''currency'', JString c)]"

definition ex_rule_pg :: "json list \<Rightarrow> pg" where
  "ex_rule_pg es = ex_pg\<lparr>pg_accounts := map (\<lambda>i. \<lparr>acc_id = i, acc_book_id = ''b1'', acc_name = ''A'', acc_account_type = ''asset'',
     acc_currency = ''CNY'', acc_parent_account_id = None, acc_version = 1\<rparr>) [''b1:cash'', ''b1:bank''], pg_rules := [ex_rule es]\<rparr>"

definition ex_rule_call :: rule_call where
  "ex_rule_call = \<lparr>rc_tx_id = ''t1'', rc_commit_id = ''c1'', rc_now = 7, rc_fate = Runs\<rparr>"

definition ex_job_call :: job_call where
  "ex_job_call = \<lparr>jx_now = 7, jx_next_id = ''j2'', jx_fate = Runs, jx_next_fate = Runs, jx_reached = 0,
     jx_rules = (\<lambda>_. ex_rule_call), jx_task = Inr ()\<rparr>"

definition ex_job_env :: job_env where
  "ex_job_env = \<lparr>je_audit_retention_days = 365, je_attachment_pending_ttl_hours = 24, je_backup_dir = False,
     je_backup_interval_hours = 24, je_recovery_drill_enabled = False, je_recovery_drill_interval_hours = 720,
     je_plus_month = (\<lambda>t. t + hours 720), je_rfc3339 = ex_rf\<rparr>"

definition ex_scan :: claimed_job where
  "ex_scan = \<lparr>cj_id = ''j1'', cj_job_type = ''enqueue_recurring_scan'', cj_payload = JObject [], cj_attempts = 1, cj_max_attempts = 5\<rparr>"

abbreviation ex_rent :: "json list" where
  "ex_rent \<equiv> [ex_rule_entry ''b1:cash'' ''-5'' ''CNY'', ex_rule_entry ''b1:bank'' ''5'' ''CNY'']"

lemma ex_rule_inv: "pg_inv (ex_rule_pg es)"
  by (simp add: pg_inv_def keys_ok_def rows_inv_def log_inv_pg_def ex_rule_pg_def ex_pg_def accounts_map_def account_map_ok_def
      account_ok_def hm_get_def hm_wf_def)

lemma ex_rule_sel: "rr_payload (ex_rule es) = JObject [(''entries'', JArray es)]" "pg_rules (ex_rule_pg es) = [ex_rule es]"
  "rule_entries (rr_payload (ex_rule es)) = es"
  by (simp_all add: ex_rule_def ex_rule_pg_def rule_entries_def)

lemma ex_rent_parse: "parse_rule_entries 0 ex_rent = Inr (0, [(''b1:cash'', -5, ''CNY''), (''b1:bank'', 5, ''CNY'')])"
  by code_simp

lemma ex_rent_len: "length (rule_entries (rr_payload (ex_rule ex_rent))) = 2"
  by (simp add: ex_rule_sel(3))

theorem execute_job_keeps_invariant_witness:
  "pg_inv (fst (snd (execute_job ex_ops ex_job_env ex_job_call ex_scan (ex_rule_pg ex_rent, ex_fs))))"
proof (rule execute_job_keeps_invariant [OF ex_rule_inv])
  have "rule_ok (ex_rule_pg ex_rent) (ex_rule ex_rent)"
    unfolding rule_ok_def ex_rule_sel(3) ex_rent_parse
    by (simp add: ex_rule_pg_def ex_rule_def valid_currency_def is_ascii_uppercase_def byte_def)
  then show "list_all (rule_ok (ex_rule_pg ex_rent)) (pg_rules (ex_rule_pg ex_rent))" by (simp add: ex_rule_sel(2))
qed

theorem recurring_rule_atomic_witness:
  "\<exists>t. pg_transactions (snd (run_rule (\<lambda>t. t + hours 720) ex_rf ex_rule_call (ex_rule ex_rent) (ex_rule_pg ex_rent))) = [t] \<and> txr_id t = ''t1''"
proof -
  let ?run = "run_rule (\<lambda>t. t + hours 720) ex_rf ex_rule_call (ex_rule ex_rent) (ex_rule_pg ex_rent)"
  have keys: "keys_ok (ex_rule_pg ex_rent)" using ex_rule_inv by (simp add: pg_inv_def)
  have "\<not> isl (fst ?run)" by code_simp
  moreover have len: "2 \<le> length (rule_entries (rr_payload (ex_rule ex_rent)))"
    "length (rule_entries (rr_payload (ex_rule ex_rent))) < 2 ^ 63"
    by (simp_all add: ex_rent_len)
  moreover have "parse_rule_entries 0 (rule_entries (rr_payload (ex_rule ex_rent))) = Inr (0, [(''b1:cash'', -5, ''CNY''), (''b1:bank'', 5, ''CNY'')])"
    using ex_rent_parse by (simp only: ex_rule_sel(3))
  then have "\<not> skipped_rule (ex_rule ex_rent)" using len by (simp add: skipped_rule_def rule_sum_def)
  moreover have "pg_transactions (ex_rule_pg ex_rent) = []" by (simp add: ex_rule_pg_def ex_pg_def)
  ultimately show ?thesis
    using recurring_rule_atomic [OF keys len(2), of "\<lambda>t. t + hours 720" ex_rf ex_rule_call "fst ?run" "snd ?run"]
    by (auto simp: ex_rule_call_def)
qed

theorem compaction_keeps_pull_witness:
  "pull_request_pg ex_rf (snd (compact_sync_log (snd (push_pg ex_rf ex_pg_call ''b1'' ex_push ex_pg)))) ''b1'' None 0 =
   pull_request_pg ex_rf (snd (push_pg ex_rf ex_pg_call ''b1'' ex_push ex_pg)) ''b1'' None 0"
proof -
  let ?s = "snd (push_pg ex_rf ex_pg_call ''b1'' ex_push ex_pg)"
  have inv: "pg_inv ?s" by (rule push_pg_inv [OF ex_pg_inv]) (simp add: ex_push_def)
  have seqs: "map chg_sequence (pg_changes ?s) = [1, 2, 3]" by code_simp
  then have "list_all in_i64 (map chg_sequence (pg_changes ?s))" by (simp add: in_signed_def)
  then have fits: "list_all (\<lambda>c. in_i64 (chg_sequence c)) (pg_changes ?s)" by (simp add: list_all_iff)
  have "max_sequence ?s = 3" using seqs by (auto simp: max_sequence_def)
  then show ?thesis
    by (intro compaction_keeps_pull [OF inv fits, of 0 "()"]) (auto simp: in_signed_def compact_sync_log_def sql_modify_def)
qed

definition ex_old_log :: pg where
  "ex_old_log = ex_pg\<lparr>pg_sequence := 100009, pg_changes := [ex_change 2 ''b1'' ''c1'', ex_change 100007 ''b1'' ''c2'']\<rparr>"

theorem stale_cursor_unnoticed_witness:
  "drain (pull_request_pg ex_rf (snd (compact_sync_log ex_old_log)) ''b1'' None) 2 0 =
    Some [change_dto_pg ex_rf (snd (compact_sync_log ex_old_log)) (ex_change 100007 ''b1'' ''c2'')]"
proof -
  have inv: "pg_inv ex_old_log"
    by (simp add: pg_inv_def keys_ok_def rows_inv_def log_inv_pg_def account_map_ok_def ex_old_log_def ex_pg_def accounts_map_def
        ex_change_def)
  have seqs: "list_all (\<lambda>c. in_i64 (chg_sequence c)) (pg_changes ex_old_log)"
    by (simp add: ex_old_log_def ex_change_def in_signed_def)
  have "max_sequence ex_old_log = 100007"
    and kept: "pg_changes (snd (compact_sync_log ex_old_log)) = [ex_change 100007 ''b1'' ''c2'']"
    by (simp_all add: max_sequence_def compact_sync_log_def sql_modify_def ex_old_log_def ex_change_def)
  moreover have "compact_sync_log ex_old_log = (Inr (), snd (compact_sync_log ex_old_log))"
    by (simp add: compact_sync_log_def sql_modify_def)
  moreover have "pg_changes ex_old_log = [ex_change 2 ''b1'' ''c1'', ex_change 100007 ''b1'' ''c2'']"
    by (simp add: ex_old_log_def)
  ultimately show ?thesis
    using stale_cursor_unnoticed [OF inv seqs, of 0 None "()" "snd (compact_sync_log ex_old_log)" ex_rf "''b1''"]
    by (simp add: in_signed_def ex_change_def numeral_2_eq_2 del: drain.simps)
qed

text \<open>
  Two workers whose scans overlap read the same due rule, and each of them posts it: neither the read locks the rule
  nor does the transaction look at its date again.
\<close>

lemma overlapping_scans_post_twice:
  "let due = due_rules 7 (ex_rule_pg ex_rent);
       other = ex_rule_call\<lparr>rc_tx_id := ''t2'', rc_commit_id := ''c2''\<rparr>;
       (r, s) = run_rules (\<lambda>t. t + hours 720) ex_rf (\<lambda>_. ex_rule_call) 0 due (ex_rule_pg ex_rent);
       (r', s') = run_rules (\<lambda>t. t + hours 720) ex_rf (\<lambda>_. other) 0 due s
   in due = [ex_rule ex_rent] \<and> r = Inr () \<and> r' = Inr () \<and> map txr_id (pg_transactions s') = [''t1'', ''t2'']"
  by code_simp

theorem poisoned_rule_blocks_scan_witness:
  "fst (execute_job ex_ops ex_job_env ex_job_call ex_scan (ex_rule_pg [JNull, JNull], ex_fs)) =
     Inl (PayloadError ''missing accountId'')"
proof -
  let ?s = "ex_rule_pg [JNull, JNull]"
  have d: "distinct (map rr_id (pg_rules ?s))" by (simp add: ex_rule_sel(2))
  have due: "due_rules 6 ?s = [ex_rule [JNull, JNull]]" by (simp add: due_rules_def ex_rule_sel(2)) (simp add: ex_rule_def)
  have parse: "parse_rule_entries 0 (rule_entries (rr_payload (ex_rule [JNull, JNull]))) = Inl (PayloadError ''missing accountId'')"
    by (simp add: ex_rule_sel(3) parse_rule_entry_def get_str_def)
  have "execute_job ex_ops ex_job_env ex_job_call ex_scan (?s, ex_fs) = (Inl (PayloadError ''missing accountId''), ?s, ex_fs)"
    by (rule poisoned_rule_blocks_scan [OF d due _ parse]) (simp_all add: ex_rule_sel(3) ex_job_call_def ex_scan_def)
  then show ?thesis by simp
qed

text \<open>
  Rules are not checked against the account and currency rules of the ledger: a rule with five CNY and minus
  five USD passes the sum and is stored as a transaction that \<open>push\<close> would refuse.
\<close>

theorem recurring_mixes_currencies:
  "\<not> pg_inv (snd (run_rule (\<lambda>t. t + hours 720) ex_rf ex_rule_call
      (ex_rule [ex_rule_entry ''b1:cash'' ''-5'' ''CNY'', ex_rule_entry ''b1:bank'' ''5'' ''USD''])
      (ex_rule_pg [ex_rule_entry ''b1:cash'' ''-5'' ''CNY'', ex_rule_entry ''b1:bank'' ''5'' ''USD''])))" (is "\<not> pg_inv ?s")
proof -
  have "map txr_id (pg_transactions ?s) = [''t1'']"
    and "row_entries ?s ''t1'' = [(''b1:cash'', -5, ''CNY''), (''b1:bank'', 5, ''USD'')]" by code_simp+
  then show ?thesis by (auto simp: pg_inv_def rows_inv_def list_all_iff entries_ok_def)
qed

end
