(* ===== verification/Backup_Bundle.thy ===== *)
theory Backup_Bundle
  imports Object_Backup
begin

section \<open>Backup bundles (infrastructure/backup_bundle.rs)\<close>

text \<open>
  A bundle holds the database dump and the backup of the objects: a manifest and one payload per file,
  encrypted in frames when a password is given. AES-256-GCM, Argon2id, SHA-256 in hex and Base64 are
  the operations of \<open>crypto\<close>; what their documentation promises is \<open>crypto_laws\<close>. A bundle is a map from
  the paths of its files to their bytes; the JSON encoder and decoder of the manifest are arguments. Sizes are
  natural numbers, wrapped or saturated where the code adds sizes it has not checked.
\<close>

record crypto =
  cy_sha256 :: "bytes \<Rightarrow> string"
  cy_encrypt :: "bytes \<Rightarrow> bytes \<Rightarrow> bytes \<Rightarrow> bytes \<Rightarrow> bytes option"
  cy_decrypt :: "bytes \<Rightarrow> bytes \<Rightarrow> bytes \<Rightarrow> bytes \<Rightarrow> bytes option"
  cy_argon2 :: "nat \<Rightarrow> nat \<Rightarrow> nat \<Rightarrow> string \<Rightarrow> bytes \<Rightarrow> bytes option"
  cy_base64 :: "bytes \<Rightarrow> string"
  cy_unbase64 :: "string \<Rightarrow> bytes option"

text \<open>A ciphertext is its plaintext and a tag of 16 bytes, and decrypts under the same key, nonce and data.\<close>

definition crypto_laws :: "crypto \<Rightarrow> bool" where
  "crypto_laws cy \<longleftrightarrow> (\<forall>b. cy_unbase64 cy (cy_base64 cy b) = Some b) \<and>
     (\<forall>k n m a c. cy_encrypt cy k n m a = Some c \<longrightarrow> length c = length m + 16 \<and> cy_decrypt cy k n c a = Some m)"

datatype bundle_error =
    PasswordTooShort | PasswordRequired | DumpMissing | ObjectBackupInvalid backup_error | BundleOutputNotEmpty
  | BundleOutputOverlaps | InputSymlink | BadPath | EncryptFailed | FrameTooLarge | ChunkCountOverflow
  | UnsupportedEncryption | BadSalt | KeyDerivationFailed
  | BundleManifestMissing | BundleManifestUnreadable | WrongBundleKind | WrongBundleSchema | BundleCountMismatch
  | EncryptionMismatch | DuplicateLogicalPath | DuplicatePayloadPath | PayloadMissing | MissingFrameData
  | BadNonce | BadChunkSize | PayloadTruncated | BadFrameLength | BadPassword | TrailingBytes
  | StoredIntegrity | PlainSize | PlainIntegrity | BundleTotalMismatch | OutputExists | OutputIo
  | ReplicaMismatch | KeepZero | NotADirectory | BundleIo

definition BUNDLE_KIND :: string where "BUNDLE_KIND = ''ledgerly-server-backup-bundle''"
definition BUNDLE_SCHEMA_VERSION :: nat where "BUNDLE_SCHEMA_VERSION = 2"
definition BUNDLE_MIN_READABLE_SCHEMA_VERSION :: nat where "BUNDLE_MIN_READABLE_SCHEMA_VERSION = 1"
definition DATABASE_LOGICAL_PATH :: string where "DATABASE_LOGICAL_PATH = ''database.dump''"
definition OBJECT_STORE_LOGICAL_PREFIX :: string where "OBJECT_STORE_LOGICAL_PREFIX = ''object-store/''"
definition BUNDLE_CHUNK_SIZE_BYTES :: nat where "BUNDLE_CHUNK_SIZE_BYTES = 1024 * 1024"

record bundle_encryption =
  be_cipher :: string
  be_kdf :: string
  be_salt_base64 :: string
  be_memory_kib :: nat
  be_iterations :: nat
  be_parallelism :: nat

record bundle_file =
  bf_logical_path :: string
  bf_payload_path :: string
  bf_size_bytes :: nat
  bf_sha256 :: string
  bf_stored_size_bytes :: nat
  bf_stored_sha256 :: string
  bf_nonce_base64 :: "string option"
  bf_chunk_size_bytes :: "nat option"
  bf_chunk_count :: "nat option"

record backup_bundle_manifest =
  bm_kind :: string
  bm_schema_version :: nat
  bm_created_at :: string
  bm_encrypted :: bool
  bm_encryption :: "bundle_encryption option"
  bm_file_count :: nat
  bm_total_size_bytes :: nat
  bm_files :: "bundle_file list"

record backup_bundle_report =
  br_file_count :: nat
  br_total_size_bytes :: nat
  br_encrypted :: bool

record bundle_verification =
  bv_file_count :: nat
  bv_total_size_bytes :: nat
  bv_encrypted :: bool
  bv_plaintext_verified :: bool

type_synonym bundle_dir = "(string, bytes) hashmap"

definition BUNDLE_MANIFEST_FILE :: string where "BUNDLE_MANIFEST_FILE = ''manifest.json''"

subsection \<open>Paths\<close>

definition validated_relative_path :: "string \<Rightarrow> string option" where
  "validated_relative_path path =
     (if path = [] \<or> CHR 0x5C \<in> set path \<or> hd path = CHR ''/'' \<or> list_ex bad_segment (split_on (CHR ''/'') path)
      then None else Some path)"

definition validated_logical_path :: "string \<Rightarrow> string option" where
  "validated_logical_path path =
     (case validated_relative_path path of
        None \<Rightarrow> None
      | Some p \<Rightarrow> if p \<noteq> DATABASE_LOGICAL_PATH \<and> \<not> starts_with OBJECT_STORE_LOGICAL_PREFIX p then None else Some p)"

fun collect_inputs :: "string list \<Rightarrow> (string \<times> fs_node) list \<Rightarrow> bundle_error + (string \<times> bytes) list" where
  "collect_inputs prefix [] = Inr []"
| "collect_inputs prefix ((name, SymlinkN) # rest) = Inl InputSymlink"
| "collect_inputs prefix ((name, OtherN) # rest) = collect_inputs prefix rest"
| "collect_inputs prefix ((name, FileN c) # rest) =
     map_sum (\<lambda>e. e) ((#) (OBJECT_STORE_LOGICAL_PREFIX @ join_path (prefix @ [name]), c)) (collect_inputs prefix rest)"
| "collect_inputs prefix ((name, DirN es) # rest) =
     (case collect_inputs (prefix @ [name]) es of
        Inl e \<Rightarrow> Inl e
      | Inr files \<Rightarrow> map_sum (\<lambda>e. e) ((@) files) (collect_inputs prefix rest))"

subsection \<open>Frames\<close>

definition be32 :: "nat \<Rightarrow> bytes" where
  "be32 n = [char_of (n div 2 ^ 24 mod 256), char_of (n div 2 ^ 16 mod 256), char_of (n div 2 ^ 8 mod 256), char_of (n mod 256)]"

fun from_be32 :: "bytes \<Rightarrow> nat" where
  "from_be32 [a, b, c, d] = ((of_char a * 256 + of_char b) * 256 + of_char c) * 256 + of_char d"
| "from_be32 _ = 0"

definition chunk_nonce :: "bytes \<Rightarrow> nat \<Rightarrow> bytes" where
  "chunk_nonce prefix index = prefix @ be32 index"

definition chunk_aad :: "string \<Rightarrow> nat \<Rightarrow> bytes" where
  "chunk_aad logical_path index = logical_path @ CHR 0x00 # be32 index"

text \<open>\<open>read_filled\<close> fills the buffer, so a chunk is shorter than \<open>cs\<close> only at the end.\<close>

function encrypt_chunks :: "crypto \<Rightarrow> nat \<Rightarrow> bytes \<Rightarrow> bytes \<Rightarrow> string \<Rightarrow> nat \<Rightarrow> bytes \<Rightarrow> bundle_error + (bytes \<times> nat)" where
  "encrypt_chunks cy cs key prefix logical_path index contents =
     (if contents = [] \<or> cs = 0 then Inr ([], index)
      else case cy_encrypt cy key (chunk_nonce prefix index) (take cs contents) (chunk_aad logical_path index) of
        None \<Rightarrow> Inl EncryptFailed
      | Some ciphertext \<Rightarrow>
          if 2 ^ 32 \<le> length ciphertext then Inl FrameTooLarge
          else if 2 ^ 32 \<le> index + 1 then Inl ChunkCountOverflow
          else map_sum (\<lambda>e. e) (apfst (\<lambda>rest. be32 (length ciphertext) @ ciphertext @ rest))
            (encrypt_chunks cy cs key prefix logical_path (index + 1) (drop cs contents)))"
  by pat_completeness auto
termination by (relation "measure (\<lambda>(_, _, _, _, _, _, contents). length contents)") auto

declare encrypt_chunks.simps [simp del]

text \<open>
  The loop over the frames that are left: the size of the plaintext, the plaintext (empty without a key) and
  the bytes after the last frame.
\<close>

fun decrypt_frames :: "crypto \<Rightarrow> bytes option \<Rightarrow> bytes \<Rightarrow> string \<Rightarrow> nat \<Rightarrow> nat \<Rightarrow> nat \<Rightarrow> bytes \<Rightarrow> bundle_error + (nat \<times> bytes \<times> bytes)" where
  "decrypt_frames cy key prefix logical_path cs index 0 stored = Inr (0, [], stored)"
| "decrypt_frames cy key prefix logical_path cs index (Suc left) stored =
     (let len = from_be32 (take 4 stored); rest = drop 4 stored; ciphertext = take len rest in
      if length stored < 4 then Inl PayloadTruncated
      else if len < 16 then Inl BadFrameLength
      else if 0 < left \<and> len - 16 \<noteq> cs then Inl BadFrameLength
      else if cs < len - 16 then Inl BadFrameLength
      else if length rest < len then Inl PayloadTruncated
      else case (case key of None \<Rightarrow> Inr []
                 | Some k \<Rightarrow>
                     (case cy_decrypt cy k (chunk_nonce prefix index) ciphertext (chunk_aad logical_path index) of
                        None \<Rightarrow> Inl BadPassword
                      | Some plaintext \<Rightarrow> if length plaintext \<noteq> len - 16 then Inl BadFrameLength else Inr plaintext)) of
        Inl e \<Rightarrow> Inl e
      | Inr plaintext \<Rightarrow>
          map_sum (\<lambda>e. e) (\<lambda>(plain_size, ps, trailing). (len - 16 + plain_size, plaintext @ ps, trailing))
            (decrypt_frames cy key prefix logical_path cs (Suc index) left (drop len rest)))"

subsection \<open>Keys\<close>

definition create_encryption :: "crypto \<Rightarrow> bytes \<Rightarrow> bundle_encryption" where
  "create_encryption cy salt =
     \<lparr>be_cipher = ''aes-256-gcm'', be_kdf = ''argon2id'', be_salt_base64 = cy_base64 cy salt,
      be_memory_kib = 19456, be_iterations = 2, be_parallelism = 1\<rparr>"

definition derive_key :: "crypto \<Rightarrow> string \<Rightarrow> bundle_encryption \<Rightarrow> bundle_error + bytes" where
  "derive_key cy password encryption =
     (if be_cipher encryption \<noteq> ''aes-256-gcm'' \<or> be_kdf encryption \<noteq> ''argon2id'' then Inl UnsupportedEncryption
      else case cy_unbase64 cy (be_salt_base64 encryption) of None \<Rightarrow> Inl BadSalt | Some salt \<Rightarrow>
      if length salt < 8 then Inl BadSalt
      else case cy_argon2 cy (be_memory_kib encryption) (be_iterations encryption) (be_parallelism encryption) password salt of
        None \<Rightarrow> Inl KeyDerivationFailed
      | Some key \<Rightarrow> Inr key)"

text \<open>\<open>manifest.encrypted\<close> goes with the password and the encryption data: no key without both.\<close>

definition bundle_key :: "crypto \<Rightarrow> backup_bundle_manifest \<Rightarrow> string option \<Rightarrow> bundle_error + bytes option" where
  "bundle_key cy manifest password =
     (if bm_encrypted manifest \<and> (case password of Some p \<Rightarrow> length p < 8 | None \<Rightarrow> False) then Inl PasswordTooShort
      else if bm_encrypted manifest
      then (case (password, bm_encryption manifest) of
              (Some p, Some encryption) \<Rightarrow> map_sum (\<lambda>e. e) Some (derive_key cy p encryption)
            | _ \<Rightarrow> Inr None)
      else Inr None)"

subsection \<open>Writing a bundle\<close>

definition write_bundle_payload :: "crypto \<Rightarrow> bytes option \<Rightarrow> bytes \<Rightarrow> string \<Rightarrow> string \<Rightarrow> bytes \<Rightarrow> bundle_error + (bundle_file \<times> bytes)" where
  "write_bundle_payload cy key nonce_prefix logical_path payload_path contents =
     (let file = \<lparr>bf_logical_path = logical_path, bf_payload_path = payload_path, bf_size_bytes = length contents,
            bf_sha256 = cy_sha256 cy contents, bf_stored_size_bytes = length contents, bf_stored_sha256 = cy_sha256 cy contents,
            bf_nonce_base64 = None, bf_chunk_size_bytes = None, bf_chunk_count = None\<rparr> in
      case key of
        None \<Rightarrow> Inr (file, contents)
      | Some k \<Rightarrow>
          map_sum (\<lambda>e. e) (\<lambda>(stored, chunk_count).
            (file\<lparr>bf_stored_size_bytes := length stored, bf_stored_sha256 := cy_sha256 cy stored,
               bf_nonce_base64 := Some (cy_base64 cy nonce_prefix), bf_chunk_size_bytes := Some BUNDLE_CHUNK_SIZE_BYTES,
               bf_chunk_count := Some chunk_count\<rparr>, stored))
          (encrypt_chunks cy BUNDLE_CHUNK_SIZE_BYTES k nonce_prefix logical_path 0 contents))"

definition payload_name :: "nat \<Rightarrow> string" where
  "payload_name index = ''payload/'' @ pad8 index @ ''.bin''"

text \<open>\<open>nonces\<close> are the random prefixes, one per file.\<close>

fun write_payloads :: "crypto \<Rightarrow> bytes option \<Rightarrow> (nat \<Rightarrow> bytes) \<Rightarrow> nat \<Rightarrow> (string \<times> bytes) list \<Rightarrow> bundle_error + (bundle_file \<times> bytes) list" where
  "write_payloads cy key nonces index [] = Inr []"
| "write_payloads cy key nonces index ((path, contents) # inputs) =
     (case validated_logical_path path of None \<Rightarrow> Inl BadPath | Some logical_path \<Rightarrow>
      case write_bundle_payload cy key (nonces index) logical_path (payload_name index) contents of Inl e \<Rightarrow> Inl e | Inr payload \<Rightarrow>
      map_sum (\<lambda>e. e) ((#) payload) (write_payloads cy key nonces (Suc index) inputs))"

record bundle_call =
  bc_created_at :: string
  bc_salt :: bytes
  bc_nonces :: "nat \<Rightarrow> bytes"

definition bundle_manifest :: "bundle_call \<Rightarrow> bundle_encryption option \<Rightarrow> bundle_file list \<Rightarrow> backup_bundle_manifest" where
  "bundle_manifest c encryption files =
     \<lparr>bm_kind = BUNDLE_KIND, bm_schema_version = BUNDLE_SCHEMA_VERSION, bm_created_at = bc_created_at c,
      bm_encrypted = (encryption \<noteq> None), bm_encryption = encryption, bm_file_count = length files,
      bm_total_size_bytes = sum_list (map bf_size_bytes files), bm_files = files\<rparr>"

definition bundle_inputs :: "bytes \<Rightarrow> (string \<times> fs_node) list \<Rightarrow> bundle_error + (string \<times> bytes) list" where
  "bundle_inputs dump objects =
     map_sum (\<lambda>e. e) (\<lambda>files. sort_key fst ((DATABASE_LOGICAL_PATH, dump) # files)) (collect_inputs [] objects)"

definition fill_bundle :: "crypto \<Rightarrow> (backup_bundle_manifest \<Rightarrow> bytes) \<Rightarrow> bundle_call \<Rightarrow> bytes \<Rightarrow> (string \<times> fs_node) list \<Rightarrow> string option \<Rightarrow>
    bundle_error + (backup_bundle_report \<times> bundle_dir)" where
  "fill_bundle cy encode c dump objects password =
     (let encryption = map_option (\<lambda>_. create_encryption cy (bc_salt c)) password in
      case bundle_inputs dump objects of Inl e \<Rightarrow> Inl e | Inr inputs \<Rightarrow>
      case (case (password, encryption) of
              (Some p, Some en) \<Rightarrow> map_sum (\<lambda>e. e) Some (derive_key cy p en) | _ \<Rightarrow> Inr None) of Inl e \<Rightarrow> Inl e | Inr key \<Rightarrow>
      case write_payloads cy key (bc_nonces c) 0 inputs of Inl e \<Rightarrow> Inl e | Inr payloads \<Rightarrow>
        let manifest = bundle_manifest c encryption (map fst payloads) in
        Inr (\<lparr>br_file_count = bm_file_count manifest, br_total_size_bytes = bm_total_size_bytes manifest,
               br_encrypted = bm_encrypted manifest\<rparr>,
             hm_insert BUNDLE_MANIFEST_FILE (encode manifest) (map (\<lambda>(f, stored). (bf_payload_path f, stored)) payloads)))"

text \<open>
  \<open>verified\<close> is what \<open>verify_object_store_backup\<close> says of the object backup, \<open>overlaps\<close> whether the output contains
  an input or lies within one. When filling fails the output directory is removed.
\<close>

definition create_backup_bundle :: "crypto \<Rightarrow> (backup_bundle_manifest \<Rightarrow> bytes) \<Rightarrow> bundle_call \<Rightarrow> bytes option \<Rightarrow>
    backup_error + object_store_backup_report \<Rightarrow> (string \<times> fs_node) list \<Rightarrow> out_dir \<Rightarrow> bool \<Rightarrow> string option \<Rightarrow>
    bundle_error + (backup_bundle_report \<times> bundle_dir)" where
  "create_backup_bundle cy encode c dump verified objects out overlaps password =
     (if (case password of Some p \<Rightarrow> length p < 8 | None \<Rightarrow> False) then Inl PasswordTooShort
      else case dump of None \<Rightarrow> Inl DumpMissing | Some database_dump \<Rightarrow>
      case verified of Inl e \<Rightarrow> Inl (ObjectBackupInvalid e) | Inr _ \<Rightarrow>
      if out = OutNonEmpty then Inl BundleOutputNotEmpty
      else if overlaps then Inl BundleOutputOverlaps
      else fill_bundle cy encode c database_dump objects password)"

subsection \<open>Reading a bundle\<close>

definition read_manifest :: "(bytes \<Rightarrow> backup_bundle_manifest option) \<Rightarrow> bundle_dir \<Rightarrow> bundle_error + backup_bundle_manifest" where
  "read_manifest decode dir =
     (case hm_get dir BUNDLE_MANIFEST_FILE of None \<Rightarrow> Inl BundleManifestMissing | Some raw \<Rightarrow>
      case decode raw of None \<Rightarrow> Inl BundleManifestUnreadable | Some manifest \<Rightarrow>
      if bm_kind manifest \<noteq> BUNDLE_KIND then Inl WrongBundleKind
      else if bm_schema_version manifest < BUNDLE_MIN_READABLE_SCHEMA_VERSION \<or> BUNDLE_SCHEMA_VERSION < bm_schema_version manifest
      then Inl WrongBundleSchema
      else if bm_file_count manifest \<noteq> length (bm_files manifest) then Inl BundleCountMismatch
      else if bm_encrypted manifest \<noteq> (bm_encryption manifest \<noteq> None) then Inl EncryptionMismatch
      else Inr manifest)"

text \<open>The plaintext of a payload, empty when it is encrypted and there is no key.\<close>

definition read_frames :: "crypto \<Rightarrow> bytes option \<Rightarrow> bundle_file \<Rightarrow> string \<Rightarrow> bytes \<Rightarrow> bundle_error + (nat \<times> bytes)" where
  "read_frames cy key file logical_path stored =
     (case bf_chunk_size_bytes file of None \<Rightarrow> Inl MissingFrameData | Some chunk_size \<Rightarrow>
      case bf_chunk_count file of None \<Rightarrow> Inl MissingFrameData | Some chunk_count \<Rightarrow>
      case bf_nonce_base64 file of None \<Rightarrow> Inl MissingFrameData | Some nonce_raw \<Rightarrow>
      case cy_unbase64 cy nonce_raw of None \<Rightarrow> Inl BadNonce | Some nonce_prefix \<Rightarrow>
      if length nonce_prefix \<noteq> 8 then Inl BadNonce
      else if chunk_size = 0 then Inl BadChunkSize
      else case decrypt_frames cy key nonce_prefix logical_path chunk_size 0 chunk_count stored of
        Inl e \<Rightarrow> Inl e
      | Inr (plain_size, plaintext, trailing) \<Rightarrow> if trailing \<noteq> [] then Inl TrailingBytes else Inr (plain_size, plaintext))"

definition process_bundle_file_v2 :: "crypto \<Rightarrow> bytes option \<Rightarrow> bool \<Rightarrow> bundle_file \<Rightarrow> string \<Rightarrow> bytes \<Rightarrow> bundle_error + bytes" where
  "process_bundle_file_v2 cy key encrypted file logical_path stored =
     (case (if encrypted then read_frames cy key file logical_path stored else Inr (length stored, stored)) of
        Inl e \<Rightarrow> Inl e
      | Inr (plain_size, plaintext) \<Rightarrow>
          if length stored \<noteq> bf_stored_size_bytes file \<or> cy_sha256 cy stored \<noteq> bf_stored_sha256 file then Inl StoredIntegrity
          else if plain_size \<noteq> bf_size_bytes file then Inl PlainSize
          else if (\<not> encrypted \<or> key \<noteq> None) \<and> cy_sha256 cy plaintext \<noteq> bf_sha256 file then Inl PlainIntegrity
          else Inr plaintext)"

text \<open>A path cannot be written below a file that has been written, nor where its directory is.\<close>

definition path_conflict :: "(string, bytes) hashmap \<Rightarrow> string \<Rightarrow> bool" where
  "path_conflict output path \<longleftrightarrow>
     list_ex (\<lambda>(p, _). starts_with (p @ ''/'') path \<or> starts_with (path @ ''/'') p) output"

text \<open>\<open>output\<close> is the staging directory when there is one; both runs go over the files in the same way.\<close>

fun process_files_v2 :: "crypto \<Rightarrow> bytes option \<Rightarrow> bool \<Rightarrow> bundle_dir \<Rightarrow> bundle_file list \<Rightarrow> string list \<Rightarrow> string list \<Rightarrow>
    nat \<Rightarrow> (string, bytes) hashmap option \<Rightarrow> bundle_error + (nat \<times> (string, bytes) hashmap option)" where
  "process_files_v2 cy key encrypted dir [] logical_paths payload_paths total_size_bytes output = Inr (total_size_bytes, output)"
| "process_files_v2 cy key encrypted dir (file # files) logical_paths payload_paths total_size_bytes output =
     (case validated_logical_path (bf_logical_path file) of None \<Rightarrow> Inl BadPath | Some logical_path \<Rightarrow>
      case validated_relative_path (bf_payload_path file) of None \<Rightarrow> Inl BadPath | Some payload_path \<Rightarrow>
      if logical_path \<in> set logical_paths then Inl DuplicateLogicalPath
      else if payload_path \<in> set payload_paths then Inl DuplicatePayloadPath
      else case hm_get dir payload_path of None \<Rightarrow> Inl PayloadMissing | Some stored \<Rightarrow>
      if (case output of Some out \<Rightarrow> path_conflict out logical_path | None \<Rightarrow> False) then Inl OutputIo
      else case process_bundle_file_v2 cy key encrypted file logical_path stored of Inl e \<Rightarrow> Inl e | Inr plaintext \<Rightarrow>
        process_files_v2 cy key encrypted dir files (logical_path # logical_paths) (payload_path # payload_paths)
          (total_size_bytes + bf_size_bytes file) (map_option (hm_insert logical_path plaintext) output))"

text \<open>The result tells whether the plaintext was verified, with the files written.\<close>

definition process_bundle_files_v2 :: "crypto \<Rightarrow> bundle_dir \<Rightarrow> backup_bundle_manifest \<Rightarrow> string option \<Rightarrow>
    (string, bytes) hashmap option \<Rightarrow> bundle_error + (bool \<times> (string, bytes) hashmap option)" where
  "process_bundle_files_v2 cy dir manifest password output =
     (case bundle_key cy manifest password of Inl e \<Rightarrow> Inl e | Inr key \<Rightarrow>
      if bm_encrypted manifest \<and> output \<noteq> None \<and> key = None then Inl PasswordRequired
      else case process_files_v2 cy key (bm_encrypted manifest) dir (bm_files manifest) [] [] 0 output of
        Inl e \<Rightarrow> Inl e
      | Inr (total_size_bytes, written) \<Rightarrow>
          if total_size_bytes \<noteq> bm_total_size_bytes manifest then Inl BundleTotalMismatch
          else Inr (\<not> bm_encrypted manifest \<or> key \<noteq> None, written))"

text \<open>The first schema encrypts each file as a whole; without a key the stored bytes are not looked into.\<close>

definition process_bundle_file_v1 :: "crypto \<Rightarrow> bytes option \<Rightarrow> bool \<Rightarrow> bundle_file \<Rightarrow> string \<Rightarrow> bytes \<Rightarrow> bundle_error + bytes" where
  "process_bundle_file_v1 cy key encrypted file logical_path stored =
     (if length stored \<noteq> bf_stored_size_bytes file \<or> cy_sha256 cy stored \<noteq> bf_stored_sha256 file then Inl StoredIntegrity
      else if encrypted \<and> key = None then Inr stored
      else case (case key of
                   Some k \<Rightarrow>
                     if \<not> encrypted then Inr stored
                     else (case bf_nonce_base64 file of None \<Rightarrow> Inl MissingFrameData | Some nonce_raw \<Rightarrow>
                       case cy_unbase64 cy nonce_raw of None \<Rightarrow> Inl BadNonce | Some nonce \<Rightarrow>
                       if length nonce \<noteq> 12 then Inl BadNonce
                       else case cy_decrypt cy k nonce stored logical_path of None \<Rightarrow> Inl BadPassword | Some plaintext \<Rightarrow> Inr plaintext)
                 | None \<Rightarrow> Inr stored) of
        Inl e \<Rightarrow> Inl e
      | Inr plaintext \<Rightarrow>
          if length plaintext \<noteq> bf_size_bytes file \<or> cy_sha256 cy plaintext \<noteq> bf_sha256 file then Inl PlainIntegrity
          else Inr plaintext)"

fun process_files_v1 :: "crypto \<Rightarrow> bytes option \<Rightarrow> bool \<Rightarrow> bundle_dir \<Rightarrow> bundle_file list \<Rightarrow> string list \<Rightarrow> string list \<Rightarrow>
    nat \<Rightarrow> bytes list \<Rightarrow> bundle_error + (nat \<times> bytes list)" where
  "process_files_v1 cy key encrypted dir [] logical_paths payload_paths total_size_bytes contents = Inr (total_size_bytes, contents)"
| "process_files_v1 cy key encrypted dir (file # files) logical_paths payload_paths total_size_bytes contents =
     (case validated_logical_path (bf_logical_path file) of None \<Rightarrow> Inl BadPath | Some logical_path \<Rightarrow>
      case validated_relative_path (bf_payload_path file) of None \<Rightarrow> Inl BadPath | Some payload_path \<Rightarrow>
      if logical_path \<in> set logical_paths then Inl DuplicateLogicalPath
      else if payload_path \<in> set payload_paths then Inl DuplicatePayloadPath
      else case hm_get dir payload_path of None \<Rightarrow> Inl PayloadMissing | Some stored \<Rightarrow>
      case process_bundle_file_v1 cy key encrypted file logical_path stored of Inl e \<Rightarrow> Inl e | Inr plaintext \<Rightarrow>
        process_files_v1 cy key encrypted dir files (logical_path # logical_paths) (payload_path # payload_paths)
          ((total_size_bytes + bf_size_bytes file) mod 2 ^ 64) (contents @ [plaintext]))"

definition read_bundle_files_v1 :: "crypto \<Rightarrow> (bytes \<Rightarrow> backup_bundle_manifest option) \<Rightarrow> bundle_dir \<Rightarrow> string option \<Rightarrow>
    bundle_error + (backup_bundle_manifest \<times> bytes list)" where
  "read_bundle_files_v1 cy decode dir password =
     (case read_manifest decode dir of Inl e \<Rightarrow> Inl e | Inr manifest \<Rightarrow>
      case bundle_key cy manifest password of Inl e \<Rightarrow> Inl e | Inr key \<Rightarrow>
      case process_files_v1 cy key (bm_encrypted manifest) dir (bm_files manifest) [] [] 0 [] of Inl e \<Rightarrow> Inl e
      | Inr (total_size_bytes, contents) \<Rightarrow>
          if total_size_bytes \<noteq> bm_total_size_bytes manifest then Inl BundleTotalMismatch else Inr (manifest, contents))"

definition verify_backup_bundle :: "crypto \<Rightarrow> (bytes \<Rightarrow> backup_bundle_manifest option) \<Rightarrow> bundle_dir \<Rightarrow> string option \<Rightarrow>
    bundle_error + bundle_verification" where
  "verify_backup_bundle cy decode dir password =
     (let report = (\<lambda>manifest file_count plaintext_verified.
            \<lparr>bv_file_count = file_count, bv_total_size_bytes = bm_total_size_bytes manifest,
             bv_encrypted = bm_encrypted manifest, bv_plaintext_verified = plaintext_verified\<rparr>) in
      case read_manifest decode dir of Inl e \<Rightarrow> Inl e | Inr manifest \<Rightarrow>
      if 2 \<le> bm_schema_version manifest
      then map_sum (\<lambda>e. e) (\<lambda>(plaintext_verified, _). report manifest (bm_file_count manifest) plaintext_verified)
        (process_bundle_files_v2 cy dir manifest password None)
      else map_sum (\<lambda>e. e) (\<lambda>(m, files). report m (length files) (\<not> bm_encrypted m \<or> password \<noteq> None))
        (read_bundle_files_v1 cy decode dir password))"

subsection \<open>Unpacking and replication\<close>

fun write_files :: "(string \<times> bytes) list \<Rightarrow> (string, bytes) hashmap \<Rightarrow> bundle_error + (string, bytes) hashmap" where
  "write_files [] output = Inr output"
| "write_files ((path, contents) # files) output =
     (if path_conflict output path then Inl OutputIo else write_files files (hm_insert path contents output))"

text \<open>
  Files are written to a staging directory that is renamed to the output at the end and removed when something
  fails: with an error nothing is at \<open>out_dir\<close>.
\<close>

definition unpack_backup_bundle :: "crypto \<Rightarrow> (bytes \<Rightarrow> backup_bundle_manifest option) \<Rightarrow> bundle_dir \<Rightarrow> bool \<Rightarrow> string option \<Rightarrow>
    bundle_error + (backup_bundle_report \<times> (string, bytes) hashmap)" where
  "unpack_backup_bundle cy decode dir out_exists password =
     (if out_exists then Inl OutputExists
      else case read_manifest decode dir of Inl e \<Rightarrow> Inl e | Inr manifest \<Rightarrow>
      if bm_encrypted manifest \<and> password = None then Inl PasswordRequired
      else if 2 \<le> bm_schema_version manifest
      then map_sum (\<lambda>e. e) (\<lambda>(_, written).
             (\<lparr>br_file_count = bm_file_count manifest, br_total_size_bytes = bm_total_size_bytes manifest,
               br_encrypted = bm_encrypted manifest\<rparr>, case written of None \<Rightarrow> [] | Some output \<Rightarrow> output))
           (process_bundle_files_v2 cy dir manifest password (Some []))
      else case read_bundle_files_v1 cy decode dir password of Inl e \<Rightarrow> Inl e | Inr (m, files) \<Rightarrow>
        map_sum (\<lambda>e. e) (\<lambda>written.
          (\<lparr>br_file_count = bm_file_count m, br_total_size_bytes = sum_list (map length files),
            br_encrypted = bm_encrypted m\<rparr>, written))
        (write_files (zip (map bf_logical_path (bm_files m)) files) []))"

fun copy_payloads :: "bundle_dir \<Rightarrow> bundle_file list \<Rightarrow> bundle_dir \<Rightarrow> bundle_error + bundle_dir" where
  "copy_payloads from [] staging = Inr staging"
| "copy_payloads from (file # files) staging =
     (case validated_relative_path (bf_payload_path file) of None \<Rightarrow> Inl BadPath | Some payload_path \<Rightarrow>
      case hm_get from payload_path of None \<Rightarrow> Inl PayloadMissing | Some contents \<Rightarrow>
      if path_conflict staging payload_path then Inl BundleIo
      else copy_payloads from files (hm_insert payload_path contents staging))"

definition replicate_backup_bundle :: "crypto \<Rightarrow> (bytes \<Rightarrow> backup_bundle_manifest option) \<Rightarrow> bundle_dir \<Rightarrow> bool \<Rightarrow>
    bundle_error + (bundle_verification \<times> bundle_dir)" where
  "replicate_backup_bundle cy decode from to_exists =
     (if to_exists then Inl OutputExists
      else case verify_backup_bundle cy decode from None of Inl e \<Rightarrow> Inl e | Inr verification \<Rightarrow>
      case read_manifest decode from of Inl e \<Rightarrow> Inl e | Inr manifest \<Rightarrow>
      case hm_get from BUNDLE_MANIFEST_FILE of None \<Rightarrow> Inl BundleIo | Some raw \<Rightarrow>
      case copy_payloads from (bm_files manifest) [(BUNDLE_MANIFEST_FILE, raw)] of Inl e \<Rightarrow> Inl e | Inr staging \<Rightarrow>
      case verify_backup_bundle cy decode staging None of Inl e \<Rightarrow> Inl e | Inr replicated \<Rightarrow>
      if bv_file_count replicated \<noteq> bv_file_count verification \<or> bv_total_size_bytes replicated \<noteq> bv_total_size_bytes verification
      then Inl ReplicaMismatch
      else Inr (replicated, staging))"

end
