(* ===== verification/Bundle_Laws.thy ===== *)
theory Bundle_Laws
  imports Backup_Bundle "HOL-Library.Countable"
begin

section \<open>What a backup bundle guarantees\<close>

text \<open>
  The frames of a payload decrypt to what was written, a bundle unpacks to its inputs, nothing is unpacked
  that the manifest does not list with its size and hash, and a replica is as good as the bundle.
\<close>

subsection \<open>Frames\<close>

lemma length_be32 [simp]: "length (be32 n) = 4"
  by (simp add: be32_def)

lemma from_be32_be32: "n < 2 ^ 32 \<Longrightarrow> from_be32 (be32 n) = n"
proof -
  assume n: "n < 2 ^ 32"
  have "n div 2 ^ 24 < 256" using n by (simp add: less_mult_imp_div_less)
  moreover have "n div 2 ^ 24 = (n div 2 ^ 16) div 256" "n div 2 ^ 16 = (n div 2 ^ 8) div 256" "n div 2 ^ 8 = n div 256"
    by (simp_all flip: div_mult2_eq)
  ultimately show ?thesis by (simp add: be32_def)
qed

lemma be32_inject: "n < 2 ^ 32 \<Longrightarrow> m < 2 ^ 32 \<Longrightarrow> be32 n = be32 m \<longleftrightarrow> n = m"
  by (metis from_be32_be32)

text \<open>No two chunks of a file share a nonce, and the data of a chunk says which file and place it is for.\<close>

lemma chunk_nonce_inject:
  "length p = length q \<Longrightarrow> n < 2 ^ 32 \<Longrightarrow> m < 2 ^ 32 \<Longrightarrow> chunk_nonce p n = chunk_nonce q m \<longleftrightarrow> p = q \<and> n = m"
  by (simp add: chunk_nonce_def be32_inject)

lemma chunk_aad_inject:
  assumes "n < 2 ^ 32" "m < 2 ^ 32"
  shows "chunk_aad p n = chunk_aad q m \<longleftrightarrow> p = q \<and> n = m"
proof -
  have "chunk_aad p n = (p @ [CHR 0x00]) @ be32 n" "chunk_aad q m = (q @ [CHR 0x00]) @ be32 m"
    by (simp_all add: chunk_aad_def)
  then show ?thesis using assms by (simp add: be32_inject)
qed

lemma encrypt_chunks_Inr:
  assumes "encrypt_chunks cy cs key prefix lp index contents = Inr (stored, count)" and "0 < cs"
  shows "index \<le> count \<and> (count = index \<longleftrightarrow> contents = [])"
  using assms
proof (induction cy cs key prefix lp index contents arbitrary: stored rule: encrypt_chunks.induct)
  case (1 cy cs key prefix lp index contents)
  show ?case
  proof (cases "contents = []")
    case True
    then show ?thesis using "1.prems" by (simp add: encrypt_chunks.simps)
  next
    case False
    then obtain c r where "cy_encrypt cy key (chunk_nonce prefix index) (take cs contents) (chunk_aad lp index) = Some c"
      "\<not> 2 ^ 32 \<le> length c" "\<not> 2 ^ 32 \<le> index + 1"
      "encrypt_chunks cy cs key prefix lp (index + 1) (drop cs contents) = Inr (r, count)"
      using "1.prems" by (subst (asm) encrypt_chunks.simps) (auto split: option.splits if_splits elim!: map_sum_InrE)
    then show ?thesis using "1.IH" "1.prems"(2) False by fastforce
  qed
qed

lemma decrypt_encrypt_chunks:
  assumes "encrypt_chunks cy cs key prefix lp index contents = Inr (stored, count)" and "0 < cs" and "crypto_laws cy"
    and "key' = None \<or> key' = Some key"
  shows "decrypt_frames cy key' prefix lp cs index (count - index) (stored @ tail)
    = Inr (length contents, if key' = None then [] else contents, tail)"
  using assms
proof (induction cy cs key prefix lp index contents arbitrary: stored rule: encrypt_chunks.induct)
  case (1 cy cs key prefix lp index contents)
  show ?case
  proof (cases "contents = []")
    case True
    then show ?thesis using "1.prems" by (auto simp: encrypt_chunks.simps)
  next
    case False
    then obtain c r where enc: "cy_encrypt cy key (chunk_nonce prefix index) (take cs contents) (chunk_aad lp index) = Some c"
      and len: "\<not> 2 ^ 32 \<le> length c" "\<not> 2 ^ 32 \<le> index + 1"
      and r: "encrypt_chunks cy cs key prefix lp (index + 1) (drop cs contents) = Inr (r, count)"
      and stored: "stored = be32 (length c) @ c @ r"
      using "1.prems" by (subst (asm) encrypt_chunks.simps) (auto split: option.splits if_splits elim!: map_sum_InrE)
    have count: "index + 1 \<le> count" "count = index + 1 \<longleftrightarrow> drop cs contents = []"
      using encrypt_chunks_Inr [OF r "1.prems"(2)] by auto
    obtain k where k: "count - index = Suc k" "count - (index + 1) = k" using count(1) by (cases "count - index") auto
    have c: "length c = length (take cs contents) + 16" "cy_decrypt cy key (chunk_nonce prefix index) c (chunk_aad lp index) = Some (take cs contents)"
      using enc "1.prems"(3) by (auto simp: crypto_laws_def)
    have full: "length (take cs contents) = cs" if "0 < k" using that count k by auto
    have IH: "decrypt_frames cy key' prefix lp cs (Suc index) k (r @ tail)
      = Inr (length (drop cs contents), if key' = None then [] else drop cs contents, tail)"
      using "1.IH" [OF _ enc len, of r] False r "1.prems" k by simp
    have "length contents = length (take cs contents) + length (drop cs contents)" by simp
    have f: "from_be32 (be32 (length c)) = length c" using len(1) by (simp add: from_be32_be32)
    have n: "length c = min (length contents) cs + 16" using c(1) by simp
    have guards: "\<not> length c < 16" "\<not> (0 < k \<and> length c - 16 \<noteq> cs)" "\<not> cs < length c - 16"
      "length c - 16 = min (length contents) cs" "16 \<le> length c"
      using n full by auto
    show ?thesis
      using IH c(2) "1.prems"(4) guards unfolding k(1) stored
      by (auto simp: f Let_def simp del: Suc_eq_plus1)
  qed
qed

lemma process_written:
  assumes "write_bundle_payload cy key nonce lp pp contents = Inr (file, stored)" and "crypto_laws cy" and "length nonce = 8"
    and "key' = None \<or> key' = key"
  shows "process_bundle_file_v2 cy key' (key \<noteq> None) file lp stored = Inr (if key' = key then contents else [])
    \<and> bf_logical_path file = lp \<and> bf_payload_path file = pp \<and> bf_size_bytes file = length contents"
proof (cases key)
  case None
  then show ?thesis using assms by (auto simp: write_bundle_payload_def process_bundle_file_v2_def Let_def)
next
  case (Some k)
  obtain count where e: "encrypt_chunks cy BUNDLE_CHUNK_SIZE_BYTES k nonce lp 0 contents = Inr (stored, count)"
    and fl: "bf_logical_path file = lp" "bf_payload_path file = pp" "bf_size_bytes file = length contents"
      "bf_sha256 file = cy_sha256 cy contents" "bf_stored_size_bytes file = length stored" "bf_stored_sha256 file = cy_sha256 cy stored"
      "bf_nonce_base64 file = Some (cy_base64 cy nonce)" "bf_chunk_size_bytes file = Some BUNDLE_CHUNK_SIZE_BYTES"
      "bf_chunk_count file = Some count"
    using assms(1) by (auto simp: write_bundle_payload_def Some elim!: map_sum_InrE)
  have cs: "0 < BUNDLE_CHUNK_SIZE_BYTES" by (simp add: BUNDLE_CHUNK_SIZE_BYTES_def)
  have "cy_unbase64 cy (cy_base64 cy nonce) = Some nonce" using assms(2) by (simp add: crypto_laws_def)
  then show ?thesis
    using decrypt_encrypt_chunks [OF e cs assms(2), of key' "[]"] cs assms(3,4) fl
    by (auto simp: process_bundle_file_v2_def read_frames_def Some)
qed

subsection \<open>Paths\<close>

lemma validated_relative_path_Some: "validated_relative_path p = Some q \<Longrightarrow> q = p"
  by (simp add: validated_relative_path_def split: if_splits)

lemma validated_logical_path_Some: "validated_logical_path p = Some q \<Longrightarrow> q = p"
  by (auto simp: validated_logical_path_def dest: validated_relative_path_Some split: option.splits if_splits)

lemma payload_name_inject [simp]: "payload_name i = payload_name j \<longleftrightarrow> i = j"
  by (simp add: payload_name_def pad8_inject)

lemma payload_name_not_manifest [simp]: "payload_name i \<noteq> BUNDLE_MANIFEST_FILE" "BUNDLE_MANIFEST_FILE \<noteq> payload_name i"
  by (simp_all add: payload_name_def BUNDLE_MANIFEST_FILE_def)

lemma payload_name_valid [simp]: "validated_relative_path (payload_name i) = Some (payload_name i)"
proof -
  have d: "c \<notin> set (pad8 i)" if "\<not> is_ascii_digit c" for c
    using pad8_digits [of i] that by (auto simp: list_all_iff)
  have n: "CHR ''/'' \<notin> set (pad8 i)" "CHR 0x5C \<notin> set (pad8 i)"
    by (intro d; simp add: is_ascii_digit_def byte_def)+
  then have "split_on (CHR ''/'') (payload_name i) = [''payload'', pad8 i @ ''.bin'']"
    by (simp add: payload_name_def split_on_single)
  then show ?thesis
    using n by (auto simp: validated_relative_path_def payload_name_def bad_segment_def append_eq_Cons_conv)
qed

lemma file_at_no_prefix: "file_at es ns = Some c \<Longrightarrow> file_at es (ns @ m # ms) = None"
proof (induction ns arbitrary: es)
  case (Cons n ns)
  then show ?case by (cases "map_of es n") (auto split: fs_node.splits if_splits option.splits)
qed simp

definition conflict_free :: "string set \<Rightarrow> bool" where
  "conflict_free ps \<longleftrightarrow> (\<forall>p \<in> ps. \<forall>q \<in> ps. \<not> starts_with (p @ ''/'') q)"

lemma conflict_free_path: "conflict_free ps \<Longrightarrow> p \<in> ps \<Longrightarrow> fst ` set out \<subseteq> ps \<Longrightarrow> \<not> path_conflict out p"
  by (force simp: conflict_free_def path_conflict_def list_ex_iff)

lemma collect_inputs_tree:
  "collect_inputs prefix es = Inr files \<Longrightarrow>
     files = map (\<lambda>(ns, c). (OBJECT_STORE_LOGICAL_PREFIX @ join_path (prefix @ ns), c)) (tree_files es)"
proof (induction prefix es arbitrary: files rule: collect_inputs.induct)
  case (5 prefix name es rest)
  then show ?case by (auto split: sum.splits elim!: map_sum_InrE simp: split_def)
qed (auto elim!: map_sum_InrE)

lemma bundle_inputs_Inr:
  assumes "bundle_inputs dump objects = Inr inputs" and "tree_ok objects"
  shows "distinct (map fst inputs)" and "conflict_free (fst ` set inputs)"
    and "map_of inputs DATABASE_LOGICAL_PATH = Some dump"
    and "list_all name_ok ns \<Longrightarrow> map_of inputs (OBJECT_STORE_LOGICAL_PREFIX @ join_path ns) = file_at objects ns"
    and "fst ` set inputs \<subseteq> insert DATABASE_LOGICAL_PATH
           ((\<lambda>ns. OBJECT_STORE_LOGICAL_PREFIX @ join_path ns) ` {ns. list_all name_ok ns})"
proof -
  let ?t = "tree_files objects" and ?p = "\<lambda>ns. OBJECT_STORE_LOGICAL_PREFIX @ join_path ns"
  obtain files where "collect_inputs [] objects = Inr files" and inputs: "inputs = sort_key fst ((DATABASE_LOGICAL_PATH, dump) # files)"
    using assms(1) by (auto simp: bundle_inputs_def elim!: map_sum_InrE)
  then have files: "files = map (\<lambda>(ns, c). (?p ns, c)) ?t" using collect_inputs_tree by fastforce
  note ok = tree_files_ok [OF assms(2)]
  note iff = tree_files_iff [OF assms(2)]
  have set: "set inputs = insert (DATABASE_LOGICAL_PATH, dump) ((\<lambda>(ns, c). (?p ns, c)) ` set ?t)" by (auto simp: inputs files simp del: sort_key_simps)
  have db: "DATABASE_LOGICAL_PATH \<noteq> ?p ns" "?p ns \<noteq> DATABASE_LOGICAL_PATH" for ns
    by (simp_all add: DATABASE_LOGICAL_PATH_def OBJECT_STORE_LOGICAL_PREFIX_def)
  have "map fst files = map ?p (map fst ?t)" by (auto simp: files)
  moreover have "inj_on ?p (fst ` set ?t)" using ok by (auto simp: inj_on_def join_path_inject)
  ultimately have "distinct (map fst files)"
    using tree_files_distinct [OF assms(2)] by (metis distinct_map list.set_map)
  then have "distinct (map fst ((DATABASE_LOGICAL_PATH, dump) # files))" by (auto simp: files db)
  then show d: "distinct (map fst inputs)" by (force simp: inputs distinct_map distinct_sort simp del: sort_key_simps)
  then show "map_of inputs DATABASE_LOGICAL_PATH = Some dump" by (simp add: map_of_eq_Some_iff set)
  show "map_of inputs (?p ns) = file_at objects ns" if ns: "list_all name_ok ns"
  proof -
    have "map_of inputs (?p ns) = Some c \<longleftrightarrow> file_at objects ns = Some c" for c
      using d ns ok iff by (auto simp: map_of_eq_Some_iff set db join_path_inject)
    then show ?thesis by (metis not_Some_eq)
  qed
  show "fst ` set inputs \<subseteq> insert DATABASE_LOGICAL_PATH (?p ` {ns. list_all name_ok ns})"
    using ok by (auto simp: set)
  have no: "\<not> starts_with (join_path ns @ ''/'') (join_path ms)" if "(ns, c) \<in> set ?t" "(ms, e) \<in> set ?t" for ns c ms e
  proof
    assume "starts_with (join_path ns @ ''/'') (join_path ms)"
    then obtain s where s: "join_path ms = join_path ns @ CHR ''/'' # s" by (auto simp: starts_with_iff)
    have ns: "ns \<noteq> []" and ms: "ms \<noteq> []" using that iff file_at_hd by blast+
    have "ms = split_on (CHR ''/'') (join_path ms)" using split_join_path [OF ok [OF that(2)] ms] by simp
    also have "\<dots> = ns @ split_on (CHR ''/'') s"
      unfolding s split_on_Cons_append using split_join_path [OF ok [OF that(1)] ns] by simp
    finally obtain k ks where "ms = ns @ k # ks" by (cases "split_on (CHR ''/'') s") auto
    then show False using that iff [of ns c] iff [of ms e] file_at_no_prefix [of objects ns c k ks] by simp
  qed
  have "starts_with (OBJECT_STORE_LOGICAL_PREFIX @ a @ ''/'') (OBJECT_STORE_LOGICAL_PREFIX @ b) \<longleftrightarrow> starts_with (a @ ''/'') b" for a b
    by (simp add: starts_with_iff)
  moreover have "\<not> starts_with (DATABASE_LOGICAL_PATH @ ''/'') (?p ns)" "\<not> starts_with (?p ns @ ''/'') DATABASE_LOGICAL_PATH"
    "\<not> starts_with (DATABASE_LOGICAL_PATH @ ''/'') DATABASE_LOGICAL_PATH" for ns
    by (auto simp: starts_with_iff DATABASE_LOGICAL_PATH_def OBJECT_STORE_LOGICAL_PREFIX_def)
  ultimately show "conflict_free (fst ` set inputs)" using no by (auto simp: conflict_free_def set)
qed

subsection \<open>A bundle unpacks to its inputs\<close>

lemma write_payloads_dir:
  assumes "write_payloads cy key nonces index inputs = Inr payloads"
  shows "(\<forall>(f, stored) \<in> set payloads. map_of (map (\<lambda>(f, stored). (bf_payload_path f, stored)) payloads) (bf_payload_path f) = Some stored
         \<and> bf_payload_path f \<in> payload_name ` {index..})"
  using assms
proof (induction inputs arbitrary: index payloads)
  case (Cons x inputs)
  obtain path contents where x: "x = (path, contents)" by fastforce
  obtain lp f s rest where w: "write_bundle_payload cy key (nonces index) lp (payload_name index) contents = Inr (f, s)"
    and r: "write_payloads cy key nonces (Suc index) inputs = Inr rest" and p: "payloads = (f, s) # rest"
    using Cons.prems by (auto simp: x split: option.splits sum.splits elim!: map_sum_InrE)
  have "bf_payload_path f = payload_name index"
    using w by (auto simp: write_bundle_payload_def Let_def split: option.splits elim!: map_sum_InrE)
  then show ?case using Cons.IH [OF r] by (fastforce simp: p)
qed simp

declare keys_hm_insert [simp]

lemma write_payloads_sizes:
  "write_payloads cy key nonces index inputs = Inr payloads \<Longrightarrow>
     (\<Sum>(_, contents)\<leftarrow>inputs. length contents) = sum_list (map bf_size_bytes (map fst payloads))"
proof (induction inputs arbitrary: index payloads)
  case (Cons x inputs)
  obtain path contents where x: "x = (path, contents)" by fastforce
  obtain lp f s rest where w: "write_bundle_payload cy key (nonces index) lp (payload_name index) contents = Inr (f, s)"
    and r: "write_payloads cy key nonces (Suc index) inputs = Inr rest" and p: "payloads = (f, s) # rest"
    using Cons.prems by (auto simp: x split: option.splits sum.splits elim!: map_sum_InrE)
  have "bf_size_bytes f = length contents"
    using w by (auto simp: write_bundle_payload_def Let_def split: option.splits elim!: map_sum_InrE)
  then show ?case using Cons.IH [OF r] by (simp add: p x)
qed simp

text \<open>What both loops over the files compute for a bundle just written.\<close>

lemma process_files_written:
  assumes "write_payloads cy key nonces index inputs = Inr payloads" and "crypto_laws cy" and "\<forall>j. length (nonces j) = 8"
    and "key' = None \<or> key' = key" and "distinct (map fst inputs)" and "set lps \<inter> fst ` set inputs = {}"
    and "set pps \<subseteq> payload_name ` {..<index}" and "\<forall>(f, stored) \<in> set payloads. hm_get dir (bf_payload_path f) = Some stored"
    and "conflict_free ps" and "fst ` set inputs \<subseteq> ps" and "\<forall>out. dest = Some out \<longrightarrow> fst ` set out \<subseteq> ps"
  shows "process_files_v2 cy key' (key \<noteq> None) dir (map fst payloads) lps pps acc dest =
    Inr (acc + (\<Sum>(_, contents)\<leftarrow>inputs. length contents),
      map_option (fold (\<lambda>(p, contents). hm_insert p (if key' = key then contents else [])) inputs) dest)"
  using assms(1,4-)
proof (induction inputs arbitrary: index payloads lps pps acc dest)
  case Nil
  then show ?case by (simp add: option.map_id0 [unfolded id_def])
next
  case (Cons x inputs)
  obtain path contents where x: "x = (path, contents)" by fastforce
  obtain f s rest where v: "validated_logical_path path = Some path"
    and w: "write_bundle_payload cy key (nonces index) path (payload_name index) contents = Inr (f, s)"
    and r: "write_payloads cy key nonces (Suc index) inputs = Inr rest" and p: "payloads = (f, s) # rest"
    using Cons.prems(1) validated_logical_path_Some by (fastforce simp: x split: option.splits sum.splits elim!: map_sum_InrE)
  note fl = process_written [OF w assms(2) assms(3) [rule_format] Cons.prems(2)]
  have new: "path \<notin> set lps" "payload_name index \<notin> set pps" "hm_get dir (payload_name index) = Some s"
    using Cons.prems(4,5,6) fl by (auto simp: x p)
  have "\<not> (case dest of Some out \<Rightarrow> path_conflict out path | None \<Rightarrow> False)"
    using Cons.prems(7,8,9) by (auto simp: x conflict_free_path split: option.split)
  moreover have "process_files_v2 cy key' (key \<noteq> None) dir (map fst rest) (path # lps) (payload_name index # pps) (acc + length contents)
      (map_option (hm_insert path (if key' = key then contents else [])) dest) =
    Inr (acc + length contents + (\<Sum>(_, contents)\<leftarrow>inputs. length contents),
      map_option (fold (\<lambda>(p, contents). hm_insert p (if key' = key then contents else [])) inputs)
        (map_option (hm_insert path (if key' = key then contents else [])) dest))"
  proof (rule Cons.IH [OF r Cons.prems(2)])
    show "set (payload_name index # pps) \<subseteq> payload_name ` {..<Suc index}" using Cons.prems(5) by (auto simp: less_Suc_eq)
    show "\<forall>out. map_option (hm_insert path (if key' = key then contents else [])) dest = Some out \<longrightarrow> fst ` set out \<subseteq> ps"
      using Cons.prems(8,9) by (cases dest) (simp_all add: x)
  qed (use Cons.prems in \<open>auto simp: x p\<close>)
  ultimately show ?case
    using v fl new by (simp add: p x option.map_comp comp_def)
qed

lemma hm_get_fold_insert: "distinct (map fst kvs) \<Longrightarrow>
  hm_get (fold (\<lambda>(k, v). hm_insert k v) kvs m) k = (case map_of kvs k of Some v \<Rightarrow> Some v | None \<Rightarrow> hm_get m k)"
  by (induction kvs arbitrary: m) (auto split: option.split simp: map_of_eq_None_iff rev_image_eqI)

lemma fill_bundle_Inr:
  assumes "fill_bundle cy encode c dump objects password = Inr (rep, dir)"
  obtains key inputs payloads manifest where "bundle_inputs dump objects = Inr inputs"
    "write_payloads cy key (bc_nonces c) 0 inputs = Inr payloads"
    "manifest = bundle_manifest c (map_option (\<lambda>_. create_encryption cy (bc_salt c)) password) (map fst payloads)"
    "rep = \<lparr>br_file_count = bm_file_count manifest, br_total_size_bytes = bm_total_size_bytes manifest, br_encrypted = bm_encrypted manifest\<rparr>"
    "dir = hm_insert BUNDLE_MANIFEST_FILE (encode manifest) (map (\<lambda>(f, stored). (bf_payload_path f, stored)) payloads)"
    "\<forall>p. password = Some p \<longrightarrow> 8 \<le> length p \<longrightarrow> bundle_key cy manifest password = Inr key \<and> key \<noteq> None"
    "password = None \<longrightarrow> key = None" "bundle_key cy manifest None = Inr None"
  using assms
  by (cases password) (auto simp: fill_bundle_def Let_def bundle_key_def bundle_manifest_def split: sum.splits elim!: map_sum_InrE)

lemma bundle_unpacks:
  assumes "create_backup_bundle cy encode c (Some dump) verified objects out False password = Inr (rep, dir)"
    and "crypto_laws cy" and "\<forall>m. decode (encode m) = Some m" and "tree_ok objects" and "\<forall>i. length (bc_nonces c i) = 8"
  shows "(\<exists>files. unpack_backup_bundle cy decode dir False password = Inr (rep, files) \<and>
      hm_get files DATABASE_LOGICAL_PATH = Some dump \<and>
      (\<forall>ns. list_all name_ok ns \<longrightarrow> hm_get files (OBJECT_STORE_LOGICAL_PREFIX @ join_path ns) = file_at objects ns) \<and>
      (\<forall>path. hm_get files path \<noteq> None \<longrightarrow> path = DATABASE_LOGICAL_PATH \<or>
         (\<exists>ns. list_all name_ok ns \<and> path = OBJECT_STORE_LOGICAL_PREFIX @ join_path ns)))
    \<and> map_sum id bv_plaintext_verified (verify_backup_bundle cy decode dir password) = Inr True
    \<and> map_sum id bv_plaintext_verified (verify_backup_bundle cy decode dir None) = Inr (password = None)"
proof -
  have fill: "fill_bundle cy encode c dump objects password = Inr (rep, dir)" and pw: "\<forall>p. password = Some p \<longrightarrow> 8 \<le> length p"
    using assms(1) by (auto simp: create_backup_bundle_def split: option.splits sum.splits if_splits)
  obtain key inputs payloads m where inputs: "bundle_inputs dump objects = Inr inputs"
    and w: "write_payloads cy key (bc_nonces c) 0 inputs = Inr payloads"
    and m: "m = bundle_manifest c (map_option (\<lambda>_. create_encryption cy (bc_salt c)) password) (map fst payloads)"
    and rep: "rep = \<lparr>br_file_count = bm_file_count m, br_total_size_bytes = bm_total_size_bytes m, br_encrypted = bm_encrypted m\<rparr>"
    and dir: "dir = hm_insert BUNDLE_MANIFEST_FILE (encode m) (map (\<lambda>(f, stored). (bf_payload_path f, stored)) payloads)"
    and key: "\<forall>p. password = Some p \<longrightarrow> 8 \<le> length p \<longrightarrow> bundle_key cy m password = Inr key \<and> key \<noteq> None"
      "password = None \<longrightarrow> key = None" "bundle_key cy m None = Inr None"
    by (rule fill_bundle_Inr [OF fill])
  note inp = bundle_inputs_Inr [OF inputs assms(4)]
  have keys: "bundle_key cy m password = Inr key" "key = None \<longleftrightarrow> password = None" "bm_encrypted m \<longleftrightarrow> key \<noteq> None"
    using key pw by (cases password; auto simp: m bundle_manifest_def)+
  have man: "read_manifest decode dir = Inr m"
    using assms(3) by (simp add: read_manifest_def dir m bundle_manifest_def BUNDLE_SCHEMA_VERSION_def BUNDLE_MIN_READABLE_SCHEMA_VERSION_def)
  have m2: "2 \<le> bm_schema_version m" "bm_files m = map fst payloads" "bm_total_size_bytes m = sum_list (map bf_size_bytes (map fst payloads))"
    by (simp_all add: m bundle_manifest_def BUNDLE_SCHEMA_VERSION_def)
  have get: "\<forall>(f, stored) \<in> set payloads. hm_get dir (bf_payload_path f) = Some stored"
    using write_payloads_dir [OF w] by (auto simp: dir hm_get_def hm_insert_def update_conv')
  have run: "process_files_v2 cy key' (key \<noteq> None) dir (map fst payloads) [] [] 0 dest =
      Inr (\<Sum>(_, contents)\<leftarrow>inputs. length contents,
        map_option (fold (\<lambda>(p, contents). hm_insert p (if key' = key then contents else [])) inputs) dest)"
    if "key' = None \<or> key' = key" "dest = None \<or> dest = Some []" for key' dest
    using process_files_written [OF w assms(2,5), of key' "[]" "[]" dir "fst ` set inputs" dest 0] that inp(1,2) get by auto
  have total_size: "(\<Sum>(_, contents)\<leftarrow>inputs. length contents) = bm_total_size_bytes m"
    unfolding m2(3) by (rule write_payloads_sizes [OF w])
  let ?files = "fold (\<lambda>(p, contents). hm_insert p contents) inputs []"
  have g: "hm_get ?files k = map_of inputs k" for k
    using hm_get_fold_insert [OF inp(1), of "[]" k] by (simp split: option.splits)
  have "unpack_backup_bundle cy decode dir False password = Inr (rep, ?files)"
    using keys run [of key "Some []"] man m2 total_size
    by (auto simp: unpack_backup_bundle_def process_bundle_files_v2_def rep)
  moreover have "hm_get ?files DATABASE_LOGICAL_PATH = Some dump" using inp(3) by (simp add: g)
  moreover have "\<forall>ns. list_all name_ok ns \<longrightarrow> hm_get ?files (OBJECT_STORE_LOGICAL_PREFIX @ join_path ns) = file_at objects ns"
    using inp(4) by (simp add: g)
  moreover have "\<forall>path. hm_get ?files path \<noteq> None \<longrightarrow> path = DATABASE_LOGICAL_PATH \<or>
         (\<exists>ns. list_all name_ok ns \<and> path = OBJECT_STORE_LOGICAL_PREFIX @ join_path ns)"
    using inp(5) by (auto simp: g dest!: map_of_SomeD)
  moreover have "map_sum id bv_plaintext_verified (verify_backup_bundle cy decode dir password) = Inr True"
    using keys run [of key None] man m2 total_size
    by (auto simp: verify_backup_bundle_def process_bundle_files_v2_def Let_def)
  moreover have "map_sum id bv_plaintext_verified (verify_backup_bundle cy decode dir None) = Inr (password = None)"
    using keys key(3) run [of None None] man m2 total_size
    by (auto simp: verify_backup_bundle_def process_bundle_files_v2_def Let_def)
  ultimately show ?thesis by blast
qed

text \<open>
  A bundle holds what it was made of: unpacking a bundle that was created, with the same password, gives the
  database dump and every file of the object backup under its path, and nothing else, with the same report. The
  bundle passes its verification, with the password down to the plaintext, and without it as far as that is possible.
\<close>
theorem bundle_roundtrip:
  assumes "create_backup_bundle cy encode c (Some dump) verified objects out False password = Inr (rep, dir)"
    and "crypto_laws cy" and "\<forall>m. decode (encode m) = Some m" and "tree_ok objects" and "\<forall>i. length (bc_nonces c i) = 8"
  shows "(\<exists>files. unpack_backup_bundle cy decode dir False password = Inr (rep, files) \<and>
      hm_get files DATABASE_LOGICAL_PATH = Some dump \<and>
      (\<forall>ns. list_all name_ok ns \<longrightarrow> hm_get files (OBJECT_STORE_LOGICAL_PREFIX @ join_path ns) = file_at objects ns) \<and>
      (\<forall>path. hm_get files path \<noteq> None \<longrightarrow> path = DATABASE_LOGICAL_PATH \<or>
         (\<exists>ns. list_all name_ok ns \<and> path = OBJECT_STORE_LOGICAL_PREFIX @ join_path ns)))
    \<and> map_sum id bv_plaintext_verified (verify_backup_bundle cy decode dir password) = Inr True
    \<and> map_sum id bv_plaintext_verified (verify_backup_bundle cy decode dir None) = Inr (password = None)"
  using assms by (rule bundle_unpacks)

subsection \<open>Nothing is unpacked unverified\<close>

definition listed :: "crypto \<Rightarrow> bundle_file \<Rightarrow> bytes \<Rightarrow> bool" where
  "listed cy f contents \<longleftrightarrow> validated_logical_path (bf_logical_path f) = Some (bf_logical_path f) \<and>
     bf_size_bytes f = length contents \<and> bf_sha256 f = cy_sha256 cy contents"

text \<open>Everything in \<open>out\<close> was there before or is a listed file, and all of these are there.\<close>

definition unpacked :: "crypto \<Rightarrow> bundle_file list \<Rightarrow> (string, bytes) hashmap \<Rightarrow> (string, bytes) hashmap \<Rightarrow> bool" where
  "unpacked cy files written out \<longleftrightarrow>
     (\<forall>k c. hm_get out k = Some c \<longrightarrow> hm_get written k = Some c \<or> (\<exists>f \<in> set files. bf_logical_path f = k \<and> listed cy f c)) \<and>
     (\<forall>k. hm_get written k \<noteq> None \<or> k \<in> bf_logical_path ` set files \<longrightarrow> hm_get out k \<noteq> None)"

lemma unpacked_Nil [intro]: "unpacked cy [] written written"
  by (simp add: unpacked_def)

lemma unpacked_Cons:
  assumes "unpacked cy files (hm_insert (bf_logical_path f) c written) out" and "listed cy f c"
  shows "unpacked cy (f # files) written out"
  unfolding unpacked_def
proof (intro conjI allI impI)
  fix k d assume "hm_get out k = Some d"
  then have "hm_get (hm_insert (bf_logical_path f) c written) k = Some d \<or> (\<exists>f \<in> set files. bf_logical_path f = k \<and> listed cy f d)"
    using assms(1) unfolding unpacked_def by blast
  then show "hm_get written k = Some d \<or> (\<exists>f' \<in> set (f # files). bf_logical_path f' = k \<and> listed cy f' d)"
    using assms(2) by (auto split: if_splits)
next
  fix k assume "hm_get written k \<noteq> None \<or> k \<in> bf_logical_path ` set (f # files)"
  then have "hm_get (hm_insert (bf_logical_path f) c written) k \<noteq> None \<or> k \<in> bf_logical_path ` set files" by auto
  then show "hm_get out k \<noteq> None" using assms(1) unfolding unpacked_def by blast
qed

lemma decrypt_frames_size:
  "decrypt_frames cy (Some k) prefix lp cs index left stored = Inr (n, plaintext, trailing) \<Longrightarrow> n = length plaintext"
proof (induction left arbitrary: index stored n plaintext trailing)
  case (Suc left)
  define len where "len = from_be32 (take 4 stored)"
  obtain p r where p: "length p = len - 16" "plaintext = p @ snd (fst r)"
    and r: "n = len - 16 + fst (fst r)"
    "decrypt_frames cy (Some k) prefix lp cs (Suc index) left (drop len (drop 4 stored)) = Inr (fst (fst r), snd (fst r), snd r)"
    using Suc.prems
    by (auto simp: Let_def len_def [symmetric] split: option.splits if_splits sum.splits elim!: map_sum_InrE)
  then show ?case using Suc.IH [OF r(2)] by simp
qed simp

lemma process_file_v2_listed:
  assumes "process_bundle_file_v2 cy key encrypted f lp stored = Inr contents" and "encrypted \<longrightarrow> key \<noteq> None"
    and "validated_logical_path (bf_logical_path f) = Some lp"
  shows "listed cy f contents"
proof -
  have lp: "lp = bf_logical_path f" using assms(3) by (rule validated_logical_path_Some)
  obtain n where read: "(if encrypted then read_frames cy key f lp stored else Inr (length stored, stored)) = Inr (n, contents)"
    and n: "n = bf_size_bytes f" and sha: "cy_sha256 cy contents = bf_sha256 f"
    using assms(1,2) by (auto simp: process_bundle_file_v2_def split: sum.splits if_splits)
  have "n = length contents"
  proof (cases encrypted)
    case True
    then obtain k where "key = Some k" using assms(2) by auto
    with True read show ?thesis
      by (auto simp: read_frames_def dest!: decrypt_frames_size split: option.splits sum.splits if_splits)
  qed (use read in auto)
  then show ?thesis using n sha assms(3) by (simp add: listed_def lp)
qed

lemma process_file_v1_listed:
  assumes "process_bundle_file_v1 cy key encrypted f lp stored = Inr contents" and "encrypted \<longrightarrow> key \<noteq> None"
    and "validated_logical_path (bf_logical_path f) = Some lp"
  shows "listed cy f contents"
  using assms validated_logical_path_Some [OF assms(3)]
  by (auto simp: process_bundle_file_v1_def listed_def split: option.splits sum.splits if_splits)

lemma process_files_v2_listed:
  assumes "process_files_v2 cy key encrypted dir files lps pps acc (Some written) = Inr (t, w)" and "encrypted \<longrightarrow> key \<noteq> None"
  shows "\<exists>out. w = Some out \<and> unpacked cy files written out"
  using assms(1)
proof (induction files arbitrary: lps pps acc written)
  case (Cons f files)
  obtain lp stored c lps' pps' acc' where lp: "validated_logical_path (bf_logical_path f) = Some lp"
    and c: "process_bundle_file_v2 cy key encrypted f lp stored = Inr c"
    and r: "process_files_v2 cy key encrypted dir files lps' pps' acc' (Some (hm_insert lp c written)) = Inr (t, w)"
    using Cons.prems by (auto split: option.splits sum.splits if_splits)
  have "listed cy f c" using process_file_v2_listed c assms(2) lp by blast
  moreover have "lp = bf_logical_path f" using lp by (rule validated_logical_path_Some)
  ultimately show ?case using Cons.IH [OF r] unpacked_Cons by blast
qed auto

lemma process_files_v1_listed:
  assumes "process_files_v1 cy key encrypted dir files lps pps acc done' = Inr (t, cs)" and "encrypted \<longrightarrow> key \<noteq> None"
  shows "\<exists>ds. cs = done' @ ds \<and> list_all2 (listed cy) files ds"
  using assms(1)
proof (induction files arbitrary: lps pps acc done')
  case (Cons f files)
  obtain lp stored c lps' pps' acc' where lp: "validated_logical_path (bf_logical_path f) = Some lp"
    and c: "process_bundle_file_v1 cy key encrypted f lp stored = Inr c"
    and r: "process_files_v1 cy key encrypted dir files lps' pps' acc' (done' @ [c]) = Inr (t, cs)"
    using Cons.prems by (auto split: option.splits sum.splits if_splits)
  have "listed cy f c" using process_file_v1_listed c assms(2) lp by blast
  then show ?case using Cons.IH [OF r] by auto
qed simp

lemma write_files_listed:
  assumes "write_files (zip (map bf_logical_path files) cs) written = Inr out" and "list_all2 (listed cy) files cs"
  shows "unpacked cy files written out"
  using assms(2,1)
proof (induction files cs arbitrary: written rule: list_all2_induct)
  case (Cons f files c cs)
  have "write_files (zip (map bf_logical_path files) cs) (hm_insert (bf_logical_path f) c written) = Inr out"
    using Cons.prems by (auto split: if_splits)
  then show ?case using Cons.IH Cons.hyps(1) unpacked_Cons by blast
qed auto

lemma bundle_key_needed:
  "bundle_key cy m password = Inr key \<Longrightarrow> read_manifest decode dir = Inr m \<Longrightarrow> bm_encrypted m \<longrightarrow> password \<noteq> None \<Longrightarrow>
     bm_encrypted m \<longrightarrow> key \<noteq> None"
  by (auto simp: bundle_key_def read_manifest_def split: option.splits if_splits elim!: map_sum_InrE)

text \<open>
  C24. What an unpacked bundle contains has been checked: the output did not exist, every file of it has a path the
  manifest lists, which stays below the output directory, and exactly the size and the hash given there, and every
  file the manifest lists is there. With any error nothing is at the output.
\<close>
theorem unpack_only_listed:
  assumes "unpack_backup_bundle cy decode dir out_exists password = Inr (rep, files)"
  shows "\<not> out_exists \<and> (\<exists>m. read_manifest decode dir = Inr m \<and> br_file_count rep = length (bm_files m) \<and>
    (\<forall>path contents. hm_get files path = Some contents \<longrightarrow>
       validated_logical_path path = Some path \<and>
       (\<exists>f \<in> set (bm_files m). bf_logical_path f = path \<and> bf_size_bytes f = length contents \<and> bf_sha256 f = cy_sha256 cy contents)) \<and>
    (\<forall>f \<in> set (bm_files m). hm_get files (bf_logical_path f) \<noteq> None))"
proof -
  obtain m where m: "read_manifest decode dir = Inr m" and pw: "\<not> out_exists" "bm_encrypted m \<longrightarrow> password \<noteq> None"
    using assms by (auto simp: unpack_backup_bundle_def split: if_splits sum.splits)
  have count: "bm_file_count m = length (bm_files m)" using m by (auto simp: read_manifest_def split: option.splits if_splits)
  have "br_file_count rep = bm_file_count m \<and> unpacked cy (bm_files m) [] files"
  proof (cases "2 \<le> bm_schema_version m")
    case True
    then obtain key t w where key: "bundle_key cy m password = Inr key"
      and run: "process_files_v2 cy key (bm_encrypted m) dir (bm_files m) [] [] 0 (Some []) = Inr (t, w)"
      and out: "files = (case w of None \<Rightarrow> [] | Some out \<Rightarrow> out)" "br_file_count rep = bm_file_count m"
      using assms m pw by (auto simp: unpack_backup_bundle_def process_bundle_files_v2_def split: if_splits sum.splits elim!: map_sum_InrE)
    then show ?thesis using process_files_v2_listed [OF run] bundle_key_needed [OF key m pw(2)] by auto
  next
    case False
    then obtain key t cs where key: "bundle_key cy m password = Inr key"
      and run: "process_files_v1 cy key (bm_encrypted m) dir (bm_files m) [] [] 0 [] = Inr (t, cs)"
      and out: "write_files (zip (map bf_logical_path (bm_files m)) cs) [] = Inr files" "br_file_count rep = bm_file_count m"
      using assms m pw by (auto simp: unpack_backup_bundle_def read_bundle_files_v1_def split: if_splits sum.splits elim!: map_sum_InrE)
    have "list_all2 (listed cy) (bm_files m) cs"
      using process_files_v1_listed [OF run] bundle_key_needed [OF key m pw(2)] by auto
    then show ?thesis using write_files_listed [OF out(1)] out(2) by auto
  qed
  then show ?thesis using m pw(1) count unfolding unpacked_def listed_def by fastforce
qed

subsection \<open>A replica is as good as the bundle\<close>

definition same_payloads :: "bundle_file list \<Rightarrow> bundle_dir \<Rightarrow> bundle_dir \<Rightarrow> bool" where
  "same_payloads files dir dir' \<longleftrightarrow>
     (\<forall>f \<in> set files. \<forall>p. validated_relative_path (bf_payload_path f) = Some p \<longrightarrow> hm_get dir' p = hm_get dir p)"

lemma process_files_v2_cong:
  "same_payloads files dir dir' \<Longrightarrow>
     process_files_v2 cy key encrypted dir' files lps pps acc out = process_files_v2 cy key encrypted dir files lps pps acc out"
  by (induction files arbitrary: lps pps acc out) (auto simp: same_payloads_def split: option.split sum.split)

lemma process_files_v1_cong:
  "same_payloads files dir dir' \<Longrightarrow>
     process_files_v1 cy key encrypted dir' files lps pps acc out = process_files_v1 cy key encrypted dir files lps pps acc out"
  by (induction files arbitrary: lps pps acc out) (auto simp: same_payloads_def split: option.split sum.split)

lemma read_manifest_cong:
  "hm_get dir' BUNDLE_MANIFEST_FILE = hm_get dir BUNDLE_MANIFEST_FILE \<Longrightarrow> read_manifest decode dir' = read_manifest decode dir"
  by (simp add: read_manifest_def)

lemma copy_payloads_get:
  "copy_payloads from files staging = Inr out \<Longrightarrow>
     hm_get out p = (if \<exists>f \<in> set files. validated_relative_path (bf_payload_path f) = Some p then hm_get from p else hm_get staging p)"
  by (induction "from" files staging rule: copy_payloads.induct) (auto split: option.splits if_splits)

lemma same_bundle:
  assumes "read_manifest decode dir = Inr m" and "hm_get dir' BUNDLE_MANIFEST_FILE = hm_get dir BUNDLE_MANIFEST_FILE"
    and "same_payloads (bm_files m) dir dir'"
  shows "verify_backup_bundle cy decode dir' pw = verify_backup_bundle cy decode dir pw"
    and "unpack_backup_bundle cy decode dir' ex pw = unpack_backup_bundle cy decode dir ex pw"
  by (simp_all add: assms(1) read_manifest_cong [OF assms(2)] process_files_v2_cong [OF assms(3)] process_files_v1_cong [OF assms(3)]
    verify_backup_bundle_def unpack_backup_bundle_def process_bundle_files_v2_def read_bundle_files_v1_def cong: sum.case_cong if_cong)

text \<open>
  A replica is as good as the bundle: when a bundle is replicated, every verification and every unpacking of
  the replica, with any password or none, has the result the bundle itself gives; and the report of the replication
  is the verification of the bundle without a password. Only a bundle that passes its verification is replicated.
\<close>
theorem replica_equivalent:
  assumes "replicate_backup_bundle cy decode from to_exists = Inr (v, replica)"
  shows "verify_backup_bundle cy decode from None = Inr v
    \<and> (\<forall>password. verify_backup_bundle cy decode replica password = verify_backup_bundle cy decode from password)
    \<and> (\<forall>password out_exists. unpack_backup_bundle cy decode replica out_exists password
         = unpack_backup_bundle cy decode from out_exists password)"
proof -
  obtain m raw v0 where m: "read_manifest decode from = Inr m" and raw: "hm_get from BUNDLE_MANIFEST_FILE = Some raw"
    and c: "copy_payloads from (bm_files m) [(BUNDLE_MANIFEST_FILE, raw)] = Inr replica"
    and v: "verify_backup_bundle cy decode replica None = Inr v"
    using assms by (auto simp: replicate_backup_bundle_def split: if_splits sum.splits option.splits)
  have "hm_get replica BUNDLE_MANIFEST_FILE = hm_get from BUNDLE_MANIFEST_FILE" "same_payloads (bm_files m) from replica"
    using copy_payloads_get [OF c] raw by (auto simp: same_payloads_def hm_get_def)
  from same_bundle [OF m this] v show ?thesis by simp
qed

subsection \<open>A concrete bundle\<close>

text \<open>An instance of the contract: a tag of sixteen zero bytes.\<close>

definition ex_crypto :: crypto where
  "ex_crypto = \<lparr>cy_sha256 = ex_sha256, cy_encrypt = (\<lambda>k n m a. Some (m @ replicate 16 (CHR 0x00))),
     cy_decrypt = (\<lambda>k n c a. if length c < 16 then None else Some (take (length c - 16) c)),
     cy_argon2 = (\<lambda>m i p password salt. Some (password @ salt)), cy_base64 = (\<lambda>b. b), cy_unbase64 = Some\<rparr>"

lemma ex_crypto_laws: "crypto_laws ex_crypto"
  by (auto simp: crypto_laws_def ex_crypto_def)

definition ex_bundle_call :: bundle_call where
  "ex_bundle_call = \<lparr>bc_created_at = ''2026-01-01T00:00:00Z'', bc_salt = replicate 16 (CHR ''s''), bc_nonces = (\<lambda>i. replicate 8 (CHR ''n''))\<rparr>"

definition ex_objects :: "(string \<times> fs_node) list" where
  "ex_objects = [(''manifest.json'', FileN ''{}''), (''objects'', DirN [(''a1'', FileN ''hi'')])]"

text \<open>The manifests are countable: a concrete encoding of them.\<close>

instance bundle_encryption_ext :: (countable) countable
  by (rule countable_classI [of "\<lambda>r. to_nat (be_cipher r, be_kdf r, be_salt_base64 r, be_memory_kib r, be_iterations r,
      be_parallelism r, bundle_encryption.more r)"]) simp

instance bundle_file_ext :: (countable) countable
  by (rule countable_classI [of "\<lambda>r. to_nat (bf_logical_path r, bf_payload_path r, bf_size_bytes r, bf_sha256 r,
      bf_stored_size_bytes r, bf_stored_sha256 r, bf_nonce_base64 r, bf_chunk_size_bytes r, bf_chunk_count r, bundle_file.more r)"]) simp

instance backup_bundle_manifest_ext :: (countable) countable
  by (rule countable_classI [of "\<lambda>r. to_nat (bm_kind r, bm_schema_version r, bm_created_at r, bm_encrypted r,
      bm_encryption r, bm_file_count r, bm_total_size_bytes r, bm_files r, backup_bundle_manifest.more r)"]) simp

definition ex_manifest_encode :: "backup_bundle_manifest \<Rightarrow> bytes" where
  "ex_manifest_encode m = nat_to_string (to_nat m)"

definition ex_manifest_decode :: "bytes \<Rightarrow> backup_bundle_manifest option" where
  "ex_manifest_decode b = map_option from_nat (digits_value 0 b)"

lemma ex_manifest_decode_encode: "ex_manifest_decode (ex_manifest_encode m) = Some m"
  by (simp add: ex_manifest_decode_def ex_manifest_encode_def digits_value_nat_to_string)

lemma ex_encrypt:
  assumes "contents \<noteq> []" "length contents \<le> 2 ^ 20"
  shows "\<exists>stored. encrypt_chunks ex_crypto BUNDLE_CHUNK_SIZE_BYTES key prefix lp 0 contents = Inr (stored, 1)"
  using assms by (subst encrypt_chunks.simps) (simp add: ex_crypto_def BUNDLE_CHUNK_SIZE_BYTES_def encrypt_chunks.simps)

lemma ex_bundle_runs:
  "\<exists>rep dir. create_backup_bundle ex_crypto ex_manifest_encode ex_bundle_call (Some ''DB'') (Inr r) ex_objects OutAbsent False (Some ''password'') = Inr (rep, dir)"
proof -
  have inputs: "bundle_inputs ''DB'' ex_objects = Inr [(''database.dump'', ''DB''), (''object-store/manifest.json'', ''{}''), (''object-store/objects/a1'', ''hi'')]"
    by code_simp
  have key: "\<exists>key. derive_key ex_crypto ''password'' (create_encryption ex_crypto (bc_salt ex_bundle_call)) = Inr key"
    by (simp add: derive_key_def create_encryption_def ex_crypto_def ex_bundle_call_def)
  have paths: "validated_logical_path ''database.dump'' = Some ''database.dump''"
    "validated_logical_path ''object-store/manifest.json'' = Some ''object-store/manifest.json''"
    "validated_logical_path ''object-store/objects/a1'' = Some ''object-store/objects/a1''" by code_simp+
  have one: "\<exists>f stored. write_bundle_payload ex_crypto (Some key) nonce lp pp contents = Inr (f, stored)"
    if "contents \<in> {''DB'', ''{}'', ''hi''}" for key nonce lp pp contents
    using ex_encrypt [of contents key nonce lp] that by (auto simp: write_bundle_payload_def Let_def)
  have "\<exists>payloads. write_payloads ex_crypto (Some key) nonces 0
      [(''database.dump'', ''DB''), (''object-store/manifest.json'', ''{}''), (''object-store/objects/a1'', ''hi'')] = Inr payloads" for key nonces
  proof -
    obtain f0 s0 where "write_bundle_payload ex_crypto (Some key) (nonces 0) ''database.dump'' (payload_name 0) ''DB'' = Inr (f0, s0)"
      using one [of "''DB''"] by simp metis
    moreover obtain f1 s1 where
      "write_bundle_payload ex_crypto (Some key) (nonces (Suc 0)) ''object-store/manifest.json'' (payload_name (Suc 0)) ''{}'' = Inr (f1, s1)"
      using one [of "''{}''"] by simp metis
    moreover obtain f2 s2 where
      "write_bundle_payload ex_crypto (Some key) (nonces (Suc (Suc 0))) ''object-store/objects/a1'' (payload_name (Suc (Suc 0))) ''hi'' = Inr (f2, s2)"
      using one [of "''hi''"] by simp metis
    ultimately show ?thesis using paths by simp
  qed
  moreover obtain key where "derive_key ex_crypto ''password'' (create_encryption ex_crypto (bc_salt ex_bundle_call)) = Inr key"
    using key by blast
  ultimately obtain payloads where "write_payloads ex_crypto (Some key) (bc_nonces ex_bundle_call) 0
      [(''database.dump'', ''DB''), (''object-store/manifest.json'', ''{}''), (''object-store/objects/a1'', ''hi'')] = Inr payloads"
    and "derive_key ex_crypto ''password'' (create_encryption ex_crypto (bc_salt ex_bundle_call)) = Inr key"
    by blast
  then show ?thesis
    using inputs by (simp add: create_backup_bundle_def fill_bundle_def Let_def)
qed

theorem bundle_roundtrip_witness:
  "\<exists>rep dir files. unpack_backup_bundle ex_crypto ex_manifest_decode dir False (Some ''password'') = Inr (rep, files) \<and>
     hm_get files ''database.dump'' = Some ''DB'' \<and> hm_get files ''object-store/objects/a1'' = Some ''hi'' \<and>
     hm_get files ''object-store/a1'' = None"
proof -
  obtain r rep dir where c: "create_backup_bundle ex_crypto ex_manifest_encode ex_bundle_call (Some ''DB'') (Inr r) ex_objects OutAbsent False (Some ''password'') = Inr (rep, dir)"
    using ex_bundle_runs by blast
  have "tree_ok ex_objects" by code_simp
  moreover have "\<forall>i. length (bc_nonces ex_bundle_call i) = 8" by (simp add: ex_bundle_call_def)
  ultimately obtain files where u: "unpack_backup_bundle ex_crypto ex_manifest_decode dir False (Some ''password'') = Inr (rep, files)"
    "hm_get files DATABASE_LOGICAL_PATH = Some ''DB''"
    and at: "\<forall>ns. list_all name_ok ns \<longrightarrow> hm_get files (OBJECT_STORE_LOGICAL_PREFIX @ join_path ns) = file_at ex_objects ns"
    using bundle_roundtrip [OF c ex_crypto_laws, of ex_manifest_decode] ex_manifest_decode_encode by blast
  have "hm_get files ''object-store/objects/a1'' = Some ''hi''" "hm_get files ''object-store/a1'' = None"
    using at [rule_format, of "[''objects'', ''a1'']"] at [rule_format, of "[''a1'']"]
    by (simp_all add: name_ok_def ex_objects_def OBJECT_STORE_LOGICAL_PREFIX_def)
  with u show ?thesis by (auto simp: DATABASE_LOGICAL_PATH_def)
qed

text \<open>A bundle without encryption.\<close>

definition ex_manifest_plain :: backup_bundle_manifest where
  "ex_manifest_plain = \<lparr>bm_kind = BUNDLE_KIND, bm_schema_version = 2, bm_created_at = ''2026-01-01T00:00:00Z'', bm_encrypted = False,
     bm_encryption = None, bm_file_count = 1, bm_total_size_bytes = 2,
     bm_files = [\<lparr>bf_logical_path = ''database.dump'', bf_payload_path = ''payload/0'', bf_size_bytes = 2, bf_sha256 = ''2'',
       bf_stored_size_bytes = 2, bf_stored_sha256 = ''2'', bf_nonce_base64 = None, bf_chunk_size_bytes = None, bf_chunk_count = None\<rparr>]\<rparr>"

definition ex_dir_plain :: bundle_dir where
  "ex_dir_plain = [(''manifest.json'', ''M''), (''payload/0'', ''DB'')]"

theorem unpack_only_listed_witness:
  "\<exists>rep files. unpack_backup_bundle ex_crypto (\<lambda>_. Some ex_manifest_plain) ex_dir_plain False None = Inr (rep, files) \<and>
     br_file_count rep = length (bm_files ex_manifest_plain)"
proof -
  have "\<not> isl (unpack_backup_bundle ex_crypto (\<lambda>_. Some ex_manifest_plain) ex_dir_plain False None)" by code_simp
  then obtain rep files where u: "unpack_backup_bundle ex_crypto (\<lambda>_. Some ex_manifest_plain) ex_dir_plain False None = Inr (rep, files)"
    by (metis isl_def old.prod.exhaust sum.collapse(2))
  have "read_manifest (\<lambda>_. Some ex_manifest_plain) ex_dir_plain = Inr ex_manifest_plain"
    by (simp add: read_manifest_def ex_dir_plain_def ex_manifest_plain_def BUNDLE_MANIFEST_FILE_def hm_get_def
        BUNDLE_SCHEMA_VERSION_def BUNDLE_MIN_READABLE_SCHEMA_VERSION_def)
  then show ?thesis using unpack_only_listed [OF u] u by auto
qed

theorem replica_equivalent_witness:
  "\<exists>v replica. replicate_backup_bundle ex_crypto (\<lambda>_. Some ex_manifest_plain) ex_dir_plain False = Inr (v, replica) \<and>
     verify_backup_bundle ex_crypto (\<lambda>_. Some ex_manifest_plain) replica None = Inr v"
proof -
  have "\<not> isl (replicate_backup_bundle ex_crypto (\<lambda>_. Some ex_manifest_plain) ex_dir_plain False)" by code_simp
  then obtain v replica where "replicate_backup_bundle ex_crypto (\<lambda>_. Some ex_manifest_plain) ex_dir_plain False = Inr (v, replica)"
    by (metis isl_def old.prod.exhaust sum.collapse(2))
  then show ?thesis using replica_equivalent by fastforce
qed

end
