(* ===== verification/Bundle_Retention.thy ===== *)
theory Bundle_Retention
  imports Backup_Bundle "HOL-Library.Multiset" "HOL-Library.Product_Lexorder"
begin

section \<open>Retention of backup bundles (infrastructure/backup_bundle.rs)\<close>

text \<open>
  The directory that holds the bundles is a tree of \<open>fs_node\<close>; a bundle is a subdirectory with a readable
  manifest and a creation time that parses. Cleaning up keeps the newest bundles, and the newest of all is what
  restoring and the status page look for. \<open>parse_time\<close> is the RFC 3339 parser, as a point in time. A manifest
  behind a symbolic link is not modelled. The times of two bundles may be equal; their names never are.
\<close>

record backup_bundle_cleanup_report =
  bcr_deleted_count :: nat
  bcr_kept_count :: nat
  bcr_freed_bytes :: nat

record backup_bundle_storage_stats_row =
  bss_bundle_count :: nat
  bss_invalid_count :: nat
  bss_total_bytes :: nat

record backup_bundle_summary =
  bsm_path :: string
  bsm_created_at :: string
  bsm_file_count :: nat

definition bundle_files_of :: "(string \<times> fs_node) list \<Rightarrow> bundle_dir" where
  "bundle_files_of es = map (\<lambda>(ns, c). (join_path ns, c)) (tree_files es)"

text \<open>The manifest of an entry of the root and its time: only directories count, and links are not followed.\<close>

definition bundle_at :: "(bytes \<Rightarrow> backup_bundle_manifest option) \<Rightarrow> (string \<Rightarrow> int option) \<Rightarrow> fs_node \<Rightarrow>
    (int \<times> backup_bundle_manifest) option" where
  "bundle_at decode parse_time node =
     (case node of
        DirN es \<Rightarrow>
          (case read_manifest decode (bundle_files_of es) of
             Inl _ \<Rightarrow> None
           | Inr manifest \<Rightarrow> map_option (\<lambda>created_at. (created_at, manifest)) (parse_time (bm_created_at manifest)))
      | _ \<Rightarrow> None)"

fun directory_size :: "(string \<times> fs_node) list \<Rightarrow> bundle_error + nat" where
  "directory_size [] = Inr 0"
| "directory_size ((name, SymlinkN) # rest) = Inl InputSymlink"
| "directory_size ((name, OtherN) # rest) = directory_size rest"
| "directory_size ((name, FileN c) # rest) = map_sum (\<lambda>e. e) (\<lambda>n. length c + n) (directory_size rest)"
| "directory_size ((name, DirN es) # rest) =
     (case directory_size es of Inl e \<Rightarrow> Inl e | Inr n \<Rightarrow> map_sum (\<lambda>e. e) (\<lambda>m. n + m) (directory_size rest))"

definition node_size :: "fs_node \<Rightarrow> bundle_error + nat" where
  "node_size node = (case node of DirN es \<Rightarrow> directory_size es | _ \<Rightarrow> Inr 0)"

subsection \<open>Cleaning up\<close>

text \<open>The time, the name and the size of every bundle.\<close>

fun list_bundles :: "(bytes \<Rightarrow> backup_bundle_manifest option) \<Rightarrow> (string \<Rightarrow> int option) \<Rightarrow> (string \<times> fs_node) list \<Rightarrow>
    bundle_error + (int \<times> string \<times> nat) list" where
  "list_bundles decode parse_time [] = Inr []"
| "list_bundles decode parse_time ((name, node) # entries) =
     (case bundle_at decode parse_time node of
        None \<Rightarrow> list_bundles decode parse_time entries
      | Some (created_at, _) \<Rightarrow>
          (case node_size node of
             Inl e \<Rightarrow> Inl e
           | Inr size_bytes \<Rightarrow> map_sum (\<lambda>e. e) ((#) (created_at, name, size_bytes)) (list_bundles decode parse_time entries)))"

text \<open>Newest first, and by name from the last where the times are equal.\<close>

definition latest_first :: "(int \<times> string \<times> 'a) list \<Rightarrow> (int \<times> string \<times> 'a) list" where
  "latest_first bundles = rev (sort_key (\<lambda>(created_at, name, _). (created_at, name)) bundles)"

text \<open>
  \<open>remove_dir_all\<close> is an argument: \<open>None\<close> when the directory is gone, else what is left of it. The first
  failure ends the clean-up.
\<close>

fun delete_bundles :: "(string \<Rightarrow> fs_node option) \<Rightarrow> (int \<times> string \<times> nat) list \<Rightarrow> nat \<Rightarrow> nat \<Rightarrow>
    (string \<times> fs_node) list \<Rightarrow> (bundle_error + (nat \<times> nat)) \<times> (string \<times> fs_node) list" where
  "delete_bundles remove [] deleted_count freed_bytes bundle_root = (Inr (deleted_count, freed_bytes), bundle_root)"
| "delete_bundles remove ((_, name, size_bytes) # bundles) deleted_count freed_bytes bundle_root =
     (case remove name of
        Some left \<Rightarrow> (Inl BundleIo, AList.update name left bundle_root)
      | None \<Rightarrow> delete_bundles remove bundles (deleted_count + 1) (freed_bytes + size_bytes) (AList.delete name bundle_root))"

text \<open>The root is \<open>None\<close> when it is not a directory.\<close>

definition cleanup_backup_bundles :: "(bytes \<Rightarrow> backup_bundle_manifest option) \<Rightarrow> (string \<Rightarrow> int option) \<Rightarrow>
    (string \<Rightarrow> fs_node option) \<Rightarrow> (string \<times> fs_node) list option \<Rightarrow> nat \<Rightarrow>
    (bundle_error + backup_bundle_cleanup_report) \<times> (string \<times> fs_node) list option" where
  "cleanup_backup_bundles decode parse_time remove bundle_root keep =
     (if keep = 0 then (Inl KeepZero, bundle_root)
      else case bundle_root of None \<Rightarrow> (Inl NotADirectory, bundle_root) | Some entries \<Rightarrow>
      case list_bundles decode parse_time entries of Inl e \<Rightarrow> (Inl e, bundle_root) | Inr listed \<Rightarrow>
        let bundles = latest_first listed; kept_count = min (length bundles) keep in
        apfst (map_sum (\<lambda>e. e) (\<lambda>(deleted_count, freed_bytes).
            \<lparr>bcr_deleted_count = deleted_count, bcr_kept_count = kept_count, bcr_freed_bytes = freed_bytes\<rparr>))
          (apsnd Some (delete_bundles remove (drop keep bundles) 0 0 entries)))"

subsection \<open>The latest bundle and what the bundles take\<close>

definition bundle_summaries :: "(bytes \<Rightarrow> backup_bundle_manifest option) \<Rightarrow> (string \<Rightarrow> int option) \<Rightarrow>
    (string \<times> fs_node) list \<Rightarrow> (int \<times> string \<times> backup_bundle_summary) list" where
  "bundle_summaries decode parse_time entries =
     List.map_filter (\<lambda>(name, node). map_option (\<lambda>(created_at, manifest). (created_at, name,
         \<lparr>bsm_path = name, bsm_created_at = bm_created_at manifest, bsm_file_count = bm_file_count manifest\<rparr>))
       (bundle_at decode parse_time node)) entries"

definition find_latest_backup_bundle :: "(bytes \<Rightarrow> backup_bundle_manifest option) \<Rightarrow> (string \<Rightarrow> int option) \<Rightarrow>
    (string \<times> fs_node) list option \<Rightarrow> backup_bundle_summary option" where
  "find_latest_backup_bundle decode parse_time bundle_root =
     (case bundle_root of None \<Rightarrow> None | Some entries \<Rightarrow>
      (case latest_first (bundle_summaries decode parse_time entries) of [] \<Rightarrow> None | (_, _, summary) # _ \<Rightarrow> Some summary))"

definition u64_sat_add :: "nat \<Rightarrow> nat \<Rightarrow> nat" where
  "u64_sat_add a b = min (a + b) (2 ^ 64 - 1)"

text \<open>One entry of the root; the sizes of a bundle's payloads are those of its manifest.\<close>

definition count_entry :: "(bytes \<Rightarrow> backup_bundle_manifest option) \<Rightarrow> (string \<Rightarrow> int option) \<Rightarrow> fs_node \<Rightarrow>
    backup_bundle_storage_stats_row \<Rightarrow> bundle_error + backup_bundle_storage_stats_row" where
  "count_entry decode parse_time node stats =
     (case node of
        DirN es \<Rightarrow>
          (case bundle_at decode parse_time node of
             None \<Rightarrow>
               map_sum (\<lambda>e. e) (\<lambda>n. stats\<lparr>bss_invalid_count := u64_sat_add (bss_invalid_count stats) 1,
                 bss_total_bytes := u64_sat_add (bss_total_bytes stats) n\<rparr>) (directory_size es)
           | Some (_, manifest) \<Rightarrow>
               let payload_bytes = foldl u64_sat_add 0 (map bf_stored_size_bytes (bm_files manifest));
                   bundle_bytes = (case hm_get (bundle_files_of es) BUNDLE_MANIFEST_FILE of
                       None \<Rightarrow> payload_bytes | Some raw \<Rightarrow> u64_sat_add payload_bytes (length raw)) in
               Inr (stats\<lparr>bss_bundle_count := u64_sat_add (bss_bundle_count stats) 1,
                 bss_total_bytes := u64_sat_add (bss_total_bytes stats) bundle_bytes\<rparr>))
      | _ \<Rightarrow> Inr stats)"

fun count_entries :: "(bytes \<Rightarrow> backup_bundle_manifest option) \<Rightarrow> (string \<Rightarrow> int option) \<Rightarrow> (string \<times> fs_node) list \<Rightarrow>
    backup_bundle_storage_stats_row \<Rightarrow> bundle_error + backup_bundle_storage_stats_row" where
  "count_entries decode parse_time [] stats = Inr stats"
| "count_entries decode parse_time ((name, node) # entries) stats =
     (case count_entry decode parse_time node stats of Inl e \<Rightarrow> Inl e | Inr stats' \<Rightarrow> count_entries decode parse_time entries stats')"

datatype root_dir = RootAbsent | RootFile | RootDir "(string \<times> fs_node) list"

definition backup_bundle_storage_stats :: "(bytes \<Rightarrow> backup_bundle_manifest option) \<Rightarrow> (string \<Rightarrow> int option) \<Rightarrow> root_dir \<Rightarrow>
    bundle_error + backup_bundle_storage_stats_row" where
  "backup_bundle_storage_stats decode parse_time bundle_root =
     (let stats = \<lparr>bss_bundle_count = 0, bss_invalid_count = 0, bss_total_bytes = 0\<rparr> in
      case bundle_root of
        RootAbsent \<Rightarrow> Inr stats
      | RootFile \<Rightarrow> Inl NotADirectory
      | RootDir entries \<Rightarrow> count_entries decode parse_time entries stats)"

subsection \<open>What cleaning up keeps\<close>

definition bundle_keys :: "(bytes \<Rightarrow> backup_bundle_manifest option) \<Rightarrow> (string \<Rightarrow> int option) \<Rightarrow> (string \<times> fs_node) list \<Rightarrow> (int \<times> string) list" where
  "bundle_keys decode parse_time entries =
     List.map_filter (\<lambda>(name, node). map_option (\<lambda>(created_at, _). (created_at, name)) (bundle_at decode parse_time node)) entries"

abbreviation key_of :: "int \<times> string \<times> 'a \<Rightarrow> int \<times> string" where
  "key_of \<equiv> \<lambda>(created_at, name, _). (created_at, name)"

lemma bundle_keys_simps [simp]:
  "bundle_keys decode parse_time [] = []"
  "bundle_keys decode parse_time ((name, node) # entries) =
     (case bundle_at decode parse_time node of None \<Rightarrow> [] | Some (t, _) \<Rightarrow> [(t, name)]) @ bundle_keys decode parse_time entries"
  by (auto simp: bundle_keys_def map_filter_simps split: option.split)

lemma list_bundles_keys: "list_bundles decode parse_time entries = Inr listed \<Longrightarrow> map key_of listed = bundle_keys decode parse_time entries"
  by (induction entries arbitrary: listed rule: list_bundles.induct) (auto split: option.splits sum.splits elim!: map_sum_InrE)

lemma bundle_summaries_keys: "map key_of (bundle_summaries decode parse_time entries) = bundle_keys decode parse_time entries"
  by (induction entries) (auto simp: bundle_summaries_def map_filter_simps split: option.split)

lemma latest_first_keys: "map key_of (latest_first xs) = rev (sort (map key_of xs))"
proof -
  have "map key_of (sort_key key_of xs) = sort (map key_of xs)"
    by (rule properties_for_sort [symmetric]) (simp_all only: mset_map mset_sort sorted_sort_key)
  then show ?thesis by (simp add: latest_first_def flip: rev_map)
qed

lemma bundle_keys_iff: "(t, name) \<in> set (bundle_keys decode parse_time entries) \<longleftrightarrow>
    (\<exists>node m. (name, node) \<in> set entries \<and> bundle_at decode parse_time node = Some (t, m))"
proof (induction entries)
  case (Cons e entries)
  obtain n node where "e = (n, node)" by fastforce
  then show ?case using Cons by (cases "bundle_at decode parse_time node") auto
qed simp

lemma distinct_bundle_keys: "distinct (map fst entries) \<Longrightarrow> distinct (map snd (bundle_keys decode parse_time entries))"
proof (induction entries)
  case (Cons e entries)
  have "snd ` set (bundle_keys decode parse_time entries) \<subseteq> fst ` set entries"
    by (force simp: bundle_keys_iff)
  then show ?case using Cons by (cases e) (auto split: option.split)
qed simp

lemma delete_bundles_map:
  assumes "delete_bundles remove bundles d n entries = (r, entries')" and "name \<notin> (\<lambda>(_, n, _). n) ` set bundles"
  shows "map_of entries' name = map_of entries name"
  using assms
  by (induction remove bundles d n entries rule: delete_bundles.induct)
    (auto simp: update_conv' delete_conv' split: option.splits)

lemma delete_bundles_Inr:
  assumes "delete_bundles remove bundles d n entries = (Inr (d', n'), entries')"
  shows "entries' = filter (\<lambda>(name, _). name \<notin> (\<lambda>(_, n, _). n) ` set bundles) entries \<and> d' = d + length bundles"
  using assms
proof (induction remove bundles d n entries rule: delete_bundles.induct)
  case (2 remove t name size_bytes bundles d n entries)
  then show ?case by (auto simp: AList.delete_eq intro!: filter_cong split: option.splits)
qed auto

lemma cleanup_run:
  assumes "cleanup_backup_bundles decode parse_time remove (Some entries) keep = (r, entries')" and "list_bundles decode parse_time entries = Inr listed"
    and "0 < keep"
  obtains out root' where "delete_bundles remove (drop keep (latest_first listed)) 0 0 entries = (out, root')" "entries' = Some root'"
    "r = map_sum (\<lambda>e. e) (\<lambda>(deleted_count, freed_bytes). \<lparr>bcr_deleted_count = deleted_count,
       bcr_kept_count = min (length listed) keep, bcr_freed_bytes = freed_bytes\<rparr>) out"
  using assms by (auto simp: cleanup_backup_bundles_def Let_def latest_first_def apfst_def apsnd_def map_prod_def split: prod.splits)

text \<open>The bundles to delete are older than at least \<open>keep\<close> others.\<close>

lemma dropped_older:
  assumes "list_bundles decode parse_time entries = Inr listed" and "distinct (map fst entries)"
    and "x \<in> set (drop keep (latest_first listed))"
  shows "keep \<le> card {name. \<exists>t. (t, name) \<in> set (bundle_keys decode parse_time entries) \<and> key_of x < (t, name)}"
    and "key_of x \<in> set (bundle_keys decode parse_time entries)"
proof -
  let ?bs = "latest_first listed" and ?K = "bundle_keys decode parse_time entries"
  have keys: "map key_of ?bs = rev (sort ?K)"
    using latest_first_keys [of listed] list_bundles_keys [OF assms(1)] by simp
  have dk: "distinct (map snd ?K)" by (rule distinct_bundle_keys [OF assms(2)])
  have dn: "distinct (map snd (map key_of ?bs))"
    unfolding keys using dk by (simp add: distinct_map distinct_sort inj_on_def)
  obtain i where i: "i < length (drop keep ?bs)" "x = drop keep ?bs ! i" using assms(3) by (metis in_set_conv_nth)
  then have xi: "x = ?bs ! (keep + i)" and len: "keep + i < length ?bs" by simp_all
  show "key_of x \<in> set ?K"
    using keys nth_mem [OF len] by (metis (no_types, lifting) image_eqI list.set_map set_rev set_sort xi)
  have less: "key_of x < key_of (?bs ! j)" if "j < keep" for j
  proof -
    have "sorted (rev (map key_of ?bs))" by (simp add: keys)
    then have "key_of x \<le> key_of (?bs ! j)"
      using sorted_rev_nth_mono [of "map key_of ?bs" j "keep + i"] len that by (simp add: xi)
    moreover have "snd (key_of (?bs ! j)) \<noteq> snd (key_of x)"
      using dn len that by (simp add: xi distinct_conv_nth del: map_map)
    ultimately show ?thesis by (metis order_le_imp_less_or_eq)
  qed
  let ?N = "map snd (map key_of (take keep ?bs))"
  have "distinct ?N" using dn by (metis distinct_take take_map)
  then have "card (set ?N) = length ?N" by (rule distinct_card)
  then have "card (set ?N) = keep" using len by simp
  have sub: "set ?N \<subseteq> {name. \<exists>t. (t, name) \<in> set ?K \<and> key_of x < (t, name)}"
  proof
    fix name assume "name \<in> set ?N"
    then obtain j where j: "j < keep" "j < length ?bs" "name = snd (key_of (?bs ! j))"
      by (auto simp: in_set_conv_nth)
    have "key_of (?bs ! j) \<in> set ?K"
      using keys nth_mem [OF j(2)] by (metis (no_types, lifting) image_eqI list.set_map set_rev set_sort)
    then show "name \<in> {name. \<exists>t. (t, name) \<in> set ?K \<and> key_of x < (t, name)}"
      using less [OF j(1)] j(3) by (metis (mono_tags, lifting) mem_Collect_eq prod.collapse)
  qed
  have fin: "finite {name. \<exists>t. (t, name) \<in> set ?K \<and> key_of x < (t, name)}"
    by (rule finite_subset [of _ "snd ` set ?K"]) (auto intro: rev_image_eqI)
  show "keep \<le> card {name. \<exists>t. (t, name) \<in> set ?K \<and> key_of x < (t, name)}"
    using card_mono [OF fin sub] \<open>card (set ?N) = keep\<close> by simp
qed

lemma filter_keys: "bundle_keys decode parse_time (filter (\<lambda>(name, _). P name) entries) = filter (\<lambda>(_, name). P name) (bundle_keys decode parse_time entries)"
  by (induction entries) (auto split: option.split)

lemma filter_summaries: "bundle_summaries decode parse_time (filter (\<lambda>(name, _). P name) entries)
    = filter (\<lambda>(_, name, _). P name) (bundle_summaries decode parse_time entries)"
  by (induction entries) (auto simp: bundle_summaries_def map_filter_simps split: option.split)

lemma latest_first_filter: "latest_first (filter P xs) = filter P (latest_first xs)"
  by (simp add: latest_first_def rev_filter flip: filter_sort)

lemma cleanup_latest:
  assumes "list_bundles decode parse_time entries = Inr listed" and "distinct (map fst entries)" and "0 < keep"
    and "delete_bundles remove (drop keep (latest_first listed)) 0 0 entries = (Inr res, entries')"
  shows "length (bundle_keys decode parse_time entries') = min keep (length listed)
    \<and> find_latest_backup_bundle decode parse_time (Some entries') = find_latest_backup_bundle decode parse_time (Some entries)"
proof -
  let ?bs = "latest_first listed" and ?K = "bundle_keys decode parse_time entries" and ?ss = "latest_first (bundle_summaries decode parse_time entries)"
  define names where "names = (\<lambda>(_, n, _). n) ` set (drop keep ?bs)"
  have e: "entries' = filter (\<lambda>(name, _). name \<notin> names) entries"
    using delete_bundles_Inr [of remove "drop keep ?bs" 0 0 entries "fst res" "snd res" entries'] assms(4) by (simp add: names_def)
  have kb: "map key_of ?bs = rev (sort ?K)" using latest_first_keys [of listed] list_bundles_keys [OF assms(1)] by simp
  have ks: "map key_of ?ss = rev (sort ?K)" using latest_first_keys bundle_summaries_keys by metis
  have "distinct (map snd ?K)" by (rule distinct_bundle_keys [OF assms(2)])
  then have dn: "distinct (map snd (rev (sort ?K)))" by (simp add: distinct_map distinct_sort inj_on_def)
  have names: "names = set (map snd (drop keep (rev (sort ?K))))"
    by (force simp: names_def drop_map simp flip: kb)
  have kept: "filter (\<lambda>(_, name). name \<notin> names) (rev (sort ?K)) = take keep (rev (sort ?K))"
  proof -
    let ?k = "rev (sort ?K)"
    have "set (map snd (take keep ?k)) \<inter> set (map snd (drop keep ?k)) = {}"
      using dn by (metis append_take_drop_id distinct_append map_append)
    then have "filter (\<lambda>(_, name). name \<notin> names) (take keep ?k) = take keep ?k"
      by (subst filter_id_conv) (force simp: names)
    moreover have "filter (\<lambda>(_, name). name \<notin> names) (drop keep ?k) = []"
      by (force simp: filter_empty_conv names)
    ultimately show ?thesis by (metis append_Nil2 append_take_drop_id filter_append)
  qed
  have "mset (bundle_keys decode parse_time entries') = mset (filter (\<lambda>(_, name). name \<notin> names) (rev (sort ?K)))"
    by (simp add: e filter_keys mset_filter)
  then have "length (bundle_keys decode parse_time entries') = length (take keep (rev (sort ?K)))"
    unfolding kept by (rule mset_eq_length)
  moreover have "length ?K = length listed" using list_bundles_keys [OF assms(1)] by (metis length_map)
  moreover have "find_latest_backup_bundle decode parse_time (Some entries') = find_latest_backup_bundle decode parse_time (Some entries)"
  proof (cases ?ss)
    case Nil
    then show ?thesis by (simp add: find_latest_backup_bundle_def e filter_summaries latest_first_filter)
  next
    case (Cons s rest)
    obtain k0 krest where k: "rev (sort ?K) = k0 # krest" "k0 = key_of s" using ks Cons by (cases "rev (sort ?K)") auto
    have "k0 \<in> set (take keep (rev (sort ?K)))" using assms(3) k(1) by (cases keep) auto
    then have "snd k0 \<notin> names" unfolding kept [symmetric] by auto
    then show ?thesis
      by (cases s) (simp add: find_latest_backup_bundle_def e filter_summaries latest_first_filter Cons k(2))
  qed
  ultimately show ?thesis by (simp add: min.commute)
qed

text \<open>
  C25. Cleaning up spares what is worth keeping: whatever happens, a directory is changed only if it is a bundle and
  at least \<open>keep\<close> bundles are newer (or of the same time and later by name). When the clean-up succeeds every
  other bundle but those \<open>keep\<close> is gone, the counts add up, and the latest bundle is the same as before.
\<close>
theorem cleanup_spares_newest:
  assumes "cleanup_backup_bundles decode parse_time remove (Some entries) keep = (r, Some entries')" and "distinct (map fst entries)"
  shows "(\<forall>name. map_of entries' name \<noteq> map_of entries name \<longrightarrow>
      (\<exists>t. (t, name) \<in> set (bundle_keys decode parse_time entries) \<and>
         keep \<le> card {name'. \<exists>t'. (t', name') \<in> set (bundle_keys decode parse_time entries) \<and> (t, name) < (t', name')}))
    \<and> (\<forall>rep. r = Inr rep \<longrightarrow>
         length (bundle_keys decode parse_time entries') = bcr_kept_count rep \<and>
         bcr_kept_count rep = min keep (length (bundle_keys decode parse_time entries)) \<and>
         bcr_deleted_count rep = length (bundle_keys decode parse_time entries) - bcr_kept_count rep \<and>
         find_latest_backup_bundle decode parse_time (Some entries') = find_latest_backup_bundle decode parse_time (Some entries))"
proof (cases "0 < keep \<and> (\<exists>listed. list_bundles decode parse_time entries = Inr listed)")
  case False
  then show ?thesis using assms(1) by (auto simp: cleanup_backup_bundles_def split: sum.splits if_splits)
next
  case True
  then obtain listed where listed: "list_bundles decode parse_time entries = Inr listed" and keep: "0 < keep" by blast
  let ?bs = "latest_first listed" and ?K = "bundle_keys decode parse_time entries"
  obtain out where del: "delete_bundles remove (drop keep ?bs) 0 0 entries = (out, entries')"
    and r: "r = map_sum (\<lambda>e. e) (\<lambda>(deleted_count, freed_bytes). \<lparr>bcr_deleted_count = deleted_count,
       bcr_kept_count = min (length listed) keep, bcr_freed_bytes = freed_bytes\<rparr>) out"
    using cleanup_run [OF assms(1) listed keep] by (metis option.inject)
  have "\<exists>t. (t, name) \<in> set ?K \<and> keep \<le> card {name'. \<exists>t'. (t', name') \<in> set ?K \<and> (t, name) < (t', name')}"
    if changed: "map_of entries' name \<noteq> map_of entries name" for name
  proof -
    have "name \<in> (\<lambda>(_, n, _). n) ` set (drop keep ?bs)" using delete_bundles_map [OF del, of name] changed by blast
    then obtain t n where x: "(t, name, n) \<in> set (drop keep ?bs)" by auto
    show ?thesis using dropped_older [OF listed assms(2) x] by auto
  qed
  moreover have "length (bundle_keys decode parse_time entries') = bcr_kept_count rep \<and> bcr_kept_count rep = min keep (length ?K) \<and>
      bcr_deleted_count rep = length ?K - bcr_kept_count rep \<and>
      find_latest_backup_bundle decode parse_time (Some entries') = find_latest_backup_bundle decode parse_time (Some entries)"
    if rep: "r = Inr rep" for rep
  proof -
    obtain d n where out: "out = Inr (d, n)" and rep': "bcr_deleted_count rep = d" "bcr_kept_count rep = min (length listed) keep"
      using rep r by (auto elim!: map_sum_InrE)
    have l: "length listed = length ?K" using list_bundles_keys [OF listed] by (metis length_map)
    have "d = length ?K - min (length listed) keep"
      using delete_bundles_Inr [OF del [unfolded out]] by (simp add: latest_first_def l min_def)
    then show ?thesis
      using rep' l cleanup_latest [OF listed assms(2) keep del [unfolded out]] by (simp add: min.commute)
  qed
  ultimately show ?thesis by blast
qed

definition ex_retention_decode :: "bytes \<Rightarrow> backup_bundle_manifest option" where
  "ex_retention_decode raw = (if raw = ''x'' then None else Some
     \<lparr>bm_kind = BUNDLE_KIND, bm_schema_version = 2, bm_created_at = raw, bm_encrypted = False, bm_encryption = None,
      bm_file_count = 0, bm_total_size_bytes = 0, bm_files = []\<rparr>)"

definition ex_parse_time :: "string \<Rightarrow> int option" where
  "ex_parse_time s = Some (int (length s))"

definition ex_root :: "(string \<times> fs_node) list" where
  "ex_root = [(''a'', DirN [(''manifest.json'', FileN ''22'')]), (''b'', DirN [(''manifest.json'', FileN ''1'')]),
     (''broken'', DirN [(''manifest.json'', FileN ''x'')]), (''c'', DirN [(''manifest.json'', FileN ''22'')])]"

theorem cleanup_spares_newest_witness:
  "\<exists>rep entries'. cleanup_backup_bundles ex_retention_decode ex_parse_time (\<lambda>_. None) (Some ex_root) 1 = (Inr rep, Some entries') \<and>
     map (bsm_path \<circ> the) [find_latest_backup_bundle ex_retention_decode ex_parse_time (Some entries')] = [''c''] \<and>
     bcr_kept_count rep = 1 \<and> bcr_deleted_count rep = 2 \<and> map_of entries' ''broken'' = map_of ex_root ''broken''"
proof -
  have "\<not> isl (fst (cleanup_backup_bundles ex_retention_decode ex_parse_time (\<lambda>_. None) (Some ex_root) 1)) \<and>
    snd (cleanup_backup_bundles ex_retention_decode ex_parse_time (\<lambda>_. None) (Some ex_root) 1) \<noteq> None"
    by code_simp
  then obtain rep entries' where c: "cleanup_backup_bundles ex_retention_decode ex_parse_time (\<lambda>_. None) (Some ex_root) 1 = (Inr rep, Some entries')"
    by (metis isl_def option.exhaust prod.collapse sum.collapse(2))
  have d: "distinct (map fst ex_root)" by code_simp
  have k: "bundle_keys ex_retention_decode ex_parse_time ex_root = [(2, ''a''), (1, ''b''), (2, ''c'')]" by code_simp
  have "map (bsm_path \<circ> the) [find_latest_backup_bundle ex_retention_decode ex_parse_time (Some ex_root)] = [''c'']" by code_simp
  then show ?thesis
    using cleanup_spares_newest [OF c d] c by (auto simp: k)
qed

end
