(* ===== verification/Backup_Status.thy ===== *)
theory Backup_Status
  imports Prelude
begin

section \<open>The status of backups (infrastructure/backup_status.rs)\<close>

text \<open>
  What a run leaves in \<open>status.json\<close> and how fresh it is. Points of time are nanoseconds of the epoch,
  \<open>parse_time\<close> is the RFC 3339 parser. The files are written to a temporary name and renamed, so that a status
  is there as a whole or not at all: what reading one gives is an argument.
\<close>

datatype run_outcome = RunSuccess | RunFailed

record backup_run_status =
  bs_outcome :: run_outcome
  bs_started_at :: string
  bs_completed_at :: string
  bs_duration_ms :: nat
  bs_file_count :: nat
  bs_total_size_bytes :: nat
  bs_replicated :: bool
  bs_local_retained :: nat
  bs_offsite_retained :: nat
  bs_error_summary :: "string option"

record restore_run_status =
  rs_outcome :: run_outcome
  rs_started_at :: string
  rs_completed_at :: string
  rs_duration_ms :: nat
  rs_safety_backup_run_id :: "string option"
  rs_file_count :: nat
  rs_object_count :: nat
  rs_book_count :: int
  rs_transaction_count :: int
  rs_error_summary :: "string option"

datatype backup_readiness = ReadinessDisabled | NeverRun | ReadinessFailed | Stale | Ready

fun readiness_str :: "backup_readiness \<Rightarrow> string" where
  "readiness_str ReadinessDisabled = ''disabled''"
| "readiness_str NeverRun = ''never_run''"
| "readiness_str ReadinessFailed = ''failed''"
| "readiness_str Stale = ''stale''"
| "readiness_str Ready = ''ready''"

record backup_readiness_snapshot =
  sn_readiness :: backup_readiness
  sn_status :: "backup_run_status option"
  sn_age_seconds :: "int option"

definition i64_sat_mul :: "int \<Rightarrow> int \<Rightarrow> int" where
  "i64_sat_mul a b = max (- (2 ^ 63)) (min (2 ^ 63 - 1) (a * b))"

text \<open>\<open>None\<close> is an error: the status cannot be read, or its time cannot be parsed.\<close>

definition evaluate_backup_readiness :: "(string \<Rightarrow> int option) \<Rightarrow> bool \<Rightarrow> backup_run_status option option \<Rightarrow> nat \<Rightarrow> int \<Rightarrow>
    backup_readiness_snapshot option" where
  "evaluate_backup_readiness parse_time has_backup_dir status_file interval_hours now =
     (if \<not> has_backup_dir then Some \<lparr>sn_readiness = ReadinessDisabled, sn_status = None, sn_age_seconds = None\<rparr>
      else case status_file of None \<Rightarrow> None
      | Some None \<Rightarrow> Some \<lparr>sn_readiness = NeverRun, sn_status = None, sn_age_seconds = None\<rparr>
      | Some (Some status) \<Rightarrow>
          (case parse_time (bs_completed_at status) of None \<Rightarrow> None | Some completed_at \<Rightarrow>
             let age_seconds = max 0 ((now - completed_at) div 10 ^ 9);
                 readiness = (if bs_outcome status = RunFailed then ReadinessFailed
                   else if i64_sat_mul (as_i64 (int interval_hours)) (60 * 60) < age_seconds then Stale else Ready) in
             Some \<lparr>sn_readiness = readiness, sn_status = Some status, sn_age_seconds = Some age_seconds\<rparr>))"

end
