(* ===== verification/Backup_Runtime.thy ===== *)
theory Backup_Runtime
  imports Bundle_Retention Backup_Status Audit_Trail
begin

section \<open>Backup and restore runs (infrastructure/backup_runtime.rs)\<close>

text \<open>
  A run dumps the database, backs the objects up, makes a bundle of both, verifies and replicates it and cleans the
  old ones up. A restore verifies the bundle, makes a safety backup and puts objects and database back. The state is
  the directory of the bundles, the one off site, the two status files and the audit events; what \<open>pg_dump\<close>,
  \<open>pg_restore\<close>, the clock, the random source and the file system answer is in records. Paths are lists of their
  components. Metrics are left out.
\<close>

subsection \<open>Directories\<close>

fun tree_put :: "string list \<Rightarrow> bytes \<Rightarrow> (string \<times> fs_node) list \<Rightarrow> (string \<times> fs_node) list" where
  "tree_put [] c es = es"
| "tree_put [n] c es = AList.update n (FileN c) es"
| "tree_put (n # m # ns) c es =
     (let sub = (case map_of es n of Some (DirN es') \<Rightarrow> es' | _ \<Rightarrow> []) in AList.update n (DirN (tree_put (m # ns) c sub)) es)"

text \<open>The tree that a map from paths to contents is written as.\<close>

definition dir_tree :: "(string, bytes) hashmap \<Rightarrow> (string \<times> fs_node) list" where
  "dir_tree d = fold (\<lambda>(p, c). tree_put (split_on (CHR ''/'') p) c) d []"

definition below :: "string \<Rightarrow> (string, bytes) hashmap \<Rightarrow> (string, bytes) hashmap" where
  "below prefix d = List.map_filter (\<lambda>(p, c). map_option (\<lambda>q. (q, c)) (strip_prefix prefix p)) d"

text \<open>The backup of the object store as its verification and restoration see it.\<close>

definition object_backup_of :: "(string, bytes) hashmap \<Rightarrow> bytes backup_dir" where
  "object_backup_of d = \<lparr>bd_manifest = hm_get d ''manifest.json'', bd_objects = below ''objects/'' d\<rparr>"

definition object_backup_files :: "bytes backup_dir \<Rightarrow> (string, bytes) hashmap" where
  "object_backup_files dir =
     (case bd_manifest dir of None \<Rightarrow> [] | Some raw \<Rightarrow> [(''manifest.json'', raw)]) @ map (\<lambda>(k, c). (''objects/'' @ k, c)) (bd_objects dir)"

definition bundle_named :: "(string \<times> fs_node) list \<Rightarrow> string \<Rightarrow> bundle_dir" where
  "bundle_named entries name = (case map_of entries name of Some (DirN es) \<Rightarrow> bundle_files_of es | _ \<Rightarrow> [])"

definition out_state :: "(string \<times> fs_node) list \<Rightarrow> string \<Rightarrow> out_dir" where
  "out_state entries name = (case map_of entries name of None \<Rightarrow> OutAbsent | Some (DirN []) \<Rightarrow> OutEmpty | Some _ \<Rightarrow> OutNonEmpty)"

subsection \<open>State\<close>

datatype runtime_error =
    BackupDirMissing | WorkDirFailed | OffsiteSameAsLocal | PgDumpFailed | ObjectBackupFailed backup_error
  | BundleFailed bundle_error | PlaintextNotVerified | OffsiteRootFailed | StatusWriteFailed | PasswordNotFound
  | BundlePasswordRequired | ObjectsInvalid backup_error | ObjectRestoreFailed backup_error | PgRestoreFailed
  | RestoredDatabaseUnavailable | SchemaOutdated | AttachmentMissing | AttachmentSizeMismatch
  | AttachmentHashMismatch | AttachmentCountChanged
  | NoBundle | DatabaseUrlMissing | AdminUnavailable | RoleUnreadable | RoleCannotCreate | BadDatabaseUrl
  | CreateDatabaseFailed | DropDatabaseFailed | DrillCountMismatch

record runtime_config =
  rk_backup_dir :: "string list option"
  rk_backup_offsite_dir :: "string list option"
  rk_backup_keep :: nat
  rk_backup_password :: "string option"
  rk_backup_password_previous :: "string option"

record backup_world =
  bw_bundles :: "(string \<times> fs_node) list"
  bw_offsite :: "(string \<times> fs_node) list"
  bw_status :: "backup_run_status option"
  bw_restore_status :: "restore_run_status option"
  bw_audit :: "audit_event list"

text \<open>What one backup run gets from outside; \<open>en_objects\<close> is the directory the object backup was written to.\<close>

record backup_env =
  en_run_id :: string
  en_dirs_ok :: bool
  en_dump :: "bytes option"
  en_objects :: "backup_error + (string, bytes) hashmap"
  en_bundle :: bundle_call
  en_offsite_root_ok :: bool
  en_remove :: "string \<Rightarrow> fs_node option"
  en_remove_offsite :: "string \<Rightarrow> fs_node option"
  en_started_at :: string
  en_completed_at :: string
  en_duration_ms :: nat
  en_audit_db :: bool
  en_status_ok :: bool

record backup_run_report =
  rr_run_id :: string
  rr_file_count :: nat
  rr_total_size_bytes :: nat
  rr_duration_ms :: nat
  rr_replicated :: bool
  rr_local_retained :: nat
  rr_offsite_retained :: nat

text \<open>The functions the code gets from its libraries, and the texts of the errors.\<close>

record backup_lib =
  bl_crypto :: crypto
  bl_encode :: "backup_bundle_manifest \<Rightarrow> bytes"
  bl_decode :: "bytes \<Rightarrow> backup_bundle_manifest option"
  bl_decode_objects :: "bytes \<Rightarrow> object_store_backup_manifest option"
  bl_parse_time :: "string \<Rightarrow> int option"
  bl_message :: "runtime_error \<Rightarrow> string"

abbreviation lib_verify :: "backup_lib \<Rightarrow> bundle_dir \<Rightarrow> string option \<Rightarrow> bundle_error + bundle_verification" where
  "lib_verify lib \<equiv> verify_backup_bundle (bl_crypto lib) (bl_decode lib)"

abbreviation lib_verify_objects :: "backup_lib \<Rightarrow> (string, bytes) hashmap \<Rightarrow> backup_error + object_store_backup_report" where
  "lib_verify_objects lib files \<equiv> verify_object_store_backup (cy_sha256 (bl_crypto lib)) (bl_decode_objects lib) (object_backup_of files)"

abbreviation lib_cleanup :: "backup_lib \<Rightarrow> (string \<Rightarrow> fs_node option) \<Rightarrow> (string \<times> fs_node) list option \<Rightarrow> nat \<Rightarrow>
    (bundle_error + backup_bundle_cleanup_report) \<times> (string \<times> fs_node) list option" where
  "lib_cleanup lib \<equiv> cleanup_backup_bundles (bl_decode lib) (bl_parse_time lib)"

subsection \<open>Backup\<close>

text \<open>\<open>String::truncate\<close> panics inside a character: the result is then \<open>None\<close>.\<close>

definition truncate_error :: "string \<Rightarrow> string option" where
  "truncate_error error =
     (let summary = map (\<lambda>c. if c = CHR 0x0D \<or> c = CHR 0x0A then CHR '' '' else c) error in
      if 500 < length summary
      then (if 128 \<le> byte (summary ! 500) \<and> byte (summary ! 500) < 192 then None else Some (take 500 summary @ ''...''))
      else Some summary)"

text \<open>Retention in one of the two roots, with the number of bundles kept.\<close>

definition retain :: "backup_lib \<Rightarrow> (string \<Rightarrow> fs_node option) \<Rightarrow> nat \<Rightarrow> (string \<times> fs_node) list \<Rightarrow>
    (runtime_error + nat) \<times> (string \<times> fs_node) list" where
  "retain lib remove keep entries =
     (case lib_cleanup lib remove (Some entries) keep of
        (r, left) \<Rightarrow> (map_sum BundleFailed bcr_kept_count r, case left of Some es \<Rightarrow> es | None \<Rightarrow> entries))"

text \<open>The bundle is copied off site, and the bundles there are cleaned up.\<close>

definition replicate_offsite :: "backup_lib \<Rightarrow> nat \<Rightarrow> backup_env \<Rightarrow> bundle_dir \<Rightarrow> backup_world \<Rightarrow>
    (runtime_error + nat) \<times> backup_world" where
  "replicate_offsite lib keep en dir w =
     (if \<not> en_offsite_root_ok en then (Inl OffsiteRootFailed, w)
      else case replicate_backup_bundle (bl_crypto lib) (bl_decode lib) dir (map_of (bw_offsite w) (en_run_id en) \<noteq> None) of
        Inl e \<Rightarrow> (Inl (BundleFailed e), w)
      | Inr (_, replica) \<Rightarrow>
          apsnd (\<lambda>es. w\<lparr>bw_offsite := es\<rparr>)
            (retain lib (en_remove_offsite en) keep (AList.update (en_run_id en) (DirN (dir_tree replica)) (bw_offsite w))))"

definition run_backup_steps :: "backup_lib \<Rightarrow> runtime_config \<Rightarrow> backup_env \<Rightarrow> backup_world \<Rightarrow>
    (runtime_error + backup_run_report) \<times> backup_world" where
  "run_backup_steps lib cfg en w =
     (case rk_backup_dir cfg of None \<Rightarrow> (Inl BackupDirMissing, w) | Some backup_dir \<Rightarrow>
      if rk_backup_offsite_dir cfg = Some backup_dir then (Inl OffsiteSameAsLocal, w)
      else case en_dump en of None \<Rightarrow> (Inl PgDumpFailed, w) | Some dump \<Rightarrow>
      case en_objects en of Inl e \<Rightarrow> (Inl (ObjectBackupFailed e), w) | Inr objects \<Rightarrow>
      case create_backup_bundle (bl_crypto lib) (bl_encode lib) (en_bundle en) (Some dump) (lib_verify_objects lib objects)
             (dir_tree objects) (out_state (bw_bundles w) (en_run_id en)) False (rk_backup_password cfg) of
        Inl e \<Rightarrow> (Inl (BundleFailed e), w)
      | Inr (bundle, written) \<Rightarrow>
          let w = w\<lparr>bw_bundles := AList.update (en_run_id en) (DirN (dir_tree written)) (bw_bundles w)\<rparr>;
              dir = bundle_named (bw_bundles w) (en_run_id en) in
          case lib_verify lib dir (rk_backup_password cfg) of Inl e \<Rightarrow> (Inl (BundleFailed e), w) | Inr verification \<Rightarrow>
          if \<not> bv_plaintext_verified verification then (Inl PlaintextNotVerified, w)
          else case (if rk_backup_offsite_dir cfg = None then (Inr 0, w) else replicate_offsite lib (rk_backup_keep cfg) en dir w) of
            (Inl e, w) \<Rightarrow> (Inl e, w)
          | (Inr offsite_retained, w) \<Rightarrow>
              (case retain lib (en_remove en) (rk_backup_keep cfg) (bw_bundles w) of
                 (Inl e, es) \<Rightarrow> (Inl e, w\<lparr>bw_bundles := es\<rparr>)
               | (Inr local_retained, es) \<Rightarrow>
                   (Inr \<lparr>rr_run_id = en_run_id en, rr_file_count = br_file_count bundle,
                      rr_total_size_bytes = br_total_size_bytes bundle, rr_duration_ms = 0,
                      rr_replicated = (rk_backup_offsite_dir cfg \<noteq> None), rr_local_retained = local_retained,
                      rr_offsite_retained = offsite_retained\<rparr>,
                    w\<lparr>bw_bundles := es\<rparr>)))"

definition backup_status_of :: "backup_lib \<Rightarrow> backup_env \<Rightarrow> runtime_error + backup_run_report \<Rightarrow> backup_run_status option" where
  "backup_status_of lib en result =
     (case result of
        Inr report \<Rightarrow> Some
          \<lparr>bs_outcome = RunSuccess, bs_started_at = en_started_at en, bs_completed_at = en_completed_at en,
           bs_duration_ms = en_duration_ms en, bs_file_count = rr_file_count report,
           bs_total_size_bytes = rr_total_size_bytes report, bs_replicated = rr_replicated report,
           bs_local_retained = rr_local_retained report, bs_offsite_retained = rr_offsite_retained report,
           bs_error_summary = None\<rparr>
      | Inl e \<Rightarrow> map_option (\<lambda>summary.
          \<lparr>bs_outcome = RunFailed, bs_started_at = en_started_at en, bs_completed_at = en_completed_at en,
           bs_duration_ms = en_duration_ms en, bs_file_count = 0, bs_total_size_bytes = 0, bs_replicated = False,
           bs_local_retained = 0, bs_offsite_retained = 0, bs_error_summary = Some summary\<rparr>)
          (truncate_error (bl_message lib e)))"

definition record_runtime_audit :: "bool \<Rightarrow> string \<Rightarrow> bool \<Rightarrow> string option \<Rightarrow> backup_world \<Rightarrow> backup_world" where
  "record_runtime_audit db action success target_id w =
     (if \<not> db then w
      else let event = system_event action (if success then Success else Failure) in
        w\<lparr>bw_audit := bw_audit w @ [case target_id of None \<Rightarrow> event | Some t \<Rightarrow> with_target ''run'' t event]\<rparr>)"

text \<open>\<open>None\<close>: the run panics before it has a status to write.\<close>

definition run_backup :: "backup_lib \<Rightarrow> runtime_config \<Rightarrow> backup_env \<Rightarrow> backup_world \<Rightarrow>
    ((runtime_error + backup_run_report) \<times> backup_world) option" where
  "run_backup lib cfg en w =
     (if rk_backup_dir cfg = None then Some (Inl BackupDirMissing, w)
      else if \<not> en_dirs_ok en then Some (Inl WorkDirFailed, w)
      else case run_backup_steps lib cfg en w of (steps, w) \<Rightarrow>
        let result = map_sum (\<lambda>e. e) (rr_duration_ms_update (\<lambda>_. en_duration_ms en)) steps in
        map_option (\<lambda>status.
          let w = record_runtime_audit (en_audit_db en) ''backup.run'' (\<not> isl result) (Some (en_run_id en)) w in
          if en_status_ok en then (result, w\<lparr>bw_status := Some status\<rparr>)
          else (case result of Inr _ \<Rightarrow> Inl StatusWriteFailed | Inl e \<Rightarrow> Inl e, w))
        (backup_status_of lib en result))"

subsection \<open>Restoration\<close>

text \<open>The bundle to restore lies in one of the two roots or anywhere else.\<close>

datatype bundle_ref = InBundles string | InOffsite string | Elsewhere bundle_dir

definition bundle_at_ref :: "backup_world \<Rightarrow> bundle_ref \<Rightarrow> bundle_dir" where
  "bundle_at_ref w ref =
     (case ref of InBundles name \<Rightarrow> bundle_named (bw_bundles w) name | InOffsite name \<Rightarrow> bundle_named (bw_offsite w) name
      | Elsewhere dir \<Rightarrow> dir)"

definition plaintext_verified :: "backup_lib \<Rightarrow> bundle_dir \<Rightarrow> string option \<Rightarrow> bool" where
  "plaintext_verified lib dir password =
     (case lib_verify lib dir password of Inr verification \<Rightarrow> bv_plaintext_verified verification | Inl _ \<Rightarrow> False)"

definition password_candidates :: "runtime_config \<Rightarrow> string option \<Rightarrow> string list" where
  "password_candidates cfg override_password =
     foldl (\<lambda>candidates candidate. if candidate \<in> set candidates then candidates else candidates @ [candidate]) []
       (List.map_filter (\<lambda>c. c) [override_password, rk_backup_password cfg, rk_backup_password_previous cfg])"

definition resolve_backup_password :: "backup_lib \<Rightarrow> runtime_config \<Rightarrow> bundle_dir \<Rightarrow> string option \<Rightarrow> runtime_error + string option" where
  "resolve_backup_password lib cfg dir override_password =
     (if plaintext_verified lib dir None then Inr None
      else case find (\<lambda>candidate. plaintext_verified lib dir (Some candidate)) (password_candidates cfg override_password) of
        Some candidate \<Rightarrow> Inr (Some candidate)
      | None \<Rightarrow> Inl PasswordNotFound)"

text \<open>What the restored database shows: the rows of \<open>attachments\<close> are keys, hashes and sizes.\<close>

record restored_db =
  rd_latest_index_count :: int
  rd_book_count :: int
  rd_transaction_count :: int
  rd_attachments :: "(string \<times> string option \<times> int option) list"

definition object_metadata_in :: "(bytes \<Rightarrow> string) \<Rightarrow> target \<Rightarrow> string \<Rightarrow> stored_object_metadata option" where
  "object_metadata_in sha256 objects object_key =
     (case validated_key object_key of None \<Rightarrow> None | Some key \<Rightarrow>
      (case objects of
         TargetDir files \<Rightarrow> map_option (metadata_for_path sha256 object_key) (hm_get files key)
       | _ \<Rightarrow> None))"

fun check_attachments :: "(string \<Rightarrow> stored_object_metadata option) \<Rightarrow> (string \<times> string option \<times> int option) list \<Rightarrow> runtime_error option" where
  "check_attachments metadata [] = None"
| "check_attachments metadata ((object_key, expected_hash, expected_size) # rest) =
     (case metadata object_key of None \<Rightarrow> Some AttachmentMissing | Some actual \<Rightarrow>
      if (case expected_size of Some expected \<Rightarrow> as_i64 (int (som_size_bytes actual)) \<noteq> expected | None \<Rightarrow> False) then Some AttachmentSizeMismatch
      else if (case expected_hash of Some hash \<Rightarrow> som_sha256 actual \<noteq> hash | None \<Rightarrow> False) then Some AttachmentHashMismatch
      else check_attachments metadata rest)"

definition verify_restored_state :: "(string \<Rightarrow> stored_object_metadata option) \<Rightarrow> restored_db \<Rightarrow> runtime_error + (nat \<times> int \<times> int)" where
  "verify_restored_state metadata db =
     (if rd_latest_index_count db \<noteq> 1 then Inl SchemaOutdated
      else case check_attachments metadata (rd_attachments db) of
        Some e \<Rightarrow> Inl e
      | None \<Rightarrow> Inr (length (rd_attachments db), rd_book_count db, rd_transaction_count db))"

text \<open>The data a server runs on: its objects and the dump its database was last restored from.\<close>

record server_data =
  sd_objects :: target
  sd_database :: "bytes option"

text \<open>
  \<open>re_left\<close> is what a \<open>pg_restore --clean\<close> that fails has left of the database. \<open>re_database\<close> is what the migrated
  database shows after a restore of the dump, if it can be reached.
\<close>

record restore_env =
  re_safety :: backup_env
  re_work_dir_ok :: bool
  re_io :: restore_io
  re_pg_restore_ok :: bool
  re_left :: "bytes option \<Rightarrow> bytes option"
  re_database :: "bytes \<Rightarrow> restored_db option"
  re_started_at :: string
  re_completed_at :: string
  re_duration_ms :: nat
  re_audit_db :: bool
  re_status_ok :: bool

record restore_run_report =
  rq_safety_backup_run_id :: string
  rq_file_count :: nat
  rq_object_count :: nat
  rq_book_count :: int
  rq_transaction_count :: int
  rq_duration_ms :: nat

definition restore_steps :: "backup_lib \<Rightarrow> restore_env \<Rightarrow> (string, bytes) hashmap \<Rightarrow> nat \<Rightarrow> string \<Rightarrow> server_data \<Rightarrow>
    (runtime_error + restore_run_report) \<times> server_data" where
  "restore_steps lib re files file_count safety_id data =
     (let sha256 = cy_sha256 (bl_crypto lib); objects = below ''object-store/'' files in
      case lib_verify_objects lib objects of Inl e \<Rightarrow> (Inl (ObjectsInvalid e), data) | Inr object_verification \<Rightarrow>
      case restore_object_store sha256 (bl_decode_objects lib) True (re_io re) (object_backup_of objects) (sd_objects data) of
        (Inl e, target) \<Rightarrow> (Inl (ObjectRestoreFailed e), data\<lparr>sd_objects := target\<rparr>)
      | (Inr _, target) \<Rightarrow>
          let data = data\<lparr>sd_objects := target\<rparr> in
          (case hm_get files DATABASE_LOGICAL_PATH of None \<Rightarrow> (Inl PgRestoreFailed, data) | Some dump \<Rightarrow>
           if \<not> re_pg_restore_ok re then (Inl PgRestoreFailed, data\<lparr>sd_database := re_left re (sd_database data)\<rparr>)
           else let data = data\<lparr>sd_database := Some dump\<rparr> in
             case re_database re dump of None \<Rightarrow> (Inl RestoredDatabaseUnavailable, data) | Some db \<Rightarrow>
             case verify_restored_state (object_metadata_in sha256 target) db of Inl e \<Rightarrow> (Inl e, data)
             | Inr (object_count, book_count, transaction_count) \<Rightarrow>
                 if object_count \<noteq> rp_object_count object_verification then (Inl AttachmentCountChanged, data)
                 else (Inr \<lparr>rq_safety_backup_run_id = safety_id, rq_file_count = file_count, rq_object_count = object_count,
                         rq_book_count = book_count, rq_transaction_count = transaction_count, rq_duration_ms = 0\<rparr>, data)))"

definition restore_status_of :: "backup_lib \<Rightarrow> restore_env \<Rightarrow> string option \<Rightarrow> runtime_error + restore_run_report \<Rightarrow> restore_run_status option" where
  "restore_status_of lib re safety_id result =
     (case result of
        Inr report \<Rightarrow> Some
          \<lparr>rs_outcome = RunSuccess, rs_started_at = re_started_at re, rs_completed_at = re_completed_at re,
           rs_duration_ms = re_duration_ms re, rs_safety_backup_run_id = Some (rq_safety_backup_run_id report),
           rs_file_count = rq_file_count report, rs_object_count = rq_object_count report,
           rs_book_count = rq_book_count report, rs_transaction_count = rq_transaction_count report, rs_error_summary = None\<rparr>
      | Inl e \<Rightarrow> map_option (\<lambda>summary.
          \<lparr>rs_outcome = RunFailed, rs_started_at = re_started_at re, rs_completed_at = re_completed_at re,
           rs_duration_ms = re_duration_ms re, rs_safety_backup_run_id = safety_id, rs_file_count = 0, rs_object_count = 0,
           rs_book_count = 0, rs_transaction_count = 0, rs_error_summary = Some summary\<rparr>)
          (truncate_error (bl_message lib e)))"

text \<open>What follows the steps of a restore, failed or not.\<close>

definition finish_restore :: "backup_lib \<Rightarrow> restore_env \<Rightarrow> string option \<Rightarrow> (runtime_error + restore_run_report) \<Rightarrow> backup_world \<Rightarrow> server_data \<Rightarrow>
    ((runtime_error + restore_run_report) \<times> backup_world \<times> server_data) option" where
  "finish_restore lib re safety_id steps w data =
     (let result = map_sum (\<lambda>e. e) (rq_duration_ms_update (\<lambda>_. re_duration_ms re)) steps in
      map_option (\<lambda>status.
        let w = record_runtime_audit (re_audit_db re) ''backup.restore'' (\<not> isl result)
              (case result of Inr report \<Rightarrow> Some (rq_safety_backup_run_id report) | Inl _ \<Rightarrow> None) w in
        if re_status_ok re then (result, w\<lparr>bw_restore_status := Some status\<rparr>, data)
        else (case result of Inr _ \<Rightarrow> Inl StatusWriteFailed | Inl e \<Rightarrow> Inl e, w, data))
      (restore_status_of lib re safety_id result))"

definition restore_backup_bundle :: "backup_lib \<Rightarrow> runtime_config \<Rightarrow> restore_env \<Rightarrow> bundle_ref \<Rightarrow> string option \<Rightarrow> backup_world \<Rightarrow> server_data \<Rightarrow>
    ((runtime_error + restore_run_report) \<times> backup_world \<times> server_data) option" where
  "restore_backup_bundle lib cfg re ref override_password w data =
     (if rk_backup_dir cfg = None then Some (Inl BackupDirMissing, w, data)
      else case resolve_backup_password lib cfg (bundle_at_ref w ref) override_password of
        Inl e \<Rightarrow> Some (Inl e, w, data)
      | Inr password \<Rightarrow>
          (case lib_verify lib (bundle_at_ref w ref) password of
             Inl e \<Rightarrow> finish_restore lib re None (Inl (BundleFailed e)) w data
           | Inr verification \<Rightarrow>
               if \<not> bv_plaintext_verified verification then finish_restore lib re None (Inl BundlePasswordRequired) w data
               else (case run_backup lib cfg (re_safety re) w of
                 None \<Rightarrow> None
               | Some (Inl e, w) \<Rightarrow> finish_restore lib re None (Inl e) w data
               | Some (Inr safety, w) \<Rightarrow>
                   let id = rr_run_id safety in
                   if \<not> re_work_dir_ok re then finish_restore lib re (Some id) (Inl WorkDirFailed) w data
                   else case unpack_backup_bundle (bl_crypto lib) (bl_decode lib) (bundle_at_ref w ref) False password of
                     Inl e \<Rightarrow> finish_restore lib re (Some id) (Inl (BundleFailed e)) w data
                   | Inr (unpack, files) \<Rightarrow>
                       (case restore_steps lib re files (br_file_count unpack) id data of
                          (steps, data) \<Rightarrow> finish_restore lib re (Some id) steps w data))))"

end
