(* ===== verification/Backup_Trees.thy ===== *)
theory Backup_Trees
  imports Backup_Runtime Bundle_Laws "HOL-Library.Sublist"
begin

section \<open>Directories written and read again\<close>

text \<open>
  A map from paths to contents without conflicts is written as a tree that reads as the same map; the paths of a
  bundle and of an object backup have none.
\<close>

abbreviation parts :: "string \<Rightarrow> string list" where
  "parts \<equiv> split_on (CHR ''/'')"

lemma join_parts [simp]: "join_path (parts p) = p"
proof (induction p)
  case (Cons c p)
  then show ?case by (cases "parts p" rule: join_path.cases) auto
qed simp

lemma parts_inject [simp]: "parts p = parts q \<longleftrightarrow> p = q"
  by (metis join_parts)

lemma parts_no_slash: "n \<in> set (parts p) \<Longrightarrow> CHR ''/'' \<notin> set n"
  by (induction p arbitrary: n) (auto split: if_splits list.splits)

lemma name_ok_parts: "list_all name_ok (parts p) \<longleftrightarrow> [] \<notin> set (parts p)"
  using parts_no_slash by (auto simp: list_all_iff name_ok_def)

lemma tree_ok_iff:
  "tree_ok es \<longleftrightarrow> distinct (map fst es) \<and> (\<forall>(n, x) \<in> set es. name_ok n \<and> (\<forall>es'. x = DirN es' \<longrightarrow> tree_ok es'))"
  by (induction es rule: tree_ok.induct) auto

lemma tree_ok_update:
  assumes "tree_ok es" and "name_ok n" and "\<forall>es'. x = DirN es' \<longrightarrow> tree_ok es'"
  shows "tree_ok (AList.update n x es)"
proof -
  have "(m, y) = (n, x) \<or> (m, y) \<in> set es" if "(m, y) \<in> set (AList.update n x es)" for m y
    using that by (induction es) (auto split: if_splits)
  then show ?thesis
    using assms unfolding tree_ok_iff [of es] tree_ok_iff [of "AList.update n x es"]
    by (fastforce simp: distinct_update)
qed

lemma tree_put_ok: "tree_ok es \<Longrightarrow> list_all name_ok ns \<Longrightarrow> tree_ok (tree_put ns c es)"
proof (induction ns c es rule: tree_put.induct)
  case (3 n m ns c es)
  define sub where "sub = (case map_of es n of Some (DirN es') \<Rightarrow> es' | _ \<Rightarrow> [])"
  have "tree_ok sub"
    using 3(2) unfolding tree_ok_iff [of es] sub_def by (fastforce dest: map_of_SomeD split: option.split fs_node.split)
  then have "tree_ok (tree_put (m # ns) c sub)" using 3 by (simp add: sub_def)
  then show ?case using 3 by (auto simp: sub_def [symmetric] Let_def intro!: tree_ok_update)
qed (auto intro: tree_ok_update)

text \<open>A path and a file are apart when neither is above the other.\<close>

definition apart :: "string list \<Rightarrow> string list \<Rightarrow> bool" where
  "apart ms ns \<longleftrightarrow> \<not> strict_prefix ms ns \<and> \<not> strict_prefix ns ms"

lemma apart_Cons [simp]: "apart (n # ms) (n # ns) \<longleftrightarrow> apart ms ns"
  by (auto simp: apart_def)

lemma file_at_tree_put:
  assumes "ns \<noteq> []" and "\<forall>ms d. file_at es ms = Some d \<longrightarrow> apart ms ns"
  shows "file_at (tree_put ns c es) ms = (if ms = ns then Some c else file_at es ms)"
  using assms
proof (induction ns c es arbitrary: ms rule: tree_put.induct)
  case (2 n c es)
  show ?case
  proof (cases ms)
    case (Cons k ks)
    have "file_at es (n # ks) = None" if "ks \<noteq> []"
      using 2(2) [rule_format, of "n # ks"] that by (cases "file_at es (n # ks)") (auto simp: apart_def strict_prefix_def)
    then show ?thesis by (auto simp: Cons update_conv')
  qed simp
next
  case (3 n m ns c es)
  define sub where "sub = (case map_of es n of Some (DirN es') \<Rightarrow> es' | _ \<Rightarrow> [])"
  have sub: "file_at sub ks = Some d \<Longrightarrow> file_at es (n # ks) = Some d" for ks d
    by (cases ks) (auto simp: sub_def split: option.splits fs_node.splits)
  have "\<forall>ks d. file_at sub ks = Some d \<longrightarrow> apart ks (m # ns)"
  proof (intro allI impI)
    fix ks d assume "file_at sub ks = Some d"
    then have "apart (n # ks) (n # m # ns)" using sub 3(3) by blast
    then show "apart ks (m # ns)" by simp
  qed
  then have IH: "file_at (tree_put (m # ns) c sub) ks = (if ks = m # ns then Some c else file_at sub ks)" for ks
    using 3(1) [folded sub_def] by simp
  have no_file: "map_of es n \<noteq> Some (FileN d)" for d
    using 3(3) [rule_format, of "[n]" d] by (auto simp: apart_def strict_prefix_def)
  show ?case
  proof (cases ms)
    case (Cons k ks)
    show ?thesis
    proof (cases "k = n")
      case True
      have "file_at es (n # ks) = file_at sub ks" if "ks \<noteq> m # ns"
        using no_file by (auto simp: sub_def split: option.splits fs_node.splits; cases ks; simp)
      then show ?thesis using IH [of ks] by (auto simp: Cons True sub_def [symmetric] Let_def update_conv')
    qed (simp add: Cons sub_def [symmetric] Let_def update_conv')
  qed simp
qed simp

definition dir_ok :: "(string, bytes) hashmap \<Rightarrow> bool" where
  "dir_ok d \<longleftrightarrow> distinct (map fst d) \<and> conflict_free (fst ` set d) \<and> (\<forall>p \<in> fst ` set d. list_all name_ok (parts p))"

lemma join_path_append: "ns \<noteq> [] \<Longrightarrow> ms \<noteq> [] \<Longrightarrow> join_path (ns @ ms) = join_path ns @ CHR ''/'' # join_path ms"
proof (induction ns)
  case (Cons n ns)
  then show ?case by (cases ns) simp_all
qed simp

lemma conflict_free_apart:
  assumes "conflict_free ps" "p \<in> ps" "q \<in> ps"
  shows "apart (parts p) (parts q)"
proof -
  have "\<not> strict_prefix (parts p) (parts q)" if "p \<in> ps" "q \<in> ps" for p q
  proof
    assume "strict_prefix (parts p) (parts q)"
    then obtain ks where ks: "parts q = parts p @ ks" "ks \<noteq> []"
      unfolding strict_prefix_def prefix_def by (metis append_Nil2)
    then have "q = p @ CHR ''/'' # join_path ks" using join_path_append [of "parts p" ks] join_parts [of q] by simp
    then show False using assms(1) that by (auto simp: conflict_free_def starts_with_iff)
  qed
  then show ?thesis using assms by (auto simp: apart_def)
qed

lemma fold_tree_put:
  assumes "dir_ok d" and "tree_ok es" and "\<forall>ms e p. file_at es ms = Some e \<longrightarrow> p \<in> fst ` set d \<longrightarrow> apart ms (parts p) \<and> ms \<noteq> parts p"
  shows "tree_ok (fold (\<lambda>(p, c). tree_put (parts p) c) d es) \<and>
    file_at (fold (\<lambda>(p, c). tree_put (parts p) c) d es) ms =
      (if \<exists>p \<in> fst ` set d. ms = parts p then map_of d (join_path ms) else file_at es ms)"
  using assms
proof (induction d arbitrary: es)
  case (Cons x d)
  obtain p c where x: "x = (p, c)" by fastforce
  have ok: "dir_ok d" "p \<notin> fst ` set d" "list_all name_ok (parts p)"
    and cf: "conflict_free (insert p (fst ` set d))"
    using Cons.prems(1) by (auto simp: dir_ok_def x conflict_free_def)
  have at: "file_at (tree_put (parts p) c es) ks = (if ks = parts p then Some c else file_at es ks)" for ks
    using Cons.prems(3) by (intro file_at_tree_put) (auto simp: x)
  have "\<forall>ks e q. file_at (tree_put (parts p) c es) ks = Some e \<longrightarrow> q \<in> fst ` set d \<longrightarrow> apart ks (parts q) \<and> ks \<noteq> parts q"
    using Cons.prems(3) conflict_free_apart [OF cf] ok(2) unfolding at by (auto simp: x split: if_splits)
  note IH = Cons.IH [OF ok(1) tree_put_ok [OF Cons.prems(2) ok(3)] this]
  then show ?case using ok(2) by (auto simp: x at)
qed simp

lemma dir_tree_files:
  assumes "dir_ok d"
  shows "tree_ok (dir_tree d)" and "file_at (dir_tree d) ns = (if list_all name_ok ns \<and> ns \<noteq> [] then hm_get d (join_path ns) else None)"
proof -
  have f: "tree_ok (dir_tree d) \<and> file_at (dir_tree d) ms = (if \<exists>p \<in> fst ` set d. ms = parts p then map_of d (join_path ms) else file_at [] ms)" for ms
    unfolding dir_tree_def by (rule fold_tree_put [OF assms]) (auto elim: file_at.elims)
  then show "tree_ok (dir_tree d)" by blast
  have none: "file_at [] ns = None" by (cases ns) auto
  have key: "join_path ns \<in> fst ` set d \<longleftrightarrow> hm_get d (join_path ns) \<noteq> None"
    using map_of_eq_None_iff [of d "join_path ns"] by (auto simp: hm_get_def)
  show "file_at (dir_tree d) ns = (if list_all name_ok ns \<and> ns \<noteq> [] then hm_get d (join_path ns) else None)"
  proof (cases "\<exists>p \<in> fst ` set d. ns = parts p")
    case True
    then show ?thesis using f [of ns] assms by (auto simp: dir_ok_def hm_get_def)
  next
    case False
    then have "list_all name_ok ns \<and> ns \<noteq> [] \<longrightarrow> join_path ns \<notin> fst ` set d" using split_join_path by metis
    then show ?thesis using False f [of ns] none key by auto
  qed
qed

lemma bundle_files_of_at:
  assumes "tree_ok es"
  shows "hm_get (bundle_files_of es) p = file_at es (parts p)"
proof -
  let ?t = "tree_files es"
  note ok = tree_files_ok [OF assms] and iff = tree_files_iff [OF assms]
  have ne: "ns \<noteq> []" if "(ns, c) \<in> set ?t" for ns c using that iff file_at_hd by blast
  have keys: "map fst (bundle_files_of es) = map join_path (map fst ?t)" by (auto simp: bundle_files_of_def)
  have "inj_on join_path (fst ` set ?t)" using ok by (auto simp: inj_on_def join_path_inject)
  then have d: "distinct (map fst (bundle_files_of es))"
    unfolding keys using tree_files_distinct [OF assms] by (metis distinct_map list.set_map)
  have "hm_get (bundle_files_of es) p = Some c \<longleftrightarrow> file_at es (parts p) = Some c" for c
  proof -
    have "hm_get (bundle_files_of es) p = Some c \<longleftrightarrow> (\<exists>ns. (ns, c) \<in> set ?t \<and> p = join_path ns)"
      using d by (auto simp: hm_get_def map_of_eq_Some_iff bundle_files_of_def)
    also have "\<dots> \<longleftrightarrow> (parts p, c) \<in> set ?t"
      using split_join_path [OF ok ne] by (metis join_parts)
    finally show ?thesis by (simp add: iff)
  qed
  then show ?thesis by (metis not_Some_eq)
qed

text \<open>What is written is what is read.\<close>

lemma read_dir_tree:
  assumes "dir_ok d"
  shows "hm_get (bundle_files_of (dir_tree d)) p = hm_get d p"
proof (cases "list_all name_ok (parts p)")
  case True
  then show ?thesis using dir_tree_files [OF assms] by (simp add: bundle_files_of_at)
next
  case False
  then have "p \<notin> fst ` set d" using assms by (auto simp: dir_ok_def)
  then have "hm_get d p = None" by (simp add: hm_get_def map_of_eq_None_iff)
  then show ?thesis using False dir_tree_files [OF assms] by (simp add: bundle_files_of_at)
qed

lemma below_Cons: "below pre ((p, c) # d) = (case strip_prefix pre p of None \<Rightarrow> [] | Some t \<Rightarrow> [(t, c)]) @ below pre d"
  by (simp add: below_def map_filter_simps split: option.split)

lemma hm_get_below [simp]: "hm_get (below pre d) q = hm_get d (pre @ q)"
proof (induction d)
  case (Cons x d)
  obtain p c where x: "x = (p, c)" by fastforce
  show ?case
  proof (cases "strip_prefix pre p")
    case None
    then have "below pre (x # d) = below pre d" by (simp only: x below_Cons option.case append_Nil)
    moreover have "pre @ q \<noteq> p" using None by auto
    ultimately show ?thesis using Cons by (simp add: x hm_get_def)
  next
    case (Some t)
    then have "below pre (x # d) = (t, c) # below pre d" by (simp only: x below_Cons option.case append_Cons append_Nil)
    moreover have "p = pre @ t" using Some by simp
    ultimately show ?thesis using Cons by (simp add: x hm_get_def)
  qed
qed (simp add: below_def map_filter_simps)

subsection \<open>The directories of this program\<close>

lemma parts_append: "parts (p @ CHR ''/'' # q) = parts p @ parts q"
  by (rule split_on_Cons_append)

lemma write_payloads_dir_ok:
  assumes "write_payloads cy key nonces 0 inputs = Inr payloads"
  shows "dir_ok (hm_insert BUNDLE_MANIFEST_FILE raw (map (\<lambda>(f, stored). (bf_payload_path f, stored)) payloads))"
proof -
  let ?m = "map (\<lambda>(f, stored). (bf_payload_path f, stored)) payloads"
  have names: "map fst (map (\<lambda>(f, stored). (bf_payload_path f, stored)) payloads) = map payload_name [n..<n + length inputs]" if "write_payloads cy key nonces n inputs = Inr payloads" for n payloads
    using that
  proof (induction inputs arbitrary: n payloads)
    case (Cons x inputs)
    obtain path contents where x: "x = (path, contents)" by fastforce
    obtain lp f s rest where w: "write_bundle_payload cy key (nonces n) lp (payload_name n) contents = Inr (f, s)"
      and r: "write_payloads cy key nonces (Suc n) inputs = Inr rest" and p: "payloads = (f, s) # rest"
      using Cons.prems by (auto simp: x split: option.splits sum.splits elim!: map_sum_InrE)
    have "bf_payload_path f = payload_name n"
      using w by (auto simp: write_bundle_payload_def Let_def split: option.splits elim!: map_sum_InrE)
    then show ?case using Cons.IH [OF r] by (simp add: p upt_conv_Cons del: upt_Suc)
  qed simp
  have keys: "fst ` set (hm_insert BUNDLE_MANIFEST_FILE raw ?m) \<subseteq> insert BUNDLE_MANIFEST_FILE (range payload_name)"
  proof -
    have "fst ` set ?m = set (map fst ?m)" by (rule list.set_map [symmetric])
    also have "\<dots> \<subseteq> range payload_name" unfolding names [OF assms] by auto
    finally show ?thesis by auto
  qed
  have d: "distinct (map fst ?m)" unfolding names [OF assms] by (simp add: distinct_map inj_on_def)
  have no: "CHR ''/'' \<notin> set (pad8 i)" for i
    using pad8_digits [of i] by (auto simp: list_all_iff is_ascii_digit_def byte_def)
  have p: "parts (payload_name i) = [''payload'', pad8 i @ ''.bin'']" for i
    using no [of i] by (simp add: payload_name_def split_on_single)
  have m: "parts BUNDLE_MANIFEST_FILE = [''manifest.json'']" by (simp add: BUNDLE_MANIFEST_FILE_def)
  have apart: "\<not> starts_with (a @ ''/'') b" if "a \<in> insert BUNDLE_MANIFEST_FILE (range payload_name)" "b \<in> insert BUNDLE_MANIFEST_FILE (range payload_name)" for a b
  proof
    assume "starts_with (a @ ''/'') b"
    then obtain t where "b = a @ CHR ''/'' # t" by (auto simp: starts_with_iff)
    then have "parts b = parts a @ parts t" by (simp add: parts_append)
    moreover obtain u us where "parts t = u # us" by (cases "parts t") auto
    ultimately show False using that p m by (auto simp: append_eq_Cons_conv Cons_eq_append_conv)
  qed
  show ?thesis
    unfolding dir_ok_def conflict_free_def
  proof (intro conjI ballI)
    show "distinct (map fst (hm_insert BUNDLE_MANIFEST_FILE raw ?m))" using d by (rule distinct_hm_insert)
    show "\<not> starts_with (a @ ''/'') b" if "a \<in> fst ` set (hm_insert BUNDLE_MANIFEST_FILE raw ?m)" "b \<in> fst ` set (hm_insert BUNDLE_MANIFEST_FILE raw ?m)" for a b
      by (rule apart [OF subsetD [OF keys that(1)] subsetD [OF keys that(2)]])
    fix a assume "a \<in> fst ` set (hm_insert BUNDLE_MANIFEST_FILE raw ?m)"
    then have "a = BUNDLE_MANIFEST_FILE \<or> a \<in> range payload_name" using keys by blast
    then show "list_all name_ok (parts a)" using p m no by (auto simp: name_ok_def)
  qed
qed

text \<open>The files of an object backup: the manifest, and the objects by their keys.\<close>

lemma copy_objects_distinct:
  "copy_objects sha256 files objects n dest = (r, dest') \<Longrightarrow> distinct (map fst dest) \<Longrightarrow> distinct (map fst dest')"
  by (induction sha256 files objects n dest rule: copy_objects.induct)
    (auto simp: Let_def metadata_in_def distinct_hm_insert split: if_splits option.splits)

lemma valid_key_parts: "validated_key k = Some k \<Longrightarrow> list_all name_ok (parts k)"
  unfolding name_ok_parts validated_key_Some by (auto simp: list_ex_iff bad_segment_def)

lemma object_backup_dir_ok:
  assumes "backup_object_store sha256 encode True out False created source = (Inr rep, dir)" and "tree_ok source"
  shows "dir_ok (object_backup_files dir)"
proof -
  obtain fs m where fs: "list_all (\<lambda>(k, _). validated_key k = Some k) fs"
    "\<forall>ns. list_all name_ok ns \<longrightarrow> map_of fs (join_path ns) = file_at source ns"
    and dir: "bd_manifest dir = Some (encode m)" "\<forall>k. hm_get (bd_objects dir) k = map_of fs k"
    by (rule backup_Inr [OF assms])
  have d: "distinct (map fst (bd_objects dir))"
    using assms(1) copy_objects_distinct by (fastforce simp: backup_object_store_def Let_def split: sum.splits if_splits prod.splits)
  have key: "validated_key k = Some k \<and> file_at source (parts k) \<noteq> None" if "k \<in> fst ` set (bd_objects dir)" for k
  proof -
    have "map_of fs k \<noteq> None" using that dir(2) by (metis hm_get_def map_of_eq_None_iff)
    then have "validated_key k = Some k" using fs(1) by (auto simp: list_all_iff dest!: map_of_SomeD)
    moreover from this have "map_of fs (join_path (parts k)) = file_at source (parts k)" using fs(2) valid_key_parts by blast
    ultimately show ?thesis using \<open>map_of fs k \<noteq> None\<close> by simp
  qed
  have files: "map fst (object_backup_files dir) = ''manifest.json'' # map ((@) ''objects/'') (map fst (bd_objects dir))"
    using dir(1) by (auto simp: object_backup_files_def)
  then have keys: "fst ` set (object_backup_files dir) = insert ''manifest.json'' ((@) ''objects/'' ` fst ` set (bd_objects dir))"
    by (metis list.set_map list.simps(15))
  have obj: "parts (''objects/'' @ k) = ''objects'' # parts k" for k using parts_append [of "''objects''" k] by simp
  have no: "\<not> starts_with (k @ ''/'') q" if "k \<in> fst ` set (bd_objects dir)" "q \<in> fst ` set (bd_objects dir)" for k q
  proof
    assume "starts_with (k @ ''/'') q"
    then obtain t where "q = k @ CHR ''/'' # t" by (auto simp: starts_with_iff)
    then have q: "parts q = parts k @ parts t" by (simp add: parts_append)
    obtain u us where "parts t = u # us" by (cases "parts t") auto
    then show False using key [OF that(1)] key [OF that(2)] file_at_no_prefix [of source "parts k"] by (auto simp: q)
  qed
  show ?thesis
    unfolding dir_ok_def
  proof (intro conjI ballI)
    show "distinct (map fst (object_backup_files dir))" using d unfolding files by (auto simp: distinct_map inj_on_def)
    have "starts_with (''objects/'' @ k @ ''/'') (''objects/'' @ q) \<longleftrightarrow> starts_with (k @ ''/'') q" for k q
      by (simp add: starts_with_iff)
    then show "conflict_free (fst ` set (object_backup_files dir))"
      using no unfolding keys conflict_free_def by (auto simp: starts_with_iff)
    fix p assume "p \<in> fst ` set (object_backup_files dir)"
    then consider "p = ''manifest.json''" | k where "p = ''objects/'' @ k" "k \<in> fst ` set (bd_objects dir)" unfolding keys by blast
    then show "list_all name_ok (parts p)"
    proof cases
      case 1
      then show ?thesis by (simp add: name_ok_def)
    next
      case (2 k)
      then show ?thesis using key [OF 2(2)] valid_key_parts [of k] obj [of k] by (simp add: name_ok_def)
    qed
  qed
qed

text \<open>Verification and restoration look only at what is under each key.\<close>

lemma verify_objects_cong:
  "(\<And>k. hm_get files' k = hm_get files k) \<Longrightarrow> verify_objects sha256 files' objects seen n = verify_objects sha256 files objects seen n"
  by (induction objects arbitrary: seen n) (auto simp: metadata_in_def split: option.split sum.split)

lemma stage_objects_cong:
  "(\<And>k. hm_get files' k = hm_get files k) \<Longrightarrow> stage_objects sha256 files' objects seen n staging = stage_objects sha256 files objects seen n staging"
  by (induction objects arbitrary: seen n staging) (auto simp: metadata_in_def Let_def split: option.split sum.split)

lemma same_object_backup:
  assumes "bd_manifest dir' = bd_manifest dir" and "\<And>k. hm_get (bd_objects dir') k = hm_get (bd_objects dir) k"
  shows "verify_object_store_backup sha256 decode dir' = verify_object_store_backup sha256 decode dir"
    and "restore_object_store sha256 decode is_local io dir' target = restore_object_store sha256 decode is_local io dir target"
  by (simp_all add: assms(1) verify_objects_cong [OF assms(2)] stage_objects_cong [OF assms(2)]
    verify_object_store_backup_def restore_object_store_def read_object_store_manifest_def cong: sum.case_cong if_cong)

end
