(* ===== verification/Backup_Runtime_Laws.thy ===== *)
theory Backup_Runtime_Laws
  imports Backup_Trees
begin

section \<open>What backup and restore runs guarantee\<close>

text \<open>
  A backup run that succeeds can be restored to what was backed up; a restore changes data only behind a verified
  bundle and a successful safety backup, and reports success only for a state that matches the database; the
  password found is the first that opens the bundle. And what goes wrong: the safety backup can delete the bundle
  that is to be restored, and a failing replication leaves the local bundles without retention.
\<close>

subsection \<open>The steps of a backup\<close>

lemma map_of_filter_names: "map_of (filter (\<lambda>(m, _). P m) es) k = (if P k then map_of es k else None)"
  by (induction es) auto

lemma retain_Inr:
  assumes "retain lib remove keep entries = (Inr n, left)" and "map_of left name = Some node"
  shows "map_of entries name = Some node"
proof -
  obtain rep where c: "lib_cleanup lib remove (Some entries) keep = (Inr rep, Some left)"
    using assms(1) by (auto simp: retain_def cleanup_backup_bundles_def Let_def apfst_def apsnd_def map_prod_def
        split: prod.splits sum.splits if_splits elim!: map_sum_InrE)
  then obtain listed d n' where "list_bundles (bl_decode lib) (bl_parse_time lib) entries = Inr listed"
    and "delete_bundles remove (drop keep (latest_first listed)) 0 0 entries = (Inr (d, n'), left)"
    by (auto simp: cleanup_backup_bundles_def Let_def apfst_def apsnd_def map_prod_def
        split: prod.splits sum.splits if_splits elim!: map_sum_InrE)
  then have "left = filter (\<lambda>(m, _). m \<notin> (\<lambda>(_, n, _). n) ` set (drop keep (latest_first listed))) entries"
    using delete_bundles_Inr by blast
  then show ?thesis using assms(2) by (auto simp: map_of_filter_names split: if_splits)
qed

lemma retain_distinct:
  assumes "retain lib remove keep entries = (Inr n, left)" and "distinct (map fst entries)"
  shows "distinct (map fst left)"
proof -
  obtain bundles d n' where "delete_bundles remove bundles 0 0 entries = (Inr (d, n'), left)"
    using assms(1) by (auto simp: retain_def cleanup_backup_bundles_def Let_def apfst_def apsnd_def map_prod_def
        split: prod.splits sum.splits if_splits elim!: map_sum_InrE)
  then show ?thesis using delete_bundles_Inr assms(2) by (metis distinct_map_filter)
qed

lemma run_backup_steps_Inr:
  assumes "run_backup_steps lib cfg en w = (Inr rep, w')"
  obtains dump objects made written where "en_dump en = Some dump" "en_objects en = Inr objects"
    "create_backup_bundle (bl_crypto lib) (bl_encode lib) (en_bundle en) (Some dump) (lib_verify_objects lib objects)
       (dir_tree objects) (out_state (bw_bundles w) (en_run_id en)) False (rk_backup_password cfg) = Inr (made, written)"
    "\<And>node. map_of (bw_bundles w') (en_run_id en) = Some node \<Longrightarrow> node = DirN (dir_tree written)"
    "rr_run_id rep = en_run_id en" "rr_file_count rep = br_file_count made"
    "plaintext_verified lib (bundle_files_of (dir_tree written)) (rk_backup_password cfg)"
    "\<exists>n. retain lib (en_remove en) (rk_backup_keep cfg) (AList.update (en_run_id en) (DirN (dir_tree written)) (bw_bundles w)) = (Inr n, bw_bundles w')"
proof -
  obtain dump objects made written where s: "en_dump en = Some dump" "en_objects en = Inr objects"
    "create_backup_bundle (bl_crypto lib) (bl_encode lib) (en_bundle en) (Some dump) (lib_verify_objects lib objects)
       (dir_tree objects) (out_state (bw_bundles w) (en_run_id en)) False (rk_backup_password cfg) = Inr (made, written)"
    using assms by (auto simp: run_backup_steps_def split: option.splits if_splits sum.splits)
  define w1 where "w1 = w\<lparr>bw_bundles := AList.update (en_run_id en) (DirN (dir_tree written)) (bw_bundles w)\<rparr>"
  have dir: "bundle_named (bw_bundles w1) (en_run_id en) = bundle_files_of (dir_tree written)"
    by (simp add: bundle_named_def w1_def update_conv')
  obtain v w2 k n es where v: "lib_verify lib (bundle_files_of (dir_tree written)) (rk_backup_password cfg) = Inr v" "bv_plaintext_verified v"
    and off: "(if rk_backup_offsite_dir cfg = None then (Inr 0, w1)
       else replicate_offsite lib (rk_backup_keep cfg) en (bundle_files_of (dir_tree written)) w1) = (Inr k, w2)"
    and ret: "retain lib (en_remove en) (rk_backup_keep cfg) (bw_bundles w2) = (Inr n, es)"
    and w': "w' = w2\<lparr>bw_bundles := es\<rparr>" and rep: "rr_run_id rep = en_run_id en" "rr_file_count rep = br_file_count made"
    using assms s by (auto simp: run_backup_steps_def Let_def dir [unfolded w1_def, simplified] w1_def
        split: option.splits if_splits sum.splits prod.splits)
  have same: "bw_bundles w2 = bw_bundles w1"
    using off by (auto simp: replicate_offsite_def apsnd_def map_prod_def split: if_splits sum.splits prod.splits)
  have "node = DirN (dir_tree written)" if "map_of (bw_bundles w') (en_run_id en) = Some node" for node
    using retain_Inr [OF ret, of "en_run_id en" node] that by (simp add: w' same w1_def update_conv')
  then show thesis using that s rep v ret by (simp add: plaintext_verified_def w' same w1_def)
qed

subsection \<open>A backup can be restored\<close>

lemma created_bundle_dir_ok:
  assumes "create_backup_bundle cy encode c dump verified objects out ov password = Inr (rep, dir)"
  shows "dir_ok dir"
proof -
  obtain d where "fill_bundle cy encode c d objects password = Inr (rep, dir)"
    using assms by (auto simp: create_backup_bundle_def split: option.splits sum.splits if_splits)
  then obtain key inputs payloads manifest where "write_payloads cy key (bc_nonces c) 0 inputs = Inr payloads"
    and "dir = hm_insert BUNDLE_MANIFEST_FILE (encode manifest) (map (\<lambda>(f, stored). (bf_payload_path f, stored)) payloads)"
    by (rule fill_bundle_Inr)
  then show ?thesis using write_payloads_dir_ok by simp
qed

lemma same_files:
  assumes "\<And>p. hm_get dir' p = hm_get dir p"
  shows "verify_backup_bundle cy decode dir' pw = verify_backup_bundle cy decode dir pw"
    and "unpack_backup_bundle cy decode dir' ex pw = unpack_backup_bundle cy decode dir ex pw"
proof -
  have r: "read_manifest decode dir' = read_manifest decode dir" by (rule read_manifest_cong) (rule assms)
  show "verify_backup_bundle cy decode dir' pw = verify_backup_bundle cy decode dir pw"
    "unpack_backup_bundle cy decode dir' ex pw = unpack_backup_bundle cy decode dir ex pw"
    using r same_bundle [of decode dir _ dir'] assms
    by (cases "read_manifest decode dir"; auto simp: verify_backup_bundle_def unpack_backup_bundle_def Let_def same_payloads_def)+
qed

lemma object_backup_of_files:
  assumes "bd_manifest objects = Some raw"
  shows "bd_manifest (object_backup_of (object_backup_files objects)) = bd_manifest objects"
    and "hm_get (bd_objects (object_backup_of (object_backup_files objects))) k = hm_get (bd_objects objects) k"
proof -
  show "bd_manifest (object_backup_of (object_backup_files objects)) = bd_manifest objects"
    using assms by (simp add: object_backup_of_def object_backup_files_def hm_get_def)
  have strip: "hm_get (map (\<lambda>(k, c). (''objects/'' @ k, c)) m) (''objects/'' @ k) = hm_get m k" for m :: "(string, bytes) hashmap"
    by (induction m) (auto simp: hm_get_def)
  have "hm_get (bd_objects (object_backup_of (object_backup_files objects))) k = hm_get (object_backup_files objects) (''objects/'' @ k)"
    by (simp add: object_backup_of_def del: append.simps)
  also have "\<dots> = hm_get (map (\<lambda>(k, c). (''objects/'' @ k, c)) (bd_objects objects)) (''objects/'' @ k)"
    using assms by (simp add: object_backup_files_def hm_get_def)
  finally show "hm_get (bd_objects (object_backup_of (object_backup_files objects))) k = hm_get (bd_objects objects) k"
    unfolding strip .
qed

text \<open>
  C17. From a backup run back to the data: when a run succeeds on a local object store and its bundle has not been
  removed since, the bundle opens with the configured password down to the plaintext, unpacks to the very dump that
  was taken, and restoring the objects in it over any store gives exactly the files that were backed up, with the
  report of their backup.
\<close>
theorem backup_restores:
  assumes "backup_object_store (cy_sha256 (bl_crypto lib)) encode_objects True out False created source = (Inr objects_report, objects)"
    and "en_objects en = Inr (object_backup_files objects)" and "en_dump en = Some dump"
    and "run_backup_steps lib cfg en w = (Inr rep, w')" and "map_of (bw_bundles w') (en_run_id en) \<noteq> None"
    and "tree_ok source" and "crypto_laws (bl_crypto lib)" and "\<forall>i. length (bc_nonces (en_bundle en) i) = 8"
    and "\<forall>m. bl_decode lib (bl_encode lib m) = Some m" and "\<forall>m. bl_decode_objects lib (encode_objects m) = Some m"
    and "io_move_away io \<and> io_publish io \<and> io_remove_previous io" and "target \<noteq> TargetFile"
  shows "plaintext_verified lib (bundle_named (bw_bundles w') (rr_run_id rep)) (rk_backup_password cfg) \<and>
    (\<exists>unpack files restored.
       unpack_backup_bundle (bl_crypto lib) (bl_decode lib) (bundle_named (bw_bundles w') (rr_run_id rep)) False (rk_backup_password cfg)
         = Inr (unpack, files) \<and>
       hm_get files DATABASE_LOGICAL_PATH = Some dump \<and>
       restore_object_store (cy_sha256 (bl_crypto lib)) (bl_decode_objects lib) True io
         (object_backup_of (below ''object-store/'' files)) target = (Inr objects_report, TargetDir restored) \<and>
       (\<forall>ns. list_all name_ok ns \<longrightarrow> hm_get restored (join_path ns) = file_at source ns))"
proof -
  let ?sha = "cy_sha256 (bl_crypto lib)" and ?d = "object_backup_files objects"
  obtain made written where create: "create_backup_bundle (bl_crypto lib) (bl_encode lib) (en_bundle en) (Some dump) (lib_verify_objects lib ?d)
       (dir_tree ?d) (out_state (bw_bundles w) (en_run_id en)) False (rk_backup_password cfg) = Inr (made, written)"
    and node: "\<And>node. map_of (bw_bundles w') (en_run_id en) = Some node \<Longrightarrow> node = DirN (dir_tree written)"
    and id: "rr_run_id rep = en_run_id en"
    and v: "plaintext_verified lib (bundle_files_of (dir_tree written)) (rk_backup_password cfg)"
    using run_backup_steps_Inr [OF assms(4)] assms(2,3) by (metis option.inject sum.inject(2))
  have named: "bundle_named (bw_bundles w') (rr_run_id rep) = bundle_files_of (dir_tree written)"
    using assms(5) node by (auto simp: bundle_named_def id)
  have od: "dir_ok ?d" by (rule object_backup_dir_ok [OF assms(1,6)])
  have "dir_ok written" by (rule created_bundle_dir_ok [OF create])
  then have read: "hm_get (bundle_files_of (dir_tree written)) p = hm_get written p" for p by (rule read_dir_tree)
  obtain files where files: "unpack_backup_bundle (bl_crypto lib) (bl_decode lib) written False (rk_backup_password cfg) = Inr (made, files)"
      "hm_get files DATABASE_LOGICAL_PATH = Some dump"
    and at: "\<forall>ns. list_all name_ok ns \<longrightarrow> hm_get files (OBJECT_STORE_LOGICAL_PREFIX @ join_path ns) = file_at (dir_tree ?d) ns"
    and only: "\<forall>path. hm_get files path \<noteq> None \<longrightarrow> path = DATABASE_LOGICAL_PATH \<or>
         (\<exists>ns. list_all name_ok ns \<and> path = OBJECT_STORE_LOGICAL_PREFIX @ join_path ns)"
    using bundle_unpacks [OF create assms(7,9) dir_tree_files(1) [OF od] assms(8)] by blast
  have objs: "hm_get (below ''object-store/'' files) q = hm_get ?d q" for q
  proof -
    have p: "''object-store/'' @ q \<noteq> DATABASE_LOGICAL_PATH" by (simp add: DATABASE_LOGICAL_PATH_def)
    have pre: "OBJECT_STORE_LOGICAL_PREFIX = ''object-store/''" by (simp add: OBJECT_STORE_LOGICAL_PREFIX_def)
    have none: "hm_get ?d q = None" if "\<not> list_all name_ok (parts q)"
      using that od by (auto simp: dir_ok_def hm_get_def map_of_eq_None_iff)
    show ?thesis
    proof (cases "list_all name_ok (parts q)")
      case True
      then show ?thesis using at [rule_format, OF True] dir_tree_files(2) [OF od, of "parts q"] by (simp add: pre)
    next
      case False
      have "\<not> (\<exists>ns. list_all name_ok ns \<and> ns \<noteq> [] \<and> q = join_path ns)" using False split_join_path by metis
      then have "hm_get files (''object-store/'' @ q) = None \<or> q = []"
        using only p by (metis append_same_eq join_path.simps(1) pre same_append_eq)
      moreover have "hm_get files ''object-store/'' = file_at (dir_tree ?d) []" using at [rule_format, of "[]"] by (simp add: pre)
      ultimately show ?thesis using none [OF False] by auto
    qed
  qed
  obtain raw where raw: "bd_manifest objects = Some raw"
    using backup_Inr [OF assms(1,6)] by metis
  have same: "bd_manifest (object_backup_of (below ''object-store/'' files)) = bd_manifest objects"
    using objs [of "''manifest.json''"] raw by (simp add: object_backup_of_def object_backup_files_def hm_get_def)
  have same2: "hm_get (bd_objects (object_backup_of (below ''object-store/'' files))) k = hm_get (bd_objects objects) k" for k
    using object_backup_of_files(2) [OF raw, of k] objs [of "''objects/'' @ k"] by (simp add: object_backup_of_def del: append.simps)
  obtain restored where "restore_object_store ?sha (bl_decode_objects lib) True io objects target = (Inr objects_report, TargetDir restored)"
    "\<forall>ns. list_all name_ok ns \<longrightarrow> hm_get restored (join_path ns) = file_at source ns"
    using restored_backup [OF assms(1,6,10,12,11)] by blast
  then show ?thesis
    using v files same_files(2) [OF read] same_object_backup(2) [OF same same2] by (auto simp: named)
qed

subsection \<open>Restoring\<close>

lemma check_attachments_None:
  "check_attachments metadata atts = None \<Longrightarrow> (key, hash, expected) \<in> set atts \<Longrightarrow>
     \<exists>actual. metadata key = Some actual \<and> (\<forall>s. expected = Some s \<longrightarrow> as_i64 (int (som_size_bytes actual)) = s)
       \<and> (\<forall>h. hash = Some h \<longrightarrow> som_sha256 actual = h)"
  by (induction metadata atts rule: check_attachments.induct) (auto split: option.splits if_splits)

lemma object_metadata_in_Some:
  "object_metadata_in sha256 target key = Some md \<Longrightarrow>
     \<exists>objs k c. target = TargetDir objs \<and> validated_key key = Some k \<and> hm_get objs k = Some c \<and> som_size_bytes md = length c \<and> som_sha256 md = sha256 c"
  by (auto simp: object_metadata_in_def metadata_for_path_def split: option.splits target.splits)

lemma restore_object_store_target:
  "restore_object_store sha256 decode True io dir target = (Inr rep, target') \<Longrightarrow> \<exists>objs. target' = TargetDir objs"
  by (auto simp: restore_object_store_def publish_staging_def Let_def split: sum.splits if_splits prod.splits)

definition matches_database :: "(bytes \<Rightarrow> string) \<Rightarrow> (string, bytes) hashmap \<Rightarrow> restored_db \<Rightarrow> bool" where
  "matches_database sha256 objs db \<longleftrightarrow> rd_latest_index_count db = 1 \<and>
     (\<forall>(key, hash, expected) \<in> set (rd_attachments db). \<exists>k c. validated_key key = Some k \<and> hm_get objs k = Some c \<and>
        (\<forall>s. expected = Some s \<longrightarrow> as_i64 (int (length c)) = s) \<and> (\<forall>h. hash = Some h \<longrightarrow> sha256 c = h))"

lemma restore_steps_Inr:
  assumes "restore_steps lib re files n i data = (Inr rep, data')"
  shows "rq_safety_backup_run_id rep = i \<and> (\<exists>objs dump db. sd_objects data' = TargetDir objs \<and> sd_database data' = Some dump \<and>
    hm_get files DATABASE_LOGICAL_PATH = Some dump \<and> re_database re dump = Some db \<and> rq_object_count rep = length (rd_attachments db) \<and>
    matches_database (cy_sha256 (bl_crypto lib)) objs db)"
proof -
  let ?sha = "cy_sha256 (bl_crypto lib)"
  obtain r target dump db counts where
    t: "restore_object_store ?sha (bl_decode_objects lib) True (re_io re) (object_backup_of (below ''object-store/'' files)) (sd_objects data) = (Inr r, target)"
    and d: "hm_get files DATABASE_LOGICAL_PATH = Some dump" "re_database re dump = Some db"
    and v: "verify_restored_state (object_metadata_in ?sha target) db = Inr counts"
    and r: "rq_safety_backup_run_id rep = i" "rq_object_count rep = fst counts" "data' = data\<lparr>sd_objects := target, sd_database := Some dump\<rparr>"
    using assms by (auto simp: restore_steps_def Let_def split: sum.splits prod.splits option.splits if_splits)
  obtain objs where o: "target = TargetDir objs" using restore_object_store_target [OF t] by blast
  have c: "check_attachments (object_metadata_in ?sha target) (rd_attachments db) = None" "rd_latest_index_count db = 1"
      "fst counts = length (rd_attachments db)"
    using v by (auto simp: verify_restored_state_def split: option.splits if_splits)
  have "\<exists>k cont. validated_key key = Some k \<and> hm_get objs k = Some cont \<and> (\<forall>s. expected = Some s \<longrightarrow> as_i64 (int (length cont)) = s) \<and>
      (\<forall>h. hash = Some h \<longrightarrow> ?sha cont = h)" if "(key, hash, expected) \<in> set (rd_attachments db)" for key hash expected
    using check_attachments_None [OF c(1) that] object_metadata_in_Some [of ?sha target key] o by fastforce
  then have "matches_database ?sha objs db" using c(2) by (auto simp: matches_database_def)
  then show ?thesis using d r o c(3) by auto
qed

lemma finish_restore_Some:
  assumes "finish_restore lib re i steps w data = Some (r, w', data')"
  shows "data' = data \<and> bw_bundles w' = bw_bundles w \<and>
    (\<forall>rep. r = Inr rep \<longrightarrow> (\<exists>rep'. steps = Inr rep' \<and> rq_object_count rep = rq_object_count rep' \<and>
       rq_safety_backup_run_id rep = rq_safety_backup_run_id rep' \<and>
       (\<exists>status. bw_restore_status w' = Some status \<and> rs_outcome status = RunSuccess \<and>
          rs_safety_backup_run_id status = Some (rq_safety_backup_run_id rep))))
    \<and> (\<forall>e. steps = Inl e \<longrightarrow> r = Inl e)"
  using assms
  by (cases steps) (auto simp: finish_restore_def restore_status_of_def record_runtime_audit_def Let_def split: if_splits)

text \<open>
  C18. A restore is guarded: objects or database change only when the bundle opens down to the plaintext and a safety
  backup has succeeded in the same call. A restore that reports success has left an object store in which every
  attachment of the restored database is there with its size and hash, counts them, and says so in its status, with
  the safety backup to go back to.
\<close>
theorem restore_guarded:
  assumes "restore_backup_bundle lib cfg re ref override_password w data = Some (r, w', data')"
  shows "(data' \<noteq> data \<longrightarrow> (\<exists>safety w1 password. run_backup lib cfg (re_safety re) w = Some (Inr safety, w1) \<and>
       bw_bundles w' = bw_bundles w1 \<and> plaintext_verified lib (bundle_at_ref w ref) password))
    \<and> (\<forall>rep. r = Inr rep \<longrightarrow> (\<exists>objs dump db status. sd_objects data' = TargetDir objs \<and> sd_database data' = Some dump \<and>
       re_database re dump = Some db \<and> rq_object_count rep = length (rd_attachments db) \<and>
       matches_database (cy_sha256 (bl_crypto lib)) objs db \<and>
       bw_restore_status w' = Some status \<and> rs_outcome status = RunSuccess \<and>
       rs_safety_backup_run_id status = Some (rr_run_id (projr (fst (the (run_backup lib cfg (re_safety re) w)))))))"
proof -
  consider (early) e where "r = Inl e" "data' = data"
    | (failed) i e w1 where "finish_restore lib re i (Inl e) w1 data = Some (r, w', data')"
    | (steps) password v safety w1 n files steps data1 where
        "lib_verify lib (bundle_at_ref w ref) password = Inr v" "bv_plaintext_verified v"
        "run_backup lib cfg (re_safety re) w = Some (Inr safety, w1)"
        "restore_steps lib re files n (rr_run_id safety) data = (steps, data1)"
        "finish_restore lib re (Some (rr_run_id safety)) steps w1 data1 = Some (r, w', data')"
    using assms
    by (auto simp: restore_backup_bundle_def Let_def split: if_splits sum.splits option.splits prod.splits)
  then show ?thesis
  proof cases
    case early
    then show ?thesis by simp
  next
    case (failed i e w1)
    then show ?thesis using finish_restore_Some [OF failed] by simp
  next
    case (steps password v safety w1 n files st data1)
    note fin = finish_restore_Some [OF steps(5)]
    have pv: "plaintext_verified lib (bundle_at_ref w ref) password" using steps(1,2) by (simp add: plaintext_verified_def)
    have "\<exists>objs dump db status. sd_objects data' = TargetDir objs \<and> sd_database data' = Some dump \<and>
       re_database re dump = Some db \<and> rq_object_count rep = length (rd_attachments db) \<and>
       matches_database (cy_sha256 (bl_crypto lib)) objs db \<and>
       bw_restore_status w' = Some status \<and> rs_outcome status = RunSuccess \<and> rs_safety_backup_run_id status = Some (rr_run_id safety)"
      if "r = Inr rep" for rep
    proof -
      obtain rep' status where rep': "st = Inr rep'" "rq_object_count rep = rq_object_count rep'"
        "rq_safety_backup_run_id rep = rq_safety_backup_run_id rep'"
        "bw_restore_status w' = Some status" "rs_outcome status = RunSuccess" "rs_safety_backup_run_id status = Some (rq_safety_backup_run_id rep)"
        using fin \<open>r = Inr rep\<close> by blast
      show ?thesis using restore_steps_Inr [OF steps(4) [unfolded rep'(1)]] rep' fin by metis
    qed
    then show ?thesis using pv steps(3) fin by auto
  qed
qed

subsection \<open>Passwords\<close>

text \<open>
  The password of a bundle is found when it is known: none for a bundle that opens without, else the first of
  the given one, the configured one and the previous one that opens the bundle to the plaintext; there is an error
  exactly when none of them does.
\<close>
theorem resolve_backup_password_first:
  "(case resolve_backup_password lib cfg dir override_password of
      Inr None \<Rightarrow> plaintext_verified lib dir None
    | Inr (Some p) \<Rightarrow> \<not> plaintext_verified lib dir None \<and>
        (\<exists>before after. List.map_filter (\<lambda>c. c) [override_password, rk_backup_password cfg, rk_backup_password_previous cfg] = before @ p # after \<and>
           plaintext_verified lib dir (Some p) \<and> (\<forall>q \<in> set before. \<not> plaintext_verified lib dir (Some q)))
    | Inl e \<Rightarrow> e = PasswordNotFound \<and>
        (\<forall>c \<in> {None, override_password, rk_backup_password cfg, rk_backup_password_previous cfg}. \<not> plaintext_verified lib dir c))"
proof -
  let ?V = "\<lambda>c. plaintext_verified lib dir (Some c)"
  let ?add = "\<lambda>candidates candidate. if candidate \<in> set candidates then candidates else candidates @ [candidate]"
  have dedup: "find P (foldl ?add acc cs) = find P (acc @ cs)" for P :: "string \<Rightarrow> bool" and acc cs
  proof (induction cs arbitrary: acc)
    case (Cons c cs)
    have "find P (xs @ ys) = (case find P xs of None \<Rightarrow> find P ys | Some x \<Rightarrow> Some x)" for xs ys :: "string list"
      by (induction xs) auto
    moreover have "c \<in> set acc \<Longrightarrow> find P acc = None \<Longrightarrow> \<not> P c" by (auto simp: find_None_iff)
    ultimately show ?case using Cons by (auto split: option.split)
  qed simp
  let ?cs = "List.map_filter (\<lambda>c. c) [override_password, rk_backup_password cfg, rk_backup_password_previous cfg]"
  have found: "find ?V (password_candidates cfg override_password) = find ?V ?cs"
    using dedup [of ?V "[]"] by (simp add: password_candidates_def)
  have mem: "Some c \<in> {override_password, rk_backup_password cfg, rk_backup_password_previous cfg} \<longleftrightarrow> c \<in> set ?cs" for c
    by (auto simp: map_filter_simps split: option.splits)
  show ?thesis
  proof (cases "plaintext_verified lib dir None")
    case True
    then show ?thesis by (simp add: resolve_backup_password_def)
  next
    case False
    show ?thesis
    proof (cases "find ?V ?cs")
      case None
      then have none: "\<forall>c \<in> set ?cs. \<not> ?V c" by (auto simp: find_None_iff)
      have "\<not> plaintext_verified lib dir c" if "c \<in> {None, override_password, rk_backup_password cfg, rk_backup_password_previous cfg}" for c
      proof (cases c)
        case (Some a)
        then have "a \<in> set ?cs" using that mem [of a] by simp
        then show ?thesis using none Some by simp
      qed (use False in simp)
      then show ?thesis using None False by (simp add: resolve_backup_password_def found del: insert_iff)
    next
      case (Some p)
      then obtain i where i: "i < length ?cs" "?cs ! i = p" "?V p" "\<forall>j < i. \<not> ?V (?cs ! j)" by (auto simp: find_Some_iff)
      have "?cs = take i ?cs @ p # drop (Suc i) ?cs" using id_take_nth_drop [OF i(1)] i(2) by simp
      moreover have "\<forall>q \<in> set (take i ?cs). \<not> ?V q" using i(1,4) by (auto simp: in_set_conv_nth)
      ultimately show ?thesis using Some False i(3) by (auto simp: resolve_backup_password_def found)
    qed
  qed
qed

subsection \<open>The safety backup can delete what is restored\<close>

text \<open>A bundle with \<open>keep\<close> newer ones does not survive retention.\<close>

lemma retain_drops:
  assumes "retain lib remove keep entries = (Inr n, left)" and "distinct (map fst entries)"
    and "(t, name) \<in> set (bundle_keys (bl_decode lib) (bl_parse_time lib) entries)"
    and "keep \<le> card {name'. \<exists>t'. (t', name') \<in> set (bundle_keys (bl_decode lib) (bl_parse_time lib) entries) \<and> (t, name) < (t', name')}"
  shows "map_of left name = None"
proof (rule ccontr)
  let ?K = "bundle_keys (bl_decode lib) (bl_parse_time lib) entries"
  assume there: "map_of left name \<noteq> None"
  obtain listed d n' where listed: "list_bundles (bl_decode lib) (bl_parse_time lib) entries = Inr listed"
    and del: "delete_bundles remove (drop keep (latest_first listed)) 0 0 entries = (Inr (d, n'), left)"
    using assms(1) by (auto simp: retain_def cleanup_backup_bundles_def Let_def apfst_def apsnd_def map_prod_def
        split: prod.splits sum.splits if_splits elim!: map_sum_InrE)
  let ?bs = "latest_first listed" and ?k = "rev (sort ?K)"
  have keys: "map key_of ?bs = ?k" using latest_first_keys [of listed] list_bundles_keys [OF listed] by simp
  have kept: "name \<notin> (\<lambda>(_, n, _). n) ` set (drop keep ?bs)"
    using there delete_bundles_Inr [OF del] by (auto simp: map_of_filter_names split: if_splits)
  obtain i where i: "i < length ?k" "?k ! i = (t, name)" using assms(3) by (metis in_set_conv_nth set_rev set_sort)
  have "i < keep"
  proof (rule ccontr)
    assume "\<not> i < keep"
    then have "i - keep < length (drop keep ?bs)" and k: "key_of (drop keep ?bs ! (i - keep)) = ?k ! i"
      using i(1) by (auto simp flip: keys)
    then have "drop keep ?bs ! (i - keep) \<in> set (drop keep ?bs)" by (intro nth_mem)
    moreover obtain n where "drop keep ?bs ! (i - keep) = (t, name, n)"
      using k i(2) by (cases "drop keep ?bs ! (i - keep)") simp
    ultimately have "(t, name, n) \<in> set (drop keep ?bs)" by simp
    then show False using kept by force
  qed
  let ?S = "{name'. \<exists>t'. (t', name') \<in> set ?K \<and> (t, name) < (t', name')}"
  have "?S \<subseteq> snd ` set (take i ?k)"
  proof
    fix name' assume "name' \<in> ?S"
    then obtain t' where t': "(t', name') \<in> set ?k" "(t, name) < (t', name')" by auto
    then obtain j where j: "j < length ?k" "?k ! j = (t', name')" by (metis in_set_conv_nth)
    have "j < i"
    proof (rule ccontr)
      assume "\<not> j < i"
      then have "?k ! j \<le> ?k ! i" using sorted_rev_nth_mono [of ?k i j] j(1) by simp
      then show False using t'(2) j(2) i(2) by (metis leD)
    qed
    then have "take i ?k ! j = (t', name')" "j < length (take i ?k)" using j i(1) by simp_all
    then have "(t', name') \<in> set (take i ?k)" using nth_mem [of j "take i ?k"] by simp
    then show "name' \<in> snd ` set (take i ?k)" by (rule rev_image_eqI) simp
  qed
  then have "card ?S \<le> card (snd ` set (take i ?k))" by (intro card_mono) auto
  also have "\<dots> \<le> card (set (take i ?k))" by (rule card_image_le) simp
  also have "\<dots> \<le> length (take i ?k)" by (rule card_length)
  finally show False using assms(4) \<open>i < keep\<close> i(1) by simp
qed

lemma bundle_keys_append: "bundle_keys decode parse_time (xs @ ys) = bundle_keys decode parse_time xs @ bundle_keys decode parse_time ys"
  by (induction xs) auto

lemma map_sum_InlE: "map_sum f g x = Inl y \<Longrightarrow> (\<And>z. x = Inl z \<Longrightarrow> y = f z \<Longrightarrow> P) \<Longrightarrow> P"
  by (cases x) auto

lemma retain_Inl: "retain lib remove keep entries = (Inl e, left) \<Longrightarrow> \<exists>b. e = BundleFailed b"
  by (auto simp: retain_def split: prod.splits elim!: map_sum_InlE)

lemma replicate_offsite_bundles: "replicate_offsite lib keep en dir w = (x, w') \<Longrightarrow> bw_bundles w' = bw_bundles w"
  by (auto simp: replicate_offsite_def apsnd_def map_prod_def split: if_splits sum.splits prod.splits)

lemma offsite_root_failed:
  assumes "fst (run_backup_steps lib cfg en w) = Inl OffsiteRootFailed"
  shows "\<exists>node. bw_bundles (snd (run_backup_steps lib cfg en w)) = AList.update (en_run_id en) node (bw_bundles w)"
proof -
  obtain x w2 where run: "run_backup_steps lib cfg en w = (x, w2)" by fastforce
  have "\<exists>node. bw_bundles w2 = AList.update (en_run_id en) node (bw_bundles w)"
  proof -
    have "x = Inl OffsiteRootFailed" using assms by (simp add: run)
    with run show ?thesis
    by (auto simp: run_backup_steps_def Let_def split: option.splits if_splits sum.splits prod.splits
        dest!: retain_Inl replicate_offsite_bundles)
  qed
  then show ?thesis by (simp add: run)
qed

lemma update_fresh: "k \<notin> fst ` set es \<Longrightarrow> AList.update k v es = es @ [(k, v)]"
  by (induction es) auto

lemma run_backup_Inr:
  assumes "run_backup lib cfg en w = Some (Inr rep, w')"
  obtains rep' w1 where "run_backup_steps lib cfg en w = (Inr rep', w1)" "bw_bundles w' = bw_bundles w1" "rr_run_id rep = rr_run_id rep'"
    "rk_backup_dir cfg \<noteq> None"
  using assms by (auto simp: run_backup_def record_runtime_audit_def Let_def split: if_splits prod.splits sum.splits elim!: map_sum_InrE)

text \<open>
  Restoring one of the server's own bundles can destroy it: when the bundle is the oldest one that retention
  keeps, and the safety backup that goes first succeeds, that backup's clean-up removes the bundle, the restore fails
  because there is nothing left to unpack, and nothing is restored.
\<close>
theorem restore_own_bundle_lost:
  assumes "restore_backup_bundle lib cfg re (InBundles name) override_password w data = Some (r, w', data')"
    and "resolve_backup_password lib cfg (bundle_named (bw_bundles w) name) override_password = Inr password"
    and "run_backup lib cfg (re_safety re) w = Some (Inr safety, w1)" and "re_work_dir_ok re"
    and "distinct (map fst (bw_bundles w))" and "en_run_id (re_safety re) \<notin> fst ` set (bw_bundles w)"
    and "(t, name) \<in> set (bundle_keys (bl_decode lib) (bl_parse_time lib) (bw_bundles w))"
    and "rk_backup_keep cfg \<le> Suc (card {name'. \<exists>t'. (t', name') \<in> set (bundle_keys (bl_decode lib) (bl_parse_time lib) (bw_bundles w)) \<and> (t, name) < (t', name')})"
    and "\<exists>t1. (t1, rr_run_id safety) \<in> set (bundle_keys (bl_decode lib) (bl_parse_time lib) (bw_bundles w1)) \<and> t < t1"
  shows "r = Inl (BundleFailed BundleManifestMissing) \<and> data' = data \<and> map_of (bw_bundles w') name = None"
proof -
  let ?keys = "\<lambda>es. bundle_keys (bl_decode lib) (bl_parse_time lib) es" and ?id = "en_run_id (re_safety re)"
  obtain rep' w2 where steps: "run_backup_steps lib cfg (re_safety re) w = (Inr rep', w2)" and w1: "bw_bundles w1 = bw_bundles w2"
    and run_id: "rr_run_id safety = rr_run_id rep'" and dir: "rk_backup_dir cfg \<noteq> None"
    by (rule run_backup_Inr [OF assms(3)])
  obtain written n where node: "\<And>node. map_of (bw_bundles w2) ?id = Some node \<Longrightarrow> node = DirN (dir_tree written)"
    and i: "rr_run_id rep' = ?id"
    and ret: "retain lib (en_remove (re_safety re)) (rk_backup_keep cfg) (AList.update ?id (DirN (dir_tree written)) (bw_bundles w)) = (Inr n, bw_bundles w2)"
    using run_backup_steps_Inr [OF steps] by metis
  let ?es = "AList.update ?id (DirN (dir_tree written)) (bw_bundles w)"
  have es: "?es = bw_bundles w @ [(?id, DirN (dir_tree written))]"
    using assms(6) by (rule update_fresh)
  have d: "distinct (map fst ?es)" using assms(5) by (rule distinct_update)
  obtain t1 where t1: "(t1, ?id) \<in> set (?keys (bw_bundles w2))" "t < t1" using assms(9) by (auto simp: w1 run_id i)
  then obtain x m where x: "(?id, x) \<in> set (bw_bundles w2)" "bundle_at (bl_decode lib) (bl_parse_time lib) x = Some (t1, m)"
    by (auto simp: bundle_keys_iff)
  have "x = DirN (dir_tree written)"
  proof -
    have "distinct (map fst (bw_bundles w2))" by (rule retain_distinct [OF ret d])
    then show ?thesis using x(1) node by simp
  qed
  then have new: "?keys ?es = ?keys (bw_bundles w) @ [(t1, ?id)]" using x(2) by (simp add: es bundle_keys_append)
  let ?S = "\<lambda>es. {name'. \<exists>t'. (t', name') \<in> set (?keys es) \<and> (t, name) < (t', name')}"
  have "?S ?es = insert ?id (?S (bw_bundles w))" using t1(2) unfolding new by auto
  moreover have "?id \<notin> ?S (bw_bundles w)" using assms(6) by (force simp: bundle_keys_iff)
  moreover have "finite (?S (bw_bundles w))"
    by (rule finite_subset [of _ "snd ` set (?keys (bw_bundles w))"]) (auto intro: rev_image_eqI)
  ultimately have "rk_backup_keep cfg \<le> card (?S ?es)" using assms(8) by simp
  moreover have "(t, name) \<in> set (?keys ?es)" using assms(7) unfolding new by simp
  ultimately have gone: "map_of (bw_bundles w2) name = None" using retain_drops [OF ret d] by blast
  then have unpack: "unpack_backup_bundle (bl_crypto lib) (bl_decode lib) (bundle_at_ref w1 (InBundles name)) False password = Inl BundleManifestMissing"
    by (simp add: bundle_at_ref_def bundle_named_def w1 unpack_backup_bundle_def read_manifest_def)
  obtain v where v: "lib_verify lib (bundle_at_ref w (InBundles name)) password = Inr v" "bv_plaintext_verified v"
  proof -
    have "plaintext_verified lib (bundle_named (bw_bundles w) name) password"
      using assms(2) by (auto simp: resolve_backup_password_def find_Some_iff split: if_splits option.splits)
    then show thesis using that by (auto simp: plaintext_verified_def bundle_at_ref_def split: sum.splits)
  qed
  have "finish_restore lib re (Some (rr_run_id safety)) (Inl (BundleFailed BundleManifestMissing)) w1 data = Some (r, w', data')"
    using assms(1-4) dir v unpack by (simp add: restore_backup_bundle_def bundle_at_ref_def Let_def)
  from finish_restore_Some [OF this] gone w1 show ?thesis by simp
qed

subsection \<open>The status of the last run\<close>

text \<open>
  The status tells what the last run did: after a run whose status is written, the readiness is failed exactly
  when the run failed; it is ready exactly when the run succeeded and no more than the interval has passed since, to
  the second; and it is stale otherwise.
\<close>
theorem readiness_follows_run:
  assumes "run_backup lib cfg en w = Some (r, w')" and "rk_backup_dir cfg \<noteq> None" and "en_dirs_ok en" and "en_status_ok en"
    and "bl_parse_time lib (en_completed_at en) = Some completed_at" and "completed_at \<le> now" and "interval_hours < 2 ^ 50"
  shows "map_option sn_readiness (evaluate_backup_readiness (bl_parse_time lib) True (Some (bw_status w')) interval_hours now) =
    Some (if isl r then ReadinessFailed
      else if now < completed_at + (int interval_hours * 3600 + 1) * 10 ^ 9 then Ready else Stale)"
proof -
  obtain status where w': "bw_status w' = Some status" "bs_completed_at status = en_completed_at en"
    and out: "bs_outcome status = RunFailed \<longleftrightarrow> isl r"
  proof -
    obtain st w1 where st: "run_backup_steps lib cfg en w = (st, w1)" by fastforce
    show thesis
      using assms(1-4) that by (cases st) (auto simp: run_backup_def backup_status_of_def Let_def st)
  qed
  have i: "i64_sat_mul (as_i64 (int interval_hours)) 3600 = int interval_hours * 3600"
    using assms(7) by (simp add: i64_sat_mul_def in_signed_def)
  have "int interval_hours * 3600 < max 0 ((now - completed_at) div 10 ^ 9) \<longleftrightarrow>
      \<not> now < completed_at + (int interval_hours * 3600 + 1) * 10 ^ 9"
    using assms(6) by (auto simp: max_def)
  then show ?thesis
    using w' out assms(5) by (auto simp: evaluate_backup_readiness_def i Let_def)
qed

subsection \<open>Replication that fails\<close>

text \<open>
  While the directory off site is out of reach every run adds a bundle and nothing removes one: after any number
  of such runs all their bundles are there beside those from before, whatever number is to be kept.
\<close>
theorem offsite_outage_grows:
  assumes "\<forall>i < n. fst (run_backup_steps lib cfg (en i) (ws i)) = Inl OffsiteRootFailed \<and>
      bw_bundles (ws (Suc i)) = bw_bundles (snd (run_backup_steps lib cfg (en i) (ws i)))"
    and "inj_on (\<lambda>i. en_run_id (en i)) {..<n}" and "\<forall>i < n. en_run_id (en i) \<notin> fst ` set (bw_bundles (ws 0))"
  shows "length (bw_bundles (ws n)) = length (bw_bundles (ws 0)) + n
    \<and> set (bw_bundles (ws 0)) \<subseteq> set (bw_bundles (ws n)) \<and> (\<forall>i < n. en_run_id (en i) \<in> fst ` set (bw_bundles (ws n)))"
proof -
  have "m \<le> n \<Longrightarrow> \<exists>nodes. bw_bundles (ws m) = bw_bundles (ws 0) @ map (\<lambda>i. (en_run_id (en i), nodes i)) [0..<m]" for m
  proof (induction m)
    case (Suc m)
    then obtain nodes where nodes: "bw_bundles (ws m) = bw_bundles (ws 0) @ map (\<lambda>i. (en_run_id (en i), nodes i)) [0..<m]" by auto
    have "m < n" using Suc.prems by simp
    note step = assms(1) [rule_format, OF this]
    then have "fst (run_backup_steps lib cfg (en m) (ws m)) = Inl OffsiteRootFailed" by blast
    then obtain node where "bw_bundles (snd (run_backup_steps lib cfg (en m) (ws m))) = AList.update (en_run_id (en m)) node (bw_bundles (ws m))"
      using offsite_root_failed by blast
    moreover have "en_run_id (en m) \<notin> fst ` set (bw_bundles (ws m))"
    proof -
      have "en_run_id (en m) \<noteq> en_run_id (en i)" if "i < m" for i
        using inj_onD [OF assms(2), of m i] that \<open>m < n\<close> by auto
      moreover have "fst ` set (bw_bundles (ws m)) = fst ` set (bw_bundles (ws 0)) \<union> (\<lambda>i. en_run_id (en i)) ` {..<m}"
        unfolding nodes by (simp add: image_Un image_image atLeast0LessThan)
      ultimately show ?thesis using assms(3) \<open>m < n\<close> by blast
    qed
    ultimately have "bw_bundles (ws (Suc m)) = bw_bundles (ws m) @ [(en_run_id (en m), node)]"
      using step update_fresh [of "en_run_id (en m)" "bw_bundles (ws m)" node] by metis
    then show ?case
      by (intro exI [of _ "nodes(m := node)"]) (simp add: nodes)
  qed simp
  then obtain nodes where "bw_bundles (ws n) = bw_bundles (ws 0) @ map (\<lambda>i. (en_run_id (en i), nodes i)) [0..<n]" by blast
  then show ?thesis by (auto simp: image_Un image_image)
qed

subsection \<open>Concrete runs\<close>

text \<open>One old bundle, one to keep: its restoration loses it.\<close>

definition ex_call_at :: "string \<Rightarrow> bundle_call" where
  "ex_call_at created_at = \<lparr>bc_created_at = created_at, bc_salt = [], bc_nonces = (\<lambda>i. replicate 8 (CHR ''n''))\<rparr>"

definition ex_object_files :: "(string, bytes) hashmap" where
  "ex_object_files = [(''manifest.json'', ''J'')]"

definition ex_safety_manifest :: backup_bundle_manifest where
  "ex_safety_manifest = bundle_manifest (ex_call_at ''22'') None
     [\<lparr>bf_logical_path = ''database.dump'', bf_payload_path = ''payload/00000000.bin'', bf_size_bytes = 2, bf_sha256 = ''2'',
       bf_stored_size_bytes = 2, bf_stored_sha256 = ''2'', bf_nonce_base64 = None, bf_chunk_size_bytes = None, bf_chunk_count = None\<rparr>,
      \<lparr>bf_logical_path = ''object-store/manifest.json'', bf_payload_path = ''payload/00000001.bin'', bf_size_bytes = 1, bf_sha256 = ''1'',
       bf_stored_size_bytes = 1, bf_stored_sha256 = ''1'', bf_nonce_base64 = None, bf_chunk_size_bytes = None, bf_chunk_count = None\<rparr>]"

definition ex_safety_dir :: bundle_dir where
  "ex_safety_dir = [(''manifest.json'', ''M''), (''payload/00000000.bin'', ''DB''), (''payload/00000001.bin'', ''J'')]"

definition ex_old_manifest :: backup_bundle_manifest where
  "ex_old_manifest = bundle_manifest (ex_call_at ''1'') None []"

definition ex_lib :: backup_lib where
  "ex_lib = \<lparr>bl_crypto = ex_crypto, bl_encode = (\<lambda>_. ''M''),
     bl_decode = (\<lambda>raw. if raw = ''M'' then Some ex_safety_manifest else if raw = ''O'' then Some ex_old_manifest else None),
     bl_decode_objects = (\<lambda>_. Some \<lparr>om_kind = OBJECT_STORE_BACKUP_KIND, om_schema_version = OBJECT_STORE_BACKUP_SCHEMA_VERSION,
        om_created_at = ''1'', om_object_count = 0, om_total_size_bytes = 0, om_objects = []\<rparr>),
     bl_parse_time = ex_parse_time, bl_message = (\<lambda>_. ''failed'')\<rparr>"

definition ex_cfg :: runtime_config where
  "ex_cfg = \<lparr>rk_backup_dir = Some [''b''], rk_backup_offsite_dir = None, rk_backup_keep = 1, rk_backup_password = None,
     rk_backup_password_previous = None\<rparr>"

definition ex_backup_env :: backup_env where
  "ex_backup_env = \<lparr>en_run_id = ''new'', en_dirs_ok = True, en_dump = Some ''DB'', en_objects = Inr ex_object_files, en_bundle = ex_call_at ''22'',
     en_offsite_root_ok = False, en_remove = (\<lambda>_. None), en_remove_offsite = (\<lambda>_. None), en_started_at = ''22'', en_completed_at = ''333'',
     en_duration_ms = 5, en_audit_db = True, en_status_ok = True\<rparr>"

definition ex_world :: backup_world where
  "ex_world = \<lparr>bw_bundles = [(''old'', DirN [(''manifest.json'', FileN ''O'')])], bw_offsite = [], bw_status = None,
     bw_restore_status = None, bw_audit = []\<rparr>"

definition ex_db :: restored_db where
  "ex_db = \<lparr>rd_latest_index_count = 1, rd_book_count = 1, rd_transaction_count = 2, rd_attachments = []\<rparr>"

definition ex_restore_env :: restore_env where
  "ex_restore_env = \<lparr>re_safety = ex_backup_env, re_work_dir_ok = True, re_io = ex_io, re_pg_restore_ok = True, re_left = (\<lambda>_. None),
     re_database = (\<lambda>_. Some ex_db), re_started_at = ''22'', re_completed_at = ''333'', re_duration_ms = 7,
     re_audit_db = True, re_status_ok = True\<rparr>"

definition ex_server_data :: server_data where
  "ex_server_data = \<lparr>sd_objects = TargetAbsent, sd_database = None\<rparr>"

definition ex_backup_run :: "(runtime_error + backup_run_report) \<times> backup_world" where
  "ex_backup_run = the (run_backup ex_lib ex_cfg ex_backup_env ex_world)"

lemma ex_backup_run: "run_backup ex_lib ex_cfg ex_backup_env ex_world = Some (Inr (projr (fst ex_backup_run)), snd ex_backup_run)"
proof -
  have "map_option (\<lambda>(r, _). isl r) (run_backup ex_lib ex_cfg ex_backup_env ex_world) = Some False" by code_simp
  then obtain s w where "run_backup ex_lib ex_cfg ex_backup_env ex_world = Some (Inr s, w)"
    by (cases "run_backup ex_lib ex_cfg ex_backup_env ex_world") (auto simp: isl_def split: prod.splits, metis old.sum.exhaust)
  then show ?thesis by (simp add: ex_backup_run_def)
qed

theorem restore_own_bundle_lost_witness:
  "\<exists>w' data'. restore_backup_bundle ex_lib ex_cfg ex_restore_env (InBundles ''old'') None ex_world ex_server_data
      = Some (Inl (BundleFailed BundleManifestMissing), w', data') \<and>
     map_of (bw_bundles ex_world) ''old'' \<noteq> None \<and> map_of (bw_bundles w') ''old'' = None"
proof -
  have "restore_backup_bundle ex_lib ex_cfg ex_restore_env (InBundles ''old'') None ex_world ex_server_data \<noteq> None" by code_simp
  then obtain r w' data' where r: "restore_backup_bundle ex_lib ex_cfg ex_restore_env (InBundles ''old'') None ex_world ex_server_data = Some (r, w', data')"
    by (metis option.exhaust prod.collapse)
  have p: "resolve_backup_password ex_lib ex_cfg (bundle_named (bw_bundles ex_world) ''old'') None = Inr None" by code_simp
  have run: "run_backup ex_lib ex_cfg (re_safety ex_restore_env) ex_world = Some (Inr (projr (fst ex_backup_run)), snd ex_backup_run)"
    using ex_backup_run by (simp add: ex_restore_env_def)
  have k: "bundle_keys (bl_decode ex_lib) (bl_parse_time ex_lib) (bw_bundles ex_world) = [(1, ''old'')]" by code_simp
  have k1: "(2, rr_run_id (projr (fst ex_backup_run))) \<in> set (bundle_keys (bl_decode ex_lib) (bl_parse_time ex_lib) (bw_bundles (snd ex_backup_run)))" by code_simp
  have "\<exists>t1. (t1, rr_run_id (projr (fst ex_backup_run))) \<in> set (bundle_keys (bl_decode ex_lib) (bl_parse_time ex_lib) (bw_bundles (snd ex_backup_run))) \<and> 1 < t1"
    using k1 by (intro exI [of _ 2]) simp
  from restore_own_bundle_lost [OF r p run _ _ _ _ _ this]
  have "r = Inl (BundleFailed BundleManifestMissing)" "map_of (bw_bundles w') ''old'' = None"
    unfolding k by (simp_all add: ex_restore_env_def ex_world_def ex_backup_env_def ex_cfg_def)
  with r show ?thesis by (simp add: ex_world_def)
qed

theorem restore_guarded_witness:
  "\<exists>r w' data'. restore_backup_bundle ex_lib (ex_cfg\<lparr>rk_backup_keep := 2\<rparr>) ex_restore_env (Elsewhere ex_safety_dir) None ex_world ex_server_data
      = Some (Inr r, w', data') \<and> (\<exists>objs. sd_objects data' = TargetDir objs) \<and> rq_object_count r = 0"
proof -
  let ?r = "restore_backup_bundle ex_lib (ex_cfg\<lparr>rk_backup_keep := 2\<rparr>) ex_restore_env (Elsewhere ex_safety_dir) None ex_world ex_server_data"
  have "map_option (\<lambda>(r, _). isl r) ?r = Some False" by code_simp
  then obtain r w' data' where r: "?r = Some (Inr r, w', data')"
    by (cases ?r) (auto simp: isl_def split: prod.splits, metis old.sum.exhaust)
  obtain objs dump db where o: "sd_objects data' = TargetDir objs" "re_database ex_restore_env dump = Some db"
      "rq_object_count r = length (rd_attachments db)"
    using restore_guarded [OF r] by blast
  then have "db = ex_db" by (simp add: ex_restore_env_def)
  then have "rq_object_count r = 0" using o(3) by (simp add: ex_db_def)
  then show ?thesis using o(1) r by blast
qed

theorem resolve_backup_password_first_witness:
  "resolve_backup_password ex_lib ex_cfg [] (Some ''x'') = Inl PasswordNotFound \<and> \<not> plaintext_verified ex_lib [] (Some ''x'')"
proof -
  have "resolve_backup_password ex_lib ex_cfg [] (Some ''x'') = Inl PasswordNotFound" by code_simp
  then show ?thesis using resolve_backup_password_first [where lib = ex_lib and cfg = ex_cfg and dir = "[]" and override_password = "Some ''x''"] by simp
qed

theorem readiness_follows_run_witness:
  "map_option sn_readiness (evaluate_backup_readiness ex_parse_time True (Some (bw_status (snd ex_backup_run))) 1 4) = Some Ready"
proof -
  have "bl_parse_time ex_lib (en_completed_at ex_backup_env) = Some 3" "bl_parse_time ex_lib = ex_parse_time"
    by (simp_all add: ex_lib_def ex_backup_env_def ex_parse_time_def)
  then show ?thesis
    using readiness_follows_run [OF ex_backup_run, of 3 4 1] by (simp add: ex_cfg_def ex_backup_env_def)
qed

definition ex_offsite_cfg :: runtime_config where
  "ex_offsite_cfg = ex_cfg\<lparr>rk_backup_offsite_dir := Some [''o'']\<rparr>"

theorem offsite_outage_grows_witness:
  "length (bw_bundles (snd (run_backup_steps ex_lib ex_offsite_cfg ex_backup_env ex_world))) = 2 \<and> rk_backup_keep ex_offsite_cfg = 1"
proof -
  have f: "fst (run_backup_steps ex_lib ex_offsite_cfg ex_backup_env ex_world) = Inl OffsiteRootFailed" by code_simp
  let ?ws = "\<lambda>i::nat. if i = 0 then ex_world else snd (run_backup_steps ex_lib ex_offsite_cfg ex_backup_env ex_world)"
  have runs: "\<forall>i < 1. fst (run_backup_steps ex_lib ex_offsite_cfg ex_backup_env (?ws i)) = Inl OffsiteRootFailed \<and>
      bw_bundles (?ws (Suc i)) = bw_bundles (snd (run_backup_steps ex_lib ex_offsite_cfg ex_backup_env (?ws i)))"
    using f by simp
  have inj: "inj_on (\<lambda>i. en_run_id ex_backup_env) {..<1::nat}" by (simp add: inj_on_def)
  have new: "\<forall>i < (1::nat). en_run_id ex_backup_env \<notin> fst ` set (bw_bundles (?ws 0))" by (simp add: ex_backup_env_def ex_world_def)
  have "length (bw_bundles (?ws 1)) = length (bw_bundles (?ws 0)) + 1"
    using offsite_outage_grows [OF runs inj new] by (rule conjunct1)
  then show ?thesis by (simp add: ex_world_def ex_offsite_cfg_def ex_cfg_def)
qed

text \<open>A run on an object store with one file, with a concrete encoding of the manifests.\<close>

instance stored_object_metadata_ext :: (countable) countable
  by (rule countable_classI [of "\<lambda>r. to_nat (som_key r, som_size_bytes r, som_sha256 r, stored_object_metadata.more r)"]) simp

instance object_store_backup_manifest_ext :: (countable) countable
  by (rule countable_classI [of "\<lambda>r. to_nat (om_kind r, om_schema_version r, om_created_at r, om_object_count r,
      om_total_size_bytes r, om_objects r, object_store_backup_manifest.more r)"]) simp

definition ex_encode_objects :: "object_store_backup_manifest \<Rightarrow> bytes" where
  "ex_encode_objects m = nat_to_string (to_nat m)"

definition ex_decode_objects :: "bytes \<Rightarrow> object_store_backup_manifest option" where
  "ex_decode_objects b = map_option from_nat (digits_value 0 b)"

definition ex_coded_lib :: backup_lib where
  "ex_coded_lib = \<lparr>bl_crypto = ex_crypto, bl_encode = ex_manifest_encode, bl_decode = ex_manifest_decode, bl_decode_objects = ex_decode_objects,
     bl_parse_time = (\<lambda>_. None), bl_message = (\<lambda>_. ''failed'')\<rparr>"

definition ex_coded_objects :: "bytes backup_dir" where
  "ex_coded_objects = \<lparr>bd_manifest = map_option ex_encode_objects (bd_manifest ex_backup), bd_objects = bd_objects ex_backup\<rparr>"

definition ex_coded_env :: backup_env where
  "ex_coded_env = ex_backup_env\<lparr>en_objects := Inr (object_backup_files ex_coded_objects)\<rparr>"

lemma backup_encode:
  "backup_object_store sha256 encode is_local out overlaps created source =
     (case backup_object_store sha256 (\<lambda>m. m) is_local out overlaps created source of
        (r, d) \<Rightarrow> (r, \<lparr>bd_manifest = map_option encode (bd_manifest d), bd_objects = bd_objects d\<rparr>))"
  by (simp add: backup_object_store_def Let_def split: sum.split prod.split)

lemma ex_coded_backup:
  "\<exists>rep. backup_object_store ex_sha256 ex_encode_objects True OutEmpty False ''2026-01-01T00:00:00Z'' ex_tree = (Inr rep, ex_coded_objects)"
  using ex_backup_runs by (auto simp: backup_encode [of ex_sha256 ex_encode_objects] ex_coded_objects_def)

lemma run_backup_steps_succeed:
  assumes "create_backup_bundle (bl_crypto lib) (bl_encode lib) (en_bundle en) (Some dump) (lib_verify_objects lib objects)
       (dir_tree objects) OutAbsent False (rk_backup_password cfg) = Inr (made, written)"
    and "plaintext_verified lib (bundle_files_of (dir_tree written)) (rk_backup_password cfg)"
    and "en_dump en = Some dump" "en_objects en = Inr objects" and "bw_bundles w = []" and "bl_parse_time lib = (\<lambda>_. None)"
    and "rk_backup_dir cfg \<noteq> None" "rk_backup_offsite_dir cfg = None" "0 < rk_backup_keep cfg"
  shows "\<exists>rep w'. run_backup_steps lib cfg en w = (Inr rep, w') \<and> map_of (bw_bundles w') (en_run_id en) \<noteq> None"
proof -
  obtain v where v: "lib_verify lib (bundle_files_of (dir_tree written)) (rk_backup_password cfg) = Inr v" "bv_plaintext_verified v"
    using assms(2) by (auto simp: plaintext_verified_def split: sum.splits)
  have "bundle_at (bl_decode lib) (\<lambda>_. None) x = None" for x by (simp add: bundle_at_def split: fs_node.split sum.split)
  then have r: "retain lib (en_remove en) (rk_backup_keep cfg) [(en_run_id en, DirN (dir_tree written))] = (Inr 0, [(en_run_id en, DirN (dir_tree written))])"
    using assms(6,9) by (simp add: retain_def cleanup_backup_bundles_def Let_def latest_first_def)
  show ?thesis
    using assms v r by (auto simp: run_backup_steps_def Let_def bundle_named_def out_state_def)
qed

lemma ex_coded_run: "\<exists>rep w'. run_backup_steps ex_coded_lib ex_cfg ex_coded_env (ex_world\<lparr>bw_bundles := []\<rparr>) = (Inr rep, w') \<and>
  map_of (bw_bundles w') (en_run_id ex_coded_env) \<noteq> None"
proof -
  let ?d = "object_backup_files ex_coded_objects"
  obtain rep where b: "backup_object_store ex_sha256 ex_encode_objects True OutEmpty False ''2026-01-01T00:00:00Z'' ex_tree = (Inr rep, ex_coded_objects)"
    using ex_coded_backup by blast
  have tree: "tree_ok ex_tree" by code_simp
  have dec: "\<forall>m. ex_decode_objects (ex_encode_objects m) = Some m"
    by (simp add: ex_decode_objects_def ex_encode_objects_def digits_value_nat_to_string)
  have od: "dir_ok ?d" by (rule object_backup_dir_ok [OF b tree])
  have io: "io_move_away ex_io \<and> io_publish ex_io \<and> io_remove_previous ex_io" by (simp add: ex_io_def)
  obtain raw where raw: "bd_manifest ex_coded_objects = Some raw" using backup_Inr [OF b tree] by metis
  have "verify_object_store_backup ex_sha256 ex_decode_objects ex_coded_objects = Inr rep"
    using restored_backup [OF b tree dec, of TargetAbsent ex_io] io by simp
  then have ok: "lib_verify_objects ex_coded_lib ?d = Inr rep"
    using same_object_backup(1) [OF object_backup_of_files [OF raw]] by (simp add: ex_coded_lib_def ex_crypto_def)
  have "bd_objects ex_backup = [(''books/b1/a1'', ''hi'')]" by code_simp
  then have files: "?d = [(''manifest.json'', raw), (''objects/books/b1/a1'', ''hi'')]"
    using raw by (auto simp: object_backup_files_def ex_coded_objects_def)
  have "dir_tree ?d = [(''manifest.json'', FileN raw), (''objects'', DirN [(''books'', DirN [(''b1'', DirN [(''a1'', FileN ''hi'')])])])]"
    by (simp add: files dir_tree_def)
  then have inputs: "bundle_inputs ''DB'' (dir_tree ?d) = Inr [(''database.dump'', ''DB''), (''object-store/manifest.json'', raw), (''object-store/objects/books/b1/a1'', ''hi'')]"
    by (simp add: bundle_inputs_def OBJECT_STORE_LOGICAL_PREFIX_def DATABASE_LOGICAL_PATH_def less_char_def)
  have paths: "validated_logical_path ''database.dump'' = Some ''database.dump''"
    "validated_logical_path ''object-store/manifest.json'' = Some ''object-store/manifest.json''"
    "validated_logical_path ''object-store/objects/books/b1/a1'' = Some ''object-store/objects/books/b1/a1''" by code_simp+
  have "\<exists>payloads. write_payloads ex_crypto None (bc_nonces (en_bundle ex_coded_env)) 0 [(''database.dump'', ''DB''), (''object-store/manifest.json'', raw), (''object-store/objects/books/b1/a1'', ''hi'')] = Inr payloads"
    using paths by (simp add: write_bundle_payload_def Let_def)
  then obtain made written where create: "create_backup_bundle ex_crypto ex_manifest_encode (en_bundle ex_coded_env) (Some ''DB'') (lib_verify_objects ex_coded_lib ?d)
       (dir_tree ?d) OutAbsent False None = Inr (made, written)"
    using inputs ok by (auto simp: create_backup_bundle_def fill_bundle_def Let_def)
  have nonces: "\<forall>i. length (bc_nonces (en_bundle ex_coded_env) i) = 8" by (simp add: ex_coded_env_def ex_backup_env_def ex_call_at_def)
  have "\<forall>m. ex_manifest_decode (ex_manifest_encode m) = Some m" by (simp add: ex_manifest_decode_encode)
  from bundle_unpacks [OF create ex_crypto_laws this dir_tree_files(1) [OF od] nonces]
  have "plaintext_verified ex_coded_lib written None"
    by (auto simp: plaintext_verified_def ex_coded_lib_def split: sum.splits elim!: map_sum_InrE)
  then have "plaintext_verified ex_coded_lib (bundle_files_of (dir_tree written)) None"
    using same_files(1) [OF read_dir_tree [OF created_bundle_dir_ok [OF create]]] by (simp add: plaintext_verified_def)
  then show ?thesis
    using create
    by (intro run_backup_steps_succeed [of ex_coded_lib ex_coded_env "''DB''" ?d ex_cfg made written])
      (simp_all add: ex_coded_lib_def ex_coded_env_def ex_backup_env_def ex_cfg_def ex_world_def)
qed

theorem backup_restores_witness:
  "\<exists>w' files restored. snd (run_backup_steps ex_coded_lib ex_cfg ex_coded_env (ex_world\<lparr>bw_bundles := []\<rparr>)) = w' \<and>
     hm_get files ''database.dump'' = Some ''DB'' \<and>
     fst (restore_object_store ex_sha256 ex_decode_objects True ex_io (object_backup_of (below ''object-store/'' files)) TargetAbsent) \<noteq> Inl NotLocal \<and>
     hm_get restored ''books/b1/a1'' = Some ''hi''"
proof -
  obtain orep where b: "backup_object_store (cy_sha256 (bl_crypto ex_coded_lib)) ex_encode_objects True OutEmpty False ''2026-01-01T00:00:00Z'' ex_tree = (Inr orep, ex_coded_objects)"
    using ex_coded_backup by (auto simp: ex_coded_lib_def ex_crypto_def)
  obtain rep w' where run: "run_backup_steps ex_coded_lib ex_cfg ex_coded_env (ex_world\<lparr>bw_bundles := []\<rparr>) = (Inr rep, w')"
      "map_of (bw_bundles w') (en_run_id ex_coded_env) \<noteq> None"
    using ex_coded_run by blast
  have env: "en_objects ex_coded_env = Inr (object_backup_files ex_coded_objects)" "en_dump ex_coded_env = Some ''DB''"
    "\<forall>i. length (bc_nonces (en_bundle ex_coded_env) i) = 8" "crypto_laws (bl_crypto ex_coded_lib)" "tree_ok ex_tree"
    by (simp_all add: ex_coded_env_def ex_backup_env_def ex_call_at_def ex_coded_lib_def ex_crypto_laws, code_simp)
  have dec: "\<forall>m. bl_decode ex_coded_lib (bl_encode ex_coded_lib m) = Some m" "\<forall>m. bl_decode_objects ex_coded_lib (ex_encode_objects m) = Some m"
    by (simp_all add: ex_coded_lib_def ex_manifest_decode_encode ex_decode_objects_def ex_encode_objects_def digits_value_nat_to_string)
  have io: "io_move_away ex_io \<and> io_publish ex_io \<and> io_remove_previous ex_io" by (simp add: ex_io_def)
  obtain files restored where "hm_get files DATABASE_LOGICAL_PATH = Some ''DB''"
    and r: "restore_object_store (cy_sha256 (bl_crypto ex_coded_lib)) (bl_decode_objects ex_coded_lib) True ex_io
         (object_backup_of (below ''object-store/'' files)) TargetAbsent = (Inr orep, TargetDir restored)"
    and at: "\<forall>ns. list_all name_ok ns \<longrightarrow> hm_get restored (join_path ns) = file_at ex_tree ns"
    using backup_restores [OF b env(1,2) run env(5,4,3) dec io, of TargetAbsent] by blast
  moreover have "hm_get restored ''books/b1/a1'' = Some ''hi''"
    using at [rule_format, of "[''books'', ''b1'', ''a1'']"] by (simp add: name_ok_def ex_tree_def)
  moreover have "bl_decode_objects ex_coded_lib = ex_decode_objects" "cy_sha256 (bl_crypto ex_coded_lib) = ex_sha256"
    by (simp_all add: ex_coded_lib_def ex_crypto_def)
  ultimately show ?thesis
    using r by (intro exI [of _ files] exI [of _ restored] exI [of _ w']) (simp add: run(1) DATABASE_LOGICAL_PATH_def)
qed

end
