(* ===== verification/Config.thy ===== *)
theory Config
  imports Backup_Runtime
begin

section \<open>Configuration (config.rs)\<close>

text \<open>
  The settings read from the environment, with their defaults, and their validation. \<open>env\<close> is the environment
  (\<open>None\<close> where \<open>env::var\<close> fails), \<open>parse_url\<close> the parser of the \<open>url\<close> crate; paths are the strings given. The
  JWT keys, derived by the libraries from the secrets, are left out.
\<close>

record url =
  ur_scheme :: string
  ur_host :: "string option"
  ur_username :: string
  ur_password :: "string option"
  ur_query :: "string option"
  ur_fragment :: "string option"
  ur_path :: string
  ur_origin :: string

datatype object_store_backend = LocalBackend | S3Backend

datatype config_error =
    NotABool string | NotPositive string | UnknownBackend | BadOrigin string
  | AttachmentLimit | CapacityThresholds | BucketMissing | CredentialsMissing | BadPrefix
  | BadEndpoint string | HttpEndpoint string
  | DatabaseMissing | JwtSecretDefault | SeedMissing | SeedDefault | PreviousSeedDefault | HmacSecretDefault
  | CookieInsecure | OriginsMissing | OriginInsecure | BackupPasswordMissing | DrillWithoutBackup

record config =
  cc_listen_addr :: string
  cc_database_url :: "string option"
  cc_jwt_secret :: string
  cc_jwt_ed25519_seed :: "string option"
  cc_jwt_previous_ed25519_seed :: "string option"
  cc_object_store_dir :: string
  cc_object_store_hmac_secret :: string
  cc_object_store_hmac_previous_secret :: "string option"
  cc_object_store_public_base :: string
  cc_object_storage_backend :: object_store_backend
  cc_s3_endpoint :: "string option"
  cc_s3_region :: string
  cc_s3_bucket :: "string option"
  cc_s3_access_key_id :: "string option"
  cc_s3_secret_access_key :: "string option"
  cc_s3_session_token :: "string option"
  cc_s3_prefix :: "string option"
  cc_s3_force_path_style :: bool
  cc_s3_allow_http :: bool
  cc_s3_public_endpoint :: "string option"
  cc_attachment_max_bytes :: nat
  cc_attachment_pending_ttl_hours :: nat
  cc_backup_dir :: "string option"
  cc_backup_offsite_dir :: "string option"
  cc_backup_keep :: nat
  cc_backup_interval_hours :: nat
  cc_backup_password :: "string option"
  cc_backup_password_previous :: "string option"
  cc_backup_capacity_warn_bytes :: nat
  cc_backup_capacity_critical_bytes :: nat
  cc_audit_retention_days :: nat
  cc_recovery_drill_enabled :: bool
  cc_recovery_drill_interval_hours :: nat
  cc_recovery_drill_database_url :: "string option"
  cc_rate_limit_rps :: nat
  cc_auth_rate_limit_rps :: nat
  cc_cors_allowed_origins :: "string list"
  cc_auth_cookie_secure :: bool
  cc_otel_endpoint :: "string option"
  cc_is_production :: bool

definition GIB :: nat where "GIB = 1024 * 1024 * 1024"

subsection \<open>Parsing\<close>

definition parse_unsigned :: "nat \<Rightarrow> string \<Rightarrow> nat option" where
  "parse_unsigned w s =
     (case (case s of [] \<Rightarrow> None | c # t \<Rightarrow> if c = CHR ''+'' then parse_digits t else parse_digits s) of
        None \<Rightarrow> None
      | Some n \<Rightarrow> if n < 2 ^ w then Some n else None)"

definition parse_bool :: "string \<Rightarrow> string \<Rightarrow> config_error + bool" where
  "parse_bool name value =
     (let v = to_ascii_lowercase (trim value) in
      if v = ''true'' \<or> v = ''1'' then Inr True else if v = ''false'' \<or> v = ''0'' then Inr False else Inl (NotABool name))"

definition bool_env :: "(string \<Rightarrow> string option) \<Rightarrow> string \<Rightarrow> bool \<Rightarrow> config_error + bool" where
  "bool_env env name def = (case env name of None \<Rightarrow> Inr def | Some value \<Rightarrow> parse_bool name value)"

definition parse_positive_u64_env :: "(string \<Rightarrow> string option) \<Rightarrow> string \<Rightarrow> nat \<Rightarrow> config_error + nat" where
  "parse_positive_u64_env env name def =
     (case env name of None \<Rightarrow> Inr def | Some raw \<Rightarrow>
      (case parse_unsigned 64 (trim raw) of None \<Rightarrow> Inl (NotPositive name)
       | Some value \<Rightarrow> if value = 0 then Inl (NotPositive name) else Inr value))"

definition parse_object_store_backend :: "string \<Rightarrow> config_error + object_store_backend" where
  "parse_object_store_backend value =
     (let v = to_ascii_lowercase (trim value) in
      if v = ''local'' then Inr LocalBackend else if v = ''s3'' then Inr S3Backend else Inl UnknownBackend)"

definition plain_http_url :: "url \<Rightarrow> bool" where
  "plain_http_url u \<longleftrightarrow> (ur_scheme u = ''http'' \<or> ur_scheme u = ''https'') \<and> ur_host u \<noteq> None \<and> ur_username u = [] \<and>
     ur_password u = None \<and> ur_query u = None \<and> ur_fragment u = None"

definition parse_origin :: "(string \<Rightarrow> url option) \<Rightarrow> string \<Rightarrow> config_error + string" where
  "parse_origin parse_url origin =
     (case parse_url origin of None \<Rightarrow> Inl (BadOrigin origin)
      | Some u \<Rightarrow> if \<not> plain_http_url u \<or> ur_path u \<noteq> ''/'' then Inl (BadOrigin origin) else Inr (ur_origin u))"

fun collect_results :: "('e + 'a) list \<Rightarrow> 'e + 'a list" where
  "collect_results [] = Inr []"
| "collect_results (Inl e # xs) = Inl e"
| "collect_results (Inr x # xs) = map_sum (\<lambda>e. e) ((#) x) (collect_results xs)"

definition parse_origins :: "(string \<Rightarrow> url option) \<Rightarrow> string \<Rightarrow> config_error + string list" where
  "parse_origins parse_url value =
     collect_results (map (parse_origin parse_url) (filter (\<lambda>s. s \<noteq> []) (map trim (split_on (CHR '','') value))))"

subsection \<open>Validation\<close>

definition validate_endpoint :: "(string \<Rightarrow> url option) \<Rightarrow> bool \<Rightarrow> string \<Rightarrow> string option \<Rightarrow> config_error option" where
  "validate_endpoint parse_url allow_http name endpoint =
     (case endpoint of None \<Rightarrow> None | Some e \<Rightarrow>
      (case parse_url e of None \<Rightarrow> Some (BadEndpoint name) | Some u \<Rightarrow>
         if \<not> plain_http_url u then Some (BadEndpoint name)
         else if ur_scheme u = ''http'' \<and> \<not> allow_http then Some (HttpEndpoint name) else None))"

definition bad_s3_prefix :: "string \<Rightarrow> bool" where
  "bad_s3_prefix p \<longleftrightarrow> trim p = [] \<or> starts_with ''/'' p \<or> (p \<noteq> [] \<and> last p = CHR ''/'') \<or>
     list_ex bad_segment (split_on (CHR ''/'') p)"

definition validate_s3 :: "(string \<Rightarrow> url option) \<Rightarrow> config \<Rightarrow> config_error option" where
  "validate_s3 parse_url c =
     (let or_empty = (\<lambda>s. case s of None \<Rightarrow> [] | Some v \<Rightarrow> v) in
      if or_empty (cc_s3_bucket c) = [] then Some BucketMissing
      else if or_empty (cc_s3_access_key_id c) = [] \<or> or_empty (cc_s3_secret_access_key c) = [] then Some CredentialsMissing
      else if (case cc_s3_prefix c of Some p \<Rightarrow> bad_s3_prefix p | None \<Rightarrow> False) then Some BadPrefix
      else case validate_endpoint parse_url (cc_s3_allow_http c) ''S3_ENDPOINT'' (cc_s3_endpoint c) of Some e \<Rightarrow> Some e
      | None \<Rightarrow> validate_endpoint parse_url (cc_s3_allow_http c) ''S3_PUBLIC_ENDPOINT'' (cc_s3_public_endpoint c))"

text \<open>\<open>None\<close>: the configuration is accepted.\<close>

definition validate_config :: "(string \<Rightarrow> url option) \<Rightarrow> config \<Rightarrow> config_error option" where
  "validate_config parse_url c =
     (if 20 * GIB < cc_attachment_max_bytes c then Some AttachmentLimit
      else if cc_backup_capacity_warn_bytes c = 0 \<or> cc_backup_capacity_critical_bytes c = 0 \<or>
              cc_backup_capacity_critical_bytes c < cc_backup_capacity_warn_bytes c then Some CapacityThresholds
      else case (if cc_object_storage_backend c = S3Backend then validate_s3 parse_url c else None) of Some e \<Rightarrow> Some e
      | None \<Rightarrow>
      if \<not> cc_is_production c then None
      else if cc_database_url c = None then Some DatabaseMissing
      else if cc_jwt_secret c = ''dev-only-change-me-ledgerly-secret'' \<or> contains_str ''CHANGE_ME'' (cc_jwt_secret c)
      then Some JwtSecretDefault
      else case cc_jwt_ed25519_seed c of None \<Rightarrow> Some SeedMissing | Some seed \<Rightarrow>
      if seed = [] \<or> contains_str ''CHANGE_ME'' seed then Some SeedDefault
      else if (case cc_jwt_previous_ed25519_seed c of Some s \<Rightarrow> contains_str ''CHANGE_ME'' s | None \<Rightarrow> False) then Some PreviousSeedDefault
      else if cc_object_store_hmac_secret c = [] \<or> contains_str ''CHANGE_ME'' (cc_object_store_hmac_secret c) \<or>
              cc_object_store_hmac_secret c = ''dev-object-hmac-secret'' then Some HmacSecretDefault
      else if \<not> cc_auth_cookie_secure c then Some CookieInsecure
      else if cc_cors_allowed_origins c = [] then Some OriginsMissing
      else if list_ex (\<lambda>o'. \<not> starts_with ''https://'' o') (cc_cors_allowed_origins c) then Some OriginInsecure
      else if cc_backup_dir c \<noteq> None \<and> cc_backup_password c = None then Some BackupPasswordMissing
      else if cc_recovery_drill_enabled c \<and> cc_backup_dir c = None then Some DrillWithoutBackup
      else None)"

subsection \<open>Reading the environment\<close>

definition or_else :: "'a option \<Rightarrow> 'a \<Rightarrow> 'a" where
  "or_else x d = (case x of None \<Rightarrow> d | Some v \<Rightarrow> v)"

definition and_then :: "'e + 'a \<Rightarrow> ('a \<Rightarrow> 'e + 'b) \<Rightarrow> 'e + 'b" where
  "and_then x f = (case x of Inl e \<Rightarrow> Inl e | Inr a \<Rightarrow> f a)"

definition non_empty :: "string option \<Rightarrow> string option" where
  "non_empty x = Option.bind x (\<lambda>s. if s = [] then None else Some s)"

text \<open>A number that is missing, unreadable or zero is the default.\<close>

definition positive_or :: "nat \<Rightarrow> string option \<Rightarrow> nat" where
  "positive_or def x = or_else (Option.bind (Option.bind x (parse_unsigned 64)) (\<lambda>n. if 0 < n then Some n else None)) def"

text \<open>The values whose parsing can fail, in the order of the code.\<close>

record parsed_env =
  pa_backend :: object_store_backend
  pa_force_path_style :: bool
  pa_allow_http :: bool
  pa_attachment_max_bytes :: nat
  pa_pending_ttl_hours :: nat
  pa_warn_bytes :: nat
  pa_critical_bytes :: nat
  pa_retention_days :: nat
  pa_drill_enabled :: bool
  pa_origins :: "string list"
  pa_cookie_secure :: bool

definition parse_env :: "(string \<Rightarrow> url option) \<Rightarrow> (string \<Rightarrow> string option) \<Rightarrow> bool \<Rightarrow> config_error + parsed_env" where
  "parse_env parse_url env is_production =
     and_then (parse_object_store_backend (or_else (env ''OBJECT_STORE_BACKEND'') ''local'')) (\<lambda>backend.
     and_then (bool_env env ''S3_FORCE_PATH_STYLE'' True) (\<lambda>force_path_style.
     and_then (bool_env env ''S3_ALLOW_HTTP'' False) (\<lambda>allow_http.
     and_then (parse_positive_u64_env env ''ATTACHMENT_MAX_BYTES'' (100 * 1024 * 1024)) (\<lambda>attachment_max_bytes.
     and_then (parse_positive_u64_env env ''ATTACHMENT_PENDING_TTL_HOURS'' 24) (\<lambda>pending_ttl_hours.
     and_then (parse_positive_u64_env env ''BACKUP_CAPACITY_WARN_BYTES'' (20 * GIB)) (\<lambda>warn_bytes.
     and_then (parse_positive_u64_env env ''BACKUP_CAPACITY_CRITICAL_BYTES'' (50 * GIB)) (\<lambda>critical_bytes.
     and_then (parse_positive_u64_env env ''AUDIT_RETENTION_DAYS'' 365) (\<lambda>retention_days.
     and_then (bool_env env ''RECOVERY_DRILL_ENABLED'' False) (\<lambda>drill_enabled.
     and_then (parse_origins parse_url (or_else (env ''CORS_ALLOWED_ORIGINS'') [])) (\<lambda>origins.
     and_then (bool_env env ''AUTH_COOKIE_SECURE'' is_production) (\<lambda>cookie_secure.
       Inr \<lparr>pa_backend = backend, pa_force_path_style = force_path_style, pa_allow_http = allow_http,
            pa_attachment_max_bytes = attachment_max_bytes, pa_pending_ttl_hours = pending_ttl_hours, pa_warn_bytes = warn_bytes,
            pa_critical_bytes = critical_bytes, pa_retention_days = retention_days, pa_drill_enabled = drill_enabled,
            pa_origins = origins, pa_cookie_secure = cookie_secure\<rparr>)))))))))))"

definition config_of :: "(string \<Rightarrow> string option) \<Rightarrow> bool \<Rightarrow> parsed_env \<Rightarrow> config" where
  "config_of env is_production p =
    \<lparr>cc_listen_addr = or_else (env ''LEDGER_LISTEN'') ''0.0.0.0:8080'',
     cc_database_url = env ''DATABASE_URL'',
     cc_jwt_secret = or_else (env ''JWT_SECRET'') ''dev-only-change-me-ledgerly-secret'',
     cc_jwt_ed25519_seed = env ''JWT_ED25519_SEED'',
     cc_jwt_previous_ed25519_seed = non_empty (env ''JWT_ED25519_PREVIOUS_SEED''),
     cc_object_store_dir = or_else (env ''OBJECT_STORE_DIR'') ''/tmp/ledgerly-objects'',
     cc_object_store_hmac_secret = or_else (env ''OBJECT_STORE_HMAC_SECRET'') ''dev-object-hmac-secret'',
     cc_object_store_hmac_previous_secret = non_empty (env ''OBJECT_STORE_HMAC_PREVIOUS_SECRET''),
     cc_object_store_public_base = or_else (env ''OBJECT_STORE_PUBLIC_BASE'') ''http://127.0.0.1:8080'',
     cc_object_storage_backend = pa_backend p,
     cc_s3_endpoint = non_empty (env ''S3_ENDPOINT''),
     cc_s3_region = or_else (env ''S3_REGION'') ''us-east-1'',
     cc_s3_bucket = non_empty (env ''S3_BUCKET''),
     cc_s3_access_key_id = non_empty (env ''S3_ACCESS_KEY_ID''),
     cc_s3_secret_access_key = non_empty (env ''S3_SECRET_ACCESS_KEY''),
     cc_s3_session_token = non_empty (env ''S3_SESSION_TOKEN''),
     cc_s3_prefix = non_empty (env ''S3_PREFIX''),
     cc_s3_force_path_style = pa_force_path_style p,
     cc_s3_allow_http = pa_allow_http p,
     cc_s3_public_endpoint = non_empty (env ''S3_PUBLIC_ENDPOINT''),
     cc_attachment_max_bytes = pa_attachment_max_bytes p,
     cc_attachment_pending_ttl_hours = pa_pending_ttl_hours p,
     cc_backup_dir = env ''BACKUP_DIR'',
     cc_backup_offsite_dir = env ''BACKUP_OFFSITE_DIR'',
     cc_backup_keep = positive_or 3 (env ''BACKUP_KEEP''),
     cc_backup_interval_hours = positive_or 24 (env ''BACKUP_INTERVAL_HOURS''),
     cc_backup_password = non_empty (env ''LEDGER_BACKUP_PASSWORD''),
     cc_backup_password_previous = non_empty (env ''LEDGER_BACKUP_PASSWORD_PREVIOUS''),
     cc_backup_capacity_warn_bytes = pa_warn_bytes p,
     cc_backup_capacity_critical_bytes = pa_critical_bytes p,
     cc_audit_retention_days = pa_retention_days p,
     cc_recovery_drill_enabled = pa_drill_enabled p,
     cc_recovery_drill_interval_hours = positive_or 720 (env ''RECOVERY_DRILL_INTERVAL_HOURS''),
     cc_recovery_drill_database_url = non_empty (env ''RECOVERY_DRILL_DATABASE_URL''),
     cc_rate_limit_rps = or_else (Option.bind (env ''RATE_LIMIT_RPS'') (parse_unsigned 32)) 100,
     cc_auth_rate_limit_rps = or_else (Option.bind (env ''AUTH_RATE_LIMIT_RPS'') (parse_unsigned 32)) 20,
     cc_cors_allowed_origins = pa_origins p,
     cc_auth_cookie_secure = pa_cookie_secure p,
     cc_otel_endpoint = env ''OTEL_EXPORTER_OTLP_ENDPOINT'',
     cc_is_production = is_production\<rparr>"

definition from_env :: "(string \<Rightarrow> url option) \<Rightarrow> (string \<Rightarrow> string option) \<Rightarrow> config_error + config" where
  "from_env parse_url env =
     (let is_production = (env ''LEDGER_ENV'' = Some ''production'') in
      and_then (parse_env parse_url env is_production) (\<lambda>p.
        let c = config_of env is_production p in
        case validate_config parse_url c of Some e \<Rightarrow> Inl e | None \<Rightarrow> Inr c))"

text \<open>What the backup runs take from the configuration; \<open>components\<close> is how the file system reads a path.\<close>

definition runtime_config_of :: "(string \<Rightarrow> string list) \<Rightarrow> config \<Rightarrow> runtime_config" where
  "runtime_config_of components c =
     \<lparr>rk_backup_dir = map_option components (cc_backup_dir c), rk_backup_offsite_dir = map_option components (cc_backup_offsite_dir c),
      rk_backup_keep = cc_backup_keep c, rk_backup_password = cc_backup_password c,
      rk_backup_password_previous = cc_backup_password_previous c\<rparr>"

subsection \<open>What an accepted configuration is\<close>

lemma and_then_Inr: "and_then x f = Inr y \<longleftrightarrow> (\<exists>a. x = Inr a \<and> f a = Inr y)"
  by (cases x) (auto simp: and_then_def)

lemma parse_positive_Inr: "parse_positive_u64_env env name def = Inr n \<Longrightarrow> 0 < def \<Longrightarrow> 0 < n"
  by (auto simp: parse_positive_u64_env_def parse_unsigned_def split: option.splits if_splits)

lemma positive_or_pos: "0 < def \<Longrightarrow> 0 < positive_or def x"
  by (auto simp: positive_or_def or_else_def split: option.split bind_splits)

lemma parse_env_Inr:
  assumes "parse_env parse_url env is_production = Inr p"
  shows "0 < pa_attachment_max_bytes p" "0 < pa_pending_ttl_hours p" "0 < pa_retention_days p"
    and "parse_origins parse_url (or_else (env ''CORS_ALLOWED_ORIGINS'') []) = Inr (pa_origins p)"
proof -
  obtain m t r os where "parse_positive_u64_env env ''ATTACHMENT_MAX_BYTES'' (100 * 1024 * 1024) = Inr m" "pa_attachment_max_bytes p = m"
    "parse_positive_u64_env env ''ATTACHMENT_PENDING_TTL_HOURS'' 24 = Inr t" "pa_pending_ttl_hours p = t"
    "parse_positive_u64_env env ''AUDIT_RETENTION_DAYS'' 365 = Inr r" "pa_retention_days p = r"
    "parse_origins parse_url (or_else (env ''CORS_ALLOWED_ORIGINS'') []) = Inr os" "pa_origins p = os"
    using assms unfolding parse_env_def and_then_Inr sum.inject by (elim exE conjE, hypsubst, simp)
  then show "0 < pa_attachment_max_bytes p" "0 < pa_pending_ttl_hours p" "0 < pa_retention_days p"
    "parse_origins parse_url (or_else (env ''CORS_ALLOWED_ORIGINS'') []) = Inr (pa_origins p)"
    using parse_positive_Inr [of env "''ATTACHMENT_MAX_BYTES''" "100 * 1024 * 1024" m]
      parse_positive_Inr [of env "''ATTACHMENT_PENDING_TTL_HOURS''" 24 t] parse_positive_Inr [of env "''AUDIT_RETENTION_DAYS''" 365 r]
    by simp_all
qed

lemma from_env_Inr:
  assumes "from_env parse_url env = Inr c"
  obtains p where "parse_env parse_url env (env ''LEDGER_ENV'' = Some ''production'') = Inr p"
    "c = config_of env (env ''LEDGER_ENV'' = Some ''production'') p" "validate_config parse_url c = None"
  using assms by (auto simp: from_env_def Let_def and_then_Inr split: option.splits)

lemma collect_results_Inr: "collect_results xs = Inr ys \<Longrightarrow> y \<in> set ys \<Longrightarrow> Inr y \<in> set xs"
  by (induction xs arbitrary: ys rule: collect_results.induct) (auto elim!: map_sum_InrE)

lemma validate_endpoint_None:
  "validate_endpoint parse_url allow_http name endpoint = None \<Longrightarrow> endpoint = Some e \<Longrightarrow>
     \<exists>u. parse_url e = Some u \<and> plain_http_url u \<and> (ur_scheme u = ''https'' \<or> allow_http)"
  by (auto simp: validate_endpoint_def plain_http_url_def split: option.splits if_splits)

lemma validate_s3_None:
  assumes "validate_s3 parse_url c = None"
  shows "cc_s3_bucket c \<notin> {None, Some []}" "cc_s3_access_key_id c \<notin> {None, Some []}" "cc_s3_secret_access_key c \<notin> {None, Some []}"
    and "cc_s3_prefix c = Some p \<Longrightarrow> \<not> bad_s3_prefix p"
    and "cc_s3_endpoint c = Some e \<or> cc_s3_public_endpoint c = Some e \<Longrightarrow>
      \<exists>u. parse_url e = Some u \<and> plain_http_url u \<and> (ur_scheme u = ''https'' \<or> cc_s3_allow_http c)"
  using assms
  by (auto simp: validate_s3_def Let_def split: option.splits if_splits dest: validate_endpoint_None)

definition placeholder :: "string \<Rightarrow> bool" where
  "placeholder s \<longleftrightarrow> s = [] \<or> contains_str ''CHANGE_ME'' s"

text \<open>
  C30. A configuration that the server accepts in production is a safe one: there is a database, no secret that signs
  sessions or object URLs is missing, a default or a placeholder, cookies are secure, every origin is HTTPS and there
  is one, backups have a password and drills a backup directory; and in any environment the size of an attachment, the capacities, the times to live,
  the retention and the intervals are positive and in order (the rate limits may be zero, and nothing compares the secrets
  with each other), a clean-up keeps at least one bundle, and an S3 store has its bucket, credentials, a prefix that stays
  within the bucket and endpoints without credentials that are HTTPS unless plain HTTP is allowed.
\<close>
theorem accepted_config_safe:
  assumes "from_env parse_url env = Inr c"
  shows "cc_is_production c = (env ''LEDGER_ENV'' = Some ''production'')
    \<and> (cc_is_production c \<longrightarrow> cc_database_url c \<noteq> None \<and>
         cc_jwt_secret c \<noteq> ''dev-only-change-me-ledgerly-secret'' \<and>
         (\<exists>seed. cc_jwt_ed25519_seed c = Some seed \<and> \<not> placeholder seed) \<and>
         (\<forall>seed. cc_jwt_previous_ed25519_seed c = Some seed \<longrightarrow> \<not> placeholder seed) \<and>
         \<not> placeholder (cc_object_store_hmac_secret c) \<and> cc_object_store_hmac_secret c \<noteq> ''dev-object-hmac-secret'' \<and>
         cc_auth_cookie_secure c \<and> cc_cors_allowed_origins c \<noteq> [] \<and>
         (\<forall>o' \<in> set (cc_cors_allowed_origins c). starts_with ''https://'' o') \<and>
         (cc_backup_dir c \<noteq> None \<longrightarrow> cc_backup_password c \<notin> {None, Some []}) \<and>
         (cc_recovery_drill_enabled c \<longrightarrow> cc_backup_dir c \<noteq> None))
    \<and> (\<forall>o' \<in> set (cc_cors_allowed_origins c). \<exists>raw u. parse_url raw = Some u \<and> plain_http_url u \<and> ur_path u = ''/'' \<and> o' = ur_origin u)
    \<and> 0 < cc_attachment_max_bytes c \<and> cc_attachment_max_bytes c \<le> 20 * GIB
    \<and> 0 < cc_backup_capacity_warn_bytes c \<and> cc_backup_capacity_warn_bytes c \<le> cc_backup_capacity_critical_bytes c
    \<and> 0 < cc_attachment_pending_ttl_hours c \<and> 0 < cc_audit_retention_days c
    \<and> 0 < cc_backup_keep c \<and> 0 < cc_backup_interval_hours c \<and> 0 < cc_recovery_drill_interval_hours c
    \<and> (cc_object_storage_backend c = S3Backend \<longrightarrow>
         cc_s3_bucket c \<notin> {None, Some []} \<and> cc_s3_access_key_id c \<notin> {None, Some []} \<and> cc_s3_secret_access_key c \<notin> {None, Some []} \<and>
         (\<forall>p. cc_s3_prefix c = Some p \<longrightarrow> \<not> list_ex bad_segment (split_on (CHR ''/'') p)) \<and>
         (\<forall>e. cc_s3_endpoint c = Some e \<or> cc_s3_public_endpoint c = Some e \<longrightarrow>
            (\<exists>u. parse_url e = Some u \<and> plain_http_url u \<and> (ur_scheme u = ''https'' \<or> cc_s3_allow_http c))))"
proof -
  obtain p where p: "parse_env parse_url env (env ''LEDGER_ENV'' = Some ''production'') = Inr p"
    and c: "c = config_of env (env ''LEDGER_ENV'' = Some ''production'') p" and v: "validate_config parse_url c = None"
    by (rule from_env_Inr [OF assms])
  have prod: "cc_is_production c = (env ''LEDGER_ENV'' = Some ''production'')" by (simp add: c config_of_def)
  have pw: "cc_backup_password c \<noteq> Some []" "cc_jwt_previous_ed25519_seed c \<noteq> Some []"
    by (auto simp: c config_of_def non_empty_def split: bind_splits)
  have s3: "validate_s3 parse_url c = None" if "cc_object_storage_backend c = S3Backend"
    using v that by (auto simp: validate_config_def split: option.splits if_splits)
  have sizes: "cc_attachment_max_bytes c \<le> 20 * GIB" "0 < cc_backup_capacity_warn_bytes c"
    "cc_backup_capacity_warn_bytes c \<le> cc_backup_capacity_critical_bytes c"
    using v by (auto simp: validate_config_def split: option.splits if_splits)
  have secure: "cc_database_url c \<noteq> None \<and> cc_jwt_secret c \<noteq> ''dev-only-change-me-ledgerly-secret'' \<and>
      (\<exists>seed. cc_jwt_ed25519_seed c = Some seed \<and> \<not> placeholder seed) \<and>
      (\<forall>seed. cc_jwt_previous_ed25519_seed c = Some seed \<longrightarrow> \<not> placeholder seed) \<and>
      \<not> placeholder (cc_object_store_hmac_secret c) \<and> cc_object_store_hmac_secret c \<noteq> ''dev-object-hmac-secret'' \<and>
      cc_auth_cookie_secure c \<and> cc_cors_allowed_origins c \<noteq> [] \<and> list_all (\<lambda>o'. starts_with ''https://'' o') (cc_cors_allowed_origins c) \<and>
      (cc_backup_dir c \<noteq> None \<longrightarrow> cc_backup_password c \<noteq> None) \<and> (cc_recovery_drill_enabled c \<longrightarrow> cc_backup_dir c \<noteq> None)"
    if "cc_is_production c"
    using v that pw(2) by (auto simp: validate_config_def placeholder_def list_all_iff list_ex_iff split: option.splits if_splits)
  have origins: "\<exists>raw u. parse_url raw = Some u \<and> plain_http_url u \<and> ur_path u = ''/'' \<and> o' = ur_origin u"
    if "o' \<in> set (cc_cors_allowed_origins c)" for o'
  proof -
    have "o' \<in> set (pa_origins p)" using that by (simp add: c config_of_def)
    then obtain raw where "parse_origin parse_url raw = Inr o'"
      using collect_results_Inr parse_env_Inr(4) [OF p] by (fastforce simp: parse_origins_def)
    then show ?thesis by (auto simp: parse_origin_def split: option.splits if_splits)
  qed
  have pos: "0 < cc_attachment_max_bytes c" "0 < cc_attachment_pending_ttl_hours c" "0 < cc_audit_retention_days c"
    "0 < cc_backup_keep c" "0 < cc_backup_interval_hours c" "0 < cc_recovery_drill_interval_hours c"
    using parse_env_Inr [OF p] by (simp_all add: c config_of_def positive_or_pos)
  have s3_ok: "cc_s3_bucket c \<notin> {None, Some []} \<and> cc_s3_access_key_id c \<notin> {None, Some []} \<and> cc_s3_secret_access_key c \<notin> {None, Some []} \<and>
      (\<forall>p. cc_s3_prefix c = Some p \<longrightarrow> \<not> list_ex bad_segment (split_on (CHR ''/'') p)) \<and>
      (\<forall>e. cc_s3_endpoint c = Some e \<or> cc_s3_public_endpoint c = Some e \<longrightarrow>
         (\<exists>u. parse_url e = Some u \<and> plain_http_url u \<and> (ur_scheme u = ''https'' \<or> cc_s3_allow_http c)))"
    if "cc_object_storage_backend c = S3Backend"
    using validate_s3_None [OF s3 [OF that]] unfolding bad_s3_prefix_def by blast
  show ?thesis
    using prod secure sizes origins pos s3_ok pw(1) by (simp add: list_all_iff)
qed

subsection \<open>A password that is too short\<close>

text \<open>
  A backup password of fewer than eight bytes is accepted, in production too, but with it no backup run ever
  succeeds: each one fails and leaves no bundle.
\<close>
theorem short_backup_password_fails:
  assumes "from_env parse_url env = Inr c" and "env ''LEDGER_BACKUP_PASSWORD'' = Some password" and "password \<noteq> []" and "length password < 8"
  shows "\<exists>e. run_backup_steps lib (runtime_config_of components c) en w = (Inl e, w)"
proof -
  obtain p where "c = config_of env (env ''LEDGER_ENV'' = Some ''production'') p" by (rule from_env_Inr [OF assms(1)])
  then have "rk_backup_password (runtime_config_of components c) = Some password"
    using assms(2,3) by (simp add: runtime_config_of_def config_of_def non_empty_def)
  then show ?thesis
    using assms(4) by (auto simp: run_backup_steps_def create_backup_bundle_def split: option.split sum.split)
qed

definition ex_url :: "string \<Rightarrow> url option" where
  "ex_url s = (if s = ''https://app.example'' then Some \<lparr>ur_scheme = ''https'', ur_host = Some ''app.example'', ur_username = [],
     ur_password = None, ur_query = None, ur_fragment = None, ur_path = ''/'', ur_origin = ''https://app.example''\<rparr> else None)"

definition ex_settings :: "string \<Rightarrow> string option" where
  "ex_settings = map_of [(''LEDGER_ENV'', ''production''), (''DATABASE_URL'', ''postgres''), (''JWT_SECRET'', ''j''),
     (''JWT_ED25519_SEED'', ''s''), (''OBJECT_STORE_HMAC_SECRET'', ''h''), (''CORS_ALLOWED_ORIGINS'', ''https://app.example''),
     (''BACKUP_DIR'', ''/backup''), (''LEDGER_BACKUP_PASSWORD'', ''short'')]"

definition ex_accepted :: config where
  "ex_accepted = projr (from_env ex_url ex_settings)"

lemma ex_accepted: "from_env ex_url ex_settings = Inr ex_accepted"
proof -
  have parsed: "parse_origins ex_url ''https://app.example'' = Inr [''https://app.example'']" "parse_object_store_backend ''local'' = Inr LocalBackend"
    by code_simp+
  have "\<not> isl (from_env ex_url ex_settings)"
    by (simp add: from_env_def parse_env_def and_then_def bool_env_def parse_positive_u64_env_def or_else_def Let_def parsed
        ex_settings_def config_of_def validate_config_def non_empty_def GIB_def starts_with_def)
  then show ?thesis unfolding ex_accepted_def by (metis sum.collapse(2))
qed

theorem accepted_config_safe_witness:
  "cc_is_production ex_accepted \<and> cc_auth_cookie_secure ex_accepted \<and> 0 < cc_backup_keep ex_accepted"
  using accepted_config_safe [OF ex_accepted] by (simp add: ex_settings_def)

theorem short_backup_password_fails_witness:
  "\<forall>lib components en w. \<exists>e. run_backup_steps lib (runtime_config_of components ex_accepted) en w = (Inl e, w)"
  using short_backup_password_fails [OF ex_accepted, of "''short''"] by (simp add: ex_settings_def)

end
