(* ===== verification/Object_S3.thy ===== *)
theory Object_S3
  imports Attachment_Laws Config
begin

section \<open>The S3 backend (infrastructure/object_store.rs)\<close>

text \<open>
  The calls of the object store when it is a bucket: every operation of the backend, the backup of a bucket into a
  directory, its restoration object by object, and the migration of local files. The client of the bucket
  is another crate: a record of functions over a state of its own, which also stands for the network, so that a call may
  fail in one state and pass in the next. What its documentation promises is \<open>s3_laws\<close>. \<open>ObjectPath::from\<close>,
  SHA-256 and the signing of URLs are arguments. Metrics are left out.
\<close>

subsection \<open>The client\<close>

datatype s3_error = S3NotFound | S3Failed

record 's s3_client =
  s3_put :: "string \<Rightarrow> bytes \<Rightarrow> 's \<Rightarrow> (s3_error + unit) \<times> 's"
  s3_get :: "string \<Rightarrow> 's \<Rightarrow> s3_error + bytes"
  s3_head :: "string \<Rightarrow> 's \<Rightarrow> s3_error + nat"
  s3_list :: "string option \<Rightarrow> 's \<Rightarrow> s3_error + string list"
  s3_list_with_delimiter :: "string option \<Rightarrow> 's \<Rightarrow> s3_error + unit"
  s3_delete :: "string \<Rightarrow> 's \<Rightarrow> (s3_error + unit) \<times> 's"
  s3_create_multipart :: "string \<Rightarrow> 's \<Rightarrow> (s3_error + string) \<times> 's"
  s3_put_part :: "string \<Rightarrow> string \<Rightarrow> nat \<Rightarrow> bytes \<Rightarrow> 's \<Rightarrow> (s3_error + string) \<times> 's"
  s3_complete_multipart :: "string \<Rightarrow> string \<Rightarrow> string list \<Rightarrow> 's \<Rightarrow> (s3_error + unit) \<times> 's"
  s3_abort_multipart :: "string \<Rightarrow> string \<Rightarrow> 's \<Rightarrow> (s3_error + unit) \<times> 's"
  s3_signed_url :: "string \<Rightarrow> string \<Rightarrow> nat \<Rightarrow> s3_error + string"

record s3_env =
  se_object_path :: "string \<Rightarrow> string"
  se_sha256 :: "bytes \<Rightarrow> string"
  se_prefix :: "string option"

text \<open>Every error but a missing object is handed on as it is.\<close>

definition remote :: "s3_error + 'a \<Rightarrow> 'a store_result" where
  "remote r = map_sum (\<lambda>_. RemoteFailed) (\<lambda>x. x) r"

definition if_found :: "s3_error + 'a \<Rightarrow> 'a option store_result" where
  "if_found r = (case r of Inr x \<Rightarrow> Inr (Some x) | Inl S3NotFound \<Rightarrow> Inr None | Inl S3Failed \<Rightarrow> Inl RemoteFailed)"

definition s3_object_path :: "s3_env \<Rightarrow> string \<Rightarrow> string store_result" where
  "s3_object_path env object_key =
     (case validated_key object_key of None \<Rightarrow> Inl InvalidKey
      | Some key \<Rightarrow> Inr (se_object_path env (case se_prefix env of Some p \<Rightarrow> p @ ''/'' @ key | None \<Rightarrow> key)))"

subsection \<open>Objects\<close>

definition s3_put_bytes :: "'s s3_client \<Rightarrow> s3_env \<Rightarrow> string \<Rightarrow> bytes \<Rightarrow> 's \<Rightarrow> unit store_result \<times> 's" where
  "s3_put_bytes cl env object_key body s =
     (case s3_object_path env object_key of Inl e \<Rightarrow> (Inl e, s) | Inr path \<Rightarrow> apfst remote (s3_put cl path body s))"

definition s3_get_bytes :: "'s s3_client \<Rightarrow> s3_env \<Rightarrow> string \<Rightarrow> 's \<Rightarrow> bytes option store_result" where
  "s3_get_bytes cl env object_key s =
     (case s3_object_path env object_key of Inl e \<Rightarrow> Inl e | Inr path \<Rightarrow> if_found (s3_get cl path s))"

definition s3_object_size :: "'s s3_client \<Rightarrow> s3_env \<Rightarrow> string \<Rightarrow> 's \<Rightarrow> nat option store_result" where
  "s3_object_size cl env object_key s =
     (case s3_object_path env object_key of Inl e \<Rightarrow> Inl e | Inr path \<Rightarrow> if_found (s3_head cl path s))"

definition s3_object_exists :: "'s s3_client \<Rightarrow> s3_env \<Rightarrow> string \<Rightarrow> 's \<Rightarrow> bool store_result" where
  "s3_object_exists cl env object_key s = map_sum (\<lambda>e. e) (\<lambda>x. x \<noteq> None) (s3_object_size cl env object_key s)"

definition s3_object_metadata :: "'s s3_client \<Rightarrow> s3_env \<Rightarrow> string \<Rightarrow> 's \<Rightarrow> stored_object_metadata store_result" where
  "s3_object_metadata cl env object_key s =
     (case validated_key object_key of None \<Rightarrow> Inl InvalidKey | Some key \<Rightarrow>
      (case s3_object_path env key of Inl e \<Rightarrow> Inl e | Inr path \<Rightarrow>
       (case s3_get cl path s of
          Inr content \<Rightarrow> Inr (metadata_for_path (se_sha256 env) key content)
        | Inl S3NotFound \<Rightarrow> Inl ObjectMissing
        | Inl S3Failed \<Rightarrow> Inl RemoteFailed)))"

text \<open>The keys below the prefix; a location without it is passed over.\<close>

fun s3_keys :: "string option \<Rightarrow> string list \<Rightarrow> string list store_result" where
  "s3_keys prefix [] = Inr []"
| "s3_keys prefix (location # locations) =
     (let key = (case prefix of
                   Some p \<Rightarrow> (case strip_prefix (p @ ''/'') location of Some key \<Rightarrow> key | None \<Rightarrow> [])
                 | None \<Rightarrow> location) in
      if key = [] then s3_keys prefix locations
      else case validated_key key of
        None \<Rightarrow> Inl InvalidKey
      | Some key \<Rightarrow> map_sum (\<lambda>e. e) ((#) key) (s3_keys prefix locations))"

definition s3_list_keys :: "'s s3_client \<Rightarrow> s3_env \<Rightarrow> 's \<Rightarrow> string list store_result" where
  "s3_list_keys cl env s =
     (case s3_list cl (map_option (se_object_path env) (se_prefix env)) s of
        Inl _ \<Rightarrow> Inl RemoteFailed
      | Inr locations \<Rightarrow> map_sum (\<lambda>e. e) sort (s3_keys (se_prefix env) locations))"

definition s3_health_check :: "'s s3_client \<Rightarrow> s3_env \<Rightarrow> 's \<Rightarrow> unit store_result" where
  "s3_health_check cl env s = remote (s3_list_with_delimiter cl (map_option (se_object_path env) (se_prefix env)) s)"

definition s3_delete_object :: "'s s3_client \<Rightarrow> s3_env \<Rightarrow> string \<Rightarrow> 's \<Rightarrow> unit store_result \<times> 's" where
  "s3_delete_object cl env object_key s =
     (case s3_object_path env object_key of Inl e \<Rightarrow> (Inl e, s) | Inr path \<Rightarrow> apfst remote (s3_delete cl path s))"

definition s3_direct_url :: "'s s3_client \<Rightarrow> s3_env \<Rightarrow> string \<Rightarrow> string \<Rightarrow> nat \<Rightarrow> string option store_result" where
  "s3_direct_url cl env method object_key ttl_secs =
     (case s3_object_path env object_key of Inl e \<Rightarrow> Inl e
      | Inr path \<Rightarrow> map_sum (\<lambda>e. e) Some (remote (s3_signed_url cl method path ttl_secs)))"

subsection \<open>Multipart uploads\<close>

definition s3_start_multipart :: "'s s3_client \<Rightarrow> s3_env \<Rightarrow> string \<Rightarrow> 's \<Rightarrow> string option store_result \<times> 's" where
  "s3_start_multipart cl env object_key s =
     (case s3_object_path env object_key of Inl e \<Rightarrow> (Inl e, s)
      | Inr path \<Rightarrow> apfst (\<lambda>r. map_sum (\<lambda>e. e) Some (remote r)) (s3_create_multipart cl path s))"

definition with_upload :: "s3_env \<Rightarrow> string \<Rightarrow> string option \<Rightarrow> (string \<Rightarrow> string \<Rightarrow> 's \<Rightarrow> (s3_error + 'a) \<times> 's) \<Rightarrow> 's \<Rightarrow>
    'a store_result \<times> 's" where
  "with_upload env object_key upload_id f s =
     (case upload_id of None \<Rightarrow> (Inl UploadIdMissing, s) | Some u \<Rightarrow>
      (case s3_object_path env object_key of Inl e \<Rightarrow> (Inl e, s) | Inr path \<Rightarrow> apfst remote (f path u s)))"

definition s3_put_multipart_part :: "'s s3_client \<Rightarrow> s3_env \<Rightarrow> string \<Rightarrow> string option \<Rightarrow> nat \<Rightarrow> bytes \<Rightarrow> 's \<Rightarrow>
    string store_result \<times> 's" where
  "s3_put_multipart_part cl env object_key upload_id part_number body =
     with_upload env object_key upload_id (\<lambda>path u. s3_put_part cl path u part_number body)"

definition s3_complete_upload :: "'s s3_client \<Rightarrow> s3_env \<Rightarrow> string \<Rightarrow> string option \<Rightarrow> string list \<Rightarrow> 's \<Rightarrow>
    unit store_result \<times> 's" where
  "s3_complete_upload cl env object_key upload_id part_ids =
     with_upload env object_key upload_id (\<lambda>path u. s3_complete_multipart cl path u part_ids)"

definition s3_abort_upload :: "'s s3_client \<Rightarrow> s3_env \<Rightarrow> string \<Rightarrow> string option \<Rightarrow> 's \<Rightarrow> unit store_result \<times> 's" where
  "s3_abort_upload cl env object_key upload_id s =
     (if upload_id = None then (Inr (), s) else with_upload env object_key upload_id (s3_abort_multipart cl) s)"

text \<open>The address of the bucket in a URL for a part; \<open>sign_part\<close> parses the URL, adds the query and signs it.\<close>

definition s3_part_endpoint :: "config \<Rightarrow> string \<Rightarrow> string" where
  "s3_part_endpoint c bucket =
     (case (cc_s3_public_endpoint c, cc_s3_endpoint c) of
        (Some endpoint, _) \<Rightarrow>
          trim_end_char (CHR ''/'') endpoint @ (if cc_s3_force_path_style c then ''/'' @ bucket else [])
      | (None, Some endpoint) \<Rightarrow>
          trim_end_char (CHR ''/'') endpoint @ (if cc_s3_force_path_style c then ''/'' @ bucket else [])
      | (None, None) \<Rightarrow>
          if cc_s3_force_path_style c then ''https://s3.'' @ cc_s3_region c @ ''.amazonaws.com/'' @ bucket
          else ''https://'' @ bucket @ ''.s3.'' @ cc_s3_region c @ ''.amazonaws.com'')"

definition presign_s3_multipart_part_url :: "(string \<Rightarrow> nat \<Rightarrow> string \<Rightarrow> nat \<Rightarrow> string option) \<Rightarrow> config \<Rightarrow> string \<Rightarrow> string \<Rightarrow>
    nat \<Rightarrow> nat \<Rightarrow> string store_result" where
  "presign_s3_multipart_part_url sign_part c path upload_id part_number ttl_secs =
     (if part_number = 0 then Inl InvalidPartId
      else case cc_s3_bucket c of None \<Rightarrow> Inl NotConfigured | Some bucket \<Rightarrow>
      if cc_s3_access_key_id c = None \<or> cc_s3_secret_access_key c = None then Inl NotConfigured
      else case sign_part (s3_part_endpoint c bucket @ ''/'' @ path) part_number upload_id ttl_secs of
        None \<Rightarrow> Inl RemoteFailed
      | Some url \<Rightarrow> Inr url)"

definition s3_part_upload_url :: "(string \<Rightarrow> nat \<Rightarrow> string \<Rightarrow> nat \<Rightarrow> string option) \<Rightarrow> config \<Rightarrow> s3_env \<Rightarrow> string \<Rightarrow> string option \<Rightarrow>
    nat \<Rightarrow> nat \<Rightarrow> string option store_result" where
  "s3_part_upload_url sign_part c env object_key upload_id part_number ttl_secs =
     (case upload_id of None \<Rightarrow> Inl UploadIdMissing | Some u \<Rightarrow>
      (case s3_object_path env object_key of Inl e \<Rightarrow> Inl e
       | Inr path \<Rightarrow> map_sum (\<lambda>e. e) Some (presign_s3_multipart_part_url sign_part c path u part_number ttl_secs)))"

text \<open>The bucket as the handlers of attachments see it.\<close>

definition s3_ops :: "'s s3_client \<Rightarrow> s3_env \<Rightarrow> (string \<Rightarrow> nat \<Rightarrow> string \<Rightarrow> nat \<Rightarrow> string option) \<Rightarrow> config \<Rightarrow>
    (string \<Rightarrow> string \<Rightarrow> nat \<Rightarrow> string) \<Rightarrow> 's store_ops" where
  "s3_ops cl env sign_part c url =
     \<lparr>so_is_s3 = True, so_start = s3_start_multipart cl env, so_put_part = s3_put_multipart_part cl env,
      so_complete = s3_complete_upload cl env, so_abort = s3_abort_upload cl env, so_delete = s3_delete_object cl env,
      so_size = s3_object_size cl env, so_metadata = s3_object_metadata cl env, so_direct_url = s3_direct_url cl env,
      so_part_url = s3_part_upload_url sign_part c env, so_sign_url = url\<rparr>"

subsection \<open>Backup\<close>

text \<open>
  The backup is written to a local directory, which cannot hold a file and a directory of one name
  (\<open>path_conflict\<close>), as a bucket can.
\<close>

fun backup_s3_objects :: "'s s3_client \<Rightarrow> s3_env \<Rightarrow> 's \<Rightarrow> string list \<Rightarrow> stored_object_metadata list \<Rightarrow> nat \<Rightarrow>
    (string, bytes) hashmap \<Rightarrow> (backup_error + (stored_object_metadata list \<times> nat)) \<times> (string, bytes) hashmap" where
  "backup_s3_objects cl env s [] objects total_size_bytes dest = (Inr (objects, total_size_bytes), dest)"
| "backup_s3_objects cl env s (key # keys) objects total_size_bytes dest =
     (case s3_get_bytes cl env key s of
        Inl e \<Rightarrow> (Inl (StoreFailed e), dest)
      | Inr None \<Rightarrow> (Inl Disappeared, dest)
      | Inr (Some content) \<Rightarrow>
          if path_conflict dest key then (Inl WriteFailed, dest)
          else let metadata = metadata_for_path (se_sha256 env) key content in
            backup_s3_objects cl env s keys (objects @ [metadata]) (u64_sat_add total_size_bytes (som_size_bytes metadata))
              (hm_insert key content dest))"

definition prepare_object_backup_output :: "out_dir \<Rightarrow> (backup_error + unit)" where
  "prepare_object_backup_output out = (if out = OutNonEmpty then Inl OutputNotEmpty else Inr ())"

definition write_object_store_manifest :: "(object_store_backup_manifest \<Rightarrow> 'm) \<Rightarrow> string \<Rightarrow> stored_object_metadata list \<Rightarrow> nat \<Rightarrow>
    (string, bytes) hashmap \<Rightarrow> (backup_error + object_store_backup_report) \<times> 'm backup_dir" where
  "write_object_store_manifest encode created_at objects total_size_bytes dest =
     (let manifest = \<lparr>om_kind = OBJECT_STORE_BACKUP_KIND, om_schema_version = OBJECT_STORE_BACKUP_SCHEMA_VERSION,
            om_created_at = created_at, om_object_count = length objects, om_total_size_bytes = total_size_bytes,
            om_objects = objects\<rparr> in
      (Inr (manifest_report manifest), \<lparr>bd_manifest = Some (encode manifest), bd_objects = dest\<rparr>))"

definition backup_s3_object_store :: "'s s3_client \<Rightarrow> s3_env \<Rightarrow> (object_store_backup_manifest \<Rightarrow> 'm) \<Rightarrow> out_dir \<Rightarrow> string \<Rightarrow> 's \<Rightarrow>
    (backup_error + object_store_backup_report) \<times> 'm backup_dir" where
  "backup_s3_object_store cl env encode out created_at s =
     (let written = (\<lambda>objects. \<lparr>bd_manifest = None, bd_objects = objects\<rparr>) in
      case prepare_object_backup_output out of Inl e \<Rightarrow> (Inl e, written []) | Inr _ \<Rightarrow>
      case s3_list_keys cl env s of
        Inl e \<Rightarrow> (Inl (StoreFailed e), written [])
      | Inr keys \<Rightarrow>
          (case backup_s3_objects cl env s keys [] 0 [] of
             (Inl e, dest) \<Rightarrow> (Inl e, written dest)
           | (Inr (objects, total_size_bytes), dest) \<Rightarrow> write_object_store_manifest encode created_at objects total_size_bytes dest))"

lemmas s3_backup_defs = backup_s3_object_store_def prepare_object_backup_output_def write_object_store_manifest_def

subsection \<open>Restoration\<close>

text \<open>Each object is written and read again; there is no directory to swap, so a failure leaves what is done.\<close>

fun restore_s3_objects :: "'s s3_client \<Rightarrow> s3_env \<Rightarrow> (string, bytes) hashmap \<Rightarrow> stored_object_metadata list \<Rightarrow> 's \<Rightarrow>
    (backup_error + unit) \<times> 's" where
  "restore_s3_objects cl env files [] s = (Inr (), s)"
| "restore_s3_objects cl env files (object # objects) s =
     (case hm_get files (som_key object) of None \<Rightarrow> (Inl FileMissing, s) | Some content \<Rightarrow>
      case s3_put_bytes cl env (som_key object) content s of
        (Inl e, s') \<Rightarrow> (Inl (StoreFailed e), s')
      | (Inr _, s') \<Rightarrow>
          (case s3_object_metadata cl env (som_key object) s' of
             Inl e \<Rightarrow> (Inl (StoreFailed e), s')
           | Inr restored \<Rightarrow>
               if restored \<noteq> object then (Inl MetadataMismatch, s') else restore_s3_objects cl env files objects s'))"

definition restore_s3_object_store :: "'s s3_client \<Rightarrow> s3_env \<Rightarrow> ('m \<Rightarrow> object_store_backup_manifest option) \<Rightarrow> 'm backup_dir \<Rightarrow> 's \<Rightarrow>
    (backup_error + object_store_backup_report) \<times> 's" where
  "restore_s3_object_store cl env decode dir s =
     (case verify_object_store_backup (se_sha256 env) decode dir of Inl e \<Rightarrow> (Inl e, s) | Inr verification \<Rightarrow>
      case read_object_store_manifest decode dir of Inl e \<Rightarrow> (Inl e, s) | Inr manifest \<Rightarrow>
      (case restore_s3_objects cl env (bd_objects dir) (om_objects manifest) s of
         (Inl e, s') \<Rightarrow> (Inl e, s') | (Inr _, s') \<Rightarrow> (Inr verification, s')))"

subsection \<open>Migration\<close>

record object_store_migration_report =
  mg_scanned_objects :: nat
  mg_uploaded_objects :: nat
  mg_skipped_objects :: nat
  mg_uploaded_bytes :: nat
  mg_dry_run :: bool

definition count_upload :: "nat \<Rightarrow> object_store_migration_report \<Rightarrow> object_store_migration_report" where
  "count_upload size_bytes r = r\<lparr>mg_uploaded_objects := mg_uploaded_objects r + 1,
     mg_uploaded_bytes := u64_sat_add (mg_uploaded_bytes r) size_bytes\<rparr>"

text \<open>One file: it is put and read again, unless the bucket has it already.\<close>

definition already_migrated :: "'s s3_client \<Rightarrow> s3_env \<Rightarrow> string \<Rightarrow> stored_object_metadata \<Rightarrow> 's \<Rightarrow> bool store_result" where
  "already_migrated cl env key local s =
     (case s3_object_exists cl env key s of Inl e \<Rightarrow> Inl e | Inr there \<Rightarrow>
      if there then map_sum (\<lambda>e. e) (\<lambda>remote. remote = local) (s3_object_metadata cl env key s) else Inr False)"

definition migrate_object :: "'s s3_client \<Rightarrow> s3_env \<Rightarrow> string \<Rightarrow> bytes \<Rightarrow> object_store_migration_report \<Rightarrow> 's \<Rightarrow>
    (backup_error + object_store_migration_report) \<times> 's" where
  "migrate_object cl env key content report s =
     (let local = metadata_for_path (se_sha256 env) key content in
      case already_migrated cl env key local s of
        Inl e \<Rightarrow> (Inl (StoreFailed e), s)
      | Inr True \<Rightarrow> (Inr (report\<lparr>mg_skipped_objects := mg_skipped_objects report + 1\<rparr>), s)
      | Inr False \<Rightarrow>
          (case s3_put_bytes cl env key content s of
             (Inl e, s') \<Rightarrow> (Inl (StoreFailed e), s')
           | (Inr _, s') \<Rightarrow>
               (case s3_object_metadata cl env key s' of
                  Inl e \<Rightarrow> (Inl (StoreFailed e), s')
                | Inr copied \<Rightarrow>
                    if copied \<noteq> local then (Inl MetadataMismatch, s')
                    else (Inr (count_upload (som_size_bytes local) report), s'))))"

fun migrate_objects :: "'s s3_client \<Rightarrow> s3_env \<Rightarrow> bool \<Rightarrow> (string \<times> bytes) list \<Rightarrow> object_store_migration_report \<Rightarrow> 's \<Rightarrow>
    (backup_error + object_store_migration_report) \<times> 's" where
  "migrate_objects cl env dry_run [] report s = (Inr report, s)"
| "migrate_objects cl env dry_run ((key, content) # files) report s =
     (let report = report\<lparr>mg_scanned_objects := mg_scanned_objects report + 1\<rparr> in
      if dry_run then migrate_objects cl env dry_run files (count_upload (length content) report) s
      else case migrate_object cl env key content report s of
        (Inl e, s') \<Rightarrow> (Inl e, s')
      | (Inr report, s') \<Rightarrow> migrate_objects cl env dry_run files report s')"

definition migrate_local_object_store_to_s3 :: "'s s3_client \<Rightarrow> s3_env \<Rightarrow> bool \<Rightarrow> (string \<times> fs_node) list option \<Rightarrow> bool \<Rightarrow> 's \<Rightarrow>
    (backup_error + object_store_migration_report) \<times> 's" where
  "migrate_local_object_store_to_s3 cl env is_s3 source_dir dry_run s =
     (if \<not> is_s3 then (Inl NotS3, s)
      else case source_dir of None \<Rightarrow> (Inl SourceNotDirectory, s) | Some source \<Rightarrow>
      case (if dry_run then Inr () else s3_health_check cl env s) of Inl e \<Rightarrow> (Inl (StoreFailed e), s) | Inr _ \<Rightarrow>
      case collect_files [] source of Inl e \<Rightarrow> (Inl e, s) | Inr files \<Rightarrow>
        migrate_objects cl env dry_run (sort_key fst files)
          \<lparr>mg_scanned_objects = 0, mg_uploaded_objects = 0, mg_skipped_objects = 0, mg_uploaded_bytes = 0, mg_dry_run = dry_run\<rparr> s)"

end
