(* ===== verification/S3_Laws.thy ===== *)
theory S3_Laws
  imports Object_S3
begin

section \<open>What the S3 backend guarantees\<close>

text \<open>
  Backups of a bucket and their restoration, migration, and completed uploads, under what the documentation of the client
  and of S3 promises: reads see the last completed write, a write replaces a whole object or nothing, and a listing
  has the locations below its prefix, each once.
\<close>

definition s3_laws :: "'s s3_client \<Rightarrow> ('s \<Rightarrow> string \<Rightarrow> bytes option) \<Rightarrow> bool" where
  "s3_laws cl content \<longleftrightarrow>
     (\<forall>p s b. s3_get cl p s = Inr b \<longrightarrow> content s p = Some b) \<and>
     (\<forall>p s. s3_get cl p s = Inl S3NotFound \<longrightarrow> content s p = None) \<and>
     (\<forall>p s n. s3_head cl p s = Inr n \<longrightarrow> (\<exists>b. content s p = Some b \<and> length b = n)) \<and>
     (\<forall>p s. s3_head cl p s = Inl S3NotFound \<longrightarrow> content s p = None) \<and>
     (\<forall>pre s ps. s3_list cl pre s = Inr ps \<longrightarrow> distinct ps \<and>
        (\<forall>p. p \<in> set ps \<longleftrightarrow> content s p \<noteq> None \<and> (case pre of None \<Rightarrow> True | Some q \<Rightarrow> starts_with (q @ ''/'') p))) \<and>
     (\<forall>p b s s'. s3_put cl p b s = (Inr (), s') \<longrightarrow> content s' = (content s)(p := Some b)) \<and>
     (\<forall>p b s e s'. s3_put cl p b s = (Inl e, s') \<longrightarrow> content s' = content s \<or> content s' = (content s)(p := Some b))"

text \<open>A service that answers every call.\<close>

definition s3_up :: "'s s3_client \<Rightarrow> ('s \<Rightarrow> string \<Rightarrow> bytes option) \<Rightarrow> bool" where
  "s3_up cl content \<longleftrightarrow> (\<forall>p b s. fst (s3_put cl p b s) = Inr ()) \<and> (\<forall>p s b. content s p = Some b \<longrightarrow> s3_get cl p s = Inr b)"

definition bucket_path :: "string option \<Rightarrow> string \<Rightarrow> string" where
  "bucket_path prefix key = (case prefix of Some p \<Rightarrow> p @ ''/'' @ key | None \<Rightarrow> key)"

definition location :: "s3_env \<Rightarrow> string \<Rightarrow> string" where
  "location env key = se_object_path env (bucket_path (se_prefix env) key)"

definition valid_key :: "string \<Rightarrow> bool" where
  "valid_key k \<longleftrightarrow> validated_key k = Some k"

text \<open>Distinct keys have distinct locations.\<close>

definition locations_apart :: "s3_env \<Rightarrow> bool" where
  "locations_apart env \<longleftrightarrow> inj_on (se_object_path env) (Collect valid_key) \<and> (\<forall>p. se_prefix env = Some p \<longrightarrow> valid_key p)"

lemma not_valid_Nil: "\<not> valid_key []"
  by (simp add: valid_key_def validated_key_def)

lemma s3_object_path_valid: "valid_key k \<Longrightarrow> s3_object_path env k = Inr (location env k)"
  by (simp add: valid_key_def s3_object_path_def location_def bucket_path_def)

lemma bucket_path_valid:
  assumes "\<forall>p. prefix = Some p \<longrightarrow> valid_key p" and "valid_key k"
  shows "valid_key (bucket_path prefix k)"
proof (cases prefix)
  case None
  then show ?thesis using assms(2) by (simp add: bucket_path_def)
next
  case (Some p)
  then have "valid_key p" using assms(1) by simp
  then have "p \<noteq> []" "hd p \<noteq> CHR ''/''" "CHR 0x5C \<notin> set p" "\<not> list_ex bad_segment (split_on (CHR ''/'') p)"
    using trim_start_char_hd [of "CHR ''/''" p] by (auto simp: valid_key_def validated_key_Some)
  moreover have "CHR 0x5C \<notin> set k" "\<not> list_ex bad_segment (split_on (CHR ''/'') k)"
    using assms(2) by (auto simp: valid_key_def validated_key_Some)
  ultimately show ?thesis
    by (simp add: valid_key_def validated_key_Some bucket_path_def Some split_on_Cons_append trim_start_char_id)
qed

lemma location_inject:
  assumes "locations_apart env" and "valid_key k" and "valid_key k'"
  shows "location env k = location env k' \<longleftrightarrow> k = k'"
  using assms bucket_path_valid [of "se_prefix env" k] bucket_path_valid [of "se_prefix env" k']
  by (auto simp: locations_apart_def location_def inj_on_def bucket_path_def split: option.splits)

subsection \<open>Reading and writing\<close>

lemma s3_head_found: "s3_laws cl content \<Longrightarrow> s3_head cl p s = Inr n \<Longrightarrow> map_option length (content s p) = Some n"
  unfolding s3_laws_def by (metis option.simps(9))

lemma s3_head_missing: "s3_laws cl content \<Longrightarrow> s3_head cl p s = Inl S3NotFound \<Longrightarrow> content s p = None"
  by (simp add: s3_laws_def)

lemma s3_get_bytes_Inr:
  assumes "s3_laws cl content" and "valid_key k" and "s3_get_bytes cl env k s = Inr x"
  shows "x = content s (location env k)"
  using assms by (auto simp: s3_get_bytes_def s3_object_path_valid if_found_def s3_laws_def split: sum.splits s3_error.splits)

lemma s3_object_metadata_Inr:
  assumes "s3_laws cl content" and "valid_key k" and "s3_object_metadata cl env k s = Inr md"
  obtains b where "content s (location env k) = Some b" "md = metadata_for_path (se_sha256 env) k b"
  using assms
  by (auto simp: s3_object_metadata_def valid_key_def s3_object_path_valid s3_laws_def split: sum.splits s3_error.splits)

lemma s3_put_bytes_Inr:
  assumes "s3_laws cl content" and "valid_key k" and "s3_put_bytes cl env k b s = (Inr u, s')"
  shows "content s' = (content s)(location env k := Some b)"
  using assms
  by (cases "s3_put cl (location env k) b s"; cases "fst (s3_put cl (location env k) b s)")
    (auto simp: s3_put_bytes_def s3_object_path_valid remote_def s3_laws_def)

lemma s3_put_bytes_any:
  assumes "s3_laws cl content" and "valid_key k" and "s3_put_bytes cl env k b s = (r, s')"
  shows "content s' = content s \<or> content s' = (content s)(location env k := Some b)"
  using assms
  by (cases "s3_put cl (location env k) b s"; cases "fst (s3_put cl (location env k) b s)")
    (auto simp: s3_put_bytes_def s3_object_path_valid remote_def s3_laws_def)

subsection \<open>Listing\<close>

lemma s3_keys_Inr:
  assumes "s3_keys prefix ps = Inr ks" and "distinct ps" and "\<forall>p \<in> set ps. [] \<notin> set (split_on (CHR ''/'') p)"
  shows "distinct ks \<and> (\<forall>k. k \<in> set ks \<longleftrightarrow> valid_key k \<and> bucket_path prefix k \<in> set ps)"
  using assms
proof (induction ps arbitrary: ks)
  case Nil
  then show ?case by simp
next
  case (Cons p ps)
  define key where "key = (case prefix of Some q \<Rightarrow> (case strip_prefix (q @ ''/'') p of Some key \<Rightarrow> key | None \<Rightarrow> []) | None \<Rightarrow> p)"
  have key: "k = key" if "bucket_path prefix k = p" for k
    using that by (auto simp: key_def bucket_path_def split: option.splits)
  show ?case
  proof (cases "key = []")
    case True
    then have "bucket_path prefix k \<noteq> p" if "valid_key k" for k
      using key [of k] True that not_valid_Nil by auto
    then show ?thesis using Cons True by (auto simp flip: key_def)
  next
    case False
    have p: "bucket_path prefix key = p"
      using False by (auto simp: key_def bucket_path_def split: option.splits)
    obtain k rest where k: "validated_key key = Some k" "s3_keys prefix ps = Inr rest" "ks = k # rest"
      using Cons.prems(1) False by (auto simp flip: key_def split: option.splits elim!: map_sum_InrE)
    have "hd key \<noteq> CHR ''/''"
    proof
      assume "hd key = CHR ''/''"
      then obtain r where r: "key = CHR ''/'' # r" using False by (cases key) auto
      have "[] \<in> set (split_on (CHR ''/'') p)"
        by (cases prefix) (simp_all add: p [symmetric] bucket_path_def r split_on_Cons_append)
      then show False using Cons.prems(3) by simp
    qed
    then have eq: "k = key" using k(1) by (auto simp: validated_key_Some trim_start_char_id)
    then have valid: "valid_key key" using k(1) by (simp add: valid_key_def)
    have IH: "distinct rest \<and> (\<forall>k. k \<in> set rest \<longleftrightarrow> valid_key k \<and> bucket_path prefix k \<in> set ps)"
      using Cons.IH [OF k(2)] Cons.prems by simp
    then have "distinct (key # rest)" using p Cons.prems(2) by auto
    moreover have "bucket_path prefix j = p \<longleftrightarrow> j = key" for j using p key by blast
    ultimately show ?thesis using IH valid unfolding k(3) eq by auto
  qed
qed

text \<open>The prefix is written as the client writes it, and so are the locations of the bucket, which have no empty segments.\<close>

definition plain_paths :: "('s \<Rightarrow> string \<Rightarrow> bytes option) \<Rightarrow> s3_env \<Rightarrow> 's \<Rightarrow> bool" where
  "plain_paths content env s \<longleftrightarrow> (\<forall>p. se_prefix env = Some p \<longrightarrow> se_object_path env p = p) \<and>
     (\<forall>p. content s p \<noteq> None \<longrightarrow> se_object_path env p = p \<and> [] \<notin> set (split_on (CHR ''/'') p))"

lemma s3_list_keys_Inr:
  assumes "s3_laws cl content" and "s3_list_keys cl env s = Inr ks" and "plain_paths content env s"
  shows "distinct ks \<and> (\<forall>k. k \<in> set ks \<longleftrightarrow> valid_key k \<and> content s (bucket_path (se_prefix env) k) \<noteq> None)"
proof -
  have pre: "map_option (se_object_path env) (se_prefix env) = se_prefix env"
    using assms(3) by (cases "se_prefix env") (auto simp: plain_paths_def)
  obtain ps ks' where ps: "s3_list cl (se_prefix env) s = Inr ps" "s3_keys (se_prefix env) ps = Inr ks'" "ks = sort ks'"
    using assms(2) by (auto simp: s3_list_keys_def pre split: sum.splits elim!: map_sum_InrE)
  have locs: "distinct ps" "\<And>p. p \<in> set ps \<longleftrightarrow> content s p \<noteq> None \<and> (case se_prefix env of None \<Rightarrow> True | Some q \<Rightarrow> starts_with (q @ ''/'') p)"
    using assms(1) ps(1) unfolding s3_laws_def by blast+
  then have segs: "\<forall>p \<in> set ps. [] \<notin> set (split_on (CHR ''/'') p)" using assms(3) by (simp add: plain_paths_def)
  have "case se_prefix env of None \<Rightarrow> True | Some q \<Rightarrow> starts_with (q @ ''/'') (bucket_path (se_prefix env) k)" for k
    by (auto simp: bucket_path_def starts_with_iff split: option.split)
  then show ?thesis using s3_keys_Inr [OF ps(2) locs(1) segs] by (simp add: ps(3) locs(2))
qed

subsection \<open>Backup\<close>

lemma u64_sat_add_exact: "u64_sat_add a b < 2 ^ 64 - 1 \<Longrightarrow> u64_sat_add a b = a + b"
  by (simp add: u64_sat_add_def min_def split: if_splits)

lemma backup_s3_objects_Inr:
  assumes "s3_laws cl content" and "backup_s3_objects cl env s keys objects acc dest = (Inr (objects', acc'), dest')"
    and "list_all valid_key keys" and "distinct keys"
  shows "\<exists>fs. map fst fs = keys \<and> (\<forall>(k, c) \<in> set fs. content s (location env k) = Some c) \<and>
    objects' = objects @ map (\<lambda>(k, c). metadata_for_path (se_sha256 env) k c) fs \<and>
    (acc' < 2 ^ 64 - 1 \<longrightarrow> acc' = acc + (\<Sum>(k, c)\<leftarrow>fs. length c)) \<and>
    (\<forall>k. hm_get dest' k = (case map_of fs k of Some c \<Rightarrow> Some c | None \<Rightarrow> hm_get dest k))"
  using assms(2-4)
proof (induction keys arbitrary: objects acc dest)
  case Nil
  then show ?case by simp
next
  case (Cons k keys)
  obtain c where c: "s3_get_bytes cl env k s = Inr (Some c)"
    and rest: "backup_s3_objects cl env s keys (objects @ [metadata_for_path (se_sha256 env) k c]) (u64_sat_add acc (length c))
        (hm_insert k c dest) = (Inr (objects', acc'), dest')"
    using Cons.prems(1) by (auto simp: Let_def metadata_for_path_def split: sum.splits option.splits if_splits)
  have at: "content s (location env k) = Some c"
    using s3_get_bytes_Inr [OF assms(1) _ c] Cons.prems(2) by simp
  obtain fs where fs: "map fst fs = keys" "\<forall>(k, c) \<in> set fs. content s (location env k) = Some c"
    "objects' = (objects @ [metadata_for_path (se_sha256 env) k c]) @ map (\<lambda>(k, c). metadata_for_path (se_sha256 env) k c) fs"
    "acc' < 2 ^ 64 - 1 \<longrightarrow> acc' = u64_sat_add acc (length c) + (\<Sum>(k, c)\<leftarrow>fs. length c)"
    "\<And>j. hm_get dest' j = (case map_of fs j of Some c \<Rightarrow> Some c | None \<Rightarrow> hm_get (hm_insert k c dest) j)"
    using Cons.IH [OF rest] Cons.prems(2,3) by auto
  have "k \<notin> fst ` set fs" using fs(1) Cons.prems(3) by (metis distinct.simps(2) set_map)
  then have "map_of fs k = None" by (simp add: map_of_eq_None_iff)
  moreover have "acc' < 2 ^ 64 - 1 \<longrightarrow> acc' = acc + (length c + (\<Sum>(k, c)\<leftarrow>fs. length c))"
    using fs(4) u64_sat_add_exact [of acc "length c"] by auto
  ultimately show ?case
    using fs at by (intro exI [of _ "(k, c) # fs"]) (auto split: option.split)
qed

text \<open>A backup passes its verification, and has the objects of the bucket below its prefix.\<close>

lemma s3_backup_Inr:
  assumes "s3_laws cl content" and "plain_paths content env s" and "\<forall>m. decode (encode m) = Some m"
    and "backup_s3_object_store cl env encode out created s = (Inr rep, dir)" and "rp_total_size_bytes rep < 2 ^ 64 - 1"
  shows "verify_object_store_backup (se_sha256 env) decode dir = Inr rep"
    and "valid_key k \<Longrightarrow> hm_get (bd_objects dir) k = content s (bucket_path (se_prefix env) k)"
    and "hm_get (bd_objects dir) k \<noteq> None \<longleftrightarrow> (\<exists>m. read_object_store_manifest decode dir = Inr m \<and> k \<in> som_key ` set (om_objects m))"
proof -
  obtain keys objects acc dest where keys: "s3_list_keys cl env s = Inr keys"
    and run: "backup_s3_objects cl env s keys [] 0 [] = (Inr (objects, acc), dest)"
    using assms(4) by (auto simp: s3_backup_defs Let_def split: sum.splits if_splits prod.splits)
  note listed = s3_list_keys_Inr [OF assms(1) keys assms(2)]
  then have valid: "list_all valid_key keys" and d: "distinct keys" by (auto simp: list_all_iff)
  obtain fs where fs: "map fst fs = keys" "\<forall>(k, c) \<in> set fs. content s (location env k) = Some c"
    "objects = map (\<lambda>(k, c). metadata_for_path (se_sha256 env) k c) fs"
    "acc < 2 ^ 64 - 1 \<longrightarrow> acc = (\<Sum>(k, c)\<leftarrow>fs. length c)" "\<And>k. hm_get dest k = map_of fs k"
    using backup_s3_objects_Inr [OF assms(1) run valid d] by (auto simp: case_option_hm)
  define m where "m = \<lparr>om_kind = OBJECT_STORE_BACKUP_KIND, om_schema_version = OBJECT_STORE_BACKUP_SCHEMA_VERSION,
    om_created_at = created, om_object_count = length objects, om_total_size_bytes = acc, om_objects = objects\<rparr>"
  have dir: "rep = manifest_report m" "dir = \<lparr>bd_manifest = Some (encode m), bd_objects = dest\<rparr>"
    using assms(4) keys run by (auto simp: s3_backup_defs Let_def m_def split: if_splits)
  have m: "read_object_store_manifest decode dir = Inr m"
    using assms(3) by (simp add: read_object_store_manifest_def dir(2) m_def)
  have df: "distinct (map fst fs)" using d fs(1) by simp
  have "acc < 2 ^ 64 - 1" using assms(5) by (simp add: dir(1) manifest_report_def m_def)
  then have acc: "acc = (\<Sum>(k, c)\<leftarrow>fs. length c)" using fs(4) by simp
  have "list_all (\<lambda>(k, _). validated_key k = Some k) fs"
    using valid unfolding fs(1) [symmetric] by (simp add: list_all_iff valid_key_def split_beta)
  moreover have "\<forall>(k, c) \<in> set fs. hm_get dest k = Some c" using df by (auto simp: fs(5) map_of_eq_Some_iff)
  ultimately obtain st where "stage_objects (se_sha256 env) dest objects [] 0 [] = Inr (acc, st)"
    using stage_objects_all [OF df, of dest "[]" "se_sha256 env" 0 "[]"] by (auto simp: fs(3) acc)
  then have "verify_objects (se_sha256 env) dest objects [] 0 = Inr acc"
    using stage_verify [of "se_sha256 env" dest objects "[]" 0 "[]"] by simp
  then show "verify_object_store_backup (se_sha256 env) decode dir = Inr rep"
    by (simp add: verify_object_store_backup_def m) (simp add: dir m_def)
  have plain: "location env k = bucket_path (se_prefix env) k" if "k \<in> set keys" for k
    using listed that assms(2) by (simp add: location_def plain_paths_def)
  show "hm_get (bd_objects dir) k = content s (bucket_path (se_prefix env) k)" if "valid_key k"
  proof (cases "map_of fs k")
    case None
    then have "k \<notin> set keys" by (simp add: map_of_eq_None_iff flip: fs(1))
    then show ?thesis using listed that None by (simp add: dir(2) fs(5))
  next
    case (Some c)
    then have "(k, c) \<in> set fs" by (rule map_of_SomeD)
    then have "k \<in> set keys" "content s (location env k) = Some c" using fs(1,2) by (force, auto)
    then show ?thesis using plain Some by (simp add: dir(2) fs(5))
  qed
  have "som_key ` set objects = fst ` set fs" by (force simp: fs(3) metadata_for_path_def)
  then show "hm_get (bd_objects dir) k \<noteq> None \<longleftrightarrow> (\<exists>m. read_object_store_manifest decode dir = Inr m \<and> k \<in> som_key ` set (om_objects m))"
    using map_of_eq_None_iff [of fs k] by (simp add: m) (simp add: dir(2) fs(5) m_def flip: not_None_eq)
qed

subsection \<open>Restoration\<close>

lemma verify_objects_Inr:
  assumes "verify_objects sha256 files objects seen acc = Inr acc'"
  shows "(\<forall>ob \<in> set objects. valid_key (som_key ob) \<and>
      (\<exists>c. hm_get files (som_key ob) = Some c \<and> ob = metadata_for_path sha256 (som_key ob) c)) \<and>
    distinct (map som_key objects) \<and> set (map som_key objects) \<inter> set seen = {}"
  using assms
proof (induction objects arbitrary: seen acc)
  case (Cons ob objects)
  obtain key where key: "validated_key (som_key ob) = Some key" "key \<notin> set seen" "metadata_in sha256 files key = Inr ob"
      "verify_objects sha256 files objects (key # seen) (acc + som_size_bytes ob) = Inr acc'"
    using Cons.prems by (auto split: option.splits sum.splits if_splits)
  obtain c where c: "hm_get files key = Some c" "ob = metadata_for_path sha256 key c"
    using key(3) by (auto simp: metadata_in_def split: option.splits)
  then have "som_key ob = key" by (simp add: metadata_for_path_def)
  then show ?case using Cons.IH [OF key(4)] key(1,2) c by (auto simp: valid_key_def)
qed simp

lemma verify_backup_Inr:
  assumes "verify_object_store_backup sha256 decode dir = Inr rep"
  obtains m where "read_object_store_manifest decode dir = Inr m" "rep = manifest_report m" "distinct (map som_key (om_objects m))"
    "\<forall>ob \<in> set (om_objects m). valid_key (som_key ob) \<and>
      (\<exists>c. hm_get (bd_objects dir) (som_key ob) = Some c \<and> ob = metadata_for_path sha256 (som_key ob) c)"
  using assms
  by (auto simp: verify_object_store_backup_def split: sum.splits if_splits dest!: verify_objects_Inr)

lemma restore_s3_objects_any:
  assumes "s3_laws cl content" and "restore_s3_objects cl env files objects t = (r, t')"
    and "\<forall>ob \<in> set objects. valid_key (som_key ob)"
  shows "content t' p = content t p \<or>
    (\<exists>k b. k \<in> som_key ` set objects \<and> p = location env k \<and> hm_get files k = Some b \<and> content t' p = Some b)"
  using assms(2,3)
proof (induction objects arbitrary: t)
  case (Cons ob objects)
  show ?case
  proof (cases "hm_get files (som_key ob)")
    case None
    then show ?thesis using Cons.prems by simp
  next
    case (Some b)
    obtain r1 t1 where put: "s3_put_bytes cl env (som_key ob) b t = (r1, t1)" by fastforce
    let ?done = "\<lambda>objects q. \<exists>k b. k \<in> som_key ` set objects \<and> p = location env k \<and> hm_get files k = Some b \<and> q = Some b"
    have "content t1 p = content t p \<or> p = location env (som_key ob) \<and> content t1 p = Some b"
      using s3_put_bytes_any [OF assms(1) _ put] Cons.prems(2) by (auto split: if_splits)
    then have here: "content t1 p = content t p \<or> ?done (ob # objects) (content t1 p)" using Some by auto
    have "t' = t1 \<or> restore_s3_objects cl env files objects t1 = (r, t')"
      using Cons.prems(1) put Some by (auto split: sum.splits if_splits)
    then have "t' = t1 \<or> content t' p = content t1 p \<or> ?done objects (content t' p)"
      using Cons.IH [of t1] Cons.prems(2) by auto
    moreover have "?done (ob # objects) q" if "?done objects q" for q using that by auto
    ultimately show ?thesis using here by metis
  qed
qed simp

lemma restore_s3_objects_Inr:
  assumes "s3_laws cl content" and "locations_apart env" and "restore_s3_objects cl env files objects t = (Inr u, t')"
    and "\<forall>ob \<in> set objects. valid_key (som_key ob)" and "distinct (map som_key objects)"
  shows "(\<forall>k \<in> som_key ` set objects. content t' (location env k) = hm_get files k) \<and>
    (\<forall>p. p \<notin> location env ` som_key ` set objects \<longrightarrow> content t' p = content t p)"
  using assms(3-5)
proof (induction objects arbitrary: t)
  case (Cons ob objects)
  obtain b t1 where b: "hm_get files (som_key ob) = Some b" and put: "s3_put_bytes cl env (som_key ob) b t = (Inr (), t1)"
    and rest: "restore_s3_objects cl env files objects t1 = (Inr u, t')"
    using Cons.prems(1) by (auto split: option.splits sum.splits if_splits prod.splits)
  have put': "content t1 = (content t)(location env (som_key ob) := Some b)"
    using s3_put_bytes_Inr [OF assms(1) _ put] Cons.prems(2) by simp
  have IH: "\<forall>k \<in> som_key ` set objects. content t' (location env k) = hm_get files k"
    "\<forall>p. p \<notin> location env ` som_key ` set objects \<longrightarrow> content t' p = content t1 p"
    using Cons.IH [OF rest] Cons.prems(2,3) by simp_all
  have "location env (som_key ob) \<notin> location env ` som_key ` set objects"
    using Cons.prems(2,3) location_inject [OF assms(2)] by (auto simp: image_iff)
  then have "content t' (location env (som_key ob)) = hm_get files (som_key ob)" using IH(2) put' b by simp
  then show ?case using IH put' by auto
qed simp

lemma restore_s3_objects_up:
  assumes "s3_laws cl content" and "s3_up cl content"
    and "\<forall>ob \<in> set objects. valid_key (som_key ob) \<and>
      (\<exists>c. hm_get files (som_key ob) = Some c \<and> ob = metadata_for_path (se_sha256 env) (som_key ob) c)"
  shows "\<exists>t'. restore_s3_objects cl env files objects t = (Inr (), t')"
  using assms(3)
proof (induction objects arbitrary: t)
  case (Cons ob objects)
  obtain c where k: "valid_key (som_key ob)" and c: "hm_get files (som_key ob) = Some c"
    and ob: "ob = metadata_for_path (se_sha256 env) (som_key ob) c"
    using Cons.prems by auto
  have "fst (s3_put cl (location env (som_key ob)) c t) = Inr ()" using assms(2) by (simp add: s3_up_def)
  then obtain t1 where put: "s3_put_bytes cl env (som_key ob) c t = (Inr (), t1)"
    by (cases "s3_put cl (location env (som_key ob)) c t") (simp add: s3_put_bytes_def s3_object_path_valid [OF k] remote_def)
  have "content t1 (location env (som_key ob)) = Some c" using s3_put_bytes_Inr [OF assms(1) k put] by simp
  then have "s3_object_metadata cl env (som_key ob) t1 = Inr (metadata_for_path (se_sha256 env) (som_key ob) c)"
    using assms(2) s3_object_path_valid [OF k, of env] k by (simp add: s3_object_metadata_def valid_key_def s3_up_def)
  then have "s3_object_metadata cl env (som_key ob) t1 = Inr ob" using ob by simp
  then show ?case using Cons.IH [of t1] Cons.prems by (auto simp: c put)
qed simp

text \<open>
  C21. Backup and restoration over buckets whose prefix and paths hold no character that \<open>Path\<close> escapes
  (\<open>plain_paths\<close>; with another prefix \<open>list\<close> finds nothing, see \<open>escaped_prefix_backs_up_nothing\<close>), below \<open>2 ^ 64\<close> bytes in
  all: a backup of the objects below a prefix passes its verification and has exactly
  the objects the bucket had. Restoring it into a bucket, under the same or any other prefix, succeeds when the
  service answers every call, and a success puts every object of the backup at its place with its content and leaves
  every other location as it was.
\<close>
theorem s3_backup_restores:
  assumes "s3_laws cl content" and "plain_paths content env s" and "\<forall>m. decode (encode m) = Some m"
    and "backup_s3_object_store cl env encode out created s = (Inr rep, dir)" and "rp_total_size_bytes rep < 2 ^ 64 - 1"
    and "locations_apart (env\<lparr>se_prefix := q\<rparr>)"
    and "restore_s3_object_store cl (env\<lparr>se_prefix := q\<rparr>) decode dir t = (r, t')"
  shows "verify_object_store_backup (se_sha256 env) decode dir = Inr rep
    \<and> (s3_up cl content \<longrightarrow> r = Inr rep)
    \<and> (\<forall>rep'. r = Inr rep' \<longrightarrow> rep' = rep \<and>
        (\<forall>k b. valid_key k \<and> content s (bucket_path (se_prefix env) k) = Some b \<longrightarrow> content t' (location (env\<lparr>se_prefix := q\<rparr>) k) = Some b) \<and>
        (\<forall>p. (\<forall>k. valid_key k \<and> content s (bucket_path (se_prefix env) k) \<noteq> None \<longrightarrow> p \<noteq> location (env\<lparr>se_prefix := q\<rparr>) k) \<longrightarrow>
          content t' p = content t p))"
proof -
  let ?env = "env\<lparr>se_prefix := q\<rparr>"
  note made = s3_backup_Inr [OF assms(1-5)]
  obtain m where m: "read_object_store_manifest decode dir = Inr m" "distinct (map som_key (om_objects m))"
    "\<forall>ob \<in> set (om_objects m). valid_key (som_key ob) \<and>
      (\<exists>c. hm_get (bd_objects dir) (som_key ob) = Some c \<and> ob = metadata_for_path (se_sha256 ?env) (som_key ob) c)"
    by (rule verify_backup_Inr [OF made(1)]) simp
  have run: "(case restore_s3_objects cl ?env (bd_objects dir) (om_objects m) t of
      (Inl e, t1) \<Rightarrow> (Inl e, t1) | (Inr _, t1) \<Rightarrow> (Inr rep, t1)) = (r, t')"
    using assms(7) made(1) by (simp add: restore_s3_object_store_def m(1))
  have up: "r = Inr rep" if "s3_up cl content"
    using restore_s3_objects_up [OF assms(1) that m(3), of t] run by auto
  have keys: "k \<in> som_key ` set (om_objects m) \<longleftrightarrow> valid_key k \<and> content s (bucket_path (se_prefix env) k) \<noteq> None" for k
    using made(2,3) [of k] m(1,3) by auto
  have valid: "\<forall>ob \<in> set (om_objects m). valid_key (som_key ob)" using m(3) by blast
  show ?thesis
  proof (intro conjI impI allI)
    show "verify_object_store_backup (se_sha256 env) decode dir = Inr rep" by (rule made(1))
    show "r = Inr rep" if "s3_up cl content" using up that .
  next
    fix rep' assume "r = Inr rep'"
    then show "rep' = rep" using run by (auto split: prod.splits sum.splits)
  next
    fix rep' k b assume "r = Inr rep'" and k: "valid_key k \<and> content s (bucket_path (se_prefix env) k) = Some b"
    then obtain u where "restore_s3_objects cl ?env (bd_objects dir) (om_objects m) t = (Inr u, t')"
      using run by (auto split: prod.splits sum.splits)
    from restore_s3_objects_Inr [OF assms(1,6) this valid m(2)] show "content t' (location ?env k) = Some b"
      using k made(2) [of k] keys [of k] by auto
  next
    fix rep' p assume "r = Inr rep'"
      and p: "\<forall>k. valid_key k \<and> content s (bucket_path (se_prefix env) k) \<noteq> None \<longrightarrow> p \<noteq> location ?env k"
    then obtain u where "restore_s3_objects cl ?env (bd_objects dir) (om_objects m) t = (Inr u, t')"
      using run by (auto split: prod.splits sum.splits)
    note final = restore_s3_objects_Inr [OF assms(1,6) this valid m(2)]
    have "p \<notin> location ?env ` som_key ` set (om_objects m)" using p keys by blast
    then show "content t' p = content t p" using final by blast
  qed
qed

text \<open>
  C23. A restoration into a bucket cannot be undone by the server, and never tears: whatever fails, every location holds
  afterwards what it held before or the whole object that the backup has for it, no object disappears, and nothing
  changes when the backup fails its verification.
\<close>
theorem s3_restore_never_tears:
  assumes "s3_laws cl content" and "restore_s3_object_store cl env decode dir t = (r, t')"
  shows "(content t' p = content t p \<or>
      (\<exists>k b. valid_key k \<and> p = location env k \<and> hm_get (bd_objects dir) k = Some b \<and> content t' p = Some b))
    \<and> (\<forall>e. verify_object_store_backup (se_sha256 env) decode dir = Inl e \<longrightarrow> r = Inl e \<and> t' = t)"
proof (cases "verify_object_store_backup (se_sha256 env) decode dir")
  case (Inl e)
  then show ?thesis using assms(2) by (simp add: restore_s3_object_store_def)
next
  case (Inr rep)
  obtain m where m: "read_object_store_manifest decode dir = Inr m" "\<forall>ob \<in> set (om_objects m). valid_key (som_key ob)"
    by (rule verify_backup_Inr [OF Inr]) simp
  obtain r1 where "restore_s3_objects cl env (bd_objects dir) (om_objects m) t = (r1, t')"
    using assms(2) by (auto simp: restore_s3_object_store_def Inr m(1) split: prod.splits sum.splits)
  from restore_s3_objects_any [OF assms(1) this m(2), of p] m(2) show ?thesis by (auto simp: Inr)
qed

subsection \<open>A prefix that is not written as it is given\<close>

lemma s3_keys_none:
  assumes "\<forall>l \<in> set ps. \<not> starts_with (p @ ''/'') l"
  shows "s3_keys (Some p) ps = Inr []"
  using assms by (induction ps) (auto simp: starts_with_iff split: option.split)

text \<open>
  A prefix with a character that object paths escape loses every backup. When the client writes the prefix \<open>p\<close> as
  another path \<open>q\<close>, the locations that are listed begin with \<open>q\<close>, none of them has the prefix \<open>p\<close> to take off,
  and all of them are passed over: the backup reports success with no objects, whatever the bucket holds.
\<close>
theorem escaped_prefix_backs_up_nothing:
  assumes "s3_laws cl content" and "se_prefix env = Some p" and "se_object_path env p = q"
    and "\<forall>u. \<not> starts_with (p @ ''/'') (q @ ''/'' @ u)" and "s3_list cl (Some q) s = Inr ps" and "out \<noteq> OutNonEmpty"
  shows "\<exists>dir. backup_s3_object_store cl env encode out created s = (Inr \<lparr>rp_object_count = 0, rp_total_size_bytes = 0\<rparr>, dir) \<and>
    bd_objects dir = []"
proof -
  have "starts_with (q @ ''/'') l" if "l \<in> set ps" for l
    using assms(1,5) that unfolding s3_laws_def by fastforce
  then have "\<forall>l \<in> set ps. \<not> starts_with (p @ ''/'') l"
    using assms(4) unfolding starts_with_iff [of "q @ ''/''"] by (metis append.assoc)
  then have "s3_list_keys cl env s = Inr []"
    using assms(2,3,5) by (simp add: s3_list_keys_def s3_keys_none)
  then show ?thesis using assms(6) by (simp add: s3_backup_defs manifest_report_def)
qed

subsection \<open>Completed uploads\<close>

definition s3_content :: "('s \<Rightarrow> string \<Rightarrow> bytes option) \<Rightarrow> s3_env \<Rightarrow> 's \<Rightarrow> string \<Rightarrow> bytes option" where
  "s3_content content env s key = (case s3_object_path env key of Inl _ \<Rightarrow> None | Inr path \<Rightarrow> content s path)"

lemma s3_verified_store:
  assumes "s3_laws cl content"
  shows "verified_store (s3_ops cl env sign_part c url) (s3_content content env) (se_sha256 env)"
proof
  show "x = map_option length (s3_content content env ob k)" if "so_size (s3_ops cl env sign_part c url) k ob = Inr x" for k ob x
    using that
    by (auto simp: s3_ops_def s3_object_size_def s3_content_def if_found_def split: sum.splits s3_error.splits
        dest: s3_head_found [OF assms] s3_head_missing [OF assms])
  show "\<exists>b. s3_content content env ob k = Some b \<and> som_size_bytes md = length b \<and> som_sha256 md = se_sha256 env b"
    if md: "so_metadata (s3_ops cl env sign_part c url) k ob = Inr md" for k ob md
  proof -
    obtain key path b where key: "validated_key k = Some key" "s3_object_path env key = Inr path" "s3_get cl path ob = Inr b"
      "md = metadata_for_path (se_sha256 env) key b"
      using md by (auto simp: s3_ops_def s3_object_metadata_def split: option.splits sum.splits s3_error.splits)
    have "s3_object_path env k = Inr path"
      using key(1,2) validated_key_fix [OF key(1)] by (simp add: s3_object_path_def)
    moreover have "content ob path = Some b" using assms key(3) by (simp add: s3_laws_def)
    ultimately show ?thesis by (simp add: key(4) s3_content_def metadata_for_path_def)
  qed
qed

text \<open>
  An attachment in a bucket becomes ready only for what is really stored: when completion succeeds, the bucket has the
  object, no larger than the configured maximum and exactly as large as the session declared, and the catalogue
  shows its size and its SHA-256.
\<close>
lemma s3_ready_means_verified:
  assumes "s3_laws cl content"
    and "complete_attachment (s3_ops cl env sign_part cfg url) cf c u b a (s, ob) = (Inr resp, s', ob')"
    and "cf_attachment_max_bytes cf < 2 ^ 63"
  shows "\<exists>r r' bs. find_attachment s b a = Some r \<and> find_attachment s' b a = Some r' \<and>
    s3_content content env ob' (att_object_key r') = Some bs \<and>
    length bs \<le> cf_attachment_max_bytes cf \<and> att_size_bytes r \<in> {None, Some (int (length bs))} \<and>
    att_upload_status r' = ''ready'' \<and> att_size_bytes r' = Some (int (length bs)) \<and> att_content_hash r' = Some (se_sha256 env bs)"
  by (rule verified_store.ready_verified [OF s3_verified_store [OF assms(1)] assms(2,3)])

subsection \<open>Migration\<close>

text \<open>Whatever one file meets, the bucket changes at most at its place.\<close>

lemma migrate_object_cases:
  assumes "migrate_object cl env k c rep s = (r, s')"
  obtains (failed) e where "r = Inl (StoreFailed e)" "s' = s"
  | (there) "s3_object_metadata cl env k s = Inr (metadata_for_path (se_sha256 env) k c)" "s' = s"
      "r = Inr (rep\<lparr>mg_skipped_objects := mg_skipped_objects rep + 1\<rparr>)"
  | (not_put) e where "s3_put_bytes cl env k c s = (Inl e, s')" "r = Inl (StoreFailed e)"
  | (put) u where "s3_put_bytes cl env k c s = (Inr u, s')" "r = Inr (count_upload (length c) rep) \<or> isl r"
proof -
  let ?local = "metadata_for_path (se_sha256 env) k c"
  have size: "som_size_bytes ?local = length c" by (simp add: metadata_for_path_def)
  show thesis
  proof (cases "already_migrated cl env k ?local s")
    case (Inl e)
    then show thesis using assms failed [of e] by (simp add: migrate_object_def Let_def)
  next
    case (Inr same)
    show thesis
    proof (cases same)
      case True
      then have "s3_object_metadata cl env k s = Inr ?local"
        using Inr by (auto simp: already_migrated_def split: sum.splits if_splits elim!: map_sum_InrE)
      then show thesis using assms True Inr by (intro there) (simp_all add: migrate_object_def Let_def)
    next
      case False
      obtain r1 s1 where p: "s3_put_bytes cl env k c s = (r1, s1)" by fastforce
      note run = assms [unfolded migrate_object_def Let_def Inr, simplified False p]
      show thesis
      proof (cases r1)
        case (Inl e)
        then show thesis using not_put [of e] run p by simp
      next
        case (Inr u)
        then show thesis using put [of u] run p size by (auto split: sum.splits if_splits)
      qed
    qed
  qed
qed

lemma migrate_object_any:
  assumes "s3_laws cl content" and "valid_key k" and "migrate_object cl env k c rep s = (r, s')"
  shows "content s' = content s \<or> content s' = (content s)(location env k := Some c)"
  using assms(3)
  by (cases rule: migrate_object_cases) (use s3_put_bytes_any [OF assms(1,2)] in blast)+

text \<open>
  An object is taken for migrated when its size and hash are those of the file. No file collides with the object that is
  already at its place.
\<close>

definition collides :: "s3_env \<Rightarrow> bytes \<Rightarrow> bytes \<Rightarrow> bool" where
  "collides env b c \<longleftrightarrow> b \<noteq> c \<and> length b = length c \<and> se_sha256 env b = se_sha256 env c"

definition no_collision :: "('s \<Rightarrow> string \<Rightarrow> bytes option) \<Rightarrow> s3_env \<Rightarrow> (string \<times> bytes) list \<Rightarrow> 's \<Rightarrow> bool" where
  "no_collision content env files s \<longleftrightarrow>
     list_all (\<lambda>(k, c). case content s (location env k) of None \<Rightarrow> True | Some b \<Rightarrow> \<not> collides env b c) files"

lemma migrate_object_Inr:
  assumes "s3_laws cl content" and "no_collision content env [(k, c)] s" and "valid_key k" and "migrate_object cl env k c rep s = (Inr rep', s')"
  shows "content s' = (content s)(location env k := Some c)"
    and "s' = s \<and> rep' = rep\<lparr>mg_skipped_objects := mg_skipped_objects rep + 1\<rparr> \<or> rep' = count_upload (length c) rep"
proof -
  let ?local = "metadata_for_path (se_sha256 env) k c"
  from assms(4) have "content s' = (content s)(location env k := Some c) \<and>
    (s' = s \<and> rep' = rep\<lparr>mg_skipped_objects := mg_skipped_objects rep + 1\<rparr> \<or> rep' = count_upload (length c) rep)"
  proof (cases rule: migrate_object_cases)
    case there
    obtain b where "content s (location env k) = Some b" "?local = metadata_for_path (se_sha256 env) k b"
      by (rule s3_object_metadata_Inr [OF assms(1,3) there(1)])
    then have "content s (location env k) = Some c" using assms(2) by (auto simp: metadata_for_path_def no_collision_def collides_def)
    then show ?thesis using there(2,3) by (simp add: fun_upd_idem)
  next
    case put
    then show ?thesis using s3_put_bytes_Inr [OF assms(1,3) put(1)] by simp
  qed simp_all
  then show "content s' = (content s)(location env k := Some c)"
    and "s' = s \<and> rep' = rep\<lparr>mg_skipped_objects := mg_skipped_objects rep + 1\<rparr> \<or> rep' = count_upload (length c) rep"
    by blast+
qed

definition placed :: "('s \<Rightarrow> string \<Rightarrow> bytes option) \<Rightarrow> s3_env \<Rightarrow> (string \<times> bytes) list \<Rightarrow> 's \<Rightarrow> bool" where
  "placed content env files s \<longleftrightarrow> (\<forall>(k, c) \<in> set files. content s (location env k) = Some c)"

lemma migrate_objects_Inr:
  assumes "s3_laws cl content" and "locations_apart env"
    and "list_all (\<lambda>(k, _). valid_key k) files" and "distinct (map fst files)" and "no_collision content env files s"
    and "migrate_objects cl env False files rep s = (Inr rep', s')"
  shows "placed content env files s' \<and> (\<forall>p. p \<notin> location env ` fst ` set files \<longrightarrow> content s' p = content s p) \<and>
    mg_scanned_objects rep' = mg_scanned_objects rep + length files \<and>
    mg_uploaded_objects rep' + mg_skipped_objects rep' = mg_uploaded_objects rep + mg_skipped_objects rep + length files"
  using assms(3-6)
proof (induction files arbitrary: rep s)
  case (Cons f files)
  obtain k c where f: "f = (k, c)" by fastforce
  let ?rep = "rep\<lparr>mg_scanned_objects := mg_scanned_objects rep + 1\<rparr>"
  obtain rep1 s1 where one: "migrate_object cl env k c ?rep s = (Inr rep1, s1)"
    and rest: "migrate_objects cl env False files rep1 s1 = (Inr rep', s')"
    using Cons.prems(4) by (auto simp: f Let_def split: prod.splits sum.splits)
  have k: "valid_key k" using Cons.prems(1) by (simp add: f)
  have "no_collision content env [(k, c)] s" using Cons.prems(3) by (simp add: f no_collision_def)
  note step = migrate_object_Inr [OF assms(1) this k one]
  have "k \<notin> fst ` set files" using Cons.prems(2) by (simp add: f)
  moreover have "valid_key j" if "j \<in> fst ` set files" for j using Cons.prems(1) that by (auto simp: list_all_iff)
  ultimately have apart: "location env k \<notin> location env ` fst ` set files"
    using location_inject [OF assms(2) k] by blast
  have "location env j \<noteq> location env k" if "j \<in> fst ` set files" for j
    using that apart by (metis imageI)
  then have "content s1 (location env j) = content s (location env j)" if "j \<in> fst ` set files" for j
    using that by (simp add: step(1))
  then have "no_collision content env files s1 = no_collision content env files s"
    unfolding no_collision_def by (intro list.pred_cong refl) force
  then have clear: "no_collision content env files s1" using Cons.prems(3) by (simp add: f no_collision_def)
  have IH: "placed content env files s'" "\<forall>p. p \<notin> location env ` fst ` set files \<longrightarrow> content s' p = content s1 p"
    "mg_scanned_objects rep' = mg_scanned_objects rep1 + length files"
    "mg_uploaded_objects rep' + mg_skipped_objects rep' = mg_uploaded_objects rep1 + mg_skipped_objects rep1 + length files"
    using Cons.IH [OF _ _ clear rest] Cons.prems(1,2) by simp_all
  have "content s' (location env k) = Some c" using apart IH(2) step(1) by simp
  moreover have "mg_scanned_objects rep1 = mg_scanned_objects rep + 1"
    "mg_uploaded_objects rep1 + mg_skipped_objects rep1 = mg_uploaded_objects rep + mg_skipped_objects rep + 1"
    using step(2) by (auto simp: count_upload_def)
  ultimately show ?case using IH step(1) by (auto simp: f placed_def)
qed (simp add: placed_def)

text \<open>Files that are in their places are skipped.\<close>

lemma migrate_objects_again:
  assumes "s3_laws cl content" and "list_all (\<lambda>(k, _). valid_key k) files" and "placed content env files s"
    and "migrate_objects cl env False files rep s = (r, s')"
  shows "s' = s \<and> (\<forall>rep'. r = Inr rep' \<longrightarrow> mg_uploaded_objects rep' = mg_uploaded_objects rep \<and>
    mg_skipped_objects rep' = mg_skipped_objects rep + length files)"
  using assms(2-4)
proof (induction files arbitrary: rep)
  case (Cons f files)
  obtain k c where f: "f = (k, c)" by fastforce
  let ?rep = "rep\<lparr>mg_scanned_objects := mg_scanned_objects rep + 1\<rparr>"
  let ?local = "metadata_for_path (se_sha256 env) k c"
  have k: "valid_key k" and c: "content s (location env k) = Some c"
    using Cons.prems(1,2) by (auto simp: f placed_def)
  have "s3_object_exists cl env k s \<noteq> Inr False"
    using c s3_head_missing [OF assms(1), of "location env k" s]
    by (auto simp: s3_object_exists_def s3_object_size_def s3_object_path_valid [OF k] if_found_def split: sum.splits s3_error.splits)
  moreover have "md = ?local" if "s3_object_metadata cl env k s = Inr md" for md
    using s3_object_metadata_Inr [OF assms(1) k that] c by auto
  ultimately have "already_migrated cl env k ?local s \<noteq> Inr False"
    by (auto simp: already_migrated_def split: sum.splits if_splits elim!: map_sum_InrE)
  then have "(\<exists>e. migrate_object cl env k c ?rep s = (Inl e, s)) \<or>
      migrate_object cl env k c ?rep s = (Inr (?rep\<lparr>mg_skipped_objects := mg_skipped_objects rep + 1\<rparr>), s)"
    by (auto simp: migrate_object_def Let_def split: sum.split bool.split)
  then show ?case
  proof
    assume "\<exists>e. migrate_object cl env k c ?rep s = (Inl e, s)"
    then show ?thesis using Cons.prems(3) by (auto simp: f Let_def)
  next
    assume one: "migrate_object cl env k c ?rep s = (Inr (?rep\<lparr>mg_skipped_objects := mg_skipped_objects rep + 1\<rparr>), s)"
    have "placed content env files s" using Cons.prems(2) by (simp add: placed_def f)
    then show ?thesis
      using Cons.IH [of "?rep\<lparr>mg_skipped_objects := mg_skipped_objects rep + 1\<rparr>"] Cons.prems(1,3) one by (simp add: f Let_def)
  qed
qed auto

lemma migrate_objects_any:
  assumes "s3_laws cl content" and "list_all (\<lambda>(k, _). valid_key k) files" and "migrate_objects cl env False files rep s = (r, s')"
  shows "content s' p = content s p \<or> (\<exists>k c. (k, c) \<in> set files \<and> p = location env k \<and> content s' p = Some c)"
  using assms(2,3)
proof (induction files arbitrary: rep s)
  case (Cons f files)
  obtain k c where f: "f = (k, c)" by fastforce
  let ?done = "\<lambda>files q. \<exists>k c. (k, c) \<in> set files \<and> p = location env k \<and> q = Some c"
  obtain r1 s1 where one: "migrate_object cl env k c (rep\<lparr>mg_scanned_objects := mg_scanned_objects rep + 1\<rparr>) s = (r1, s1)" by fastforce
  have "valid_key k" using Cons.prems(1) by (simp add: f)
  then have "content s1 p = content s p \<or> p = location env k \<and> content s1 p = Some c"
    using migrate_object_any [OF assms(1) _ one] by (auto split: if_splits)
  then have here: "content s1 p = content s p \<or> ?done (f # files) (content s1 p)" by (auto simp: f)
  have "s' = s1 \<or> (\<exists>rep1. migrate_objects cl env False files rep1 s1 = (r, s'))"
    using Cons.prems(2) one by (auto simp: f Let_def split: sum.splits)
  then have "s' = s1 \<or> content s' p = content s1 p \<or> ?done files (content s' p)"
    using Cons.IH Cons.prems(1) by auto
  moreover have "?done (f # files) q" if "?done files q" for q using that by auto
  ultimately show ?case using here by metis
qed simp

lemma migrate_objects_dry: "snd (migrate_objects cl env True files rep s) = s"
  by (induction files arbitrary: rep) (auto simp: Let_def)

text \<open>
  C22. Migration to a bucket. The keys have locations of their own (\<open>locations_apart\<close>), and no file has the size and
  the hash of another content that is already at its place. After a success every file of the local store is in the bucket
  under its key and unchanged, and
  each was counted as uploaded or as skipped; running it again uploads nothing and changes nothing. After a failure
  every location holds what it held or the file that belongs there. A dry run changes nothing.
\<close>
theorem migration_complete:
  assumes "s3_laws cl content" and "locations_apart env" and "tree_ok source"
    and "\<forall>ns c b. file_at source ns = Some c \<and> content s (location env (join_path ns)) = Some b \<longrightarrow> \<not> collides env b c"
    and "migrate_local_object_store_to_s3 cl env True (Some source) dry_run s = (r, s')"
  shows "(dry_run \<longrightarrow> s' = s)
    \<and> (\<forall>p. content s' p = content s p \<or> (\<exists>k c. valid_key k \<and> p = location env k \<and> content s' p = Some c \<and>
        (\<exists>ns. k = join_path ns \<and> file_at source ns = Some c)))
    \<and> (\<forall>rep. r = Inr rep \<and> \<not> dry_run \<longrightarrow>
        (\<forall>ns c. list_all name_ok ns \<and> file_at source ns = Some c \<longrightarrow> content s' (location env (join_path ns)) = Some c) \<and>
        mg_scanned_objects rep = mg_uploaded_objects rep + mg_skipped_objects rep \<and>
        (\<forall>r2 s2. migrate_local_object_store_to_s3 cl env True (Some source) False s' = (r2, s2) \<longrightarrow>
          s2 = s' \<and> (\<forall>rep2. r2 = Inr rep2 \<longrightarrow> mg_uploaded_objects rep2 = 0)))"
proof (cases "\<exists>files. collect_files [] source = Inr files \<and> (dry_run \<or> s3_health_check cl env s = Inr ())")
  case False
  have "collect_files [] source = Inr files \<Longrightarrow> \<not> dry_run \<and> (\<exists>e. s3_health_check cl env s = Inl e)" for files
    using False by (cases "s3_health_check cl env s") auto
  then have "s' = s \<and> isl r"
    using assms(5) by (cases "collect_files [] source") (auto simp: migrate_local_object_store_to_s3_def split: sum.splits if_splits)
  then show ?thesis by auto
next
  case True
  then obtain files where files: "collect_files [] source = Inr files" and health: "dry_run \<or> s3_health_check cl env s = Inr ()" by blast
  let ?fs = "sort_key fst files"
  let ?zero = "\<lparr>mg_scanned_objects = 0, mg_uploaded_objects = 0, mg_skipped_objects = 0, mg_uploaded_bytes = 0, mg_dry_run = dry_run\<rparr>"
  note all = collect_files_map [OF files assms(3)]
  have valid: "list_all (\<lambda>(k, _). valid_key k) ?fs" using all(2) by (simp add: list_all_iff valid_key_def)
  have d: "distinct (map fst ?fs)" using all(1) by (simp add: distinct_map distinct_sort)
  have run: "migrate_objects cl env dry_run ?fs ?zero s = (r, s')"
    using assms(5) health by (auto simp: migrate_local_object_store_to_s3_def files split: if_splits)
  have stored: "\<exists>ns. k = join_path ns \<and> file_at source ns = Some c" if "(k, c) \<in> set files" for k c
    using that collect_files_tree [OF files assms(3)] tree_files_iff [OF assms(3)] by auto
  have clash: "no_collision content env ?fs s"
    using stored assms(4) by (fastforce simp: no_collision_def list_all_iff split: option.split)
  have dry: "s' = s" if dry_run using migrate_objects_dry [of cl env ?fs ?zero s] run that by simp
  have "content s' p = content s p \<or> (\<exists>k c. valid_key k \<and> p = location env k \<and> content s' p = Some c \<and>
      (\<exists>ns. k = join_path ns \<and> file_at source ns = Some c))" for p
  proof (cases dry_run)
    case False
    then have "migrate_objects cl env False ?fs ?zero s = (r, s')" using run by simp
    from migrate_objects_any [OF assms(1) valid this, of p] show ?thesis
      using stored valid by (fastforce simp: list_all_iff)
  qed (use dry in simp)
  moreover have "(\<forall>ns c. list_all name_ok ns \<and> file_at source ns = Some c \<longrightarrow> content s' (location env (join_path ns)) = Some c) \<and>
        mg_scanned_objects rep = mg_uploaded_objects rep + mg_skipped_objects rep \<and>
        (\<forall>r2 s2. migrate_local_object_store_to_s3 cl env True (Some source) False s' = (r2, s2) \<longrightarrow>
          s2 = s' \<and> (\<forall>rep2. r2 = Inr rep2 \<longrightarrow> mg_uploaded_objects rep2 = 0))" if "r = Inr rep" "\<not> dry_run" for rep
  proof -
    have "migrate_objects cl env False ?fs ?zero s = (Inr rep, s')" using run that by simp
    note full = migrate_objects_Inr [OF assms(1,2) valid d clash this]
    have "content s' (location env (join_path ns)) = Some c" if "list_all name_ok ns" "file_at source ns = Some c" for ns c
    proof -
      have "(join_path ns, c) \<in> set ?fs" using all(3) [OF that(1)] that(2) by (auto dest: map_of_SomeD)
      then show ?thesis using full by (auto simp: placed_def)
    qed
    moreover have "s2 = s' \<and> (\<forall>rep2. r2 = Inr rep2 \<longrightarrow> mg_uploaded_objects rep2 = 0)"
      if "migrate_local_object_store_to_s3 cl env True (Some source) False s' = (r2, s2)" for r2 s2
      using that migrate_objects_again [OF assms(1) valid, where s = s'] full
      by (auto simp: migrate_local_object_store_to_s3_def files split: sum.splits)
    ultimately show ?thesis using full by simp
  qed
  ultimately show ?thesis using dry by blast
qed

subsection \<open>A concrete bucket\<close>

definition ex_s3 :: "(string, bytes) hashmap s3_client" where
  "ex_s3 = \<lparr>s3_put = (\<lambda>p b s. (Inr (), hm_insert p b s)),
     s3_get = (\<lambda>p s. case hm_get s p of None \<Rightarrow> Inl S3NotFound | Some b \<Rightarrow> Inr b),
     s3_head = (\<lambda>p s. case hm_get s p of None \<Rightarrow> Inl S3NotFound | Some b \<Rightarrow> Inr (length b)),
     s3_list = (\<lambda>pre s. Inr (filter (\<lambda>p. case pre of None \<Rightarrow> True | Some q \<Rightarrow> starts_with (q @ ''/'') p) (remdups (map fst s)))),
     s3_list_with_delimiter = (\<lambda>_ _. Inr ()), s3_delete = (\<lambda>p s. (Inr (), hm_remove p s)),
     s3_create_multipart = (\<lambda>_ s. (Inl S3Failed, s)), s3_put_part = (\<lambda>_ _ _ _ s. (Inl S3Failed, s)),
     s3_complete_multipart = (\<lambda>_ _ _ s. (Inl S3Failed, s)), s3_abort_multipart = (\<lambda>_ _ s. (Inr (), s)),
     s3_signed_url = (\<lambda>_ p _. Inr p)\<rparr>"

definition ex_s3_env :: s3_env where
  "ex_s3_env = \<lparr>se_object_path = (\<lambda>p. p), se_sha256 = ex_sha256, se_prefix = Some ''p''\<rparr>"

lemma ex_s3_laws: "s3_laws ex_s3 hm_get"
proof -
  have "p \<in> fst ` set s \<longleftrightarrow> hm_get s p \<noteq> None" for p and s :: "(string, bytes) hashmap"
    using map_of_eq_None_iff [of s p] by (auto simp: hm_get_def)
  then show ?thesis by (auto simp: s3_laws_def ex_s3_def fun_eq_iff split: option.splits)
qed

lemma ex_s3_up: "s3_up ex_s3 hm_get"
  by (simp add: s3_up_def ex_s3_def)

lemma ex_s3_apart: "locations_apart (ex_s3_env\<lparr>se_prefix := Some ''r''\<rparr>)" "locations_apart ex_s3_env"
proof -
  have "valid_key ''r''" "valid_key ''p''" unfolding valid_key_def by code_simp+
  then show "locations_apart (ex_s3_env\<lparr>se_prefix := Some ''r''\<rparr>)" "locations_apart ex_s3_env"
    by (simp_all add: locations_apart_def ex_s3_env_def inj_on_def)
qed

definition ex_bucket :: "(string, bytes) hashmap" where
  "ex_bucket = [(''p/a'', ''x''), (''q'', ''y'')]"

definition ex_bucket_backup :: "(backup_error + object_store_backup_report) \<times> object_store_backup_manifest backup_dir" where
  "ex_bucket_backup = backup_s3_object_store ex_s3 ex_s3_env (\<lambda>m. m) OutAbsent ''t'' ex_bucket"

lemma ex_bucket_backup_Inr: "ex_bucket_backup = (Inr \<lparr>rp_object_count = 1, rp_total_size_bytes = 1\<rparr>, snd ex_bucket_backup)"
proof -
  have keys: "s3_list_keys ex_s3 ex_s3_env ex_bucket = Inr [''a'']" by code_simp
  have get: "s3_get_bytes ex_s3 ex_s3_env ''a'' ex_bucket = Inr (Some ''x'')" by code_simp
  show ?thesis
    by (simp add: ex_bucket_backup_def s3_backup_defs keys get Let_def path_conflict_def metadata_for_path_def
        u64_sat_add_def manifest_report_def)
qed

lemma ex_bucket_plain: "plain_paths hm_get ex_s3_env ex_bucket"
  by (auto simp: plain_paths_def ex_s3_env_def ex_bucket_def hm_get_def)

theorem s3_backup_restores_witness:
  "\<exists>t'. restore_s3_object_store ex_s3 (ex_s3_env\<lparr>se_prefix := Some ''r''\<rparr>) Some (snd ex_bucket_backup) [(''z'', ''w'')]
      = (Inr \<lparr>rp_object_count = 1, rp_total_size_bytes = 1\<rparr>, t') \<and> hm_get t' ''r/a'' = Some ''x''"
proof -
  obtain r t' where run: "restore_s3_object_store ex_s3 (ex_s3_env\<lparr>se_prefix := Some ''r''\<rparr>) Some (snd ex_bucket_backup) [(''z'', ''w'')] = (r, t')"
    by fastforce
  have "valid_key ''a''" unfolding valid_key_def by code_simp
  moreover have "hm_get ex_bucket (bucket_path (se_prefix ex_s3_env) ''a'') = Some ''x''"
    by (simp add: ex_bucket_def bucket_path_def ex_s3_env_def hm_get_def)
  moreover have at: "location (ex_s3_env\<lparr>se_prefix := Some ''r''\<rparr>) ''a'' = ''r/a''"
    by (simp add: location_def bucket_path_def ex_s3_env_def)
  moreover have small: "rp_total_size_bytes \<lparr>rp_object_count = 1, rp_total_size_bytes = 1\<rparr> < 2 ^ 64 - 1" by simp
  moreover have "\<forall>m. Some m = Some m" by simp
  note full = s3_backup_restores [OF ex_s3_laws ex_bucket_plain this ex_bucket_backup_Inr [unfolded ex_bucket_backup_def] small
      ex_s3_apart(1) run [unfolded ex_bucket_backup_def], folded ex_bucket_backup_def]
  have r: "r = Inr \<lparr>rp_object_count = 1, rp_total_size_bytes = 1\<rparr>"
    using full [THEN conjunct2, THEN conjunct1] ex_s3_up by (rule mp)
  moreover note full [THEN conjunct2, THEN conjunct2, THEN spec, THEN mp, OF r, THEN conjunct2, THEN conjunct1, THEN spec, THEN spec,
      of "''a''" "''x''"]
  ultimately show ?thesis using run by simp
qed

text \<open>A bucket whose second write fails.\<close>

definition ex_failing_s3 :: "(string, bytes) hashmap s3_client" where
  "ex_failing_s3 = ex_s3\<lparr>s3_put := (\<lambda>p b s. if s = [] then (Inr (), hm_insert p b s) else (Inl S3Failed, s))\<rparr>"

theorem s3_restore_never_tears_witness:
  "let t' = snd (restore_s3_object_store ex_failing_s3 ex_s3_env Some (snd ex_bucket_backup) [(''z'', ''w'')])
   in hm_get t' ''z'' = Some ''w'' \<or> (\<exists>k b. valid_key k \<and> ''z'' = location ex_s3_env k \<and> hm_get t' ''z'' = Some b)"
proof -
  have laws: "s3_laws ex_failing_s3 hm_get"
    using ex_s3_laws by (simp add: s3_laws_def ex_failing_s3_def) (simp add: ex_s3_def)
  obtain r t' where run: "restore_s3_object_store ex_failing_s3 ex_s3_env Some (snd ex_bucket_backup) [(''z'', ''w'')] = (r, t')"
    by fastforce
  have "hm_get [(''z'', ''w'')] ''z'' = Some ''w''" by (simp add: hm_get_def)
  then show ?thesis
    using s3_restore_never_tears [OF laws run, of "''z''", THEN conjunct1] run by auto
qed

definition ex_escaping_env :: s3_env where
  "ex_escaping_env = \<lparr>se_object_path = (\<lambda>p. case strip_prefix ''~b'' p of Some u \<Rightarrow> ''%7Eb'' @ u | None \<Rightarrow> p),
     se_sha256 = (\<lambda>b. b), se_prefix = Some ''~b''\<rparr>"

theorem escaped_prefix_backs_up_nothing_witness:
  "fst (backup_s3_object_store ex_s3 ex_escaping_env (\<lambda>m. m) OutAbsent ''t''
      (snd (s3_put_bytes ex_s3 ex_escaping_env ''a'' ''x'' []))) = Inr \<lparr>rp_object_count = 0, rp_total_size_bytes = 0\<rparr>"
proof -
  have pre: "se_prefix ex_escaping_env = Some ''~b''" and path: "se_object_path ex_escaping_env ''~b'' = ''%7Eb''"
    by (simp_all add: ex_escaping_env_def)
  have apart: "\<forall>u. \<not> starts_with (''~b'' @ ''/'') (''%7Eb'' @ ''/'' @ u)" by (simp add: starts_with_iff)
  obtain ps where list: "s3_list ex_s3 (Some ''%7Eb'') (snd (s3_put_bytes ex_s3 ex_escaping_env ''a'' ''x'' [])) = Inr ps"
    by (simp add: ex_s3_def)
  have "OutAbsent \<noteq> OutNonEmpty" by simp
  from escaped_prefix_backs_up_nothing [OF ex_s3_laws pre path apart list this, of "\<lambda>m. m" "''t''"] show ?thesis by fastforce
qed

theorem migration_complete_witness:
  "\<exists>rep s'. migrate_local_object_store_to_s3 ex_s3 ex_s3_env True (Some [(''a'', FileN ''x'')]) False [] = (Inr rep, s') \<and>
    hm_get s' ''p/a'' = Some ''x'' \<and>
    snd (migrate_local_object_store_to_s3 ex_s3 ex_s3_env True (Some [(''a'', FileN ''x'')]) False s') = s'"
proof -
  let ?source = "[(''a'', FileN ''x'')]"
  let ?run = "migrate_local_object_store_to_s3 ex_s3 ex_s3_env True (Some ?source) False []"
  let ?local = "metadata_for_path (se_sha256 ex_s3_env) ''a'' ''x''"
  have files: "collect_files [] ?source = Inr [(''a'', ''x'')]" by code_simp
  have new: "already_migrated ex_s3 ex_s3_env ''a'' ?local [] = Inr False" by code_simp
  have put: "s3_put_bytes ex_s3 ex_s3_env ''a'' ''x'' [] = (Inr (), [(''p/a'', ''x'')])" by code_simp
  have got: "s3_object_metadata ex_s3 ex_s3_env ''a'' [(''p/a'', ''x'')] = Inr ?local" by code_simp
  have "s3_health_check ex_s3 ex_s3_env [] = Inr ()" by code_simp
  then have "\<exists>rep s'. ?run = (Inr rep, s')"
    by (simp add: migrate_local_object_store_to_s3_def files migrate_object_def Let_def new put got del: collect_files.simps)
  then obtain rep s' where run: "?run = (Inr rep, s')" by blast
  have clash: "\<forall>ns c b. file_at ?source ns = Some c \<and> hm_get [] (location ex_s3_env (join_path ns)) = Some b \<longrightarrow>
    \<not> collides ex_s3_env b c" by (simp add: hm_get_def)
  have ok: "tree_ok ?source" by (simp add: name_ok_def)
  have at: "location ex_s3_env (join_path [''a'']) = ''p/a''" by (simp add: location_def bucket_path_def ex_s3_env_def)
  have "Inr rep = Inr rep \<and> \<not> False" by simp
  note full = migration_complete [OF ex_s3_laws ex_s3_apart(2) ok clash run, THEN conjunct2, THEN conjunct2, THEN spec, THEN mp, OF this]
  have "hm_get s' ''p/a'' = Some ''x''"
    using full [THEN conjunct1, THEN spec, THEN spec, of "[''a'']" "''x''"] at by (simp add: name_ok_def)
  moreover obtain r2 s2 where again: "migrate_local_object_store_to_s3 ex_s3 ex_s3_env True (Some ?source) False s' = (r2, s2)"
    by fastforce
  moreover have "s2 = s'"
    using full [THEN conjunct2, THEN conjunct2, THEN spec, THEN spec, THEN mp, OF again] by simp
  ultimately show ?thesis using run by simp
qed

end
