(* ===== verification/Recovery_Drill.thy ===== *)
theory Recovery_Drill
  imports Backup_Runtime_Laws
begin

section \<open>The recovery drill (infrastructure/backup_runtime.rs)\<close>

text \<open>
  The newest bundle is unpacked and restored aside: its objects into a directory of the drill, its database into a
  temporary one, which is dropped at the end. The state is that of the backup runs, the status of the drill, and the
  databases of the server it runs on, each with the dump it was last restored from. What the server and the clock answer is
  \<open>drill_env\<close>.
\<close>

record recovery_drill_report =
  dq_bundle_created_at :: string
  dq_file_count :: nat
  dq_object_count :: nat
  dq_book_count :: int
  dq_transaction_count :: int
  dq_duration_ms :: nat

record recovery_drill_status =
  ds_outcome :: run_outcome
  ds_started_at :: string
  ds_completed_at :: string
  ds_duration_ms :: nat
  ds_bundle_created_at :: string
  ds_file_count :: nat
  ds_object_count :: nat
  ds_book_count :: int
  ds_transaction_count :: int
  ds_error_summary :: "string option"

type_synonym databases = "(string, bytes option) hashmap"

record drill_world =
  dw_backup :: backup_world
  dw_status :: "recovery_drill_status option"
  dw_databases :: databases

text \<open>
  The fate of a statement of the drill: it is carried out and answered, it is not carried out, or it is carried out and its
  reply is lost. \<open>de_role\<close> is whether the role may create databases, if that could be read; \<open>de_uuid\<close> is the new id in
  hex; \<open>de_left\<close> is what a \<open>pg_restore\<close> that fails has put into the temporary database.
\<close>

datatype admin_fate = Done | NotDone | DoneUnanswered

record drill_env =
  de_uuid :: string
  de_bundle_root_ok :: bool
  de_work_dir_ok :: bool
  de_recovery_database_url :: "string option"
  de_database_url :: "string option"
  de_connect_ok :: bool
  de_role :: "bool option"
  de_url_ok :: bool
  de_create :: admin_fate
  de_io :: restore_io
  de_pg_restore_ok :: bool
  de_left :: "bytes option"
  de_database :: "bytes \<Rightarrow> restored_db option"
  de_drop :: admin_fate
  de_started_at :: string
  de_completed_at :: string
  de_duration_ms :: nat
  de_audit_db :: bool
  de_status_ok :: bool

subsection \<open>The temporary database\<close>

definition drill_database_name :: "drill_env \<Rightarrow> string" where
  "drill_database_name en = ''ledgerly_drill_'' @ take 12 (de_uuid en)"

text \<open>\<open>CREATE DATABASE\<close> fails when the name is taken. When its reply is lost the database is there and nobody drops it.\<close>

definition create_temporary_database :: "drill_env \<Rightarrow> databases \<Rightarrow> (runtime_error + string) \<times> databases" where
  "create_temporary_database en dbs =
     (if \<not> de_connect_ok en then (Inl AdminUnavailable, dbs)
      else case de_role en of None \<Rightarrow> (Inl RoleUnreadable, dbs) | Some can_create \<Rightarrow>
      if \<not> can_create then (Inl RoleCannotCreate, dbs)
      else let name = drill_database_name en in
        if \<not> de_url_ok en then (Inl BadDatabaseUrl, dbs)
        else if de_create en = NotDone \<or> hm_get dbs name \<noteq> None then (Inl CreateDatabaseFailed, dbs)
        else (if de_create en = Done then Inr name else Inl CreateDatabaseFailed, hm_insert name None dbs))"

definition drop_database :: "drill_env \<Rightarrow> string \<Rightarrow> databases \<Rightarrow> (runtime_error + unit) \<times> databases" where
  "drop_database en name dbs =
     (case de_drop en of
        Done \<Rightarrow> (Inr (), hm_remove name dbs)
      | NotDone \<Rightarrow> (Inl DropDatabaseFailed, dbs)
      | DoneUnanswered \<Rightarrow> (Inl DropDatabaseFailed, hm_remove name dbs))"

subsection \<open>The drill\<close>

text \<open>The objects go to a fresh directory, whatever store the server uses.\<close>

definition execute_recovery_drill :: "backup_lib \<Rightarrow> drill_env \<Rightarrow> (string, bytes) hashmap \<Rightarrow> nat \<Rightarrow> string \<Rightarrow> databases \<Rightarrow>
    (runtime_error + nat \<times> int \<times> int) \<times> databases" where
  "execute_recovery_drill lib en files expected_object_count name dbs =
     (let sha256 = cy_sha256 (bl_crypto lib) in
      case restore_object_store sha256 (bl_decode_objects lib) True (de_io en) (object_backup_of (below ''object-store/'' files))
             TargetAbsent of
        (Inl e, _) \<Rightarrow> (Inl (ObjectRestoreFailed e), dbs)
      | (Inr _, objects) \<Rightarrow>
          (case hm_get files DATABASE_LOGICAL_PATH of None \<Rightarrow> (Inl PgRestoreFailed, dbs) | Some dump \<Rightarrow>
           if \<not> de_pg_restore_ok en then (Inl PgRestoreFailed, hm_insert name (de_left en) dbs)
           else let dbs = hm_insert name (Some dump) dbs in
             case de_database en dump of None \<Rightarrow> (Inl RestoredDatabaseUnavailable, dbs) | Some db \<Rightarrow>
             case verify_restored_state (object_metadata_in sha256 objects) db of Inl e \<Rightarrow> (Inl e, dbs)
             | Inr (object_count, book_count, transaction_count) \<Rightarrow>
                 if object_count \<noteq> expected_object_count then (Inl DrillCountMismatch, dbs)
                 else (Inr (object_count, book_count, transaction_count), dbs)))"

text \<open>The database is dropped whatever the steps gave; their error goes first.\<close>

definition drill_database :: "backup_lib \<Rightarrow> drill_env \<Rightarrow> backup_bundle_summary \<Rightarrow> (string, bytes) hashmap \<Rightarrow> nat \<Rightarrow> databases \<Rightarrow>
    (runtime_error + recovery_drill_report) \<times> databases" where
  "drill_database lib en bundle files expected_object_count dbs =
     (case create_temporary_database en dbs of
        (Inl e, dbs) \<Rightarrow> (Inl e, dbs)
      | (Inr name, dbs) \<Rightarrow>
          (case execute_recovery_drill lib en files expected_object_count name dbs of
             (steps, dbs) \<Rightarrow>
               (case drop_database en name dbs of
                  (drop_result, dbs) \<Rightarrow>
                    (case steps of Inl e \<Rightarrow> Inl e
                     | Inr (object_count, book_count, transaction_count) \<Rightarrow>
                         (case drop_result of Inl e \<Rightarrow> Inl e
                          | Inr _ \<Rightarrow> Inr \<lparr>dq_bundle_created_at = bsm_created_at bundle, dq_file_count = bsm_file_count bundle,
                              dq_object_count = object_count, dq_book_count = book_count,
                              dq_transaction_count = transaction_count, dq_duration_ms = 0\<rparr>), dbs))))"

text \<open>The bundle is the newest one off site, or of the local ones when there is no such directory.\<close>

definition drill_root :: "runtime_config \<Rightarrow> backup_world \<Rightarrow> (string \<times> fs_node) list" where
  "drill_root cfg w = (if rk_backup_offsite_dir cfg = None then bw_bundles w else bw_offsite w)"

definition drill_bundle :: "backup_lib \<Rightarrow> runtime_config \<Rightarrow> drill_env \<Rightarrow> backup_world \<Rightarrow> backup_bundle_summary option" where
  "drill_bundle lib cfg en w =
     find_latest_backup_bundle (bl_decode lib) (bl_parse_time lib) (if de_bundle_root_ok en then Some (drill_root cfg w) else None)"

definition drill_steps :: "backup_lib \<Rightarrow> runtime_config \<Rightarrow> drill_env \<Rightarrow> backup_world \<Rightarrow> backup_bundle_summary \<Rightarrow> databases \<Rightarrow>
    (runtime_error + recovery_drill_report) \<times> databases" where
  "drill_steps lib cfg en w bundle dbs =
     (let dir = bundle_named (drill_root cfg w) (bsm_path bundle) in
      case resolve_backup_password lib cfg dir None of Inl e \<Rightarrow> (Inl e, dbs) | Inr password \<Rightarrow>
      case lib_verify lib dir password of Inl e \<Rightarrow> (Inl (BundleFailed e), dbs) | Inr verification \<Rightarrow>
      if \<not> bv_plaintext_verified verification then (Inl BundlePasswordRequired, dbs)
      else if \<not> de_work_dir_ok en then (Inl WorkDirFailed, dbs)
      else case unpack_backup_bundle (bl_crypto lib) (bl_decode lib) dir False password of
        Inl e \<Rightarrow> (Inl (BundleFailed e), dbs)
      | Inr (_, files) \<Rightarrow>
          (case lib_verify_objects lib (below ''object-store/'' files) of Inl e \<Rightarrow> (Inl (ObjectsInvalid e), dbs)
           | Inr object_verification \<Rightarrow>
               if de_recovery_database_url en = None \<and> de_database_url en = None then (Inl DatabaseUrlMissing, dbs)
               else drill_database lib en bundle files (rp_object_count object_verification) dbs))"

definition drill_status_of :: "backup_lib \<Rightarrow> drill_env \<Rightarrow> string \<Rightarrow> runtime_error + recovery_drill_report \<Rightarrow>
    recovery_drill_status option" where
  "drill_status_of lib en bundle_created_at result =
     (case result of
        Inr report \<Rightarrow> Some
          \<lparr>ds_outcome = RunSuccess, ds_started_at = de_started_at en, ds_completed_at = de_completed_at en,
           ds_duration_ms = de_duration_ms en, ds_bundle_created_at = dq_bundle_created_at report,
           ds_file_count = dq_file_count report, ds_object_count = dq_object_count report,
           ds_book_count = dq_book_count report, ds_transaction_count = dq_transaction_count report, ds_error_summary = None\<rparr>
      | Inl e \<Rightarrow> map_option (\<lambda>summary.
          \<lparr>ds_outcome = RunFailed, ds_started_at = de_started_at en, ds_completed_at = de_completed_at en,
           ds_duration_ms = de_duration_ms en, ds_bundle_created_at = bundle_created_at,
           ds_file_count = 0, ds_object_count = 0, ds_book_count = 0, ds_transaction_count = 0, ds_error_summary = Some summary\<rparr>)
          (truncate_error (bl_message lib e)))"

text \<open>\<open>None\<close>: the drill panics over its error message.\<close>

definition run_recovery_drill :: "backup_lib \<Rightarrow> runtime_config \<Rightarrow> drill_env \<Rightarrow> drill_world \<Rightarrow>
    ((runtime_error + recovery_drill_report) \<times> drill_world) option" where
  "run_recovery_drill lib cfg en w =
     (if rk_backup_dir cfg = None then Some (Inl BackupDirMissing, w)
      else case (case drill_bundle lib cfg en (dw_backup w) of
            None \<Rightarrow> (Inl NoBundle, dw_databases w, [])
          | Some bundle \<Rightarrow> (case drill_steps lib cfg en (dw_backup w) bundle (dw_databases w) of
              (steps, dbs) \<Rightarrow> (steps, dbs, bsm_created_at bundle))) of
        (steps, dbs, bundle_created_at) \<Rightarrow>
          let result = map_sum (\<lambda>e. e) (dq_duration_ms_update (\<lambda>_. de_duration_ms en)) steps in
          map_option (\<lambda>status.
            let w = w\<lparr>dw_databases := dbs,
                  dw_backup := record_runtime_audit (de_audit_db en) ''recovery_drill.run'' (\<not> isl result) (Some bundle_created_at) (dw_backup w)\<rparr> in
            if de_status_ok en then (result, w\<lparr>dw_status := Some status\<rparr>)
            else (case result of Inr _ \<Rightarrow> Inl StatusWriteFailed | Inl e \<Rightarrow> Inl e, w))
          (drill_status_of lib en bundle_created_at result))"

subsection \<open>What a drill leaves behind\<close>

lemma create_temporary_database_result:
  assumes "create_temporary_database en dbs = (r, dbs')"
  shows "(\<exists>e. r = Inl e \<and> dbs' = dbs) \<or>
    (\<exists>e. r = Inl e \<and> de_create en = DoneUnanswered \<and> hm_get dbs (drill_database_name en) = None \<and>
      dbs' = hm_insert (drill_database_name en) None dbs) \<or>
    (r = Inr (drill_database_name en) \<and> hm_get dbs (drill_database_name en) = None \<and> dbs' = hm_insert (drill_database_name en) None dbs)"
  using assms by (cases "de_create en") (auto simp: create_temporary_database_def Let_def split: if_splits option.splits)

lemma execute_recovery_drill_databases:
  assumes "execute_recovery_drill lib en files n name dbs = (r, dbs')"
  shows "dbs' = dbs \<or> (\<exists>x. dbs' = hm_insert name x dbs)"
  using assms
  by (auto simp: execute_recovery_drill_def Let_def split: prod.splits sum.splits option.splits if_splits)

text \<open>The ways a temporary database stays behind.\<close>

definition may_leave :: "drill_env \<Rightarrow> bool" where
  "may_leave en \<longleftrightarrow> de_create en = DoneUnanswered \<or> de_drop en = NotDone"

lemma drill_database_databases:
  assumes "drill_database lib en bundle files n dbs = (r, dbs')"
  shows "(d = drill_database_name en \<and> hm_get dbs d = None \<and> may_leave en \<and> isl r) \<or> hm_get dbs' d = hm_get dbs d"
proof -
  obtain r1 dbs1 where create: "create_temporary_database en dbs = (r1, dbs1)" by fastforce
  note made = create_temporary_database_result [OF create]
  show ?thesis
  proof (cases r1)
    case (Inl e)
    then have "r = Inl e" "dbs' = dbs1" using assms by (simp_all add: drill_database_def create)
    then show ?thesis using made Inl by (cases "d = drill_database_name en") (auto simp: may_leave_def)
  next
    case (Inr name)
    obtain steps dbs2 where steps: "execute_recovery_drill lib en files n name dbs1 = (steps, dbs2)" by fastforce
    have "dbs' = snd (drop_database en name dbs2)" and "de_drop en = NotDone \<Longrightarrow> isl r"
      using assms by (auto simp: drill_database_def create Inr steps drop_database_def split: sum.splits prod.splits)
    moreover have "hm_get dbs2 d = hm_get dbs d" if "d \<noteq> name"
      using execute_recovery_drill_databases [OF steps] made Inr that by auto
    ultimately show ?thesis using made Inr
      by (cases "d = name"; cases "de_drop en") (auto simp: drop_database_def may_leave_def)
  qed
qed

lemma drill_steps_databases:
  assumes "drill_steps lib cfg en w bundle dbs = (r, dbs')"
  shows "(d = drill_database_name en \<and> hm_get dbs d = None \<and> may_leave en \<and> isl r) \<or> hm_get dbs' d = hm_get dbs d"
  using assms drill_database_databases
  by (fastforce simp: drill_steps_def Let_def split: sum.splits prod.splits if_splits)

lemma drill_database_taken:
  assumes "hm_get dbs (drill_database_name en) \<noteq> None"
  shows "isl (fst (drill_database lib en bundle files n dbs))"
  using assms by (auto simp: drill_database_def create_temporary_database_def Let_def split: option.splits)

lemma drill_steps_taken:
  assumes "hm_get dbs (drill_database_name en) \<noteq> None"
  shows "isl (fst (drill_steps lib cfg en w bundle dbs))"
  using drill_database_taken [OF assms] by (auto simp: drill_steps_def Let_def split: sum.splits)

text \<open>
  C19. A drill leaves no trace but its status and an audit event: bundles, off-site copies and the statuses of backups and
  restores stay as they are, and so does every database that was there. The temporary one is gone, with two exceptions in
  which the drill does not report success: dropping it failed, or the reply to its creation was lost, and then
  nothing drops it. A success is recorded with the counts it reports. When the name of
  the temporary database is taken the drill fails and leaves the other database alone.
\<close>

theorem drill_leaves_no_trace:
  assumes "run_recovery_drill lib cfg en w = Some (r, w')"
  shows "bw_bundles (dw_backup w') = bw_bundles (dw_backup w) \<and> bw_offsite (dw_backup w') = bw_offsite (dw_backup w) \<and>
    bw_status (dw_backup w') = bw_status (dw_backup w) \<and> bw_restore_status (dw_backup w') = bw_restore_status (dw_backup w) \<and>
    (\<forall>d. d \<noteq> drill_database_name en \<or> hm_get (dw_databases w) d \<noteq> None \<or>
        de_create en \<noteq> DoneUnanswered \<and> de_drop en \<noteq> NotDone \<or> \<not> isl r \<longrightarrow>
      hm_get (dw_databases w') d = hm_get (dw_databases w) d) \<and>
    (hm_get (dw_databases w) (drill_database_name en) \<noteq> None \<longrightarrow> isl r) \<and>
    (\<forall>rep. r = Inr rep \<longrightarrow> (\<exists>status. dw_status w' = Some status \<and> ds_outcome status = RunSuccess \<and>
      ds_bundle_created_at status = dq_bundle_created_at rep \<and> ds_object_count status = dq_object_count rep \<and>
      ds_book_count status = dq_book_count rep \<and> ds_transaction_count status = dq_transaction_count rep))"
proof (cases "rk_backup_dir cfg = None")
  case True
  then have "r = Inl BackupDirMissing" "w' = w" using assms by (simp_all add: run_recovery_drill_def)
  then show ?thesis by simp
next
  case False
  define found where "found = drill_bundle lib cfg en (dw_backup w)"
  obtain steps dbs created where c: "(case found of None \<Rightarrow> (Inl NoBundle, dw_databases w, [])
      | Some bundle \<Rightarrow> (case drill_steps lib cfg en (dw_backup w) bundle (dw_databases w) of
          (steps, dbs) \<Rightarrow> (steps, dbs, bsm_created_at bundle))) = (steps, dbs, created)"
    by (rule prod_cases3)
  have s: "steps = Inl NoBundle \<and> dbs = dw_databases w \<or>
      (\<exists>bundle. drill_steps lib cfg en (dw_backup w) bundle (dw_databases w) = (steps, dbs))"
    using c by (cases found) (auto split: prod.splits)
  define result where "result = map_sum (\<lambda>e. e) (dq_duration_ms_update (\<lambda>_. de_duration_ms en)) steps"
  have facts: "\<exists>status. drill_status_of lib en created result = Some status \<and>
        dw_backup w' = record_runtime_audit (de_audit_db en) ''recovery_drill.run'' (\<not> isl result) (Some created) (dw_backup w) \<and>
        dw_databases w' = dbs \<and> (\<not> isl r \<longrightarrow> r = result \<and> dw_status w' = Some status) \<and> (isl result \<longrightarrow> isl r)"
    using assms False c
    by (cases steps; simp add: run_recovery_drill_def found_def [symmetric] result_def Let_def; force split: if_splits)
  have trace: "(d = drill_database_name en \<and> hm_get (dw_databases w) d = None \<and> may_leave en \<and> isl steps) \<or>
      hm_get dbs d = hm_get (dw_databases w) d" for d
    using s drill_steps_databases [of lib cfg en "dw_backup w" _ "dw_databases w" steps dbs d] by auto
  have taken: "hm_get (dw_databases w) (drill_database_name en) \<noteq> None \<Longrightarrow> isl steps"
    using s drill_steps_taken [of "dw_databases w" en lib cfg "dw_backup w"] by (metis fst_conv sum.disc(1))
  have "isl steps \<Longrightarrow> isl r" using facts by (cases steps) (auto simp: result_def)
  moreover have "bw_bundles (dw_backup w') = bw_bundles (dw_backup w) \<and> bw_offsite (dw_backup w') = bw_offsite (dw_backup w) \<and>
    bw_status (dw_backup w') = bw_status (dw_backup w) \<and> bw_restore_status (dw_backup w') = bw_restore_status (dw_backup w)"
    using facts by (auto simp: record_runtime_audit_def Let_def)
  moreover have "\<exists>status. dw_status w' = Some status \<and> ds_outcome status = RunSuccess \<and>
      ds_bundle_created_at status = dq_bundle_created_at rep \<and> ds_object_count status = dq_object_count rep \<and>
      ds_book_count status = dq_book_count rep \<and> ds_transaction_count status = dq_transaction_count rep" if "r = Inr rep" for rep
    using facts that by (cases steps) (auto simp: drill_status_of_def result_def)
  moreover have "\<forall>d. d \<noteq> drill_database_name en \<or> hm_get (dw_databases w) d \<noteq> None \<or>
      de_create en \<noteq> DoneUnanswered \<and> de_drop en \<noteq> NotDone \<or> \<not> isl r \<longrightarrow> hm_get (dw_databases w') d = hm_get (dw_databases w) d"
    using trace calculation(1) facts unfolding may_leave_def by metis
  ultimately show ?thesis using taken by blast
qed

subsection \<open>What a drill foretells\<close>

lemma restore_object_store_same:
  assumes "restore_object_store sha256 decode True io dir TargetAbsent = (Inr rep, out)" and "target \<noteq> TargetFile"
    and "io_move_away io'" "io_publish io'" "io_remove_previous io'"
  shows "restore_object_store sha256 decode True io' dir target = (Inr rep, out)"
  using assms
  by (cases target) (auto simp: restore_object_store_def publish_staging_def Let_def split: sum.splits if_splits prod.splits)

lemma execute_recovery_drill_Inr:
  assumes "execute_recovery_drill lib en files n name dbs = (Inr (oc, bc, tc), dbs')"
  obtains rep objects dump db where
    "restore_object_store (cy_sha256 (bl_crypto lib)) (bl_decode_objects lib) True (de_io en)
       (object_backup_of (below ''object-store/'' files)) TargetAbsent = (Inr rep, objects)"
    "hm_get files DATABASE_LOGICAL_PATH = Some dump" "de_database en dump = Some db" "oc = n"
    "verify_restored_state (object_metadata_in (cy_sha256 (bl_crypto lib)) objects) db = Inr (oc, bc, tc)"
  using assms by (auto simp: execute_recovery_drill_def Let_def split: sum.splits prod.splits option.splits if_splits)

lemma drill_database_Inr:
  assumes "drill_database lib en bundle files n dbs = (Inr rep, dbs')"
  obtains name dbs1 dbs2 where "execute_recovery_drill lib en files n name dbs1 =
    (Inr (dq_object_count rep, dq_book_count rep, dq_transaction_count rep), dbs2)"
  using assms by (auto simp: drill_database_def split: sum.splits prod.splits)

lemma drill_restores:
  assumes "execute_recovery_drill lib en files n name dbs = (Inr (oc, bc, tc), dbs')"
    and "lib_verify_objects lib (below ''object-store/'' files) = Inr v" and "rp_object_count v = n"
    and "re_database re = de_database en" "re_pg_restore_ok re" "sd_objects data \<noteq> TargetFile"
    and "io_move_away (re_io re)" "io_publish (re_io re)" "io_remove_previous (re_io re)"
  shows "\<exists>rr data'. restore_steps lib re files k sid data = (Inr rr, data') \<and> rq_object_count rr = oc \<and>
    rq_book_count rr = bc \<and> rq_transaction_count rr = tc \<and> sd_database data' = hm_get files DATABASE_LOGICAL_PATH"
proof -
  obtain rep objects dump db where d:
    "restore_object_store (cy_sha256 (bl_crypto lib)) (bl_decode_objects lib) True (de_io en)
       (object_backup_of (below ''object-store/'' files)) TargetAbsent = (Inr rep, objects)"
    "hm_get files DATABASE_LOGICAL_PATH = Some dump" "de_database en dump = Some db" "oc = n"
    "verify_restored_state (object_metadata_in (cy_sha256 (bl_crypto lib)) objects) db = Inr (oc, bc, tc)"
    by (rule execute_recovery_drill_Inr [OF assms(1)])
  show ?thesis
    using restore_object_store_same [OF d(1) assms(6-9)] d(2-5) assms(2-5) by (simp add: restore_steps_def Let_def)
qed

text \<open>
  C20. A drill that passes foretells the restore: the bundle opens with the password the server finds for it, and from
  the files it unpacks to a restore succeeds on every server whose tools and disk do their work, whatever was there
  before, with the counts of objects, books and transactions that the drill reported and the database of the bundle.
\<close>

theorem drill_predicts_restore:
  assumes "drill_steps lib cfg en w bundle dbs = (Inr rep, dbs')"
    and "re_database re = de_database en" "re_pg_restore_ok re" "sd_objects data \<noteq> TargetFile"
    and "io_move_away (re_io re)" "io_publish (re_io re)" "io_remove_previous (re_io re)"
  shows "\<exists>password n files rr data'.
    resolve_backup_password lib cfg (bundle_named (drill_root cfg w) (bsm_path bundle)) None = Inr password \<and>
    unpack_backup_bundle (bl_crypto lib) (bl_decode lib) (bundle_named (drill_root cfg w) (bsm_path bundle)) False password = Inr (n, files) \<and>
    restore_steps lib re files k sid data = (Inr rr, data') \<and> rq_object_count rr = dq_object_count rep \<and>
    rq_book_count rr = dq_book_count rep \<and> rq_transaction_count rr = dq_transaction_count rep \<and>
    sd_database data' = hm_get files DATABASE_LOGICAL_PATH"
proof -
  obtain password n files v where
    p: "resolve_backup_password lib cfg (bundle_named (drill_root cfg w) (bsm_path bundle)) None = Inr password"
      "unpack_backup_bundle (bl_crypto lib) (bl_decode lib) (bundle_named (drill_root cfg w) (bsm_path bundle)) False password = Inr (n, files)"
    and v: "lib_verify_objects lib (below ''object-store/'' files) = Inr v"
    and d: "drill_database lib en bundle files (rp_object_count v) dbs = (Inr rep, dbs')"
    using assms(1) by (auto simp: drill_steps_def Let_def split: sum.splits if_splits)
  obtain name dbs1 dbs2 where "execute_recovery_drill lib en files (rp_object_count v) name dbs1 =
    (Inr (dq_object_count rep, dq_book_count rep, dq_transaction_count rep), dbs2)"
    by (rule drill_database_Inr [OF d])
  from drill_restores [OF this v refl assms(2-7)] show ?thesis using p by blast
qed

subsection \<open>Witnesses\<close>

definition ex_drill_env :: drill_env where
  "ex_drill_env = \<lparr>de_uuid = ''0197a2b3c4d5e6f7'', de_bundle_root_ok = True, de_work_dir_ok = True,
     de_recovery_database_url = None, de_database_url = Some ''u'', de_connect_ok = True, de_role = Some True, de_url_ok = True,
     de_create = Done, de_io = ex_io, de_pg_restore_ok = True, de_left = None, de_database = (\<lambda>_. Some ex_db), de_drop = Done,
     de_started_at = ''22'', de_completed_at = ''333'', de_duration_ms = 5, de_audit_db = True, de_status_ok = True\<rparr>"

definition ex_drill_world :: drill_world where
  "ex_drill_world = \<lparr>dw_backup = ex_world\<lparr>bw_bundles := [(''good'', DirN (dir_tree ex_safety_dir))]\<rparr>, dw_status = None,
     dw_databases = [(''ledgerly'', Some ''DB'')]\<rparr>"

theorem drill_leaves_no_trace_witness:
  "\<exists>rep w'. run_recovery_drill ex_lib ex_cfg ex_drill_env ex_drill_world = Some (Inr rep, w') \<and>
     hm_get (dw_databases w') ''ledgerly_drill_0197a2b3c4d5'' = None \<and> hm_get (dw_databases w') ''ledgerly'' = Some (Some ''DB'')"
proof -
  let ?r = "run_recovery_drill ex_lib ex_cfg ex_drill_env ex_drill_world"
  have "map_option (\<lambda>(r, _). isl r) ?r = Some False" by code_simp
  then obtain r w' where r: "?r = Some (r, w')" "\<not> isl r" by auto
  from drill_leaves_no_trace [OF r(1)] r(2)
  have "hm_get (dw_databases w') d = hm_get (dw_databases ex_drill_world) d" for d by blast
  moreover obtain rep where "r = Inr rep" using r(2) by (cases r) auto
  ultimately show ?thesis using r(1) by (intro exI [of _ rep] exI [of _ w']) (simp add: ex_drill_world_def hm_get_def)
qed

theorem drill_predicts_restore_witness:
  "\<exists>files rr data'. restore_steps ex_lib ex_restore_env files 2 ''safety'' ex_server_data = (Inr rr, data') \<and>
     rq_transaction_count rr = 2 \<and> sd_database data' = hm_get files DATABASE_LOGICAL_PATH"
proof -
  let ?b = "the (drill_bundle ex_lib ex_cfg ex_drill_env (dw_backup ex_drill_world))"
  let ?r = "drill_steps ex_lib ex_cfg ex_drill_env (dw_backup ex_drill_world) ?b []"
  have "map_sum (\<lambda>_. ()) dq_transaction_count (fst ?r) = Inr 2" by code_simp
  then obtain rep dbs' where r: "?r = (Inr rep, dbs')" "dq_transaction_count rep = 2"
    by (cases ?r; cases "fst ?r") auto
  show ?thesis
    using drill_predicts_restore [OF r(1), of ex_restore_env ex_server_data 2 "''safety''"] r(2)
    by (auto simp: ex_restore_env_def ex_drill_env_def ex_server_data_def ex_io_def)
qed

end
