(* ===== verification/Metrics.thy ===== *)
theory Metrics
  imports Float64
begin

section \<open>Metrics (metrics.rs)\<close>

text \<open>
  What the server counts and measures for Prometheus. The registry holds the value of every series: a metric with its
  labels. A counter adds up, a gauge keeps the last value, a histogram keeps its observations. Every \<open>record\<close>
  function of the code is one of the model on the registry; \<open>f64\<close> values are rationals (Float64).
\<close>

datatype metric_kind = Counter | Gauge | Histogram

datatype metric_unit = SecondsUnit | CountUnit | BytesUnit | PercentUnit

type_synonym series = "string \<times> (string \<times> string) list"

record metrics =
  mt_counters :: "(series, nat) hashmap"
  mt_gauges :: "(series, rat) hashmap"
  mt_histograms :: "(series, rat list) hashmap"

definition no_metrics :: metrics where
  "no_metrics = \<lparr>mt_counters = [], mt_gauges = [], mt_histograms = []\<rparr>"

subsection \<open>Descriptors and labels\<close>

definition register_metrics :: "(metric_kind \<times> string \<times> metric_unit) list" where
  "register_metrics =
     [(Histogram, ''http_request_duration_seconds'', SecondsUnit),
      (Counter, ''http_requests_total'', CountUnit), (Counter, ''auth_errors_total'', CountUnit),
      (Counter, ''job_outcomes_total'', CountUnit), (Counter, ''job_rules_skipped_total'', CountUnit),
      (Counter, ''sync_push_mutations_total'', CountUnit), (Counter, ''sync_pull_responses_total'', CountUnit),
      (Gauge, ''postgres_pool_connections'', CountUnit), (Gauge, ''postgres_pool_min_connections'', CountUnit),
      (Gauge, ''postgres_pool_max_connections'', CountUnit), (Gauge, ''backup_state'', CountUnit),
      (Gauge, ''backup_last_run_timestamp_seconds'', SecondsUnit), (Gauge, ''backup_age_seconds'', SecondsUnit),
      (Gauge, ''backup_last_run_duration_seconds'', SecondsUnit), (Gauge, ''backup_bundle_count'', CountUnit),
      (Gauge, ''backup_bundle_bytes'', BytesUnit), (Gauge, ''backup_bundle_invalid'', CountUnit),
      (Gauge, ''backup_replication_enabled'', CountUnit), (Gauge, ''backup_capacity_limit_bytes'', BytesUnit),
      (Gauge, ''backup_capacity_utilization_percent'', PercentUnit),
      (Gauge, ''backup_recovery_drill_state'', CountUnit),
      (Gauge, ''backup_recovery_drill_age_seconds'', SecondsUnit),
      (Gauge, ''backup_recovery_drill_last_run_timestamp_seconds'', SecondsUnit),
      (Gauge, ''backup_recovery_drill_last_run_duration_seconds'', SecondsUnit),
      (Gauge, ''backup_restore_state'', CountUnit), (Gauge, ''backup_restore_age_seconds'', SecondsUnit),
      (Gauge, ''backup_restore_last_run_timestamp_seconds'', SecondsUnit),
      (Gauge, ''backup_restore_last_run_duration_seconds'', SecondsUnit),
      (Counter, ''backup_runs_total'', CountUnit), (Counter, ''backup_recovery_drill_runs_total'', CountUnit),
      (Counter, ''backup_restore_runs_total'', CountUnit),
      (Counter, ''backup_cleanup_failures_total'', CountUnit),
      (Counter, ''backup_metrics_collection_errors_total'', CountUnit),
      (Counter, ''object_store_operations_total'', CountUnit),
      (Counter, ''attachment_cleanup_deleted_total'', CountUnit),
      (Counter, ''attachment_cleanup_failures_total'', CountUnit),
      (Histogram, ''object_store_operation_duration_seconds'', SecondsUnit),
      (Counter, ''audit_events_total'', CountUnit), (Counter, ''audit_write_failures_total'', CountUnit)]"

definition AUTH_ERROR_CODES :: "string list" where
  "AUTH_ERROR_CODES =
    [''AUTH_INVALID_CREDENTIALS'', ''AUTH_EMAIL_TAKEN'', ''AUTH_DEVICE_REQUIRED'', ''AUTH_TOKEN_INVALID'',
     ''AUTH_TOKEN_EXPIRED'', ''AUTH_REFRESH_REUSED'', ''AUTH_RATE_LIMITED'', ''AUTH_PAYLOAD_TOO_LARGE'',
     ''AUTH_PAYLOAD_INVALID'', ''AUTH_DISPLAY_NAME_INVALID'', ''AUTH_PASSWORD_TOO_WEAK'',
     ''AUTH_UNSUPPORTED_SESSION_MODE'', ''AUTH_INTERNAL'']"

definition JOB_TYPES :: "string list" where
  "JOB_TYPES =
    [''purge_expired_sessions'', ''purge_audit_events'', ''enqueue_recurring_scan'', ''generate_due_recurring'',
     ''auto_ledger_sweep'', ''backup_bundle'', ''recovery_drill'', ''purge_attachment_uploads'', ''worker'']"

definition BACKUP_STATES :: "string list" where
  "BACKUP_STATES =
    [''disabled'', ''never_run'', ''failed'', ''stale'', ''ready'']"

definition RUN_OUTCOMES :: "string list" where
  "RUN_OUTCOMES =
    [''success'', ''failure'']"

definition STORAGE_LOCATIONS :: "string list" where
  "STORAGE_LOCATIONS =
    [''local'', ''offsite'']"

definition CAPACITY_SEVERITIES :: "string list" where
  "CAPACITY_SEVERITIES =
    [''warning'', ''critical'']"

definition METRIC_COMPONENTS :: "string list" where
  "METRIC_COMPONENTS =
    [''backup_status'', ''recovery_drill_status'', ''restore_status'', ''storage'']"

definition OBJECT_STORE_BACKENDS :: "string list" where
  "OBJECT_STORE_BACKENDS =
    [''local'', ''s3'']"

definition OBJECT_STORE_OPERATIONS :: "string list" where
  "OBJECT_STORE_OPERATIONS =
    [''put'', ''get'', ''head'', ''list'', ''sign'', ''delete'', ''backup'', ''restore'', ''migrate'']"

definition AUDIT_ACTIONS :: "string list" where
  "AUDIT_ACTIONS =
    [''auth.register'', ''auth.login'', ''auth.refresh'', ''auth.logout'', ''attachment.upload_session'',
     ''attachment.complete'', ''attachment.delete'', ''attachment.multipart_abort'', ''invite.create'',
     ''billing.upgrade'', ''backup.run'', ''backup.restore'', ''recovery_drill.run'']"

definition AUDIT_OUTCOMES :: "string list" where
  "AUDIT_OUTCOMES =
    [''success'', ''failure'', ''denied'']"

definition HTTP_ROUTES :: "string list" where
  "HTTP_ROUTES =
    [''/health/live'', ''/health/ready'', ''/health/startup'', ''/metrics'', ''/v1/auth/register'',
     ''/v1/auth/login'', ''/v1/auth/refresh'', ''/v1/auth/logout'', ''/v1/auth/me'', ''/v1/audit/events'',
     ''/v1/books'', ''/v1/transactions'', ''/v1/sync/push'', ''/v1/sync/pull'', ''/v1/sync/bootstrap'',
     ''/v1/reports/monthly'', ''/v1/billing/dev-upgrade'', ''/v1/commercial/upgrade'',
     ''/v1/object_store/sign'']"

definition static_label :: "string list \<Rightarrow> string \<Rightarrow> string" where
  "static_label known value = (case find (\<lambda>k. k = value) known of Some hit \<Rightarrow> hit | None \<Rightarrow> ''OTHER'')"

definition status_class :: "nat \<Rightarrow> string" where
  "status_class status =
     (if 100 \<le> status \<and> status \<le> 199 then ''1xx''
      else if 200 \<le> status \<and> status \<le> 299 then ''2xx''
      else if 300 \<le> status \<and> status \<le> 399 then ''3xx''
      else if 400 \<le> status \<and> status \<le> 499 then ''4xx''
      else if 500 \<le> status \<and> status \<le> 599 then ''5xx''
      else ''unknown'')"

subsection \<open>The registry\<close>

definition counter_add :: "string \<Rightarrow> (string \<times> string) list \<Rightarrow> nat \<Rightarrow> metrics \<Rightarrow> metrics" where
  "counter_add name labels n m =
     m\<lparr>mt_counters := hm_insert (name, labels) ((case hm_get (mt_counters m) (name, labels) of None \<Rightarrow> 0 | Some c \<Rightarrow> c) + n) (mt_counters m)\<rparr>"

definition gauge_set :: "string \<Rightarrow> (string \<times> string) list \<Rightarrow> rat \<Rightarrow> metrics \<Rightarrow> metrics" where
  "gauge_set name labels x m = m\<lparr>mt_gauges := hm_insert (name, labels) x (mt_gauges m)\<rparr>"

definition histogram_record :: "string \<Rightarrow> (string \<times> string) list \<Rightarrow> rat \<Rightarrow> metrics \<Rightarrow> metrics" where
  "histogram_record name labels x m =
     m\<lparr>mt_histograms := hm_insert (name, labels)
       ((case hm_get (mt_histograms m) (name, labels) of None \<Rightarrow> [] | Some xs \<Rightarrow> xs) @ [x]) (mt_histograms m)\<rparr>"

subsection \<open>Recording\<close>

definition record_auth_error :: "string \<Rightarrow> metrics \<Rightarrow> metrics" where
  "record_auth_error error_code = counter_add ''auth_errors_total'' [(''error_code'', static_label AUTH_ERROR_CODES error_code)] 1"

definition record_job_outcome :: "string \<Rightarrow> string \<Rightarrow> metrics \<Rightarrow> metrics" where
  "record_job_outcome job_type outcome =
     counter_add ''job_outcomes_total'' [(''job_type'', static_label JOB_TYPES job_type), (''outcome'', outcome)] 1"

definition record_job_rule_skip :: "string \<Rightarrow> metrics \<Rightarrow> metrics" where
  "record_job_rule_skip error_code = counter_add ''job_rules_skipped_total'' [(''error_code'', error_code)] 1"

definition record_job_recurring_generated :: "metrics \<Rightarrow> metrics" where
  "record_job_recurring_generated = counter_add ''job_recurring_generated_total'' [] 1"

definition record_attachment_cleanup :: "nat \<Rightarrow> nat \<Rightarrow> metrics \<Rightarrow> metrics" where
  "record_attachment_cleanup deleted failed m =
     (let m = (if 0 < deleted then counter_add ''attachment_cleanup_deleted_total'' [] deleted m else m) in
      if 0 < failed then counter_add ''attachment_cleanup_failures_total'' [] failed m else m)"

definition record_sync_push :: "string \<Rightarrow> metrics \<Rightarrow> metrics" where
  "record_sync_push outcome = counter_add ''sync_push_mutations_total'' [(''outcome'', outcome)] 1"

definition record_sync_pull :: "string \<Rightarrow> metrics \<Rightarrow> metrics" where
  "record_sync_pull outcome = counter_add ''sync_pull_responses_total'' [(''outcome'', outcome)] 1"

definition record_postgres_pool_connections :: "nat \<Rightarrow> nat \<Rightarrow> nat \<Rightarrow> metrics \<Rightarrow> metrics" where
  "record_postgres_pool_connections current least most m =
     gauge_set ''postgres_pool_max_connections'' [(''role'', ''config'')] (f64_of_int (int most))
       (gauge_set ''postgres_pool_min_connections'' [(''role'', ''config'')] (f64_of_int (int least))
         (gauge_set ''postgres_pool_connections'' [(''role'', ''current'')] (f64_of_int (int current)) m))"

definition or_default :: "rat option \<Rightarrow> rat" where
  "or_default x = (case x of None \<Rightarrow> 0 | Some v \<Rightarrow> v)"

definition record_run_status :: "string \<Rightarrow> string \<Rightarrow> string \<Rightarrow> string \<Rightarrow> string \<Rightarrow> string option \<Rightarrow>
    rat option \<Rightarrow> rat option \<Rightarrow> rat option \<Rightarrow> metrics \<Rightarrow> metrics" where
  "record_run_status state_metric timestamp_metric duration_metric age_metric
     state outcome timestamp_seconds duration_seconds age_seconds m =
     (let state = static_label BACKUP_STATES state;
          m = fold (\<lambda>candidate. gauge_set state_metric [(''state'', candidate)] (if candidate = state then 1 else 0)) BACKUP_STATES m;
          outcome = map_option (static_label RUN_OUTCOMES) outcome;
          m = fold (\<lambda>candidate m.
                gauge_set duration_metric [(''outcome'', candidate)] (if outcome = Some candidate then or_default duration_seconds else 0)
                  (gauge_set timestamp_metric [(''outcome'', candidate)] (if outcome = Some candidate then or_default timestamp_seconds else 0) m))
              RUN_OUTCOMES m in
      gauge_set age_metric [] (or_default age_seconds) m)"

definition record_backup_status :: "string \<Rightarrow> string option \<Rightarrow> rat option \<Rightarrow> rat option \<Rightarrow> rat option \<Rightarrow> metrics \<Rightarrow> metrics" where
  "record_backup_status =
     record_run_status ''backup_state'' ''backup_last_run_timestamp_seconds'' ''backup_last_run_duration_seconds'' ''backup_age_seconds''"

definition record_recovery_drill_status :: "string \<Rightarrow> string option \<Rightarrow> rat option \<Rightarrow> rat option \<Rightarrow> rat option \<Rightarrow> metrics \<Rightarrow> metrics" where
  "record_recovery_drill_status =
     record_run_status ''backup_recovery_drill_state'' ''backup_recovery_drill_last_run_timestamp_seconds''
       ''backup_recovery_drill_last_run_duration_seconds'' ''backup_recovery_drill_age_seconds''"

definition record_restore_status :: "string \<Rightarrow> string option \<Rightarrow> rat option \<Rightarrow> rat option \<Rightarrow> rat option \<Rightarrow> metrics \<Rightarrow> metrics" where
  "record_restore_status =
     record_run_status ''backup_restore_state'' ''backup_restore_last_run_timestamp_seconds''
       ''backup_restore_last_run_duration_seconds'' ''backup_restore_age_seconds''"

definition record_backup_storage :: "string \<Rightarrow> nat \<Rightarrow> nat \<Rightarrow> nat \<Rightarrow> metrics \<Rightarrow> metrics" where
  "record_backup_storage location bundle_count total_bytes invalid_count m =
     (let labels = [(''location'', static_label STORAGE_LOCATIONS location)] in
      gauge_set ''backup_bundle_invalid'' labels (f64_of_int (int invalid_count))
        (gauge_set ''backup_bundle_bytes'' labels (f64_of_int (int total_bytes))
          (gauge_set ''backup_bundle_count'' labels (f64_of_int (int bundle_count)) m)))"

definition utilization_percent :: "nat \<Rightarrow> nat \<Rightarrow> rat" where
  "utilization_percent used_bytes limit_bytes =
     f64_mul (f64_div (f64_of_int (int used_bytes)) (f64_of_int (int (max limit_bytes 1)))) 100"

definition record_backup_capacity :: "string \<Rightarrow> nat \<Rightarrow> nat \<Rightarrow> nat \<Rightarrow> metrics \<Rightarrow> metrics" where
  "record_backup_capacity location used_bytes warn_bytes critical_bytes =
     fold (\<lambda>(severity, limit_bytes) m.
         let labels = [(''location'', static_label STORAGE_LOCATIONS location), (''severity'', static_label CAPACITY_SEVERITIES severity)] in
         gauge_set ''backup_capacity_utilization_percent'' labels (utilization_percent used_bytes limit_bytes)
           (gauge_set ''backup_capacity_limit_bytes'' labels (f64_of_int (int limit_bytes)) m))
       [(''warning'', warn_bytes), (''critical'', critical_bytes)]"

definition record_replication_enabled :: "bool \<Rightarrow> metrics \<Rightarrow> metrics" where
  "record_replication_enabled enabled = gauge_set ''backup_replication_enabled'' [] (if enabled then 1 else 0)"

definition record_backup_run :: "string \<Rightarrow> metrics \<Rightarrow> metrics" where
  "record_backup_run outcome = counter_add ''backup_runs_total'' [(''outcome'', static_label RUN_OUTCOMES outcome)] 1"

definition record_recovery_drill_run :: "string \<Rightarrow> metrics \<Rightarrow> metrics" where
  "record_recovery_drill_run outcome =
     counter_add ''backup_recovery_drill_runs_total'' [(''outcome'', static_label RUN_OUTCOMES outcome)] 1"

definition record_restore_run :: "string \<Rightarrow> metrics \<Rightarrow> metrics" where
  "record_restore_run outcome = counter_add ''backup_restore_runs_total'' [(''outcome'', static_label RUN_OUTCOMES outcome)] 1"

definition record_backup_cleanup_failure :: "string \<Rightarrow> metrics \<Rightarrow> metrics" where
  "record_backup_cleanup_failure location =
     counter_add ''backup_cleanup_failures_total'' [(''location'', static_label STORAGE_LOCATIONS location)] 1"

definition record_backup_metrics_collection_error :: "string \<Rightarrow> metrics \<Rightarrow> metrics" where
  "record_backup_metrics_collection_error component =
     counter_add ''backup_metrics_collection_errors_total'' [(''component'', static_label METRIC_COMPONENTS component)] 1"

definition record_object_store_operation :: "string \<Rightarrow> string \<Rightarrow> string \<Rightarrow> rat \<Rightarrow> metrics \<Rightarrow> metrics" where
  "record_object_store_operation backend operation outcome duration_seconds m =
     (let labels = [(''backend'', static_label OBJECT_STORE_BACKENDS backend), (''operation'', static_label OBJECT_STORE_OPERATIONS operation)] in
      histogram_record ''object_store_operation_duration_seconds'' labels duration_seconds
        (counter_add ''object_store_operations_total'' (labels @ [(''outcome'', static_label RUN_OUTCOMES outcome)]) 1 m))"

definition record_audit_event :: "string \<Rightarrow> string \<Rightarrow> metrics \<Rightarrow> metrics" where
  "record_audit_event action outcome =
     counter_add ''audit_events_total'' [(''action'', static_label AUDIT_ACTIONS action), (''outcome'', static_label AUDIT_OUTCOMES outcome)] 1"

definition record_audit_write_failure :: "metrics \<Rightarrow> metrics" where
  "record_audit_write_failure = counter_add ''audit_write_failures_total'' [] 1"

text \<open>The middleware around a request; \<open>matched_route\<close> is the pattern that axum matched, \<open>elapsed\<close> what the request took.\<close>

definition http_route :: "string option \<Rightarrow> string" where
  "http_route matched_route =
     (let matched_route = (case matched_route of None \<Rightarrow> ''unknown'' | Some r \<Rightarrow> r) in
      if list_ex (\<lambda>r. r = matched_route) HTTP_ROUTES then matched_route else ''OTHER'')"

definition http_metrics_middleware :: "string \<Rightarrow> string option \<Rightarrow> nat \<Rightarrow> rat \<Rightarrow> metrics \<Rightarrow> metrics" where
  "http_metrics_middleware method matched_route status elapsed m =
     (let route = http_route matched_route; status_class = status_class status in
      histogram_record ''http_request_duration_seconds'' [(''route'', route), (''method'', method), (''status_class'', status_class)] elapsed
        (counter_add ''http_requests_total'' [(''method'', method), (''route'', route), (''status_class'', status_class)] 1 m))"

subsection \<open>Every call of the server\<close>

datatype metric_call =
    AuthError string | JobOutcome string string | RuleSkip string | RecurringGenerated | AttachmentCleanup nat nat
  | SyncPush string | SyncPull string | PoolConnections nat nat nat
  | BackupState string "string option" "rat option" "rat option" "rat option"
  | DrillState string "string option" "rat option" "rat option" "rat option"
  | RestoreState string "string option" "rat option" "rat option" "rat option"
  | BackupStorage string nat nat nat | BackupCapacity string nat nat nat | ReplicationEnabled bool
  | BackupRun string | DrillRun string | RestoreRun string | CleanupFailure string | CollectionError string
  | StoreOperation string string string rat | AuditRecorded string string | AuditWriteFailure
  | HttpRequest string "string option" nat rat

fun run_call :: "metric_call \<Rightarrow> metrics \<Rightarrow> metrics" where
  "run_call (AuthError c) = record_auth_error c"
| "run_call (JobOutcome t r) = record_job_outcome t r"
| "run_call (RuleSkip c) = record_job_rule_skip c"
| "run_call RecurringGenerated = record_job_recurring_generated"
| "run_call (AttachmentCleanup d f) = record_attachment_cleanup d f"
| "run_call (SyncPush r) = record_sync_push r"
| "run_call (SyncPull r) = record_sync_pull r"
| "run_call (PoolConnections c l u) = record_postgres_pool_connections c l u"
| "run_call (BackupState s r t d a) = record_backup_status s r t d a"
| "run_call (DrillState s r t d a) = record_recovery_drill_status s r t d a"
| "run_call (RestoreState s r t d a) = record_restore_status s r t d a"
| "run_call (BackupStorage l b t i) = record_backup_storage l b t i"
| "run_call (BackupCapacity l u w c) = record_backup_capacity l u w c"
| "run_call (ReplicationEnabled b) = record_replication_enabled b"
| "run_call (BackupRun r) = record_backup_run r"
| "run_call (DrillRun r) = record_recovery_drill_run r"
| "run_call (RestoreRun r) = record_restore_run r"
| "run_call (CleanupFailure l) = record_backup_cleanup_failure l"
| "run_call (CollectionError c) = record_backup_metrics_collection_error c"
| "run_call (StoreOperation b t r d) = record_object_store_operation b t r d"
| "run_call (AuditRecorded a r) = record_audit_event a r"
| "run_call AuditWriteFailure = record_audit_write_failure"
| "run_call (HttpRequest method matched status elapsed) = http_metrics_middleware method matched status elapsed"

text \<open>The labels that are passed on as they are, with what the code passes (jobs.rs, bootstrap.rs, sync.rs).\<close>

definition JOB_OUTCOMES :: "string list" where
  "JOB_OUTCOMES = [''success'', ''failure'', ''exited'']"

definition SKIP_CODES :: "string list" where
  "SKIP_CODES = [''UNKNOWN_JOB_TYPE'', ''PAYLOAD_MISSING_ENTRIES'', ''UNBALANCED_PAYLOAD'']"

fun from_code :: "metric_call \<Rightarrow> bool" where
  "from_code (JobOutcome t r) \<longleftrightarrow> r \<in> set JOB_OUTCOMES"
| "from_code (RuleSkip c) \<longleftrightarrow> c \<in> set SKIP_CODES"
| "from_code (SyncPush r) \<longleftrightarrow> r = ''received''"
| "from_code (SyncPull r) \<longleftrightarrow> r = ''received''"
| "from_code _ \<longleftrightarrow> True"

fun call_methods :: "metric_call \<Rightarrow> string list" where
  "call_methods (HttpRequest method matched status elapsed) = [method]"
| "call_methods _ = []"

subsection \<open>The space of labels\<close>

abbreviation collapsed :: "string list \<Rightarrow> string list" where
  "collapsed known \<equiv> known @ [''OTHER'']"

definition status_classes :: "string list" where
  "status_classes = [''1xx'', ''2xx'', ''3xx'', ''4xx'', ''5xx'', ''unknown'']"

definition run_space :: "string list \<Rightarrow> (metric_kind \<times> string \<times> (string \<times> string list) list) list" where
  "run_space names =
     (case names of [state, timestamp, duration, age] \<Rightarrow>
        [(Gauge, state, [(''state'', BACKUP_STATES)]), (Gauge, timestamp, [(''outcome'', RUN_OUTCOMES)]),
         (Gauge, duration, [(''outcome'', RUN_OUTCOMES)]), (Gauge, age, [])]
      | _ \<Rightarrow> [])"

definition label_space :: "string list \<Rightarrow> (metric_kind \<times> string \<times> (string \<times> string list) list) list" where
  "label_space methods =
     [(Counter, ''auth_errors_total'', [(''error_code'', collapsed AUTH_ERROR_CODES)]),
      (Counter, ''job_outcomes_total'', [(''job_type'', collapsed JOB_TYPES), (''outcome'', JOB_OUTCOMES)]),
      (Counter, ''job_rules_skipped_total'', [(''error_code'', SKIP_CODES)]),
      (Counter, ''job_recurring_generated_total'', []),
      (Counter, ''attachment_cleanup_deleted_total'', []), (Counter, ''attachment_cleanup_failures_total'', []),
      (Counter, ''sync_push_mutations_total'', [(''outcome'', [''received''])]),
      (Counter, ''sync_pull_responses_total'', [(''outcome'', [''received''])]),
      (Gauge, ''postgres_pool_connections'', [(''role'', [''current''])]),
      (Gauge, ''postgres_pool_min_connections'', [(''role'', [''config''])]),
      (Gauge, ''postgres_pool_max_connections'', [(''role'', [''config''])]),
      (Gauge, ''backup_bundle_count'', [(''location'', collapsed STORAGE_LOCATIONS)]),
      (Gauge, ''backup_bundle_bytes'', [(''location'', collapsed STORAGE_LOCATIONS)]),
      (Gauge, ''backup_bundle_invalid'', [(''location'', collapsed STORAGE_LOCATIONS)]),
      (Gauge, ''backup_capacity_limit_bytes'', [(''location'', collapsed STORAGE_LOCATIONS), (''severity'', CAPACITY_SEVERITIES)]),
      (Gauge, ''backup_capacity_utilization_percent'', [(''location'', collapsed STORAGE_LOCATIONS), (''severity'', CAPACITY_SEVERITIES)]),
      (Gauge, ''backup_replication_enabled'', []),
      (Counter, ''backup_runs_total'', [(''outcome'', collapsed RUN_OUTCOMES)]),
      (Counter, ''backup_recovery_drill_runs_total'', [(''outcome'', collapsed RUN_OUTCOMES)]),
      (Counter, ''backup_restore_runs_total'', [(''outcome'', collapsed RUN_OUTCOMES)]),
      (Counter, ''backup_cleanup_failures_total'', [(''location'', collapsed STORAGE_LOCATIONS)]),
      (Counter, ''backup_metrics_collection_errors_total'', [(''component'', collapsed METRIC_COMPONENTS)]),
      (Counter, ''object_store_operations_total'', [(''backend'', collapsed OBJECT_STORE_BACKENDS),
         (''operation'', collapsed OBJECT_STORE_OPERATIONS), (''outcome'', collapsed RUN_OUTCOMES)]),
      (Histogram, ''object_store_operation_duration_seconds'', [(''backend'', collapsed OBJECT_STORE_BACKENDS),
         (''operation'', collapsed OBJECT_STORE_OPERATIONS)]),
      (Counter, ''audit_events_total'', [(''action'', collapsed AUDIT_ACTIONS), (''outcome'', collapsed AUDIT_OUTCOMES)]),
      (Counter, ''audit_write_failures_total'', []),
      (Counter, ''http_requests_total'', [(''method'', methods), (''route'', collapsed HTTP_ROUTES), (''status_class'', status_classes)]),
      (Histogram, ''http_request_duration_seconds'', [(''route'', collapsed HTTP_ROUTES), (''method'', methods), (''status_class'', status_classes)])]
     @ run_space [''backup_state'', ''backup_last_run_timestamp_seconds'', ''backup_last_run_duration_seconds'', ''backup_age_seconds'']
     @ run_space [''backup_recovery_drill_state'', ''backup_recovery_drill_last_run_timestamp_seconds'',
         ''backup_recovery_drill_last_run_duration_seconds'', ''backup_recovery_drill_age_seconds'']
     @ run_space [''backup_restore_state'', ''backup_restore_last_run_timestamp_seconds'',
         ''backup_restore_last_run_duration_seconds'', ''backup_restore_age_seconds'']"

fun label_sets :: "(string \<times> string list) list \<Rightarrow> (string \<times> string) list list" where
  "label_sets [] = [[]]"
| "label_sets ((l, vs) # rest) = concat (map (\<lambda>v. map ((#) (l, v)) (label_sets rest)) vs)"

definition known_series :: "string list \<Rightarrow> metric_kind \<Rightarrow> series list" where
  "known_series methods kind = concat (map (\<lambda>(k, name, ls). if k = kind then map (Pair name) (label_sets ls) else []) (label_space methods))"

definition within_space :: "string list \<Rightarrow> metrics \<Rightarrow> bool" where
  "within_space methods m \<longleftrightarrow>
     set (map fst (mt_counters m)) \<subseteq> set (known_series methods Counter) \<and> distinct (map fst (mt_counters m)) \<and>
     set (map fst (mt_gauges m)) \<subseteq> set (known_series methods Gauge) \<and> distinct (map fst (mt_gauges m)) \<and>
     set (map fst (mt_histograms m)) \<subseteq> set (known_series methods Histogram) \<and> distinct (map fst (mt_histograms m))"

definition space_has :: "string list \<Rightarrow> metric_kind \<Rightarrow> string \<Rightarrow> (string \<times> string) list \<Rightarrow> bool" where
  "space_has methods kind name labels \<longleftrightarrow>
     (\<exists>ls. (kind, name, ls) \<in> set (label_space methods) \<and> list_all2 (\<lambda>(l, v) (l', vs). l = l' \<and> v \<in> set vs) labels ls)"

lemma label_sets_iff: "labels \<in> set (label_sets ls) \<longleftrightarrow> list_all2 (\<lambda>(l, v) (l', vs). l = l' \<and> v \<in> set vs) labels ls"
  by (induction ls arbitrary: labels rule: label_sets.induct) (auto simp: list_all2_Cons2)

lemma known_series_iff: "(name, labels) \<in> set (known_series methods kind) \<longleftrightarrow> space_has methods kind name labels"
proof -
  have "(name, labels) \<in> set (known_series methods kind) \<longleftrightarrow>
      (\<exists>ls. (kind, name, ls) \<in> set (label_space methods) \<and> labels \<in> set (label_sets ls))"
    unfolding known_series_def by force
  then show ?thesis by (simp add: space_has_def label_sets_iff)
qed

lemma key_set_insert: "set (map fst (hm_insert k v m)) = insert k (set (map fst m))"
  by (simp add: keys_hm_insert)

lemma within_counter: "space_has methods Counter name labels \<Longrightarrow> within_space methods m \<Longrightarrow> within_space methods (counter_add name labels n m)"
  by (simp add: within_space_def counter_add_def known_series_iff distinct_hm_insert key_set_insert del: set_map)

lemma within_gauge: "space_has methods Gauge name labels \<Longrightarrow> within_space methods m \<Longrightarrow> within_space methods (gauge_set name labels x m)"
  by (simp add: within_space_def gauge_set_def known_series_iff distinct_hm_insert key_set_insert del: set_map)

lemma within_histogram:
  "space_has methods Histogram name labels \<Longrightarrow> within_space methods m \<Longrightarrow> within_space methods (histogram_record name labels x m)"
  by (simp add: within_space_def histogram_record_def known_series_iff distinct_hm_insert key_set_insert del: set_map)

lemma within_fold: "(\<And>x m. x \<in> set xs \<Longrightarrow> within_space methods m \<Longrightarrow> within_space methods (f x m)) \<Longrightarrow> within_space methods m \<Longrightarrow>
    within_space methods (fold f xs m)"
  by (induction xs arbitrary: m) auto

lemma static_label_in: "static_label known value \<in> set (collapsed known)"
  by (auto simp: static_label_def find_Some_iff split: option.split)

lemma severity_labels:
  "static_label CAPACITY_SEVERITIES ''warning'' \<in> set CAPACITY_SEVERITIES" "static_label CAPACITY_SEVERITIES ''critical'' \<in> set CAPACITY_SEVERITIES"
  by code_simp+

lemma status_class_in: "status_class status \<in> set status_classes"
  by (simp add: status_class_def status_classes_def)

lemma http_route_in: "http_route matched \<in> set (collapsed HTTP_ROUTES)"
  by (auto simp: http_route_def Let_def list_ex_iff)

lemma within_run_status:
  assumes "set (run_space [state_metric, timestamp_metric, duration_metric, age_metric]) \<subseteq> set (label_space methods)" and "within_space methods m"
  shows "within_space methods (record_run_status state_metric timestamp_metric duration_metric age_metric s r t d a m)"
proof -
  have h: "space_has methods Gauge state_metric [(''state'', c)]" if "c \<in> set BACKUP_STATES" for c
    using assms(1) that by (auto simp: space_has_def run_space_def)
  moreover have "space_has methods Gauge timestamp_metric [(''outcome'', c)]" "space_has methods Gauge duration_metric [(''outcome'', c)]"
    if "c \<in> set RUN_OUTCOMES" for c
    using assms(1) that by (auto simp: space_has_def run_space_def)
  moreover have "space_has methods Gauge age_metric []"
    using assms(1) by (auto simp: space_has_def run_space_def)
  ultimately show ?thesis
    unfolding record_run_status_def Let_def by (intro within_gauge within_fold assms(2))
qed

lemma space_facts:
  "space_has methods Counter ''auth_errors_total'' [(''error_code'', v0)] \<longleftrightarrow> v0 \<in> set (collapsed AUTH_ERROR_CODES)"
  "space_has methods Counter ''job_outcomes_total'' [(''job_type'', v0), (''outcome'', v1)] \<longleftrightarrow> v0 \<in> set (collapsed JOB_TYPES) \<and> v1 \<in> set JOB_OUTCOMES"
  "space_has methods Counter ''job_rules_skipped_total'' [(''error_code'', v0)] \<longleftrightarrow> v0 \<in> set SKIP_CODES"
  "space_has methods Counter ''job_recurring_generated_total'' [] \<longleftrightarrow> True"
  "space_has methods Counter ''attachment_cleanup_deleted_total'' [] \<longleftrightarrow> True"
  "space_has methods Counter ''attachment_cleanup_failures_total'' [] \<longleftrightarrow> True"
  "space_has methods Counter ''sync_push_mutations_total'' [(''outcome'', v0)] \<longleftrightarrow> v0 = ''received''"
  "space_has methods Counter ''sync_pull_responses_total'' [(''outcome'', v0)] \<longleftrightarrow> v0 = ''received''"
  "space_has methods Gauge ''postgres_pool_connections'' [(''role'', v0)] \<longleftrightarrow> v0 = ''current''"
  "space_has methods Gauge ''postgres_pool_min_connections'' [(''role'', v0)] \<longleftrightarrow> v0 = ''config''"
  "space_has methods Gauge ''postgres_pool_max_connections'' [(''role'', v0)] \<longleftrightarrow> v0 = ''config''"
  "space_has methods Gauge ''backup_bundle_count'' [(''location'', v0)] \<longleftrightarrow> v0 \<in> set (collapsed STORAGE_LOCATIONS)"
  "space_has methods Gauge ''backup_bundle_bytes'' [(''location'', v0)] \<longleftrightarrow> v0 \<in> set (collapsed STORAGE_LOCATIONS)"
  "space_has methods Gauge ''backup_bundle_invalid'' [(''location'', v0)] \<longleftrightarrow> v0 \<in> set (collapsed STORAGE_LOCATIONS)"
  "space_has methods Gauge ''backup_capacity_limit_bytes'' [(''location'', v0), (''severity'', v1)] \<longleftrightarrow> v0 \<in> set (collapsed STORAGE_LOCATIONS) \<and> v1 \<in> set CAPACITY_SEVERITIES"
  "space_has methods Gauge ''backup_capacity_utilization_percent'' [(''location'', v0), (''severity'', v1)] \<longleftrightarrow> v0 \<in> set (collapsed STORAGE_LOCATIONS) \<and> v1 \<in> set CAPACITY_SEVERITIES"
  "space_has methods Gauge ''backup_replication_enabled'' [] \<longleftrightarrow> True"
  "space_has methods Counter ''backup_runs_total'' [(''outcome'', v0)] \<longleftrightarrow> v0 \<in> set (collapsed RUN_OUTCOMES)"
  "space_has methods Counter ''backup_recovery_drill_runs_total'' [(''outcome'', v0)] \<longleftrightarrow> v0 \<in> set (collapsed RUN_OUTCOMES)"
  "space_has methods Counter ''backup_restore_runs_total'' [(''outcome'', v0)] \<longleftrightarrow> v0 \<in> set (collapsed RUN_OUTCOMES)"
  "space_has methods Counter ''backup_cleanup_failures_total'' [(''location'', v0)] \<longleftrightarrow> v0 \<in> set (collapsed STORAGE_LOCATIONS)"
  "space_has methods Counter ''backup_metrics_collection_errors_total'' [(''component'', v0)] \<longleftrightarrow> v0 \<in> set (collapsed METRIC_COMPONENTS)"
  "space_has methods Counter ''object_store_operations_total'' [(''backend'', v0), (''operation'', v1), (''outcome'', v2)] \<longleftrightarrow> v0 \<in> set (collapsed OBJECT_STORE_BACKENDS) \<and> v1 \<in> set (collapsed OBJECT_STORE_OPERATIONS) \<and> v2 \<in> set (collapsed RUN_OUTCOMES)"
  "space_has methods Histogram ''object_store_operation_duration_seconds'' [(''backend'', v0), (''operation'', v1)] \<longleftrightarrow> v0 \<in> set (collapsed OBJECT_STORE_BACKENDS) \<and> v1 \<in> set (collapsed OBJECT_STORE_OPERATIONS)"
  "space_has methods Counter ''audit_events_total'' [(''action'', v0), (''outcome'', v1)] \<longleftrightarrow> v0 \<in> set (collapsed AUDIT_ACTIONS) \<and> v1 \<in> set (collapsed AUDIT_OUTCOMES)"
  "space_has methods Counter ''audit_write_failures_total'' [] \<longleftrightarrow> True"
  "space_has methods Counter ''http_requests_total'' [(''method'', v0), (''route'', v1), (''status_class'', v2)] \<longleftrightarrow> v0 \<in> set methods \<and> v1 \<in> set (collapsed HTTP_ROUTES) \<and> v2 \<in> set status_classes"
  "space_has methods Histogram ''http_request_duration_seconds'' [(''route'', v0), (''method'', v1), (''status_class'', v2)] \<longleftrightarrow> v0 \<in> set (collapsed HTTP_ROUTES) \<and> v1 \<in> set methods \<and> v2 \<in> set status_classes"
  by (simp_all add: space_has_def label_space_def run_space_def ex_disj_distrib conj_disj_distribR)

lemma within_call:
  assumes "from_code c" and "set (call_methods c) \<subseteq> set methods" and "within_space methods m"
  shows "within_space methods (run_call c m)"
proof -
  note record_defs = record_auth_error_def record_job_outcome_def record_job_rule_skip_def record_job_recurring_generated_def
    record_attachment_cleanup_def record_sync_push_def record_sync_pull_def record_postgres_pool_connections_def
    record_backup_storage_def record_backup_capacity_def record_replication_enabled_def record_backup_run_def
    record_recovery_drill_run_def record_restore_run_def record_backup_cleanup_failure_def
    record_backup_metrics_collection_error_def record_object_store_operation_def record_audit_event_def
    record_audit_write_failure_def http_metrics_middleware_def
  note steps = within_counter within_gauge within_histogram within_run_status assms(3)
  show ?thesis
    using assms(1,2)
    by (cases c)
      (simp_all add: record_defs Let_def steps space_facts static_label_in http_route_in status_class_in
        record_backup_status_def record_recovery_drill_status_def record_restore_status_def label_space_def run_space_def
        severity_labels del: set_append)
qed

lemma within_calls:
  assumes "list_all from_code calls" and "set (concat (map call_methods calls)) \<subseteq> set methods" and "within_space methods m"
  shows "within_space methods (fold run_call calls m)"
  using assms(1,2) by (intro within_fold within_call assms(3)) (auto simp: list_all_iff)

lemma length_label_sets: "length (label_sets ls) = prod_list (map (length \<circ> snd) ls)"
proof (induction ls)
  case (Cons l ls)
  then show ?case by (cases l) (simp add: length_concat o_def sum_list_triv)
qed simp

lemma length_known_series:
  "length (known_series methods kind) = sum_list (map (\<lambda>(k, _, ls). if k = kind then prod_list (map (length \<circ> snd) ls) else 0) (label_space methods))"
proof -
  have "(\<lambda>x. length (case x of (k, name :: string, ls) \<Rightarrow> if k = kind then map (Pair name) (label_sets ls) else [])) =
      (\<lambda>(k, _, ls). if k = kind then prod_list (map (length \<circ> snd) ls) else 0)"
    by (auto simp: fun_eq_iff length_label_sets)
  then show ?thesis unfolding known_series_def length_concat map_map o_def by (simp only:)
qed

lemma label_space_size:
  "length (known_series methods Counter) + length (known_series methods Gauge) + length (known_series methods Histogram) = 301 + 240 * length methods"
  unfolding length_known_series
  by (simp add: label_space_def run_space_def AUTH_ERROR_CODES_def JOB_TYPES_def JOB_OUTCOMES_def SKIP_CODES_def STORAGE_LOCATIONS_def
    CAPACITY_SEVERITIES_def RUN_OUTCOMES_def METRIC_COMPONENTS_def OBJECT_STORE_BACKENDS_def OBJECT_STORE_OPERATIONS_def
    AUDIT_ACTIONS_def AUDIT_OUTCOMES_def HTTP_ROUTES_def status_classes_def BACKUP_STATES_def)

lemma space_registered:
  "list_all (\<lambda>(kind, name, _). name = ''job_recurring_generated_total'' \<and> kind = Counter \<or> (\<exists>u \<in> {SecondsUnit, CountUnit, BytesUnit, PercentUnit}. (kind, name, u) \<in> set register_metrics)) (label_space methods)"
  by (simp add: label_space_def run_space_def register_metrics_def)

text \<open>
  C39. The registry stays small. Whatever the clients and jobs of a server do, its metrics have at most 301 series and
  240 more for each method that requests were made with; every metric is registered with its kind at the start,
  except \<open>job_recurring_generated_total\<close>.
\<close>

theorem metric_series_bounded:
  assumes "list_all from_code calls" and "set (concat (map call_methods calls)) \<subseteq> set methods"
    and "m = fold run_call calls no_metrics"
  shows "length (mt_counters m) + length (mt_gauges m) + length (mt_histograms m) \<le> 301 + 240 * length methods \<and>
    (\<forall>name labels. ((name, labels) \<in> fst ` set (mt_counters m) \<longrightarrow> name = ''job_recurring_generated_total'' \<or> (\<exists>u. (Counter, name, u) \<in> set register_metrics)) \<and>
      ((name, labels) \<in> fst ` set (mt_gauges m) \<longrightarrow> (\<exists>u. (Gauge, name, u) \<in> set register_metrics)) \<and>
      ((name, labels) \<in> fst ` set (mt_histograms m) \<longrightarrow> (\<exists>u. (Histogram, name, u) \<in> set register_metrics)))"
proof -
  have w: "within_space methods m"
    unfolding assms(3) by (rule within_calls [OF assms(1,2)]) (simp add: within_space_def no_metrics_def)
  have size: "length xs \<le> length ys" if "set (map fst xs) \<subseteq> set ys" "distinct (map fst xs)" for xs :: "(series \<times> 'a) list" and ys
  proof -
    have "length xs = card (set (map fst xs))" using distinct_card [OF that(2)] by simp
    also have "\<dots> \<le> card (set ys)" using that(1) by (intro card_mono) auto
    also have "\<dots> \<le> length ys" by (rule card_length)
    finally show ?thesis .
  qed
  have "length (mt_counters m) + length (mt_gauges m) + length (mt_histograms m) \<le> 301 + 240 * length methods"
    unfolding label_space_size [of methods, symmetric] using w
    by (intro add_mono size) (simp_all add: within_space_def)
  moreover have reg: "name = ''job_recurring_generated_total'' \<and> kind = Counter \<or> (\<exists>u. (kind, name, u) \<in> set register_metrics)"
    if "(name, labels) \<in> set (known_series methods kind)" for name labels kind
    using space_registered [of methods] that unfolding known_series_iff space_has_def list_all_iff by fastforce
  moreover have "(name, labels) \<in> fst ` set (mt_counters m) \<Longrightarrow> (name, labels) \<in> set (known_series methods Counter)"
    "(name, labels) \<in> fst ` set (mt_gauges m) \<Longrightarrow> (name, labels) \<in> set (known_series methods Gauge)"
    "(name, labels) \<in> fst ` set (mt_histograms m) \<Longrightarrow> (name, labels) \<in> set (known_series methods Histogram)" for name labels
    using w by (auto simp: within_space_def simp del: known_series_def)
  ultimately show ?thesis using metric_kind.distinct by metis
qed

text \<open>The method of a request is not checked: every new one, which clients choose freely, makes two new series.\<close>

lemma http_methods_unbounded:
  assumes "distinct methods"
  shows "length (mt_counters (fold (\<lambda>method. http_metrics_middleware method matched 200 0) methods no_metrics)) = length methods"
proof -
  let ?key = "\<lambda>method. (''http_requests_total'', [(''method'', method), (''route'', http_route matched), (''status_class'', status_class 200)])"
  have keys: "set (map fst (mt_counters (fold (\<lambda>method. http_metrics_middleware method matched 200 0) ms m))) =
      set (map fst (mt_counters m)) \<union> ?key ` set ms" for ms m
  proof (induction ms arbitrary: m)
    case (Cons x ms)
    show ?case
      unfolding fold_simps o_apply Cons.IH
      by (simp add: http_metrics_middleware_def Let_def histogram_record_def counter_add_def key_set_insert del: set_map)
  qed simp
  have distinct: "distinct (map fst (mt_counters m)) \<Longrightarrow>
      distinct (map fst (mt_counters (fold (\<lambda>method. http_metrics_middleware method matched 200 0) ms m)))" for ms m
    by (induction ms arbitrary: m)
      (simp_all add: http_metrics_middleware_def Let_def histogram_record_def counter_add_def distinct_hm_insert)
  let ?m = "fold (\<lambda>method. http_metrics_middleware method matched 200 0) methods no_metrics"
  have "length (mt_counters ?m) = card (set (map fst (mt_counters ?m)))"
    using distinct_card [OF distinct, of no_metrics methods] by (simp add: no_metrics_def)
  also have "\<dots> = card (?key ` set methods)" by (simp only: keys) (simp add: no_metrics_def)
  also have "\<dots> = length methods" using assms by (simp add: card_image inj_on_def distinct_card)
  finally show ?thesis .
qed

theorem metric_series_bounded_witness:
  "length (mt_counters (fold run_call [HttpRequest ''GET'' (Some ''/v1/books'') 200 0, RecurringGenerated] no_metrics)) \<le> 541"
  using metric_series_bounded [of "[HttpRequest ''GET'' (Some ''/v1/books'') 200 0, RecurringGenerated]" "[''GET'']", OF _ _ refl]
  by simp

end
