(* ===== verification/Backup_Metrics.thy ===== *)
theory Backup_Metrics
  imports Recovery_Drill Metrics
begin

section \<open>Status files, health and backup metrics (backup_status.rs, backup_runtime.rs, health.rs, router.rs)\<close>

text \<open>
  The status of the last backup, restoration and drill lies in a file each, in the directory of the backups. Here is how
  the files are written and read, and what the health endpoint and the metrics make of them. The files of the directory
  are a map from names to contents; encoding and decoding come from serde. Times are nanoseconds of the epoch.
\<close>

subsection \<open>Status files\<close>

definition BACKUP_STATUS_FILE :: string where
  "BACKUP_STATUS_FILE = ''status.json''"

definition RESTORE_STATUS_FILE :: string where
  "RESTORE_STATUS_FILE = ''restore-status.json''"

definition RECOVERY_DRILL_STATUS_FILE :: string where
  "RECOVERY_DRILL_STATUS_FILE = ''recovery-drill-status.json''"

type_synonym status_dir = "(string, bytes) hashmap"

text \<open>
  How far a write gets: no directory, some of the temporary file, all of it but no rename, or to the end. A read gives an
  error (\<open>None\<close>), no status, or a status.
\<close>

datatype write_fate = DirectoryFails | WriteFails bytes | RenameFails | WriteDone

definition read_status :: "string \<Rightarrow> (bytes \<Rightarrow> 's option) \<Rightarrow> bool \<Rightarrow> status_dir \<Rightarrow> 's option option" where
  "read_status name decode read_ok d =
     (case hm_get d name of None \<Rightarrow> Some None
      | Some raw \<Rightarrow> if read_ok then map_option Some (decode raw) else None)"

definition write_status :: "string \<Rightarrow> ('s \<Rightarrow> bytes) \<Rightarrow> string \<Rightarrow> write_fate \<Rightarrow> 's \<Rightarrow> status_dir \<Rightarrow> bool \<times> status_dir" where
  "write_status name encode uuid fate status d =
     (let temporary = name @ ''.tmp-'' @ uuid in
      case fate of
        DirectoryFails \<Rightarrow> (False, d)
      | WriteFails partial \<Rightarrow> (False, hm_insert temporary partial d)
      | RenameFails \<Rightarrow> (False, hm_insert temporary (encode status) d)
      | WriteDone \<Rightarrow> (True, hm_insert name (encode status) (hm_remove temporary (hm_insert temporary (encode status) d))))"

definition backup_status_read :: "(bytes \<Rightarrow> backup_run_status option) \<Rightarrow> bool \<Rightarrow> status_dir \<Rightarrow> backup_run_status option option" where
  "backup_status_read = read_status BACKUP_STATUS_FILE"

definition backup_status_write :: "(backup_run_status \<Rightarrow> bytes) \<Rightarrow> string \<Rightarrow> write_fate \<Rightarrow> backup_run_status \<Rightarrow> status_dir \<Rightarrow> bool \<times> status_dir" where
  "backup_status_write = write_status BACKUP_STATUS_FILE"

definition restore_status_read :: "(bytes \<Rightarrow> restore_run_status option) \<Rightarrow> bool \<Rightarrow> status_dir \<Rightarrow> restore_run_status option option" where
  "restore_status_read = read_status RESTORE_STATUS_FILE"

definition restore_status_write :: "(restore_run_status \<Rightarrow> bytes) \<Rightarrow> string \<Rightarrow> write_fate \<Rightarrow> restore_run_status \<Rightarrow> status_dir \<Rightarrow> bool \<times> status_dir" where
  "restore_status_write = write_status RESTORE_STATUS_FILE"

definition drill_status_read :: "(bytes \<Rightarrow> recovery_drill_status option) \<Rightarrow> bool \<Rightarrow> status_dir \<Rightarrow> recovery_drill_status option option" where
  "drill_status_read = read_status RECOVERY_DRILL_STATUS_FILE"

definition drill_status_write :: "(recovery_drill_status \<Rightarrow> bytes) \<Rightarrow> string \<Rightarrow> write_fate \<Rightarrow> recovery_drill_status \<Rightarrow> status_dir \<Rightarrow> bool \<times> status_dir" where
  "drill_status_write = write_status RECOVERY_DRILL_STATUS_FILE"

subsection \<open>What the status endpoints read\<close>

record monitor_config =
  mo_has_backup_dir :: bool
  mo_backup_interval_hours :: nat
  mo_recovery_drill_enabled :: bool
  mo_recovery_drill_interval_hours :: nat
  mo_has_offsite_dir :: bool
  mo_capacity_warn_bytes :: nat
  mo_capacity_critical_bytes :: nat

text \<open>The directory of the backups with the two roots of bundles, and the libraries; the clock is read twice.\<close>

record monitor_env =
  mv_status_dir :: status_dir
  mv_read_ok :: "string \<Rightarrow> bool"
  mv_decode_backup :: "bytes \<Rightarrow> backup_run_status option"
  mv_decode_restore :: "bytes \<Rightarrow> restore_run_status option"
  mv_decode_drill :: "bytes \<Rightarrow> recovery_drill_status option"
  mv_parse_time :: "string \<Rightarrow> int option"
  mv_bundle_decode :: "bytes \<Rightarrow> backup_bundle_manifest option"
  mv_local_root :: root_dir
  mv_offsite_root :: root_dir
  mv_now :: int
  mv_readiness_now :: int

definition monitor_readiness :: "monitor_config \<Rightarrow> monitor_env \<Rightarrow> backup_readiness_snapshot option" where
  "monitor_readiness cfg v =
     evaluate_backup_readiness (mv_parse_time v) (mo_has_backup_dir cfg)
       (backup_status_read (mv_decode_backup v) (mv_read_ok v BACKUP_STATUS_FILE) (mv_status_dir v))
       (mo_backup_interval_hours cfg) (mv_readiness_now v)"

definition monitor_restore_status :: "monitor_config \<Rightarrow> monitor_env \<Rightarrow> restore_run_status option option" where
  "monitor_restore_status cfg v =
     (if \<not> mo_has_backup_dir cfg then Some None
      else restore_status_read (mv_decode_restore v) (mv_read_ok v RESTORE_STATUS_FILE) (mv_status_dir v))"

definition monitor_drill_status :: "monitor_config \<Rightarrow> monitor_env \<Rightarrow> recovery_drill_status option option" where
  "monitor_drill_status cfg v =
     (if \<not> mo_has_backup_dir cfg then Some None
      else drill_status_read (mv_decode_drill v) (mv_read_ok v RECOVERY_DRILL_STATUS_FILE) (mv_status_dir v))"

subsection \<open>Metrics of backups\<close>

definition unix_timestamp :: "int \<Rightarrow> int" where
  "unix_timestamp t = t div 10 ^ 9"

definition parse_timestamp_seconds :: "(string \<Rightarrow> int option) \<Rightarrow> string \<Rightarrow> rat option" where
  "parse_timestamp_seconds parse_time value = map_option (\<lambda>t. f64_of_int (unix_timestamp t)) (parse_time value)"

definition outcome_label :: "run_outcome \<Rightarrow> string" where
  "outcome_label r = (case r of RunSuccess \<Rightarrow> ''success'' | RunFailed \<Rightarrow> ''failure'')"

definition duration_seconds :: "nat \<Rightarrow> rat" where
  "duration_seconds ms = f64_div (f64_of_int (int ms)) 1000"

definition age_of :: "int \<Rightarrow> rat \<Rightarrow> rat" where
  "age_of now timestamp = max (f64_sub (f64_of_int (unix_timestamp now)) timestamp) 0"

text \<open>\<open>f64::MAX\<close> as the age of an unreadable time is older than any interval.\<close>

definition recovery_drill_metric_values :: "monitor_config \<Rightarrow> (string \<Rightarrow> int option) \<Rightarrow> recovery_drill_status option \<Rightarrow> int \<Rightarrow> metrics \<Rightarrow>
    (string \<times> string option \<times> rat option \<times> rat option \<times> rat option) \<times> metrics" where
  "recovery_drill_metric_values cfg parse_time status now m =
     (case status of None \<Rightarrow> ((''never_run'', None, None, None, None), m)
      | Some status \<Rightarrow>
          let completed_at = parse_timestamp_seconds parse_time (ds_completed_at status);
              m = (if completed_at = None then record_backup_metrics_collection_error ''recovery_drill_status'' m else m);
              age_seconds = map_option (age_of now) completed_at;
              state = (case ds_outcome status of RunFailed \<Rightarrow> ''failed''
                | RunSuccess \<Rightarrow>
                    let interval_seconds = max (i64_sat_mul (as_i64 (int (mo_recovery_drill_interval_hours cfg))) (60 * 60)) 1 in
                    if (case age_seconds of None \<Rightarrow> True | Some age \<Rightarrow> f64_of_int interval_seconds < age) then ''stale'' else ''ready'') in
          ((state, Some (outcome_label (ds_outcome status)), completed_at, Some (duration_seconds (ds_duration_ms status)), age_seconds), m))"

definition record_storage_metrics :: "monitor_env \<Rightarrow> string \<Rightarrow> root_dir \<Rightarrow> nat \<Rightarrow> nat \<Rightarrow> metrics \<Rightarrow> metrics" where
  "record_storage_metrics v location bundle_root warn_bytes critical_bytes m =
     (case backup_bundle_storage_stats (mv_bundle_decode v) (mv_parse_time v) bundle_root of
        Inr stats \<Rightarrow> record_backup_capacity location (bss_total_bytes stats) warn_bytes critical_bytes
          (record_backup_storage location (bss_bundle_count stats) (bss_total_bytes stats) (bss_invalid_count stats) m)
      | Inl _ \<Rightarrow> record_backup_metrics_collection_error ''storage'' m)"

definition record_readiness_metrics :: "monitor_config \<Rightarrow> monitor_env \<Rightarrow> metrics \<Rightarrow> metrics" where
  "record_readiness_metrics cfg v m =
     (case monitor_readiness cfg v of
        None \<Rightarrow> record_backup_metrics_collection_error ''backup_status'' m
      | Some snapshot \<Rightarrow>
          (case (case sn_status snapshot of None \<Rightarrow> (None, None, None)
              | Some status \<Rightarrow> (Some (outcome_label (bs_outcome status)), parse_timestamp_seconds (mv_parse_time v) (bs_completed_at status),
                  Some (duration_seconds (bs_duration_ms status)))) of
             (result, completed_at, seconds) \<Rightarrow>
               record_backup_status (readiness_str (sn_readiness snapshot)) result completed_at seconds
                 (map_option f64_of_int (sn_age_seconds snapshot)) m))"

definition record_drill_metrics :: "monitor_config \<Rightarrow> monitor_env \<Rightarrow> metrics \<Rightarrow> metrics" where
  "record_drill_metrics cfg v m =
     (if \<not> mo_recovery_drill_enabled cfg then record_recovery_drill_status ''disabled'' None None None None m
      else case monitor_drill_status cfg v of
        None \<Rightarrow> record_backup_metrics_collection_error ''recovery_drill_status'' m
      | Some status \<Rightarrow>
          (case recovery_drill_metric_values cfg (mv_parse_time v) status (mv_now v) m of
             ((state, result, completed_at, seconds, age_seconds), m) \<Rightarrow>
               record_recovery_drill_status state result completed_at seconds age_seconds m))"

definition record_restore_metrics :: "monitor_config \<Rightarrow> monitor_env \<Rightarrow> metrics \<Rightarrow> metrics" where
  "record_restore_metrics cfg v m =
     (case monitor_restore_status cfg v of
        None \<Rightarrow> record_backup_metrics_collection_error ''restore_status'' m
      | Some None \<Rightarrow> record_restore_status ''never_run'' None None None None m
      | Some (Some status) \<Rightarrow>
          let completed_at = parse_timestamp_seconds (mv_parse_time v) (rs_completed_at status);
              m = (if completed_at = None then record_backup_metrics_collection_error ''restore_status'' m else m);
              age_seconds = map_option (age_of (mv_now v)) completed_at in
          record_restore_status (if completed_at = None \<or> rs_outcome status = RunFailed then ''failed'' else ''ready'')
            (Some (outcome_label (rs_outcome status))) completed_at (Some (duration_seconds (rs_duration_ms status))) age_seconds m)"

definition record_backup_metrics :: "monitor_config \<Rightarrow> monitor_env \<Rightarrow> metrics \<Rightarrow> metrics" where
  "record_backup_metrics cfg v m =
     (let m = record_restore_metrics cfg v (record_drill_metrics cfg v (record_readiness_metrics cfg v m));
          m = record_replication_enabled (mo_has_offsite_dir cfg) m;
          m = (if mo_has_backup_dir cfg
            then record_storage_metrics v ''local'' (mv_local_root v) (mo_capacity_warn_bytes cfg) (mo_capacity_critical_bytes cfg) m else m) in
      if mo_has_offsite_dir cfg
      then record_storage_metrics v ''offsite'' (mv_offsite_root v) (mo_capacity_warn_bytes cfg) (mo_capacity_critical_bytes cfg) m else m)"

text \<open>The endpoint is refused when no recorder is installed; what it renders is the registry.\<close>

definition metrics_handler :: "bool \<Rightarrow> monitor_config \<Rightarrow> monitor_env \<Rightarrow> metrics \<Rightarrow> metrics option \<times> metrics" where
  "metrics_handler has_handle cfg v m =
     (if \<not> has_handle then (None, m) else let m = record_backup_metrics cfg v m in (Some m, m))"

subsection \<open>Health\<close>

definition health_live :: json where
  "health_live = json_object [(''status'', JString ''ok'')]"

definition health_startup :: json where
  "health_startup = json_object [(''status'', JString ''started'')]"

text \<open>\<open>ping\<close> is \<open>None\<close> without a database, else whether it answers.\<close>

definition health_ready :: "bool \<Rightarrow> bool option \<Rightarrow> json api_result" where
  "health_ready store_ok ping =
     (if \<not> store_ok then Inl (ApiError 503 ''OBJECT_STORE_UNAVAILABLE'')
      else case ping of
        Some ok \<Rightarrow> if ok then Inr (json_object [(''status'', JString ''ready''), (''store'', JString ''postgres'')])
          else Inl (ApiError 503 ''DB_UNAVAILABLE'')
      | None \<Rightarrow> Inr (json_object [(''status'', JString ''ready''), (''store'', JString ''memory'')]))"

definition outcome_name :: "run_outcome \<Rightarrow> string" where
  "outcome_name r = (case r of RunSuccess \<Rightarrow> ''success'' | RunFailed \<Rightarrow> ''failed'')"

definition json_opt :: "('a \<Rightarrow> json) \<Rightarrow> 'a option \<Rightarrow> json" where
  "json_opt f x = (case x of None \<Rightarrow> JNull | Some a \<Rightarrow> f a)"

definition health_backup :: "monitor_config \<Rightarrow> monitor_env \<Rightarrow> json api_result" where
  "health_backup cfg v =
     (case monitor_readiness cfg v of None \<Rightarrow> Inl (ApiError 500 ''BACKUP_STATUS_ERROR'') | Some snapshot \<Rightarrow>
      case monitor_restore_status cfg v of None \<Rightarrow> Inl (ApiError 500 ''RESTORE_STATUS_ERROR'') | Some last_restore \<Rightarrow>
      case monitor_drill_status cfg v of None \<Rightarrow> Inl (ApiError 500 ''RECOVERY_DRILL_STATUS_ERROR'') | Some last_drill \<Rightarrow>
      let run = sn_status snapshot in
      Inr (json_object
        [(''status'', JString (readiness_str (sn_readiness snapshot))),
         (''intervalHours'', JInt (int (mo_backup_interval_hours cfg))),
         (''ageSeconds'', json_opt JInt (sn_age_seconds snapshot)),
         (''lastCompletedAt'', json_opt (\<lambda>s. JString (bs_completed_at s)) run),
         (''fileCount'', json_opt (\<lambda>s. JInt (int (bs_file_count s))) run),
         (''totalSizeBytes'', json_opt (\<lambda>s. JInt (int (bs_total_size_bytes s))) run),
         (''replicated'', json_opt (\<lambda>s. JBool (bs_replicated s)) run),
         (''lastRestore'', json_opt (\<lambda>s. json_object
            [(''outcome'', JString (outcome_name (rs_outcome s))), (''completedAt'', JString (rs_completed_at s)),
             (''durationMs'', JInt (int (rs_duration_ms s))), (''objectCount'', JInt (int (rs_object_count s))),
             (''bookCount'', JInt (rs_book_count s)), (''transactionCount'', JInt (rs_transaction_count s))]) last_restore),
         (''lastRecoveryDrill'', json_opt (\<lambda>s. json_object
            [(''outcome'', JString (outcome_name (ds_outcome s))), (''completedAt'', JString (ds_completed_at s)),
             (''durationMs'', JInt (int (ds_duration_ms s))), (''bundleCreatedAt'', JString (ds_bundle_created_at s)),
             (''objectCount'', JInt (int (ds_object_count s))), (''bookCount'', JInt (ds_book_count s)),
             (''transactionCount'', JInt (ds_transaction_count s))]) last_drill)]))"

subsection \<open>A status is there as a whole or not at all\<close>

lemma status_names: "name @ ''.tmp-'' @ uuid \<noteq> name" "name \<noteq> name @ ''.tmp-'' @ uuid"
  by simp_all

text \<open>
  However far the write of a status gets, a reader then finds the status from before or the new one, and the new one
  exactly when the write reports success; the files of the other two statuses are not touched.
\<close>

theorem status_never_torn:
  assumes "\<forall>s. decode (encode s) = Some s" and "name \<in> {BACKUP_STATUS_FILE, RESTORE_STATUS_FILE, RECOVERY_DRILL_STATUS_FILE}"
  shows "case write_status name encode uuid fate status d of (ok, d') \<Rightarrow>
    read_status name decode True d' = (if ok then Some (Some status) else read_status name decode True d) \<and>
    (ok \<longleftrightarrow> fate = WriteDone) \<and>
    (\<forall>other \<in> {BACKUP_STATUS_FILE, RESTORE_STATUS_FILE, RECOVERY_DRILL_STATUS_FILE} - {name}. hm_get d' other = hm_get d other)"
proof -
  have "other \<noteq> name @ ''.tmp-'' @ uuid" if "other \<in> {BACKUP_STATUS_FILE, RESTORE_STATUS_FILE, RECOVERY_DRILL_STATUS_FILE}" for other
    using that assms(2) by (auto simp: BACKUP_STATUS_FILE_def RESTORE_STATUS_FILE_def RECOVERY_DRILL_STATUS_FILE_def)
  then show ?thesis
    using assms by (cases fate) (auto simp: write_status_def read_status_def Let_def)
qed

subsection \<open>One state at a time\<close>

lemma gauge_set_get [simp]: "hm_get (mt_gauges (gauge_set name labels x m)) k = (if k = (name, labels) then Some x else hm_get (mt_gauges m) k)"
  by (simp add: gauge_set_def)

lemma collection_error_gauges [simp]: "mt_gauges (record_backup_metrics_collection_error c m) = mt_gauges m"
  by (simp add: record_backup_metrics_collection_error_def counter_add_def)

definition shows_state :: "string \<Rightarrow> string \<Rightarrow> metrics \<Rightarrow> bool" where
  "shows_state metric state m \<longleftrightarrow>
     (\<forall>s \<in> set BACKUP_STATES. hm_get (mt_gauges m) (metric, [(''state'', s)]) = Some (if s = state then 1 else 0)) \<and> state \<in> set BACKUP_STATES"

lemma shows_state_cong:
  "\<forall>labels. hm_get (mt_gauges m1) (metric, labels) = hm_get (mt_gauges m2) (metric, labels) \<Longrightarrow> shows_state metric st m1 = shows_state metric st m2"
  by (simp add: shows_state_def)

lemma record_run_status_shows:
  assumes "state \<in> set BACKUP_STATES" and "distinct [sm, tm, dm, am]"
  shows "shows_state sm state (record_run_status sm tm dm am state r t d a m)"
  using assms
  by (auto simp: shows_state_def record_run_status_def Let_def BACKUP_STATES_def RUN_OUTCOMES_def static_label_def)

lemma record_run_status_frame:
  assumes "name \<notin> {sm, tm, dm, am}"
  shows "hm_get (mt_gauges (record_run_status sm tm dm am state r t d a m)) (name, labels) = hm_get (mt_gauges m) (name, labels)"
  using assms by (simp add: record_run_status_def Let_def BACKUP_STATES_def RUN_OUTCOMES_def)

text \<open>The states in whole seconds, without rounding.\<close>

definition drill_state_of :: "nat \<Rightarrow> (string \<Rightarrow> int option) \<Rightarrow> int \<Rightarrow> recovery_drill_status option \<Rightarrow> string" where
  "drill_state_of interval_hours parse_time now status =
     (case status of None \<Rightarrow> ''never_run''
      | Some s \<Rightarrow>
          if ds_outcome s = RunFailed then ''failed''
          else case parse_time (ds_completed_at s) of None \<Rightarrow> ''stale''
          | Some t \<Rightarrow> if unix_timestamp now - unix_timestamp t \<le> max (i64_sat_mul (as_i64 (int interval_hours)) 3600) 1 then ''ready'' else ''stale'')"

definition restore_state_of :: "(string \<Rightarrow> int option) \<Rightarrow> restore_run_status option \<Rightarrow> string" where
  "restore_state_of parse_time status =
     (case status of None \<Rightarrow> ''never_run''
      | Some s \<Rightarrow> if rs_outcome s = RunFailed \<or> parse_time (rs_completed_at s) = None then ''failed'' else ''ready'')"

lemma age_exact:
  assumes "\<bar>unix_timestamp now\<bar> < 2 ^ 52" and "\<bar>unix_timestamp t\<bar> < 2 ^ 52"
  shows "age_of now (f64_of_int (unix_timestamp t)) = of_int (max (unix_timestamp now - unix_timestamp t) 0)"
proof -
  have n: "f64_round (of_int (unix_timestamp now)) = of_int (unix_timestamp now)"
    by (rule f64_round_int) (use assms in simp)
  have t: "f64_round (of_int (unix_timestamp t)) = of_int (unix_timestamp t)"
    by (rule f64_round_int) (use assms in simp)
  have "f64_round (of_int (unix_timestamp now - unix_timestamp t)) = of_int (unix_timestamp now - unix_timestamp t)"
    by (rule f64_round_int) (use assms in simp)
  then show ?thesis by (simp add: age_of_def f64_of_int_def f64_sub_def n t)
qed

lemma f64_less_int:
  assumes "0 \<le> b" "b \<le> 2 ^ 53"
  shows "f64_of_int a < of_int b \<longleftrightarrow> a < b"
proof
  have b: "f64_of_int b = of_int b" using assms by (simp add: f64_of_int_def f64_round_int)
  show "a < b" if "f64_of_int a < of_int b"
  proof (rule ccontr)
    assume "\<not> a < b"
    then have "f64_of_int b \<le> f64_of_int a" by (simp add: f64_of_int_def f64_round_mono)
    then show False using that b by simp
  qed
  show "f64_of_int a < of_int b" if "a < b"
  proof (cases "- (2 ^ 53) \<le> a")
    case True
    then have "f64_of_int a = of_int a" using that assms by (simp add: f64_of_int_def f64_round_int)
    then show ?thesis using that by simp
  next
    case False
    then have "f64_of_int a \<le> f64_of_int (- 1)" by (simp add: f64_of_int_def f64_round_mono)
    also have "f64_of_int (- 1) = - 1" using f64_round_int [of "- 1"] by (simp add: f64_of_int_def)
    also have "(- 1 :: rat) < of_int b" using assms(1) by linarith
    finally show ?thesis .
  qed
qed

lemma drill_metric_state:
  assumes "\<bar>unix_timestamp now\<bar> < 2 ^ 52" and "\<forall>s t. parse_time s = Some t \<longrightarrow> \<bar>unix_timestamp t\<bar> < 2 ^ 52"
  shows "fst (fst (recovery_drill_metric_values cfg parse_time status now m)) =
    drill_state_of (mo_recovery_drill_interval_hours cfg) parse_time now status"
proof (cases status)
  case (Some s)
  show ?thesis
  proof (cases "parse_time (ds_completed_at s)")
    case None
    then show ?thesis
      by (simp add: Some recovery_drill_metric_values_def drill_state_of_def parse_timestamp_seconds_def split: run_outcome.split)
  next
    case (Some t)
    have t: "\<bar>unix_timestamp t\<bar> < 2 ^ 52" using assms(2) Some by blast
    let ?i = "max (i64_sat_mul (as_i64 (int (mo_recovery_drill_interval_hours cfg))) 3600) 1"
    have "f64_of_int ?i < of_int (max (unix_timestamp now - unix_timestamp t) 0) \<longleftrightarrow> ?i < max (unix_timestamp now - unix_timestamp t) 0"
      by (rule f64_less_int) (use assms(1) t in simp_all)
    then have "f64_of_int ?i < age_of now (f64_of_int (unix_timestamp t)) \<longleftrightarrow> \<not> unix_timestamp now - unix_timestamp t \<le> ?i"
      unfolding age_exact [OF assms(1) t] by linarith
    then show ?thesis
      by (simp add: \<open>status = Some s\<close> Some recovery_drill_metric_values_def drill_state_of_def parse_timestamp_seconds_def Let_def
          split: run_outcome.split)
  qed
qed (simp add: recovery_drill_metric_values_def drill_state_of_def)

lemma drill_values_gauges: "mt_gauges (snd (recovery_drill_metric_values cfg parse_time status now m)) = mt_gauges m"
  by (simp add: recovery_drill_metric_values_def Let_def split: option.split)

lemma drill_values_gauges_of: "recovery_drill_metric_values cfg parse_time status now m = (x, m') \<Longrightarrow> mt_gauges m' = mt_gauges m"
  using drill_values_gauges [of cfg parse_time status now m] by simp

lemma readiness_str_state: "readiness_str r \<in> set BACKUP_STATES"
  by (cases r) (simp_all add: BACKUP_STATES_def)

lemma drill_state_of_state: "drill_state_of i p now status \<in> set BACKUP_STATES"
  by (auto simp: drill_state_of_def BACKUP_STATES_def split: option.split)

lemma restore_state_of_state: "restore_state_of p status \<in> set BACKUP_STATES"
  by (auto simp: restore_state_of_def BACKUP_STATES_def split: option.split)

lemma readiness_metrics_show:
  "monitor_readiness cfg v = Some sn \<Longrightarrow> shows_state ''backup_state'' (readiness_str (sn_readiness sn)) (record_readiness_metrics cfg v m)"
  by (auto simp: record_readiness_metrics_def record_backup_status_def record_run_status_shows readiness_str_state split: prod.split)

lemma drill_metrics_show:
  assumes "\<bar>unix_timestamp (mv_now v)\<bar> < 2 ^ 52" and "\<forall>s t. mv_parse_time v s = Some t \<longrightarrow> \<bar>unix_timestamp t\<bar> < 2 ^ 52"
  shows "\<not> mo_recovery_drill_enabled cfg \<Longrightarrow> shows_state ''backup_recovery_drill_state'' ''disabled'' (record_drill_metrics cfg v m)"
    and "mo_recovery_drill_enabled cfg \<Longrightarrow> monitor_drill_status cfg v = Some status \<Longrightarrow> shows_state ''backup_recovery_drill_state''
      (drill_state_of (mo_recovery_drill_interval_hours cfg) (mv_parse_time v) (mv_now v) status) (record_drill_metrics cfg v m)"
proof -
  show "shows_state ''backup_recovery_drill_state'' ''disabled'' (record_drill_metrics cfg v m)" if "\<not> mo_recovery_drill_enabled cfg"
    using that by (simp add: record_drill_metrics_def record_recovery_drill_status_def record_run_status_shows BACKUP_STATES_def)
  obtain st r t d a m1 where vals: "recovery_drill_metric_values cfg (mv_parse_time v) status (mv_now v) m = ((st, r, t, d, a), m1)"
    by (metis prod.collapse)
  then have st: "st = drill_state_of (mo_recovery_drill_interval_hours cfg) (mv_parse_time v) (mv_now v) status"
    using drill_metric_state [OF assms, of cfg status m] by simp
  show "shows_state ''backup_recovery_drill_state''
      (drill_state_of (mo_recovery_drill_interval_hours cfg) (mv_parse_time v) (mv_now v) status) (record_drill_metrics cfg v m)"
    if "mo_recovery_drill_enabled cfg" "monitor_drill_status cfg v = Some status"
    using that by (simp add: record_drill_metrics_def record_recovery_drill_status_def vals st record_run_status_shows drill_state_of_state)
qed

lemma restore_metrics_show:
  "monitor_restore_status cfg v = Some status \<Longrightarrow>
     shows_state ''backup_restore_state'' (restore_state_of (mv_parse_time v) status) (record_restore_metrics cfg v m)"
proof -
  assume "monitor_restore_status cfg v = Some status"
  then have "\<exists>r t d a m1. record_restore_metrics cfg v m = record_restore_status (restore_state_of (mv_parse_time v) status) r t d a m1"
    by (cases status) (auto simp: record_restore_metrics_def restore_state_of_def Let_def parse_timestamp_seconds_def, blast+)
  then show ?thesis by (auto simp: record_restore_status_def record_run_status_shows restore_state_of_state)
qed

lemma record_storage_frame:
  assumes "name \<notin> {''backup_bundle_count'', ''backup_bundle_bytes'', ''backup_bundle_invalid'', ''backup_capacity_limit_bytes'',
    ''backup_capacity_utilization_percent''}"
  shows "hm_get (mt_gauges (record_storage_metrics v location bundle_root w c m)) (name, labels) = hm_get (mt_gauges m) (name, labels)"
  using assms
  by (simp add: record_storage_metrics_def record_backup_storage_def record_backup_capacity_def Let_def split: sum.split)

text \<open>
  C38. After a scrape each of the three state metrics shows exactly one state, and the right one: that of the readiness
  that the health endpoint reports, \<open>ready\<close> for a drill that passed within the interval counted in whole seconds, and the
  outcome of the last restoration. A status that cannot be read leaves its metric as it was.
\<close>

theorem metrics_show_one_state:
  assumes "\<bar>unix_timestamp (mv_now v)\<bar> < 2 ^ 52" and "\<forall>s t. mv_parse_time v s = Some t \<longrightarrow> \<bar>unix_timestamp t\<bar> < 2 ^ 52"
    and "m' = record_backup_metrics cfg v m"
  shows "(case monitor_readiness cfg v of
        Some snapshot \<Rightarrow> shows_state ''backup_state'' (readiness_str (sn_readiness snapshot)) m'
      | None \<Rightarrow> \<forall>labels. hm_get (mt_gauges m') (''backup_state'', labels) = hm_get (mt_gauges m) (''backup_state'', labels))
    \<and> (if \<not> mo_recovery_drill_enabled cfg then shows_state ''backup_recovery_drill_state'' ''disabled'' m'
      else case monitor_drill_status cfg v of
        Some status \<Rightarrow> shows_state ''backup_recovery_drill_state''
          (drill_state_of (mo_recovery_drill_interval_hours cfg) (mv_parse_time v) (mv_now v) status) m'
      | None \<Rightarrow> \<forall>labels. hm_get (mt_gauges m') (''backup_recovery_drill_state'', labels) = hm_get (mt_gauges m) (''backup_recovery_drill_state'', labels))
    \<and> (case monitor_restore_status cfg v of
        Some status \<Rightarrow> shows_state ''backup_restore_state'' (restore_state_of (mv_parse_time v) status) m'
      | None \<Rightarrow> \<forall>labels. hm_get (mt_gauges m') (''backup_restore_state'', labels) = hm_get (mt_gauges m) (''backup_restore_state'', labels))"
proof -
  define m1 m2 m3 where m: "m1 = record_readiness_metrics cfg v m" "m2 = record_drill_metrics cfg v m1" "m3 = record_restore_metrics cfg v m2"
  let ?same = "\<lambda>name a b. \<forall>labels. hm_get (mt_gauges a) (name, labels) = hm_get (mt_gauges b) (name, labels)"
  have late: "?same name m' m3" if "name \<in> {''backup_state'', ''backup_recovery_drill_state'', ''backup_restore_state''}" for name
    using that by (auto simp: assms(3) m [symmetric] record_backup_metrics_def Let_def record_storage_frame record_replication_enabled_def)
  have restore: "?same name m3 m2" if "name \<in> {''backup_state'', ''backup_recovery_drill_state''}" for name
    using that
    by (auto simp: m(3) record_restore_metrics_def Let_def record_restore_status_def record_run_status_frame split: option.split)
  have drill: "?same ''backup_state'' m2 m1" "?same ''backup_restore_state'' m2 m1"
    by (auto simp: m(2) record_drill_metrics_def record_recovery_drill_status_def record_run_status_frame drill_values_gauges_of
        split: option.split prod.split)
  have ready: "?same ''backup_recovery_drill_state'' m1 m" "?same ''backup_restore_state'' m1 m"
    by (auto simp: m(1) record_readiness_metrics_def record_backup_status_def record_run_status_frame split: option.split prod.split)
  have none: "?same ''backup_state'' m1 m" if "monitor_readiness cfg v = None"
    using that by (simp add: m(1) record_readiness_metrics_def)
  have none_drill: "?same ''backup_recovery_drill_state'' m2 m1" if "mo_recovery_drill_enabled cfg" "monitor_drill_status cfg v = None"
    using that by (simp add: m(2) record_drill_metrics_def)
  have none_restore: "?same ''backup_restore_state'' m3 m2" if "monitor_restore_status cfg v = None"
    using that by (simp add: m(3) record_restore_metrics_def)
  have ends: "?same ''backup_state'' m' m1" "?same ''backup_recovery_drill_state'' m' m2" "?same ''backup_restore_state'' m' m3"
    using late restore drill by simp_all
  note end_shows = ends [THEN shows_state_cong]
  have "case monitor_readiness cfg v of
        Some snapshot \<Rightarrow> shows_state ''backup_state'' (readiness_str (sn_readiness snapshot)) m'
      | None \<Rightarrow> ?same ''backup_state'' m' m"
    using readiness_metrics_show [of cfg v _ m, folded m(1)] none ends(1) by (simp add: end_shows(1) split: option.split)
  moreover have "if \<not> mo_recovery_drill_enabled cfg then shows_state ''backup_recovery_drill_state'' ''disabled'' m'
      else case monitor_drill_status cfg v of
        Some status \<Rightarrow> shows_state ''backup_recovery_drill_state''
          (drill_state_of (mo_recovery_drill_interval_hours cfg) (mv_parse_time v) (mv_now v) status) m'
      | None \<Rightarrow> ?same ''backup_recovery_drill_state'' m' m"
    using drill_metrics_show [OF assms(1,2), where cfg = cfg and m = m1, folded m(2)] none_drill ends(2) ready(1)
    by (simp add: end_shows(2) split: option.split)
  moreover have "case monitor_restore_status cfg v of
        Some status \<Rightarrow> shows_state ''backup_restore_state'' (restore_state_of (mv_parse_time v) status) m'
      | None \<Rightarrow> ?same ''backup_restore_state'' m' m"
    using restore_metrics_show [of cfg v _ m2, folded m(3)] none_restore ends(3) drill(2) ready(2)
    by (simp add: end_shows(3) split: option.split)
  ultimately show ?thesis by blast
qed

subsection \<open>Capacity\<close>

text \<open>
  The utilisation crosses 100 percent where the bytes cross the threshold, in spite of the roundings: at most 100 as
  long as the bundles take no more than the threshold, at least 100 from there on.
\<close>

lemma utilization_threshold:
  assumes "0 < limit_bytes"
  shows "used_bytes \<le> limit_bytes \<Longrightarrow> 0 \<le> utilization_percent used_bytes limit_bytes \<and> utilization_percent used_bytes limit_bytes \<le> 100"
    and "limit_bytes \<le> used_bytes \<Longrightarrow> 100 \<le> utilization_percent used_bytes limit_bytes"
proof -
  let ?u = "f64_of_int (int used_bytes)" and ?l = "f64_of_int (int limit_bytes)"
  have one: "f64_round 1 = 1" and hundred: "f64_round 100 = 100"
    using f64_round_int [of 1] f64_round_int [of 100] by simp_all
  have l: "1 \<le> ?l" and u: "0 \<le> ?u"
    using f64_round_mono [of 1 "of_int (int limit_bytes)"] f64_round_nonneg [of "of_int (int used_bytes)"] assms one
    by (simp_all add: f64_of_int_def)
  have max: "max limit_bytes (Suc 0) = limit_bytes" using assms by simp
  show "0 \<le> utilization_percent used_bytes limit_bytes \<and> utilization_percent used_bytes limit_bytes \<le> 100" if "used_bytes \<le> limit_bytes"
  proof -
    have "?u \<le> ?l" using that by (simp add: f64_of_int_def f64_round_mono)
    then have "0 \<le> f64_div ?u ?l" "f64_div ?u ?l \<le> 1"
      using l u f64_round_mono [of "?u / ?l" 1] f64_round_nonneg [of "?u / ?l"] one by (simp_all add: f64_div_def)
    then show ?thesis
      using f64_round_mono [of "f64_div ?u ?l * 100" 100] f64_round_nonneg [of "f64_div ?u ?l * 100"] hundred
      by (simp add: utilization_percent_def max f64_mul_def)
  qed
  show "100 \<le> utilization_percent used_bytes limit_bytes" if "limit_bytes \<le> used_bytes"
  proof -
    have "?l \<le> ?u" using that by (simp add: f64_of_int_def f64_round_mono)
    then have "1 \<le> f64_div ?u ?l" using l f64_round_mono [of 1 "?u / ?l"] one by (simp add: f64_div_def)
    then show ?thesis
      using f64_round_mono [of 100 "f64_div ?u ?l * 100"] hundred by (simp add: utilization_percent_def max f64_mul_def)
  qed
qed

subsection \<open>Witnesses\<close>

definition ex_drill_status :: recovery_drill_status where
  "ex_drill_status = \<lparr>ds_outcome = RunSuccess, ds_started_at = ''1'', ds_completed_at = ''22'', ds_duration_ms = 5,
     ds_bundle_created_at = ''1'', ds_file_count = 2, ds_object_count = 0, ds_book_count = 1, ds_transaction_count = 2, ds_error_summary = None\<rparr>"

definition ex_monitor_env :: monitor_env where
  "ex_monitor_env = \<lparr>mv_status_dir = [(''recovery-drill-status.json'', ''D'')], mv_read_ok = (\<lambda>_. True), mv_decode_backup = (\<lambda>_. None),
     mv_decode_restore = (\<lambda>_. None), mv_decode_drill = (\<lambda>_. Some ex_drill_status), mv_parse_time = (\<lambda>s. if length s < 100 then Some (10 ^ 9 * int (length s)) else None),
     mv_bundle_decode = (\<lambda>_. None), mv_local_root = RootAbsent, mv_offsite_root = RootAbsent, mv_now = 7200 * 10 ^ 9, mv_readiness_now = 0\<rparr>"

definition ex_monitor_config :: monitor_config where
  "ex_monitor_config = \<lparr>mo_has_backup_dir = True, mo_backup_interval_hours = 24, mo_recovery_drill_enabled = True,
     mo_recovery_drill_interval_hours = 1, mo_has_offsite_dir = False, mo_capacity_warn_bytes = 1, mo_capacity_critical_bytes = 2\<rparr>"

theorem status_never_torn_witness:
  "read_status BACKUP_STATUS_FILE Some True (snd (write_status BACKUP_STATUS_FILE (\<lambda>s. s) ''u'' (WriteFails ''{'') ''new'' [(''status.json'', ''old'')])) = Some (Some ''old'')"
  using status_never_torn [where decode = Some and encode = "\<lambda>s. s" and name = BACKUP_STATUS_FILE and uuid = "''u''"
      and fate = "WriteFails ''{''" and status = "''new''" and d = "[(''status.json'', ''old'')]"]
  by (simp add: write_status_def read_status_def BACKUP_STATUS_FILE_def hm_get_def split: if_splits)

theorem metrics_show_one_state_witness:
  "shows_state ''backup_recovery_drill_state'' ''stale'' (record_backup_metrics ex_monitor_config ex_monitor_env no_metrics) \<and>
   shows_state ''backup_state'' ''never_run'' (record_backup_metrics ex_monitor_config ex_monitor_env no_metrics)"
proof -
  have d: "monitor_drill_status ex_monitor_config ex_monitor_env = Some (Some ex_drill_status)"
    by (simp add: monitor_drill_status_def drill_status_read_def read_status_def ex_monitor_config_def ex_monitor_env_def
        RECOVERY_DRILL_STATUS_FILE_def hm_get_def)
  have r: "map_option sn_readiness (monitor_readiness ex_monitor_config ex_monitor_env) = Some NeverRun"
    by (simp add: monitor_readiness_def backup_status_read_def read_status_def ex_monitor_config_def ex_monitor_env_def
        BACKUP_STATUS_FILE_def hm_get_def evaluate_backup_readiness_def)
  have one: "as_i64 1 = 1" by code_simp
  have stale: "drill_state_of 1 (mv_parse_time ex_monitor_env) (7200 * 10 ^ 9) (Some ex_drill_status) = ''stale''"
    by (simp add: drill_state_of_def ex_drill_status_def ex_monitor_env_def unix_timestamp_def i64_sat_mul_def one)
  have "\<forall>s t. mv_parse_time ex_monitor_env s = Some t \<longrightarrow> \<bar>unix_timestamp t\<bar> < 2 ^ 52"
    by (simp add: ex_monitor_env_def unix_timestamp_def)
  moreover have "\<bar>unix_timestamp (mv_now ex_monitor_env)\<bar> < 2 ^ 52" by (simp add: ex_monitor_env_def unix_timestamp_def)
  ultimately show ?thesis
    using metrics_show_one_state [OF _ _ refl, of ex_monitor_env ex_monitor_config no_metrics] d r stale
    by (auto simp: ex_monitor_config_def ex_monitor_env_def)
qed

end
