(* ===== verification/Http_Edge.thy ===== *)
theory Http_Edge
  imports Attachment_Laws Metrics "HOL-Library.Word"
begin

unbundle bit_operations_syntax

section \<open>The edge of the server (router.rs, bootstrap.rs, error.rs)\<close>

text \<open>
  What a request meets before and after its handler: the routes with their methods and body limits, the id of the
  request, and the body of an error. A route of the model is a pattern, its methods and the limit of its own
  (\<open>DefaultBodyLimit::max\<close>). The limit of routes without one is axum's and an argument, \<open>default_limit\<close>.
\<close>

subsection \<open>Routes\<close>

type_synonym route = "string \<times> string list \<times> nat option"

definition health_routes :: "route list" where
  "health_routes =
     [(''/health/live'', [''GET''], None), (''/health/ready'', [''GET''], None), (''/health/startup'', [''GET''], None),
      (''/health/backup'', [''GET''], None), (''/metrics'', [''GET''], None)]"

definition auth_routes :: "route list" where
  "auth_routes =
     map (\<lambda>(p, methods, _). (p, methods, Some (16 * 1024)))
       [(''/v1/auth/register'', [''POST''], None), (''/v1/auth/login'', [''POST''], None), (''/v1/auth/refresh'', [''POST''], None),
        (''/v1/auth/logout'', [''POST''], None :: nat option)]"

definition audit_routes :: "route list" where
  "audit_routes = [(''/v1/audit/events'', [''GET''], None)]"

definition books_routes :: "route list" where
  "books_routes = [(''/v1/books'', [''GET'', ''POST''], None)]"

definition ledger_routes :: "route list" where
  "ledger_routes = [(''/v1/transactions'', [''POST''], None)]"

definition sync_routes :: "route list" where
  "sync_routes =
     [(''/v1/books/{book_id}/sync/push'', [''POST''], None), (''/v1/books/{book_id}/sync/pull'', [''GET''], None),
      (''/v1/books/{book_id}/sync/bootstrap'', [''POST''], None)]"

definition commercial_routes :: "route list" where
  "commercial_routes =
     [(''/v1/books/{book_id}/invites'', [''POST'', ''GET''], None),
      (''/v1/books/{book_id}/budgets'', [''POST'', ''GET''], None),
      (''/v1/books/{book_id}/attachments/upload-session'', [''POST''], None),
      (''/v1/books/{book_id}/attachments'', [''GET''], None),
      (''/v1/books/{book_id}/attachments/{attachment_id}'', [''DELETE''], None),
      (''/v1/books/{book_id}/recurring'', [''POST'', ''GET''], None),
      (''/v1/books/{book_id}/attachments/{attachment_id}/complete'', [''POST''], None),
      (''/v1/books/{book_id}/attachments/{attachment_id}/parts/{part_number}'', [''PUT''], Some (MULTIPART_PART_SIZE_BYTES + 1024)),
      (''/v1/books/{book_id}/attachments/{attachment_id}/parts/{part_number}/upload-url'', [''POST''], None),
      (''/v1/books/{book_id}/attachments/{attachment_id}/parts/{part_number}/complete'', [''POST''], None),
      (''/v1/books/{book_id}/attachments/{attachment_id}/multipart'', [''GET'', ''DELETE''], None)]"

definition reports_routes :: "route list" where
  "reports_routes =
     [(''/v1/books/{book_id}/reports/summary'', [''GET''], None), (''/v1/books/{book_id}/reports/trend'', [''GET''], None),
      (''/v1/books/{book_id}/reports/budget'', [''GET''], None),
      (''/v1/books/{book_id}/transactions/{tx_id}/revisions'', [''GET''], None),
      (''/v1/books/{book_id}/fx-rates'', [''GET'', ''PUT''], None)]"

definition billing_routes :: "route list" where
  "billing_routes = [(''/v1/billing/dev-upgrade'', [''POST''], None)]"

definition object_store_routes :: "route list" where
  "object_store_routes = [(''/v1/object-store/{*key}'', [''PUT'', ''GET''], None)]"

definition app_router :: "route list" where
  "app_router = health_routes @ auth_routes @ audit_routes @ books_routes @ ledger_routes @ sync_routes @ commercial_routes
     @ reports_routes @ billing_routes @ object_store_routes"

definition route_limit :: "string \<Rightarrow> nat option" where
  "route_limit pattern = (case map_of app_router pattern of None \<Rightarrow> None | Some (_, limit) \<Rightarrow> limit)"

subsection \<open>Body limits\<close>

definition REQUEST_BODY_LIMIT :: nat where
  "REQUEST_BODY_LIMIT = 8 * 1024 * 1024"

text \<open>The layer around the whole router (bootstrap.rs) and the limit of the extractors of a route both apply.\<close>

definition body_accepted :: "nat \<Rightarrow> string \<Rightarrow> nat \<Rightarrow> bool" where
  "body_accepted default_limit pattern len \<longleftrightarrow> len \<le> REQUEST_BODY_LIMIT \<and>
     len \<le> (case route_limit pattern of None \<Rightarrow> default_limit | Some limit \<Rightarrow> limit)"

text \<open>The refusal comes from axum and carries no code of the server.\<close>

definition payload_too_large :: api_error where
  "payload_too_large = ApiError 413 ''''"

definition put_object_request :: "nat \<Rightarrow> (string \<Rightarrow> string \<Rightarrow> string) \<Rightarrow> signing_config \<Rightarrow> nat \<Rightarrow> local_env \<Rightarrow>
    string \<Rightarrow> signed_query \<Rightarrow> bytes \<Rightarrow> local_fs \<Rightarrow> unit api_result \<times> local_fs" where
  "put_object_request default_limit mac cfg now_secs env key q body fs =
     (if body_accepted default_limit ''/v1/object-store/{*key}'' (length body) then put_object mac cfg now_secs env key q body fs
      else (Inl payload_too_large, fs))"

definition put_part_request :: "nat \<Rightarrow> 'o store_ops \<Rightarrow> string \<Rightarrow> string \<Rightarrow> string \<Rightarrow> nat \<Rightarrow> bytes \<Rightarrow>
    memory_store \<times> 'o \<Rightarrow> json api_result \<times> memory_store \<times> 'o" where
  "put_part_request default_limit ops user_id book_id attachment_id part_number body x =
     (if body_accepted default_limit ''/v1/books/{book_id}/attachments/{attachment_id}/parts/{part_number}'' (length body)
      then upload_multipart_part ops user_id book_id attachment_id part_number body x
      else (Inl payload_too_large, x))"

subsection \<open>The id of a request\<close>

text \<open>The header goes through \<open>to_str\<close>, which refuses what is not visible ASCII; the check after it refuses more.\<close>

definition MAX_INBOUND_ID_LEN :: nat where
  "MAX_INBOUND_ID_LEN = 64"

definition inbound_id_ok :: "string \<Rightarrow> bool" where
  "inbound_id_ok s \<longleftrightarrow> s \<noteq> [] \<and> length s \<le> MAX_INBOUND_ID_LEN \<and>
     list_all (\<lambda>b. is_ascii_alphanumeric b \<or> b = CHR ''_'' \<or> b = CHR ''-'') s"

definition request_id_of :: "string option \<Rightarrow> string \<Rightarrow> string" where
  "request_id_of header uuid =
     (case header of Some s \<Rightarrow> if inbound_id_ok s then s else ''req_'' @ uuid | None \<Rightarrow> ''req_'' @ uuid)"

subsection \<open>Errors\<close>

definition code_domain :: "string \<Rightarrow> string" where
  "code_domain code =
     (if code \<in> {''DB_ERROR'', ''POOL_UNAVAILABLE''} then ''postgres''
      else if code \<in> {''INVALID_CREDENTIALS'', ''INVALID_REFRESH'', ''REFRESH_REUSE'', ''EMAIL_TAKEN'', ''MIXED_REFRESH_CREDENTIALS'',
        ''MISSING_REFRESH_CREDENTIAL'', ''TOKEN_ENCODING_FAILED'', ''PASSWORD_HASH_FAILED''} then ''auth''
      else if code \<in> {''NOT_FOUND'', ''SIGNATURE_INVALID'', ''EXPIRED'', ''INVALID_METHOD''} then ''object_store''
      else if code \<in> {''INVALID_REQUEST'', ''MUTATION_REJECTED''} then ''sync''
      else ''api'')"

record api_error_body =
  eb_code :: string
  eb_request_id :: string

text \<open>
  The fields of the current span are names with values. \<open>field_to_string\<close> is the \<open>Display\<close> instance of a field of the
  tracing library. The message and the details are output only.
\<close>

definition current_request_id :: "(string \<Rightarrow> string \<Rightarrow> string) \<Rightarrow> (string \<times> string) list \<Rightarrow> string option" where
  "current_request_id field_to_string attrs =
     (case find (\<lambda>(name, _). name = ''request_id'') attrs of None \<Rightarrow> None | Some (name, v) \<Rightarrow> Some (field_to_string name v))"

definition http_request_span :: "string \<Rightarrow> string \<Rightarrow> string \<Rightarrow> (string \<times> string) list" where
  "http_request_span rid method path =
     [(''domain'', ''http''), (''operation'', ''request''), (''request_id'', rid), (''http.method'', method), (''http.path'', path)]"

definition into_response :: "(string \<Rightarrow> string \<Rightarrow> string) \<Rightarrow> (string \<times> string) list \<Rightarrow> string \<Rightarrow> api_error \<Rightarrow> metrics \<Rightarrow>
    (nat \<times> api_error_body) \<times> metrics" where
  "into_response field_to_string attrs uuid e m =
     (let m = (if code_domain (err_code e) = ''auth'' then record_auth_error (err_code e) m else m);
          rid = (case current_request_id field_to_string attrs of Some i \<Rightarrow> i | None \<Rightarrow> ''req_'' @ uuid) in
      ((err_status e, \<lparr>eb_code = err_code e, eb_request_id = rid\<rparr>), m))"

subsection \<open>Object keys in logs (obs.rs)\<close>

text \<open>FNV-1a over the bytes of the key, in 64 bits that wrap; of the hash the lowest 16 bits are shown.\<close>

definition fnv1a :: "string \<Rightarrow> 64 word" where
  "fnv1a s = foldl (\<lambda>h b. (h XOR word_of_nat (byte b)) * 0x100000001b3) 0xcbf29ce484222325 s"

definition hex_digit :: "nat \<Rightarrow> char" where
  "hex_digit n = (if n < 10 then char_of (48 + n) else char_of (87 + n))"

definition short_hash :: "string \<Rightarrow> string" where
  "short_hash s = (let h = unat (fnv1a s AND 0xFFFF) in
     [hex_digit (h div 4096 mod 16), hex_digit (h div 256 mod 16), hex_digit (h div 16 mod 16), hex_digit (h mod 16)])"

subsection \<open>The audit endpoint (audit.rs)\<close>

definition list_events :: "(timestamp \<Rightarrow> string) \<Rightarrow> string \<Rightarrow> string option \<Rightarrow> string option \<Rightarrow> string option \<Rightarrow> nat option \<Rightarrow>
    memory_store \<Rightarrow> audit_page" where
  "list_events fmt user_id action outcome before limit s =
     query_mem fmt s \<lparr>aq_actor_id = Some user_id, aq_action = action, aq_outcome = outcome, aq_before = before,
       aq_limit = (case limit of None \<Rightarrow> 50 | Some n \<Rightarrow> n)\<rparr>"

lemma list_events_own:
  assumes "v \<in> set (ap_events (list_events fmt user_id action outcome before limit s))"
  shows "av_actor_id v = Some user_id"
  using assms
  by (auto simp: list_events_def query_mem_def page_from_rows_def newest_first_def audit_matches_def audit_view_def none_or_def Let_def
      dest!: in_set_takeD)

text \<open>A key shows in logs as one of 65536 tags of four lower-case digits, never with a part of its path.\<close>

lemma hex_digit_lower:
  assumes "n < 16"
  shows "hex_digit n \<in> set ''0123456789abcdef''"
proof -
  have "list_all (\<lambda>n. hex_digit n \<in> set ''0123456789abcdef'') [0..<16]" by code_simp
  then show ?thesis using assms unfolding list_all_iff by (metis atLeastLessThan_iff set_upt zero_le)
qed

lemma short_hash_format: "length (short_hash s) = 4 \<and> set (short_hash s) \<subseteq> set ''0123456789abcdef''"
proof -
  have digit: "hex_digit (n mod 16) \<in> D" if "D = set ''0123456789abcdef''" for n D
    unfolding that by (rule hex_digit_lower) simp
  show ?thesis by (rule conjI) (simp add: short_hash_def Let_def, unfold short_hash_def Let_def list.set(2) [of "hex_digit _"] list.set(1),
      intro insert_subsetI empty_subsetI digit refl)
qed

subsection \<open>Uploads and their limits\<close>

lemmas route_defs = app_router_def health_routes_def auth_routes_def audit_routes_def books_routes_def ledger_routes_def sync_routes_def
  commercial_routes_def reports_routes_def billing_routes_def object_store_routes_def

lemma object_route_limit: "route_limit ''/v1/object-store/{*key}'' = None"
  by (simp add: route_limit_def route_defs)

lemma part_route_limit:
  "route_limit ''/v1/books/{book_id}/attachments/{attachment_id}/parts/{part_number}'' = Some (MULTIPART_PART_SIZE_BYTES + 1024)"
  by (simp add: route_limit_def route_defs)

lemma planned_part_accepted:
  assumes "multipart_part_length n i = Some (length body)"
  shows "put_part_request default_limit ops u b a i body x = upload_multipart_part ops u b a i body x"
  using part_length_Some [OF assms]
  by (simp add: put_part_request_def body_accepted_def part_route_limit REQUEST_BODY_LIMIT_def MULTIPART_PART_SIZE_BYTES_def)

lemma single_upload_session:
  assumes "create_upload_session (local_ops env tmp url) cf c u b req (s, fs) = (Inr resp, s1, fs1)"
    and "\<not> should_use_multipart False (us_size req)" and "find_attachment s b (tc_id c) = None"
  shows "fs1 = fs \<and> require_book_member s1 u b = Inr () \<and> (\<exists>p. require_plan s1 u ''plus'' = Inr p) \<and>
    (\<exists>name. find_attachment s1 b (tc_id c) = Some (new_attachment c u b req name (''books/'' @ b @ ''/'' @ tc_id c) ''single'' None))"
proof -
  let ?key = "''books/'' @ b @ ''/'' @ tc_id c"
  obtain p where mem: "require_book_member s u b = Inr ()" "require_plan s u ''plus'' = Inr p"
    using assms(1) unfolding create_upload_session_def
    by (auto split: sum.splits simp del: require_book_member_ok)
  obtain name where name: "normalize_attachment_file_name (us_file_name req) = Inr name"
    using assms(1) unfolding create_upload_session_def mem by (auto split: sum.splits)
  let ?r = "new_attachment c u b req name ?key ''single'' None"
  have s1: "books s1 = books s" "subscriptions s1 = subscriptions s" "attachments s1 = attachments s @ [?r]" and fs1: "fs1 = fs"
    using assms(1,2)
    by (auto simp: create_upload_session_def mem name local_ops_def session_response_def signed_or_direct_def Let_def
        simp del: require_book_member_ok split: if_splits)
  have "find_attachment s1 b (tc_id c) = Some ?r"
    using assms(3) by (simp add: find_attachment_def s1(3) find_append is_attachment_def new_attachment_def)
  moreover have "require_book_member s1 u b = Inr ()" "require_plan s1 u ''plus'' = Inr p"
    using mem by (simp_all add: require_book_member_def require_plan_def user_plan_def s1)
  ultimately show ?thesis using fs1 by blast
qed

lemma complete_without_object:
  assumes "require_book_member s u b = Inr ()" and "require_plan s u ''plus'' = Inr p"
    and "find_attachment s b a = Some r" and "att_upload_mode r = ''single''"
    and "local_content env fs (att_object_key r) = None" and "validated_key (att_object_key r) \<noteq> None"
  shows "fst (complete_attachment (local_ops env tmp url) cf c u b a (s, fs)) = Inl (ApiError 400 ''UPLOAD_INCOMPLETE'')"
proof -
  let ?ops = "local_ops env tmp url"
  have empty: "so_size ?ops (att_object_key r) fs = Inr None"
    using assms(5,6) by (auto simp: local_ops_def object_size_def local_content_def object_path_def get_bytes_def split: option.splits)
  have "assemble ?ops cf c u b r (s, fs) = (Inr (), s, fs)" using assms(4) by (simp add: assemble_def)
  moreover have "fst (verify_upload ?ops cf c u b r (s, fs)) = Inl (ApiError 400 ''UPLOAD_INCOMPLETE'')"
    by (simp add: verify_upload_def empty)
  ultimately show ?thesis
    using assms(1-3) by (cases "verify_upload ?ops cf c u b r (s, fs)") (simp add: complete_attachment_def del: require_book_member_ok)
qed

text \<open>
  C33. On the local object store no file between axum's default limit and 7 MiB can be uploaded. The session for it is
  granted as a single upload, the limit of the signed route refuses its body whatever the signature, and its completion
  finds nothing. Larger files go through, in parts that pass the limit of their route.
\<close>

theorem single_upload_refused:
  assumes "default_limit = 2 * 1024 * 1024" and "us_size req = Some (int (length body))"
    and "default_limit < length body" "length body \<le> 7 * 1024 * 1024"
    and "create_upload_session (local_ops env tmp url) cf c u b req (s, fs) = (Inr resp, s1, fs1)"
    and "find_attachment s b (tc_id c) = None" "plain_key (''books/'' @ b @ ''/'' @ tc_id c)"
    and "local_content env fs (''books/'' @ b @ ''/'' @ tc_id c) = None"
  shows "put_object_request default_limit mac cfg now_secs env key q body fs1 = (Inl payload_too_large, fs) \<and>
    fst (complete_attachment (local_ops env tmp url) cf c' u b (tc_id c) (s1, fs1)) = Inl (ApiError 400 ''UPLOAD_INCOMPLETE'') \<and>
    (\<forall>n i part x. multipart_part_length n i = Some (length part) \<longrightarrow>
      put_part_request default_limit ops u b a i part x = upload_multipart_part ops u b a i part x)"
proof -
  have single: "\<not> should_use_multipart False (us_size req)" using assms(2,4) by (simp add: should_use_multipart_def)
  note session = single_upload_session [OF assms(5) single assms(6)]
  then obtain name p where r: "find_attachment s1 b (tc_id c) = Some (new_attachment c u b req name (''books/'' @ b @ ''/'' @ tc_id c) ''single'' None)"
      "require_book_member s1 u b = Inr ()" "require_plan s1 u ''plus'' = Inr p"
    and fs1: "fs1 = fs" by blast
  have "validated_key (''books/'' @ b @ ''/'' @ tc_id c) \<noteq> None" using assms(7) by (simp add: plain_key_def)
  with complete_without_object [OF r(2,3,1)] assms(8)
  have "fst (complete_attachment (local_ops env tmp url) cf c' u b (tc_id c) (s1, fs1)) = Inl (ApiError 400 ''UPLOAD_INCOMPLETE'')"
    by (simp add: new_attachment_def fs1)
  moreover have "put_object_request default_limit mac cfg now_secs env key q body fs1 = (Inl payload_too_large, fs)"
    using assms(3) by (simp add: put_object_request_def body_accepted_def object_route_limit fs1)
  ultimately show ?thesis by (intro conjI allI impI planned_part_accepted)
qed

subsection \<open>Ids and labels of requests\<close>

lemma request_id_of_ok:
  assumes "inbound_id_ok (''req_'' @ uuid)"
  shows "inbound_id_ok (request_id_of header uuid)"
  using assms by (simp add: request_id_of_def split: option.split)

text \<open>The error codes of sign-in that the code uses are none of those that the metrics know.\<close>

lemma auth_errors_unlabelled:
  assumes "code_domain code = ''auth''"
  shows "record_auth_error code m = counter_add ''auth_errors_total'' [(''error_code'', ''OTHER'')] 1 m"
proof -
  have "code \<in> {''INVALID_CREDENTIALS'', ''INVALID_REFRESH'', ''REFRESH_REUSE'', ''EMAIL_TAKEN'', ''MIXED_REFRESH_CREDENTIALS'',
        ''MISSING_REFRESH_CREDENTIAL'', ''TOKEN_ENCODING_FAILED'', ''PASSWORD_HASH_FAILED''}"
    using assms by (simp add: code_domain_def split: if_splits)
  then have "static_label AUTH_ERROR_CODES code = ''OTHER''"
    by (elim insertE emptyE) (simp_all add: static_label_def AUTH_ERROR_CODES_def)
  then show ?thesis by (simp add: record_auth_error_def)
qed

text \<open>Of the 34 routes served, these have a label of their own; every request for a book is counted as \<open>OTHER\<close>.\<close>

definition labelled_routes :: "string list" where
  "labelled_routes = [''/health/live'', ''/health/ready'', ''/health/startup'', ''/metrics'', ''/v1/auth/register'', ''/v1/auth/login'',
     ''/v1/auth/refresh'', ''/v1/auth/logout'', ''/v1/audit/events'', ''/v1/books'', ''/v1/transactions'', ''/v1/billing/dev-upgrade'']"

lemma served_route_labels: "map (\<lambda>(p, _). http_route (Some p)) app_router = map (\<lambda>(p, _). if p \<in> set labelled_routes then p else ''OTHER'') app_router"
  by (simp add: http_route_def route_defs HTTP_ROUTES_def labelled_routes_def)

text \<open>
  An error cannot be traced by its id. Inside the span of a request the body of an error carries the name of the
  field, the same for all requests, and outside of it a fresh id; in neither case the id in the header of the response.
\<close>

theorem error_id_untraceable:
  assumes "\<And>name v. field_to_string name v = name" and "into_response field_to_string attrs uuid e m = ((status, body), m')"
    and "attrs = http_request_span (request_id_of header uuid') verb path \<or> ''request_id'' \<notin> fst ` set attrs"
    and "request_id_of header uuid' \<noteq> ''request_id''" "request_id_of header uuid' \<noteq> ''req_'' @ uuid"
  shows "eb_request_id body \<noteq> request_id_of header uuid' \<and> eb_code body = err_code e \<and> status = err_status e \<and>
    (code_domain (err_code e) = ''auth'' \<longrightarrow> m' = counter_add ''auth_errors_total'' [(''error_code'', ''OTHER'')] 1 m)"
proof -
  have "current_request_id field_to_string attrs \<in> {None, Some ''request_id''}"
    using assms(1) by (auto simp: current_request_id_def find_Some_iff split: option.split)
  then have "eb_request_id body \<in> {''request_id'', ''req_'' @ uuid}"
    using assms(2) by (auto simp: into_response_def Let_def)
  then show ?thesis
    using assms(2,4,5) auth_errors_unlabelled by (auto simp: into_response_def Let_def)
qed

subsection \<open>Witnesses\<close>

definition ex_photo :: bytes where
  "ex_photo = replicate (3 * 1024 * 1024) (CHR ''x'')"

definition ex_query :: signed_query where
  "ex_query = \<lparr>sq_expires = 600, sq_sig = [], sq_method = None\<rparr>"

lemma ex_single:
  "\<exists>resp s1 fs1. create_upload_session ex_ops ex_cf ex_att_call ''u1'' ''b1'' (ex_upload (length ex_photo)) (ex_att_store, ex_fs)
     = (Inr resp, s1, fs1)"
proof -
  have "require_book_member ex_att_store ''u1'' ''b1'' = Inr ()" "require_plan ex_att_store ''u1'' ''plus'' = Inr ''plus''"
    by (simp_all add: require_book_member_def require_plan_def user_plan_def plan_allows_def ex_att_store_def hm_get_def)
  then show ?thesis
    by (simp add: create_upload_session_def ex_upload_def normalize_attachment_file_name_def ex_cf_def ex_photo_def
        should_use_multipart_def ex_ops_def local_ops_def session_response_def signed_or_direct_def Let_def del: require_book_member_ok)
qed

theorem single_upload_refused_witness:
  "\<exists>s1 fs1. put_object_request (2 * 1024 * 1024) ex_mac ex_signer 0 ex_local_env ''books/b1/a1'' ex_query ex_photo fs1 = (Inl payload_too_large, ex_fs) \<and>
    fst (complete_attachment ex_ops ex_cf ex_att_call ''u1'' ''b1'' ''a1'' (s1, fs1)) = Inl (ApiError 400 ''UPLOAD_INCOMPLETE'')"
proof -
  obtain resp s1 fs1 where c: "create_upload_session ex_ops ex_cf ex_att_call ''u1'' ''b1'' (ex_upload (length ex_photo)) (ex_att_store, ex_fs)
     = (Inr resp, s1, fs1)"
    using ex_single by blast
  have l: "length ex_photo = 3 * 1024 * 1024" by (simp add: ex_photo_def)
  have f: "find_attachment ex_att_store ''b1'' (tc_id ex_att_call) = None"
    by (simp add: find_attachment_def ex_att_store_def empty_store_def)
  have n: "local_content ex_local_env ex_fs k = None" for k
    by (simp add: local_content_def get_bytes_def ex_fs_def split: sum.split)
  have "tc_id ex_att_call = ''a1''" by (simp add: ex_att_call_def)
  note refused = single_upload_refused [OF refl _ _ _ c [unfolded ex_ops_def] f ex_key n, where c' = ex_att_call and mac = ex_mac and cfg = ex_signer
      and now_secs = 0 and key = "''books/b1/a1''" and q = ex_query and ops = ex_ops and a = "''a1''",
      folded ex_ops_def, unfolded \<open>tc_id ex_att_call = ''a1''\<close>]
  have "us_size (ex_upload (length ex_photo)) = Some (int (length ex_photo))" by (simp add: ex_upload_def)
  from refused [OF this] l show ?thesis by (intro exI [of _ s1] exI [of _ fs1]) (simp del: split_paired_All)
qed

theorem error_id_untraceable_witness:
  "eb_request_id (snd (fst (into_response (\<lambda>name v. name) (http_request_span ''trace-1'' ''POST'' ''/v1/auth/refresh'') ''0'' (ApiError 401 ''INVALID_REFRESH'') no_metrics))) \<noteq> ''trace-1''"
proof -
  have ok: "inbound_id_ok ''trace-1''" by code_simp
  have i: "request_id_of (Some ''trace-1'') ''0'' = ''trace-1''"
    by (simp add: request_id_of_def ok)
  obtain status body m' where r: "into_response (\<lambda>name v. name) (http_request_span ''trace-1'' ''POST'' ''/v1/auth/refresh'') ''0'' (ApiError 401 ''INVALID_REFRESH'') no_metrics = ((status, body), m')"
    by (metis prod.collapse)
  show ?thesis
    using error_id_untraceable [OF _ r, where header = "Some ''trace-1''" and uuid' = "''0''" and verb = "''POST''" and path = "''/v1/auth/refresh''"]
    by (simp add: i r)
qed

end
