(* ===== verification/Startup.thy ===== *)
theory Startup
  imports Job_Execution
begin

section \<open>Start of the server (bootstrap.rs)\<close>

text \<open>
  The jobs that a start of the server or of a worker puts into the queue, and what becomes of the chains of jobs that
  enqueue their own successors. Every statement is a transaction of its own whose failure is ignored.
\<close>

record boot_call =
  bo_id :: "nat \<Rightarrow> string"
  bo_now :: timestamp
  bo_fate :: "nat \<Rightarrow> tx_fate"

definition try_tx :: "tx_fate \<Rightarrow> 'a sql \<Rightarrow> pg \<Rightarrow> pg" where
  "try_tx fate m s = snd (in_tx fate m s)"

abbreviation boot_if_absent :: "boot_call \<Rightarrow> nat \<Rightarrow> string \<Rightarrow> pg \<Rightarrow> pg" where
  "boot_if_absent b i ty \<equiv> try_tx (bo_fate b i) (enqueue_if_absent (bo_id b i) (bo_now b) ty (JObject []))"

definition run_api_jobs :: "bool \<Rightarrow> bool \<Rightarrow> boot_call \<Rightarrow> pg \<Rightarrow> pg" where
  "run_api_jobs has_backup_dir drill_enabled b s =
     (let s = try_tx (bo_fate b 0) (enqueue (bo_id b 0) (bo_now b) ''purge_expired_sessions'' (JObject []) 0) s;
          s = boot_if_absent b 1 ''purge_audit_events'' s;
          s = boot_if_absent b 2 ''purge_attachment_uploads'' s;
          s = try_tx (bo_fate b 3) (enqueue (bo_id b 3) (bo_now b) ''enqueue_recurring_scan'' (JObject []) 0) s;
          s = (if has_backup_dir then boot_if_absent b 4 ''backup_bundle'' s else s) in
      if drill_enabled then boot_if_absent b 5 ''recovery_drill'' s else s)"

definition run_worker_only_jobs :: "bool \<Rightarrow> bool \<Rightarrow> boot_call \<Rightarrow> pg \<Rightarrow> pg" where
  "run_worker_only_jobs has_backup_dir drill_enabled b s =
     (let s = boot_if_absent b 0 ''purge_audit_events'' s;
          s = boot_if_absent b 1 ''purge_attachment_uploads'' s;
          s = (if has_backup_dir then boot_if_absent b 2 ''backup_bundle'' s else s) in
      if drill_enabled then boot_if_absent b 3 ''recovery_drill'' s else s)"

subsection \<open>Chains of jobs\<close>

definition live_job :: "string \<Rightarrow> job_row \<Rightarrow> bool" where
  "live_job ty j \<longleftrightarrow> jb_job_type j = ty \<and> jb_status j \<in> {''pending'', ''running''}"

text \<open>The chains of a type: the jobs of that type that wait or run, each of which leads to a successor.\<close>

definition chains :: "string \<Rightarrow> pg \<Rightarrow> nat" where
  "chains ty s = length (filter (live_job ty) (pg_jobs s))"

definition job_ids :: "pg \<Rightarrow> string set" where
  "job_ids s = jb_id ` set (pg_jobs s)"

text \<open>The ids of a start are new; a statement takes effect unless it is cut off.\<close>

definition boot_fresh :: "boot_call \<Rightarrow> pg \<Rightarrow> bool" where
  "boot_fresh b s \<longleftrightarrow> inj_on (bo_id b) {..<6} \<and> bo_id b ` {..<6} \<inter> job_ids s = {}"

fun takes_effect :: "tx_fate \<Rightarrow> bool" where
  "takes_effect (Aborted _) = False"
| "takes_effect _ = True"

lemma live_new_job [simp]: "live_job ty (new_job i ty' p prio t) \<longleftrightarrow> ty = ty'"
  by (auto simp: live_job_def new_job_def)

lemma insert_new_job:
  assumes "i \<notin> job_ids s"
  shows "insert_job (new_job i ty p prio t) s = (Inr (), s\<lparr>pg_jobs := pg_jobs s @ [new_job i ty p prio t]\<rparr>)"
  using assms by (auto simp: insert_job_def sql_modify_def job_ids_def new_job_def)

lemma in_tx_effect: "pg_jobs (snd (in_tx fate m s)) = pg_jobs (if takes_effect fate then snd (in_tx Runs m s) else s)"
  by (cases fate) (auto simp: in_tx_def split: prod.split sum.split)

lemma chains_cong: "pg_jobs s' = pg_jobs s \<Longrightarrow> chains ty s' = chains ty s"
  by (simp add: chains_def)

lemma job_ids_cong: "pg_jobs s' = pg_jobs s \<Longrightarrow> job_ids s' = job_ids s"
  by (simp add: job_ids_def)

lemma try_enqueue:
  assumes "i \<notin> job_ids s"
  shows "pg_jobs (try_tx fate (enqueue_at i ty p prio t) s) =
    (if takes_effect fate then pg_jobs s @ [new_job i ty p prio t] else pg_jobs s)"
  by (simp add: try_tx_def in_tx_effect in_tx_def [of Runs] enqueue_at_def sql_bind_def insert_new_job [OF assms])

lemma try_enqueue_if_absent:
  assumes "i \<notin> job_ids s"
  shows "pg_jobs (try_tx fate (enqueue_if_absent i now ty p) s) =
    (if takes_effect fate \<and> chains ty s = 0 then pg_jobs s @ [new_job i ty p 0 now] else pg_jobs s)"
proof -
  have "chains ty s = 0 \<longleftrightarrow> \<not> list_ex (\<lambda>j. jb_job_type j = ty \<and> jb_status j \<in> {''pending'', ''running''}) (pg_jobs s)"
    by (auto simp: chains_def live_job_def filter_empty_conv list_ex_iff)
  then show ?thesis
    by (simp add: try_tx_def in_tx_effect in_tx_def [of Runs] enqueue_if_absent_def sql_bind_def insert_new_job [OF assms])
qed

lemma chains_snoc: "pg_jobs s' = pg_jobs s @ [j] \<Longrightarrow> chains ty s' = chains ty s + (if live_job ty j then 1 else 0)"
  by (simp add: chains_def)

lemma job_ids_snoc: "pg_jobs s' = pg_jobs s @ [new_job i ty p prio t] \<Longrightarrow> job_ids s' = insert i (job_ids s)"
  by (simp add: job_ids_def new_job_def)

text \<open>One statement of a start with its effect on the chains.\<close>

lemma enqueue_chains:
  assumes "i \<notin> job_ids s" and "s' = try_tx fate (enqueue i now ty p prio) s"
  shows "chains ty' s' = chains ty' s + (if takes_effect fate \<and> ty' = ty then 1 else 0)" and "job_ids s' \<subseteq> insert i (job_ids s)"
  using try_enqueue [OF assms(1), of fate ty p prio now] chains_snoc [of s' s _ ty'] job_ids_snoc [of s' s i ty p prio now]
    chains_cong [of s' s ty'] job_ids_cong [of s' s]
  by (auto simp: assms(2) enqueue_def split: if_splits)

lemma enqueue_if_absent_chains:
  assumes "i \<notin> job_ids s" and "s' = try_tx fate (enqueue_if_absent i now ty p) s"
  shows "chains ty' s' = (if takes_effect fate \<and> ty' = ty then max 1 (chains ty s) else chains ty' s)" and "job_ids s' \<subseteq> insert i (job_ids s)"
  using try_enqueue_if_absent [OF assms(1), of fate now ty p] chains_snoc [of s' s _ ty'] job_ids_snoc [of s' s i ty p 0 now]
    chains_cong [of s' s ty'] job_ids_cong [of s' s]
  by (auto simp: assms(2) split: if_splits)

lemma boot_id_fresh:
  assumes "boot_fresh b s" and "job_ids t \<subseteq> job_ids s \<union> bo_id b ` {..<i}" and "i < 6"
  shows "bo_id b i \<notin> job_ids t"
proof
  assume "bo_id b i \<in> job_ids t"
  then consider "bo_id b i \<in> job_ids s" | k where "k < i" "bo_id b i = bo_id b k" using assms(2) by auto
  then show False
  proof cases
    case 1
    then show ?thesis using assms(1,3) by (auto simp: boot_fresh_def)
  next
    case 2
    then show ?thesis using assms(1,3) by (auto simp: boot_fresh_def dest!: inj_onD)
  qed
qed

lemma boot_enqueue:
  assumes "boot_fresh b s" and "job_ids t \<subseteq> job_ids s \<union> bo_id b ` {..<i}" and "i < 6"
    and "t' = try_tx (bo_fate b i) (enqueue (bo_id b i) now ty p prio) t"
  shows "job_ids t' \<subseteq> job_ids s \<union> bo_id b ` {..<Suc i} \<and>
    (\<forall>ty'. chains ty' t' = chains ty' t + (if takes_effect (bo_fate b i) \<and> ty' = ty then 1 else 0))"
  using enqueue_chains [OF boot_id_fresh [OF assms(1-3)] assms(4)] assms(2) by (auto simp: lessThan_Suc)

lemma boot_if_absent:
  assumes "boot_fresh b s" and "job_ids t \<subseteq> job_ids s \<union> bo_id b ` {..<i}" and "i < 6"
    and "t' = boot_if_absent b i ty t"
  shows "job_ids t' \<subseteq> job_ids s \<union> bo_id b ` {..<Suc i} \<and>
    (\<forall>ty'. chains ty' t' = (if takes_effect (bo_fate b i) \<and> ty' = ty then max 1 (chains ty t) else chains ty' t))"
  using enqueue_if_absent_chains [OF boot_id_fresh [OF assms(1-3)] assms(4)] assms(2) by (auto simp: lessThan_Suc)

lemma run_api_chains:
  assumes "boot_fresh b s" and "s' = run_api_jobs has_backup_dir drill_enabled b s"
  defines "once i ty n \<equiv> if takes_effect (bo_fate b i) then max 1 (chains ty s) else n"
  shows "chains ''enqueue_recurring_scan'' s' = chains ''enqueue_recurring_scan'' s + (if takes_effect (bo_fate b 3) then 1 else 0) \<and>
    chains ''purge_audit_events'' s' = once 1 ''purge_audit_events'' (chains ''purge_audit_events'' s) \<and>
    chains ''purge_attachment_uploads'' s' = once 2 ''purge_attachment_uploads'' (chains ''purge_attachment_uploads'' s) \<and>
    (has_backup_dir \<longrightarrow> chains ''backup_bundle'' s' = once 4 ''backup_bundle'' (chains ''backup_bundle'' s)) \<and>
    (drill_enabled \<longrightarrow> chains ''recovery_drill'' s' = once 5 ''recovery_drill'' (chains ''recovery_drill'' s)) \<and>
    job_ids s' \<subseteq> job_ids s \<union> bo_id b ` {..<6}"
proof -
  let ?eff = "\<lambda>i. takes_effect (bo_fate b i)"
  define s0 where "s0 = try_tx (bo_fate b 0) (enqueue (bo_id b 0) (bo_now b) ''purge_expired_sessions'' (JObject []) 0) s"
  define s1 where "s1 = boot_if_absent b 1 ''purge_audit_events'' s0"
  define s2 where "s2 = boot_if_absent b 2 ''purge_attachment_uploads'' s1"
  define s3 where "s3 = try_tx (bo_fate b 3) (enqueue (bo_id b 3) (bo_now b) ''enqueue_recurring_scan'' (JObject []) 0) s2"
  define s4 where "s4 = (if has_backup_dir then boot_if_absent b 4 ''backup_bundle'' s3 else s3)"
  have s': "s' = (if drill_enabled then boot_if_absent b 5 ''recovery_drill'' s4 else s4)"
    by (simp add: assms(2) run_api_jobs_def Let_def s0_def s1_def s2_def s3_def s4_def)
  have i0: "job_ids s \<subseteq> job_ids s \<union> bo_id b ` {..<0}" by simp
  note c0 = boot_enqueue [OF assms(1) i0 _ s0_def, simplified]
  have c1: "job_ids s1 \<subseteq> job_ids s \<union> bo_id b ` {..<2} \<and> (\<forall>ty. chains ty s1 = (if ?eff 1 \<and> ty = ''purge_audit_events'' then max 1 (chains ''purge_audit_events'' s0) else chains ty s0))"
    using boot_if_absent [OF assms(1) _ _ s1_def] c0 by (simp add: numeral_eq_Suc)
  have c2: "job_ids s2 \<subseteq> job_ids s \<union> bo_id b ` {..<3} \<and> (\<forall>ty. chains ty s2 = (if ?eff 2 \<and> ty = ''purge_attachment_uploads'' then max 1 (chains ''purge_attachment_uploads'' s1) else chains ty s1))"
    using boot_if_absent [OF assms(1) _ _ s2_def] c1 by (simp add: numeral_eq_Suc)
  have c3: "job_ids s3 \<subseteq> job_ids s \<union> bo_id b ` {..<4} \<and> (\<forall>ty. chains ty s3 = chains ty s2 + (if ?eff 3 \<and> ty = ''enqueue_recurring_scan'' then 1 else 0))"
    using boot_enqueue [OF assms(1) _ _ s3_def] c2 by (simp add: numeral_eq_Suc)
  have c4: "job_ids s4 \<subseteq> job_ids s \<union> bo_id b ` {..<5} \<and> (\<forall>ty. chains ty s4 = (if has_backup_dir \<and> ?eff 4 \<and> ty = ''backup_bundle'' then max 1 (chains ty s3) else chains ty s3))"
  proof (cases has_backup_dir)
    case True
    then have "s4 = boot_if_absent b 4 ''backup_bundle'' s3" by (simp add: s4_def)
    from boot_if_absent [OF assms(1) _ _ this] c3 True show ?thesis by (simp add: numeral_eq_Suc)
  next
    case False
    then show ?thesis using c3 by (auto simp: s4_def)
  qed
  have c5: "job_ids s' \<subseteq> job_ids s \<union> bo_id b ` {..<6} \<and> (\<forall>ty. chains ty s' = (if drill_enabled \<and> ?eff 5 \<and> ty = ''recovery_drill'' then max 1 (chains ty s4) else chains ty s4))"
  proof (cases drill_enabled)
    case True
    then have "s' = boot_if_absent b 5 ''recovery_drill'' s4" by (simp add: s')
    from boot_if_absent [OF assms(1) _ _ this] c4 True show ?thesis by (simp add: numeral_eq_Suc)
  next
    case False
    then show ?thesis using c4 by (auto simp: s')
  qed
  show ?thesis using c0 c1 c2 c3 c4 c5 by (simp add: once_def)
qed

subsection \<open>Restarts and the recurring scan\<close>

text \<open>
  What a worker does with one job in its hand (the body of the loop of \<open>run_worker\<close>): it executes the job and records the
  outcome; the result of that statement is ignored.
\<close>

definition work_job :: "'o store_ops \<Rightarrow> job_env \<Rightarrow> job_call \<Rightarrow> claimed_job \<Rightarrow> timestamp \<Rightarrow> string \<Rightarrow> tx_fate \<Rightarrow> pg \<times> 'o \<Rightarrow> bool \<times> pg" where
  "work_job ops env call c now err fate x =
     (case execute_job ops env call c x of
        (Inr _, s, _) \<Rightarrow> (True, snd (in_tx fate (complete_job now (cj_id c)) s))
      | (Inl _, s, _) \<Rightarrow> (False, snd (in_tx fate (fail_job now c err) s)))"

text \<open>
  A history of the scans, with any statement lost or cut off: starts of the server, workers that claim jobs, workers that
  execute a scan, and everything that leaves the rows of the scans alone (the requests, the other jobs). \<open>gained\<close> counts the scans that
  a start enqueued, and the successors of a scan whose completion was not recorded; \<open>ended\<close> counts the scans that
  died in their last attempt, and those whose successor could not be enqueued.
\<close>

abbreviation scan :: string where
  "scan \<equiv> ''enqueue_recurring_scan''"

definition scans_of :: "pg \<Rightarrow> job_row list" where
  "scans_of s = filter (\<lambda>j. jb_job_type j = scan) (pg_jobs s)"

definition count_if :: "bool \<Rightarrow> nat" where
  "count_if p = (if p then 1 else 0)"

inductive scan_life :: "job_env \<Rightarrow> pg \<Rightarrow> nat \<Rightarrow> nat \<Rightarrow> pg \<Rightarrow> bool" for env s0 where
  life_begin: "scan_life env s0 0 0 s0"
| life_start: "scan_life env s0 gained ended s \<Longrightarrow> boot_fresh b s \<Longrightarrow>
    scan_life env s0 (gained + count_if (takes_effect (bo_fate b 3))) ended (run_api_jobs has_backup_dir drill_enabled b s)"
| life_claim: "scan_life env s0 gained ended s \<Longrightarrow> in_tx fate (claim_jobs now locked w 10) s = (r, s') \<Longrightarrow> scan_life env s0 gained ended s'"
| life_scan: "scan_life env s0 gained ended s \<Longrightarrow> j \<in> set (pg_jobs s) \<Longrightarrow> live_job scan j \<Longrightarrow>
    cj_id c = jb_id j \<Longrightarrow> cj_job_type c = scan \<Longrightarrow> jx_next_id call \<notin> job_ids s \<Longrightarrow>
    work_job (ops :: local_fs store_ops) env call c now err fate (s, ob) = (ok, s') \<Longrightarrow>
    scan_life env s0 (gained + count_if (ok \<and> takes_effect (jx_next_fate call) \<and> \<not> takes_effect fate))
      (ended + count_if (takes_effect fate \<and> (if ok then \<not> takes_effect (jx_next_fate call) else cj_max_attempts c \<le> cj_attempts c))) s'"
| life_other: "scan_life env s0 gained ended s \<Longrightarrow> scans_of s' = scans_of s \<Longrightarrow> distinct (map jb_id (pg_jobs s')) \<Longrightarrow>
    scan_life env s0 gained ended s'"

definition same_jobs :: "pg \<Rightarrow> pg \<Rightarrow> bool" where
  "same_jobs s s' \<longleftrightarrow> pg_jobs s' = pg_jobs s"

interpretation jobs_kept: sql_order same_jobs
  by unfold_locales (simp_all add: same_jobs_def)

lemma recurring_tx_jobs: "sql_within same_jobs (recurring_tx pm rf c r es)" "sql_within same_jobs (advance_rule pm i)"
proof -
  show a: "sql_within same_jobs (advance_rule pm i)" for i
    unfolding advance_rule_def by (intro jobs_kept.within_modify) (simp add: same_jobs_def)
  have "sql_within same_jobs (insert_tx_row t)" "sql_within same_jobs (insert_entry_row e)" "sql_within same_jobs (insert_change b cid ty i op v p)"
    for t e b cid ty i op v p
    unfolding insert_tx_row_def insert_entry_row_def insert_change_def
    by (intro jobs_kept.within_modify; simp add: same_jobs_def)+
  then show "sql_within same_jobs (recurring_tx pm rf c r es)"
    unfolding recurring_tx_def by (intro jobs_kept.within_intros a)
qed

lemma in_tx_same_jobs: "sql_within same_jobs m \<Longrightarrow> pg_jobs (snd (in_tx fate m s)) = pg_jobs s"
  using jobs_kept.within_in_tx [of m fate] by (simp add: sql_within_def same_jobs_def)

lemma run_rules_jobs: "pg_jobs (snd (run_rules pm rf calls i rs s)) = pg_jobs s"
proof (induction rs arbitrary: i s)
  case (Cons r rs)
  have db: "pg_jobs (snd (db_result x)) = pg_jobs (snd x)" for x :: "(sql_error + 'x) \<times> pg"
    by (simp add: db_result_def split: prod.split sum.split)
  have "pg_jobs (snd (run_rule pm rf (calls i) r s)) = pg_jobs s"
    by (simp add: run_rule_def Let_def db in_tx_same_jobs recurring_tx_jobs split: sum.split)
  then show ?case using Cons.IH by (cases "run_rule pm rf (calls i) r s") (auto split: sum.split)
qed simp

lemma scan_jobs: "pg_jobs (snd (generate_due_recurring pm rf now fate calls s)) = pg_jobs s"
proof -
  obtain r s1 where tx: "in_tx fate (sql_get (due_rules now)) s = (r, s1)" by fastforce
  have "pg_jobs s1 = pg_jobs s" using in_tx_same_jobs [OF jobs_kept.within_basic(3), of fate "due_rules now" s] by (simp add: tx)
  then show ?thesis using run_rules_jobs [of pm rf calls 0 _ s1] by (simp add: generate_due_recurring_def tx split: sum.split)
qed

lemma scans_chains: "chains scan s = length (filter (live_job scan) (scans_of s))"
  unfolding chains_def scans_of_def filter_filter by (rule arg_cong [where f = length], rule filter_cong) (auto simp: live_job_def)

lemma claim_chains:
  assumes "distinct (map jb_id (pg_jobs s))" and "in_tx fate (claim_jobs now locked w n) s = (r, s')"
  shows "chains ty s' = chains ty s" and "map jb_id (pg_jobs s') = map jb_id (pg_jobs s)"
proof -
  let ?due = "due_jobs now locked n s"
  let ?f = "\<lambda>j. if jb_id j \<in> set (map jb_id ?due) then claim_row now w j else j"
  have due: "j \<in> set (pg_jobs s) \<Longrightarrow> jb_id j \<in> set (map jb_id ?due) \<Longrightarrow> jb_status j = ''pending''" for j
    using due_job_iff [OF assms(1)] set_due_jobs by (fastforce simp: job_due_def)
  have "live_job ty (?f j) = live_job ty j" if "j \<in> set (pg_jobs s)" for j
    using due [OF that] by (auto simp: live_job_def claim_row_def)
  then have live: "filter (live_job ty \<circ> ?f) (pg_jobs s) = filter (live_job ty) (pg_jobs s)" by (intro filter_cong) auto
  have cases: "pg_jobs s' = pg_jobs s \<or> pg_jobs s' = map ?f (pg_jobs s)"
    using in_tx_jobs [OF assms(2)] claim_jobs_Inr [OF assms(1), of now locked w n] by auto
  then show "chains ty s' = chains ty s" using live by (auto simp: chains_def filter_map)
  show "map jb_id (pg_jobs s') = map jb_id (pg_jobs s)" using cases by (auto simp: claim_row_def)
qed

text \<open>The row of a job is settled, perhaps after another one was appended.\<close>

lemma settle_chains:
  assumes "distinct (map jb_id (pg_jobs s))" and "j \<in> set (pg_jobs s)" and "live_job ty j"
    and "pg_jobs s' = map (\<lambda>k. if jb_id k = jb_id j then f k else k) (pg_jobs s @ new)"
    and "\<And>k. k \<in> set new \<Longrightarrow> jb_id k \<noteq> jb_id j"
  shows "chains ty s' + 1 = chains ty s + count_if (live_job ty (f j)) + length (filter (live_job ty) new)"
proof -
  obtain us vs where split: "pg_jobs s = us @ j # vs" using split_list [OF assms(2)] by blast
  have others: "\<forall>k \<in> set us \<union> set vs. jb_id k \<noteq> jb_id j" using assms(1) unfolding split by (auto simp: image_iff)
  have keep: "map (\<lambda>k. if jb_id k = jb_id j then f k else k) ks = ks" if "\<forall>k \<in> set ks. jb_id k \<noteq> jb_id j" for ks
    using that by (intro map_idI) simp
  have "pg_jobs s' = us @ f j # vs @ new"
    using others assms(5) by (simp add: assms(4) split keep)
  then show ?thesis using assms(3) by (simp add: chains_def split count_if_def)
qed

text \<open>The execution of a scan: a success has tried to enqueue the successor.\<close>

lemma scan_execution:
  assumes "cj_job_type c = scan" and "jx_next_id call \<notin> job_ids s" and "execute_job ops env call c (s, ob) = (r, s1, ob1)"
  obtains "isl r" "pg_jobs s1 = pg_jobs s"
  | t where "r = Inr ()" "pg_jobs s1 = (if takes_effect (jx_next_fate call)
      then pg_jobs s @ [new_job (jx_next_id call) scan (JObject []) 0 t] else pg_jobs s)"
proof -
  obtain x sA where run: "generate_due_recurring (je_plus_month env) (je_rfc3339 env) (jx_now call) (jx_fate call) (jx_rules call) s = (x, sA)"
    by fastforce
  have sA: "pg_jobs sA = pg_jobs s"
    using scan_jobs [of "je_plus_month env" "je_rfc3339 env" "jx_now call" "jx_fate call" "jx_rules call" s] by (simp add: run)
  have eq: "(r, s1) = and_enqueue call scan 1 (x, sA)"
    using assms(3) by (auto simp: execute_job_def assms(1) run and_enqueue_def split: prod.splits sum.splits)
  show thesis
  proof (cases x)
    case (Inl e)
    then show thesis using that(1) eq sA by (simp add: and_enqueue_def)
  next
    case (Inr u)
    have "jx_next_id call \<notin> job_ids sA" using assms(2) by (simp add: job_ids_def sA)
    note try_enqueue [OF this, of "jx_next_fate call" scan "JObject []" 0 "jx_now call + 60000000000", unfolded try_tx_def]
    then show thesis using that(2) [of "jx_now call + 60000000000"] eq Inr sA by (simp add: and_enqueue_def)
  qed
qed

lemma work_scan_chains:
  assumes dist: "distinct (map jb_id (pg_jobs s))" and j: "j \<in> set (pg_jobs s)" "live_job scan j"
    and c: "cj_id c = jb_id j" "cj_job_type c = scan" and fresh: "jx_next_id call \<notin> job_ids s"
    and work: "work_job ops env call c now err fate (s, ob) = (ok, s')"
  shows "chains scan s' + count_if (takes_effect fate \<and> (if ok then \<not> takes_effect (jx_next_fate call) else cj_max_attempts c \<le> cj_attempts c)) =
      chains scan s + count_if (ok \<and> takes_effect (jx_next_fate call) \<and> \<not> takes_effect fate)"
    and "distinct (map jb_id (pg_jobs s'))"
proof -
  obtain r s1 ob1 where run: "execute_job ops env call c (s, ob) = (r, s1, ob1)" by (cases "execute_job ops env call c (s, ob)")
  have new: "jx_next_id call \<noteq> jb_id j" using j fresh by (auto simp: job_ids_def)
  from scan_execution [OF c(2) fresh run] have "(chains scan s' + count_if (takes_effect fate \<and> (if ok then \<not> takes_effect (jx_next_fate call) else cj_max_attempts c \<le> cj_attempts c)) =
      chains scan s + count_if (ok \<and> takes_effect (jx_next_fate call) \<and> \<not> takes_effect fate)) \<and> distinct (map jb_id (pg_jobs s'))"
  proof cases
    case 1
    let ?f = "\<lambda>k. k\<lparr>jb_status := if cj_max_attempts c \<le> cj_attempts c then ''dead'' else ''pending'', jb_last_error := Some err,
      jb_locked_by := None, jb_locked_at := None, jb_run_at := now + retry_delay (jb_attempts k)\<rparr>"
    have s': "\<not> ok" "s' = snd (in_tx fate (fail_job now c err) s1)" using work run 1(1) by (auto simp: work_job_def isl_def)
    have jobs: "pg_jobs s' = (if takes_effect fate then map (\<lambda>k. if jb_id k = jb_id j then ?f k else k) (pg_jobs s @ []) else pg_jobs s)"
      using 1(2) by (simp add: s'(2) in_tx_effect in_tx_def [of Runs] fail_job_def Let_def c(1) cong: if_cong)
    show ?thesis
    proof (cases "takes_effect fate")
      case True
      have "live_job scan (?f j) \<longleftrightarrow> \<not> cj_max_attempts c \<le> cj_attempts c" using j(2) by (simp add: live_job_def)
      moreover have "chains scan s' + 1 = chains scan s + count_if (live_job scan (?f j)) + length (filter (live_job scan) [])"
        by (rule settle_chains [OF dist j]) (simp_all add: jobs True)
      moreover have "map jb_id (pg_jobs s') = map jb_id (pg_jobs s)" by (simp add: jobs True)
      then have "distinct (map jb_id (pg_jobs s'))" using dist by simp
      ultimately show ?thesis using True s'(1) by (simp add: count_if_def split: if_splits)
    next
      case False
      then show ?thesis using jobs chains_cong [of s' s scan] dist s'(1) by (simp add: count_if_def)
    qed
  next
    case (2 t)
    let ?f = "\<lambda>k. k\<lparr>jb_status := ''completed'', jb_completed_at := Some now, jb_locked_by := None, jb_locked_at := None\<rparr>"
    let ?new = "if takes_effect (jx_next_fate call) then [new_job (jx_next_id call) scan (JObject []) 0 t] else []"
    have s': "ok" "s' = snd (in_tx fate (complete_job now (cj_id c)) s1)" using work by (simp_all add: work_job_def run 2(1))
    have s1: "pg_jobs s1 = pg_jobs s @ ?new" using 2(2) by simp
    have jobs: "pg_jobs s' = (if takes_effect fate then map (\<lambda>k. if jb_id k = jb_id j then ?f k else k) (pg_jobs s @ ?new) else pg_jobs s @ ?new)"
      by (simp add: s'(2) in_tx_effect in_tx_def [of Runs] complete_job_def c(1) s1)
    have d: "distinct (map jb_id (pg_jobs s @ ?new))" using dist fresh by (auto simp: job_ids_def new_job_def)
    show ?thesis
    proof (cases "takes_effect fate")
      case True
      have "\<not> live_job scan (?f j)" by (simp add: live_job_def)
      moreover have "chains scan s' + 1 = chains scan s + count_if (live_job scan (?f j)) + length (filter (live_job scan) ?new)"
        by (rule settle_chains [OF dist j]) (use jobs True new in \<open>auto simp: new_job_def split: if_splits\<close>)
      moreover have "map jb_id (pg_jobs s') = map jb_id (pg_jobs s @ ?new)" using jobs True by auto
      then have "distinct (map jb_id (pg_jobs s'))" using d by simp
      ultimately show ?thesis using True s'(1) by (simp add: count_if_def split: if_splits)
    next
      case False
      then have "pg_jobs s' = pg_jobs s @ ?new" using jobs by simp
      then show ?thesis using d False s'(1) by (simp add: chains_def count_if_def split: if_splits)
    qed
  qed
  then show "chains scan s' + count_if (takes_effect fate \<and> (if ok then \<not> takes_effect (jx_next_fate call) else cj_max_attempts c \<le> cj_attempts c)) =
      chains scan s + count_if (ok \<and> takes_effect (jx_next_fate call) \<and> \<not> takes_effect fate)"
    and "distinct (map jb_id (pg_jobs s'))" by blast+
qed

lemma boot_distinct:
  assumes "distinct (map jb_id (pg_jobs s))"
  shows "distinct (map jb_id (pg_jobs (try_tx fate (enqueue_at i ty p prio t) s)))"
    and "distinct (map jb_id (pg_jobs (try_tx fate (enqueue_if_absent i now ty p) s)))"
proof -
  have ins: "distinct (map jb_id (pg_jobs s'))" if "insert_job j s = (Inr u, s')" for j u s'
    using that assms by (auto simp: insert_job_def sql_modify_Inr split: if_splits)
  have tx: "distinct (map jb_id (pg_jobs (try_tx fate m s)))"
    if "\<And>x s'. m s = (Inr x, s') \<Longrightarrow> distinct (map jb_id (pg_jobs s'))" for m :: "'x sql"
  proof -
    obtain r s' where run: "in_tx fate m s = (r, s')" by fastforce
    show ?thesis using in_tx_jobs [OF run] that assms by (auto simp: try_tx_def run)
  qed
  show "distinct (map jb_id (pg_jobs (try_tx fate (enqueue_at i ty p prio t) s)))"
    by (rule tx) (auto simp: enqueue_at_def sql_bind_Inr dest: ins)
  show "distinct (map jb_id (pg_jobs (try_tx fate (enqueue_if_absent i now ty p) s)))"
    using assms by (intro tx) (auto simp: enqueue_if_absent_def sql_bind_Inr dest: ins split: if_splits)
qed

lemma run_api_distinct:
  "distinct (map jb_id (pg_jobs s)) \<Longrightarrow> distinct (map jb_id (pg_jobs (run_api_jobs has_backup_dir drill_enabled b s)))"
  by (simp add: run_api_jobs_def Let_def enqueue_def boot_distinct)

lemma life_chains:
  assumes "scan_life env s0 gained ended s" and "distinct (map jb_id (pg_jobs s0))"
  shows "chains scan s + ended = chains scan s0 + gained \<and> distinct (map jb_id (pg_jobs s))"
  using assms
proof (induction rule: scan_life.induct)
  case (life_start gained ended s b has_backup_dir drill_enabled)
  then show ?case using run_api_chains [OF life_start(2) refl] run_api_distinct by (simp add: count_if_def)
next
  case (life_claim gained ended s fate now locked w r s')
  then show ?case using claim_chains [OF _ life_claim(2)] by metis
next
  case (life_scan gained ended s j c call ops now err fate ob ok s')
  then show ?case using work_scan_chains [OF _ life_scan(2-7)] by simp
next
  case (life_other gained ended s s')
  then show ?case by (simp add: scans_chains)
qed simp_all

text \<open>
  C29. Every start of the server adds one more chain of recurring scans, which ends only when a scan dies in its last attempt
  or cannot enqueue its successor. After any history, with any statement lost: the scans that wait or run, and those that ended
  so, are as many as waited or ran at first and as starts have enqueued, with one more for each scan that left a successor and
  whose completion was not recorded. Another start adds one more. Of the other jobs that follow themselves a start
  whose statements succeed enqueues one only when none of them waits or runs.
\<close>

theorem restarts_multiply_scans:
  assumes "scan_life env s0 gained ended s" and "distinct (map jb_id (pg_jobs s0))"
  shows "chains scan s + ended = chains scan s0 + gained \<and>
    (\<forall>b has_backup_dir drill_enabled. boot_fresh b s \<and> (\<forall>i. takes_effect (bo_fate b i)) \<longrightarrow>
      (let s' = run_api_jobs has_backup_dir drill_enabled b s in
      chains scan s' + ended = chains scan s0 + gained + 1 \<and>
      chains ''purge_audit_events'' s' = max 1 (chains ''purge_audit_events'' s) \<and>
      chains ''purge_attachment_uploads'' s' = max 1 (chains ''purge_attachment_uploads'' s) \<and>
      (has_backup_dir \<longrightarrow> chains ''backup_bundle'' s' = max 1 (chains ''backup_bundle'' s)) \<and>
      (drill_enabled \<longrightarrow> chains ''recovery_drill'' s' = max 1 (chains ''recovery_drill'' s))))"
  using life_chains [OF assms] run_api_chains [OF _ refl] by (simp add: Let_def)

definition ex_boot :: "string \<Rightarrow> boot_call" where
  "ex_boot tag = \<lparr>bo_id = (\<lambda>i. tag @ pad8 i), bo_now = 0, bo_fate = (\<lambda>_. Runs)\<rparr>"

theorem restarts_multiply_scans_witness:
  "chains ''enqueue_recurring_scan'' (run_api_jobs False False (ex_boot ''b'') (run_api_jobs False False (ex_boot ''a'') (ex_rule_pg []))) = 2"
proof -
  have jobs: "pg_jobs (ex_rule_pg []) = []" by (simp add: ex_rule_pg_def ex_pg_def)
  have inj: "inj_on (bo_id (ex_boot tag)) A" for tag A by (simp add: inj_on_def ex_boot_def pad8_inject)
  have a: "boot_fresh (ex_boot ''a'') (ex_rule_pg [])"
    by (simp add: boot_fresh_def inj job_ids_def jobs)
  let ?s = "run_api_jobs False False (ex_boot ''a'') (ex_rule_pg [])"
  have "job_ids ?s \<subseteq> bo_id (ex_boot ''a'') ` {..<6}" using run_api_chains [OF a refl, of False False] by (simp add: job_ids_def jobs)
  moreover have "bo_id (ex_boot ''b'') ` {..<6} \<inter> bo_id (ex_boot ''a'') ` {..<6} = {}" by (auto simp: ex_boot_def)
  ultimately have "bo_id (ex_boot ''b'') ` {..<6} \<inter> job_ids ?s = {}" by blast
  then have b: "boot_fresh (ex_boot ''b'') ?s" unfolding boot_fresh_def using inj by blast
  have eff: "takes_effect (bo_fate (ex_boot tag) i)" for tag i by (simp add: ex_boot_def)
  have "scan_life ex_job_env (ex_rule_pg []) (0 + count_if (takes_effect (bo_fate (ex_boot ''a'') 3)) +
      count_if (takes_effect (bo_fate (ex_boot ''b'') 3))) 0 (run_api_jobs False False (ex_boot ''b'') ?s)"
    by (intro life_start life_begin a b)
  from restarts_multiply_scans [OF this] show ?thesis by (simp add: jobs chains_def [of _ "ex_rule_pg []"] count_if_def eff)
qed

end
