(* ===== verification/Auth_Pg.thy ===== *)
theory Auth_Pg
  imports Job_Execution Sync_Api Auth_Laws
begin

section \<open>Users and sessions in PostgreSQL (transport/http/auth.rs, state.rs, audit.rs)\<close>

text \<open>
  The relational branches of registration, login, rotation of refresh tokens and logout. The tables \<open>users\<close> and
  \<open>fx_rates\<close> join those of \<open>Pg_Store\<close>. Every statement outside a transaction may fail by itself: the statements
  of a request are numbered, and \<open>pa_fate\<close> and \<open>pa_now\<close> give what becomes of each and the time it sees. The number
  of an audit event is 8.

  A rotation reads the session and claims it later, in a transaction. The two halves are definitions of their own, so
  that requests can come in between. Proved: however many requests present one refresh token at the same time, at most
  one is answered with tokens, whatever statements and replies are lost.
\<close>

record auth_db =
  ad_users :: "user_record list"
  ad_fx_rates :: "fx_rate_record list"
  ad_pg :: pg

record pg_auth_call =
  pa_call :: auth_call
  pa_now :: "nat \<Rightarrow> timestamp"
  pa_fate :: "nat \<Rightarrow> tx_fate"

definition on_pg :: "'a sql \<Rightarrow> auth_db \<Rightarrow> (sql_error + 'a) \<times> auth_db" where
  "on_pg m d = (case m (ad_pg d) of (r, s) \<Rightarrow> (r, d\<lparr>ad_pg := s\<rparr>))"

definition user_ids :: "auth_db \<Rightarrow> string list" where
  "user_ids d = map usr_id (ad_users d)"

subsection \<open>Statements\<close>

fun aborted :: "tx_fate \<Rightarrow> bool" where
  "aborted (Aborted n) \<longleftrightarrow> True" | "aborted Runs \<longleftrightarrow> False" | "aborted ReplyLost \<longleftrightarrow> False"

text \<open>\<open>ON CONFLICT (email) DO NOTHING\<close>; the result is the number of rows.\<close>

definition insert_user :: "tx_fate \<Rightarrow> user_record \<Rightarrow> auth_db \<Rightarrow> (sql_error + nat) \<times> auth_db" where
  "insert_user fate u d =
     (if aborted fate then (Inl ConnectionError, d)
      else let present = usr_email u \<in> set (map usr_email (ad_users d)) in
        if \<not> present \<and> usr_id u \<in> set (user_ids d) then (Inl UniqueViolation, d)
        else (if fate = ReplyLost then Inl ConnectionError else Inr (if present then 0 else 1),
              if present then d else d\<lparr>ad_users := ad_users d @ [u]\<rparr>))"

definition insert_audit :: "audit_event_record \<Rightarrow> unit sql" where
  "insert_audit e = sql_modify
     (\<lambda>s. if aud_id e \<in> set (map aud_id (pg_audit s)) then Some UniqueViolation else None)
     (\<lambda>s. s\<lparr>pg_audit := pg_audit s @ [e]\<rparr>)"

definition update_sessions :: "(session_row \<Rightarrow> bool) \<Rightarrow> timestamp \<Rightarrow> nat sql" where
  "update_sessions p now = (\<lambda>s. (Inr (length (filter p (pg_sessions s))),
     s\<lparr>pg_sessions := map (\<lambda>r. if p r then r\<lparr>sr_revoked_at := Some now\<rparr> else r) (pg_sessions s)\<rparr>))"

definition insert_session :: "string list \<Rightarrow> session_row \<Rightarrow> unit sql" where
  "insert_session uids r = sql_modify
     (\<lambda>s. if sr_id r \<in> set (map sr_id (pg_sessions s)) \<or> sr_refresh_token_hash r \<in> set (map sr_refresh_token_hash (pg_sessions s))
          then Some UniqueViolation
          else if sr_user_id r \<notin> set uids then Some ForeignKeyViolation else None)
     (\<lambda>s. s\<lparr>pg_sessions := pg_sessions s @ [r]\<rparr>)"

definition insert_subscription :: "string list \<Rightarrow> string \<Rightarrow> unit sql" where
  "insert_subscription uids user_id = sql_modify
     (\<lambda>s. if user_id \<notin> set (map sub_user_id (pg_subscriptions s)) \<and> user_id \<notin> set uids then Some ForeignKeyViolation else None)
     (\<lambda>s. if user_id \<in> set (map sub_user_id (pg_subscriptions s)) then s
          else s\<lparr>pg_subscriptions := pg_subscriptions s @ [\<lparr>sub_user_id = user_id, sub_plan = ''free'', sub_status = ''active''\<rparr>]\<rparr>)"

definition insert_account_if_absent :: "account_record \<Rightarrow> nat sql" where
  "insert_account_if_absent a s =
     (if acc_id a \<in> set (map acc_id (pg_accounts s)) then (Inr 0, s)
      else case insert_account a s of (Inl e, s) \<Rightarrow> (Inl e, s) | (Inr _, s) \<Rightarrow> (Inr 1, s))"

definition insert_book :: "string list \<Rightarrow> book_record \<Rightarrow> unit sql" where
  "insert_book uids b = sql_modify
     (\<lambda>s. if bk_id b \<in> set (map bk_id (pg_books s)) then Some UniqueViolation
          else if bk_owner_id b \<notin> set uids then Some ForeignKeyViolation else None)
     (\<lambda>s. s\<lparr>pg_books := pg_books s @ [b]\<rparr>)"

definition insert_member :: "string list \<Rightarrow> member_row \<Rightarrow> unit sql" where
  "insert_member uids r = sql_modify
     (\<lambda>s. if (mem_book_id r, mem_user_id r) \<in> set (map (\<lambda>x. (mem_book_id x, mem_user_id x)) (pg_members s)) then Some UniqueViolation
          else if mem_book_id r \<notin> set (map bk_id (pg_books s)) \<or> mem_user_id r \<notin> set uids then Some ForeignKeyViolation else None)
     (\<lambda>s. s\<lparr>pg_members := pg_members s @ [r]\<rparr>)"

subsection \<open>The book of a user (state.rs)\<close>

definition insert_default_account_change_pg :: "string \<Rightarrow> string \<Rightarrow> string \<Rightarrow> string \<Rightarrow> string \<Rightarrow> string option \<Rightarrow> unit sql" where
  "insert_default_account_change_pg book_id key name ty currency parent =
     insert_change book_id (''category-defaults-v2:'' @ book_id) ''account'' (scoped_account_id book_id key) ''upsert'' 1
       (account_payload_json name ty currency parent)"

definition seed_account_pg :: "string \<Rightarrow> string \<times> string \<times> string \<times> string option \<Rightarrow> unit sql" where
  "seed_account_pg book_id = (\<lambda>(key, name, ty, parent_key).
     let parent = map_option (scoped_account_id book_id) parent_key in
     sql_bind (insert_account_if_absent
         \<lparr>acc_id = scoped_account_id book_id key, acc_book_id = book_id, acc_name = name, acc_account_type = ty,
          acc_currency = ''CNY'', acc_parent_account_id = parent, acc_version = 1\<rparr>)
       (\<lambda>rows. if rows = 1 then insert_default_account_change_pg book_id key name ty ''CNY'' parent else sql_return ()))"

definition ensure_default_accounts_pg :: "string \<Rightarrow> unit sql" where
  "ensure_default_accounts_pg book_id = sql_mapM (seed_account_pg book_id) DEFAULT_ACCOUNTS"

definition create_demo_book :: "string list \<Rightarrow> string \<Rightarrow> string \<Rightarrow> unit sql" where
  "create_demo_book uids book_id user_id =
     sql_bind (insert_book uids \<lparr>bk_id = book_id, bk_name = ''Personal'', bk_owner_id = user_id\<rparr>) (\<lambda>_.
     sql_bind (insert_member uids \<lparr>mem_book_id = book_id, mem_user_id = user_id, mem_role = ''owner''\<rparr>) (\<lambda>_.
     sql_mapM (seed_account_pg book_id) DEFAULT_ACCOUNTS))"

text \<open>The rows of a table are in the order of their creation.\<close>

definition first_book :: "string \<Rightarrow> pg \<Rightarrow> string option" where
  "first_book user_id s = map_option bk_id
     (find (\<lambda>b. list_ex (\<lambda>r. mem_book_id r = bk_id b \<and> mem_user_id r = user_id) (pg_members s)) (pg_books s))"

definition insert_fx_rate :: "tx_fate \<Rightarrow> fx_rate_record \<Rightarrow> auth_db \<Rightarrow> auth_db" where
  "insert_fx_rate fate r d =
     (if aborted fate \<or> fx_book_id r \<notin> set (map bk_id (pg_books (ad_pg d))) \<or>
        list_ex (\<lambda>x. fx_book_id x = fx_book_id r \<and> fx_base_currency x = fx_base_currency r \<and> fx_quote_currency x = fx_quote_currency r)
          (ad_fx_rates d)
      then d else d\<lparr>ad_fx_rates := ad_fx_rates d @ [r]\<rparr>)"

definition default_rate :: "string \<Rightarrow> string \<Rightarrow> rat \<Rightarrow> fx_rate_record" where
  "default_rate book_id quote_currency rate =
     \<lparr>fx_book_id = book_id, fx_base_currency = ''CNY'', fx_quote_currency = quote_currency, fx_rate = rate\<rparr>"

definition ensure_demo_book_pg :: "pg_auth_call \<Rightarrow> string \<Rightarrow> auth_db \<Rightarrow> (sql_error + string) \<times> auth_db" where
  "ensure_demo_book_pg c user_id d =
     (case on_pg (in_tx (pa_fate c 1) (sql_get (first_book user_id))) d of
        (Inl e, d) \<Rightarrow> (Inl e, d)
      | (Inr (Some book_id), d) \<Rightarrow>
          (case on_pg (in_tx (pa_fate c 2) (ensure_default_accounts_pg book_id)) d of
             (Inl e, d) \<Rightarrow> (Inl e, d) | (Inr _, d) \<Rightarrow> (Inr book_id, d))
      | (Inr None, d) \<Rightarrow>
          let book_id = ac_book_id (pa_call c) in
          (case on_pg (in_tx (pa_fate c 2) (create_demo_book (user_ids d) book_id user_id)) d of
             (Inl e, d) \<Rightarrow> (Inl e, d)
           | (Inr _, d) \<Rightarrow> (Inr book_id,
               insert_fx_rate (pa_fate c 4) (default_rate book_id ''JPY'' (215 / 10))
                 (insert_fx_rate (pa_fate c 3) (default_rate book_id ''USD'' (14 / 100)) d))))"

subsection \<open>Audit events and plans\<close>

definition record_pool :: "auth_env \<Rightarrow> pg_auth_call \<Rightarrow> audit_event \<Rightarrow> auth_db \<Rightarrow> auth_db" where
  "record_pool env c ev d =
     (case bounded_metadata (ae_to_vec env) (ev_metadata ev) of
        None \<Rightarrow> d
      | Some md \<Rightarrow> snd (on_pg (in_tx (pa_fate c 8) (insert_audit (audit_row (fst (ac_stamp (pa_call c)), pa_now c 8) ev md))) d))"

definition audit_pg :: "auth_env \<Rightarrow> pg_auth_call \<Rightarrow> audit_event \<Rightarrow> auth_db \<Rightarrow> auth_db" where
  "audit_pg env c ev = record_pool env c (with_request_id (request_id (ac_request_id (pa_call c))) ev)"

definition query_pg :: "tx_fate \<Rightarrow> (timestamp \<Rightarrow> string) \<Rightarrow> pg \<Rightarrow> audit_query \<Rightarrow> audit_page api_result" where
  "query_pg fate fmt s q =
     (let limit = audit_limit (aq_limit q) in
      case in_tx fate (sql_get (\<lambda>s. take (limit + 1) (newest_first (filter (audit_matches q) (pg_audit s))))) s of
        (Inl _, _) \<Rightarrow> Inl (ApiError 500 ''AUDIT_QUERY_ERROR'')
      | (Inr rows, _) \<Rightarrow> Inr (page_from_rows fmt rows limit))"

text \<open>The two trails give the same pages, as long as the one in memory has not dropped anything.\<close>

lemma query_stores_agree: "pg_audit s = audit_events m \<Longrightarrow> query_pg Runs fmt s q = Inr (query_mem fmt m q)"
  by (simp add: query_pg_def query_mem_def in_tx_def Let_def)

text \<open>A plan that cannot be read is \<open>free\<close>.\<close>

definition plan_pg :: "pg_auth_call \<Rightarrow> string \<Rightarrow> auth_db \<Rightarrow> string \<times> auth_db" where
  "plan_pg c user_id d =
     (case on_pg (in_tx (pa_fate c 5) (sql_get (\<lambda>s. user_plan_pg s user_id))) d of
        (Inr plan, d) \<Rightarrow> (plan, d) | (Inl _, d) \<Rightarrow> (''free'', d))"

subsection \<open>Handlers\<close>

definition refused_pg :: "auth_env \<Rightarrow> pg_auth_call \<Rightarrow> api_error \<Rightarrow> string \<Rightarrow> audit_event \<Rightarrow> auth_db \<Rightarrow> (api_error + 'a) \<times> auth_db" where
  "refused_pg env c e reason ev d = (Inl e, audit_pg env c (failed_because reason ev) d)"

definition logout_pg :: "auth_env \<Rightarrow> pg_auth_call \<Rightarrow> auth_user \<Rightarrow> auth_db \<Rightarrow> cookie list api_result \<times> auth_db" where
  "logout_pg env c auth d =
     (case on_pg (in_tx (pa_fate c 0) (update_sessions
         (\<lambda>r. sr_id r = au_session_id auth \<and> sr_user_id r = au_user_id auth \<and> sr_device_id r = au_device_id auth) (pa_now c 0))) d of
        (Inl _, d) \<Rightarrow> (Inl db_err, d)
      | (Inr _, d) \<Rightarrow> (Inr [clear_refresh_cookie env],
          audit_pg env c (user_event (au_user_id auth) ''auth.logout'' Success) d))"

definition register_pg :: "auth_env \<Rightarrow> pg_auth_call \<Rightarrow> register_request \<Rightarrow> auth_db \<Rightarrow> string api_result \<times> auth_db" where
  "register_pg env c req0 d =
     (case validate_registration req0 of Inl e \<Rightarrow> (Inl e, d) | Inr req \<Rightarrow>
      case ae_hash_password env (ac_salt (pa_call c)) (rq_password req) of
        None \<Rightarrow> (Inl (ApiError 500 ''PASSWORD_HASH_FAILED''), d)
      | Some hash \<Rightarrow>
          let uid = ac_user_id (pa_call c) in
          (case insert_user (pa_fate c 0) \<lparr>usr_id = uid, usr_email = rq_email req, usr_password_hash = hash,
              usr_display_name = rq_display_name req\<rparr> d of
             (Inl _, d) \<Rightarrow> (Inl db_err, d)
           | (Inr rows, d) \<Rightarrow>
               if rows = 0
               then refused_pg env c (ApiError 409 ''EMAIL_TAKEN'') ''email_taken'' (anonymous_event ''auth.register'' Failure) d
               else (Inr uid, audit_pg env c (with_target ''user'' uid (user_event uid ''auth.register'' Success)) d)))"

definition new_session_row :: "auth_env \<Rightarrow> pg_auth_call \<Rightarrow> string \<Rightarrow> string \<Rightarrow> session_row" where
  "new_session_row env c user_id device_id =
     \<lparr>sr_id = ac_session_id (pa_call c), sr_user_id = user_id, sr_device_id = device_id,
      sr_refresh_token_hash = ae_hash_token env (ac_random_token (pa_call c)), sr_created_at = pa_now c 6, sr_revoked_at = None\<rparr>"

definition tokens_for :: "auth_env \<Rightarrow> pg_auth_call \<Rightarrow> string \<Rightarrow> string \<Rightarrow> token_response api_result" where
  "tokens_for env c user_id device_id =
     build_token_response env (ac_unix_now (pa_call c)) user_id device_id (ac_session_id (pa_call c)) (ac_random_token (pa_call c))"

definition issue_tokens_pg :: "auth_env \<Rightarrow> pg_auth_call \<Rightarrow> string \<Rightarrow> string \<Rightarrow> auth_db \<Rightarrow> token_response api_result \<times> auth_db" where
  "issue_tokens_pg env c user_id device_id d =
     (case tokens_for env c user_id device_id of Inl e \<Rightarrow> (Inl e, d) | Inr tokens \<Rightarrow>
      case on_pg (in_tx (pa_fate c 6) (insert_session (user_ids d) (new_session_row env c user_id device_id))) d of
        (Inl _, d) \<Rightarrow> (Inl db_err, d)
      | (Inr _, d) \<Rightarrow>
          (case on_pg (in_tx (pa_fate c 7) (insert_subscription (user_ids d) user_id)) d of
             (Inl _, d) \<Rightarrow> (Inl db_err, d) | (Inr _, d) \<Rightarrow> (Inr tokens, d)))"

definition grant_login_pg :: "auth_env \<Rightarrow> pg_auth_call \<Rightarrow> string \<Rightarrow> string \<Rightarrow> auth_db \<Rightarrow> token_response api_result \<times> auth_db" where
  "grant_login_pg env c user_id device_id d =
     (case ensure_demo_book_pg c user_id d of
        (Inl _, d) \<Rightarrow> (Inl (ApiError 500 ''BOOK_ERROR''), d)
      | (Inr book_id, d) \<Rightarrow>
          (case issue_tokens_pg env c user_id device_id d of
             (Inl e, d) \<Rightarrow> (Inl e, d)
           | (Inr tokens, d) \<Rightarrow>
               (case plan_pg c user_id d of
                  (plan, d) \<Rightarrow> (Inr (tokens\<lparr>tk_book_id := Some book_id, tk_plan := Some plan\<rparr>),
                    audit_pg env c (with_target ''user'' user_id (user_event user_id ''auth.login'' Success)) d))))"

definition login_pg :: "auth_env \<Rightarrow> pg_auth_call \<Rightarrow> login_request \<Rightarrow> auth_db \<Rightarrow> (cookie list \<times> token_response) api_result \<times> auth_db" where
  "login_pg env c req0 d =
     (let refuse = refused_pg env c (ApiError 401 ''INVALID_CREDENTIALS'') ''invalid_credentials'' (anonymous_event ''auth.login'' Failure) in
      case validate_login req0 of Inl e \<Rightarrow> (Inl e, d) | Inr req \<Rightarrow>
      case uses_cookie_session (lq_session_mode req) of Inl e \<Rightarrow> (Inl e, d) | Inr cookie_mode \<Rightarrow>
      case on_pg (in_tx (pa_fate c 0) (sql_get (\<lambda>_. find (\<lambda>u. usr_email u = lq_email req) (ad_users d)))) d of
        (Inl _, d) \<Rightarrow> (Inl db_err, d)
      | (Inr None, d) \<Rightarrow> refuse d
      | (Inr (Some user), d) \<Rightarrow>
          if \<not> ae_verify_password env (lq_password req) (usr_password_hash user) then refuse d
          else apfst (map_sum (\<lambda>e. e) (finish_refresh env cookie_mode)) (grant_login_pg env c (usr_id user) (lq_device_id req) d))"

subsection \<open>Rotation of refresh tokens\<close>

text \<open>Thirty days of the clock of the database.\<close>

definition session_fresh :: "timestamp \<Rightarrow> session_row \<Rightarrow> bool" where
  "session_fresh now r \<longleftrightarrow> now - hours (30 * 24) \<le> sr_created_at r"

definition rotate_lookup :: "auth_env \<Rightarrow> pg_auth_call \<Rightarrow> string \<Rightarrow> auth_db \<Rightarrow> (api_error + session_row) \<times> auth_db" where
  "rotate_lookup env c hash d =
     (case on_pg (in_tx (pa_fate c 0) (sql_get (\<lambda>s. find (\<lambda>r. sr_refresh_token_hash r = hash) (pg_sessions s)))) d of
        (Inl _, d) \<Rightarrow> (Inl db_err, d)
      | (Inr None, d) \<Rightarrow>
          refused_pg env c (ApiError 401 ''INVALID_REFRESH'') ''invalid_refresh'' (anonymous_event ''auth.refresh'' Failure) d
      | (Inr (Some r), d) \<Rightarrow>
          if sr_revoked_at r \<noteq> None
          then refused_pg env c (ApiError 401 ''REFRESH_REUSE'') ''refresh_reuse'' (user_event (sr_user_id r) ''auth.refresh'' Failure) d
          else if \<not> session_fresh (pa_now c 0) r
          then (case on_pg (in_tx (pa_fate c 1) (update_sessions (\<lambda>x. sr_id x = sr_id r \<and> sr_revoked_at x = None) (pa_now c 1))) d of
              (Inl _, d) \<Rightarrow> (Inl db_err, d)
            | (Inr _, d) \<Rightarrow> refused_pg env c (ApiError 401 ''INVALID_REFRESH'') ''expired'' (user_event (sr_user_id r) ''auth.refresh'' Failure) d)
          else (Inr r, d))"

text \<open>The transaction; \<open>False\<close> is a rollback because the session was claimed in the meantime.\<close>

definition rotate_tx :: "auth_env \<Rightarrow> pg_auth_call \<Rightarrow> string list \<Rightarrow> session_row \<Rightarrow> bool sql" where
  "rotate_tx env c uids old s =
     (case update_sessions (\<lambda>x. sr_id x = sr_id old \<and> sr_revoked_at x = None \<and> session_fresh (pa_now c 6) x) (pa_now c 6) s of
        (Inl e, s') \<Rightarrow> (Inl e, s')
      | (Inr rows, s') \<Rightarrow>
          if rows \<noteq> 1 then (Inr False, s)
          else sql_bind (insert_session uids (new_session_row env c (sr_user_id old) (sr_device_id old))) (\<lambda>_.
               sql_bind (insert_subscription uids (sr_user_id old)) (\<lambda>_. sql_return True)) s')"

definition rotate_commit :: "auth_env \<Rightarrow> pg_auth_call \<Rightarrow> session_row \<Rightarrow> auth_db \<Rightarrow> token_response api_result \<times> auth_db" where
  "rotate_commit env c r d =
     (let user_id = sr_user_id r in
      case ensure_demo_book_pg c user_id d of
        (Inl _, d) \<Rightarrow> (Inl (ApiError 500 ''BOOK_ERROR''), d)
      | (Inr book_id, d) \<Rightarrow>
          (case plan_pg c user_id d of (plan, d) \<Rightarrow>
             (case tokens_for env c user_id (sr_device_id r) of
                Inl e \<Rightarrow> (Inl e, d)
              | Inr tokens \<Rightarrow>
                  (case on_pg (in_tx (pa_fate c 6) (rotate_tx env c (user_ids d) r)) d of
                     (Inl _, d) \<Rightarrow> (Inl db_err, d)
                   | (Inr False, d) \<Rightarrow>
                       refused_pg env c (ApiError 401 ''REFRESH_REUSE'') ''refresh_reuse'' (user_event user_id ''auth.refresh'' Failure) d
                   | (Inr True, d) \<Rightarrow>
                       (Inr (tokens\<lparr>tk_book_id := Some book_id, tk_plan := Some plan\<rparr>),
                        audit_pg env c (with_target ''user'' user_id (user_event user_id ''auth.refresh'' Success)) d)))))"

definition rotate_refresh_token_pg :: "auth_env \<Rightarrow> pg_auth_call \<Rightarrow> string \<Rightarrow> auth_db \<Rightarrow> token_response api_result \<times> auth_db" where
  "rotate_refresh_token_pg env c hash d =
     (case rotate_lookup env c hash d of (Inl e, d) \<Rightarrow> (Inl e, d) | (Inr r, d) \<Rightarrow> rotate_commit env c r d)"

definition refresh_pg :: "auth_env \<Rightarrow> pg_auth_call \<Rightarrow> string option \<Rightarrow> refresh_request \<Rightarrow> auth_db \<Rightarrow>
    ((cookie list \<times> api_error) + (cookie list \<times> token_response)) \<times> auth_db" where
  "refresh_pg env c jar req d =
     (case uses_cookie_session (rf_session_mode req) of Inl e \<Rightarrow> (Inl ([], e), d) | Inr cookie_mode \<Rightarrow>
      case refresh_credential env jar req cookie_mode of Inl e \<Rightarrow> (Inl e, d) | Inr refresh_token \<Rightarrow>
      if \<not> valid_refresh_token refresh_token
      then (Inl (refresh_error_response env cookie_mode (ApiError 401 ''INVALID_REFRESH'')),
            audit_pg env c (failed_because ''invalid_refresh'' (anonymous_event ''auth.refresh'' Failure)) d)
      else apfst (map_sum (refresh_error_response env cookie_mode) (finish_refresh env cookie_mode))
             (rotate_refresh_token_pg env c (ae_hash_token env refresh_token) d))"

subsection \<open>Sessions last\<close>

definition later_session :: "session_row \<Rightarrow> session_row \<Rightarrow> bool" where
  "later_session r r' \<longleftrightarrow> r' = r \<or> (\<exists>t. r' = r\<lparr>sr_revoked_at := Some t\<rparr>)"

definition sessions_wf :: "pg \<Rightarrow> bool" where
  "sessions_wf s \<longleftrightarrow> distinct (map sr_id (pg_sessions s)) \<and> distinct (map sr_refresh_token_hash (pg_sessions s))"

text \<open>No session goes, none comes back from revocation, and the keys of the table hold.\<close>

definition sessions_last :: "pg \<Rightarrow> pg \<Rightarrow> bool" where
  "sessions_last s s' \<longleftrightarrow> (sessions_wf s \<longrightarrow> sessions_wf s') \<and> (\<forall>r \<in> set (pg_sessions s). \<exists>r' \<in> set (pg_sessions s'). later_session r r')"

lemma later_session_sel:
  assumes "later_session r r'"
  shows "sr_id r' = sr_id r" "sr_refresh_token_hash r' = sr_refresh_token_hash r" "sr_revoked_at r \<noteq> None \<Longrightarrow> sr_revoked_at r' \<noteq> None"
  using assms by (auto simp: later_session_def)

lemma later_session_trans: "later_session a b \<Longrightarrow> later_session b c \<Longrightarrow> later_session a c"
  by (auto simp: later_session_def)

interpretation sess: sql_order sessions_last
proof
  show "sessions_last s s" for s by (auto simp: sessions_last_def later_session_def)
  show "sessions_last s u" if "sessions_last s t" "sessions_last t u" for s t u
    using that unfolding sessions_last_def by (meson later_session_trans)
qed

lemma sessions_last_same: "pg_sessions s' = pg_sessions s \<Longrightarrow> sessions_last s s'"
  by (auto simp: sessions_last_def sessions_wf_def later_session_def)

lemma sessions_last_map:
  assumes "\<And>r. later_session r (f r)" and "pg_sessions s' = map f (pg_sessions s)"
  shows "sessions_last s s'"
proof -
  have "sr_id \<circ> f = sr_id" "sr_refresh_token_hash \<circ> f = sr_refresh_token_hash"
    using later_session_sel [OF assms(1)] by (simp_all add: fun_eq_iff)
  then have "sessions_wf s' \<longleftrightarrow> sessions_wf s" by (simp add: sessions_wf_def assms(2))
  then show ?thesis using assms by (fastforce simp: sessions_last_def)
qed

lemma within_update_sessions: "sql_within sessions_last (update_sessions p now)"
  unfolding sql_within_def update_sessions_def
  by (auto intro!: sessions_last_map [where f = "\<lambda>r. if p r then r\<lparr>sr_revoked_at := Some now\<rparr> else r"] simp: later_session_def)

text \<open>The job that revokes what is older than thirty days is one of the steps allowed.\<close>

lemma within_purge_sessions: "sql_within sessions_last (purge_expired_sessions now)"
  unfolding purge_expired_sessions_def
  by (intro sess.within_modify sessions_last_map
      [where f = "\<lambda>x. if sr_revoked_at x = None \<and> sr_created_at x < now - hours (30 * 24) then x\<lparr>sr_revoked_at := Some now\<rparr> else x"])
    (auto simp: later_session_def)

lemma within_insert_session: "sql_within sessions_last (insert_session uids r)"
  by (auto simp: sql_within_def insert_session_def sql_modify_def sessions_last_def sessions_wf_def later_session_def)

lemma within_same_sessions: "(\<And>s. pg_sessions (f s) = pg_sessions s) \<Longrightarrow> sql_within sessions_last (sql_modify c f)"
  by (intro sess.within_modify sessions_last_same)

lemma within_other_statements:
  "sql_within sessions_last (insert_audit e)" "sql_within sessions_last (insert_subscription uids u)"
  "sql_within sessions_last (insert_book uids b)" "sql_within sessions_last (insert_member uids m)"
  "sql_within sessions_last (insert_change bi i ty en op v p)"
  unfolding insert_audit_def insert_subscription_def insert_book_def insert_member_def insert_change_def
  by (rule within_same_sessions; simp)+

lemma within_seed: "sql_within sessions_last (seed_account_pg b k)"
proof -
  have "sql_within sessions_last (insert_account_if_absent a)" for a
    by (auto simp: sql_within_def insert_account_if_absent_def insert_account_def sql_modify_def intro!: sessions_last_same split: prod.splits)
  then show ?thesis
    unfolding seed_account_pg_def insert_default_account_change_pg_def
    by (auto simp: Let_def split: prod.splits intro!: sess.within_intros within_other_statements)
qed

lemma within_books:
  "sql_within sessions_last (ensure_default_accounts_pg b)" "sql_within sessions_last (create_demo_book uids b u)"
  unfolding ensure_default_accounts_pg_def create_demo_book_def
  by (intro sess.within_intros within_other_statements within_seed)+

lemma within_rotate_tx: "sql_within sessions_last (rotate_tx env c uids old)"
proof -
  have rest: "sql_within sessions_last (sql_bind (insert_session uids (new_session_row env c (sr_user_id old) (sr_device_id old))) (\<lambda>_.
      sql_bind (insert_subscription uids (sr_user_id old)) (\<lambda>_. sql_return True)))"
    by (intro sess.within_intros within_insert_session within_other_statements)
  show ?thesis
    unfolding sql_within_def
  proof
    fix s
    let ?u = "update_sessions (\<lambda>x. sr_id x = sr_id old \<and> sr_revoked_at x = None \<and> session_fresh (pa_now c 6) x) (pa_now c 6)"
    have "sessions_last s (snd (?u s))" using within_update_sessions by (simp add: sql_within_def)
    then show "sessions_last s (snd (rotate_tx env c uids old s))"
      using rest by (auto simp: rotate_tx_def sql_within_def sess.order_refl split: prod.splits sum.splits intro: sess.order_trans)
  qed
qed

subsection \<open>The same of every handler\<close>

definition db_last :: "auth_db \<Rightarrow> auth_db \<Rightarrow> bool" where
  "db_last d d' \<longleftrightarrow> sessions_last (ad_pg d) (ad_pg d')"

lemma db_last_refl [simp]: "db_last d d"
  by (simp add: db_last_def sess.order_refl)

lemma db_last_trans [trans]: "db_last a b \<Longrightarrow> db_last b c \<Longrightarrow> db_last a c"
  using sess.order_trans by (auto simp: db_last_def)

lemma on_pg_last:
  assumes "on_pg (in_tx fate m) d = (r, d')" and "sql_within sessions_last m"
  shows "db_last d d'"
proof -
  have "sql_within sessions_last (in_tx fate m)" by (rule sess.within_in_tx [OF assms(2)]) (simp add: sessions_last_same)
  then show ?thesis using assms(1) by (auto simp: on_pg_def db_last_def sql_within_def split: prod.splits) (metis snd_conv)
qed

lemma audit_pg_last [simp]: "db_last d (audit_pg env c ev d)"
  using on_pg_last [OF prod.collapse [symmetric] within_other_statements(1)]
  by (simp add: audit_pg_def record_pool_def split: option.split)

lemma db_last_audit [intro]: "db_last d d1 \<Longrightarrow> db_last d (audit_pg env c ev d1)"
  using db_last_trans [OF _ audit_pg_last] .

lemma refused_pg_last: "refused_pg env c e reason ev d = (r, d') \<Longrightarrow> db_last d d'"
  by (auto simp: refused_pg_def)

lemma insert_fx_last [simp]: "db_last d (insert_fx_rate fate r d)"
  by (simp add: insert_fx_rate_def db_last_def sess.order_refl)

lemma insert_fx_last2 [intro]: "db_last d d1 \<Longrightarrow> db_last d (insert_fx_rate fate r d1)"
  using db_last_trans [OF _ insert_fx_last] .

text \<open>The statements of the handlers, for their proofs.\<close>

lemmas statement_last = on_pg_last [OF _ sess.within_basic(3)] on_pg_last [OF _ within_books(1)] on_pg_last [OF _ within_books(2)]
  on_pg_last [OF _ within_update_sessions] on_pg_last [OF _ within_insert_session] on_pg_last [OF _ within_other_statements(2)]
  on_pg_last [OF _ within_rotate_tx]

lemma ensure_demo_book_last:
  assumes "ensure_demo_book_pg c u d = (r, d')"
  shows "db_last d d'"
proof -
  obtain r1 d1 where 1: "on_pg (in_tx (pa_fate c 1) (sql_get (first_book u))) d = (r1, d1)" by fastforce
  have l1: "db_last d d1" by (rule on_pg_last [OF 1 sess.within_basic(3)])
  show ?thesis
    using assms l1
    by (auto simp: ensure_demo_book_pg_def 1 Let_def simp del: One_nat_def split: sum.splits option.splits prod.splits
        intro: db_last_trans [OF l1] statement_last)
qed

lemma plan_last:
  assumes "plan_pg c u d = (p, d')"
  shows "db_last d d'"
  using assms on_pg_last [OF _ sess.within_basic(3)] by (auto simp: plan_pg_def split: sum.splits prod.splits)

lemma issue_tokens_last:
  assumes "issue_tokens_pg env c u dev d = (r, d')"
  shows "db_last d d'"
proof -
  obtain q d1 where 1: "on_pg (in_tx (pa_fate c 6) (insert_session (user_ids d) (new_session_row env c u dev))) d = (q, d1)" by fastforce
  note l1 = on_pg_last [OF 1 within_insert_session]
  show ?thesis
    using assms l1
    by (auto simp: issue_tokens_pg_def 1 split: sum.splits prod.splits intro: db_last_trans [OF l1] statement_last)
qed

lemma grant_login_last:
  assumes "grant_login_pg env c u dev d = (r, d')"
  shows "db_last d d'"
proof -
  obtain b d1 where 1: "ensure_demo_book_pg c u d = (b, d1)" by fastforce
  obtain t d2 where 2: "issue_tokens_pg env c u dev d1 = (t, d2)" by fastforce
  obtain p d3 where 3: "plan_pg c u d2 = (p, d3)" by fastforce
  have "db_last d d2" using ensure_demo_book_last [OF 1] issue_tokens_last [OF 2] by (rule db_last_trans)
  then show ?thesis
    using assms ensure_demo_book_last [OF 1] plan_last [OF 3]
    by (auto simp: grant_login_pg_def 1 2 3 split: sum.splits intro: db_last_trans)
qed

lemma login_last: "db_last d (snd (login_pg env c req d))"
proof -
  have l: "db_last a (snd (grant_login_pg env c u dev b))" if "db_last a b" for a b u dev
    using db_last_trans [OF that grant_login_last [OF prod.collapse [symmetric]]] .
  show ?thesis
    by (auto simp: login_pg_def Let_def refused_pg_def split: sum.splits option.splits prod.splits intro: l statement_last)
qed

lemma logout_last: "db_last d (snd (logout_pg env c auth d))"
  by (auto simp: logout_pg_def split: sum.splits prod.splits intro: statement_last)

lemma register_last: "db_last d (snd (register_pg env c req d))"
proof -
  have "ad_pg (snd (insert_user fate u d)) = ad_pg d" for fate u by (simp add: insert_user_def Let_def)
  then have "db_last d d'" if "insert_user fate u d = (q, d')" for fate u q d'
    using that by (metis db_last_def sess.order_refl snd_conv)
  then show ?thesis
    by (auto simp: register_pg_def refused_pg_def Let_def split: sum.splits option.splits prod.splits)
qed

subsection \<open>Two requests with one token\<close>

text \<open>What a lookup finds is in the table; one that is revoked is not found again.\<close>

lemma in_tx_get: "in_tx fate (sql_get g) s = (Inr x, s') \<Longrightarrow> x = g s \<and> s' = s"
  by (auto simp: in_tx_def split: tx_fate.splits)

lemma rotate_lookup_Inr:
  assumes "rotate_lookup env c hash d = (Inr r, d')"
  shows "r \<in> set (pg_sessions (ad_pg d)) \<and> sr_refresh_token_hash r = hash \<and> sr_revoked_at r = None \<and> d' = d"
proof -
  have "find (\<lambda>r. sr_refresh_token_hash r = hash) (pg_sessions (ad_pg d)) = Some r \<and> sr_revoked_at r = None \<and> d' = d"
    using assms by (auto simp: rotate_lookup_def refused_pg_def on_pg_def dest!: in_tx_get split: sum.splits option.splits if_splits prod.splits)
  then show ?thesis by (auto simp: find_Some_iff)
qed

lemma rotate_lookup_last:
  assumes "rotate_lookup env c hash d = (r, d')"
  shows "db_last d d'"
proof -
  obtain q d1 where 1: "on_pg (in_tx (pa_fate c 0) (sql_get (\<lambda>s. find (\<lambda>r. sr_refresh_token_hash r = hash) (pg_sessions s)))) d = (q, d1)" by fastforce
  have l1: "db_last d d1" by (rule on_pg_last [OF 1 sess.within_basic(3)])
  show ?thesis
    using assms l1
    by (auto simp: rotate_lookup_def refused_pg_def 1 split: sum.splits option.splits if_splits prod.splits
        intro: db_last_trans [OF l1] statement_last)
qed

lemma audit_pg_sessions [simp]: "pg_sessions (ad_pg (audit_pg env c ev d)) = pg_sessions (ad_pg d)"
  by (auto simp: audit_pg_def record_pool_def on_pg_def in_tx_def insert_audit_def sql_modify_def split: option.splits tx_fate.splits prod.splits sum.splits)

text \<open>A rotation that succeeds finds its session unrevoked and leaves it revoked.\<close>

lemma rotate_tx_True:
  assumes "rotate_tx env c uids old s = (Inr True, s')"
  shows "(\<exists>x \<in> set (pg_sessions s). sr_id x = sr_id old \<and> sr_revoked_at x = None) \<and>
    (\<exists>x \<in> set (pg_sessions s'). sr_id x = sr_id old \<and> sr_revoked_at x \<noteq> None)"
proof -
  let ?p = "\<lambda>x. sr_id x = sr_id old \<and> sr_revoked_at x = None \<and> session_fresh (pa_now c 6) x"
  obtain n s1 where u: "update_sessions ?p (pa_now c 6) s = (Inr n, s1)" by (simp add: update_sessions_def)
  have n: "n = 1" using assms unfolding rotate_tx_def u by (cases "n = 1") simp_all
  have rest: "sql_bind (insert_session uids (new_session_row env c (sr_user_id old) (sr_device_id old))) (\<lambda>_.
      sql_bind (insert_subscription uids (sr_user_id old)) (\<lambda>_. sql_return True)) s1 = (Inr True, s')"
    using assms unfolding rotate_tx_def u n by simp
  have "length (filter ?p (pg_sessions s)) = 1" using u n by (simp add: update_sessions_def)
  then have "filter ?p (pg_sessions s) \<noteq> []" by (intro notI) simp
  then obtain x where x: "x \<in> set (pg_sessions s)" "?p x" unfolding filter_empty_conv by blast
  then have "x\<lparr>sr_revoked_at := Some (pa_now c 6)\<rparr> \<in> set (pg_sessions s1)" using u by (force simp: update_sessions_def)
  moreover have "set (pg_sessions s1) \<subseteq> set (pg_sessions s')"
    using rest by (auto simp: sql_Inr insert_session_def insert_subscription_def split: if_splits)
  ultimately have "x\<lparr>sr_revoked_at := Some (pa_now c 6)\<rparr> \<in> set (pg_sessions s')" by blast
  then show ?thesis
    using x by (intro conjI bexI [of _ x] bexI [of _ "x\<lparr>sr_revoked_at := Some (pa_now c 6)\<rparr>"]) simp_all
qed

lemma rotate_commit_last:
  assumes "rotate_commit env c r d = (q, d')"
  shows "db_last d d'" and "q = Inr tk \<Longrightarrow> \<exists>d1. db_last d d1 \<and>
    (\<exists>x \<in> set (pg_sessions (ad_pg d1)). sr_id x = sr_id r \<and> sr_revoked_at x = None) \<and>
    (\<exists>x \<in> set (pg_sessions (ad_pg d')). sr_id x = sr_id r \<and> sr_revoked_at x \<noteq> None)"
proof -
  obtain b d1 where 1: "ensure_demo_book_pg c (sr_user_id r) d = (b, d1)" by fastforce
  obtain p d2 where 2: "plan_pg c (sr_user_id r) d1 = (p, d2)" by fastforce
  obtain w d3 where 3: "on_pg (in_tx (pa_fate c 6) (rotate_tx env c (user_ids d2) r)) d2 = (w, d3)" by fastforce
  have l2: "db_last d d2" using ensure_demo_book_last [OF 1] plan_last [OF 2] by (rule db_last_trans)
  have l3: "db_last d d3" using l2 on_pg_last [OF 3 within_rotate_tx] by (rule db_last_trans)
  show "db_last d d'"
    using assms ensure_demo_book_last [OF 1] l2 l3
    by (auto simp: rotate_commit_def Let_def 1 2 3 refused_pg_def split: sum.splits bool.splits)
  assume "q = Inr tk"
  then have "w = Inr True" and d': "pg_sessions (ad_pg d') = pg_sessions (ad_pg d3)"
    using assms by (auto simp: rotate_commit_def Let_def 1 2 3 refused_pg_def split: sum.splits bool.splits)
  then have "rotate_tx env c (user_ids d2) r (ad_pg d2) = (Inr True, ad_pg d3)"
    using 3 by (auto simp: on_pg_def split: prod.splits dest: in_tx_Inr)
  from rotate_tx_True [OF this] l2 d' show "\<exists>d1. db_last d d1 \<and>
    (\<exists>x \<in> set (pg_sessions (ad_pg d1)). sr_id x = sr_id r \<and> sr_revoked_at x = None) \<and>
    (\<exists>x \<in> set (pg_sessions (ad_pg d')). sr_id x = sr_id r \<and> sr_revoked_at x \<noteq> None)" by auto
qed

text \<open>
  The requests of any number of clients. \<open>rw_waiting\<close> are the rotations between their two halves, \<open>rw_answered\<close> the hashes
  of the refresh tokens that were answered with new tokens. Other handlers and jobs may do what they want as long as sessions last.
\<close>

record rotation_world =
  rw_db :: auth_db
  rw_waiting :: "session_row list"
  rw_answered :: "string list"

inductive rotation_step :: "auth_env \<Rightarrow> rotation_world \<Rightarrow> rotation_world \<Rightarrow> bool" for env where
  rot_found: "rotate_lookup env c hash (rw_db w) = (Inr r, d) \<Longrightarrow> rotation_step env w (w\<lparr>rw_db := d, rw_waiting := r # rw_waiting w\<rparr>)"
| rot_refused: "rotate_lookup env c hash (rw_db w) = (Inl e, d) \<Longrightarrow> rotation_step env w (w\<lparr>rw_db := d\<rparr>)"
| rot_granted: "r \<in> set (rw_waiting w) \<Longrightarrow> rotate_commit env c r (rw_db w) = (Inr tokens, d) \<Longrightarrow>
    rotation_step env w (w\<lparr>rw_db := d, rw_waiting := remove1 r (rw_waiting w), rw_answered := sr_refresh_token_hash r # rw_answered w\<rparr>)"
| rot_failed: "r \<in> set (rw_waiting w) \<Longrightarrow> rotate_commit env c r (rw_db w) = (Inl e, d) \<Longrightarrow>
    rotation_step env w (w\<lparr>rw_db := d, rw_waiting := remove1 r (rw_waiting w)\<rparr>)"
| rot_login: "rotation_step env w (w\<lparr>rw_db := snd (login_pg env c lreq (rw_db w))\<rparr>)"
| rot_register: "rotation_step env w (w\<lparr>rw_db := snd (register_pg env c rreq (rw_db w))\<rparr>)"
| rot_logout: "rotation_step env w (w\<lparr>rw_db := snd (logout_pg env c auth (rw_db w))\<rparr>)"
| rot_other: "db_last (rw_db w) d \<Longrightarrow> rotation_step env w (w\<lparr>rw_db := d\<rparr>)"

definition rotation_inv :: "rotation_world \<Rightarrow> bool" where
  "rotation_inv w \<longleftrightarrow> sessions_wf (ad_pg (rw_db w)) \<and> distinct (rw_answered w) \<and>
     (\<forall>r \<in> set (rw_waiting w). \<exists>x \<in> set (pg_sessions (ad_pg (rw_db w))). later_session r x) \<and>
     (\<forall>h \<in> set (rw_answered w). \<exists>x \<in> set (pg_sessions (ad_pg (rw_db w))). sr_refresh_token_hash x = h \<and> sr_revoked_at x \<noteq> None)"

lemma sessions_wf_hash:
  assumes "sessions_wf s" "x \<in> set (pg_sessions s)" "y \<in> set (pg_sessions s)"
  shows "sr_refresh_token_hash x = sr_refresh_token_hash y \<Longrightarrow> x = y" "sr_id x = sr_id y \<Longrightarrow> x = y"
  using assms by (auto simp: sessions_wf_def distinct_map dest: inj_onD)

lemma rotation_inv_last:
  assumes "rotation_inv w" and "db_last (rw_db w) d"
  shows "rotation_inv (w\<lparr>rw_db := d\<rparr>)"
proof -
  let ?s = "ad_pg (rw_db w)" and ?t = "ad_pg d"
  have wf: "sessions_wf ?t" using assms by (simp add: rotation_inv_def db_last_def sessions_last_def)
  have next_row: "\<exists>x' \<in> set (pg_sessions ?t). later_session x x'" if "x \<in> set (pg_sessions ?s)" for x
    using assms(2) that by (simp add: db_last_def sessions_last_def)
  have "\<exists>x \<in> set (pg_sessions ?t). later_session r x" if r: "r \<in> set (rw_waiting w)" for r
  proof -
    obtain x where x: "x \<in> set (pg_sessions ?s)" "later_session r x" using assms(1) r by (auto simp: rotation_inv_def)
    from next_row [OF x(1)] x(2) show ?thesis by (auto intro: later_session_trans)
  qed
  moreover have "\<exists>x \<in> set (pg_sessions ?t). sr_refresh_token_hash x = h \<and> sr_revoked_at x \<noteq> None" if h: "h \<in> set (rw_answered w)" for h
  proof -
    obtain x where x: "x \<in> set (pg_sessions ?s)" "sr_refresh_token_hash x = h" "sr_revoked_at x \<noteq> None"
      using assms(1) h by (auto simp: rotation_inv_def)
    obtain x' where x': "x' \<in> set (pg_sessions ?t)" "later_session x x'" using next_row [OF x(1)] by blast
    show ?thesis using x x' later_session_sel(2) [OF x'(2)] later_session_sel(3) [OF x'(2)] by (intro bexI [of _ x']) simp_all
  qed
  ultimately show ?thesis using assms(1) wf by (simp add: rotation_inv_def)
qed

text \<open>The session that is claimed cannot be one whose token was answered: those are revoked.\<close>

lemma rotation_claim:
  assumes "rotation_inv w" "r \<in> set (rw_waiting w)" "rotate_commit env c r (rw_db w) = (Inr tokens, d)"
  shows "sr_refresh_token_hash r \<notin> set (rw_answered w)"
    and "\<exists>x \<in> set (pg_sessions (ad_pg d)). sr_refresh_token_hash x = sr_refresh_token_hash r \<and> sr_revoked_at x \<noteq> None"
proof -
  let ?s = "ad_pg (rw_db w)"
  obtain d1 y z where d1: "db_last (rw_db w) d1" and y: "y \<in> set (pg_sessions (ad_pg d1))" "sr_id y = sr_id r" "sr_revoked_at y = None"
    and z: "z \<in> set (pg_sessions (ad_pg d))" "sr_id z = sr_id r" "sr_revoked_at z \<noteq> None"
    using rotate_commit_last(2) [OF assms(3) refl] by blast
  have wf: "sessions_wf ?s" and wf1: "sessions_wf (ad_pg d1)" and wfd: "sessions_wf (ad_pg d)"
    using assms(1) d1 rotate_commit_last(1) [OF assms(3)] by (auto simp: rotation_inv_def db_last_def sessions_last_def)
  obtain x where x: "x \<in> set (pg_sessions ?s)" "later_session r x" using assms(1,2) by (auto simp: rotation_inv_def)
  note x_sel = later_session_sel [OF x(2)]
  obtain x1 where x1: "x1 \<in> set (pg_sessions (ad_pg d1))" "later_session x x1" using d1 x by (auto simp: db_last_def sessions_last_def)
  then have "x1 = y" using sessions_wf_hash(2) [OF wf1 x1(1) y(1)] y(2) x_sel later_session_sel(1) [OF x1(2)] by simp
  then have live: "sr_revoked_at x = None" using y(3) later_session_sel(3) [OF x1(2)] by blast
  show "sr_refresh_token_hash r \<notin> set (rw_answered w)"
  proof
    assume "sr_refresh_token_hash r \<in> set (rw_answered w)"
    then obtain u where u: "u \<in> set (pg_sessions ?s)" "sr_refresh_token_hash u = sr_refresh_token_hash r" "sr_revoked_at u \<noteq> None"
      using assms(1) by (auto simp: rotation_inv_def)
    then have "u = x" using sessions_wf_hash(1) [OF wf u(1) x(1)] x_sel by simp
    then show False using u(3) live by simp
  qed
  obtain x2 where x2: "x2 \<in> set (pg_sessions (ad_pg d))" "later_session x x2"
    using rotate_commit_last(1) [OF assms(3)] x by (auto simp: db_last_def sessions_last_def)
  then have "x2 = z" using sessions_wf_hash(2) [OF wfd x2(1) z(1)] z(2) x_sel later_session_sel(1) [OF x2(2)] by simp
  then show "\<exists>x \<in> set (pg_sessions (ad_pg d)). sr_refresh_token_hash x = sr_refresh_token_hash r \<and> sr_revoked_at x \<noteq> None"
    using z x_sel later_session_sel(2) [OF x2(2)] by auto
qed

lemma rotation_step_inv: "rotation_step env w w' \<Longrightarrow> rotation_inv w \<Longrightarrow> rotation_inv w'"
proof (induction rule: rotation_step.induct)
  case (rot_found c hash w r d)
  then show ?case using rotate_lookup_Inr [OF rot_found(1)] by (auto simp: rotation_inv_def later_session_def)
next
  case (rot_refused c hash w e d)
  then show ?case using rotation_inv_last rotate_lookup_last by blast
next
  case (rot_granted r w c tokens d)
  note claim = rotation_claim [OF rot_granted(3,1,2)]
  have "rotation_inv (w\<lparr>rw_db := d\<rparr>)" using rotation_inv_last [OF rot_granted(3) rotate_commit_last(1) [OF rot_granted(2)]] .
  then show ?case using claim by (auto simp: rotation_inv_def dest: notin_set_remove1)
next
  case (rot_failed r w c e d)
  have "rotation_inv (w\<lparr>rw_db := d\<rparr>)" using rotation_inv_last [OF rot_failed(3) rotate_commit_last(1) [OF rot_failed(2)]] .
  then show ?case by (auto simp: rotation_inv_def dest: notin_set_remove1)
qed (simp_all add: rotation_inv_last login_last register_last logout_last)

text \<open>
  C13. However many requests present one refresh token at the same time to the relational store, and whatever
  statements or replies are lost on the way: at most one of them is answered with tokens, its session is revoked, and
  the same token is refused from then on.
\<close>

theorem refresh_single_use_concurrent:
  assumes "(rotation_step env)\<^sup>*\<^sup>* w0 w" and "rw_answered w0 = []" "rw_waiting w0 = []" and "sessions_wf (ad_pg (rw_db w0))"
  shows "distinct (rw_answered w) \<and>
    (\<forall>h \<in> set (rw_answered w). (\<exists>r \<in> set (pg_sessions (ad_pg (rw_db w))). sr_refresh_token_hash r = h \<and> sr_revoked_at r \<noteq> None) \<and>
      (\<forall>c. isl (fst (rotate_refresh_token_pg env c h (rw_db w)))))"
proof -
  have inv: "rotation_inv w" using assms(1)
  proof (induction rule: rtranclp_induct)
    case base
    then show ?case using assms(2-4) by (simp add: rotation_inv_def)
  next
    case (step w1 w2)
    then show ?case using rotation_step_inv by blast
  qed
  have refused: "isl (fst (rotate_refresh_token_pg env c h (rw_db w)))"
    if x: "x \<in> set (pg_sessions (ad_pg (rw_db w)))" "sr_refresh_token_hash x = h" "sr_revoked_at x \<noteq> None" for c h x
  proof (cases "rotate_lookup env c h (rw_db w)")
    case (Pair q d)
    have "isl q"
    proof (cases q)
      case (Inr r)
      then have "r = x"
        using rotate_lookup_Inr [of env c h "rw_db w" r d] Pair inv sessions_wf_hash(1) [of "ad_pg (rw_db w)" r x] x by (simp add: rotation_inv_def)
      then show ?thesis using rotate_lookup_Inr [of env c h "rw_db w" r d] Pair Inr x(3) by simp
    qed simp
    then show ?thesis using Pair by (cases q) (simp_all add: rotate_refresh_token_pg_def)
  qed
  then show ?thesis using inv by (auto simp: rotation_inv_def)
qed

subsection \<open>An undisturbed rotation\<close>

text \<open>Seeding a book that exists succeeds and touches accounts and changes only.\<close>

definition same_people :: "pg \<Rightarrow> pg \<Rightarrow> bool" where
  "same_people s s' \<longleftrightarrow> pg_books s' = pg_books s \<and> pg_members s' = pg_members s \<and> pg_sessions s' = pg_sessions s \<and>
     pg_subscriptions s' = pg_subscriptions s"

lemma seed_account_runs:
  assumes "b \<in> set (map bk_id (pg_books s))"
  shows "\<exists>s'. seed_account_pg b k s = (Inr (), s') \<and> same_people s s'"
  using assms
  by (cases k) (simp add: seed_account_pg_def insert_account_if_absent_def insert_account_def insert_default_account_change_pg_def
      insert_change_def sql_modify_def sql_bind_def Let_def same_people_def)

lemma seed_runs:
  assumes "b \<in> set (map bk_id (pg_books s))"
  shows "\<exists>s'. sql_mapM (seed_account_pg b) ks s = (Inr (), s') \<and> same_people s s'"
  using assms
proof (induction ks arbitrary: s)
  case Nil
  show ?case by (simp add: same_people_def)
next
  case (Cons k ks)
  obtain s1 where 1: "seed_account_pg b k s = (Inr (), s1)" "same_people s s1"
    using seed_account_runs [OF Cons.prems] by blast
  then have "b \<in> set (map bk_id (pg_books s1))" using Cons.prems by (simp add: same_people_def)
  from Cons.IH [OF this] obtain s2 where "sql_mapM (seed_account_pg b) ks s1 = (Inr (), s2)" "same_people s1 s2" by blast
  then show ?case using 1 by (simp add: sql_bind_def same_people_def)
qed

lemma first_book_in: "first_book u s = Some b \<Longrightarrow> b \<in> set (map bk_id (pg_books s))"
  by (auto simp: first_book_def find_Some_iff)

text \<open>A rotation that nothing disturbs is answered with tokens.\<close>

lemma rotate_commit_runs:
  assumes runs: "\<And>n. pa_fate c n = Runs" and book: "first_book (sr_user_id r) (ad_pg d) = Some b"
    and tokens: "tokens_for env c (sr_user_id r) (sr_device_id r) = Inr tk"
    and row: "filter (\<lambda>x. sr_id x = sr_id r \<and> sr_revoked_at x = None \<and> session_fresh (pa_now c 6) x) (pg_sessions (ad_pg d)) = [x]"
    and new: "ac_session_id (pa_call c) \<notin> set (map sr_id (pg_sessions (ad_pg d)))"
      "ae_hash_token env (ac_random_token (pa_call c)) \<notin> set (map sr_refresh_token_hash (pg_sessions (ad_pg d)))"
    and user: "sr_user_id r \<in> set (user_ids d)"
  shows "\<exists>tk' d'. rotate_commit env c r d = (Inr tk', d')"
proof -
  obtain s1 where s1: "ensure_default_accounts_pg b (ad_pg d) = (Inr (), s1)" "same_people (ad_pg d) s1"
    using seed_runs [OF first_book_in [OF book]] by (auto simp: ensure_default_accounts_pg_def)
  then have e: "ensure_demo_book_pg c (sr_user_id r) d = (Inr b, d\<lparr>ad_pg := s1\<rparr>)"
    by (simp add: ensure_demo_book_pg_def on_pg_def runs in_tx_def book)
  obtain s2 where s2: "rotate_tx env c (user_ids d) r s1 = (Inr True, s2)"
  proof -
    let ?p = "\<lambda>x. sr_id x = sr_id r \<and> sr_revoked_at x = None \<and> session_fresh (pa_now c 6) x"
    obtain n sx where u: "update_sessions ?p (pa_now c 6) s1 = (Inr n, sx)" by (simp add: update_sessions_def)
    then have "n = 1" and sx: "pg_subscriptions sx = pg_subscriptions s1"
        "pg_sessions sx = map (\<lambda>x. if ?p x then x\<lparr>sr_revoked_at := Some (pa_now c 6)\<rparr> else x) (pg_sessions s1)"
      using s1(2) row by (auto simp add: update_sessions_def same_people_def)
    have ids: "map sr_id (pg_sessions sx) = map sr_id (pg_sessions (ad_pg d))"
      "map sr_refresh_token_hash (pg_sessions sx) = map sr_refresh_token_hash (pg_sessions (ad_pg d))"
      using s1(2) by (simp_all add: sx(2) same_people_def)
    show thesis
      by (rule that, unfold rotate_tx_def u \<open>n = 1\<close>)
        (use new user in \<open>simp add: sql_bind_def insert_session_def insert_subscription_def sql_modify_def new_session_row_def ids del: set_map list.set_map\<close>)
  qed
  have ids: "user_ids (d\<lparr>ad_pg := s1\<rparr>) = user_ids d" by (simp add: user_ids_def)
  show ?thesis
    by (simp add: rotate_commit_def Let_def e plan_pg_def on_pg_def runs in_tx_def tokens s2 ids)
qed

subsection \<open>Witnesses\<close>

definition ex_auth_row :: session_row where
  "ex_auth_row = \<lparr>sr_id = ''s1'', sr_user_id = ''u1'', sr_device_id = ''phone'', sr_refresh_token_hash = ''sha:'' @ ex_token ''1'',
     sr_created_at = 0, sr_revoked_at = None\<rparr>"

definition ex_auth_db :: auth_db where
  "ex_auth_db = \<lparr>ad_users = [\<lparr>usr_id = ''u1'', usr_email = ''ann@example.org'', usr_password_hash = ''argon:correct horse'', usr_display_name = ''Ann''\<rparr>],
     ad_fx_rates = [], ad_pg = ex_pg\<lparr>pg_sessions := [ex_auth_row], pg_members := [\<lparr>mem_book_id = ''b1'', mem_user_id = ''u1'', mem_role = ''owner''\<rparr>]\<rparr>\<rparr>"

definition ex_pg_auth_call :: "string \<Rightarrow> pg_auth_call" where
  "ex_pg_auth_call n = \<lparr>pa_call = ex_auth_call n, pa_now = int, pa_fate = (\<lambda>_. Runs)\<rparr>"

definition ex_world :: rotation_world where
  "ex_world = \<lparr>rw_db = ex_auth_db, rw_waiting = [], rw_answered = []\<rparr>"

lemma ex_lookup: "rotate_lookup ex_auth_env (ex_pg_auth_call n) (''sha:'' @ ex_token ''1'') ex_auth_db = (Inr ex_auth_row, ex_auth_db)"
  by (simp add: rotate_lookup_def on_pg_def ex_pg_auth_call_def in_tx_def ex_auth_db_def ex_auth_row_def session_fresh_def hours_def)

lemma ex_commit: "\<exists>tk d. rotate_commit ex_auth_env (ex_pg_auth_call ''2'') ex_auth_row ex_auth_db = (Inr tk, d)"
proof (rule rotate_commit_runs)
  show "pa_fate (ex_pg_auth_call ''2'') n = Runs" for n by (simp add: ex_pg_auth_call_def)
  show "first_book (sr_user_id ex_auth_row) (ad_pg ex_auth_db) = Some ''b1''" by code_simp
  show "tokens_for ex_auth_env (ex_pg_auth_call ''2'') (sr_user_id ex_auth_row) (sr_device_id ex_auth_row) =
      Inr (projr (tokens_for ex_auth_env (ex_pg_auth_call ''2'') (sr_user_id ex_auth_row) (sr_device_id ex_auth_row)))"
    by (simp add: tokens_for_def build_token_response_def Let_def)
  show "filter (\<lambda>x. sr_id x = sr_id ex_auth_row \<and> sr_revoked_at x = None \<and> session_fresh (pa_now (ex_pg_auth_call ''2'') 6) x)
      (pg_sessions (ad_pg ex_auth_db)) = [ex_auth_row]"
    by (simp add: ex_auth_db_def ex_auth_row_def session_fresh_def hours_def ex_pg_auth_call_def)
  show "ac_session_id (pa_call (ex_pg_auth_call ''2'')) \<notin> set (map sr_id (pg_sessions (ad_pg ex_auth_db)))"
    by (simp add: ex_auth_db_def ex_auth_row_def ex_pg_auth_call_def ex_auth_call_def)
  show "ae_hash_token ex_auth_env (ac_random_token (pa_call (ex_pg_auth_call ''2''))) \<notin>
      set (map sr_refresh_token_hash (pg_sessions (ad_pg ex_auth_db)))"
    by (simp add: ex_auth_db_def ex_auth_row_def ex_pg_auth_call_def ex_auth_call_def ex_token_def)
  show "sr_user_id ex_auth_row \<in> set (user_ids ex_auth_db)"
    by (simp add: ex_auth_db_def ex_auth_row_def user_ids_def)
qed

text \<open>Two requests find the session, one is answered; nobody gets tokens for it again.\<close>

theorem refresh_single_use_concurrent_witness:
  "\<exists>w. (rotation_step ex_auth_env)\<^sup>*\<^sup>* ex_world w \<and> rw_answered w = [''sha:'' @ ex_token ''1''] \<and> rw_waiting w = [ex_auth_row] \<and>
     isl (fst (rotate_refresh_token_pg ex_auth_env (ex_pg_auth_call ''3'') (''sha:'' @ ex_token ''1'') (rw_db w)))"
proof -
  obtain tk d where commit: "rotate_commit ex_auth_env (ex_pg_auth_call ''2'') ex_auth_row ex_auth_db = (Inr tk, d)"
    using ex_commit by blast
  let ?w1 = "ex_world\<lparr>rw_db := ex_auth_db, rw_waiting := [ex_auth_row]\<rparr>"
  let ?w2 = "?w1\<lparr>rw_db := ex_auth_db, rw_waiting := [ex_auth_row, ex_auth_row]\<rparr>"
  let ?w3 = "?w2\<lparr>rw_db := d, rw_waiting := [ex_auth_row], rw_answered := [''sha:'' @ ex_token ''1'']\<rparr>"
  have 1: "rotation_step ex_auth_env ex_world ?w1"
    using rot_found [of ex_auth_env _ _ ex_world, unfolded ex_world_def rotation_world.simps, OF ex_lookup] by (simp add: ex_world_def)
  have 2: "rotation_step ex_auth_env ?w1 ?w2"
    using rot_found [of ex_auth_env _ _ ?w1, unfolded ex_world_def rotation_world.simps, OF ex_lookup] by (simp add: ex_world_def)
  have 3: "rotation_step ex_auth_env ?w2 ?w3"
    using rot_granted [of ex_auth_row ?w2 ex_auth_env "ex_pg_auth_call ''2''" tk d] commit by (simp add: ex_world_def ex_auth_row_def)
  have run: "(rotation_step ex_auth_env)\<^sup>*\<^sup>* ex_world ?w3"
    using 1 2 3 by (meson converse_rtranclp_into_rtranclp rtranclp.rtrancl_refl)
  have "sessions_wf (ad_pg (rw_db ex_world))"
    by (simp add: sessions_wf_def ex_world_def ex_auth_db_def)
  from refresh_single_use_concurrent [OF run _ _ this] have "isl (fst (rotate_refresh_token_pg ex_auth_env (ex_pg_auth_call ''3'') (''sha:'' @ ex_token ''1'') (rw_db ?w3)))"
    by (simp add: ex_world_def)
  then show ?thesis using run by (intro exI [of _ ?w3]) simp
qed

end
