(* ===== verification/Spec2Isabelle.thy ===== *)
theory Spec2Isabelle
  imports Sync_Mem_Laws Sync_Pull Sync_Api Sync_Pg_Pull Sync_Pg_Inv Sync_Refinement Auth_Laws Attachment_Inv
    Object_Backup Report_Trend Rate_Limit Server Job_Execution Bundle_Laws Backup_Runtime_Laws Config S3_Laws
    Backup_Metrics Http_Edge Startup Auth_Pg
begin

text \<open>
  \<^bold>\<open>A verification development of the ledgerly server.\<close>

  ledgerly is a personal double-entry ledger with offline clients. Its server (\<open>src/server\<close>, Rust with
  axum and sqlx) keeps books of accounts and transactions for its users, in memory
  (\<open>MemoryStore\<close>, state.rs) or in PostgreSQL. Clients push mutations with a base version and pull an
  ordered change log; the server also issues tokens, stores attachments, reports on books, runs jobs in the
  background, and backs database and objects up into encrypted bundles. Only the Rust sources of the server are modelled; the file names below are relative to
  \<open>src/server/src\<close>.

  \<^bold>\<open>Parts and theories.\<close>
  \<^item> \<open>Prelude\<close>: i32, i64 and i128 as integers with their wrap-around (\<open>wrap_signed\<close>), \<open>HashMap\<close> as an
    association list with distinct keys and \<open>BTreeMap\<close> as a sorted one, behind one interface
    (\<open>finite_map\<close>); Rust strings as UTF-8 byte strings (\<open>trim\<close>, \<open>parse_signed\<close>, decimal printing);
    \<open>serde_json::Value\<close> as \<open>json\<close>; errors as \<open>api_error\<close> with status and code.
  \<^item> \<open>Ledger_Domain\<close> (crates/ledger-domain): \<open>validate_balanced\<close> with every error.
  \<^item> \<open>Store_State\<close> (state.rs): the records of the in-memory store and the default accounts.
    \<open>Store_Inv\<close>: its invariant \<open>store_inv\<close> and the two elementary writes \<open>put_account\<close> and
    \<open>put_transaction\<close>, each of which appends to the change log.
  \<^item> \<open>Sync_Payload\<close>, \<open>Sync_Push\<close>, \<open>Sync_Mem\<close>, \<open>Sync_Mem_Laws\<close> (transport/http/sync.rs, in-memory half):
    reading of mutations, the push loop with its receipts, and the handlers of account and
    transaction mutations. \<open>receipt_store\<close> is the contract of a store that answers a mutation once; both
    stores interpret it.
  \<^item> \<open>Change_Feed\<close>, \<open>Sync_Pull\<close> (pull and bootstrap): paging of the change log under the contract
    \<open>change_feed\<close>, interpreted by both stores, and the snapshot of a book.
  \<^item> \<open>Pg_Store\<close>, \<open>Sync_Pg\<close>, \<open>Sync_Pg_Laws\<close>, \<open>Sync_Pg_Inv\<close>, \<open>Sync_Pg_Pull\<close> (the PostgreSQL half of sync.rs):
    the tables with their constraints, SQL statements as functions that may fail, transactions that
    commit or roll back; \<open>sql_order\<close> lifts what each statement keeps to whole transactions.
    \<open>Sync_Refinement\<close> relates a database to an in-memory store by \<open>sim\<close> and shows that a push step on
    the one is the push step on the other. A row keeps the microseconds of a time (\<open>to_micros\<close>), the in-memory
    store and the payloads of the log its nanoseconds; \<open>sim\<close> compares what a row keeps. \<open>Sync_Api\<close>: the endpoints, over whichever store runs.
  \<^item> \<open>Authz\<close> (transport/http/authz.rs): bearer tokens, live sessions, membership and plans.
    \<open>Auth\<close>, \<open>Auth_Laws\<close> (transport/http/auth.rs): registration, login, refresh tokens and logout over the in-memory store.
    \<open>Auth_Pg\<close>: the same over the tables, where a rotation reads a session and claims it in a later transaction, with
    other requests in between.
    \<open>Audit_Trail\<close> (infrastructure/audit.rs): the bounded trail and its paged query.
  \<^item> \<open>Object_Store\<close>, \<open>Object_Backup\<close> (infrastructure/object_store.rs): keys, signed URLs, local objects
    and multipart uploads; backup, verification and restoration.
    \<open>Attachments\<close>, \<open>Attachment_Laws\<close>, \<open>Attachment_Inv\<close> (transport/http/commercial.rs): upload sessions, completion
    and catalogue over any object store; \<open>verified_store\<close> is what completion needs of one, interpreted
    by the local backend.
    \<open>Object_S3\<close>, \<open>S3_Laws\<close>: the same calls over a bucket, with backup, restoration and migration, under \<open>s3_laws\<close>,
    which state what the documentation of the client promises; \<open>verified_store\<close> holds of the bucket, too.
  \<^item> \<open>Backup_Bundle\<close>, \<open>Bundle_Laws\<close>, \<open>Bundle_Retention\<close> (infrastructure/backup_bundle.rs): the format of bundles, with
    chunks encrypted and authenticated one by one, their verification, unpacking, replication and retention.
    \<open>Backup_Status\<close> (backup_status.rs): readiness. \<open>Backup_Runtime\<close>, \<open>Backup_Trees\<close>, \<open>Backup_Runtime_Laws\<close>
    (backup_runtime.rs): backup and restore runs over two directories, composed of the bundles and of \<open>Object_Backup\<close>.
    \<open>Recovery_Drill\<close>: the drill, which restores the newest bundle into a temporary database next to the others.
  \<^item> \<open>Metrics\<close> (metrics.rs): the registry of counters, gauges and histograms and everything that records into it.
    \<open>Backup_Metrics\<close> (backup_status.rs, backup_runtime.rs, health.rs): status files, what a scrape records of backups,
    and the health endpoints.
  \<^item> \<open>Http_Edge\<close> (router.rs, bootstrap.rs, error.rs, obs.rs, audit.rs): routes, body limits, ids of requests and errors.
    \<open>Startup\<close> (bootstrap.rs, jobs.rs): the jobs that each start puts into the queue, and the chains they make with
    the workers that execute them, whatever statements are lost (\<open>scan_life\<close>).
  \<^item> \<open>Job_Queue\<close> (infrastructure/jobs.rs): the table of jobs and any number of workers as a step relation.
    \<open>Job_Execution\<close> (jobs.rs, attachment_cleanup.rs): what each job does to the database and the objects.
  \<^item> \<open>Config\<close> (config.rs): from the environment to a validated configuration.
  \<^item> \<open>Float64\<close>, \<open>Reports\<close>, \<open>Report_Laws\<close>, \<open>Calendar\<close>, \<open>Report_Trend\<close> (transport/http/reports.rs): f64 as rationals
    with rounding to nearest; summary, trend, budget report, exchange rates. \<open>calendar_laws\<close> is what the
    months need of the \<open>time\<close> crate, interpreted by the proleptic Gregorian calendar.
  \<^item> \<open>Rate_Limit\<close> (infrastructure/rate_limit.rs): token buckets with rounded tokens.
  \<^item> \<open>Books\<close> (transport/http/books.rs, ledger.rs, billing.rs and the rest of commercial.rs), and \<open>Server\<close>: every
    request that changes the in-memory store as one step relation.

  \<^bold>\<open>How the model corresponds to the code.\<close> A handler is a function from its arguments and the store to
  a result and the store; every early return is an \<open>Inl\<close> or a receipt. What a handler reads from outside
  (clock, fresh UUIDs, headers, configuration) is an argument: \<open>call\<close>, \<open>pg_call\<close>, \<open>auth_call\<close>, \<open>att_call\<close>,
  \<open>web_call\<close>, \<open>rule_call\<close>, \<open>job_call\<close>, \<open>bundle_call\<close>, \<open>backup_env\<close>, \<open>restore_env\<close>. Code of other crates is a parameter: password hashing and token signing (\<open>auth_env\<close>,
  \<open>jwt_config\<close>), SHA-256 and HMAC, key derivation and authenticated encryption (\<open>crypto\<close> with \<open>crypto_laws\<close>), RFC 3339 (\<open>rfc3339\<close>), URL
  parsing, the JSON encoder (\<open>to_vec\<close>), the S3 client (\<open>s3_client\<close>), the calendar, and the programs \<open>pg_dump\<close> and \<open>pg_restore\<close>. Each theorem that relies on such a parameter names what it assumes of it, and
  has a witness with a concrete instance. A handler is one atomic step. For the in-memory store this is
  the store's write lock; handlers that release it between two sections (attachments, login) are
  modelled as if no other request came between. A SQL transaction is atomic, and each of its statements may fail.

  \<^bold>\<open>What is shown.\<close>
  \<^item> Ledger: \<open>validate_balanced\<close> accepts exactly the drafts that sum up to zero in one currency within
    i64, and each error has its exact cause; a push keeps the store's invariant in both stores;
    after any requests of the whole in-memory server, transactions are balanced and the log holds
    exactly their versions (\<open>Server\<close>).
  \<^item> Synchronisation: replays are answered from their receipts and change nothing; of two writers with
    one base version the second is rejected, unless it deletes and names no version; a push touches its own book only (under the stated
    freshness); pulling from any cursor ends and delivers every later change once and in order,
    no page splits a commit; a snapshot and the changes after its cursor are the current book;
    the relational store refines the in-memory one.
  \<^item> Access: a request passes exactly with a valid token of a live session, and sync only for
    members; refresh tokens are single-use, also among requests at the same time on the database; sessions keep
    their invariant, logout is final, what login issues works.
  \<^item> Attachments and objects: what is uploaded in parts is read back; ready means verified; signed URLs
    have one scope; a backup restores what it copied, and a failed restoration leaves the objects as they were, unless a
    directory could not be moved. A migration needs that no file collides with what is at its place.
  \<^item> Backups: a bundle verifies and unpacks to what it was made of, and what is unpacked is listed and intact
    whatever the directory holds; a successful run can be restored; a restore changes nothing before a safety backup;
    retention spares the newest bundles; a drill leaves nothing behind, unless its database could not be dropped or the
    reply to its creation was lost, and one that passes foretells the restore. A \<open>pg_restore\<close> that fails may leave
    anything (\<open>re_left\<close>, \<open>de_left\<close>).
    Two schedules that lose data or space are exhibited.
  \<^item> Jobs: no job is in two hands and none is attempted more than five times; every job keeps the invariant of the
    tables; a recurring rule posts and advances together or not at all, or is skipped and only advances. What stops the queue is exhibited too:
    jobs of a worker that crashed, and a rule that cannot be read. Starts of the server multiply the scans for recurring rules.
  \<^item> Monitoring and the edge: metrics stay within a fixed number of series per method, each state metric shows one
    state, a status file is replaced as a whole; files that the signed route is too narrow for are exhibited.
  \<^item> Configuration: what is accepted in production has no missing, default or placeholder secret.
  \<^item> Reports: floating-point budget status agrees with integer arithmetic up to 9e14; totals are exact sums;
    the months of a trend partition time. Rate limiting: tokens stay in bounds despite rounding.

  \<^bold>\<open>Bounds and termination.\<close> All definitions are total. Loops are structural recursions, except for
  the following of pages, whose theorem states that it ends and after how many pages.
  Payloads have fewer than \<open>2 ^ 63\<close> entries (\<open>payload_fits\<close>), which is what a machine can hold.
  Sums of i64 in the reports wrap, as in a release build.

  \<^bold>\<open>Not modelled.\<close> The SQL branches of commercial.rs, books.rs, ledger.rs, billing.rs and reports.rs; the command line (main.rs),
  listeners, CORS and timeouts (bootstrap.rs), and the functions of obs.rs that only write log lines; the connection pool
  and the migrations of sqlx; HTTP framing; the client applications in Dart and Kotlin.
\<close>

end
